(* ===== verification/Prelude.thy ===== *)
theory Prelude
  imports Complex_Main "HOL-Library.Multiset"
begin

text \<open>
  Shared ground of the development: the application errors that the services raise (as
  values of a sum type), the two-argument sequencing of fallible steps, the Python
  string operations the services use on identifiers and reasons, the JSON values that go
  into audit and event payloads, and list lemmas on sums and keyed lookups.
\<close>

named_theorems result_simps \<open>evaluation of fallible steps\<close>
named_theorems money_simps \<open>rounding of amounts already in pence\<close>
named_theorems table_simps \<open>reading a table after it was written\<close>

subsection \<open>Application errors\<close>

text \<open>
  The exception classes of \<^verbatim>\<open>app/common/exceptions.py\<close> that the modelled services raise.
  \<open>IntegrityError\<close> is the SQLAlchemy error a violated unique index raises; the
  handler of the same file turns it into a 409; \<open>InvalidOperation\<close> is what \<^verbatim>\<open>Decimal\<close> raises on
  a text that is no number and \<open>MultipleResultsFound\<close> what \<^verbatim>\<open>scalar_one_or_none\<close> raises on two rows and
  \<open>NoResultFound\<close> what \<^verbatim>\<open>scalar_one\<close> raises on none: unhandled exceptions and so a 500.
\<close>

datatype app_error =
    NotFoundError string string
  | ConflictError string
  | IdempotencyConflictError
  | ForbiddenError string
  | ValidationError string
  | AuthenticationError string
  | InvalidStateTransitionError string string string
  | RateLimitError string int
  | PaymentProviderUnavailableError
  | IntegrityError string
  | InvalidOperation string
  | MultipleResultsFound string
  | NoResultFound
  | StorageProviderError string

fun status_code :: "app_error \<Rightarrow> nat" where
  "status_code (NotFoundError _ _) = 404"
| "status_code (ConflictError _) = 409"
| "status_code IdempotencyConflictError = 409"
| "status_code (ForbiddenError _) = 403"
| "status_code (ValidationError _) = 422"
| "status_code (AuthenticationError _) = 401"
| "status_code (InvalidStateTransitionError _ _ _) = 409"
| "status_code (RateLimitError _ _) = 429"
| "status_code PaymentProviderUnavailableError = 503"
| "status_code (IntegrityError _) = 409"
| "status_code (InvalidOperation _) = 500"
| "status_code (MultipleResultsFound _) = 500"
| "status_code NoResultFound = 500"
| "status_code (StorageProviderError _) = 500"

type_synonym 'a result = "app_error + 'a"

definition bind_result :: "'a result \<Rightarrow> ('a \<Rightarrow> 'b result) \<Rightarrow> 'b result" where
  "bind_result m f = (case m of Inl e \<Rightarrow> Inl e | Inr x \<Rightarrow> f x)"

lemma bind_result_simps [simp, result_simps]:
  "bind_result (Inl e) f = Inl e"
  "bind_result (Inr x) f = f x"
  by (simp_all add: bind_result_def)

lemma bind_result_Inr_iff [simp]:
  "bind_result m f = Inr y \<longleftrightarrow> (\<exists>x. m = Inr x \<and> f x = Inr y)"
  by (cases m) auto

lemma bind_result_InrE:
  assumes "bind_result m f = Inr y"
  obtains x where "m = Inr x" "f x = Inr y"
  using assms by auto

lemma bind_result_Inl_iff:
  "bind_result m f = Inl e \<longleftrightarrow> m = Inl e \<or> (\<exists>x. m = Inr x \<and> f x = Inl e)"
  by (cases m) auto

lemma bind_result_cong [fundef_cong]:
  "m = n \<Longrightarrow> (\<And>x. n = Inr x \<Longrightarrow> f x = g x) \<Longrightarrow> bind_result m f = bind_result n g"
  by (cases n) auto

lemma map_sum_Inr: "map_sum id f m = Inr y \<longleftrightarrow> (\<exists>x. m = Inr x \<and> f x = y)"
  by (cases m) auto

lemma result_ok:
  "(case m of Inl e \<Rightarrow> False | Inr x \<Rightarrow> Q x) \<longleftrightarrow> (\<exists>x. m = Inr x \<and> Q x)"
  by (cases m) auto

fun map_result :: "('a \<Rightarrow> 'b result) \<Rightarrow> 'a list \<Rightarrow> 'b list result" where
  \<comment> \<open>a loop over a list that stops at the first exception\<close>
  "map_result f [] = Inr []"
| "map_result f (x # xs) = bind_result (f x) (\<lambda>y. bind_result (map_result f xs) (\<lambda>ys. Inr (y # ys)))"

lemma map_result_Inr: "map_result f xs = Inr ys \<longleftrightarrow> list_all2 (\<lambda>x y. f x = Inr y) xs ys"
  by (induction xs arbitrary: ys) (auto simp: list_all2_Cons1)

lemma map_result_length: "map_result f xs = Inr ys \<Longrightarrow> length ys = length xs"
  by (simp add: map_result_Inr list_all2_lengthD)

lemma map_result_total: "(\<And>x. x \<in> set xs \<Longrightarrow> \<exists>y. f x = Inr y) \<Longrightarrow> \<exists>ys. map_result f xs = Inr ys"
proof (induction xs)
  case (Cons x xs)
  then obtain y ys where "f x = Inr y" "map_result f xs = Inr ys" by (metis list.set_intros)
  then show ?case by simp
qed simp

lemma snd_in_enumerate: "x \<in> set (enumerate n xs) \<Longrightarrow> snd x \<in> set xs"
  by (induction xs arbitrary: n) auto

lemma list_all2_enumerate:
  "list_all2 P (enumerate n xs) ys \<Longrightarrow> list_all2 (\<lambda>x y. \<exists>i. P (i, x) y) xs ys"
  by (induction xs arbitrary: n ys) (auto simp: list_all2_Cons1)

fun check_all :: "('a \<Rightarrow> unit result) \<Rightarrow> 'a list \<Rightarrow> unit result" where
  "check_all f [] = Inr ()"
| "check_all f (x # xs) = bind_result (f x) (\<lambda>_. check_all f xs)"

lemma check_all_ok: "check_all f xs = Inr () \<longleftrightarrow> (\<forall>x \<in> set xs. f x = Inr ())"
  by (induction xs) auto

subsection \<open>Python string operations\<close>

text \<open>
  Strings are lists of characters; the identifiers, codes and reasons of the services are
  ASCII. \<open>strip\<close> drops the ASCII white space that \<^verbatim>\<open>str.strip()\<close> drops and \<open>py_upper\<close>
  is \<^verbatim>\<open>str.upper()\<close> on ASCII letters. An optional string is falsy when it is
  \<^verbatim>\<open>None\<close> or empty.
\<close>

definition is_space :: "char \<Rightarrow> bool" where
  "is_space c \<longleftrightarrow> (of_char c :: nat) \<in> {9, 10, 11, 12, 13, 28, 29, 30, 31, 32}"

definition strip :: "string \<Rightarrow> string" where
  "strip s = rev (dropWhile is_space (rev (dropWhile is_space s)))"

definition upper_char :: "char \<Rightarrow> char" where
  "upper_char c = (let n = of_char c :: nat in if 97 \<le> n \<and> n \<le> 122 then char_of (n - 32) else c)"

definition py_upper :: "string \<Rightarrow> string" where
  "py_upper s = map upper_char s"

definition lower_char :: "char \<Rightarrow> char" where
  "lower_char c = (let n = of_char c :: nat in if 65 \<le> n \<and> n \<le> 90 then char_of (n + 32) else c)"

definition py_lower :: "string \<Rightarrow> string" where
  "py_lower s = map lower_char s"

fun py_in :: "string \<Rightarrow> string \<Rightarrow> bool" where
  \<comment> \<open>\<^verbatim>\<open>needle in haystack\<close>: the needle is a contiguous part of the haystack\<close>
  "py_in needle [] \<longleftrightarrow> needle = []"
| "py_in needle (c # cs) \<longleftrightarrow> take (length needle) (c # cs) = needle \<or> py_in needle cs"

definition py_replace_char :: "char \<Rightarrow> char \<Rightarrow> string \<Rightarrow> string" where
  "py_replace_char a b s = map (\<lambda>c. if c = a then b else c) s"

definition is_letter :: "char \<Rightarrow> bool" where
  "is_letter c = (let n = of_char c :: nat in 65 \<le> n \<and> n \<le> 90 \<or> 97 \<le> n \<and> n \<le> 122)"

fun title_from :: "bool \<Rightarrow> string \<Rightarrow> string" where
  "title_from in_word [] = []"
| "title_from in_word (c # cs) =
     (if is_letter c then (if in_word then lower_char c else upper_char c) # title_from True cs
      else c # title_from False cs)"

definition py_title :: "string \<Rightarrow> string" where
  \<comment> \<open>\<^verbatim>\<open>str.title()\<close>\<close>
  "py_title s = title_from False s"

definition str_or :: "string option \<Rightarrow> string \<Rightarrow> string" where
  \<comment> \<open>\<^verbatim>\<open>x or d\<close> on an optional string\<close>
  "str_or x d = (case x of None \<Rightarrow> d | Some s \<Rightarrow> if s = '''' then d else s)"

definition str_or_none :: "string \<Rightarrow> string option" where
  \<comment> \<open>\<^verbatim>\<open>x or None\<close> on a string\<close>
  "str_or_none s = (if s = '''' then None else Some s)"

definition truthy_str :: "string option \<Rightarrow> bool" where
  "truthy_str x \<longleftrightarrow> (case x of None \<Rightarrow> False | Some s \<Rightarrow> s \<noteq> '''')"

lemma str_or_simps [simp]:
  "str_or None d = d" "str_or (Some []) d = d" "str_or (Some (c # s)) d = c # s"
  by (simp_all add: str_or_def)

lemma str_or_none_simps [simp]:
  "str_or_none [] = None" "str_or_none (c # s) = Some (c # s)"
  by (simp_all add: str_or_none_def)

lemma truthy_str_simps [simp]:
  "\<not> truthy_str None" "\<not> truthy_str (Some [])" "truthy_str (Some (c # s))"
  by (simp_all add: truthy_str_def)

lemma dropWhile_idem: "dropWhile P (dropWhile P xs) = dropWhile P xs"
  by (induction xs) auto

lemma dropWhile_rev_fixed:
  "dropWhile P xs = xs \<Longrightarrow> dropWhile P (rev (dropWhile P (rev xs))) = rev (dropWhile P (rev xs))"
proof (induction xs)
  case Nil
  then show ?case by simp
next
  case (Cons x xs)
  then have "\<not> P x" using length_dropWhile_le [of P xs] by (auto split: if_splits)
  then have "rev (dropWhile P (rev (x # xs))) = x # rev (dropWhile P (rev xs))"
    by (simp add: dropWhile_append3)
  with \<open>\<not> P x\<close> show ?case by simp
qed

lemma strip_idem [simp]: "strip (strip s) = strip s"
  unfolding strip_def by (simp add: dropWhile_rev_fixed dropWhile_idem)

subsection \<open>JSON payloads\<close>

text \<open>
  \<open>JDec\<close> is an amount rendered with \<^verbatim>\<open>str()\<close>; the other constructors are the JSON
  values of the payload dictionaries.
\<close>

datatype json =
    JNull
  | JBool bool
  | JInt int
  | JStr string
  | JDec rat
  | JList "json list"
  | JObj "(string \<times> json) list"

definition j_str :: "string option \<Rightarrow> json" where
  "j_str x = (case x of None \<Rightarrow> JNull | Some s \<Rightarrow> JStr s)"

definition j_dec :: "rat option \<Rightarrow> json" where
  "j_dec x = (case x of None \<Rightarrow> JNull | Some d \<Rightarrow> JDec d)"

definition j_int :: "int option \<Rightarrow> json" where
  "j_int x = (case x of None \<Rightarrow> JNull | Some d \<Rightarrow> JInt d)"

subsection \<open>Sums over selected rows\<close>

text \<open>
  \<open>sum_where P f rows\<close> is \<^verbatim>\<open>SELECT COALESCE(SUM(f), 0) ... WHERE P\<close>.
\<close>

definition sum_where :: "('r \<Rightarrow> bool) \<Rightarrow> ('r \<Rightarrow> rat) \<Rightarrow> 'r list \<Rightarrow> rat" where
  "sum_where P f rows = sum_list (map f (filter P rows))"

lemma sum_where_simps [simp]:
  "sum_where P f [] = 0"
  "sum_where P f (r # rs) = (if P r then f r else 0) + sum_where P f rs"
  "sum_where P f (rs @ ss) = sum_where P f rs + sum_where P f ss"
  by (simp_all add: sum_where_def)

lemma sum_where_nonneg: "(\<And>r. r \<in> set rs \<Longrightarrow> P r \<Longrightarrow> 0 \<le> f r) \<Longrightarrow> 0 \<le> sum_where P f rs"
  by (induction rs) auto

lemma sum_where_cong:
  "(\<And>r. r \<in> set rs \<Longrightarrow> P r = Q r) \<Longrightarrow> (\<And>r. r \<in> set rs \<Longrightarrow> Q r \<Longrightarrow> f r = g r)
   \<Longrightarrow> sum_where P f rs = sum_where Q g rs"
  by (induction rs) auto

lemma sum_where_none: "(\<And>r. r \<in> set rs \<Longrightarrow> \<not> P r) \<Longrightarrow> sum_where P f rs = 0"
  by (induction rs) auto

lemma sum_where_mono:
  "(\<And>r. r \<in> set rs \<Longrightarrow> P r \<Longrightarrow> f r \<le> g r) \<Longrightarrow> sum_where P f rs \<le> sum_where P g rs"
  by (induction rs) (auto intro: add_mono)

lemma sum_where_filter: "sum_where P f (filter Q rs) = sum_where (\<lambda>r. P r \<and> Q r) f rs"
  by (induction rs) auto

lemma sum_where_split:
  "sum_where P f rs = sum_where (\<lambda>r. P r \<and> Q r) f rs + sum_where (\<lambda>r. P r \<and> \<not> Q r) f rs"
  by (induction rs) auto

lemma sum_where_map: "sum_where P f (map h rs) = sum_where (\<lambda>r. P (h r)) (\<lambda>r. f (h r)) rs"
  by (induction rs) auto

lemma sum_where_member_le:
  "(\<And>s. s \<in> set rs \<Longrightarrow> 0 \<le> f s) \<Longrightarrow> r \<in> set rs \<Longrightarrow> P r \<Longrightarrow> f r \<le> sum_where P f rs"
proof (induction rs)
  case Nil
  then show ?case by simp
next
  case (Cons s rs)
  have "0 \<le> sum_where P f rs" using Cons.prems by (intro sum_where_nonneg) simp
  moreover have "r \<in> set rs \<Longrightarrow> f r \<le> sum_where P f rs" using Cons by simp
  ultimately show ?case using Cons.prems by (auto intro: add_increasing)
qed

subsection \<open>Machines with a guarded invariant\<close>

text \<open>
  The interface of a component that is driven by steps: every step from a good state ends in a
  good state and keeps the promise made to the state before. The lemmas carry both over runs.
\<close>

locale guarded_machine =
  fixes step :: "'s \<Rightarrow> 's \<Rightarrow> bool"
    and good :: "'s \<Rightarrow> bool"
    and promise :: "'s \<Rightarrow> 's \<Rightarrow> bool"
  assumes step_good: "good s \<Longrightarrow> step s t \<Longrightarrow> good t"
    and step_promise: "good s \<Longrightarrow> step s t \<Longrightarrow> promise s t"
    and promise_refl: "promise s s"
    and promise_trans: "promise s t \<Longrightarrow> promise t u \<Longrightarrow> promise s u"
begin

lemma run_good: "step\<^sup>*\<^sup>* s t \<Longrightarrow> good s \<Longrightarrow> good t"
  by (induction rule: rtranclp_induct) (auto intro: step_good)

lemma run_promise: "step\<^sup>*\<^sup>* s t \<Longrightarrow> good s \<Longrightarrow> promise s t"
proof (induction rule: rtranclp_induct)
  case base
  then show ?case by (simp add: promise_refl)
next
  case (step t u)
  then show ?case using run_good step_promise promise_trans by blast
qed

lemma run_invariant:
  "step\<^sup>*\<^sup>* s t \<Longrightarrow> good s \<Longrightarrow> good t \<and> promise s t"
  using run_good run_promise by blast

end

end
