(* ===== verification/Money.thy ===== *)
theory Money
  imports Prelude
begin

text \<open>
  Money of the services: Python's \<^verbatim>\<open>Decimal\<close> as exact rationals, the two rounding modes
  the code uses (\<^verbatim>\<open>quantize(Decimal("0.01"), ROUND_HALF_UP)\<close> and the default
  ROUND_HALF_EVEN), and the decimal text of an amount with its parser.
  \<^verbatim>\<open>Decimal\<close> computes with 28 significant digits and the columns are
  \<^verbatim>\<open>Numeric(10, 2)\<close> or \<^verbatim>\<open>Numeric(14, 2)\<close>: sums and differences of such amounts, and their
  products with a percentage or a weight, are below that bound and exact.
\<close>

definition quantize_half_up :: "rat \<Rightarrow> rat" where
  "quantize_half_up x =
     (if x < 0 then - of_int \<lfloor>- x * 100 + 1 / 2\<rfloor> / 100 else of_int \<lfloor>x * 100 + 1 / 2\<rfloor> / 100)"

definition quantize_half_even :: "rat \<Rightarrow> rat" where
  "quantize_half_even x =
     (let f = \<lfloor>x * 100\<rfloor>; r = x * 100 - of_int f
      in of_int (if r < 1 / 2 then f else if r > 1 / 2 then f + 1
                 else if even f then f else f + 1) / 100)"

definition is_money :: "rat \<Rightarrow> bool" where
  \<comment> \<open>a whole number of pence\<close>
  "is_money x \<longleftrightarrow> of_int \<lfloor>x * 100\<rfloor> = x * 100"

subsection \<open>Whole pence\<close>

lemma is_money_iff: "is_money x \<longleftrightarrow> (\<exists>k::int. x = of_int k / 100)"
proof
  assume "is_money x"
  then have "x = of_int \<lfloor>x * 100\<rfloor> / 100" unfolding is_money_def by linarith
  then show "\<exists>k::int. x = of_int k / 100" by blast
qed (auto simp: is_money_def)

lemma is_money_of_pence [simp, money_simps]: "is_money (of_int k / 100)"
  by (auto simp: is_money_iff)

lemma is_money_0 [simp, money_simps]: "is_money 0"
  by (simp add: is_money_def)

lemma is_money_add [simp, money_simps]: "is_money x \<Longrightarrow> is_money y \<Longrightarrow> is_money (x + y)"
  unfolding is_money_iff by (metis add_divide_distrib of_int_add)

lemma is_money_minus [simp, money_simps]: "is_money x \<Longrightarrow> is_money (- x)"
  unfolding is_money_iff by (metis minus_divide_left of_int_minus)

lemma is_money_diff [simp, money_simps]: "is_money x \<Longrightarrow> is_money y \<Longrightarrow> is_money (x - y)"
  using is_money_add [of x "- y"] by simp

lemma is_money_min [simp, money_simps]: "is_money x \<Longrightarrow> is_money y \<Longrightarrow> is_money (min x y)"
  by (simp add: min_def)

lemma is_money_max [simp, money_simps]: "is_money x \<Longrightarrow> is_money y \<Longrightarrow> is_money (max x y)"
  by (simp add: max_def)

lemma is_money_sum_list: "(\<And>x. x \<in> set xs \<Longrightarrow> is_money x) \<Longrightarrow> is_money (sum_list xs)"
  by (induction xs) auto

lemma is_money_sum_where:
  "(\<And>r. r \<in> set rs \<Longrightarrow> P r \<Longrightarrow> is_money (f r)) \<Longrightarrow> is_money (sum_where P f rs)"
  by (induction rs) auto

lemma is_money_step: "is_money x \<Longrightarrow> is_money y \<Longrightarrow> x < y \<Longrightarrow> x + 1 / 100 \<le> y"
proof -
  assume "is_money x" "is_money y" "x < y"
  then obtain k l :: int where "x = of_int k / 100" "y = of_int l / 100"
    unfolding is_money_iff by blast
  with \<open>x < y\<close> have "k + 1 \<le> l" by (simp add: divide_strict_right_mono)
  then have "(of_int k + 1 :: rat) \<le> of_int l" by (metis of_int_1 of_int_add of_int_le_iff)
  then show ?thesis using \<open>x = _\<close> \<open>y = _\<close> by simp
qed

subsection \<open>Rounding half up\<close>

lemma quantize_half_up_money [simp]: "is_money (quantize_half_up x)"
  unfolding quantize_half_up_def is_money_iff
  by (metis minus_divide_left of_int_minus)

lemma quantize_half_up_id [simp, money_simps]: "is_money x \<Longrightarrow> quantize_half_up x = x"
proof -
  assume "is_money x"
  then obtain k :: int where x: "x = of_int k / 100" by (auto simp: is_money_iff)
  have *: "\<lfloor>of_int j + 1 / 2 :: rat\<rfloor> = j" for j :: int
    by (simp add: floor_eq_iff)
  have "\<lfloor>- x * 100 + 1 / 2\<rfloor> = - k" using * [of "- k"] x by simp
  moreover have "\<lfloor>x * 100 + 1 / 2\<rfloor> = k" using * [of k] x by simp
  ultimately show ?thesis by (simp add: quantize_half_up_def x)
qed

lemma quantize_half_up_idem [simp]: "quantize_half_up (quantize_half_up x) = quantize_half_up x"
  by simp

lemma quantize_half_up_0 [simp]: "quantize_half_up 0 = 0"
  by simp

lemma quantize_half_up_minus: "quantize_half_up (- x) = - quantize_half_up x"
proof (cases "x = 0")
  case True
  then show ?thesis by (simp only: minus_zero quantize_half_up_0)
next
  case False
  then show ?thesis by (auto simp: quantize_half_up_def)
qed

lemma quantize_half_up_nonneg [simp]: "0 \<le> x \<Longrightarrow> 0 \<le> quantize_half_up x"
  by (simp add: quantize_half_up_def)

lemma quantize_half_up_bounds_nonneg:
  assumes "0 \<le> x"
  shows "x - 1 / 200 < quantize_half_up x" and "quantize_half_up x \<le> x + 1 / 200"
proof -
  let ?n = "\<lfloor>x * 100 + 1 / 2\<rfloor>"
  have "of_int ?n \<le> x * 100 + 1 / 2" and "x * 100 + 1 / 2 < of_int ?n + 1"
    using floor_correct [of "x * 100 + 1 / 2"] by simp_all
  then show "x - 1 / 200 < quantize_half_up x" and "quantize_half_up x \<le> x + 1 / 200"
    using assms by (simp_all add: quantize_half_up_def field_simps)
qed

lemma quantize_half_up_error: "\<bar>quantize_half_up x - x\<bar> \<le> 1 / 200"
proof (cases "0 \<le> x")
  case True
  then show ?thesis using quantize_half_up_bounds_nonneg [of x] unfolding abs_le_iff by linarith
next
  case False
  then have "\<bar>quantize_half_up (- x) - (- x)\<bar> \<le> 1 / 200"
    using quantize_half_up_bounds_nonneg [of "- x"] unfolding abs_le_iff by linarith
  then show ?thesis by (simp add: quantize_half_up_minus abs_minus_commute)
qed

lemma quantize_half_up_mono_nonneg:
  "0 \<le> x \<Longrightarrow> x \<le> y \<Longrightarrow> quantize_half_up x \<le> quantize_half_up y"
  by (simp add: quantize_half_up_def divide_right_mono floor_mono)

lemma quantize_half_up_mono: "x \<le> y \<Longrightarrow> quantize_half_up x \<le> quantize_half_up y"
proof -
  assume "x \<le> y"
  consider "0 \<le> x" | "x < 0" "0 \<le> y" | "y < 0" by linarith
  then show ?thesis
  proof cases
    case 1
    then show ?thesis using \<open>x \<le> y\<close> by (rule quantize_half_up_mono_nonneg)
  next
    case 2
    then have "0 \<le> quantize_half_up (- x)" "0 \<le> quantize_half_up y" by simp_all
    then show ?thesis by (simp add: quantize_half_up_minus)
  next
    case 3
    then have "quantize_half_up (- y) \<le> quantize_half_up (- x)"
      using \<open>x \<le> y\<close> by (intro quantize_half_up_mono_nonneg) simp_all
    then show ?thesis by (simp add: quantize_half_up_minus)
  qed
qed

lemma quantize_half_up_le_money: "is_money y \<Longrightarrow> x \<le> y \<Longrightarrow> quantize_half_up x \<le> y"
  using quantize_half_up_mono [of x y] by simp

lemma quantize_half_up_ge_money: "is_money y \<Longrightarrow> y \<le> x \<Longrightarrow> y \<le> quantize_half_up x"
  using quantize_half_up_mono [of y x] by simp

subsection \<open>Rounding half to even\<close>

lemma quantize_half_even_money [simp]: "is_money (quantize_half_even x)"
  by (simp only: quantize_half_even_def Let_def is_money_of_pence)

lemma quantize_half_even_id [simp]: "is_money x \<Longrightarrow> quantize_half_even x = x"
  by (auto simp: quantize_half_even_def is_money_iff)

lemma quantize_half_even_error: "\<bar>quantize_half_even x - x\<bar> \<le> 1 / 200"
proof -
  let ?f = "\<lfloor>x * 100\<rfloor>"
  have "of_int ?f \<le> x * 100" and "x * 100 < of_int ?f + 1"
    using floor_correct [of "x * 100"] by simp_all
  then show ?thesis
    by (auto simp: quantize_half_even_def Let_def abs_le_iff field_simps)
qed

subsection \<open>Decimal text\<close>

text \<open>
  \<open>decimal_text\<close> is \<^verbatim>\<open>format(d.quantize(Decimal("0.01"), ROUND_HALF_UP), "f")\<close> and
  \<open>decimal_of_text\<close> is \<^verbatim>\<open>Decimal(s)\<close> on plain decimal notation (an optional minus sign,
  digits, an optional point and more digits); \<open>None\<close> is \<^verbatim>\<open>InvalidOperation\<close>. The
  two texts of zero, \<^verbatim>\<open>0.00\<close> and \<^verbatim>\<open>-0.00\<close>, are one rational: the model writes the first.
\<close>

definition digit_char :: "nat \<Rightarrow> char" where
  "digit_char d = char_of (48 + d)"

definition is_digit :: "char \<Rightarrow> bool" where
  "is_digit c \<longleftrightarrow> 48 \<le> (of_char c :: nat) \<and> (of_char c :: nat) \<le> 57"

definition digit_value :: "char \<Rightarrow> nat" where
  "digit_value c = of_char c - 48"

fun nat_text :: "nat \<Rightarrow> string" where
  "nat_text n = (if n < 10 then [digit_char n] else nat_text (n div 10) @ [digit_char (n mod 10)])"

declare nat_text.simps [simp del]

definition text_nat :: "string \<Rightarrow> nat" where
  "text_nat s = foldl (\<lambda>a c. 10 * a + digit_value c) 0 s"

definition pence_text :: "nat \<Rightarrow> string" where
  "pence_text c = nat_text (c div 100) @ CHR ''.'' # [digit_char (c mod 100 div 10), digit_char (c mod 10)]"

definition decimal_text :: "rat \<Rightarrow> string" where
  "decimal_text x =
     (let y = quantize_half_up x; t = pence_text (nat \<lfloor>\<bar>y\<bar> * 100\<rfloor>)
      in if y < 0 then CHR ''-'' # t else t)"

definition unsigned_of_text :: "string \<Rightarrow> rat option" where
  "unsigned_of_text t =
     (let ip = takeWhile is_digit t; fr = tl (dropWhile is_digit t)
      in if dropWhile is_digit t = [] then
           (if ip = [] then None else Some (of_nat (text_nat ip)))
         else if hd (dropWhile is_digit t) = CHR ''.'' \<and> list_all is_digit fr \<and> (ip \<noteq> [] \<or> fr \<noteq> [])
         then Some (of_nat (text_nat ip) + of_nat (text_nat fr) / 10 ^ length fr)
         else None)"

definition decimal_of_text :: "string \<Rightarrow> rat option" where
  "decimal_of_text s =
     (case s of
        [] \<Rightarrow> None
      | c # cs \<Rightarrow> if c = CHR ''-'' then map_option uminus (unsigned_of_text cs) else unsigned_of_text s)"

lemma of_char_digit [simp]: "d < 10 \<Longrightarrow> (of_char (digit_char d) :: nat) = 48 + d"
  by (simp add: digit_char_def)

lemma is_digit_char [simp]: "d < 10 \<Longrightarrow> is_digit (digit_char d)"
  by (simp add: is_digit_def)

lemma digit_value_char [simp]: "d < 10 \<Longrightarrow> digit_value (digit_char d) = d"
  by (simp add: digit_value_def)

lemma nat_text_digits: "list_all is_digit (nat_text n)"
proof (induction n rule: nat_text.induct)
  case (1 n)
  then show ?case by (subst nat_text.simps) auto
qed

lemma nat_text_nonempty [simp]: "nat_text n \<noteq> []"
  by (subst nat_text.simps) simp

lemma text_nat_append: "text_nat (s @ [c]) = 10 * text_nat s + digit_value c"
  by (simp add: text_nat_def)

lemma text_nat_text [simp]: "text_nat (nat_text n) = n"
proof (induction n rule: nat_text.induct)
  case (1 n)
  show ?case
  proof (cases "n < 10")
    case True
    then show ?thesis by (subst nat_text.simps) (simp add: text_nat_def)
  next
    case False
    with 1 have "text_nat (nat_text (n div 10)) = n div 10" by simp
    with False show ?thesis by (subst nat_text.simps) (simp add: text_nat_append)
  qed
qed

lemma digit_neq [simp]: "\<not> is_digit CHR ''.''" "\<not> is_digit CHR ''-''"
  by (simp_all add: is_digit_def)

lemma unsigned_of_pence_text: "unsigned_of_text (pence_text c) = Some (of_nat c / 100)"
proof -
  let ?w = "nat_text (c div 100)"
  let ?f = "[digit_char (c mod 100 div 10), digit_char (c mod 10)]"
  have w: "\<And>x. x \<in> set ?w \<Longrightarrow> is_digit x"
    using nat_text_digits [of "c div 100"] by (simp add: list_all_iff)
  then have split: "takeWhile is_digit (pence_text c) = ?w"
      "dropWhile is_digit (pence_text c) = CHR ''.'' # ?f"
    unfolding pence_text_def by (auto simp: takeWhile_append2 dropWhile_append2)
  have d: "c mod 100 div 10 < 10" "c mod 10 < 10" by auto
  have "text_nat ?f = 10 * (c mod 100 div 10) + c mod 10"
    using d by (simp add: text_nat_def)
  moreover have "c mod 10 = c mod 100 mod 10" by (simp add: mod_mod_cancel)
  ultimately have fr: "text_nat ?f = c mod 100" by simp
  have "of_nat (c div 100) + of_nat (c mod 100) / 100 = (of_nat c / 100 :: rat)"
  proof -
    have "(of_nat c :: rat) = of_nat (c div 100 * 100 + c mod 100)" by simp
    also have "\<dots> = of_nat (c div 100) * 100 + of_nat (c mod 100)"
      by (simp only: of_nat_add of_nat_mult of_nat_numeral)
    finally show ?thesis by simp
  qed
  then show ?thesis using d fr by (simp add: unsigned_of_text_def split Let_def)
qed

lemma decimal_of_pence_text: "decimal_of_text (pence_text c) = Some (of_nat c / 100)"
proof -
  have "hd (nat_text (c div 100)) \<in> set (nat_text (c div 100))" by simp
  then have "is_digit (hd (nat_text (c div 100)))"
    using nat_text_digits [of "c div 100"] unfolding list_all_iff by blast
  then have "hd (pence_text c) \<noteq> CHR ''-''" by (auto simp: pence_text_def)
  moreover have "pence_text c \<noteq> []" by (simp add: pence_text_def)
  ultimately obtain d cs where "pence_text c = d # cs" "d \<noteq> CHR ''-''"
    by (metis list.exhaust_sel)
  then show ?thesis
    using unsigned_of_pence_text [of c] by (simp add: decimal_of_text_def)
qed

lemma decimal_text_roundtrip: "decimal_of_text (decimal_text x) = Some (quantize_half_up x)"
proof -
  let ?y = "quantize_half_up x"
  obtain k :: int where k: "?y = of_int k / 100"
    using quantize_half_up_money [of x] by (auto simp only: is_money_iff)
  have pence: "(of_nat (nat \<lfloor>\<bar>?y\<bar> * 100\<rfloor>) :: rat) / 100 = \<bar>?y\<bar>"
    by (simp add: k abs_divide)
  show ?thesis
  proof (cases "?y < 0")
    case True
    then have "decimal_of_text (decimal_text x) = Some (- (of_nat (nat \<lfloor>\<bar>?y\<bar> * 100\<rfloor>) / 100))"
      by (simp only: decimal_text_def Let_def if_True decimal_of_text_def list.case
          unsigned_of_pence_text option.map simp_thms)
    with True show ?thesis unfolding pence by simp
  next
    case False
    then have "decimal_of_text (decimal_text x) = Some (of_nat (nat \<lfloor>\<bar>?y\<bar> * 100\<rfloor>) / 100)"
      by (simp only: decimal_text_def Let_def if_False decimal_of_pence_text)
    with False show ?thesis unfolding pence by simp
  qed
qed

text \<open>The same text computed on integers, for evaluation.\<close>

fun int_text :: "int \<Rightarrow> string" where
  "int_text k = (if k < 10 then [digit_char (nat k)] else int_text (k div 10) @ [digit_char (nat (k mod 10))])"

declare int_text.simps [simp del]

lemma int_text_nat: "nat_text n = int_text (int n)"
proof (induction n rule: nat_text.induct)
  case (1 n)
  show ?case
    by (subst nat_text.simps, subst int_text.simps)
      (use 1 in \<open>simp add: zdiv_int nat_mod_distrib\<close>)
qed

lemma decimal_text_code [code]:
  "decimal_text x =
     (let y = quantize_half_up x; k = \<lfloor>\<bar>y\<bar> * 100\<rfloor>;
          t = int_text (k div 100) @ CHR ''.'' # [digit_char (nat (k mod 100 div 10)), digit_char (nat (k mod 10))]
      in if y < 0 then CHR ''-'' # t else t)"
proof -
  have "0 \<le> \<lfloor>\<bar>y\<bar> * 100\<rfloor>" for y :: rat by simp
  then have "pence_text (nat \<lfloor>\<bar>y\<bar> * 100\<rfloor>) = int_text (\<lfloor>\<bar>y\<bar> * 100\<rfloor> div 100) @ CHR ''.'' #
      [digit_char (nat (\<lfloor>\<bar>y\<bar> * 100\<rfloor> mod 100 div 10)), digit_char (nat (\<lfloor>\<bar>y\<bar> * 100\<rfloor> mod 10))]" for y :: rat
    by (simp add: pence_text_def int_text_nat nat_div_distrib nat_mod_distrib zdiv_int)
  then show ?thesis by (simp add: decimal_text_def Let_def)
qed

lemma decimal_text_quantize [simp]: "decimal_text (quantize_half_up x) = decimal_text x"
  by (simp add: decimal_text_def)

lemma decimal_text_nonempty [simp]: "decimal_text x \<noteq> []"
  using decimal_text_roundtrip [of x] by (auto simp: decimal_of_text_def)


subsection \<open>Amounts in JSON values\<close>

text \<open>
  An amount in a stored JSON document is a number or a decimal text.
\<close>

datatype price_field = PNum rat | PText string

definition truthy_price :: "price_field option \<Rightarrow> bool" where
  "truthy_price x = (case x of None \<Rightarrow> False | Some (PNum d) \<Rightarrow> d \<noteq> 0 | Some (PText s) \<Rightarrow> s \<noteq> '''')"

definition to_decimal :: "price_field \<Rightarrow> rat result" where
  \<comment> \<open>\<^verbatim>\<open>Decimal(str(x))\<close>\<close>
  "to_decimal x =
     (case x of
        PNum d \<Rightarrow> Inr d
      | PText s \<Rightarrow> (case decimal_of_text s of None \<Rightarrow> Inl (InvalidOperation s) | Some d \<Rightarrow> Inr d))"

definition decimal_or_zero :: "price_field option \<Rightarrow> rat result" where
  \<comment> \<open>\<^verbatim>\<open>Decimal(str(x or "0"))\<close>\<close>
  "decimal_or_zero x = (if truthy_price x then to_decimal (the x) else Inr 0)"

lemma decimal_or_zero_text [simp]:
  "decimal_or_zero (Some (PText (decimal_text x))) = Inr (quantize_half_up x)"
  by (simp add: decimal_or_zero_def truthy_price_def to_decimal_def decimal_text_roundtrip)

lemma truthy_price_text [simp]: "truthy_price (Some (PText (decimal_text x)))"
  by (simp add: truthy_price_def)

lemma to_decimal_text [simp]: "to_decimal (PText (decimal_text x)) = Inr (quantize_half_up x)"
  by (simp add: to_decimal_def decimal_text_roundtrip)

end
