(* ===== verification/Repository.thy ===== *)
theory Repository
  imports Prelude
begin

text \<open>
  The generic repository of \<^verbatim>\<open>app/common/repository.py\<close> over a table, which is the list
  of its rows in insertion order. A row of a model that derives from \<^verbatim>\<open>BaseModel\<close> carries
  the primary key and the optimistic-lock version; the tables of the services extend it.
  The scope filters (row-level access control) are a predicate on rows. The interface
  \<open>versioned_store\<close> states what a client of the repository relies on: a commit
  against the current version succeeds and bumps it, a commit against a stale version is
  refused, and other rows are not touched.
\<close>

record row =
  rid :: string
  version :: int

type_synonym 'a table = "'a row_scheme list"

definition get_by_id :: "string \<Rightarrow> ('a row_scheme \<Rightarrow> bool) \<Rightarrow> 'a table \<Rightarrow> 'a row_scheme option" where
  "get_by_id i scope rows = find (\<lambda>r. rid r = i \<and> scope r) rows"

definition get_by_id_or_404 ::
    "string \<Rightarrow> string \<Rightarrow> ('a row_scheme \<Rightarrow> bool) \<Rightarrow> 'a table \<Rightarrow> 'a row_scheme result" where
  "get_by_id_or_404 resource i scope rows =
     (case get_by_id i scope rows of None \<Rightarrow> Inl (NotFoundError resource i) | Some r \<Rightarrow> Inr r)"

definition create_row :: "'a row_scheme \<Rightarrow> 'a table \<Rightarrow> 'a table result" where
  "create_row r rows =
     (if rid r \<in> rid ` set rows then Inl (IntegrityError ''primary key'') else Inr (rows @ [r]))"

definition write_row :: "('a row_scheme \<Rightarrow> 'a row_scheme) \<Rightarrow> 'a row_scheme \<Rightarrow> 'a row_scheme" where
  \<comment> \<open>the immutable fields are never overwritten and the version is bumped\<close>
  "write_row f r = (f r)\<lparr>rid := rid r, version := version r + 1\<rparr>"

definition atomic_versioned_update ::
    "string \<Rightarrow> string \<Rightarrow> ('a row_scheme \<Rightarrow> 'a row_scheme) \<Rightarrow> int \<Rightarrow> 'a table \<Rightarrow> 'a table result" where
  "atomic_versioned_update resource i f expected rows =
     (if \<exists>r \<in> set rows. rid r = i \<and> version r = expected
      then Inr (map (\<lambda>r. if rid r = i \<and> version r = expected then write_row f r else r) rows)
      else Inl (ConflictError (resource @ '' was modified by another request.'')))"

definition update_by_id ::
    "string \<Rightarrow> string \<Rightarrow> ('a row_scheme \<Rightarrow> 'a row_scheme) \<Rightarrow> int option \<Rightarrow> ('a row_scheme \<Rightarrow> bool)
     \<Rightarrow> 'a table \<Rightarrow> ('a table \<times> 'a row_scheme) result" where
  "update_by_id resource i f expected scope rows =
     bind_result (get_by_id_or_404 resource i scope rows) (\<lambda>r.
     case expected of
       Some v \<Rightarrow>
         bind_result (atomic_versioned_update resource i f v rows) (\<lambda>rows'.
         bind_result (get_by_id_or_404 resource i scope rows') (\<lambda>r'. Inr (rows', r')))
     | None \<Rightarrow>
         Inr (map (\<lambda>s. if rid s = i \<and> scope s then write_row f s else s) rows, write_row f r))"

definition hard_delete ::
    "string \<Rightarrow> string \<Rightarrow> ('a row_scheme \<Rightarrow> bool) \<Rightarrow> 'a table \<Rightarrow> 'a table result" where
  "hard_delete resource i scope rows =
     bind_result (get_by_id_or_404 resource i scope rows) (\<lambda>r.
     Inr (filter (\<lambda>s. rid s \<noteq> rid r) rows))"

definition distinct_ids :: "'a table \<Rightarrow> bool" where
  "distinct_ids rows \<longleftrightarrow> distinct (map rid rows)"

subsection \<open>Reading\<close>

lemma find_Some_set: "find P xs = Some x \<Longrightarrow> x \<in> set xs \<and> P x"
  by (induction xs) (auto split: if_splits)

lemma get_by_id_Some: "get_by_id i scope rows = Some r \<Longrightarrow> r \<in> set rows \<and> rid r = i \<and> scope r"
  unfolding get_by_id_def by (drule find_Some_set) simp

lemma get_or_404_Inr [simp]:
  "get_by_id_or_404 resource i scope rows = Inr r \<longleftrightarrow> get_by_id i scope rows = Some r"
  by (simp add: get_by_id_or_404_def split: option.splits)

lemma get_or_404_Inl:
  "get_by_id_or_404 resource i scope rows = Inl e \<longleftrightarrow>
     get_by_id i scope rows = None \<and> e = NotFoundError resource i"
  by (auto simp: get_by_id_or_404_def split: option.splits)

lemma get_by_id_Nil [simp]: "get_by_id i scope [] = None"
  by (simp add: get_by_id_def)

lemma get_by_id_Cons [simp]:
  "get_by_id i scope (r # rs) = (if rid r = i \<and> scope r then Some r else get_by_id i scope rs)"
  by (simp add: get_by_id_def)

lemma get_by_id_None: "get_by_id i scope rows = None \<longleftrightarrow> (\<forall>r \<in> set rows. rid r = i \<longrightarrow> \<not> scope r)"
  by (induction rows) auto

lemma get_by_id_distinct:
  "distinct_ids rows \<Longrightarrow> r \<in> set rows \<Longrightarrow> scope r \<Longrightarrow> get_by_id (rid r) scope rows = Some r"
  unfolding distinct_ids_def by (induction rows) force+

lemma get_by_id_append [simp]:
  "get_by_id i scope (rs @ ss) =
     (case get_by_id i scope rs of None \<Rightarrow> get_by_id i scope ss | Some r \<Rightarrow> Some r)"
  by (induction rs) auto

lemma distinct_ids_unique: "distinct_ids rows \<Longrightarrow> r \<in> set rows \<Longrightarrow> s \<in> set rows \<Longrightarrow> rid r = rid s \<Longrightarrow> r = s"
  unfolding distinct_ids_def by (metis distinct_map inj_onD)

subsection \<open>Writing\<close>

lemma rid_write_row [simp]: "rid (write_row f r) = rid r"
  and version_write_row [simp]: "version (write_row f r) = version r + 1"
  by (simp_all add: write_row_def)

lemma create_row_Inr:
  "create_row r rows = Inr rows' \<longleftrightarrow> rid r \<notin> rid ` set rows \<and> rows' = rows @ [r]"
  by (auto simp: create_row_def)

lemma create_row_distinct: "distinct_ids rows \<Longrightarrow> create_row r rows = Inr rows' \<Longrightarrow> distinct_ids rows'"
  by (auto simp: create_row_Inr distinct_ids_def)

lemma create_row_get [table_simps]:
  "create_row r rows = Inr rows' \<Longrightarrow> rid r = i \<Longrightarrow> scope r \<Longrightarrow> get_by_id i scope rows' = Some r"
  by (auto simp: create_row_Inr get_by_id_None image_iff split: option.splits
      dest!: get_by_id_Some)

lemma atomic_update_ids:
  "atomic_versioned_update resource i f v rows = Inr rows' \<Longrightarrow> map rid rows' = map rid rows"
  by (auto simp: atomic_versioned_update_def split: if_splits)

lemma atomic_update_distinct:
  "atomic_versioned_update resource i f v rows = Inr rows' \<Longrightarrow> distinct_ids rows \<Longrightarrow> distinct_ids rows'"
  by (simp add: distinct_ids_def atomic_update_ids)

lemma atomic_update_get_other:
  "atomic_versioned_update resource i f v rows = Inr rows' \<Longrightarrow> j \<noteq> i
   \<Longrightarrow> get_by_id j scope rows' = get_by_id j scope rows"
proof -
  assume *: "atomic_versioned_update resource i f v rows = Inr rows'" "j \<noteq> i"
  have "get_by_id j scope (map (\<lambda>r. if rid r = i \<and> version r = v then write_row f r else r) rows)
      = get_by_id j scope rows"
    using \<open>j \<noteq> i\<close> by (induction rows) auto
  with * show ?thesis by (auto simp: atomic_versioned_update_def split: if_splits)
qed

lemma atomic_update_get_same:
  "distinct_ids rows \<Longrightarrow> get_by_id i (\<lambda>_. True) rows = Some r \<Longrightarrow> version r = v
   \<Longrightarrow> atomic_versioned_update resource i f v rows =
        Inr (map (\<lambda>s. if rid s = i then write_row f s else s) rows)"
proof -
  assume *: "distinct_ids rows" "get_by_id i (\<lambda>_. True) rows = Some r" "version r = v"
  then have "\<And>s. s \<in> set rows \<Longrightarrow> rid s = i \<Longrightarrow> s = r"
    by (metis get_by_id_distinct option.inject)
  then have "map (\<lambda>s. if rid s = i \<and> version s = v then write_row f s else s) rows
      = map (\<lambda>s. if rid s = i then write_row f s else s) rows"
    using *(3) by (intro map_cong) auto
  moreover have "\<exists>s \<in> set rows. rid s = i \<and> version s = v"
    using *(2,3) by (auto dest: get_by_id_Some)
  ultimately show ?thesis by (simp add: atomic_versioned_update_def)
qed

lemma atomic_update_stale:
  "distinct_ids rows \<Longrightarrow> get_by_id i (\<lambda>_. True) rows = Some r \<Longrightarrow> version r \<noteq> v
   \<Longrightarrow> atomic_versioned_update resource i f v rows =
        Inl (ConflictError (resource @ '' was modified by another request.''))"
proof -
  assume *: "distinct_ids rows" "get_by_id i (\<lambda>_. True) rows = Some r" "version r \<noteq> v"
  then have "\<And>s. s \<in> set rows \<Longrightarrow> rid s = i \<Longrightarrow> s = r"
    by (metis get_by_id_distinct option.inject)
  with *(3) show ?thesis by (auto simp: atomic_versioned_update_def)
qed

lemma get_by_id_map_write:
  "get_by_id i (\<lambda>_. True) rows = Some r
   \<Longrightarrow> get_by_id i (\<lambda>_. True) (map (\<lambda>s. if rid s = i then write_row f s else s) rows) = Some (write_row f r)"
  by (induction rows) auto

lemma distinct_ids_map_write:
  "distinct_ids (map (\<lambda>s. if P s then write_row f s else s) rows) = distinct_ids rows"
proof -
  have "map rid (map (\<lambda>s. if P s then write_row f s else s) rows) = map rid rows" by simp
  then show ?thesis unfolding distinct_ids_def by (rule arg_cong)
qed

lemma update_by_id_distinct:
  "distinct_ids rows \<Longrightarrow> update_by_id resource i f v scope rows = Inr (rows', r) \<Longrightarrow> distinct_ids rows'"
  unfolding update_by_id_def
  by (auto simp: distinct_ids_map_write split: option.splits dest: atomic_update_distinct)

subsection \<open>The interface of a store with optimistic locking\<close>

locale versioned_store =
  fixes lookup :: "'t \<Rightarrow> string \<Rightarrow> 'r option"
    and ver :: "'r \<Rightarrow> int"
    and commit :: "string \<Rightarrow> ('r \<Rightarrow> 'r) \<Rightarrow> int \<Rightarrow> 't \<Rightarrow> 't result"
    and valid :: "'t \<Rightarrow> bool"
  assumes commit_current: "valid t \<Longrightarrow> lookup t i = Some r \<Longrightarrow> \<exists>t'. commit i f (ver r) t = Inr t'"
    and commit_stale: "valid t \<Longrightarrow> lookup t i = Some r \<Longrightarrow> ver r \<noteq> v \<Longrightarrow> \<exists>e. commit i f v t = Inl (ConflictError e)"
    and commit_missing: "valid t \<Longrightarrow> lookup t i = None \<Longrightarrow> \<exists>e. commit i f v t = Inl e"
    and commit_bumps: "valid t \<Longrightarrow> lookup t i = Some r \<Longrightarrow> commit i f v t = Inr t'
        \<Longrightarrow> \<exists>r'. lookup t' i = Some r' \<and> ver r' = ver r + 1"
    and commit_frame: "valid t \<Longrightarrow> commit i f v t = Inr t' \<Longrightarrow> j \<noteq> i \<Longrightarrow> lookup t' j = lookup t j"
    and commit_valid: "valid t \<Longrightarrow> commit i f v t = Inr t' \<Longrightarrow> valid t'"
begin

text \<open>Two writers that read the same version: the second is refused.\<close>

lemma no_lost_update:
  assumes "valid t" and "commit i f v t = Inr t'"
  shows "\<exists>e. commit i g v t' = Inl (ConflictError e)"
proof -
  obtain r where r: "lookup t i = Some r"
    using commit_missing [of t i f v] assms by (cases "lookup t i") auto
  then have "ver r = v" using commit_stale [OF assms(1) r, of v f] assms(2) by force
  moreover obtain r' where "lookup t' i = Some r'" "ver r' = ver r + 1"
    using commit_bumps [OF assms(1) r assms(2)] by blast
  ultimately show ?thesis using commit_stale [of t' i r' v g] commit_valid assms by auto
qed

text \<open>
  A run of attempts, each against the version its writer read: attempts that fail leave the
  store as it was.
\<close>

fun attempts :: "string \<Rightarrow> (('r \<Rightarrow> 'r) \<times> int) list \<Rightarrow> 't \<Rightarrow> 't \<times> nat" where
  "attempts i [] t = (t, 0)"
| "attempts i ((f, v) # ws) t =
     (case commit i f v t of
        Inl e \<Rightarrow> attempts i ws t
      | Inr t' \<Rightarrow> (let (u, n) = attempts i ws t' in (u, Suc n)))"

lemma attempts_version:
  assumes "valid t" and "lookup t i = Some r" and "attempts i ws t = (u, n)"
  shows "valid u \<and> (\<exists>s. lookup u i = Some s \<and> ver s = ver r + int n)"
  using assms
proof (induction ws arbitrary: t r n)
  case Nil
  then show ?case by simp
next
  case (Cons w ws)
  obtain f v where w: "w = (f, v)" by (cases w)
  show ?case
  proof (cases "commit i f v t")
    case (Inl e)
    with Cons w show ?thesis by simp
  next
    case (Inr t')
    obtain m where m: "attempts i ws t' = (u, m)" "n = Suc m"
      using Cons.prems(3) w Inr by (auto split: prod.splits)
    obtain r' where "lookup t' i = Some r'" "ver r' = ver r + 1"
      using commit_bumps [OF Cons.prems(1,2) Inr] by blast
    then show ?thesis
      using Cons.IH [OF commit_valid [OF Cons.prems(1) Inr] _ m(1), of r'] m(2) by auto
  qed
qed

lemma attempts_frame:
  "valid t \<Longrightarrow> attempts i ws t = (u, n) \<Longrightarrow> j \<noteq> i \<Longrightarrow> lookup u j = lookup t j"
proof (induction ws arbitrary: t n)
  case Nil
  then show ?case by simp
next
  case (Cons w ws)
  obtain f v where w: "w = (f, v)" by (cases w)
  show ?case
  proof (cases "commit i f v t")
    case (Inl e)
    with Cons w show ?thesis by simp
  next
    case (Inr t')
    then obtain m where "attempts i ws t' = (u, m)"
      using Cons.prems(2) w by (auto split: prod.splits)
    then show ?thesis
      using Cons.IH [OF commit_valid [OF Cons.prems(1) Inr]] Cons.prems(3)
        commit_frame [OF Cons.prems(1) Inr] by simp
  qed
qed

end

definition commit_row ::
    "string \<Rightarrow> string \<Rightarrow> ('a row_scheme \<Rightarrow> 'a row_scheme) \<Rightarrow> int \<Rightarrow> 'a table \<Rightarrow> 'a table result" where
  "commit_row resource i f v rows =
     bind_result (update_by_id resource i f (Some v) (\<lambda>_. True) rows) (\<lambda>(rows', _). Inr rows')"

lemma commit_row_current:
  "distinct_ids rows \<Longrightarrow> get_by_id i (\<lambda>_. True) rows = Some r \<Longrightarrow> version r = v
   \<Longrightarrow> commit_row resource i f v rows = Inr (map (\<lambda>s. if rid s = i then write_row f s else s) rows)"
  by (simp add: commit_row_def update_by_id_def get_by_id_or_404_def atomic_update_get_same
      get_by_id_map_write)

lemma commit_row_stale:
  "distinct_ids rows \<Longrightarrow> get_by_id i (\<lambda>_. True) rows = Some r \<Longrightarrow> version r \<noteq> v
   \<Longrightarrow> commit_row resource i f v rows = Inl (ConflictError (resource @ '' was modified by another request.''))"
  by (simp add: commit_row_def update_by_id_def get_by_id_or_404_def atomic_update_stale)

lemma commit_row_missing:
  "get_by_id i (\<lambda>_. True) rows = None \<Longrightarrow> commit_row resource i f v rows = Inl (NotFoundError resource i)"
  by (simp add: commit_row_def update_by_id_def get_by_id_or_404_def)

lemma commit_row_cases:
  assumes "distinct_ids rows" "commit_row resource i f v rows = Inr rows'"
  obtains r where "get_by_id i (\<lambda>_. True) rows = Some r" "version r = v"
    "rows' = map (\<lambda>s. if rid s = i then write_row f s else s) rows"
proof (cases "get_by_id i (\<lambda>_. True) rows")
  case None
  then show ?thesis using assms(2) commit_row_missing [of i rows resource f v] by simp
next
  case (Some r)
  then have "version r = v"
    using assms commit_row_stale [OF assms(1) Some, of v resource f] by auto
  then show ?thesis
    using that [OF Some] commit_row_current [OF assms(1) Some, of v resource f] assms(2) by simp
qed

lemma get_by_id_map_write_other:
  "j \<noteq> i \<Longrightarrow> get_by_id j scope (map (\<lambda>s. if rid s = i then write_row f s else s) rows) = get_by_id j scope rows"
  by (induction rows) auto

interpretation repo: versioned_store
  "\<lambda>rows i. get_by_id i (\<lambda>_. True) rows" version "commit_row resource" distinct_ids
  for resource :: string
proof
  fix t :: "'a table" and i r f
  assume "distinct_ids t" "get_by_id i (\<lambda>_. True) t = Some r"
  then show "\<exists>t'. commit_row resource i f (version r) t = Inr t'"
    by (simp add: commit_row_current)
next
  fix t :: "'a table" and i r v f
  assume "distinct_ids t" "get_by_id i (\<lambda>_. True) t = Some r" "version r \<noteq> v"
  then show "\<exists>e. commit_row resource i f v t = Inl (ConflictError e)"
    by (simp add: commit_row_stale)
next
  fix t :: "'a table" and i f v
  assume "get_by_id i (\<lambda>_. True) t = None"
  then show "\<exists>e. commit_row resource i f v t = Inl e"
    by (simp add: commit_row_missing)
next
  fix t t' :: "'a table" and i r f v
  assume "distinct_ids t" "get_by_id i (\<lambda>_. True) t = Some r" "commit_row resource i f v t = Inr t'"
  then show "\<exists>r'. get_by_id i (\<lambda>_. True) t' = Some r' \<and> version r' = version r + 1"
    by (auto elim!: commit_row_cases simp: get_by_id_map_write)
next
  fix t t' :: "'a table" and i f v j
  assume "distinct_ids t" "commit_row resource i f v t = Inr t'" "j \<noteq> i"
  then show "get_by_id j (\<lambda>_. True) t' = get_by_id j (\<lambda>_. True) t"
    by (auto elim!: commit_row_cases simp: get_by_id_map_write_other)
next
  fix t t' :: "'a table" and i f v
  assume valid: "distinct_ids t" and "commit_row resource i f v t = Inr t'"
  then obtain r where "t' = map (\<lambda>s. if rid s = i then write_row f s else s) t"
    by (rule commit_row_cases)
  with valid show "distinct_ids t'" by (simp only: distinct_ids_map_write)
qed

end
