(* ===== verification/AuditTrail.thy ===== *)
theory AuditTrail
  imports Prelude "HOL-Library.List_Lexorder" "HOL-Library.Char_ord"
begin

text \<open>
  The append-only audit log of \<^verbatim>\<open>app/modules/audit\<close>: the keyword arguments of a call of
  \<^verbatim>\<open>AuditService.log\<close> (the services hand them over in order), the row the call writes with
  its hash chain per organisation, and the verification endpoint. SHA-256 over the canonical
  JSON text is the parameter \<open>digest\<close> (previous hash or the empty string, payload).
  Instants are integers (microseconds since the epoch).
\<close>

subsection \<open>Calls\<close>

record audit_call =
  ac_action :: string
  ac_entity_type :: string
  ac_entity_id :: "string option"
  ac_entity_ref :: "string option"
  ac_user_id :: "string option"
  ac_user_role :: "string option"
  ac_old_value :: "(string \<times> json) list option"
  ac_new_value :: "(string \<times> json) list option"
  ac_ip_address :: "string option"
  ac_user_agent :: "string option"
  ac_reason :: "string option"
  ac_organization_id :: "string option"
  ac_category :: string
  ac_event_type :: string
  ac_severity :: string
  ac_session_id :: "string option"
  ac_correlation_id :: "string option"

record audit_request =
  rq_forwarded_for :: "string option"
  rq_client_host :: "string option"
  rq_user_agent :: "string option"
  rq_session_id :: "string option"
  rq_correlation_id :: "string option"

record audit_row =
  al_id :: string
  al_call :: audit_call
  al_browser :: string
  al_device :: string
  al_os :: string
  al_created_at :: int
  al_audit_ref :: "string option"
  al_prev_hash :: "string option"
  al_integrity_hash :: "string option"

subsection \<open>User agent and address\<close>

definition parse_ua :: "string option \<Rightarrow> string \<times> string \<times> string" where
  "parse_ua ua_str =
     (if \<not> truthy_str ua_str then (''Unknown'', ''Unknown'', ''Unknown'')
      else let ua = py_lower (str_or ua_str '''');
        browser =
          (if py_in ''edg/'' ua then ''Microsoft Edge''
           else if py_in ''opr/'' ua \<or> py_in ''opera'' ua then ''Opera''
           else if py_in ''vivaldi'' ua then ''Vivaldi''
           else if py_in ''chrome'' ua then ''Google Chrome''
           else if py_in ''firefox'' ua then ''Mozilla Firefox''
           else if py_in ''safari'' ua \<and> \<not> py_in ''chrome'' ua then ''Safari''
           else ''Other'');
        os =
          (if py_in ''windows nt 10.0'' ua then (if py_in ''chrome'' ua then ''Windows 11'' else ''Windows 10'')
           else if py_in ''windows nt 6.3'' ua then ''Windows 8.1''
           else if py_in ''mac os x'' ua then ''macOS''
           else if py_in ''iphone'' ua then ''iOS''
           else if py_in ''android'' ua then ''Android''
           else if py_in ''ubuntu'' ua then ''Ubuntu''
           else if py_in ''debian'' ua then ''Debian''
           else if py_in ''fedora'' ua then ''Fedora''
           else if py_in ''linux'' ua then ''Linux''
           else ''Other'');
        device =
          (if py_in ''tablet'' ua \<or> py_in ''ipad'' ua then ''Tablet''
           else if py_in ''mobi'' ua then ''Mobile'' else ''Desktop'')
      in (browser, device, os))"

definition extract_ip_address :: "audit_request option \<Rightarrow> string option" where
  "extract_ip_address rq =
     (case rq of
        None \<Rightarrow> None
      | Some r \<Rightarrow>
          if truthy_str (rq_forwarded_for r)
          then str_or_none (strip (takeWhile (\<lambda>c. c \<noteq> CHR '','') (str_or (rq_forwarded_for r) '''')))
          else rq_client_host r)"

subsection \<open>Writing a row\<close>

definition j_id :: "string option \<Rightarrow> json" where
  \<comment> \<open>\<^verbatim>\<open>str(x) if x else None\<close>\<close>
  "j_id x = (if truthy_str x then JStr (str_or x '''') else JNull)"

definition integrity_payload :: "audit_row \<Rightarrow> json" where
  "integrity_payload e = (let c = al_call e in JObj
     [(''id'', j_id (Some (al_id e))),
      (''action'', JStr (ac_action c)),
      (''category'', JStr (ac_category c)),
      (''event_type'', JStr (ac_event_type c)),
      (''entity_type'', JStr (ac_entity_type c)),
      (''entity_id'', j_id (ac_entity_id c)),
      (''user_id'', j_id (ac_user_id c)),
      (''organization_id'', j_id (ac_organization_id c)),
      (''old_value'', case ac_old_value c of None \<Rightarrow> JNull | Some kvs \<Rightarrow> JObj kvs),
      (''new_value'', case ac_new_value c of None \<Rightarrow> JNull | Some kvs \<Rightarrow> JObj kvs),
      (''ip_address'', j_str (ac_ip_address c)),
      (''session_id'', j_id (ac_session_id c)),
      (''correlation_id'', j_id (ac_correlation_id c)),
      (''created_at'', JInt (al_created_at e))])"

definition compute_integrity_hash ::
    "(string \<Rightarrow> json \<Rightarrow> string) \<Rightarrow> string option \<Rightarrow> json \<Rightarrow> string" where
  "compute_integrity_hash digest prev_hash payload = digest (str_or prev_hash '''') payload"

fun newest :: "audit_row list \<Rightarrow> audit_row option" where
  \<comment> \<open>\<^verbatim>\<open>ORDER BY created_at DESC, id DESC LIMIT 1\<close>\<close>
  "newest [] = None"
| "newest (r # rs) =
     (case newest rs of
        None \<Rightarrow> Some r
      | Some s \<Rightarrow> if al_created_at s < al_created_at r
                    \<or> al_created_at s = al_created_at r \<and> al_id s < al_id r
                  then Some r else Some s)"

definition latest_hash_for_org :: "string option \<Rightarrow> audit_row list \<Rightarrow> string option" where
  "latest_hash_for_org org rows =
     (if \<not> truthy_str org then None
      else case newest (filter (\<lambda>r. ac_organization_id (al_call r) = org \<and> al_integrity_hash r \<noteq> None) rows) of
             None \<Rightarrow> None
           | Some r \<Rightarrow> al_integrity_hash r)"

definition resolve_call ::
    "(string \<Rightarrow> string option) \<Rightarrow> audit_request option \<Rightarrow> audit_call \<Rightarrow> audit_call" where
  "resolve_call role_of rq c =
     (let ip = (if ac_ip_address c = None then extract_ip_address rq else ac_ip_address c);
          ua = (case (ac_user_agent c, rq) of (None, Some r) \<Rightarrow> rq_user_agent r | _ \<Rightarrow> ac_user_agent c);
          sid = (case (ac_session_id c, rq) of (None, Some r) \<Rightarrow> rq_session_id r | _ \<Rightarrow> ac_session_id c);
          cid = (case (ac_correlation_id c, rq) of (None, Some r) \<Rightarrow> rq_correlation_id r | _ \<Rightarrow> ac_correlation_id c);
          role = (case (ac_user_role c, ac_user_id c) of (None, Some u) \<Rightarrow> role_of u | _ \<Rightarrow> ac_user_role c)
      in c\<lparr>ac_ip_address := ip, ac_user_agent := ua, ac_session_id := sid,
           ac_correlation_id := cid, ac_user_role := role\<rparr>)"

definition audit_ref_text :: "string \<Rightarrow> string \<Rightarrow> string" where
  "audit_ref_text year i = ''AUD-'' @ year @ ''-'' @ py_upper (take 8 i)"

definition audit_log ::
    "(string \<Rightarrow> json \<Rightarrow> string) \<Rightarrow> (string \<Rightarrow> string option) \<Rightarrow> audit_request option
     \<Rightarrow> string \<Rightarrow> int \<Rightarrow> string \<Rightarrow> audit_call \<Rightarrow> audit_row list \<Rightarrow> audit_row list result" where
  \<comment> \<open>\<open>i\<close> is the new row's UUID, \<open>now\<close> its creation time, \<open>year\<close> the text of the year\<close>
  "audit_log digest role_of rq i now year c rows =
     (let c' = resolve_call role_of rq c;
          (browser, device, os) = parse_ua (ac_user_agent c');
          prev = latest_hash_for_org (ac_organization_id c') rows;
          e = \<lparr>al_id = i, al_call = c', al_browser = browser, al_device = device, al_os = os,
               al_created_at = now, al_audit_ref = Some (audit_ref_text year i),
               al_prev_hash = prev, al_integrity_hash = None\<rparr>;
          h = compute_integrity_hash digest prev (integrity_payload e)
      in if i \<in> al_id ` set rows then Inl (IntegrityError ''audit_log primary key'')
         else Inr (rows @ [e\<lparr>al_integrity_hash := Some h\<rparr>]))"

subsection \<open>The verification endpoint\<close>

record integrity_verification =
  iv_ok :: bool
  iv_expected :: "string option"
  iv_found :: "string option"
  iv_reason :: "string option"

definition assert_audit_org_scope :: "string \<Rightarrow> string option \<Rightarrow> string \<Rightarrow> unit result" where
  "assert_audit_org_scope role user_org org =
     (if role \<noteq> ''CUSTOMER_B2B'' then Inr ()
      else if \<not> truthy_str user_org \<or> user_org \<noteq> Some org
      then Inl (ForbiddenError ''You do not have access to this organisation.'')
      else Inr ())"

definition get_log_by_id ::
    "(string \<Rightarrow> string option) \<Rightarrow> string \<Rightarrow> string \<Rightarrow> audit_row list \<Rightarrow> audit_row option" where
  \<comment> \<open>\<open>org_of\<close> is the organisation of a user\<close>
  "get_log_by_id org_of org i rows =
     find (\<lambda>r. al_id r = i \<and>
        (ac_organization_id (al_call r) = Some org \<or>
         (case ac_user_id (al_call r) of None \<Rightarrow> False | Some u \<Rightarrow> org_of u = Some org))) rows"

definition verify_row :: "(string \<Rightarrow> json \<Rightarrow> string) \<Rightarrow> audit_row \<Rightarrow> integrity_verification" where
  "verify_row digest r =
     (if \<not> truthy_str (al_integrity_hash r)
      then \<lparr>iv_ok = False, iv_expected = None, iv_found = None,
            iv_reason = Some ''No integrity hash recorded (legacy row).''\<rparr>
      else let expected = compute_integrity_hash digest (al_prev_hash r) (integrity_payload r);
               good = (Some expected = al_integrity_hash r)
        in \<lparr>iv_ok = good, iv_expected = Some expected, iv_found = al_integrity_hash r,
            iv_reason = (if good then None else Some ''Hash mismatch.'')\<rparr>)"

definition verify_audit_integrity ::
    "(string \<Rightarrow> json \<Rightarrow> string) \<Rightarrow> (string \<Rightarrow> string option) \<Rightarrow> string \<Rightarrow> string option \<Rightarrow> string \<Rightarrow> string
     \<Rightarrow> audit_row list \<Rightarrow> integrity_verification result" where
  "verify_audit_integrity digest org_of role user_org org i rows =
     bind_result (assert_audit_org_scope role user_org org) (\<lambda>_.
     case get_log_by_id org_of org i rows of
       None \<Rightarrow> Inl (NotFoundError ''Audit log'' i)
     | Some r \<Rightarrow> Inr (verify_row digest r))"

subsection \<open>The chain\<close>

definition org_rows :: "string \<Rightarrow> audit_row list \<Rightarrow> audit_row list" where
  "org_rows org rows = filter (\<lambda>r. ac_organization_id (al_call r) = Some org) rows"

fun linked :: "(string \<Rightarrow> json \<Rightarrow> string) \<Rightarrow> string option \<Rightarrow> audit_row list \<Rightarrow> bool" where
  "linked digest prev [] = True"
| "linked digest prev (r # rs) =
     (al_prev_hash r = prev \<and>
      al_integrity_hash r = Some (compute_integrity_hash digest prev (integrity_payload r)) \<and>
      linked digest (al_integrity_hash r) rs)"

definition chain_ok :: "(string \<Rightarrow> json \<Rightarrow> string) \<Rightarrow> audit_row list \<Rightarrow> bool" where
  "chain_ok digest rows \<longleftrightarrow> (\<forall>org. org \<noteq> '''' \<longrightarrow> linked digest None (org_rows org rows))"

abbreviation in_time_order :: "audit_row list \<Rightarrow> bool" where
  "in_time_order \<equiv> sorted_wrt (\<lambda>r s. al_created_at r < al_created_at s)"

lemma newest_None [simp]: "newest rs = None \<longleftrightarrow> rs = []"
  by (cases rs) (auto split: option.splits)

lemma newest_snoc:
  "\<forall>r \<in> set rs. al_created_at r < al_created_at x \<Longrightarrow> newest (rs @ [x]) = Some x"
  by (induction rs) auto

lemma newest_last:
  assumes "in_time_order rs" and "rs \<noteq> []"
  shows "newest rs = Some (last rs)"
proof -
  have "rs = butlast rs @ [last rs]" using assms(2) by simp
  then show ?thesis using assms(1) newest_snoc [of "butlast rs" "last rs"]
    by (metis sorted_wrt_append list.set_intros(1))
qed

lemma linked_append:
  "linked digest prev (rs @ [x]) \<longleftrightarrow> linked digest prev rs \<and>
     linked digest (if rs = [] then prev else al_integrity_hash (last rs)) [x]"
  by (induction rs arbitrary: prev) auto

lemma linked_hash_Some: "linked digest prev rs \<Longrightarrow> r \<in> set rs \<Longrightarrow> al_integrity_hash r \<noteq> None"
  by (induction rs arbitrary: prev) auto

lemma integrity_payload_hash [simp]: "integrity_payload (e\<lparr>al_integrity_hash := h\<rparr>) = integrity_payload e"
  by (simp add: integrity_payload_def)

lemma resolve_call_org [simp]:
  "ac_organization_id (resolve_call role_of rq c) = ac_organization_id c"
  by (simp add: resolve_call_def Let_def)

lemma latest_hash_last:
  assumes "linked digest None (org_rows org rows)" and "org \<noteq> ''''"
    and "in_time_order rows"
  shows "latest_hash_for_org (Some org) rows =
    (if org_rows org rows = [] then None else al_integrity_hash (last (org_rows org rows)))"
proof -
  have *: "filter (\<lambda>r. ac_organization_id (al_call r) = Some org \<and> al_integrity_hash r \<noteq> None) rows
      = org_rows org rows"
    unfolding org_rows_def using linked_hash_Some [OF assms(1)]
    by (intro filter_cong) (auto simp: org_rows_def)
  have "in_time_order (org_rows org rows)"
    unfolding org_rows_def using assms(3) by (rule sorted_wrt_filter)
  then show ?thesis
    using newest_last assms(2) unfolding latest_hash_for_org_def *
    by (auto simp: truthy_str_def split: option.splits)
qed

lemma audit_log_appends:
  assumes "audit_log digest role_of rq i now year c rows = Inr rows'"
  obtains r where "rows' = rows @ [r]" "al_id r = i" "al_created_at r = now"
    "al_call r = resolve_call role_of rq c"
    "al_prev_hash r = latest_hash_for_org (ac_organization_id c) rows"
    "al_integrity_hash r = Some (compute_integrity_hash digest (al_prev_hash r) (integrity_payload r))"
    "i \<notin> al_id ` set rows"
proof -
  let ?c = "resolve_call role_of rq c"
  obtain browser device os where ua: "parse_ua (ac_user_agent ?c) = (browser, device, os)"
    by (cases "parse_ua (ac_user_agent ?c)")
  let ?prev = "latest_hash_for_org (ac_organization_id ?c) rows"
  let ?e = "\<lparr>al_id = i, al_call = ?c, al_browser = browser, al_device = device, al_os = os,
     al_created_at = now, al_audit_ref = Some (audit_ref_text year i), al_prev_hash = ?prev,
     al_integrity_hash = None\<rparr>"
  let ?r = "?e\<lparr>al_integrity_hash := Some (compute_integrity_hash digest ?prev (integrity_payload ?e))\<rparr>"
  have new: "rows' = rows @ [?r]" and fresh: "i \<notin> al_id ` set rows"
    using assms unfolding audit_log_def Let_def ua by (simp_all split: if_splits)
  note new
  moreover have "al_id ?r = i" "al_created_at ?r = now" "al_call ?r = ?c" by simp_all
  moreover have "al_prev_hash ?r = latest_hash_for_org (ac_organization_id c) rows" by simp
  moreover have "al_integrity_hash ?r =
      Some (compute_integrity_hash digest (al_prev_hash ?r) (integrity_payload ?r))"
    unfolding integrity_payload_hash by simp
  moreover note fresh
  ultimately show thesis by (rule that)
qed

lemma audit_log_chain:
  assumes "chain_ok digest rows" and "in_time_order rows"
    and "audit_log digest role_of rq i now year c rows = Inr rows'"
  shows "chain_ok digest rows'"
proof -
  from assms(3) obtain r where r: "rows' = rows @ [r]"
    "al_call r = resolve_call role_of rq c"
    "al_prev_hash r = latest_hash_for_org (ac_organization_id c) rows"
    "al_integrity_hash r = Some (compute_integrity_hash digest (al_prev_hash r) (integrity_payload r))"
    by (rule audit_log_appends)
  have "linked digest None (org_rows org rows')" if "org \<noteq> ''''" for org
  proof (cases "ac_organization_id c = Some org")
    case True
    then have "org_rows org rows' = org_rows org rows @ [r]" using r by (simp add: org_rows_def)
    then show ?thesis
      using assms(1,2) that True r latest_hash_last [of digest org rows]
      by (simp add: linked_append chain_ok_def)
  next
    case False
    then have "org_rows org rows' = org_rows org rows" using r by (simp add: org_rows_def)
    then show ?thesis using assms(1) that by (simp add: chain_ok_def)
  qed
  then show ?thesis by (simp add: chain_ok_def)
qed

lemma verify_row_iff:
  "iv_ok (verify_row digest r) \<longleftrightarrow>
     truthy_str (al_integrity_hash r) \<and>
     al_integrity_hash r = Some (compute_integrity_hash digest (al_prev_hash r) (integrity_payload r))"
  by (auto simp: verify_row_def Let_def)

subsection \<open>Properties\<close>

fun audit_run ::
    "(string \<Rightarrow> json \<Rightarrow> string) \<Rightarrow> (string \<Rightarrow> string option) \<Rightarrow> audit_request option
     \<Rightarrow> (string \<times> int \<times> string \<times> audit_call) list \<Rightarrow> audit_row list \<Rightarrow> audit_row list result" where
  "audit_run digest role_of rq [] rows = Inr rows"
| "audit_run digest role_of rq ((i, now, year, c) # cs) rows =
     bind_result (audit_log digest role_of rq i now year c rows) (audit_run digest role_of rq cs)"

abbreviation call_time :: "string \<times> int \<times> string \<times> audit_call \<Rightarrow> int" where
  "call_time k \<equiv> fst (snd k)"

definition sample_call :: "string \<Rightarrow> audit_call" where
  "sample_call org = \<lparr>ac_action = ''invoice.voided'', ac_entity_type = ''invoice'', ac_entity_id = Some ''i1'',
     ac_entity_ref = None, ac_user_id = Some ''u1'', ac_user_role = Some ''ADMIN'', ac_old_value = None,
     ac_new_value = Some [(''payment_status'', JStr ''VOID'')], ac_ip_address = None, ac_user_agent = None,
     ac_reason = Some ''duplicate'', ac_organization_id = Some org, ac_category = ''Billing'',
     ac_event_type = ''INVOICE_VOIDED'', ac_severity = ''WARNING'', ac_session_id = None,
     ac_correlation_id = None\<rparr>"

definition sample_digest :: "string \<Rightarrow> json \<Rightarrow> string" where
  \<comment> \<open>an injective stand-in on the payloads of the witnesses\<close>
  "sample_digest p j = CHR ''h'' # p @ (case j of JObj kvs \<Rightarrow> (case kvs of (_, JStr s) # _ \<Rightarrow> s | _ \<Rightarrow> []) | _ \<Rightarrow> [])"

text \<open>C29: a row that the audit service has just written passes the verification endpoint,
  whatever rows were there before, provided the hash function never returns the empty text.\<close>

theorem logged_row_verifies:
  assumes logged: "audit_log digest role_of rq i now year c rows = Inr rows'"
    and org: "ac_organization_id c = Some org"
    and nonempty: "\<forall>p j. digest p j \<noteq> ''''"
  shows "\<exists>v. verify_audit_integrity digest org_of ''ADMIN'' None org i rows' = Inr v \<and> iv_ok v"
proof -
  obtain r where r: "rows' = rows @ [r]" "al_id r = i" "al_call r = resolve_call role_of rq c"
    "al_integrity_hash r = Some (compute_integrity_hash digest (al_prev_hash r) (integrity_payload r))"
    "i \<notin> al_id ` set rows"
    using logged by (rule audit_log_appends)
  have last: "find P (rows @ [r]) = Some r" if "\<forall>s \<in> set rows. \<not> P s" "P r" for P
    using that by (induction rows) auto
  have "get_log_by_id org_of org i rows' = Some r"
    unfolding get_log_by_id_def r(1) by (rule last) (use r(2,3,5) org in \<open>auto simp: image_iff\<close>)
  moreover have "iv_ok (verify_row digest r)"
    using nonempty r(4) by (simp add: verify_row_iff compute_integrity_hash_def truthy_str_def)
  ultimately show ?thesis
    by (simp add: verify_audit_integrity_def assert_audit_org_scope_def)
qed

theorem logged_row_verifies_witness:
  "\<exists>rows' v. audit_log sample_digest (\<lambda>_. None) None ''a1'' 7 ''2026'' (sample_call ''org'') [] = Inr rows' \<and>
     verify_audit_integrity sample_digest (\<lambda>_. None) ''ADMIN'' None ''org'' ''a1'' rows' = Inr v \<and> iv_ok v"
proof -
  have *: "\<exists>rows'. audit_log sample_digest (\<lambda>_. None) None ''a1'' 7 ''2026'' (sample_call ''org'') [] = Inr rows'"
    by (simp add: audit_log_def Let_def split: prod.splits)
  have "ac_organization_id (sample_call ''org'') = Some ''org''" "\<forall>p j. sample_digest p j \<noteq> ''''"
    by (simp_all add: sample_call_def sample_digest_def)
  with * logged_row_verifies show ?thesis by blast
qed

text \<open>C6: whatever sequence of audit calls is run with increasing clock readings, the rows of
  every organisation form one hash chain in insertion order: the first has no predecessor,
  each later one stores the hash of the one before it, and each stored hash is the hash of
  its own payload.\<close>

theorem audit_run_chain:
  assumes "audit_run digest role_of rq calls [] = Inr rows"
    and "sorted_wrt (<) (map call_time calls)"
  shows "chain_ok digest rows"
proof -
  have "audit_run digest role_of rq calls rows0 = Inr rows \<Longrightarrow> chain_ok digest rows0 \<Longrightarrow>
      in_time_order rows0 \<Longrightarrow> sorted_wrt (<) (map call_time calls) \<Longrightarrow>
      \<forall>r \<in> set rows0. \<forall>k \<in> set calls. al_created_at r < call_time k \<Longrightarrow> chain_ok digest rows"
    for calls rows0
  proof (induction calls arbitrary: rows0)
    case Nil
    then show ?case by simp
  next
    case (Cons k calls)
    obtain i now year c where k: "k = (i, now, year, c)" by (cases k) auto
    from Cons.prems(1) obtain rows1 where
      one: "audit_log digest role_of rq i now year c rows0 = Inr rows1"
      and rest: "audit_run digest role_of rq calls rows1 = Inr rows"
      by (auto simp: k)
    from one obtain r where r: "rows1 = rows0 @ [r]" "al_created_at r = now"
      by (rule audit_log_appends)
    have "chain_ok digest rows1" using audit_log_chain [OF Cons.prems(2,3) one] .
    moreover have "in_time_order rows1"
      using Cons.prems(3,5) by (auto simp: r sorted_wrt_append k)
    moreover have later: "\<forall>k \<in> set calls. now < call_time k" "sorted_wrt (<) (map call_time calls)"
      using Cons.prems(4) by (auto simp: k)
    moreover have "\<forall>s \<in> set rows1. \<forall>k \<in> set calls. al_created_at s < call_time k"
      using Cons.prems(5) later(1) by (auto simp: r)
    ultimately show ?case by (intro Cons.IH [OF rest])
  qed
  from this [of calls "[]"] assms show ?thesis by (simp add: chain_ok_def org_rows_def)
qed

theorem audit_run_chain_witness:
  "\<exists>rows. audit_run sample_digest (\<lambda>_. None) None
       [(''a1'', 7, ''2026'', sample_call ''org''), (''a2'', 9, ''2026'', sample_call ''org'')] [] = Inr rows
     \<and> length rows = 2 \<and> chain_ok sample_digest rows"
proof -
  have run: "\<exists>rows. audit_run sample_digest (\<lambda>_. None) None
       [(''a1'', 7, ''2026'', sample_call ''org''), (''a2'', 9, ''2026'', sample_call ''org'')] [] = Inr rows
     \<and> length rows = 2"
    by (simp add: audit_log_def Let_def split: prod.splits)
  then obtain rows where rows: "audit_run sample_digest (\<lambda>_. None) None
       [(''a1'', 7, ''2026'', sample_call ''org''), (''a2'', 9, ''2026'', sample_call ''org'')] [] = Inr rows"
    "length rows = 2" by blast
  have "chain_ok sample_digest rows" using audit_run_chain [OF rows(1)] by simp
  with rows show ?thesis by blast
qed

text \<open>What the verification of a stored row can see: if the row is altered but its stored
  hashes are kept, the check fails as soon as the hashed payload has changed (the hash
  function separating the two payloads), while a change of the reason, the severity, the
  role or the user agent leaves the outcome as it was.\<close>

theorem verification_sees_payload_only:
  assumes "iv_ok (verify_row digest r)"
    and "integrity_payload (r\<lparr>al_call := c\<rparr>) \<noteq> integrity_payload r
         \<longrightarrow> digest (str_or (al_prev_hash r) '''') (integrity_payload (r\<lparr>al_call := c\<rparr>))
             \<noteq> digest (str_or (al_prev_hash r) '''') (integrity_payload r)"
  shows "(iv_ok (verify_row digest (r\<lparr>al_call := c\<rparr>)) \<longleftrightarrow>
           integrity_payload (r\<lparr>al_call := c\<rparr>) = integrity_payload r) \<and>
         iv_ok (verify_row digest (r\<lparr>al_call := (al_call r)
           \<lparr>ac_reason := x, ac_severity := y, ac_user_role := z, ac_user_agent := w\<rparr>\<rparr>))"
proof
  show "iv_ok (verify_row digest (r\<lparr>al_call := c\<rparr>)) \<longleftrightarrow>
      integrity_payload (r\<lparr>al_call := c\<rparr>) = integrity_payload r"
    using assms by (auto simp: verify_row_iff compute_integrity_hash_def)
  have "integrity_payload (r\<lparr>al_call := (al_call r)
      \<lparr>ac_reason := x, ac_severity := y, ac_user_role := z, ac_user_agent := w\<rparr>\<rparr>) = integrity_payload r"
    by (simp add: integrity_payload_def Let_def)
  then have "iv_ok (verify_row digest (r\<lparr>al_call := (al_call r)
      \<lparr>ac_reason := x, ac_severity := y, ac_user_role := z, ac_user_agent := w\<rparr>\<rparr>)) = iv_ok (verify_row digest r)"
    by (simp add: verify_row_iff)
  with assms(1) show "iv_ok (verify_row digest (r\<lparr>al_call := (al_call r)
      \<lparr>ac_reason := x, ac_severity := y, ac_user_role := z, ac_user_agent := w\<rparr>\<rparr>))"
    by simp
qed

definition sample_row :: audit_row where
  "sample_row = \<lparr>al_id = ''a1'', al_call = sample_call ''org'', al_browser = ''Unknown'', al_device = ''Unknown'',
     al_os = ''Unknown'', al_created_at = 7, al_audit_ref = None, al_prev_hash = None,
     al_integrity_hash = Some ''same''\<rparr>"

definition splitting_digest :: "string \<Rightarrow> json \<Rightarrow> string" where
  "splitting_digest p j = (if j = integrity_payload sample_row then ''same'' else ''other'')"

theorem verification_sees_payload_only_witness:
  "iv_ok (verify_row splitting_digest sample_row) \<and>
   \<not> iv_ok (verify_row splitting_digest (sample_row\<lparr>al_call := (sample_call ''org'')\<lparr>ac_action := ''x''\<rparr>\<rparr>)) \<and>
   iv_ok (verify_row splitting_digest (sample_row\<lparr>al_call := (al_call sample_row)
     \<lparr>ac_reason := None, ac_severity := ''INFO'', ac_user_role := None, ac_user_agent := None\<rparr>\<rparr>))"
proof -
  let ?c = "(sample_call ''org'')\<lparr>ac_action := ''x''\<rparr>"
  have ok: "iv_ok (verify_row splitting_digest sample_row)"
    unfolding verify_row_iff by (simp add: splitting_digest_def compute_integrity_hash_def sample_row_def)
  have differ: "integrity_payload (sample_row\<lparr>al_call := ?c\<rparr>) \<noteq> integrity_payload sample_row"
    by (simp add: integrity_payload_def sample_row_def sample_call_def Let_def)
  then show ?thesis
    using verification_sees_payload_only [OF ok, where c = ?c and x = None and y = "''INFO''" and z = None and w = None] ok
    by (simp add: splitting_digest_def)
qed

end
