(* ===== verification/Pricing.thy ===== *)
theory Pricing
  imports Money
begin

text \<open>
  Order pricing, \<^verbatim>\<open>app/modules/orders/pricing.py\<close>: the pricing plan of a stop, package and
  stop charges, discounts, the minimum charge, VAT, the order totals, and the recomputation
  from a stored snapshot. Prices in plans and snapshots are JSON values: a number or a
  decimal text. Dates are day numbers.
\<close>

subsection \<open>Data\<close>

datatype vat_rate = STANDARD_20 | REDUCED_5 | ZERO_RATED | EXEMPT

fun vat_rate_value :: "vat_rate \<Rightarrow> string" where
  "vat_rate_value STANDARD_20 = ''STANDARD_20''"
| "vat_rate_value REDUCED_5 = ''REDUCED_5''"
| "vat_rate_value ZERO_RATED = ''ZERO_RATED''"
| "vat_rate_value EXEMPT = ''EXEMPT''"

definition vat_rate_pct :: "string \<Rightarrow> rat" where
  \<comment> \<open>\<^verbatim>\<open>_VAT_RATE_PCT.get(name, Decimal("20.00"))\<close>\<close>
  "vat_rate_pct name =
     (if name = ''STANDARD_20'' then 20 else if name = ''REDUCED_5'' then 5
      else if name = ''ZERO_RATED'' \<or> name = ''EXEMPT'' then 0 else 20)"

datatype discount_type = PERCENTAGE | FIXED_PER_BOOKING | VOLUME_TIERED

fun discount_type_value :: "discount_type \<Rightarrow> string" where
  "discount_type_value PERCENTAGE = ''PERCENTAGE''"
| "discount_type_value FIXED_PER_BOOKING = ''FIXED_PER_BOOKING''"
| "discount_type_value VOLUME_TIERED = ''VOLUME_TIERED''"

record volume_tier =
  vt_min_bookings :: int
  vt_max_bookings :: "int option"
  vt_discount_pct :: "price_field option"

record discount_config =
  dc_service_tier_id :: string
  dc_discount_type :: discount_type
  dc_is_enabled :: bool
  dc_value :: "rat option"
  dc_valid_from :: "int option"
  dc_valid_until :: "int option"
  dc_volume_tiers :: "volume_tier list option"

record plan =
  pl_id_price_tier :: "string option"
  pl_plain_name :: "string option"
  pl_plain_type :: "string option"
  pl_days :: "int option"
  pl_base_price :: "price_field option"
  pl_price_per_package :: "price_field option"
  pl_price_per_kg :: "price_field option"
  pl_tier_name_at_order_time :: "string option"
  pl_service_tier_id :: "string option"
  pl_global_tier_id :: "string option"
  pl_color :: "string option"
  pl_icon :: "string option"
  pl_description :: "string option"
  pl_duration_days :: "int option"
  pl_error_margin_kg :: "price_field option"
  pl_available_for :: "string option"
  pl_scope_type :: "string option"
  pl_source_scope_type :: "string option"
  pl_scope_org_id :: "string option"
  pl_status :: "string option"
  pl_is_default :: "bool option"
  pl_permitted :: "bool option"
  pl_is_override :: "bool option"

record weight_charge =
  wc_price_per_kg :: string
  wc_weight_kg :: "rat option"
  wc_amount :: string

record package_entry =
  pe_id :: "string option"
  pe_package_id :: "string option"
  pe_package_index :: int
  pe_declared_weight_kg :: "rat option"
  pe_per_package_charge :: string
  pe_weight_charge :: weight_charge
  pe_total :: string

record discount_entry =
  de_type :: string
  de_service_tier_id :: "string option"
  de_value :: "price_field option"
  de_amount :: "price_field option"
  de_order_count :: "int option"

record stop_breakdown =
  sb_id :: "string option"
  sb_tracking_id :: "string option"
  sb_stop_index :: int
  sb_service_tier :: "string option"
  sb_service_tier_id :: "string option"
  sb_pricing_plan :: plan
  sb_base_price :: string
  sb_packages :: "package_entry list"
  sb_packages_count :: int
  sb_packages_subtotal :: string
  sb_pre_discount_subtotal :: string
  sb_discounts :: "discount_entry option list option"
  sb_total_discount :: string
  sb_subtotal_after_discount :: string
  sb_min_charge :: "price_field option"
  sb_min_charge_applied :: bool
  sb_subtotal :: string
  sb_vat_rate :: "string option"
  sb_vat_rate_pct :: "price_field option"
  sb_vat_amount :: string
  sb_total :: string

record package_input =
  pk_index :: int
  pk_declared_weight_kg :: "rat option"
  pk_length_cm :: "rat option"
  pk_width_cm :: "rat option"
  pk_height_cm :: "rat option"
  pk_package_uuid :: "string option"
  pk_package_ref :: "string option"
  pk_price_breakdown :: "package_entry option"

record stop_input =
  st_index :: int
  st_service_tier_name :: "string option"
  st_service_tier_id :: "string option"
  st_packages :: "package_input list"
  st_stop_uuid :: "string option"
  st_tracking_id :: "string option"
  st_price_breakdown :: "stop_breakdown option"
  st_resolved_plan :: "plan option"

record pricing_org =
  og_pricing_plans :: "plan option list option"
  og_max_package_weight :: "rat option"
  og_max_package_length :: "rat option"
  og_max_package_width :: "rat option"
  og_max_package_height :: "rat option"
  og_min_charge_per_booking :: "rat option"

record pricing_context =
  cx_org :: pricing_org
  cx_vat_rate :: "vat_rate option"
  cx_discounts :: "discount_config list"
  cx_order_count :: int

record order_breakdown =
  ob_id :: "string option"
  ob_order_id :: "string option"
  ob_currency :: string
  ob_computed_at :: int
  ob_stops :: "stop_breakdown list"
  ob_packages_count :: int
  ob_subtotal :: string
  ob_vat_amount :: string
  ob_total :: string
  ob_vat_rate :: "string option"

record pricing_result =
  pr_subtotal :: rat
  pr_vat_amount :: rat
  pr_total_amount :: rat
  pr_breakdown :: order_breakdown

subsection \<open>Package restrictions\<close>

definition exceeds :: "rat option \<Rightarrow> rat option \<Rightarrow> bool" where
  "exceeds limit v = (case (limit, v) of (Some m, Some x) \<Rightarrow> m < x | _ \<Rightarrow> False)"

definition check_package :: "pricing_org \<Rightarrow> package_input \<Rightarrow> unit result" where
  "check_package org pkg =
     (if exceeds (og_max_package_weight org) (pk_declared_weight_kg pkg)
      then Inl (ValidationError ''declared weight exceeds organisation limit'')
      else if exceeds (og_max_package_length org) (pk_length_cm pkg)
      then Inl (ValidationError ''length exceeds organisation limit'')
      else if exceeds (og_max_package_width org) (pk_width_cm pkg)
      then Inl (ValidationError ''width exceeds organisation limit'')
      else if exceeds (og_max_package_height org) (pk_height_cm pkg)
      then Inl (ValidationError ''height exceeds organisation limit'')
      else Inr ())"

definition validate_package_restrictions :: "pricing_org \<Rightarrow> stop_input list \<Rightarrow> unit result" where
  "validate_package_restrictions org stops =
     check_all (\<lambda>stop. check_all (check_package org) (st_packages stop)) stops"

subsection \<open>The plan of a stop\<close>

definition plan_display_name :: "plan \<Rightarrow> string option" where
  "plan_display_name p = (if truthy_str (pl_plain_name p) then pl_plain_name p else None)"

fun first_plan :: "(plan \<Rightarrow> bool) \<Rightarrow> plan option list \<Rightarrow> plan option" where
  \<comment> \<open>the search loops skip the entries that are no dictionaries\<close>
  "first_plan P [] = None"
| "first_plan P (None # ps) = first_plan P ps"
| "first_plan P (Some p # ps) = (if P p then Some p else first_plan P ps)"

definition resolve_plan_for_stop :: "stop_input \<Rightarrow> pricing_org \<Rightarrow> plan result" where
  "resolve_plan_for_stop stop org =
     (case st_resolved_plan stop of
        Some p \<Rightarrow> Inr p
      | None \<Rightarrow>
          (let plans = (case og_pricing_plans org of None \<Rightarrow> [] | Some ps \<Rightarrow> ps);
               tier_id = str_or_none (strip (str_or (st_service_tier_id stop) ''''));
               tier_name = str_or_none (strip (str_or (st_service_tier_name stop) ''''));
               by_id = (case tier_id of None \<Rightarrow> None
                  | Some t \<Rightarrow> first_plan (\<lambda>p. str_or (pl_id_price_tier p) '''' = t) plans);
               by_name = (case tier_name of None \<Rightarrow> None
                  | Some n \<Rightarrow> first_plan (\<lambda>p. str_or (pl_plain_name p) '''' \<noteq> ''''
                                  \<and> py_upper (str_or (pl_plain_name p) '''') = py_upper n) plans);
               by_part = (case tier_name of None \<Rightarrow> None
                  | Some n \<Rightarrow> first_plan (\<lambda>p. str_or (pl_plain_name p) '''' \<noteq> ''''
                                  \<and> py_in (py_upper n) (py_upper (str_or (pl_plain_name p) ''''))) plans)
           in if plans = [] then Inl (ValidationError ''organisation has no pricing plans configured'')
              else if tier_id = None \<and> tier_name = None
              then Inl (ValidationError ''service_tier_name or service_tier_id is required'')
              else case by_id of Some p \<Rightarrow> Inr p | None \<Rightarrow>
                (case by_name of Some p \<Rightarrow> Inr p | None \<Rightarrow>
                (case by_part of Some p \<Rightarrow> Inr p | None \<Rightarrow>
                  Inl (ValidationError ''no pricing plan matches service tier'')))))"

definition tier_prices :: "plan \<Rightarrow> (rat \<times> rat \<times> rat) result" where
  "tier_prices p =
     bind_result (decimal_or_zero (pl_base_price p)) (\<lambda>base_price.
     bind_result (decimal_or_zero (pl_price_per_package p)) (\<lambda>per_package.
     bind_result (decimal_or_zero (pl_price_per_kg p)) (\<lambda>per_kg.
     Inr (quantize_half_up base_price, quantize_half_up per_package, quantize_half_up per_kg))))"

definition snapshot_plan :: "plan \<Rightarrow> plan result" where
  "snapshot_plan p =
     bind_result (tier_prices p) (\<lambda>(base_price, per_package, per_kg).
     Inr (p\<lparr>pl_base_price := Some (PText (decimal_text base_price)),
            pl_price_per_package := Some (PText (decimal_text per_package)),
            pl_price_per_kg := Some (PText (decimal_text per_kg)),
            pl_tier_name_at_order_time :=
              (if truthy_str (pl_tier_name_at_order_time p) then pl_tier_name_at_order_time p
               else pl_plain_name p),
            pl_duration_days :=
              (case pl_duration_days p of None \<Rightarrow> pl_days p
               | Some d \<Rightarrow> if d = 0 then pl_days p else Some d),
            pl_status := None, pl_permitted := None\<rparr>))"

subsection \<open>Packages\<close>

definition package_breakdown :: "package_input \<Rightarrow> rat \<Rightarrow> rat \<Rightarrow> package_entry" where
  "package_breakdown pkg per_package per_kg =
     (let weight = (case pk_declared_weight_kg pkg of None \<Rightarrow> 0 | Some w \<Rightarrow> w);
          weight_charge = quantize_half_up (per_kg * weight);
          total = quantize_half_up (per_package + weight_charge)
      in \<lparr>pe_id = pk_package_uuid pkg, pe_package_id = pk_package_ref pkg, pe_package_index = pk_index pkg,
          pe_declared_weight_kg = map_option (\<lambda>_. weight) (pk_declared_weight_kg pkg),
          pe_per_package_charge = decimal_text per_package,
          pe_weight_charge = \<lparr>wc_price_per_kg = decimal_text per_kg,
             wc_weight_kg = map_option (\<lambda>_. weight) (pk_declared_weight_kg pkg),
             wc_amount = decimal_text weight_charge\<rparr>,
          pe_total = decimal_text total\<rparr>)"

fun price_packages :: "package_input list \<Rightarrow> rat \<Rightarrow> rat \<Rightarrow> (package_input list \<times> package_entry list \<times> rat) result" where
  "price_packages [] per_package per_kg = Inr ([], [], 0)"
| "price_packages (pkg # pkgs) per_package per_kg =
     (let bd = package_breakdown pkg per_package per_kg
      in case decimal_of_text (pe_total bd) of
           None \<Rightarrow> Inl (InvalidOperation (pe_total bd))
         | Some t \<Rightarrow>
             bind_result (price_packages pkgs per_package per_kg) (\<lambda>(pkgs', entries, s).
             Inr (pkg\<lparr>pk_price_breakdown := Some bd\<rparr> # pkgs', bd # entries, t + s)))"

definition price_stop_packages ::
    "stop_input \<Rightarrow> rat \<Rightarrow> rat \<Rightarrow> (stop_input \<times> package_entry list \<times> rat) result" where
  "price_stop_packages stop per_package per_kg =
     bind_result (price_packages (st_packages stop) per_package per_kg) (\<lambda>(pkgs, entries, s).
     Inr (stop\<lparr>st_packages := pkgs\<rparr>, entries, quantize_half_up s))"

subsection \<open>Discounts\<close>

definition discount_active :: "discount_config \<Rightarrow> int \<Rightarrow> bool" where
  "discount_active d today \<longleftrightarrow>
     (if \<not> dc_is_enabled d then False
      else if dc_discount_type d = VOLUME_TIERED then True
      else if (case dc_valid_from d of None \<Rightarrow> False | Some f \<Rightarrow> today < f) then False
      else if (case dc_valid_until d of None \<Rightarrow> False | Some u \<Rightarrow> u < today) then False
      else True)"

fun volume_tier_pct_in :: "volume_tier list \<Rightarrow> int \<Rightarrow> rat result" where
  "volume_tier_pct_in [] order_count = Inr 0"
| "volume_tier_pct_in (t # ts) order_count =
     (let upper_ok = (case vt_max_bookings t of None \<Rightarrow> True | Some m \<Rightarrow> order_count \<le> m)
      in if vt_min_bookings t \<le> order_count \<and> upper_ok then decimal_or_zero (vt_discount_pct t)
         else volume_tier_pct_in ts order_count)"

definition volume_tier_pct :: "volume_tier list option \<Rightarrow> int \<Rightarrow> rat result" where
  "volume_tier_pct tiers order_count =
     (case tiers of None \<Rightarrow> Inr 0 | Some ts \<Rightarrow> volume_tier_pct_in ts order_count)"

definition discount_line ::
    "rat \<Rightarrow> discount_config \<Rightarrow> int \<Rightarrow> (rat \<times> discount_entry) option result" where
  \<comment> \<open>one iteration of the loop of \<^verbatim>\<open>_apply_discounts\<close> past its two guards\<close>
  "discount_line base_amount d order_count =
     (case dc_discount_type d of
        FIXED_PER_BOOKING \<Rightarrow>
          (let value = (case dc_value d of None \<Rightarrow> 0 | Some v \<Rightarrow> v); amount = quantize_half_up value
           in if amount \<le> 0 then Inr None
              else Inr (Some (amount, \<lparr>de_type = ''FIXED_PER_BOOKING'',
                de_service_tier_id = Some (dc_service_tier_id d),
                de_value = Some (PText (decimal_text value)),
                de_amount = Some (PText (decimal_text amount)), de_order_count = None\<rparr>)))
      | PERCENTAGE \<Rightarrow>
          (let pct = (case dc_value d of None \<Rightarrow> 0 | Some v \<Rightarrow> v);
               amount = quantize_half_up (base_amount * pct / 100)
           in if pct \<le> 0 \<or> amount \<le> 0 then Inr None
              else Inr (Some (amount, \<lparr>de_type = ''PERCENTAGE'',
                de_service_tier_id = Some (dc_service_tier_id d),
                de_value = Some (PText (decimal_text pct)),
                de_amount = Some (PText (decimal_text amount)), de_order_count = None\<rparr>)))
      | VOLUME_TIERED \<Rightarrow>
          bind_result (volume_tier_pct (dc_volume_tiers d) order_count) (\<lambda>pct.
          let amount = quantize_half_up (base_amount * pct / 100)
          in if pct \<le> 0 \<or> amount \<le> 0 then Inr None
             else Inr (Some (amount, \<lparr>de_type = ''VOLUME_TIERED'',
                de_service_tier_id = Some (dc_service_tier_id d),
                de_value = Some (PText (decimal_text pct)),
                de_amount = Some (PText (decimal_text amount)), de_order_count = Some order_count\<rparr>))))"

fun discount_loop ::
    "rat \<Rightarrow> discount_config list \<Rightarrow> string option \<Rightarrow> int \<Rightarrow> int \<Rightarrow> (rat \<times> discount_entry list) result" where
  "discount_loop base_amount [] stop_tier_id order_count today = Inr (0, [])"
| "discount_loop base_amount (d # ds) stop_tier_id order_count today =
     (if \<not> discount_active d today then discount_loop base_amount ds stop_tier_id order_count today
      else if stop_tier_id \<noteq> None \<and> dc_service_tier_id d \<noteq> the stop_tier_id
      then discount_loop base_amount ds stop_tier_id order_count today
      else bind_result (discount_line base_amount d order_count) (\<lambda>line.
           bind_result (discount_loop base_amount ds stop_tier_id order_count today) (\<lambda>(total, applied).
           case line of
             None \<Rightarrow> Inr (total, applied)
           | Some (amount, entry) \<Rightarrow> Inr (amount + total, entry # applied))))"

definition apply_discounts ::
    "rat \<Rightarrow> discount_config list \<Rightarrow> string option \<Rightarrow> int \<Rightarrow> int \<Rightarrow> (rat \<times> discount_entry list) result" where
  "apply_discounts base_amount discounts stop_tier_id order_count today =
     bind_result (discount_loop base_amount discounts stop_tier_id order_count today) (\<lambda>(total, applied).
     Inr (quantize_half_up (if base_amount < total then base_amount else total), applied))"

definition snapshot_line ::
    "rat \<Rightarrow> discount_entry \<Rightarrow> (rat \<times> discount_entry) option result" where
  "snapshot_line base_amount e =
     (if de_type e = ''FIXED_PER_BOOKING'' then
        bind_result (decimal_or_zero (if truthy_price (de_amount e) then de_amount e else de_value e)) (\<lambda>raw.
        let amount = quantize_half_up raw
        in if amount \<le> 0 then Inr None
           else bind_result (decimal_or_zero (de_value e)) (\<lambda>value.
             Inr (Some (amount, e\<lparr>de_value := Some (PText (decimal_text value)),
               de_amount := Some (PText (decimal_text amount)), de_order_count := None\<rparr>))))
      else if de_type e = ''PERCENTAGE'' \<or> de_type e = ''VOLUME_TIERED'' then
        bind_result (decimal_or_zero (de_value e)) (\<lambda>pct.
        let amount = quantize_half_up (base_amount * pct / 100)
        in if pct \<le> 0 \<or> amount \<le> 0 then Inr None
           else Inr (Some (amount, e\<lparr>de_value := Some (PText (decimal_text pct)),
             de_amount := Some (PText (decimal_text amount)),
             de_order_count := (if de_type e = ''VOLUME_TIERED'' then de_order_count e else None)\<rparr>)))
      else Inr None)"

fun snapshot_loop :: "rat \<Rightarrow> discount_entry option list \<Rightarrow> (rat \<times> discount_entry list) result" where
  "snapshot_loop base_amount [] = Inr (0, [])"
| "snapshot_loop base_amount (None # es) = snapshot_loop base_amount es"
| "snapshot_loop base_amount (Some e # es) =
     bind_result (snapshot_line base_amount e) (\<lambda>line.
     bind_result (snapshot_loop base_amount es) (\<lambda>(total, applied).
     case line of
       None \<Rightarrow> Inr (total, applied)
     | Some (amount, entry) \<Rightarrow> Inr (amount + total, entry # applied)))"

definition reapply_snapshot_discounts ::
    "rat \<Rightarrow> discount_entry option list option \<Rightarrow> (rat \<times> discount_entry list) result" where
  "reapply_snapshot_discounts base_amount snapshot_discounts =
     bind_result (snapshot_loop base_amount (case snapshot_discounts of None \<Rightarrow> [] | Some es \<Rightarrow> es))
     (\<lambda>(total, applied).
     Inr (quantize_half_up (if base_amount < total then base_amount else total), applied))"

subsection \<open>One stop\<close>

definition apply_min_charge :: "rat \<Rightarrow> rat option \<Rightarrow> rat \<times> rat \<times> bool" where
  "apply_min_charge subtotal min_charge_raw =
     (let min_charge = (case min_charge_raw of None \<Rightarrow> 0 | Some m \<Rightarrow> quantize_half_up m)
      in if 0 < min_charge \<and> subtotal < min_charge then (min_charge, min_charge, True)
         else (subtotal, min_charge, False))"

definition build_stop_breakdown ::
    "stop_input \<Rightarrow> plan \<Rightarrow> rat \<Rightarrow> package_entry list \<Rightarrow> rat \<Rightarrow> string option \<Rightarrow> discount_entry list \<Rightarrow> rat
     \<Rightarrow> rat \<Rightarrow> rat \<Rightarrow> rat \<Rightarrow> bool \<Rightarrow> rat \<Rightarrow> string \<Rightarrow> rat \<Rightarrow> rat \<Rightarrow> rat \<Rightarrow> stop_breakdown" where
  "build_stop_breakdown stop plan_snapshot base_price package_entries packages_subtotal
     service_tier_display discount_entries total_discount pre_discount_subtotal
     subtotal_after_discount min_charge min_charge_applied subtotal vat_rate_name vat_pct
     vat_amount total_amount =
   \<lparr>sb_id = st_stop_uuid stop, sb_tracking_id = st_tracking_id stop, sb_stop_index = st_index stop,
    sb_service_tier = service_tier_display, sb_service_tier_id = pl_id_price_tier plan_snapshot,
    sb_pricing_plan = plan_snapshot, sb_base_price = decimal_text base_price,
    sb_packages = package_entries, sb_packages_count = int (length package_entries),
    sb_packages_subtotal = decimal_text packages_subtotal,
    sb_pre_discount_subtotal = decimal_text pre_discount_subtotal,
    sb_discounts = Some (map Some discount_entries), sb_total_discount = decimal_text total_discount,
    sb_subtotal_after_discount = decimal_text subtotal_after_discount,
    sb_min_charge = Some (PText (decimal_text min_charge)),
    sb_min_charge_applied = min_charge_applied, sb_subtotal = decimal_text subtotal,
    sb_vat_rate = Some vat_rate_name, sb_vat_rate_pct = Some (PText (decimal_text vat_pct)),
    sb_vat_amount = decimal_text vat_amount, sb_total = decimal_text total_amount\<rparr>"

record stop_price =
  sp_stop :: stop_input
  sp_breakdown :: stop_breakdown
  sp_subtotal :: rat
  sp_vat_amount :: rat
  sp_total :: rat

definition context_vat_rate_name :: "pricing_context \<Rightarrow> string" where
  "context_vat_rate_name ctx =
     (case cx_vat_rate ctx of Some r \<Rightarrow> vat_rate_value r | None \<Rightarrow> vat_rate_value STANDARD_20)"

definition price_stop :: "pricing_context \<Rightarrow> int \<Rightarrow> stop_input \<Rightarrow> stop_price result" where
  \<comment> \<open>one iteration of the loop of \<^verbatim>\<open>compute_price_breakdown\<close>\<close>
  "price_stop ctx today stop0 =
     (let vat_rate_name = context_vat_rate_name ctx; vat_pct = vat_rate_pct vat_rate_name in
      bind_result (resolve_plan_for_stop stop0 (cx_org ctx)) (\<lambda>p.
      let stop1 = stop0\<lparr>st_resolved_plan := Some p\<rparr> in
      bind_result (snapshot_plan p) (\<lambda>plan_snapshot.
      bind_result (tier_prices p) (\<lambda>(base_price, per_package, per_kg).
      bind_result (price_stop_packages stop1 per_package per_kg) (\<lambda>(stop2, package_entries, packages_subtotal).
      let pre_discount_subtotal = quantize_half_up (base_price + packages_subtotal) in
      bind_result (apply_discounts pre_discount_subtotal (cx_discounts ctx)
                     (str_or_none (str_or (pl_id_price_tier p) '''')) (cx_order_count ctx) today)
        (\<lambda>(total_discount, discount_entries).
      let subtotal_after_discount = quantize_half_up (pre_discount_subtotal - total_discount);
          (subtotal, min_charge, min_charge_applied) =
            apply_min_charge subtotal_after_discount (og_min_charge_per_booking (cx_org ctx));
          vat_amount = quantize_half_up (subtotal * vat_pct / 100);
          total = quantize_half_up (subtotal + vat_amount);
          display = (if truthy_str (plan_display_name p) then plan_display_name p
                     else st_service_tier_name stop2);
          bd = build_stop_breakdown stop2 plan_snapshot base_price package_entries packages_subtotal
                 display discount_entries total_discount pre_discount_subtotal
                 subtotal_after_discount min_charge min_charge_applied subtotal vat_rate_name
                 vat_pct vat_amount total
      in Inr \<lparr>sp_stop = stop2\<lparr>st_price_breakdown := Some bd\<rparr>, sp_breakdown = bd,
              sp_subtotal = subtotal, sp_vat_amount = vat_amount, sp_total = total\<rparr>))))))"

subsection \<open>The order\<close>

definition order_totals ::
    "stop_price list \<Rightarrow> string option \<Rightarrow> string option \<Rightarrow> string \<Rightarrow> int \<Rightarrow> pricing_result" where
  \<comment> \<open>what both routines do after their loop; neither writes the key \<^verbatim>\<open>vat_rate\<close> of the order's breakdown\<close>
  "order_totals priced order_uuid order_id currency now =
     (let order_subtotal = quantize_half_up (sum_list (map sp_subtotal priced));
          order_vat = quantize_half_up (sum_list (map sp_vat_amount priced));
          order_total = quantize_half_up (sum_list (map sp_total priced));
          stops_breakdown = map sp_breakdown priced
      in \<lparr>pr_subtotal = order_subtotal, pr_vat_amount = order_vat, pr_total_amount = order_total,
          pr_breakdown = \<lparr>ob_id = order_uuid, ob_order_id = order_id, ob_currency = currency,
             ob_computed_at = now, ob_stops = stops_breakdown,
             ob_packages_count = sum_list (map sb_packages_count stops_breakdown),
             ob_subtotal = decimal_text order_subtotal, ob_vat_amount = decimal_text order_vat,
             ob_total = decimal_text order_total, ob_vat_rate = None\<rparr>\<rparr>)"

definition compute_price_breakdown ::
    "pricing_context \<Rightarrow> int \<Rightarrow> int \<Rightarrow> stop_input list \<Rightarrow> string option \<Rightarrow> string option
     \<Rightarrow> (stop_input list \<times> pricing_result) result" where
  "compute_price_breakdown ctx today now stops order_uuid order_id =
     bind_result (map_result (price_stop ctx today) stops) (\<lambda>priced.
     Inr (map sp_stop priced, order_totals priced order_uuid order_id ''GBP'' now))"

subsection \<open>Recomputation from the stored snapshot\<close>

record order_snapshot =
  os_vat_rate :: "string option"
  os_currency :: "string option"

definition stored_order_snapshot :: "order_breakdown \<Rightarrow> order_snapshot" where
  \<comment> \<open>what is read of \<^verbatim>\<open>order.price_breakdown\<close>, the breakdown that was stored with the order\<close>
  "stored_order_snapshot b = \<lparr>os_vat_rate = ob_vat_rate b, os_currency = Some (ob_currency b)\<rparr>"

definition reprice_stop :: "string \<Rightarrow> stop_input \<Rightarrow> stop_price result" where
  \<comment> \<open>one iteration of the loop of \<^verbatim>\<open>recompute_price_breakdown_from_snapshot\<close>; a stored plan is
     a non-empty dictionary\<close>
  "reprice_stop order_vat_rate_fallback stop0 =
     (case st_resolved_plan stop0 of
        None \<Rightarrow> Inl (ValidationError ''missing pricing snapshot'')
      | Some p \<Rightarrow>
          (let snap = st_price_breakdown stop0 in
           bind_result (snapshot_plan p) (\<lambda>plan_snapshot0.
           let plan_snapshot =
             (if truthy_str (pl_tier_name_at_order_time p)
                 \<and> \<not> truthy_str (pl_tier_name_at_order_time plan_snapshot0)
              then plan_snapshot0\<lparr>pl_tier_name_at_order_time := pl_tier_name_at_order_time p\<rparr>
              else plan_snapshot0) in
           bind_result (tier_prices p) (\<lambda>(base_price, per_package, per_kg).
           bind_result (price_stop_packages stop0 per_package per_kg)
             (\<lambda>(stop2, package_entries, packages_subtotal).
           let pre_discount_subtotal = quantize_half_up (base_price + packages_subtotal) in
           bind_result (reapply_snapshot_discounts pre_discount_subtotal
                          (case snap of None \<Rightarrow> None | Some b \<Rightarrow> sb_discounts b))
             (\<lambda>(total_discount, discount_entries).
           let subtotal_after_discount = quantize_half_up (pre_discount_subtotal - total_discount) in
           bind_result (decimal_or_zero (case snap of None \<Rightarrow> None | Some b \<Rightarrow> sb_min_charge b))
             (\<lambda>raw_min.
           let min_charge = quantize_half_up raw_min;
               raised = 0 < min_charge \<and> subtotal_after_discount < min_charge;
               subtotal = (if raised then min_charge else subtotal_after_discount);
               min_charge_applied =
                 (raised \<or> (case snap of None \<Rightarrow> False | Some b \<Rightarrow> sb_min_charge_applied b));
               vat_rate_name = str_or (case snap of None \<Rightarrow> None | Some b \<Rightarrow> sb_vat_rate b)
                                 order_vat_rate_fallback;
               snap_pct = (case snap of None \<Rightarrow> None | Some b \<Rightarrow> sb_vat_rate_pct b) in
           bind_result (if truthy_price snap_pct then to_decimal (the snap_pct)
                        else Inr (vat_rate_pct vat_rate_name)) (\<lambda>vat_pct.
           let vat_amount = quantize_half_up (subtotal * vat_pct / 100);
               total = quantize_half_up (subtotal + vat_amount);
               display = (if truthy_str (pl_plain_name p) then pl_plain_name p
                          else if truthy_str (pl_tier_name_at_order_time p)
                          then pl_tier_name_at_order_time p else st_service_tier_name stop2);
               bd = build_stop_breakdown stop2 plan_snapshot base_price package_entries
                      packages_subtotal display discount_entries total_discount
                      pre_discount_subtotal subtotal_after_discount min_charge min_charge_applied
                      subtotal vat_rate_name vat_pct vat_amount total
           in Inr \<lparr>sp_stop = stop2\<lparr>st_price_breakdown := Some bd\<rparr>, sp_breakdown = bd,
                   sp_subtotal = subtotal, sp_vat_amount = vat_amount, sp_total = total\<rparr>))))))))"

definition recompute_price_breakdown_from_snapshot ::
    "order_snapshot \<Rightarrow> int \<Rightarrow> stop_input list \<Rightarrow> string option \<Rightarrow> string option
     \<Rightarrow> (stop_input list \<times> pricing_result) result" where
  "recompute_price_breakdown_from_snapshot order_snapshot now stops order_uuid order_id =
     bind_result (map_result (reprice_stop (str_or (os_vat_rate order_snapshot) ''STANDARD_20'')) stops)
       (\<lambda>priced.
     Inr (map sp_stop priced,
          order_totals priced order_uuid order_id (str_or (os_currency order_snapshot) ''GBP'') now))"

text \<open>
  The stop inputs that the two re-pricing callers of \<^verbatim>\<open>app/modules/orders/service.py\<close> build
  from a stored stop: a change of its packages (\<^verbatim>\<open>resolved_plan\<close> set, no
  \<^verbatim>\<open>price_breakdown\<close>) and a change of service tier (both set; the target stop gets the new plan).
\<close>

record stored_stop =
  dv_id :: string
  dv_tracking_id :: "string option"
  dv_service_tier :: "string option"
  dv_service_tier_id :: "string option"
  dv_price_breakdown :: "stop_breakdown option"

record stored_package =
  sk_id :: string
  sk_package_id :: "string option"
  sk_declared_weight_kg :: "rat option"
  sk_length_cm :: "rat option"
  sk_width_cm :: "rat option"
  sk_height_cm :: "rat option"

definition package_input_of :: "nat \<Rightarrow> stored_package \<Rightarrow> package_input" where
  "package_input_of idx pkg =
     \<lparr>pk_index = int idx, pk_declared_weight_kg = sk_declared_weight_kg pkg,
      pk_length_cm = sk_length_cm pkg, pk_width_cm = sk_width_cm pkg, pk_height_cm = sk_height_cm pkg,
      pk_package_uuid = Some (sk_id pkg), pk_package_ref = sk_package_id pkg,
      pk_price_breakdown = None\<rparr>"

definition package_inputs :: "stored_package list \<Rightarrow> package_input list" where
  "package_inputs pkgs = map (\<lambda>(idx, pkg). package_input_of idx pkg) (enumerate 1 pkgs)"

definition package_update_input :: "nat \<Rightarrow> stored_stop \<Rightarrow> stored_package list \<Rightarrow> stop_input result" where
  "package_update_input idx stop pkgs =
     (case dv_price_breakdown stop of
        None \<Rightarrow> Inl (ValidationError ''Delivery stop has no pricing snapshot'')
      | Some bd \<Rightarrow>
          Inr \<lparr>st_index = int idx, st_service_tier_name = dv_service_tier stop,
               st_service_tier_id = dv_service_tier_id stop, st_packages = package_inputs pkgs,
               st_stop_uuid = Some (dv_id stop), st_tracking_id = dv_tracking_id stop,
               st_price_breakdown = None, st_resolved_plan = Some (sb_pricing_plan bd)\<rparr>)"

definition tier_change_input ::
    "string \<Rightarrow> plan \<Rightarrow> nat \<Rightarrow> stored_stop \<Rightarrow> stored_package list \<Rightarrow> stop_input result" where
  "tier_change_input target new_plan idx stop pkgs =
     (case dv_price_breakdown stop of
        None \<Rightarrow> Inl (ValidationError ''Delivery stop has no pricing snapshot'')
      | Some bd \<Rightarrow>
          Inr \<lparr>st_index = int idx, st_service_tier_name = dv_service_tier stop,
               st_service_tier_id = dv_service_tier_id stop, st_packages = package_inputs pkgs,
               st_stop_uuid = Some (dv_id stop), st_tracking_id = dv_tracking_id stop,
               st_price_breakdown = Some bd,
               st_resolved_plan = Some (if dv_id stop = target then new_plan else sb_pricing_plan bd)\<rparr>)"


definition reprice_inputs ::
    "(nat \<Rightarrow> stored_stop \<Rightarrow> stored_package list \<Rightarrow> stop_input result) \<Rightarrow> stored_stop list
     \<Rightarrow> (string \<Rightarrow> stored_package list) \<Rightarrow> stop_input list result" where
  \<comment> \<open>the loop over \<^verbatim>\<open>enumerate(stops, start=1)\<close> of both callers\<close>
  "reprice_inputs mk stops packages_by_stop =
     map_result (\<lambda>(idx, stop). mk idx stop (packages_by_stop (dv_id stop))) (enumerate 1 stops)"

subsection \<open>Amounts and their texts\<close>

lemma tier_prices_money:
  "tier_prices p = Inr (b, pp, kg) \<Longrightarrow> is_money b \<and> is_money pp \<and> is_money kg"
  by (auto simp: tier_prices_def)

lemma snapshot_plan_Inr:
  "snapshot_plan p = Inr q \<Longrightarrow> \<exists>b pp kg. tier_prices p = Inr (b, pp, kg)
     \<and> pl_base_price q = Some (PText (decimal_text b))
     \<and> pl_price_per_package q = Some (PText (decimal_text pp))
     \<and> pl_price_per_kg q = Some (PText (decimal_text kg))"
  by (auto simp: snapshot_plan_def)

lemma tier_prices_snapshot:
  assumes "snapshot_plan p = Inr q"
  shows "tier_prices q = tier_prices p"
proof -
  obtain b pp kg where t: "tier_prices p = Inr (b, pp, kg)"
    "pl_base_price q = Some (PText (decimal_text b))"
    "pl_price_per_package q = Some (PText (decimal_text pp))"
    "pl_price_per_kg q = Some (PText (decimal_text kg))"
    using snapshot_plan_Inr [OF assms] by blast
  have "tier_prices q = Inr (b, pp, kg)"
    using tier_prices_money [OF t(1)] t(2-4) by (simp add: tier_prices_def)
  with t(1) show ?thesis by simp
qed

lemma snapshot_plan_ok: "tier_prices p = Inr v \<Longrightarrow> \<exists>q. snapshot_plan p = Inr q"
  by (cases v) (simp add: snapshot_plan_def)

subsection \<open>Packages\<close>

lemma package_total_text:
  "decimal_of_text (pe_total (package_breakdown pkg pp kg))
     = Some (quantize_half_up (pp + quantize_half_up
         (kg * (case pk_declared_weight_kg pkg of None \<Rightarrow> 0 | Some w \<Rightarrow> w))))"
  by (simp add: package_breakdown_def Let_def decimal_text_roundtrip)

definition package_charge :: "rat \<Rightarrow> rat \<Rightarrow> rat option \<Rightarrow> rat" where
  "package_charge pp kg w =
     quantize_half_up (pp + quantize_half_up (kg * (case w of None \<Rightarrow> 0 | Some x \<Rightarrow> x)))"

lemma price_packages_eq:
  "price_packages pkgs pp kg =
     Inr (map (\<lambda>pkg. pkg\<lparr>pk_price_breakdown := Some (package_breakdown pkg pp kg)\<rparr>) pkgs,
          map (\<lambda>pkg. package_breakdown pkg pp kg) pkgs,
          sum_list (map (\<lambda>pkg. package_charge pp kg (pk_declared_weight_kg pkg)) pkgs))"
  by (induction pkgs) (auto simp: package_total_text package_charge_def Let_def)

lemma price_stop_packages_eq:
  "price_stop_packages s pp kg =
     Inr (s\<lparr>st_packages := map (\<lambda>pkg. pkg\<lparr>pk_price_breakdown := Some (package_breakdown pkg pp kg)\<rparr>)
              (st_packages s)\<rparr>,
          map (\<lambda>pkg. package_breakdown pkg pp kg) (st_packages s),
          sum_list (map (package_charge pp kg) (map pk_declared_weight_kg (st_packages s))))"
proof -
  have "is_money (sum_list (map (package_charge pp kg) (map pk_declared_weight_kg (st_packages s))))"
    by (intro is_money_sum_list) (auto simp: package_charge_def)
  then show ?thesis by (simp add: price_stop_packages_def price_packages_eq o_def)
qed

subsection \<open>Discounts\<close>

definition pct_in_pence :: "discount_config \<Rightarrow> bool" where
  \<comment> \<open>the percentages of a discount have at most two decimals, as the column \<^verbatim>\<open>Numeric(10, 2)\<close> and
     the request schema keep them\<close>
  "pct_in_pence d \<longleftrightarrow> (case dc_value d of None \<Rightarrow> True | Some v \<Rightarrow> is_money v)
     \<and> (case dc_volume_tiers d of None \<Rightarrow> True
        | Some ts \<Rightarrow> list_all (\<lambda>t. case decimal_or_zero (vt_discount_pct t) of Inl _ \<Rightarrow> True | Inr v \<Rightarrow> is_money v) ts)"

lemma volume_tier_pct_money:
  "volume_tier_pct_in ts n = Inr v
   \<Longrightarrow> list_all (\<lambda>t. case decimal_or_zero (vt_discount_pct t) of Inl _ \<Rightarrow> True | Inr v \<Rightarrow> is_money v) ts
   \<Longrightarrow> is_money v"
  by (induction ts) (auto split: if_splits simp: Let_def)

lemma discount_line_amount:
  "discount_line base d n = Inr (Some (a, e)) \<Longrightarrow> 0 < a \<and> is_money a"
  by (cases "dc_discount_type d")
    (auto simp: discount_line_def Let_def split: if_splits)

lemma snapshot_line_percentage:
  "de_type e = ''PERCENTAGE'' \<or> de_type e = ''VOLUME_TIERED''
   \<Longrightarrow> de_value e = Some (PText (decimal_text pct)) \<Longrightarrow> is_money pct
   \<Longrightarrow> snapshot_line base e =
        (let amount = quantize_half_up (base * pct / 100)
         in if pct \<le> 0 \<or> amount \<le> 0 then Inr None
            else Inr (Some (amount, e\<lparr>de_value := Some (PText (decimal_text pct)),
             de_amount := Some (PText (decimal_text amount)),
             de_order_count := (if de_type e = ''VOLUME_TIERED'' then de_order_count e else None)\<rparr>)))"
  unfolding snapshot_line_def by (elim disjE) simp_all

lemma snapshot_line_fixed:
  "de_type e = ''FIXED_PER_BOOKING'' \<Longrightarrow> de_amount e = Some (PText (decimal_text amount))
   \<Longrightarrow> de_value e = Some (PText (decimal_text v)) \<Longrightarrow> is_money amount \<Longrightarrow> 0 < amount
   \<Longrightarrow> snapshot_line base e =
        Inr (Some (amount, e\<lparr>de_value := Some (PText (decimal_text v)),
               de_amount := Some (PText (decimal_text amount)), de_order_count := None\<rparr>))"
  unfolding snapshot_line_def by simp

lemma discount_line_percentage:
  "dc_discount_type d = PERCENTAGE \<Longrightarrow> discount_line base d n = Inr (Some (a, e))
   \<Longrightarrow> \<exists>pct. pct = (case dc_value d of None \<Rightarrow> 0 | Some v \<Rightarrow> v) \<and> 0 < pct
      \<and> a = quantize_half_up (base * pct / 100) \<and> 0 < a
      \<and> e = \<lparr>de_type = ''PERCENTAGE'', de_service_tier_id = Some (dc_service_tier_id d),
             de_value = Some (PText (decimal_text pct)), de_amount = Some (PText (decimal_text a)),
             de_order_count = None\<rparr>"
  by (auto simp: discount_line_def Let_def not_le split: if_splits)

lemma discount_line_volume:
  "dc_discount_type d = VOLUME_TIERED \<Longrightarrow> discount_line base d n = Inr (Some (a, e))
   \<Longrightarrow> \<exists>pct. volume_tier_pct (dc_volume_tiers d) n = Inr pct \<and> 0 < pct
      \<and> a = quantize_half_up (base * pct / 100) \<and> 0 < a
      \<and> e = \<lparr>de_type = ''VOLUME_TIERED'', de_service_tier_id = Some (dc_service_tier_id d),
             de_value = Some (PText (decimal_text pct)), de_amount = Some (PText (decimal_text a)),
             de_order_count = Some n\<rparr>"
  by (auto simp: discount_line_def Let_def not_le split: if_splits)

lemma discount_line_fixed:
  "dc_discount_type d = FIXED_PER_BOOKING \<Longrightarrow> discount_line base d n = Inr (Some (a, e))
   \<Longrightarrow> \<exists>v. is_money a \<and> 0 < a
      \<and> e = \<lparr>de_type = ''FIXED_PER_BOOKING'', de_service_tier_id = Some (dc_service_tier_id d),
             de_value = Some (PText (decimal_text v)), de_amount = Some (PText (decimal_text a)),
             de_order_count = None\<rparr>"
  by (auto simp: discount_line_def Let_def not_le split: if_splits)

lemma discount_line_snapshot:
  assumes "discount_line base d n = Inr (Some (a, e))" and "pct_in_pence d"
  shows "snapshot_line base e = Inr (Some (a, e))"
proof (cases "dc_discount_type d")
  case PERCENTAGE
  from discount_line_percentage [OF this assms(1)] obtain pct
    where p: "pct = (case dc_value d of None \<Rightarrow> 0 | Some v \<Rightarrow> v)" "0 < pct" "0 < a"
      "a = quantize_half_up (base * pct / 100)"
      "e = \<lparr>de_type = ''PERCENTAGE'', de_service_tier_id = Some (dc_service_tier_id d),
         de_value = Some (PText (decimal_text pct)), de_amount = Some (PText (decimal_text a)),
         de_order_count = None\<rparr>"
    by blast
  moreover from assms(2) p(1) have "is_money pct"
    by (simp add: pct_in_pence_def split: option.splits)
  ultimately show ?thesis
    by (subst snapshot_line_percentage [of _ pct]) (simp_all add: Let_def not_le)
next
  case FIXED_PER_BOOKING
  from discount_line_fixed [OF this assms(1)] obtain v
    where p: "is_money a" "0 < a"
      "e = \<lparr>de_type = ''FIXED_PER_BOOKING'', de_service_tier_id = Some (dc_service_tier_id d),
         de_value = Some (PText (decimal_text v)), de_amount = Some (PText (decimal_text a)),
         de_order_count = None\<rparr>"
    by blast
  then show ?thesis by (subst snapshot_line_fixed [of _ a v]) simp_all
next
  case VOLUME_TIERED
  from discount_line_volume [OF this assms(1)] obtain pct
    where p: "volume_tier_pct (dc_volume_tiers d) n = Inr pct" "0 < pct" "0 < a"
      "a = quantize_half_up (base * pct / 100)"
      "e = \<lparr>de_type = ''VOLUME_TIERED'', de_service_tier_id = Some (dc_service_tier_id d),
         de_value = Some (PText (decimal_text pct)), de_amount = Some (PText (decimal_text a)),
         de_order_count = Some n\<rparr>"
    by blast
  moreover from assms(2) p(1) have "is_money pct"
    by (auto simp: pct_in_pence_def volume_tier_pct_def volume_tier_pct_money split: option.splits)
  ultimately show ?thesis
    by (subst snapshot_line_percentage [of _ pct]) (simp_all add: Let_def not_le)
qed

lemma discount_loop_nonneg:
  "discount_loop base ds t n today = Inr (x, es) \<Longrightarrow> 0 \<le> x \<and> is_money x"
proof (induction ds arbitrary: x es)
  case (Cons d ds)
  then show ?case
    by (auto split: if_splits option.splits dest!: discount_line_amount simp: less_imp_le)
qed simp

lemma discount_loop_snapshot:
  "discount_loop base ds t n today = Inr (x, es) \<Longrightarrow> \<forall>d \<in> set ds. pct_in_pence d
   \<Longrightarrow> snapshot_loop base (map Some es) = Inr (x, es)"
proof (induction ds arbitrary: x es)
  case (Cons d ds)
  then show ?case
    by (auto split: if_splits option.splits dest!: discount_line_snapshot)
qed simp

lemma apply_discounts_bounds:
  "apply_discounts base ds t n today = Inr (x, es) \<Longrightarrow> is_money base
   \<Longrightarrow> is_money x \<and> x \<le> base \<and> (0 \<le> base \<longrightarrow> 0 \<le> x)"
  by (auto simp: apply_discounts_def split: if_splits dest: discount_loop_nonneg)

lemma apply_discounts_snapshot:
  "apply_discounts base ds t n today = Inr (x, es) \<Longrightarrow> \<forall>d \<in> set ds. pct_in_pence d
   \<Longrightarrow> reapply_snapshot_discounts base (Some (map Some es)) = Inr (x, es)"
  by (auto simp: apply_discounts_def reapply_snapshot_discounts_def dest: discount_loop_snapshot)


subsection \<open>A priced stop\<close>

definition amount_of :: "string \<Rightarrow> rat" where
  "amount_of s = (case decimal_of_text s of Some x \<Rightarrow> x | None \<Rightarrow> 0)"

lemma amount_of_text [simp]: "amount_of (decimal_text x) = quantize_half_up x"
  by (simp add: amount_of_def decimal_text_roundtrip)

lemma apply_min_charge_facts:
  assumes "apply_min_charge x m = (s, mc, ap)" and "is_money x"
  shows "is_money s" "is_money mc" "mc = (case m of None \<Rightarrow> 0 | Some v \<Rightarrow> quantize_half_up v)"
    "ap \<longleftrightarrow> 0 < mc \<and> x < mc" "s = (if ap then mc else x)"
  using assms by (auto simp: apply_min_charge_def Let_def split: if_splits option.splits)

definition packages_charge :: "rat \<Rightarrow> rat \<Rightarrow> stop_input \<Rightarrow> rat" where
  "packages_charge pp kg s =
     sum_list (map (package_charge pp kg) (map pk_declared_weight_kg (st_packages s)))"

lemma packages_charge_money [simp]: "is_money (packages_charge pp kg s)"
  unfolding packages_charge_def by (intro is_money_sum_list) (auto simp: package_charge_def)

lemma price_stop_packages_charge:
  "price_stop_packages s pp kg =
     Inr (s\<lparr>st_packages := map (\<lambda>pkg. pkg\<lparr>pk_price_breakdown := Some (package_breakdown pkg pp kg)\<rparr>)
              (st_packages s)\<rparr>,
          map (\<lambda>pkg. package_breakdown pkg pp kg) (st_packages s), packages_charge pp kg s)"
  by (simp add: price_stop_packages_eq packages_charge_def)

lemma price_stop_Inr:
  assumes "price_stop ctx today s = Inr r"
  shows "\<exists>p q b pp kg x es sub mc ap.
    resolve_plan_for_stop s (cx_org ctx) = Inr p \<and> snapshot_plan p = Inr q
    \<and> tier_prices p = Inr (b, pp, kg)
    \<and> apply_discounts (b + packages_charge pp kg s) (cx_discounts ctx)
        (str_or_none (str_or (pl_id_price_tier p) '''')) (cx_order_count ctx) today = Inr (x, es)
    \<and> apply_min_charge (b + packages_charge pp kg s - x)
        (og_min_charge_per_booking (cx_org ctx)) = (sub, mc, ap)
    \<and> is_money (b + packages_charge pp kg s) \<and> is_money x
    \<and> sp_subtotal r = sub
    \<and> sp_vat_amount r = quantize_half_up (sub * vat_rate_pct (context_vat_rate_name ctx) / 100)
    \<and> sp_total r = sub + sp_vat_amount r
    \<and> st_price_breakdown (sp_stop r) = Some (sp_breakdown r)
    \<and> map pk_declared_weight_kg (st_packages (sp_stop r)) = map pk_declared_weight_kg (st_packages s)
    \<and> (\<exists>s' ents display. length ents = length (st_packages s)
        \<and> sp_breakdown r = build_stop_breakdown s' q b ents (packages_charge pp kg s) display es x
             (b + packages_charge pp kg s) (b + packages_charge pp kg s - x) mc ap sub
             (context_vat_rate_name ctx) (vat_rate_pct (context_vat_rate_name ctx))
             (sp_vat_amount r) (sp_total r))"
proof -
  from assms obtain p q b pp kg where p: "resolve_plan_for_stop s (cx_org ctx) = Inr p"
      "snapshot_plan p = Inr q" "tier_prices p = Inr (b, pp, kg)"
    unfolding price_stop_def by (auto simp: Let_def)
  have m: "is_money (b + packages_charge pp kg s)" using tier_prices_money [OF p(3)] by simp
  have pk: "price_stop_packages (s\<lparr>st_resolved_plan := Some p\<rparr>) pp kg =
     Inr (s\<lparr>st_resolved_plan := Some p, st_packages := map (\<lambda>pkg. pkg\<lparr>pk_price_breakdown := Some (package_breakdown pkg pp kg)\<rparr>)
              (st_packages s)\<rparr>,
          map (\<lambda>pkg. package_breakdown pkg pp kg) (st_packages s), packages_charge pp kg s)"
    by (simp add: price_stop_packages_charge packages_charge_def)
  from assms p pk obtain x es where
    d: "apply_discounts (b + packages_charge pp kg s) (cx_discounts ctx)
        (str_or_none (str_or (pl_id_price_tier p) '''')) (cx_order_count ctx) today = Inr (x, es)"
    unfolding price_stop_def by (auto simp: Let_def m)
  have mx: "is_money x" using apply_discounts_bounds [OF d m] by simp
  obtain sub mc ap where a: "apply_min_charge (b + packages_charge pp kg s - x)
        (og_min_charge_per_booking (cx_org ctx)) = (sub, mc, ap)"
    by (cases "apply_min_charge (b + packages_charge pp kg s - x) (og_min_charge_per_booking (cx_org ctx))")
  have ms: "is_money sub" using apply_min_charge_facts(1) [OF a] m mx by simp
  have r: "r = (let vat_amount = quantize_half_up (sub * vat_rate_pct (context_vat_rate_name ctx) / 100);
        display = (if truthy_str (plan_display_name p) then plan_display_name p
                   else st_service_tier_name s);
        s' = s\<lparr>st_resolved_plan := Some p, st_packages := map (\<lambda>pkg. pkg\<lparr>pk_price_breakdown := Some (package_breakdown pkg pp kg)\<rparr>)
              (st_packages s)\<rparr>;
        bd = build_stop_breakdown s' q b (map (\<lambda>pkg. package_breakdown pkg pp kg) (st_packages s))
               (packages_charge pp kg s) display es x
             (b + packages_charge pp kg s) (b + packages_charge pp kg s - x) mc ap sub
             (context_vat_rate_name ctx) (vat_rate_pct (context_vat_rate_name ctx))
             vat_amount (sub + vat_amount)
      in \<lparr>sp_stop = s'\<lparr>st_price_breakdown := Some bd\<rparr>, sp_breakdown = bd,
              sp_subtotal = sub, sp_vat_amount = vat_amount, sp_total = sub + vat_amount\<rparr>)"
    using assms unfolding price_stop_def
    by (simp add: p pk d a m mx ms Let_def cong: if_cong)
  have f: "sp_subtotal r = sub"
      "sp_vat_amount r = quantize_half_up (sub * vat_rate_pct (context_vat_rate_name ctx) / 100)"
      "sp_total r = sub + sp_vat_amount r" "st_price_breakdown (sp_stop r) = Some (sp_breakdown r)"
      "map pk_declared_weight_kg (st_packages (sp_stop r)) = map pk_declared_weight_kg (st_packages s)"
    by (simp_all add: r Let_def)
  have e: "\<exists>s' ents display. length ents = length (st_packages s)
        \<and> sp_breakdown r = build_stop_breakdown s' q b ents (packages_charge pp kg s) display es x
             (b + packages_charge pp kg s) (b + packages_charge pp kg s - x) mc ap sub
             (context_vat_rate_name ctx) (vat_rate_pct (context_vat_rate_name ctx))
             (sp_vat_amount r) (sp_total r)"
    unfolding r Let_def stop_price.simps by (intro exI conjI) (rule length_map, rule refl)
  show ?thesis
    by (intro exI [of _ p] exI [of _ q] exI [of _ b] exI [of _ pp] exI [of _ kg] exI [of _ x]
        exI [of _ es] exI [of _ sub] exI [of _ mc] exI [of _ ap] conjI p d a m mx f e)
qed

subsection \<open>Re-pricing a priced stop\<close>

lemma vat_rate_pct_money [simp]: "is_money (vat_rate_pct n)"
  unfolding vat_rate_pct_def is_money_def by simp

lemma reprice_stop_Some:
  assumes p: "st_resolved_plan t = Some p" "tier_prices p = Inr (b, pp, kg)"
    and snap: "st_price_breakdown t = Some bd" "sb_min_charge bd = Some (PText (decimal_text mc))"
      "sb_vat_rate_pct bd = Some (PText (decimal_text pct))" "is_money mc" "is_money pct"
    and d: "reapply_snapshot_discounts (b + packages_charge pp kg t) (sb_discounts bd) = Inr (x, es)"
    and mx: "is_money x"
  shows "\<exists>r. reprice_stop fb t = Inr r
     \<and> sp_subtotal r = (if 0 < mc \<and> b + packages_charge pp kg t - x < mc then mc
                       else b + packages_charge pp kg t - x)
     \<and> sp_vat_amount r = quantize_half_up (sp_subtotal r * pct / 100)
     \<and> sp_total r = sp_subtotal r + sp_vat_amount r
     \<and> sb_discounts (sp_breakdown r) = Some (map Some es)
     \<and> sb_min_charge_applied (sp_breakdown r)
         = ((0 < mc \<and> b + packages_charge pp kg t - x < mc) \<or> sb_min_charge_applied bd)"
proof -
  obtain q where q: "snapshot_plan p = Inr q" using snapshot_plan_ok [OF p(2)] by blast
  have m: "is_money (b + packages_charge pp kg t)" using tier_prices_money [OF p(2)] by simp
  let ?raised = "0 < mc \<and> b + packages_charge pp kg t - x < mc"
  have "is_money (if ?raised then mc else b + packages_charge pp kg t - x)"
    using m mx snap by simp
  then show ?thesis
    unfolding reprice_stop_def
    by (simp add: p q snap d m mx price_stop_packages_charge Let_def build_stop_breakdown_def
        del: bind_result_Inr_iff)
qed

lemma reprice_priced_stop:
  assumes r: "price_stop ctx today s = Inr r" and pct: "\<forall>d \<in> set (cx_discounts ctx). pct_in_pence d"
    and t: "st_price_breakdown t = Some (sp_breakdown r)" "st_resolved_plan t = Some p'"
    and same: "tier_prices p' = tier_prices (sb_pricing_plan (sp_breakdown r))"
      "map pk_declared_weight_kg (st_packages t) = map pk_declared_weight_kg (st_packages (sp_stop r))"
  shows "\<exists>r'. reprice_stop fb t = Inr r' \<and> sp_subtotal r' = sp_subtotal r
     \<and> sp_vat_amount r' = sp_vat_amount r \<and> sp_total r' = sp_total r
     \<and> sb_discounts (sp_breakdown r') = sb_discounts (sp_breakdown r)
     \<and> sb_min_charge_applied (sp_breakdown r') = sb_min_charge_applied (sp_breakdown r)"
proof -
  from price_stop_Inr [OF r] obtain p q b pp kg x es sub mc ap s' ents display where
    p: "snapshot_plan p = Inr q" "tier_prices p = Inr (b, pp, kg)"
    and d: "apply_discounts (b + packages_charge pp kg s) (cx_discounts ctx)
        (str_or_none (str_or (pl_id_price_tier p) '''')) (cx_order_count ctx) today = Inr (x, es)"
    and a: "apply_min_charge (b + packages_charge pp kg s - x)
        (og_min_charge_per_booking (cx_org ctx)) = (sub, mc, ap)"
    and m: "is_money (b + packages_charge pp kg s)" "is_money x"
    and f: "sp_subtotal r = sub"
      "sp_vat_amount r = quantize_half_up (sub * vat_rate_pct (context_vat_rate_name ctx) / 100)"
      "sp_total r = sub + sp_vat_amount r"
      "map pk_declared_weight_kg (st_packages (sp_stop r)) = map pk_declared_weight_kg (st_packages s)"
    and bd: "sp_breakdown r = build_stop_breakdown s' q b ents (packages_charge pp kg s) display es x
             (b + packages_charge pp kg s) (b + packages_charge pp kg s - x) mc ap sub
             (context_vat_rate_name ctx) (vat_rate_pct (context_vat_rate_name ctx))
             (sp_vat_amount r) (sp_total r)"
    by blast
  have pc: "packages_charge pp kg t = packages_charge pp kg s"
    using same(2) f(4) by (simp add: packages_charge_def)
  have p': "tier_prices p' = Inr (b, pp, kg)"
    using same(1) tier_prices_snapshot [OF p(1)] p(2) by (simp add: bd build_stop_breakdown_def)
  have amc: "is_money (b + packages_charge pp kg s - x)" using m by simp
  note mc = apply_min_charge_facts [OF a amc]
  from reprice_stop_Some [OF t(2) p' t(1), of mc "vat_rate_pct (context_vat_rate_name ctx)" x es fb]
    apply_discounts_snapshot [OF d pct] mc m
  show ?thesis by (auto simp: bd build_stop_breakdown_def pc f(1,2) f(3) [unfolded f(2)])
qed

lemma map_result_reprice:
  assumes "list_all2 (\<lambda>s r. price_stop ctx today s = Inr r) stops priced"
    and "\<forall>d \<in> set (cx_discounts ctx). pct_in_pence d"
    and "list_all2 (\<lambda>r t. st_price_breakdown t = Some (sp_breakdown r)
       \<and> (\<exists>p'. st_resolved_plan t = Some p' \<and> tier_prices p' = tier_prices (sb_pricing_plan (sp_breakdown r)))
       \<and> map pk_declared_weight_kg (st_packages t) = map pk_declared_weight_kg (st_packages (sp_stop r)))
       priced inputs"
  shows "\<exists>priced'. map_result (reprice_stop fb) inputs = Inr priced'
     \<and> map sp_subtotal priced' = map sp_subtotal priced
     \<and> map sp_vat_amount priced' = map sp_vat_amount priced \<and> map sp_total priced' = map sp_total priced
     \<and> map (sb_discounts \<circ> sp_breakdown) priced' = map (sb_discounts \<circ> sp_breakdown) priced"
  using assms
proof (induction priced arbitrary: stops inputs rule: list.induct)
  case Nil
  then show ?case by simp
next
  case (Cons r rs)
  then obtain s ss t ts where st: "stops = s # ss" "inputs = t # ts"
    by (auto simp: list_all2_Cons1 list_all2_Cons2)
  with Cons.prems obtain p' where "st_price_breakdown t = Some (sp_breakdown r)"
    "st_resolved_plan t = Some p'" "tier_prices p' = tier_prices (sb_pricing_plan (sp_breakdown r))"
    "map pk_declared_weight_kg (st_packages t) = map pk_declared_weight_kg (st_packages (sp_stop r))"
    "price_stop ctx today s = Inr r" by auto
  from reprice_priced_stop [OF this(5) Cons.prems(2) this(1-4)] obtain r' where
    "reprice_stop fb t = Inr r'" "sp_subtotal r' = sp_subtotal r" "sp_vat_amount r' = sp_vat_amount r"
    "sp_total r' = sp_total r" "sb_discounts (sp_breakdown r') = sb_discounts (sp_breakdown r)"
    by blast
  with Cons.IH [of ss ts] Cons.prems st show ?case by auto
qed


subsection \<open>Properties\<close>

lemma compute_Inr:
  "compute_price_breakdown ctx today now stops u i = Inr (stops', res) \<longleftrightarrow>
     (\<exists>priced. list_all2 (\<lambda>s r. price_stop ctx today s = Inr r) stops priced
        \<and> stops' = map sp_stop priced \<and> res = order_totals priced u i ''GBP'' now)"
  by (auto simp: compute_price_breakdown_def map_result_Inr)

lemma price_stop_money:
  assumes "price_stop ctx today s = Inr r"
  shows "is_money (sp_subtotal r)" "is_money (sp_vat_amount r)" "sp_total r = sp_subtotal r + sp_vat_amount r"
    "st_price_breakdown (sp_stop r) = Some (sp_breakdown r)"
    "amount_of (sb_subtotal (sp_breakdown r)) = sp_subtotal r"
    "amount_of (sb_vat_amount (sp_breakdown r)) = sp_vat_amount r"
    "amount_of (sb_total (sp_breakdown r)) = sp_total r"
  using price_stop_Inr [OF assms]
  by (auto simp: build_stop_breakdown_def apply_min_charge_facts(1))

lemma price_stop_amounts:
  assumes "price_stop ctx today s = Inr r"
  shows "\<exists>pre x es mc ap t n. apply_discounts pre (cx_discounts ctx) t n today = Inr (x, es)
    \<and> apply_min_charge (pre - x) (og_min_charge_per_booking (cx_org ctx)) = (sp_subtotal r, mc, ap)
    \<and> is_money pre \<and> is_money x
    \<and> sp_vat_amount r = quantize_half_up (sp_subtotal r * vat_rate_pct (context_vat_rate_name ctx) / 100)
    \<and> amount_of (sb_pre_discount_subtotal (sp_breakdown r)) = pre
    \<and> amount_of (sb_total_discount (sp_breakdown r)) = x
    \<and> amount_of (sb_subtotal_after_discount (sp_breakdown r)) = pre - x
    \<and> sb_min_charge_applied (sp_breakdown r) = ap
    \<and> sb_packages_count (sp_breakdown r) = int (length (sb_packages (sp_breakdown r)))"
proof -
  from price_stop_Inr [OF assms] obtain p q b pp kg x es sub mc ap s' ents display where
    tp: "tier_prices p = Inr (b, pp, kg)" and d: "apply_discounts (b + packages_charge pp kg s) (cx_discounts ctx)
        (str_or_none (str_or (pl_id_price_tier p) '''')) (cx_order_count ctx) today = Inr (x, es)"
    and a: "apply_min_charge (b + packages_charge pp kg s - x)
        (og_min_charge_per_booking (cx_org ctx)) = (sub, mc, ap)"
    and m: "is_money (b + packages_charge pp kg s)" "is_money x"
    and f: "sp_subtotal r = sub"
      "sp_vat_amount r = quantize_half_up (sub * vat_rate_pct (context_vat_rate_name ctx) / 100)"
    and bd: "sp_breakdown r = build_stop_breakdown s' q b ents (packages_charge pp kg s) display es x
             (b + packages_charge pp kg s) (b + packages_charge pp kg s - x) mc ap sub
             (context_vat_rate_name ctx) (vat_rate_pct (context_vat_rate_name ctx))
             (sp_vat_amount r) (sp_total r)"
    by blast
  have am: "is_money (b + packages_charge pp kg s - x)" using m by simp
  show ?thesis
    using d a m am f by (intro exI conjI) (assumption | simp add: bd build_stop_breakdown_def)+
qed

lemma price_stop_value:
  assumes p: "resolve_plan_for_stop s (cx_org ctx) = Inr p" "tier_prices p = Inr (b, pp, kg)"
    and c: "packages_charge pp kg s = c"
    and d: "apply_discounts (b + c) (cx_discounts ctx) (str_or_none (str_or (pl_id_price_tier p) ''''))
       (cx_order_count ctx) today = Inr (x, es)"
    and a: "apply_min_charge (b + c - x) (og_min_charge_per_booking (cx_org ctx)) = (sub, mc, ap)"
  shows "\<exists>r. price_stop ctx today s = Inr r \<and> sp_subtotal r = sub
    \<and> sp_vat_amount r = quantize_half_up (sub * vat_rate_pct (context_vat_rate_name ctx) / 100)"
proof -
  obtain q where q: "snapshot_plan p = Inr q" using snapshot_plan_ok [OF p(2)] by blast
  have m: "is_money (b + c)" using tier_prices_money [OF p(2)] by (simp add: c [symmetric])
  have pk: "packages_charge pp kg (s\<lparr>st_resolved_plan := Some p\<rparr>) = c"
    using c by (simp add: packages_charge_def)
  have "\<exists>r. price_stop ctx today s = Inr r"
    unfolding price_stop_def
    by (simp add: p q d a m pk price_stop_packages_charge Let_def case_prod_unfold del: bind_result_Inr_iff)
  then obtain r where r: "price_stop ctx today s = Inr r" ..
  from price_stop_Inr [OF r] p(2) d a
  have "sp_subtotal r = sub" "sp_vat_amount r = quantize_half_up (sub * vat_rate_pct (context_vat_rate_name ctx) / 100)"
    by (auto simp: p(1) c)
  with r show ?thesis by blast
qed

lemma order_totals_sums:
  assumes "\<And>r. r \<in> set priced \<Longrightarrow> is_money (sp_subtotal r) \<and> is_money (sp_vat_amount r)
      \<and> sp_total r = sp_subtotal r + sp_vat_amount r"
  shows "pr_subtotal (order_totals priced u i c now) = sum_list (map sp_subtotal priced)"
    "pr_vat_amount (order_totals priced u i c now) = sum_list (map sp_vat_amount priced)"
    "pr_total_amount (order_totals priced u i c now) = sum_list (map sp_total priced)"
  using assms by (auto simp: order_totals_def Let_def intro!: quantize_half_up_id is_money_sum_list)

lemma list_all2_image: "list_all2 P xs ys \<Longrightarrow> y \<in> set ys \<Longrightarrow> \<exists>x \<in> set xs. P x y"
  by (induction rule: list_all2_induct) auto

text \<open>
  C15: the price of an order is the sum of the prices of its stops, without a penny of
  rounding drift: subtotal, VAT and total are each the sum of the amounts written in the
  stops' breakdowns, the total is the subtotal plus the VAT, and every stop carries its own breakdown.
\<close>

theorem order_price_adds_up:
  assumes "compute_price_breakdown ctx today now stops u i = Inr (stops', res)"
  shows "pr_total_amount res = pr_subtotal res + pr_vat_amount res
    \<and> pr_subtotal res = sum_list (map (amount_of \<circ> sb_subtotal) (ob_stops (pr_breakdown res)))
    \<and> pr_vat_amount res = sum_list (map (amount_of \<circ> sb_vat_amount) (ob_stops (pr_breakdown res)))
    \<and> pr_total_amount res = sum_list (map (amount_of \<circ> sb_total) (ob_stops (pr_breakdown res)))
    \<and> map st_price_breakdown stops' = map Some (ob_stops (pr_breakdown res))
    \<and> length stops' = length stops"
proof -
  from assms obtain priced where p: "list_all2 (\<lambda>s r. price_stop ctx today s = Inr r) stops priced"
    "stops' = map sp_stop priced" "res = order_totals priced u i ''GBP'' now"
    by (auto simp: compute_Inr)
  have each: "\<exists>s. price_stop ctx today s = Inr r" if "r \<in> set priced" for r
    using list_all2_image [OF p(1) that] by blast
  have vals: "sp_subtotal r = amount_of (sb_subtotal (sp_breakdown r))
      \<and> sp_vat_amount r = amount_of (sb_vat_amount (sp_breakdown r))
      \<and> sp_total r = amount_of (sb_total (sp_breakdown r))
      \<and> st_price_breakdown (sp_stop r) = Some (sp_breakdown r)" if "r \<in> set priced" for r
    using each [OF that] price_stop_money by metis
  have sums: "pr_subtotal res = sum_list (map sp_subtotal priced)"
    "pr_vat_amount res = sum_list (map sp_vat_amount priced)"
    "pr_total_amount res = sum_list (map sp_total priced)"
    unfolding p(3) by (rule order_totals_sums; use each price_stop_money in blast)+
  have stops: "ob_stops (pr_breakdown res) = map sp_breakdown priced"
    by (simp add: p(3) order_totals_def Let_def)
  have eqs: "map sp_subtotal priced = map (amount_of \<circ> sb_subtotal \<circ> sp_breakdown) priced"
    "map sp_vat_amount priced = map (amount_of \<circ> sb_vat_amount \<circ> sp_breakdown) priced"
    "map sp_total priced = map (amount_of \<circ> sb_total \<circ> sp_breakdown) priced"
    "map (st_price_breakdown \<circ> sp_stop) priced = map (Some \<circ> sp_breakdown) priced"
    using vals by (auto intro!: map_cong)
  have "sum_list (map sp_total priced) = sum_list (map sp_subtotal priced) + sum_list (map sp_vat_amount priced)"
    unfolding sum_list_addf [symmetric]
    using each price_stop_money(3) by (metis (no_types, lifting) map_cong)
  then have "pr_total_amount res = pr_subtotal res + pr_vat_amount res" by (simp only: sums)
  moreover have "length stops = length priced" by (rule list_all2_lengthD [OF p(1)])
  moreover have "map st_price_breakdown stops' = map Some (ob_stops (pr_breakdown res))"
    using eqs(4) by (simp add: p(2) stops)
  ultimately show ?thesis
    unfolding sums eqs(1-3) stops by (simp add: p(2) o_assoc)
qed

text \<open>
  C26: the rules of one stop, read off the breakdown that is stored: the discount never
  exceeds the amount it is taken from, the subtotal is what is left, raised to the
  organisation's minimum charge when that is higher (and the flag says so), never
  negative, VAT is the rate of the organisation on that subtotal rounded half up, and
  the total is their sum.
\<close>

theorem stop_price_rules:
  assumes "compute_price_breakdown ctx today now stops u i = Inr (stops', res)"
    and "b \<in> set (ob_stops (pr_breakdown res))"
    and "after = amount_of (sb_pre_discount_subtotal b) - amount_of (sb_total_discount b)"
    and "least = (case og_min_charge_per_booking (cx_org ctx) of None \<Rightarrow> 0 | Some m \<Rightarrow> max 0 (quantize_half_up m))"
  shows "0 \<le> after \<and> amount_of (sb_subtotal_after_discount b) = after
    \<and> amount_of (sb_subtotal b) = max after least
    \<and> sb_min_charge_applied b = (after < least)
    \<and> amount_of (sb_vat_amount b)
        = quantize_half_up (amount_of (sb_subtotal b) * vat_rate_pct (context_vat_rate_name ctx) / 100)
    \<and> amount_of (sb_total b) = amount_of (sb_subtotal b) + amount_of (sb_vat_amount b)
    \<and> sb_packages_count b = int (length (sb_packages b))"
proof -
  from assms(1) obtain priced where p: "list_all2 (\<lambda>s r. price_stop ctx today s = Inr r) stops priced"
    "res = order_totals priced u i ''GBP'' now" by (auto simp: compute_Inr)
  from assms(2) p(2) obtain r where r: "r \<in> set priced" "b = sp_breakdown r"
    by (auto simp: order_totals_def Let_def)
  from list_all2_image [OF p(1) r(1)] obtain s where s: "price_stop ctx today s = Inr r" by blast
  from price_stop_amounts [OF s] obtain pre x es mc ap t n where
    d: "apply_discounts pre (cx_discounts ctx) t n today = Inr (x, es)"
    and a: "apply_min_charge (pre - x) (og_min_charge_per_booking (cx_org ctx)) = (sp_subtotal r, mc, ap)"
    and m: "is_money pre" "is_money x"
    and vat: "sp_vat_amount r = quantize_half_up (sp_subtotal r * vat_rate_pct (context_vat_rate_name ctx) / 100)"
    and bd: "amount_of (sb_pre_discount_subtotal b) = pre" "amount_of (sb_total_discount b) = x"
      "amount_of (sb_subtotal_after_discount b) = pre - x"
      "sb_min_charge_applied b = ap" "sb_packages_count b = int (length (sb_packages b))"
    unfolding r(2) by blast
  have x: "x \<le> pre" using apply_discounts_bounds [OF d m(1)] by simp
  have am: "is_money (pre - x)" using m by simp
  note mc = apply_min_charge_facts [OF a am]
  have after: "after = pre - x" by (simp add: assms(3) bd)
  have least: "least = max 0 mc" by (simp add: assms(4) mc(3) split: option.splits)
  have "amount_of (sb_subtotal b) = max after least" "sb_min_charge_applied b = (after < least)"
    unfolding price_stop_money(5) [OF s, folded r(2)] mc(5) bd(4) mc(4) after least
    using x by (auto simp: max_def)
  with price_stop_money [OF s, folded r(2)] x vat bd after show ?thesis by simp
qed

lemma package_inputs_weights:
  "map pk_declared_weight_kg (package_inputs pkgs) = map sk_declared_weight_kg pkgs"
proof -
  have "map (\<lambda>x. pk_declared_weight_kg (package_input_of (fst x) (snd x))) (enumerate n pkgs)
      = map sk_declared_weight_kg pkgs" for n
    by (induction pkgs arbitrary: n) (simp_all add: package_input_of_def)
  then show ?thesis by (simp add: package_inputs_def o_def case_prod_unfold)
qed

text \<open>
  C5: re-pricing a stored order keeps its price. When an order priced by
  \<^verbatim>\<open>compute_price_breakdown\<close> is re-priced from its stored breakdowns, with the same package
  weights and, for the stop whose tier is changed, a plan with the same prices, then
  re-pricing succeeds, every discount line survives the decimal texts it was stored as, and
  subtotal, VAT and total come out the same.
\<close>

theorem repricing_preserves_price:
  assumes priced: "compute_price_breakdown ctx today now stops u i = Inr (stops', res)"
    and pct: "\<forall>d \<in> set (cx_discounts ctx). pct_in_pence d"
    and stored: "list_all2 (\<lambda>st dv. dv_price_breakdown dv = st_price_breakdown st
        \<and> map sk_declared_weight_kg (packages_by_stop (dv_id dv)) = map pk_declared_weight_kg (st_packages st)
        \<and> (dv_id dv = target \<longrightarrow> tier_prices new_plan
              = tier_prices (sb_pricing_plan (the (st_price_breakdown st))))) stops' stored_stops"
  shows "\<exists>inputs stops'' res'.
      reprice_inputs (tier_change_input target new_plan) stored_stops packages_by_stop = Inr inputs
    \<and> recompute_price_breakdown_from_snapshot order_snapshot now' inputs u i = Inr (stops'', res')
    \<and> pr_subtotal res' = pr_subtotal res \<and> pr_vat_amount res' = pr_vat_amount res
    \<and> pr_total_amount res' = pr_total_amount res
    \<and> map sb_discounts (ob_stops (pr_breakdown res')) = map sb_discounts (ob_stops (pr_breakdown res))"
proof -
  from priced obtain rs where p: "list_all2 (\<lambda>s r. price_stop ctx today s = Inr r) stops rs"
    "stops' = map sp_stop rs" "res = order_totals rs u i ''GBP'' now" by (auto simp: compute_Inr)
  have bd: "st_price_breakdown (sp_stop r) = Some (sp_breakdown r)" if "r \<in> set rs" for r
    using list_all2_image [OF p(1) that] price_stop_money(4) by blast
  have dv: "list_all2 (\<lambda>r dv. dv_price_breakdown dv = Some (sp_breakdown r)
        \<and> map sk_declared_weight_kg (packages_by_stop (dv_id dv)) = map pk_declared_weight_kg (st_packages (sp_stop r))
        \<and> (dv_id dv = target \<longrightarrow> tier_prices new_plan = tier_prices (sb_pricing_plan (sp_breakdown r)))) rs stored_stops"
    using stored unfolding p(2) list_all2_map1
    by (rule list.rel_mono_strong) (auto simp: bd)
  have "\<exists>inputs. reprice_inputs (tier_change_input target new_plan) stored_stops packages_by_stop = Inr inputs"
    unfolding reprice_inputs_def
  proof (rule map_result_total)
    fix x assume "x \<in> set (enumerate 1 stored_stops)"
    then obtain k d where x: "x = (k, d)" "d \<in> set stored_stops" by (metis prod.collapse snd_in_enumerate)
    from list_all2_image [OF dv x(2)] obtain r :: stop_price where "dv_price_breakdown d = Some (sp_breakdown r)" by blast
    with x show "\<exists>y. (\<lambda>(idx, stop). tier_change_input target new_plan idx stop (packages_by_stop (dv_id stop))) x = Inr y"
      by (simp add: tier_change_input_def)
  qed
  then obtain inputs where inputs: "reprice_inputs (tier_change_input target new_plan) stored_stops packages_by_stop = Inr inputs" ..
  then have made: "list_all2 (\<lambda>d t. \<exists>k. tier_change_input target new_plan k d (packages_by_stop (dv_id d)) = Inr t) stored_stops inputs"
    unfolding reprice_inputs_def map_result_Inr by (auto dest!: list_all2_enumerate)
  have "list_all2 (\<lambda>r t. st_price_breakdown t = Some (sp_breakdown r)
       \<and> (\<exists>p'. st_resolved_plan t = Some p' \<and> tier_prices p' = tier_prices (sb_pricing_plan (sp_breakdown r)))
       \<and> map pk_declared_weight_kg (st_packages t) = map pk_declared_weight_kg (st_packages (sp_stop r))) rs inputs"
    by (rule list_all2_trans [OF _ dv made]) (auto simp: tier_change_input_def package_inputs_weights)
  from map_result_reprice [OF p(1) pct this] obtain rs' where
    "map_result (reprice_stop (str_or (os_vat_rate order_snapshot) ''STANDARD_20'')) inputs = Inr rs'"
    "map sp_subtotal rs' = map sp_subtotal rs" "map sp_vat_amount rs' = map sp_vat_amount rs"
    "map sp_total rs' = map sp_total rs" "map (sb_discounts \<circ> sp_breakdown) rs' = map (sb_discounts \<circ> sp_breakdown) rs"
    by blast
  with inputs p(3) show ?thesis
    by (auto simp: recompute_price_breakdown_from_snapshot_def order_totals_def Let_def simp del: map_eq_conv)
qed

lemma package_update_reprice:
  assumes "package_update_input idx stop pkgs = Inr t" and "reprice_stop fallback t = Inr r" "fallback \<noteq> []"
  defines "bd \<equiv> sp_breakdown r"
  assumes "0 \<le> amount_of (sb_pre_discount_subtotal bd)"
  shows "sb_discounts bd = Some [] \<and> amount_of (sb_total_discount bd) = 0 \<and> \<not> sb_min_charge_applied bd
    \<and> amount_of (sb_subtotal bd) = amount_of (sb_pre_discount_subtotal bd) \<and> sb_vat_rate bd = Some fallback
    \<and> amount_of (sb_vat_amount bd) = quantize_half_up (amount_of (sb_subtotal bd) * vat_rate_pct fallback / 100)"
proof -
  from assms(1) obtain bd0 :: stop_breakdown where t: "st_price_breakdown t = None" "st_resolved_plan t = Some (sb_pricing_plan bd0)"
    by (auto simp: package_update_input_def split: option.splits)
  with assms(2) obtain q b pp kg where p: "snapshot_plan (sb_pricing_plan bd0) = Inr q"
    "tier_prices (sb_pricing_plan bd0) = Inr (b, pp, kg)"
    by (auto simp: reprice_stop_def Let_def)
  have "is_money (b + packages_charge pp kg t)" using tier_prices_money [OF p(2)] by simp
  with assms(2,3,5) t p show ?thesis unfolding bd_def
    by (auto simp: reprice_stop_def price_stop_packages_charge reapply_snapshot_discounts_def
        decimal_or_zero_def truthy_price_def Let_def build_stop_breakdown_def)
qed

lemma stored_without_vat_rate:
  assumes "compute_price_breakdown ctx today now stops u i = Inr (stops', res)
    \<or> recompute_price_breakdown_from_snapshot earlier now stops u i = Inr (stops', res)"
  shows "os_vat_rate (stored_order_snapshot (pr_breakdown res)) = None"
  using assms by (auto simp: compute_price_breakdown_def recompute_price_breakdown_from_snapshot_def order_totals_def
      stored_order_snapshot_def Let_def)

text \<open>
  C30: changing the packages of a stop drops the pricing rules of the whole order. Take any stored order:
  its breakdown was written by \<^verbatim>\<open>compute_price_breakdown\<close> for whatever organisation and VAT rate, or
  by an earlier re-pricing. The stop inputs of a package update carry no stored breakdown, and the order's
  breakdown carries no VAT rate, so every stop is priced without discounts and without minimum charge, and
  with VAT at the standard 20 per cent, whatever the rate of the organisation is.
\<close>

theorem package_update_drops_pricing_rules:
  assumes "compute_price_breakdown ctx today now stops u i = Inr (stops', res)
      \<or> recompute_price_breakdown_from_snapshot earlier now stops u i = Inr (stops', res)"
    and "reprice_inputs package_update_input stored_stops packages_by_stop = Inr inputs"
    and "recompute_price_breakdown_from_snapshot (stored_order_snapshot (pr_breakdown res)) now' inputs u' i' = Inr (stops'', res')"
    and "bd \<in> set (ob_stops (pr_breakdown res'))" and "0 \<le> amount_of (sb_pre_discount_subtotal bd)"
  shows "sb_discounts bd = Some [] \<and> amount_of (sb_total_discount bd) = 0 \<and> \<not> sb_min_charge_applied bd
    \<and> amount_of (sb_subtotal bd) = amount_of (sb_pre_discount_subtotal bd) \<and> sb_vat_rate bd = Some ''STANDARD_20''
    \<and> amount_of (sb_vat_amount bd) = quantize_half_up (amount_of (sb_subtotal bd) * 20 / 100)"
proof -
  have "str_or (os_vat_rate (stored_order_snapshot (pr_breakdown res))) ''STANDARD_20'' = ''STANDARD_20''"
    using stored_without_vat_rate [OF assms(1)] by (simp add: str_or_def)
  then obtain rs where rs: "list_all2 (\<lambda>t r. reprice_stop ''STANDARD_20'' t = Inr r) inputs rs"
      and "ob_stops (pr_breakdown res') = map sp_breakdown rs"
    using assms(3) by (auto simp: recompute_price_breakdown_from_snapshot_def order_totals_def Let_def map_result_Inr)
  then obtain r where r: "r \<in> set rs" "bd = sp_breakdown r" using assms(4) by auto
  obtain t where t: "t \<in> set inputs" "reprice_stop ''STANDARD_20'' t = Inr r" using list_all2_image [OF rs r(1)] by blast
  have "list_all2 (\<lambda>d t. \<exists>k. package_update_input k d (packages_by_stop (dv_id d)) = Inr t) stored_stops inputs"
    using assms(2) unfolding reprice_inputs_def map_result_Inr by (auto dest!: list_all2_enumerate)
  from list_all2_image [OF this t(1)] obtain k d where "package_update_input k d (packages_by_stop (dv_id d)) = Inr t" by blast
  moreover have "vat_rate_pct ''STANDARD_20'' = 20" by code_simp
  ultimately show ?thesis using package_update_reprice [OF _ t(2)] assms(5) unfolding r(2) by auto
qed


subsection \<open>A sample order\<close>

text \<open>
  Two stops on a plan of 10.00 a stop, 5.00 a package and 1.50 a kilogram, a discount of
  10 per cent, a minimum charge of 15.00 and a zero-rated organisation: 36.37, of which the
  second stop is raised to the minimum.
\<close>

definition sample_plan :: plan where
  "sample_plan = \<lparr>pl_id_price_tier = Some ''T1'', pl_plain_name = Some ''Same Day'', pl_plain_type = None,
     pl_days = Some 1, pl_base_price = Some (PText ''10.00''), pl_price_per_package = Some (PNum 5),
     pl_price_per_kg = Some (PText ''1.5''), pl_tier_name_at_order_time = None, pl_service_tier_id = None,
     pl_global_tier_id = None, pl_color = None, pl_icon = None, pl_description = None,
     pl_duration_days = None, pl_error_margin_kg = None, pl_available_for = None, pl_scope_type = None,
     pl_source_scope_type = None, pl_scope_org_id = None, pl_status = None, pl_is_default = None,
     pl_permitted = None, pl_is_override = None\<rparr>"

definition sample_pricing_context :: pricing_context where
  "sample_pricing_context = \<lparr>
     cx_org = \<lparr>og_pricing_plans = Some [None, Some sample_plan], og_max_package_weight = Some 30,
       og_max_package_length = None, og_max_package_width = None, og_max_package_height = None,
       og_min_charge_per_booking = Some 15\<rparr>,
     cx_vat_rate = Some ZERO_RATED,
     cx_discounts = [\<lparr>dc_service_tier_id = ''T1'', dc_discount_type = PERCENTAGE, dc_is_enabled = True,
       dc_value = Some 10, dc_valid_from = None, dc_valid_until = None, dc_volume_tiers = None\<rparr>],
     cx_order_count = 4\<rparr>"

definition sample_package :: "rat option \<Rightarrow> package_input" where
  "sample_package w = \<lparr>pk_index = 1, pk_declared_weight_kg = w, pk_length_cm = None, pk_width_cm = None,
     pk_height_cm = None, pk_package_uuid = Some ''p'', pk_package_ref = None, pk_price_breakdown = None\<rparr>"

definition sample_stops :: "stop_input list" where
  "sample_stops =
     [\<lparr>st_index = 1, st_service_tier_name = None, st_service_tier_id = Some ''T1'',
       st_packages = [sample_package (Some (5 / 2)), sample_package None], st_stop_uuid = Some ''s1'',
       st_tracking_id = None, st_price_breakdown = None, st_resolved_plan = None\<rparr>,
      \<lparr>st_index = 2, st_service_tier_name = Some ''same day '', st_service_tier_id = None,
       st_packages = [], st_stop_uuid = Some ''s2'',
       st_tracking_id = None, st_price_breakdown = None, st_resolved_plan = None\<rparr>]"

lemma sample_tier_prices: "tier_prices sample_plan = Inr (10, 5, 3 / 2)"
  by code_simp

lemma sample_discount:
  "map_option fst (case apply_discounts base (cx_discounts sample_pricing_context)
      (str_or_none (str_or (pl_id_price_tier sample_plan) '''')) (cx_order_count sample_pricing_context) 0 of
      Inr r \<Rightarrow> Some r | Inl _ \<Rightarrow> None) = Some x
   \<Longrightarrow> \<exists>es. apply_discounts base (cx_discounts sample_pricing_context)
      (str_or_none (str_or (pl_id_price_tier sample_plan) '''')) (cx_order_count sample_pricing_context) 0 = Inr (x, es)"
  by (auto split: sum.splits)

lemma sample_discount_values:
  "map_option fst (case apply_discounts (10 + 55 / 4) (cx_discounts sample_pricing_context)
      (str_or_none (str_or (pl_id_price_tier sample_plan) '''')) (cx_order_count sample_pricing_context) 0 of
      Inr r \<Rightarrow> Some r | Inl _ \<Rightarrow> None) = Some (119 / 50)"
  "map_option fst (case apply_discounts (10 + 0) (cx_discounts sample_pricing_context)
      (str_or_none (str_or (pl_id_price_tier sample_plan) '''')) (cx_order_count sample_pricing_context) 0 of
      Inr r \<Rightarrow> Some r | Inl _ \<Rightarrow> None) = Some 1"
  by code_simp+

lemma sample_stops_resolved:
  "map (\<lambda>s. resolve_plan_for_stop s (cx_org sample_pricing_context)) sample_stops = [Inr sample_plan, Inr sample_plan]"
  by code_simp

lemma sample_stop_prices:
  "\<exists>r1 r2. map (price_stop sample_pricing_context 0) sample_stops = [Inr r1, Inr r2]
     \<and> sp_subtotal r1 = 2137 / 100 \<and> sp_subtotal r2 = 15 \<and> sp_vat_amount r1 = 0 \<and> sp_vat_amount r2 = 0"
proof -
  obtain s1 s2 where s: "sample_stops = [s1, s2]" by (simp add: sample_stops_def)
  have c: "packages_charge 5 (3 / 2) s1 = 55 / 4" "packages_charge 5 (3 / 2) s2 = 0"
  proof -
    have "map (packages_charge 5 (3 / 2)) sample_stops = [55 / 4, 0]" by code_simp
    then show "packages_charge 5 (3 / 2) s1 = 55 / 4" "packages_charge 5 (3 / 2) s2 = 0" by (simp_all add: s)
  qed
  have p: "resolve_plan_for_stop s1 (cx_org sample_pricing_context) = Inr sample_plan"
    "resolve_plan_for_stop s2 (cx_org sample_pricing_context) = Inr sample_plan"
    using sample_stops_resolved by (simp_all add: s)
  obtain es1 where d1: "apply_discounts (10 + 55 / 4) (cx_discounts sample_pricing_context)
      (str_or_none (str_or (pl_id_price_tier sample_plan) '''')) (cx_order_count sample_pricing_context) 0 = Inr (119 / 50, es1)"
    using sample_discount [OF sample_discount_values(1)] by blast
  obtain es2 where d2: "apply_discounts (10 + 0) (cx_discounts sample_pricing_context)
      (str_or_none (str_or (pl_id_price_tier sample_plan) '''')) (cx_order_count sample_pricing_context) 0 = Inr (1, es2)"
    using sample_discount [OF sample_discount_values(2)] by blast
  have a: "apply_min_charge (10 + 55 / 4 - 119 / 50) (og_min_charge_per_booking (cx_org sample_pricing_context)) = (2137 / 100, 15, False)"
    "apply_min_charge (10 + 0 - 1) (og_min_charge_per_booking (cx_org sample_pricing_context)) = (15, 15, True)"
    by code_simp+
  have v: "vat_rate_pct (context_vat_rate_name sample_pricing_context) = 0"
    by (simp add: context_vat_rate_name_def sample_pricing_context_def vat_rate_pct_def)
  from price_stop_value [OF p(1) sample_tier_prices c(1) d1 a(1)]
    price_stop_value [OF p(2) sample_tier_prices c(2) d2 a(2)]
  show ?thesis by (auto simp: s v)
qed

definition sample_priced :: "stop_input list \<times> pricing_result" where
  "sample_priced =
     (case compute_price_breakdown sample_pricing_context 0 0 sample_stops None None of
        Inr r \<Rightarrow> r | Inl _ \<Rightarrow> ([], order_totals [] None None '''' 0))"

lemma sample_computed:
  "compute_price_breakdown sample_pricing_context 0 0 sample_stops None None
     = Inr (fst sample_priced, snd sample_priced)"
  "pr_total_amount (snd sample_priced) = 3637 / 100"
  "length (ob_stops (pr_breakdown (snd sample_priced))) = 2"
  "map (map pk_declared_weight_kg \<circ> st_packages) (fst sample_priced) = [[Some (5 / 2), None], []]"
proof -
  obtain s1 s2 where s: "sample_stops = [s1, s2]" by (simp add: sample_stops_def)
  obtain r1 r2 where r: "price_stop sample_pricing_context 0 s1 = Inr r1"
    "price_stop sample_pricing_context 0 s2 = Inr r2" "sp_subtotal r1 = 2137 / 100" "sp_subtotal r2 = 15"
    "sp_vat_amount r1 = 0" "sp_vat_amount r2 = 0"
    using sample_stop_prices by (auto simp: s)
  have "sp_total r1 = 2137 / 100" "sp_total r2 = 15"
    using price_stop_money(3) [OF r(1)] price_stop_money(3) [OF r(2)] r by simp_all
  then have "sp_total r1 + sp_total r2 = 3637 / 100" by simp
  moreover have "quantize_half_up (3637 / 100) = 3637 / 100" by (rule quantize_half_up_id) (simp add: is_money_def)
  ultimately have q: "quantize_half_up (sp_total r1 + sp_total r2) = 3637 / 100" by (simp only:)
  have pr: "sample_priced = ([sp_stop r1, sp_stop r2], order_totals [r1, r2] None None ''GBP'' 0)"
    by (simp add: sample_priced_def compute_price_breakdown_def s r)
  show "compute_price_breakdown sample_pricing_context 0 0 sample_stops None None
      = Inr (fst sample_priced, snd sample_priced)"
    unfolding pr by (simp add: compute_price_breakdown_def s r)
  show "pr_total_amount (snd sample_priced) = 3637 / 100"
    "length (ob_stops (pr_breakdown (snd sample_priced))) = 2"
    using q by (simp_all add: pr order_totals_def Let_def)
  have "map pk_declared_weight_kg (st_packages (sp_stop r1)) = map pk_declared_weight_kg (st_packages s1)"
    "map pk_declared_weight_kg (st_packages (sp_stop r2)) = map pk_declared_weight_kg (st_packages s2)"
    using price_stop_Inr [OF r(1)] price_stop_Inr [OF r(2)] by blast+
  then show "map (map pk_declared_weight_kg \<circ> st_packages) (fst sample_priced) = [[Some (5 / 2), None], []]"
    using s by (auto simp: pr sample_stops_def sample_package_def)
qed

theorem order_price_adds_up_witness:
  "sum_list (map (amount_of \<circ> sb_total) (ob_stops (pr_breakdown (snd sample_priced)))) = 3637 / 100
   \<and> length (fst sample_priced) = 2"
  using order_price_adds_up [OF sample_computed(1)] sample_computed(2) by (simp add: sample_stops_def)

theorem stop_price_rules_witness:
  "\<exists>b \<in> set (ob_stops (pr_breakdown (snd sample_priced))). 15 \<le> amount_of (sb_subtotal b)"
proof -
  obtain b where b: "b \<in> set (ob_stops (pr_breakdown (snd sample_priced)))"
    using sample_computed(3) by (cases "ob_stops (pr_breakdown (snd sample_priced))") auto
  have "og_min_charge_per_booking (cx_org sample_pricing_context) = Some 15"
    by (simp add: sample_pricing_context_def)
  moreover have "quantize_half_up 15 = 15" by (rule quantize_half_up_id) (simp add: is_money_def)
  ultimately have "15 \<le> amount_of (sb_subtotal b)"
    using stop_price_rules [OF sample_computed(1) b refl refl] by simp
  with b show ?thesis by blast
qed


definition sample_stored_stop :: "string \<Rightarrow> stop_breakdown option \<Rightarrow> stored_stop" where
  "sample_stored_stop i bd = \<lparr>dv_id = i, dv_tracking_id = None, dv_service_tier = None,
     dv_service_tier_id = None, dv_price_breakdown = bd\<rparr>"

definition sample_stored_packages :: "string \<Rightarrow> stored_package list" where
  "sample_stored_packages i =
     (if i = ''s1'' then
        [\<lparr>sk_id = ''p1'', sk_package_id = None, sk_declared_weight_kg = Some (5 / 2), sk_length_cm = None,
          sk_width_cm = None, sk_height_cm = None\<rparr>,
         \<lparr>sk_id = ''p2'', sk_package_id = None, sk_declared_weight_kg = None, sk_length_cm = None,
          sk_width_cm = None, sk_height_cm = None\<rparr>]
      else [])"

theorem repricing_preserves_price_witness:
  "\<exists>stored inputs stops'' res'.
      reprice_inputs (tier_change_input ''s3'' sample_plan) stored sample_stored_packages = Inr inputs
    \<and> recompute_price_breakdown_from_snapshot \<lparr>os_vat_rate = None, os_currency = None\<rparr> 7 inputs None None
        = Inr (stops'', res')
    \<and> pr_total_amount res' = 3637 / 100"
proof -
  obtain t1 t2 where t: "fst sample_priced = [t1, t2]"
    "map pk_declared_weight_kg (st_packages t1) = [Some (5 / 2), None]" "st_packages t2 = []"
    using sample_computed(4) by (auto simp: map_eq_Cons_conv)
  let ?stored = "[sample_stored_stop ''s1'' (st_price_breakdown t1), sample_stored_stop ''s2'' (st_price_breakdown t2)]"
  have pct: "\<forall>d \<in> set (cx_discounts sample_pricing_context). pct_in_pence d"
    by (simp add: sample_pricing_context_def pct_in_pence_def is_money_def)
  have "list_all2 (\<lambda>st dv. dv_price_breakdown dv = st_price_breakdown st
        \<and> map sk_declared_weight_kg (sample_stored_packages (dv_id dv)) = map pk_declared_weight_kg (st_packages st)
        \<and> (dv_id dv = ''s3'' \<longrightarrow> tier_prices sample_plan
              = tier_prices (sb_pricing_plan (the (st_price_breakdown st))))) (fst sample_priced) ?stored"
    using t by (simp add: sample_stored_stop_def sample_stored_packages_def)
  from repricing_preserves_price [OF sample_computed(1) pct this,
      of "\<lparr>os_vat_rate = None, os_currency = None\<rparr>" 7] sample_computed(2)
  show ?thesis by metis
qed


theorem package_update_drops_pricing_rules_witness:
  "\<exists>bd r1 t r. st_price_breakdown (hd (fst sample_priced)) = Some bd
    \<and> price_stop sample_pricing_context 0 (hd sample_stops) = Inr r1 \<and> sp_subtotal r1 = 2137 / 100 \<and> sp_vat_amount r1 = 0
    \<and> reprice_inputs package_update_input [sample_stored_stop ''s1'' (Some bd)] sample_stored_packages = Inr [t]
    \<and> reprice_stop ''STANDARD_20'' t = Inr r \<and> sb_vat_rate (sp_breakdown r) = Some ''STANDARD_20''
    \<and> amount_of (sb_subtotal (sp_breakdown r)) = 2375 / 100 \<and> amount_of (sb_vat_amount (sp_breakdown r)) = 475 / 100"
proof -
  obtain s1 s2 where s: "sample_stops = [s1, s2]" by (simp add: sample_stops_def)
  obtain r1 r2 where r: "price_stop sample_pricing_context 0 s1 = Inr r1"
    "price_stop sample_pricing_context 0 s2 = Inr r2" "sp_subtotal r1 = 2137 / 100" "sp_vat_amount r1 = 0"
    using sample_stop_prices by (auto simp: s)
  have bd: "st_price_breakdown (sp_stop r1) = Some (sp_breakdown r1)" by (rule price_stop_money(4) [OF r(1)])
  have hd: "hd (fst sample_priced) = sp_stop r1"
    by (simp add: sample_priced_def compute_price_breakdown_def s r)
  have p1: "resolve_plan_for_stop s1 (cx_org sample_pricing_context) = Inr sample_plan"
    using sample_stops_resolved by (simp add: s)
  obtain q where "sb_pricing_plan (sp_breakdown r1) = q" "snapshot_plan sample_plan = Inr q"
    using price_stop_Inr [OF r(1)] p1 by (auto simp: build_stop_breakdown_def)
  then have q: "tier_prices (sb_pricing_plan (sp_breakdown r1)) = Inr (10, 5, 3 / 2)"
    using tier_prices_snapshot sample_tier_prices by simp
  obtain t where t: "package_update_input 1 (sample_stored_stop ''s1'' (Some (sp_breakdown r1)))
      (sample_stored_packages ''s1'') = Inr t" "st_price_breakdown t = None"
      "st_resolved_plan t = Some (sb_pricing_plan (sp_breakdown r1))"
      "st_packages t = package_inputs (sample_stored_packages ''s1'')"
    by (simp add: package_update_input_def sample_stored_stop_def)
  have c: "packages_charge 5 (3 / 2) t = 55 / 4"
  proof -
    have "sum_list (map (package_charge 5 (3 / 2)) [Some (5 / 2), None]) = 55 / 4" by code_simp
    then show ?thesis
      by (simp add: packages_charge_def t(4) package_inputs_weights sample_stored_packages_def)
  qed
  have "is_money (10 + 55 / 4)" by (simp add: is_money_def)
  then have m: "quantize_half_up (10 + 55 / 4) = 2375 / 100" by simp
  obtain q' where q': "snapshot_plan (sb_pricing_plan (sp_breakdown r1)) = Inr q'"
    using snapshot_plan_ok [OF q] by blast
  have "\<exists>r. reprice_stop ''STANDARD_20'' t = Inr r \<and> amount_of (sb_pre_discount_subtotal (sp_breakdown r)) = 2375 / 100"
    using m by (simp add: reprice_stop_def t q q' c price_stop_packages_charge reapply_snapshot_discounts_def
        decimal_or_zero_def truthy_price_def Let_def build_stop_breakdown_def del: bind_result_Inr_iff)
  then obtain r where r': "reprice_stop ''STANDARD_20'' t = Inr r"
    "amount_of (sb_pre_discount_subtotal (sp_breakdown r)) = 2375 / 100" by blast
  let ?stored = "[sample_stored_stop ''s1'' (Some (sp_breakdown r1))]"
  have inputs: "reprice_inputs package_update_input ?stored sample_stored_packages = Inr [t]"
    using t(1) by (simp add: reprice_inputs_def sample_stored_stop_def)
  have rate: "os_vat_rate (stored_order_snapshot (pr_breakdown (snd sample_priced))) = None"
    using stored_without_vat_rate sample_computed(1) by blast
  have run: "recompute_price_breakdown_from_snapshot (stored_order_snapshot (pr_breakdown (snd sample_priced))) 7 [t] None None
      = Inr ([sp_stop r], order_totals [r] None None (str_or (os_currency (stored_order_snapshot (pr_breakdown (snd sample_priced)))) ''GBP'') 7)"
    using r'(1) by (simp add: recompute_price_breakdown_from_snapshot_def rate str_or_def)
  have vat: "quantize_half_up (2375 / 100 * 20 / 100) = 475 / 100" by code_simp
  let ?bd = "sp_breakdown r"
  have "?bd \<in> set (ob_stops (pr_breakdown (order_totals [r] None None
      (str_or (os_currency (stored_order_snapshot (pr_breakdown (snd sample_priced)))) ''GBP'') 7)))"
    by (simp add: order_totals_def Let_def)
  moreover have "0 \<le> amount_of (sb_pre_discount_subtotal ?bd)" by (simp add: r')
  ultimately have dropped: "sb_discounts ?bd = Some [] \<and> amount_of (sb_subtotal ?bd) = amount_of (sb_pre_discount_subtotal ?bd)
      \<and> sb_vat_rate ?bd = Some ''STANDARD_20'' \<and> amount_of (sb_vat_amount ?bd) = quantize_half_up (amount_of (sb_subtotal ?bd) * 20 / 100)"
    using package_update_drops_pricing_rules [OF disjI1 [OF sample_computed(1)] inputs run] by blast
  have sub: "amount_of (sb_subtotal ?bd) = 2375 / 100" using dropped r'(2) by simp
  have "amount_of (sb_vat_amount ?bd) = quantize_half_up (2375 / 100 * 20 / 100)" using dropped unfolding sub by blast
  then have "amount_of (sb_vat_amount ?bd) = 475 / 100" unfolding vat .
  moreover have "price_stop sample_pricing_context 0 (hd sample_stops) = Inr r1" using r(1) by (simp add: s)
  moreover have "st_price_breakdown (hd (fst sample_priced)) = Some (sp_breakdown r1)" using bd hd by simp
  ultimately show ?thesis using sub inputs dropped r(3,4) r'(1) by blast
qed

end
