(* ===== verification/OrgCredit.thy ===== *)
theory OrgCredit
  imports Money AuditTrail
begin

text \<open>
  Credit accounts of organisations, \<^verbatim>\<open>app/modules/org_credit\<close>: opening, provisioning, the
  status changes of the admin service with their history and audit trail, and the ledger
  service (consume, repay, manual adjustment) with its idempotency keys. An account row is
  locked for the whole of an operation, so operations are steps on the committed tables.
  Instants are seconds since the epoch; the date of an instant is its day number. Ids of
  new rows are arguments. Alert evaluations, whose exceptions the code swallows, are
  recorded as requests.
\<close>

subsection \<open>Data\<close>

datatype account_status = ACTIVE | ON_HOLD | SUSPENDED | CLOSED

fun account_status_value :: "account_status \<Rightarrow> string" where
  "account_status_value ACTIVE = ''ACTIVE''"
| "account_status_value ON_HOLD = ''ON_HOLD''"
| "account_status_value SUSPENDED = ''SUSPENDED''"
| "account_status_value CLOSED = ''CLOSED''"

datatype ledger_movement = CONSUME | REPAY | MANUAL_ADJUST_USED

datatype ledger_source = SRC_ORDER | SRC_INVOICE | SRC_PAYMENT | SRC_MANUAL | SRC_SYSTEM

fun ledger_source_value :: "ledger_source \<Rightarrow> string" where
  "ledger_source_value SRC_ORDER = ''ORDER''"
| "ledger_source_value SRC_INVOICE = ''INVOICE''"
| "ledger_source_value SRC_PAYMENT = ''PAYMENT''"
| "ledger_source_value SRC_MANUAL = ''MANUAL''"
| "ledger_source_value SRC_SYSTEM = ''SYSTEM''"

datatype adjustment_reason = COMPLIANCE | GOODWILL | DATA_CORRECTION | ADJUST_OTHER

fun adjustment_reason_value :: "adjustment_reason \<Rightarrow> string" where
  "adjustment_reason_value COMPLIANCE = ''COMPLIANCE''"
| "adjustment_reason_value GOODWILL = ''GOODWILL''"
| "adjustment_reason_value DATA_CORRECTION = ''DATA_CORRECTION''"
| "adjustment_reason_value ADJUST_OTHER = ''OTHER''"

datatype review_frequency = REVIEW_MONTHLY | REVIEW_QUARTERLY | REVIEW_SEMI_ANNUAL | REVIEW_ANNUAL

fun review_frequency_value :: "review_frequency \<Rightarrow> string" where
  "review_frequency_value REVIEW_MONTHLY = ''MONTHLY''"
| "review_frequency_value REVIEW_QUARTERLY = ''QUARTERLY''"
| "review_frequency_value REVIEW_SEMI_ANNUAL = ''SEMI_ANNUAL''"
| "review_frequency_value REVIEW_ANNUAL = ''ANNUAL''"

definition review_frequency_of :: "string \<Rightarrow> review_frequency result" where
  \<comment> \<open>the enum constructor raises \<^verbatim>\<open>ValueError\<close>, an unhandled error, on another text\<close>
  "review_frequency_of s =
     (if s = ''MONTHLY'' then Inr REVIEW_MONTHLY else if s = ''QUARTERLY'' then Inr REVIEW_QUARTERLY
      else if s = ''SEMI_ANNUAL'' then Inr REVIEW_SEMI_ANNUAL else if s = ''ANNUAL'' then Inr REVIEW_ANNUAL
      else Inl (InvalidOperation s))"

datatype hold_reason = INVESTIGATION_PENDING | CLIENT_REQUEST | PAYMENT_DISPUTE | RISK_CONCERN | HOLD_OTHER

fun hold_reason_value :: "hold_reason \<Rightarrow> string" where
  "hold_reason_value INVESTIGATION_PENDING = ''INVESTIGATION_PENDING''"
| "hold_reason_value CLIENT_REQUEST = ''CLIENT_REQUEST''"
| "hold_reason_value PAYMENT_DISPUTE = ''PAYMENT_DISPUTE''"
| "hold_reason_value RISK_CONCERN = ''RISK_CONCERN''"
| "hold_reason_value HOLD_OTHER = ''OTHER''"

datatype close_reason =
    CLIENT_SWITCHED_TO_PREPAID
  | BUSINESS_RELATIONSHIP_TERMINATED
  | ACCOUNT_SETTLED_AFTER_SUSPENSION
  | RISK_OR_COMPLIANCE_CONCERNS
  | CLOSE_OTHER

fun close_reason_value :: "close_reason \<Rightarrow> string" where
  "close_reason_value CLIENT_SWITCHED_TO_PREPAID = ''CLIENT_SWITCHED_TO_PREPAID''"
| "close_reason_value BUSINESS_RELATIONSHIP_TERMINATED = ''BUSINESS_RELATIONSHIP_TERMINATED''"
| "close_reason_value ACCOUNT_SETTLED_AFTER_SUSPENSION = ''ACCOUNT_SETTLED_AFTER_SUSPENSION''"
| "close_reason_value RISK_OR_COMPLIANCE_CONCERNS = ''RISK_OR_COMPLIANCE_CONCERNS''"
| "close_reason_value CLOSE_OTHER = ''OTHER''"

datatype score_band = EXCELLENT | GOOD | FAIR | POOR | VERY_POOR

definition internal_credit_score_band :: "int \<Rightarrow> score_band" where
  "internal_credit_score_band score =
     (let s = min 100 (max 0 score)
      in if s \<ge> 80 then EXCELLENT else if s \<ge> 60 then GOOD else if s \<ge> 40 then FAIR
         else if s \<ge> 20 then POOR else VERY_POOR)"

record auth_user =
  au_id :: string
  au_role :: string

record request_info =
  ri_ip :: "string option"
  ri_ua :: "string option"

record credit_account =
  ca_id :: string
  ca_org :: string
  ca_status :: account_status
  ca_status_reason :: "string option"
  ca_action_by :: "string option"
  ca_last_status_change_at :: "int option"
  ca_credit_limit :: "rat option"
  ca_credit_limit_updated_at :: "int option"
  ca_used_credit :: rat
  ca_payment_terms_days :: "int option"
  ca_payment_terms_effective_from :: "int option"
  ca_payment_terms_updated_at :: "int option"
  ca_review_frequency :: "review_frequency option"
  ca_facility_start_date :: "int option"

record ledger_entry =
  le_id :: string
  le_org :: string
  le_account_id :: string
  le_movement :: ledger_movement
  le_source_type :: "ledger_source option"
  le_source_id :: "string option"
  le_key :: "string option"
  le_used_after :: rat
  le_available_after :: rat
  le_limit_after :: "rat option"
  le_actor :: "string option"
  le_reason :: "adjustment_reason option"

record status_history =
  sh_org :: string
  sh_account_id :: string
  sh_from :: "account_status option"
  sh_to :: account_status
  sh_reason :: "string option"
  sh_actor :: "string option"

datatype alert_request = AlertStatusChange string account_status | AlertUsedCredit string rat

record credit_state =
  cr_orgs :: "string list"
  cr_configs :: "(string \<times> rat option) list"
  cr_accounts :: "credit_account list"
  cr_ledger :: "ledger_entry list"
  cr_history :: "status_history list"
  cr_audit :: "audit_call list"
  cr_alerts :: "alert_request list"

subsection \<open>Shared steps\<close>

definition day_of :: "int \<Rightarrow> int" where
  "day_of now = now div 86400"

definition available_credit :: "credit_account \<Rightarrow> rat" where
  "available_credit a = (case ca_credit_limit a of None \<Rightarrow> 0 | Some l \<Rightarrow> l - ca_used_credit a)"

definition org_or_404 :: "string \<Rightarrow> credit_state \<Rightarrow> unit result" where
  "org_or_404 org st = (if org \<in> set (cr_orgs st) then Inr () else Inl (NotFoundError ''Organization'' org))"

definition account_by_org :: "string \<Rightarrow> credit_state \<Rightarrow> credit_account option" where
  "account_by_org org st = find (\<lambda>a. ca_org a = org) (cr_accounts st)"

definition load_account_locked :: "string \<Rightarrow> credit_state \<Rightarrow> credit_account result" where
  "load_account_locked org st =
     (case account_by_org org st of
        None \<Rightarrow> Inl (NotFoundError ''org_credit_account'' org) | Some a \<Rightarrow> Inr a)"

definition put_account :: "credit_account \<Rightarrow> credit_state \<Rightarrow> credit_state" where
  "put_account a st = st\<lparr>cr_accounts := map (\<lambda>b. if ca_id b = ca_id a then a else b) (cr_accounts st)\<rparr>"

definition create_account :: "credit_account \<Rightarrow> credit_state \<Rightarrow> credit_state result" where
  \<comment> \<open>the primary key and the unique index on the organisation\<close>
  "create_account a st =
     (if ca_id a \<in> ca_id ` set (cr_accounts st) then Inl (IntegrityError ''primary key'')
      else if ca_org a \<in> ca_org ` set (cr_accounts st) then Inl (IntegrityError ''organization_id'')
      else Inr (st\<lparr>cr_accounts := cr_accounts st @ [a]\<rparr>))"

definition record_status_transition ::
    "credit_account \<Rightarrow> account_status \<Rightarrow> account_status \<Rightarrow> string option \<Rightarrow> string option
     \<Rightarrow> credit_state \<Rightarrow> credit_state" where
  "record_status_transition a from_status to_status reason actor st =
     st\<lparr>cr_history := cr_history st @ [\<lparr>sh_org = ca_org a, sh_account_id = ca_id a,
        sh_from = Some from_status, sh_to = to_status, sh_reason = reason, sh_actor = actor\<rparr>]\<rparr>"

definition credit_audit ::
    "request_info \<Rightarrow> string \<Rightarrow> string \<Rightarrow> string \<Rightarrow> auth_user option \<Rightarrow> (string \<times> json) list option
     \<Rightarrow> (string \<times> json) list \<Rightarrow> string \<Rightarrow> string \<Rightarrow> string \<Rightarrow> string \<Rightarrow> credit_state \<Rightarrow> credit_state" where
  "credit_audit ri action entity_type entity_id caller old new reason org event_type severity st =
     st\<lparr>cr_audit := cr_audit st @ [\<lparr>ac_action = action, ac_entity_type = entity_type,
        ac_entity_id = Some entity_id, ac_entity_ref = None, ac_user_id = map_option au_id caller,
        ac_user_role = Some (case caller of None \<Rightarrow> ''SYSTEM'' | Some c \<Rightarrow> au_role c),
        ac_old_value = old, ac_new_value = Some new, ac_ip_address = ri_ip ri,
        ac_user_agent = ri_ua ri, ac_reason = Some reason, ac_organization_id = Some org,
        ac_category = ''CREDIT'', ac_event_type = event_type, ac_severity = severity,
        ac_session_id = None, ac_correlation_id = None\<rparr>]\<rparr>"

definition request_alert :: "alert_request \<Rightarrow> credit_state \<Rightarrow> credit_state" where
  "request_alert r st = st\<lparr>cr_alerts := cr_alerts st @ [r]\<rparr>"

definition set_status ::
    "account_status \<Rightarrow> int \<Rightarrow> string \<Rightarrow> auth_user \<Rightarrow> credit_account \<Rightarrow> credit_account" where
  "set_status s now reason caller a =
     a\<lparr>ca_status := s, ca_last_status_change_at := Some now, ca_status_reason := Some reason,
       ca_action_by := Some (au_id caller)\<rparr>"

subsection \<open>Opening and provisioning\<close>

definition get_or_create_account ::
    "string \<Rightarrow> string \<Rightarrow> int \<Rightarrow> credit_state \<Rightarrow> (credit_state \<times> credit_account) result" where
  "get_or_create_account org new_id now st =
     bind_result (org_or_404 org st) (\<lambda>_.
     case account_by_org org st of
       Some a \<Rightarrow> Inr (st, a)
     | None \<Rightarrow>
         (let initial_limit = (case map_of (cr_configs st) org of None \<Rightarrow> None | Some l \<Rightarrow> l);
              a = \<lparr>ca_id = new_id, ca_org = org, ca_status = ACTIVE, ca_status_reason = None,
                   ca_action_by = None, ca_last_status_change_at = Some now,
                   ca_credit_limit = initial_limit,
                   ca_credit_limit_updated_at = (if initial_limit = None then None else Some now),
                   ca_used_credit = 0, ca_payment_terms_days = None,
                   ca_payment_terms_effective_from = None, ca_payment_terms_updated_at = None,
                   ca_review_frequency = None, ca_facility_start_date = Some (day_of now)\<rparr>
          in bind_result (create_account a st) (\<lambda>st'. Inr (st', a))))"

definition provision_create ::
    "string \<Rightarrow> auth_user \<Rightarrow> rat \<Rightarrow> string \<Rightarrow> int \<Rightarrow> credit_state \<Rightarrow> credit_state result" where
  \<comment> \<open>the row of a first provisioning\<close>
  "provision_create org caller approved_credit_limit new_id now st =
     (if account_by_org org st = None then
        create_account \<lparr>ca_id = new_id, ca_org = org, ca_status = ACTIVE,
          ca_status_reason = Some ''Provisioned on credit application approval'',
          ca_action_by = Some (au_id caller), ca_last_status_change_at = Some now,
          ca_credit_limit = Some approved_credit_limit, ca_credit_limit_updated_at = Some now,
          ca_used_credit = 0, ca_payment_terms_days = None, ca_payment_terms_effective_from = None,
          ca_payment_terms_updated_at = None, ca_review_frequency = None,
          ca_facility_start_date = Some (day_of now)\<rparr> st
      else Inr st)"

definition provision_row ::
    "auth_user \<Rightarrow> rat \<Rightarrow> int \<Rightarrow> review_frequency option \<Rightarrow> int \<Rightarrow> credit_account \<Rightarrow> credit_account" where
  "provision_row caller approved_credit_limit approved_payment_terms_days freq now a =
     (let b = a\<lparr>ca_credit_limit := Some approved_credit_limit, ca_credit_limit_updated_at := Some now,
            ca_payment_terms_days := Some approved_payment_terms_days,
            ca_payment_terms_effective_from := Some (day_of now),
            ca_payment_terms_updated_at := Some now,
            ca_review_frequency := (case freq of None \<Rightarrow> ca_review_frequency a | Some f \<Rightarrow> Some f),
            ca_facility_start_date := (case ca_facility_start_date a of None \<Rightarrow> Some (day_of now) | Some d \<Rightarrow> Some d)\<rparr>
      in if ca_status a \<noteq> ACTIVE
         then set_status ACTIVE now ''Reactivated on credit application approval'' caller b else b)"

definition provision_account_on_approval ::
    "request_info \<Rightarrow> string \<Rightarrow> auth_user \<Rightarrow> string \<Rightarrow> rat \<Rightarrow> int \<Rightarrow> string option \<Rightarrow> string \<Rightarrow> int
     \<Rightarrow> credit_state \<Rightarrow> (credit_state \<times> credit_account) result" where
  "provision_account_on_approval ri org caller application_id approved_credit_limit
     approved_payment_terms_days review_frequency_value' new_id now st =
   bind_result (org_or_404 org st) (\<lambda>_.
   let is_new = (account_by_org org st = None) in
   bind_result (provision_create org caller approved_credit_limit new_id now st) (\<lambda>st1.
   bind_result (load_account_locked org st1) (\<lambda>old.
   bind_result (case review_frequency_value' of
       None \<Rightarrow> Inr None
     | Some v \<Rightarrow> bind_result (review_frequency_of (if v = ''ANNUALLY'' then ''ANNUAL'' else v)) (\<lambda>f. Inr (Some f)))
     (\<lambda>freq.
   let acct = provision_row caller approved_credit_limit approved_payment_terms_days freq now old;
       st2 = put_account acct st1;
       st3 = (if ca_status old \<noteq> ACTIVE
              then record_status_transition acct (ca_status old) ACTIVE
                     (Some ''Reactivated on credit application approval'') (Some (au_id caller)) st2
              else st2);
       st4 = credit_audit ri
         (if is_new then ''org_credit_account.provisioned'' else ''org_credit_account.reactivated_on_approval'')
         ''org_credit_account'' (ca_id acct) (Some caller)
         (Some [(''credit_limit'', j_dec (ca_credit_limit old)),
                (''status'', JStr (account_status_value (ca_status old))),
                (''payment_terms_days'', j_int (ca_payment_terms_days old)),
                (''review_frequency'', j_str (map_option review_frequency_value (ca_review_frequency old)))])
         [(''credit_limit'', JDec approved_credit_limit), (''status'', JStr ''ACTIVE''),
          (''payment_terms_days'', JInt approved_payment_terms_days),
          (''review_frequency'', j_str (map_option review_frequency_value freq)),
          (''application_id'', JStr application_id)]
         ((if is_new then ''Credit account provisioned on application '' else ''Credit account reactivated on application '')
          @ application_id @ '' approval'')
         org ''CREDIT_APPLICATION_APPROVED'' ''NOTICE'' st3
   in Inr (st4, acct)))))"

subsection \<open>Status changes\<close>

definition place_hold ::
    "request_info \<Rightarrow> string \<Rightarrow> auth_user \<Rightarrow> hold_reason \<Rightarrow> string option \<Rightarrow> string \<Rightarrow> int
     \<Rightarrow> credit_state \<Rightarrow> (credit_state \<times> credit_account) result" where
  "place_hold ri org caller category detailed_reason new_id now st =
     bind_result (get_or_create_account org new_id now st) (\<lambda>(st1, _).
     bind_result (load_account_locked org st1) (\<lambda>old.
     if ca_status old \<noteq> ACTIVE
     then Inl (ValidationError ''Hold can only be placed on an active credit account.'')
     else
       let reason_text = str_or detailed_reason (py_title (py_replace_char CHR ''_'' CHR '' '' (hold_reason_value category)));
           acct = set_status ON_HOLD now reason_text caller old;
           st2 = record_status_transition acct (ca_status old) ON_HOLD (Some reason_text)
                   (Some (au_id caller)) (put_account acct st1);
           st3 = credit_audit ri ''org_credit.hold_placed'' ''org_credit_account'' (ca_id acct) (Some caller)
             (Some [(''status'', JStr (account_status_value (ca_status old)))])
             [(''status'', JStr ''ON_HOLD''), (''hold_reason_category'', JStr (hold_reason_value category))]
             (''Hold placed: '' @ reason_text) org ''CREDIT_HOLD_TRIGGERED'' ''WARNING'' st2
       in Inr (request_alert (AlertStatusChange org ON_HOLD) st3, acct)))"

definition release_hold ::
    "request_info \<Rightarrow> string \<Rightarrow> auth_user \<Rightarrow> string option \<Rightarrow> string \<Rightarrow> int
     \<Rightarrow> credit_state \<Rightarrow> (credit_state \<times> credit_account) result" where
  "release_hold ri org caller memo new_id now st =
     bind_result (get_or_create_account org new_id now st) (\<lambda>(st1, _).
     bind_result (load_account_locked org st1) (\<lambda>old.
     if ca_status old \<noteq> ON_HOLD
     then Inl (ValidationError ''Release hold is only valid when the account is on hold.'')
     else
       let reason_text = str_or memo ''Hold released'';
           acct = set_status ACTIVE now reason_text caller old;
           st2 = record_status_transition acct (ca_status old) ACTIVE (Some reason_text)
                   (Some (au_id caller)) (put_account acct st1);
           st3 = credit_audit ri ''org_credit.hold_released'' ''org_credit_account'' (ca_id acct) (Some caller)
             (Some [(''status'', JStr (account_status_value (ca_status old)))])
             [(''status'', JStr ''ACTIVE'')] reason_text org ''CREDIT_HOLD_REINSTATED'' ''NOTICE'' st2
       in Inr (st3, acct)))"

definition suspend_account ::
    "request_info \<Rightarrow> string \<Rightarrow> auth_user \<Rightarrow> string \<Rightarrow> bool \<Rightarrow> string \<Rightarrow> int
     \<Rightarrow> credit_state \<Rightarrow> (credit_state \<times> credit_account) result" where
  "suspend_account ri org caller reason trigger_payment_acceleration new_id now st =
     bind_result (get_or_create_account org new_id now st) (\<lambda>(st1, _).
     bind_result (load_account_locked org st1) (\<lambda>old.
     if ca_status old = CLOSED then Inl (ValidationError ''Cannot suspend a closed credit account.'')
     else if ca_status old = SUSPENDED then Inr (st1, old)
     else
       let acct = set_status SUSPENDED now reason caller old;
           st2 = record_status_transition acct (ca_status old) SUSPENDED (Some reason)
                   (Some (au_id caller)) (put_account acct st1);
           st3 = credit_audit ri ''org_credit.suspended'' ''org_credit_account'' (ca_id acct) (Some caller)
             (Some [(''status'', JStr (account_status_value (ca_status old)))])
             [(''status'', JStr ''SUSPENDED''), (''trigger_payment_acceleration'', JBool trigger_payment_acceleration)]
             (''Account suspended: '' @ reason) org ''CREDIT_SUSPENDED'' ''CRITICAL'' st2
       in Inr (request_alert (AlertStatusChange org SUSPENDED) st3, acct)))"

definition reactivate_account ::
    "request_info \<Rightarrow> string \<Rightarrow> auth_user \<Rightarrow> string option \<Rightarrow> string \<Rightarrow> int
     \<Rightarrow> credit_state \<Rightarrow> (credit_state \<times> credit_account) result" where
  "reactivate_account ri org caller memo new_id now st =
     bind_result (get_or_create_account org new_id now st) (\<lambda>(st1, _).
     bind_result (load_account_locked org st1) (\<lambda>old.
     if ca_status old \<noteq> SUSPENDED \<and> ca_status old \<noteq> ON_HOLD
     then Inl (ValidationError ''Reactivate is only valid for suspended or on-hold accounts.'')
     else
       let reason_text = str_or memo ''Reactivated'';
           acct = set_status ACTIVE now reason_text caller old;
           st2 = record_status_transition acct (ca_status old) ACTIVE (Some reason_text)
                   (Some (au_id caller)) (put_account acct st1);
           st3 = credit_audit ri ''org_credit.reactivated'' ''org_credit_account'' (ca_id acct) (Some caller)
             (Some [(''status'', JStr (account_status_value (ca_status old)))])
             [(''status'', JStr ''ACTIVE'')]
             (str_or memo (''Reactivated from '' @ account_status_value (ca_status old)))
             org ''CREDIT_SUSPENSION_REINSTATED'' ''NOTICE'' st2
       in Inr (st3, acct)))"

definition close_account ::
    "request_info \<Rightarrow> string \<Rightarrow> auth_user \<Rightarrow> close_reason \<Rightarrow> string option \<Rightarrow> string \<Rightarrow> int
     \<Rightarrow> credit_state \<Rightarrow> (credit_state \<times> credit_account) result" where
  "close_account ri org caller category detailed_reason new_id now st =
     bind_result (get_or_create_account org new_id now st) (\<lambda>(st1, _).
     bind_result (load_account_locked org st1) (\<lambda>old.
     if ca_status old = CLOSED then Inl (ValidationError ''Credit account is already closed.'')
     else
       let reason_text = str_or detailed_reason (py_title (py_replace_char CHR ''_'' CHR '' '' (close_reason_value category)));
           acct = set_status CLOSED now reason_text caller old;
           st2 = record_status_transition acct (ca_status old) CLOSED (Some reason_text)
                   (Some (au_id caller)) (put_account acct st1);
           st3 = credit_audit ri ''org_credit.closed'' ''org_credit_account'' (ca_id acct) (Some caller)
             (Some [(''status'', JStr (account_status_value (ca_status old)))])
             [(''status'', JStr ''CLOSED''), (''reason_category'', JStr (close_reason_value category))]
             (''Account closed: '' @ reason_text) org ''CREDIT_STATUS_CHANGED'' ''CRITICAL'' st2
       in Inr (st3, acct)))"

subsection \<open>The ledger service\<close>

definition append_ledger ::
    "credit_account \<Rightarrow> ledger_movement \<Rightarrow> ledger_source option \<Rightarrow> string option \<Rightarrow> string option
     \<Rightarrow> string option \<Rightarrow> adjustment_reason option \<Rightarrow> string \<Rightarrow> credit_state \<Rightarrow> credit_state result" where
  \<comment> \<open>with the unique index on organisation and key where a key is given\<close>
  "append_ledger a movement source_type source_id key actor reason entry_id st =
     (if \<exists>e \<in> set (cr_ledger st). le_id e = entry_id then Inl (IntegrityError ''primary key'')
      else if key \<noteq> None \<and> (\<exists>e \<in> set (cr_ledger st). le_org e = ca_org a \<and> le_key e = key)
      then Inl (IntegrityError ''uq_org_credit_ledger_idempotency'')
      else Inr (st\<lparr>cr_ledger := cr_ledger st @ [\<lparr>le_id = entry_id, le_org = ca_org a,
             le_account_id = ca_id a, le_movement = movement, le_source_type = source_type,
             le_source_id = source_id, le_key = key, le_used_after = ca_used_credit a,
             le_available_after = available_credit a, le_limit_after = ca_credit_limit a,
             le_actor = actor, le_reason = reason\<rparr>]\<rparr>))"

definition check_idempotent_dup :: "string \<Rightarrow> string \<Rightarrow> credit_state \<Rightarrow> credit_account option result" where
  "check_idempotent_dup org key st =
     (if \<exists>e \<in> set (cr_ledger st). le_org e = org \<and> le_key e = Some key
      then bind_result (load_account_locked org st) (\<lambda>a. Inr (Some a)) else Inr None)"

definition assert_can_consume :: "string \<Rightarrow> rat \<Rightarrow> credit_state \<Rightarrow> credit_account result" where
  "assert_can_consume org amount st =
     (if amount \<le> 0 then Inl (ValidationError ''Amount must be greater than zero.'')
      else case account_by_org org st of
        None \<Rightarrow> Inl (ValidationError ''Organisation has no credit account.'')
      | Some a \<Rightarrow>
          if ca_status a \<noteq> ACTIVE then Inl (ValidationError ''Credit consumption requires an active credit account.'')
          else if ca_credit_limit a = None then Inl (ValidationError ''Credit limit is not set for this organisation.'')
          else if available_credit a < amount then Inl (ValidationError ''Insufficient available credit for this order.'')
          else Inr a)"

definition consume_locked ::
    "request_info \<Rightarrow> string \<Rightarrow> auth_user option \<Rightarrow> rat \<Rightarrow> ledger_source \<Rightarrow> string option \<Rightarrow> string
     \<Rightarrow> string \<Rightarrow> credit_state \<Rightarrow> (credit_state \<times> credit_account) result" where
  \<comment> \<open>\<^verbatim>\<open>consume_credit\<close> from the locked read on\<close>
  "consume_locked ri org actor amount source_type source_id key entry_id st =
     bind_result (load_account_locked org st) (\<lambda>old.
     if ca_status old \<noteq> ACTIVE then Inl (ValidationError ''Credit consumption requires an active credit account.'')
     else case ca_credit_limit old of
       None \<Rightarrow> Inl (ValidationError ''Set a credit limit before consuming credit.'')
     | Some limit \<Rightarrow>
         let new_used = ca_used_credit old + amount in
         if limit < new_used then Inl (ValidationError ''Insufficient available credit for the consumption amount.'')
         else
           let acct = old\<lparr>ca_used_credit := new_used\<rparr> in
           bind_result (append_ledger acct CONSUME (Some source_type) source_id (Some key)
                          (map_option au_id actor) None entry_id (put_account acct st)) (\<lambda>st1.
           let st2 = credit_audit ri ''org_credit.consumed'' ''org_credit_ledger_entry'' entry_id actor None
             [(''amount'', JDec amount), (''source_type'', JStr (ledger_source_value source_type)),
              (''source_id'', j_str source_id), (''used_credit_after'', JDec new_used)]
             (''Credit consumed via '' @ py_lower (ledger_source_value source_type)) org
             ''CREDIT_CONSUMED'' ''INFO'' st1
           in Inr (request_alert (AlertUsedCredit org new_used) st2, acct)))"

definition consume_credit ::
    "request_info \<Rightarrow> string \<Rightarrow> auth_user option \<Rightarrow> rat \<Rightarrow> ledger_source \<Rightarrow> string option \<Rightarrow> string
     \<Rightarrow> string \<Rightarrow> credit_state \<Rightarrow> (credit_state \<times> credit_account) result" where
  "consume_credit ri org actor amount source_type source_id key entry_id st =
     (if amount \<le> 0 then Inl (ValidationError ''Amount must be greater than zero.'')
      else bind_result (check_idempotent_dup org key st) (\<lambda>dup.
      case dup of
        Some a \<Rightarrow> Inr (st, a)
      | None \<Rightarrow> consume_locked ri org actor amount source_type source_id key entry_id st))"

definition repay_credit ::
    "request_info \<Rightarrow> string \<Rightarrow> auth_user option \<Rightarrow> rat \<Rightarrow> ledger_source \<Rightarrow> string option \<Rightarrow> string
     \<Rightarrow> string \<Rightarrow> credit_state \<Rightarrow> (credit_state \<times> credit_account) result" where
  "repay_credit ri org actor amount source_type source_id key entry_id st =
     (if amount \<le> 0 then Inl (ValidationError ''Amount must be greater than zero.'')
      else bind_result (check_idempotent_dup org key st) (\<lambda>dup.
      case dup of Some a \<Rightarrow> Inr (st, a) | None \<Rightarrow>
      bind_result (load_account_locked org st) (\<lambda>old.
      if ca_status old \<noteq> ACTIVE then Inl (ValidationError ''Credit repayment requires an active credit account.'')
      else if ca_used_credit old < amount
      then Inl (ValidationError ''Cannot repay more than the currently used credit.'')
      else
        let acct = old\<lparr>ca_used_credit := ca_used_credit old - amount\<rparr> in
        bind_result (append_ledger acct REPAY (Some source_type) source_id (Some key)
                       (map_option au_id actor) None entry_id (put_account acct st)) (\<lambda>st1.
        Inr (credit_audit ri ''org_credit.repaid'' ''org_credit_ledger_entry'' entry_id actor None
          [(''amount'', JDec amount), (''source_type'', JStr (ledger_source_value source_type)),
           (''source_id'', j_str source_id), (''used_credit_after'', JDec (ca_used_credit acct))]
          (''Credit repaid via '' @ py_lower (ledger_source_value source_type)) org
          ''CREDIT_REPAID'' ''INFO'' st1, acct)))))"

definition manual_adjust_used ::
    "request_info \<Rightarrow> string \<Rightarrow> auth_user \<Rightarrow> rat \<Rightarrow> adjustment_reason \<Rightarrow> string option
     \<Rightarrow> string \<Rightarrow> credit_state \<Rightarrow> (credit_state \<times> credit_account) result" where
  "manual_adjust_used ri org actor delta_used reason key entry_id st =
     bind_result (if truthy_str key then check_idempotent_dup org (str_or key '''') st else Inr None) (\<lambda>dup.
     case dup of Some a \<Rightarrow> Inr (st, a) | None \<Rightarrow>
     bind_result (load_account_locked org st) (\<lambda>old.
     if ca_status old \<noteq> ACTIVE then Inl (ValidationError ''Manual credit adjustment requires an active credit account.'')
     else
       let new_used = ca_used_credit old + delta_used in
       if new_used < 0 then Inl (ValidationError ''Adjustment would make used credit negative.'')
       else if (case ca_credit_limit old of None \<Rightarrow> False | Some limit \<Rightarrow> limit < new_used)
       then Inl (ValidationError ''Adjustment would exceed the credit limit.'')
       else
         let acct = old\<lparr>ca_used_credit := new_used\<rparr> in
         bind_result (append_ledger acct MANUAL_ADJUST_USED (Some SRC_MANUAL) None key
                        (Some (au_id actor)) (Some reason) entry_id (put_account acct st)) (\<lambda>st1.
         let st2 = credit_audit ri ''org_credit.manual_adjustment'' ''org_credit_ledger_entry'' entry_id (Some actor) None
           [(''delta_used'', JDec delta_used), (''adjustment_reason'', JStr (adjustment_reason_value reason)),
            (''used_credit_after'', JDec new_used)]
           (''Manual credit adjustment ('' @ py_lower (py_replace_char CHR ''_'' CHR '' '' (adjustment_reason_value reason)) @ '')'')
           org ''CREDIT_MANUALLY_ADJUSTED'' ''NOTICE'' st1
         in Inr (if 0 < delta_used then request_alert (AlertUsedCredit org new_used) st2 else st2, acct))))"


subsection \<open>Consistency of accounts, ledger and history\<close>

definition last_used :: "string \<Rightarrow> ledger_entry list \<Rightarrow> rat" where
  \<comment> \<open>the used credit the latest ledger entry of an organisation states; 0 before the first\<close>
  "last_used org ledger = foldl (\<lambda>u e. if le_org e = org then le_used_after e else u) 0 ledger"

definition last_status :: "string \<Rightarrow> status_history list \<Rightarrow> account_status" where
  \<comment> \<open>the status the latest history row of an account states; accounts start active\<close>
  "last_status i hist = foldl (\<lambda>s h. if sh_account_id h = i then sh_to h else s) ACTIVE hist"

definition history_chained :: "status_history list \<Rightarrow> bool" where
  "history_chained hist \<longleftrightarrow>
     (\<forall>k < length hist. sh_from (hist ! k) = Some (last_status (sh_account_id (hist ! k)) (take k hist))
        \<and> sh_from (hist ! k) \<noteq> Some (sh_to (hist ! k)))"

definition entry_consistent :: "ledger_entry \<Rightarrow> bool" where
  "entry_consistent e \<longleftrightarrow> 0 \<le> le_used_after e
     \<and> le_available_after e = (case le_limit_after e of None \<Rightarrow> 0 | Some l \<Rightarrow> l - le_used_after e)
     \<and> (le_movement e = CONSUME \<longrightarrow> (\<exists>l. le_limit_after e = Some l \<and> le_used_after e \<le> l))"

definition books_consistent ::
    "credit_account list \<Rightarrow> ledger_entry list \<Rightarrow> status_history list \<Rightarrow> bool" where
  "books_consistent accounts ledger hist \<longleftrightarrow>
     distinct (map ca_id accounts) \<and> distinct (map ca_org accounts)
     \<and> (\<forall>a \<in> set accounts. ca_used_credit a = last_used (ca_org a) ledger \<and> 0 \<le> ca_used_credit a
          \<and> ca_status a = last_status (ca_id a) hist)
     \<and> (\<forall>e \<in> set ledger. entry_consistent e \<and> le_org e \<in> ca_org ` set accounts)
     \<and> distinct (map (\<lambda>e. (le_org e, le_key e)) (filter (\<lambda>e. le_key e \<noteq> None) ledger))
     \<and> history_chained hist \<and> (\<forall>h \<in> set hist. sh_account_id h \<in> ca_id ` set accounts)"

abbreviation credit_books :: "credit_state \<Rightarrow> bool" where
  "credit_books st \<equiv> books_consistent (cr_accounts st) (cr_ledger st) (cr_history st)"

lemma last_used_append [simp]:
  "last_used org (l @ [e]) = (if le_org e = org then le_used_after e else last_used org l)"
  by (simp add: last_used_def)

lemma last_status_append [simp]:
  "last_status i (h @ [e]) = (if sh_account_id e = i then sh_to e else last_status i h)"
  by (simp add: last_status_def)

lemma history_chained_append:
  "history_chained (h @ [e]) \<longleftrightarrow> history_chained h \<and> sh_from e = Some (last_status (sh_account_id e) h)
     \<and> sh_from e \<noteq> Some (sh_to e)"
  unfolding history_chained_def by (auto simp: nth_append less_Suc_eq)

lemma last_used_absent: "\<forall>e \<in> set l. le_org e \<noteq> org \<Longrightarrow> last_used org l = 0"
  by (induction l rule: rev_induct) (auto simp: last_used_def)

lemma last_status_absent: "\<forall>e \<in> set h. sh_account_id e \<noteq> i \<Longrightarrow> last_status i h = ACTIVE"
  by (induction h rule: rev_induct) (auto simp: last_status_def)

lemma account_by_org_Some: "account_by_org org st = Some a \<Longrightarrow> a \<in> set (cr_accounts st) \<and> ca_org a = org"
  unfolding account_by_org_def by (induction "cr_accounts st" arbitrary: st) (force dest: find_Some_iff [THEN iffD1])+

lemma load_account_Inr [simp]:
  "load_account_locked org st = Inr a \<longleftrightarrow> account_by_org org st = Some a"
  by (simp add: load_account_locked_def split: option.splits)

lemma credit_audit_frame [simp]:
  "cr_accounts (credit_audit ri a et ei c old new r org ev sev st) = cr_accounts st"
  "cr_ledger (credit_audit ri a et ei c old new r org ev sev st) = cr_ledger st"
  "cr_history (credit_audit ri a et ei c old new r org ev sev st) = cr_history st"
  "cr_orgs (credit_audit ri a et ei c old new r org ev sev st) = cr_orgs st"
  by (simp_all add: credit_audit_def)

lemma request_alert_frame [simp]:
  "cr_accounts (request_alert r st) = cr_accounts st" "cr_ledger (request_alert r st) = cr_ledger st"
  "cr_history (request_alert r st) = cr_history st" "cr_orgs (request_alert r st) = cr_orgs st"
  by (simp_all add: request_alert_def)

definition replaced :: "credit_account \<Rightarrow> credit_account list \<Rightarrow> credit_account list" where
  "replaced a accounts = map (\<lambda>b. if ca_id b = ca_id a then a else b) accounts"

lemma put_account_frame [simp]:
  "cr_ledger (put_account a st) = cr_ledger st" "cr_history (put_account a st) = cr_history st"
  "cr_orgs (put_account a st) = cr_orgs st"
  "cr_accounts (put_account a st) = replaced a (cr_accounts st)"
  by (simp_all add: put_account_def replaced_def)

lemma record_status_frame [simp]:
  "cr_accounts (record_status_transition a f t r u st) = cr_accounts st"
  "cr_ledger (record_status_transition a f t r u st) = cr_ledger st"
  "cr_orgs (record_status_transition a f t r u st) = cr_orgs st"
  by (simp_all add: record_status_transition_def)

lemma set_status_frame [simp]:
  "ca_id (set_status s now r c a) = ca_id a" "ca_org (set_status s now r c a) = ca_org a"
  "ca_used_credit (set_status s now r c a) = ca_used_credit a"
  "ca_status (set_status s now r c a) = s" "ca_credit_limit (set_status s now r c a) = ca_credit_limit a"
  by (simp_all add: set_status_def)

lemma replaced_facts:
  assumes "books_consistent accounts ledger hist" and "old \<in> set accounts"
    and "ca_id acct = ca_id old" "ca_org acct = ca_org old"
  shows "map ca_id (replaced acct accounts) = map ca_id accounts"
    "map ca_org (replaced acct accounts) = map ca_org accounts"
    "set (replaced acct accounts) = insert acct (set accounts - {old})"
    "ca_id ` set (replaced acct accounts) = ca_id ` set accounts"
    "ca_org ` set (replaced acct accounts) = ca_org ` set accounts"
    "\<And>b. b \<in> set accounts - {old} \<Longrightarrow> ca_id b \<noteq> ca_id old \<and> ca_org b \<noteq> ca_org old"
proof -
  have same: "b = old" if "b \<in> set accounts" "ca_id b = ca_id acct \<or> ca_org b = ca_org old" for b
    using assms(1,2,3) that by (auto simp: books_consistent_def distinct_map inj_on_def)
  show "map ca_id (replaced acct accounts) = map ca_id accounts"
    "map ca_org (replaced acct accounts) = map ca_org accounts"
    using same assms(3,4) by (auto simp: replaced_def)
  then show "ca_id ` set (replaced acct accounts) = ca_id ` set accounts"
    "ca_org ` set (replaced acct accounts) = ca_org ` set accounts"
    by (metis set_map)+
  show "set (replaced acct accounts) = insert acct (set accounts - {old})"
    using same assms(2,3) by (auto simp: replaced_def)
  show "\<And>b. b \<in> set accounts - {old} \<Longrightarrow> ca_id b \<noteq> ca_id old \<and> ca_org b \<noteq> ca_org old"
    using same assms(3) by auto
qed

lemma books_parts:
  assumes "books_consistent accounts ledger hist"
  shows "distinct (map ca_id accounts)" "distinct (map ca_org accounts)"
    "\<And>a. a \<in> set accounts \<Longrightarrow> ca_used_credit a = last_used (ca_org a) ledger \<and> 0 \<le> ca_used_credit a
          \<and> ca_status a = last_status (ca_id a) hist"
    "\<And>e. e \<in> set ledger \<Longrightarrow> entry_consistent e \<and> le_org e \<in> ca_org ` set accounts"
    "distinct (map (\<lambda>e. (le_org e, le_key e)) (filter (\<lambda>e. le_key e \<noteq> None) ledger))"
    "history_chained hist" "\<And>h. h \<in> set hist \<Longrightarrow> sh_account_id h \<in> ca_id ` set accounts"
  using assms unfolding books_consistent_def by blast+

lemma books_update:
  assumes b: "books_consistent accounts ledger hist" and old: "old \<in> set accounts"
    and same: "ca_id acct = ca_id old" "ca_org acct = ca_org old"
    and acct: "ca_used_credit acct = last_used (ca_org old) ledger'" "0 \<le> ca_used_credit acct"
      "ca_status acct = last_status (ca_id old) hist'"
    and frame: "\<And>org. org \<noteq> ca_org old \<Longrightarrow> last_used org ledger' = last_used org ledger"
      "\<And>i. i \<noteq> ca_id old \<Longrightarrow> last_status i hist' = last_status i hist"
    and parts: "\<And>e. e \<in> set ledger' \<Longrightarrow> entry_consistent e \<and> le_org e \<in> ca_org ` set accounts"
      "distinct (map (\<lambda>e. (le_org e, le_key e)) (filter (\<lambda>e. le_key e \<noteq> None) ledger'))"
      "history_chained hist'" "\<And>h. h \<in> set hist' \<Longrightarrow> sh_account_id h \<in> ca_id ` set accounts"
  shows "books_consistent (replaced acct accounts) ledger' hist'"
proof -
  note r = replaced_facts [OF b old same]
  have "ca_used_credit a = last_used (ca_org a) ledger' \<and> 0 \<le> ca_used_credit a
      \<and> ca_status a = last_status (ca_id a) hist'" if "a \<in> set (replaced acct accounts)" for a
  proof (cases "a = acct")
    case True
    with acct same show ?thesis by simp
  next
    case False
    with that r(3) have "a \<in> set accounts - {old}" by blast
    with r(6) [OF this] frame books_parts(3) [OF b, of a] show ?thesis by simp
  qed
  then show ?thesis
    unfolding books_consistent_def r(1,2,4,5) using books_parts(1,2) [OF b] parts by blast
qed

lemma books_replace:
  assumes "books_consistent accounts ledger hist" and "old \<in> set accounts"
    and "ca_id acct = ca_id old" "ca_org acct = ca_org old" "ca_used_credit acct = ca_used_credit old"
      "ca_status acct = ca_status old"
  shows "books_consistent (replaced acct accounts) ledger hist"
  using books_parts(3) [OF assms(1,2)] books_parts(4-7) [OF assms(1)] assms(5,6)
  by (intro books_update [OF assms(1-4)]) simp_all

lemma books_status:
  assumes "books_consistent accounts ledger hist" and "old \<in> set accounts"
    and "ca_id acct = ca_id old" "ca_org acct = ca_org old" "ca_used_credit acct = ca_used_credit old"
    and h: "sh_account_id h = ca_id old" "sh_from h = Some (ca_status old)" "sh_to h = ca_status acct"
      "ca_status acct \<noteq> ca_status old"
  shows "books_consistent (replaced acct accounts) ledger (hist @ [h])"
proof (rule books_update [OF assms(1-4)])
  note p = books_parts [OF assms(1)]
  show "history_chained (hist @ [h])"
    using p(3) [OF assms(2)] p(6) h by (simp add: history_chained_append)
  show "sh_account_id g \<in> ca_id ` set accounts" if "g \<in> set (hist @ [h])" for g
    using that p(7) assms(2) h(1) by auto
qed (use books_parts(3) [OF assms(1,2)] books_parts(4,5) [OF assms(1)] assms(5) h in simp_all)

lemma books_movement:
  assumes "books_consistent accounts ledger hist" and "old \<in> set accounts"
    and "ca_id acct = ca_id old" "ca_org acct = ca_org old" "ca_status acct = ca_status old"
    and e: "le_org e = ca_org old" "le_used_after e = ca_used_credit acct" "entry_consistent e"
    and key: "le_key e = None \<or> (\<forall>f \<in> set ledger. le_org f = le_org e \<longrightarrow> le_key f \<noteq> le_key e)"
  shows "books_consistent (replaced acct accounts) (ledger @ [e]) hist"
proof (rule books_update [OF assms(1-4)])
  note p = books_parts [OF assms(1)]
  show "0 \<le> ca_used_credit acct" using e(2,3) by (simp add: entry_consistent_def)
  show "entry_consistent f \<and> le_org f \<in> ca_org ` set accounts" if "f \<in> set (ledger @ [e])" for f
    using that p(4) e assms(2) by auto
  show "distinct (map (\<lambda>e. (le_org e, le_key e)) (filter (\<lambda>e. le_key e \<noteq> None) (ledger @ [e])))"
    using p(5) key by auto
qed (use books_parts(3) [OF assms(1,2)] books_parts(6,7) [OF assms(1)] assms(5) e in simp_all)

lemma books_new:
  assumes b: "books_consistent accounts ledger hist"
    and a: "ca_id a \<notin> ca_id ` set accounts" "ca_org a \<notin> ca_org ` set accounts"
      "ca_used_credit a = 0" "ca_status a = ACTIVE"
  shows "books_consistent (accounts @ [a]) ledger hist"
  unfolding books_consistent_def
proof (intro conjI ballI)
  note p = books_parts [OF b]
  show "distinct (map ca_id (accounts @ [a]))" "distinct (map ca_org (accounts @ [a]))"
    using p(1,2) a(1,2) by auto
  have used: "last_used (ca_org a) ledger = 0" using p(4) a(2) by (intro last_used_absent) (metis)
  have status: "last_status (ca_id a) hist = ACTIVE" using p(7) a(1) by (intro last_status_absent) (metis)
  fix x assume "x \<in> set (accounts @ [a])"
  then consider "x = a" | "x \<in> set accounts" by auto
  then have "ca_used_credit x = last_used (ca_org x) ledger \<and> 0 \<le> ca_used_credit x
      \<and> ca_status x = last_status (ca_id x) hist"
  proof cases
    case 1
    with used status a(3,4) show ?thesis by simp
  next
    case 2
    then show ?thesis by (rule p(3))
  qed
  then show "ca_used_credit x = last_used (ca_org x) ledger" "0 \<le> ca_used_credit x"
    "ca_status x = last_status (ca_id x) hist" by blast+
next
  fix e assume "e \<in> set ledger"
  from books_parts(4) [OF b this]
  show "entry_consistent e" "le_org e \<in> ca_org ` set (accounts @ [a])" by auto
next
  show "distinct (map (\<lambda>e. (le_org e, le_key e)) (filter (\<lambda>e. le_key e \<noteq> None) ledger))"
    "history_chained hist" by (rule books_parts [OF b])+
next
  fix h assume "h \<in> set hist"
  from books_parts(7) [OF b this] show "sh_account_id h \<in> ca_id ` set (accounts @ [a])" by auto
qed

subsection \<open>Every operation as a step\<close>

datatype credit_op =
  OpOpen | OpProvision | OpHold | OpRelease | OpSuspend | OpReactivate | OpClose
  | OpConsume | OpRepay | OpAdjust

inductive credit_step :: "credit_op \<Rightarrow> credit_state \<Rightarrow> credit_state \<Rightarrow> bool" where
  step_open: "get_or_create_account org i now st = Inr (st', a) \<Longrightarrow> credit_step OpOpen st st'"
| step_provision: "provision_account_on_approval ri org c app limit terms freq i now st = Inr (st', a)
    \<Longrightarrow> credit_step OpProvision st st'"
| step_hold: "place_hold ri org c hr d i now st = Inr (st', a) \<Longrightarrow> credit_step OpHold st st'"
| step_release: "release_hold ri org c memo i now st = Inr (st', a) \<Longrightarrow> credit_step OpRelease st st'"
| step_suspend: "suspend_account ri org c r acc i now st = Inr (st', a) \<Longrightarrow> credit_step OpSuspend st st'"
| step_reactivate: "reactivate_account ri org c memo i now st = Inr (st', a) \<Longrightarrow> credit_step OpReactivate st st'"
| step_close: "close_account ri org c cr d i now st = Inr (st', a) \<Longrightarrow> credit_step OpClose st st'"
| step_consume: "consume_credit ri org u amount s sid k e st = Inr (st', a) \<Longrightarrow> credit_step OpConsume st st'"
| step_repay: "repay_credit ri org u amount s sid k e st = Inr (st', a) \<Longrightarrow> credit_step OpRepay st st'"
| step_adjust: "manual_adjust_used ri org c delta r k' e st = Inr (st', a) \<Longrightarrow> credit_step OpAdjust st st'"

inductive_cases credit_step_cases: "credit_step op st st'"

inductive credit_run :: "credit_op list \<Rightarrow> credit_state \<Rightarrow> credit_state \<Rightarrow> bool" where
  run_nil: "credit_run [] st st"
| run_step: "credit_step op st st1 \<Longrightarrow> credit_run ops st1 st2 \<Longrightarrow> credit_run (op # ops) st st2"

definition empty_credit :: "string list \<Rightarrow> (string \<times> rat option) list \<Rightarrow> credit_state" where
  "empty_credit orgs configs = \<lparr>cr_orgs = orgs, cr_configs = configs, cr_accounts = [], cr_ledger = [],
     cr_history = [], cr_audit = [], cr_alerts = []\<rparr>"

text \<open>
  What one step may do to an account: the status pairs the guards of each operation leave
  open, the credit limit only by provisioning, the used credit only by the ledger
  operations and only on an active account.
\<close>

fun status_allowed :: "credit_op \<Rightarrow> account_status \<Rightarrow> account_status \<Rightarrow> bool" where
  "status_allowed OpProvision s t = (s \<noteq> ACTIVE \<and> t = ACTIVE)"
| "status_allowed OpHold s t = (s = ACTIVE \<and> t = ON_HOLD)"
| "status_allowed OpRelease s t = (s = ON_HOLD \<and> t = ACTIVE)"
| "status_allowed OpSuspend s t = (s \<in> {ACTIVE, ON_HOLD} \<and> t = SUSPENDED)"
| "status_allowed OpReactivate s t = (s \<in> {SUSPENDED, ON_HOLD} \<and> t = ACTIVE)"
| "status_allowed OpClose s t = (s \<noteq> CLOSED \<and> t = CLOSED)"
| "status_allowed _ s t = False"

definition account_change :: "credit_op \<Rightarrow> credit_account \<Rightarrow> credit_account \<Rightarrow> bool" where
  "account_change op a b \<longleftrightarrow> ca_id b = ca_id a \<and> ca_org b = ca_org a
     \<and> (ca_status b = ca_status a \<or> status_allowed op (ca_status a) (ca_status b))
     \<and> (ca_credit_limit b = ca_credit_limit a \<or> op = OpProvision)
     \<and> (ca_used_credit b = ca_used_credit a
        \<or> op \<in> {OpConsume, OpRepay, OpAdjust} \<and> ca_status a = ACTIVE \<and> 0 \<le> ca_used_credit b
          \<and> (case ca_credit_limit a of None \<Rightarrow> op \<noteq> OpConsume
             | Some l \<Rightarrow> ca_used_credit b \<le> l \<or> op = OpRepay))"

definition good_step :: "credit_op \<Rightarrow> credit_state \<Rightarrow> credit_state \<Rightarrow> bool" where
  "good_step op st st' \<longleftrightarrow> credit_books st'
     \<and> (\<forall>org a. account_by_org org st = Some a \<longrightarrow> (\<exists>b. account_by_org org st' = Some b \<and> account_change op a b))"

lemma account_change_refl [simp]: "account_change op a a"
  by (auto simp: account_change_def)

lemma good_step_refl: "credit_books st \<Longrightarrow> good_step op st st"
  by (auto simp: good_step_def)

lemma account_by_org_member: "account_by_org org st = Some a \<Longrightarrow> a \<in> set (cr_accounts st)"
  by (simp add: account_by_org_Some)

lemma account_by_org_unique:
  "credit_books st \<Longrightarrow> a \<in> set (cr_accounts st) \<Longrightarrow> account_by_org (ca_org a) st = Some a"
proof -
  have "distinct (map ca_org xs) \<Longrightarrow> a \<in> set xs \<Longrightarrow> find (\<lambda>b. ca_org b = ca_org a) xs = Some a" for xs
    by (induction xs) (auto simp: image_iff)
  then show "credit_books st \<Longrightarrow> a \<in> set (cr_accounts st) \<Longrightarrow> account_by_org (ca_org a) st = Some a"
    by (simp add: account_by_org_def books_parts(2))
qed

lemma account_by_org_replaced:
  assumes b: "credit_books st" and old: "old \<in> set (cr_accounts st)"
    and same: "ca_id acct = ca_id old" "ca_org acct = ca_org old"
    and st': "cr_accounts st' = replaced acct (cr_accounts st)" "credit_books st'"
  shows "account_by_org org st' = (if org = ca_org old then Some acct else account_by_org org st)"
proof (cases "org = ca_org old")
  case True
  have "acct \<in> set (cr_accounts st')" using replaced_facts(3) [OF b old same] st'(1) by simp
  from account_by_org_unique [OF st'(2) this] True same show ?thesis by simp
next
  case False
  note r = replaced_facts [OF b old same]
  show ?thesis
  proof (cases "account_by_org org st")
    case None
    then have "org \<notin> ca_org ` set (cr_accounts st)" by (auto simp: account_by_org_def find_None_iff)
    then have "org \<notin> ca_org ` set (cr_accounts st')" using r(5) st'(1) by simp
    then have "account_by_org org st' = None" by (auto simp: account_by_org_def find_None_iff)
    with None False show ?thesis by simp
  next
    case (Some a)
    then have a: "a \<in> set (cr_accounts st)" "ca_org a = org" using account_by_org_Some by auto
    with False have "a \<in> set (cr_accounts st')" using r(3) st'(1) by auto
    from account_by_org_unique [OF st'(2) this] a Some False show ?thesis by simp
  qed
qed

lemma good_step_replaced:
  assumes b: "credit_books st" and old: "account_by_org org st = Some old"
    and ch: "account_change op old acct"
    and st': "cr_accounts st' = replaced acct (cr_accounts st)" "credit_books st'"
  shows "good_step op st st'"
proof -
  have same: "ca_id acct = ca_id old" "ca_org acct = ca_org old" using ch by (auto simp: account_change_def)
  have "ca_org old = org" using account_by_org_Some [OF old] by simp
  with account_by_org_replaced [OF b account_by_org_member [OF old] same st'] ch old st'(2)
  show ?thesis by (auto simp: good_step_def)
qed

lemma good_step_trans:
  assumes "\<And>org a. account_by_org org st = Some a \<Longrightarrow> account_by_org org st1 = Some a" "good_step op st1 st2"
  shows "good_step op st st2"
  using assms by (auto simp: good_step_def)


subsection \<open>The operations preserve the books\<close>

lemma find_append_Some: "find P xs = Some b \<Longrightarrow> find P (xs @ ys) = Some b"
  by (induction xs) auto

lemma create_account_good:
  assumes "create_account a st = Inr st1" and "credit_books st" and "ca_used_credit a = 0" "ca_status a = ACTIVE"
  shows "credit_books st1" "\<And>org b. account_by_org org st = Some b \<Longrightarrow> account_by_org org st1 = Some b"
    "account_by_org (ca_org a) st1 = Some a"
proof -
  from assms(1) have a: "ca_id a \<notin> ca_id ` set (cr_accounts st)" "ca_org a \<notin> ca_org ` set (cr_accounts st)"
    and st1: "st1 = st\<lparr>cr_accounts := cr_accounts st @ [a]\<rparr>"
    by (auto simp: create_account_def split: if_splits)
  show "credit_books st1" using books_new [OF assms(2) a assms(3,4)] by (simp add: st1)
  then show "account_by_org (ca_org a) st1 = Some a"
    by (intro account_by_org_unique) (simp_all add: st1)
  fix org b assume "account_by_org org st = Some b"
  then show "account_by_org org st1 = Some b"
    by (simp add: account_by_org_def st1 find_append_Some)
qed

lemma get_or_create_good:
  assumes "get_or_create_account org i now st = Inr (st1, a)" and "credit_books st"
  shows "credit_books st1" "\<And>org' b. account_by_org org' st = Some b \<Longrightarrow> account_by_org org' st1 = Some b"
    "account_by_org org st1 = Some a"
proof -
  consider "account_by_org org st = Some a" "st1 = st"
    | "account_by_org org st = None" "create_account a st = Inr st1" "ca_org a = org"
        "ca_used_credit a = 0" "ca_status a = ACTIVE"
    using assms(1) by (auto simp: get_or_create_account_def Let_def split: option.splits)
  note cases = this
  show "credit_books st1"
    by (rule cases) (use assms(2) create_account_good in blast)+
  show "account_by_org org' st1 = Some b" if "account_by_org org' st = Some b" for org' b
    by (rule cases) (use assms(2) create_account_good that in blast)+
  show "account_by_org org st1 = Some a"
    by (rule cases) (use assms(2) create_account_good in blast)+
qed

lemma status_change_good:
  assumes b: "credit_books st" and old: "account_by_org org st = Some old"
    and s: "s \<noteq> ca_status old" and allowed: "status_allowed op (ca_status old) s"
    and acct: "ca_id acct = ca_id old" "ca_org acct = ca_org old" "ca_used_credit acct = ca_used_credit old"
      "ca_status acct = s" "ca_credit_limit acct = ca_credit_limit old \<or> op = OpProvision"
    and st': "cr_accounts st' = replaced acct (cr_accounts st)" "cr_ledger st' = cr_ledger st"
      "cr_history st' = cr_history (record_status_transition acct (ca_status old) s r u st)"
  shows "good_step op st st'"
proof (rule good_step_replaced [OF b old _ st'(1)])
  show "account_change op old acct" using allowed acct by (auto simp: account_change_def)
  show "credit_books st'"
    unfolding st' record_status_transition_def
    using books_status [OF b account_by_org_member [OF old] acct(1,2,3),
        of "\<lparr>sh_org = ca_org acct, sh_account_id = ca_id acct, sh_from = Some (ca_status old), sh_to = s,
            sh_reason = r, sh_actor = u\<rparr>"] s acct
    by simp
qed

lemma status_op_good:
  assumes "get_or_create_account org i now0 st = Inr (st1, x)" and "account_by_org org st1 = Some old"
    and "credit_books st" and "s \<noteq> ca_status old" and "status_allowed op (ca_status old) s"
    and "cr_accounts st' = replaced (set_status s now r c old) (cr_accounts st1)"
      "cr_ledger st' = cr_ledger st1"
      "cr_history st' = cr_history (record_status_transition (set_status s now r c old) (ca_status old) s r' u st1)"
  shows "good_step op st st'"
proof (rule good_step_trans)
  note g = get_or_create_good [OF assms(1,3)]
  show "\<And>org a. account_by_org org st = Some a \<Longrightarrow> account_by_org org st1 = Some a" by (rule g(2))
  show "good_step op st1 st'"
    by (rule status_change_good [OF g(1) assms(2,4,5) _ _ _ _ _ assms(6-8)]) simp_all
qed

lemma record_status_history [simp]:
  "cr_history (record_status_transition a f t r u (put_account b st)) = cr_history (record_status_transition a f t r u st)"
  by (simp add: record_status_transition_def)

lemma hold_good:
  "place_hold ri org c hr d i now st = Inr (st', a) \<Longrightarrow> credit_books st \<Longrightarrow> good_step OpHold st st'"
  unfolding place_hold_def
  by (auto simp: Let_def split: if_splits) (erule (2) status_op_good; simp)

lemma release_good:
  "release_hold ri org c memo i now st = Inr (st', a) \<Longrightarrow> credit_books st \<Longrightarrow> good_step OpRelease st st'"
  unfolding release_hold_def
  by (auto simp: Let_def split: if_splits) (erule (2) status_op_good; simp)

lemma suspend_good:
  "suspend_account ri org c r acc i now st = Inr (st', a) \<Longrightarrow> credit_books st \<Longrightarrow> good_step OpSuspend st st'"
  unfolding suspend_account_def
  apply (auto simp: Let_def split: if_splits)
   apply (metis good_step_refl good_step_trans get_or_create_good(1,2))
  apply (erule (2) status_op_good; simp)
  using account_status.exhaust by auto

lemma reactivate_good:
  "reactivate_account ri org c memo i now st = Inr (st', a) \<Longrightarrow> credit_books st \<Longrightarrow> good_step OpReactivate st st'"
  unfolding reactivate_account_def
  by (auto simp: Let_def split: if_splits) (erule (2) status_op_good; simp)+

lemma close_good:
  "close_account ri org c cr d i now st = Inr (st', a) \<Longrightarrow> credit_books st \<Longrightarrow> good_step OpClose st st'"
  unfolding close_account_def
  by (auto simp: Let_def split: if_splits) (erule (2) status_op_good; simp)

lemma open_good:
  "get_or_create_account org i now st = Inr (st', a) \<Longrightarrow> credit_books st \<Longrightarrow> good_step OpOpen st st'"
  by (metis good_step_refl good_step_trans get_or_create_good(1,2))

lemma provision_row_frame [simp]:
  "ca_id (provision_row c l t f now a) = ca_id a" "ca_org (provision_row c l t f now a) = ca_org a"
  "ca_used_credit (provision_row c l t f now a) = ca_used_credit a"
  "ca_status (provision_row c l t f now a) = ACTIVE"
  "ca_credit_limit (provision_row c l t f now a) = Some l"
  by (auto simp: provision_row_def Let_def)

lemma provision_create_good:
  assumes "provision_create org c l i now st = Inr st1" and "credit_books st"
  shows "credit_books st1" "\<And>org' b. account_by_org org' st = Some b \<Longrightarrow> account_by_org org' st1 = Some b"
proof -
  have "st1 = st \<or> (\<exists>a. create_account a st = Inr st1 \<and> ca_used_credit a = 0 \<and> ca_status a = ACTIVE)"
    using assms(1) by (force simp: provision_create_def split: if_splits)
  with assms(2) create_account_good
  show "credit_books st1" "\<And>org' b. account_by_org org' st = Some b \<Longrightarrow> account_by_org org' st1 = Some b"
    by blast+
qed

lemma provision_good:
  assumes "provision_account_on_approval ri org c app l t f i now st = Inr (st', a)" and b: "credit_books st"
  shows "good_step OpProvision st st'"
proof -
  let ?freq = "case f of None \<Rightarrow> Inr None
     | Some v \<Rightarrow> bind_result (review_frequency_of (if v = ''ANNUALLY'' then ''ANNUAL'' else v)) (\<lambda>f. Inr (Some f))"
  note d = assms(1) [unfolded provision_account_on_approval_def Let_def]
  from d obtain st1 where p: "provision_create org c l i now st = Inr st1" by auto
  from d p obtain old where old: "account_by_org org st1 = Some old" by auto
  from d p obtain freq where freq: "?freq = Inr freq" by auto
  from d p old freq have st': "cr_accounts st' = replaced (provision_row c l t freq now old) (cr_accounts st1)"
      "cr_ledger st' = cr_ledger st1"
      "cr_history st' = cr_history (if ca_status old \<noteq> ACTIVE
         then record_status_transition (provision_row c l t freq now old) (ca_status old) ACTIVE
           (Some ''Reactivated on credit application approval'') (Some (au_id c)) st1 else st1)"
    by auto
  note g = provision_create_good [OF p b]
  have "good_step OpProvision st1 st'"
  proof (cases "ca_status old = ACTIVE")
    case True
    then have "account_change OpProvision old (provision_row c l t freq now old)"
      by (simp add: account_change_def)
    moreover have "credit_books st'"
      unfolding st' using books_replace [OF g(1) account_by_org_member [OF old]] True by simp
    ultimately show ?thesis using good_step_replaced [OF g(1) old _ st'(1)] by blast
  next
    case False
    with status_change_good [OF g(1) old, of ACTIVE OpProvision "provision_row c l t freq now old" st'] st'
    show ?thesis by auto
  qed
  with g(2) show ?thesis by (blast intro: good_step_trans)
qed

lemma append_ledger_Inr:
  assumes "append_ledger acct m src sid key actor r eid st = Inr st'"
  shows "\<exists>e. cr_ledger st' = cr_ledger st @ [e] \<and> cr_accounts st' = cr_accounts st \<and> cr_history st' = cr_history st
    \<and> cr_orgs st' = cr_orgs st
    \<and> le_org e = ca_org acct \<and> le_key e = key \<and> le_movement e = m \<and> le_used_after e = ca_used_credit acct
    \<and> le_available_after e = available_credit acct \<and> le_limit_after e = ca_credit_limit acct
    \<and> (key = None \<or> (\<forall>f \<in> set (cr_ledger st). le_org f = ca_org acct \<longrightarrow> le_key f \<noteq> key))"
  using assms by (auto simp: append_ledger_def split: if_splits)

lemma movement_good:
  assumes b: "credit_books st" and old: "account_by_org org st = Some old"
    and acct: "acct = old\<lparr>ca_used_credit := u\<rparr>"
    and l: "append_ledger acct m src sid key actor r eid (put_account acct st) = Inr st1"
    and u: "0 \<le> u" "m = CONSUME \<Longrightarrow> \<exists>l. ca_credit_limit old = Some l \<and> u \<le> l"
    and ch: "account_change op old acct"
    and st': "cr_accounts st' = cr_accounts st1" "cr_ledger st' = cr_ledger st1" "cr_history st' = cr_history st1"
  shows "good_step op st st'"
proof -
  from append_ledger_Inr [OF l] obtain e where e: "cr_ledger st1 = cr_ledger st @ [e]"
    "cr_accounts st1 = replaced acct (cr_accounts st)" "cr_history st1 = cr_history st"
    "le_org e = ca_org old" "le_key e = key" "le_movement e = m" "le_used_after e = ca_used_credit acct"
    "le_available_after e = available_credit acct" "le_limit_after e = ca_credit_limit old"
    "key = None \<or> (\<forall>f \<in> set (cr_ledger st). le_org f = ca_org old \<longrightarrow> le_key f \<noteq> key)"
    by (auto simp: acct)
  have "entry_consistent e"
    using u e by (auto simp: entry_consistent_def acct available_credit_def split: option.splits)
  then have "credit_books st'"
    using books_movement [OF b account_by_org_member [OF old], of acct e] e acct st' by simp
  with good_step_replaced [OF b old ch] e(2) st'(1) show ?thesis by simp
qed

lemma consume_Inr:
  assumes "consume_credit ri org u amount s sid k e st = Inr (st', a)"
  shows "0 < amount" "st' = st \<and> account_by_org org st = Some a
        \<and> (\<exists>f \<in> set (cr_ledger st). le_org f = org \<and> le_key f = Some k)
    \<or> (\<exists>old limit st1. account_by_org org st = Some old \<and> ca_status old = ACTIVE
        \<and> ca_credit_limit old = Some limit \<and> ca_used_credit old + amount \<le> limit
        \<and> a = old\<lparr>ca_used_credit := ca_used_credit old + amount\<rparr>
        \<and> append_ledger a CONSUME (Some s) sid (Some k) (map_option au_id u) None e (put_account a st) = Inr st1
        \<and> cr_accounts st' = cr_accounts st1 \<and> cr_ledger st' = cr_ledger st1 \<and> cr_history st' = cr_history st1
        \<and> cr_orgs st' = cr_orgs st1)"
  using assms by (auto simp: consume_credit_def consume_locked_def check_idempotent_dup_def Let_def
      split: if_splits option.splits)

lemma consume_good:
  assumes "consume_credit ri org u amount s sid k e st = Inr (st', a)" and b: "credit_books st"
  shows "good_step OpConsume st st'"
  using consume_Inr(2) [OF assms(1)]
proof (elim disjE exE conjE)
  fix old limit st1
  assume *: "account_by_org org st = Some old" "ca_status old = ACTIVE" "ca_credit_limit old = Some limit"
    "ca_used_credit old + amount \<le> limit" "a = old\<lparr>ca_used_credit := ca_used_credit old + amount\<rparr>"
    "append_ledger a CONSUME (Some s) sid (Some k) (map_option au_id u) None e (put_account a st) = Inr st1"
    "cr_accounts st' = cr_accounts st1" "cr_ledger st' = cr_ledger st1" "cr_history st' = cr_history st1"
  have "0 \<le> ca_used_credit old" using books_parts(3) [OF b account_by_org_member [OF *(1)]] by simp
  with consume_Inr(1) [OF assms(1)] have "0 \<le> ca_used_credit old + amount" by simp
  with * show ?thesis
    by (intro movement_good [OF b *(1,5,6) _ _ _ *(7-9)]) (auto simp: account_change_def)
qed (use b good_step_refl in blast)

lemma repay_good:
  assumes "repay_credit ri org u amount s sid k e st = Inr (st', a)" and b: "credit_books st"
  shows "good_step OpRepay st st'"
proof -
  consider "st' = st"
    | old st1 where "account_by_org org st = Some old" "ca_status old = ACTIVE" "0 < amount"
        "amount \<le> ca_used_credit old"
        "append_ledger (old\<lparr>ca_used_credit := ca_used_credit old - amount\<rparr>) REPAY (Some s) sid (Some k)
           (map_option au_id u) None e (put_account (old\<lparr>ca_used_credit := ca_used_credit old - amount\<rparr>) st) = Inr st1"
        "cr_accounts st' = cr_accounts st1" "cr_ledger st' = cr_ledger st1" "cr_history st' = cr_history st1"
    using assms(1)
    by (auto simp: repay_credit_def check_idempotent_dup_def Let_def split: if_splits option.splits)
  then show ?thesis
  proof cases
    case 1
    with b show ?thesis by (simp add: good_step_refl)
  next
    case (2 old st1)
    from 2(2-4) show ?thesis
      by (intro movement_good [OF b 2(1) refl 2(5) _ _ _ 2(6-8)])
        (auto simp: account_change_def split: option.splits)
  qed
qed

lemma adjust_good:
  assumes "manual_adjust_used ri org c delta r k e st = Inr (st', a)" and b: "credit_books st"
  shows "good_step OpAdjust st st'"
proof -
  consider "st' = st"
    | old st1 where "account_by_org org st = Some old" "ca_status old = ACTIVE"
        "0 \<le> ca_used_credit old + delta"
        "case ca_credit_limit old of None \<Rightarrow> True | Some l \<Rightarrow> ca_used_credit old + delta \<le> l"
        "append_ledger (old\<lparr>ca_used_credit := ca_used_credit old + delta\<rparr>) MANUAL_ADJUST_USED (Some SRC_MANUAL) None k
           (Some (au_id c)) (Some r) e (put_account (old\<lparr>ca_used_credit := ca_used_credit old + delta\<rparr>) st) = Inr st1"
        "cr_accounts st' = cr_accounts st1" "cr_ledger st' = cr_ledger st1" "cr_history st' = cr_history st1"
    using assms(1)
    by (auto simp: manual_adjust_used_def check_idempotent_dup_def Let_def not_less split: if_splits option.splits)
  then show ?thesis
  proof cases
    case 1
    with b show ?thesis by (simp add: good_step_refl)
  next
    case (2 old st1)
    from 2(2-4) show ?thesis
      by (intro movement_good [OF b 2(1) refl 2(5) _ _ _ 2(6-8)])
        (auto simp: account_change_def split: option.splits)
  qed
qed

lemma credit_step_good: "credit_step op st st' \<Longrightarrow> credit_books st \<Longrightarrow> good_step op st st'"
  by (induction rule: credit_step.induct)
    (auto intro: open_good provision_good hold_good release_good suspend_good reactivate_good close_good
      consume_good repay_good adjust_good)

lemma credit_run_books: "credit_run ops st st' \<Longrightarrow> credit_books st \<Longrightarrow> credit_books st'"
  by (induction rule: credit_run.induct) (auto dest: credit_step_good simp: good_step_def)

lemma empty_credit_books [simp]: "credit_books (empty_credit orgs configs)"
  by (simp add: empty_credit_def books_consistent_def history_chained_def)


subsection \<open>The ledger only grows\<close>

lemma get_or_create_ledger: "get_or_create_account org i now st = Inr (st', a) \<Longrightarrow> cr_ledger st' = cr_ledger st"
  by (auto simp: get_or_create_account_def create_account_def Let_def split: option.splits if_splits)

lemma append_ledger_grows:
  "append_ledger a m s sid k u r e (put_account b st) = Inr st' \<Longrightarrow> \<exists>x. cr_ledger st' = cr_ledger st @ [x]"
  using append_ledger_Inr by fastforce

lemma credit_step_ledger: "credit_step op st st' \<Longrightarrow> \<exists>es. cr_ledger st' = cr_ledger st @ es"
proof (induction rule: credit_step.induct)
  case (step_open org i now st st' a)
  then show ?case by (auto dest: get_or_create_ledger)
next
  case (step_provision ri org c app limit terms freq i now st st' a)
  then show ?case
    by (auto simp: provision_account_on_approval_def provision_create_def create_account_def Let_def
        split: if_splits)
next
  case (step_hold ri org c hr d i now st st' a)
  then show ?case by (auto simp: place_hold_def Let_def split: if_splits dest: get_or_create_ledger)
next
  case (step_release ri org c memo i now st st' a)
  then show ?case by (auto simp: release_hold_def Let_def split: if_splits dest: get_or_create_ledger)
next
  case (step_suspend ri org c r acc i now st st' a)
  then show ?case by (auto simp: suspend_account_def Let_def split: if_splits dest: get_or_create_ledger)
next
  case (step_reactivate ri org c memo i now st st' a)
  then show ?case by (auto simp: reactivate_account_def Let_def split: if_splits dest: get_or_create_ledger)
next
  case (step_close ri org c cr d i now st st' a)
  then show ?case by (auto simp: close_account_def Let_def split: if_splits dest: get_or_create_ledger)
next
  case (step_consume ri org u amount s sid k e st st' a)
  then show ?case by (auto dest!: consume_Inr(2) append_ledger_grows)
next
  case (step_repay ri org u amount s sid k e st st' a)
  then show ?case
    by (auto simp: repay_credit_def Let_def split: if_splits option.splits dest!: append_ledger_grows)
next
  case (step_adjust ri org c delta r k' e st st' a)
  then show ?case
    by (auto simp: manual_adjust_used_def Let_def split: if_splits option.splits dest!: append_ledger_grows)
qed

lemma credit_run_ledger: "credit_run ops st st' \<Longrightarrow> set (cr_ledger st) \<subseteq> set (cr_ledger st')"
  by (induction rule: credit_run.induct) (auto dest!: credit_step_ledger)

lemma credit_run_account:
  "credit_run ops st st' \<Longrightarrow> credit_books st \<Longrightarrow> account_by_org org st = Some a
   \<Longrightarrow> (\<And>op a b. op \<in> set ops \<Longrightarrow> account_change op a b \<Longrightarrow> P a \<Longrightarrow> P b) \<Longrightarrow> P a
   \<Longrightarrow> \<exists>b. account_by_org org st' = Some b \<and> P b"
proof (induction arbitrary: a rule: credit_run.induct)
  case (run_nil st)
  then show ?case by blast
next
  case (run_step op st st1 ops st2)
  from credit_step_good [OF run_step.hyps(1) run_step.prems(1)] run_step.prems(2)
  obtain b where b: "credit_books st1" "account_by_org org st1 = Some b" "account_change op a b"
    by (auto simp: good_step_def)
  have "P b" using run_step.prems(3) [OF _ b(3)] run_step.prems(4) by simp
  moreover have "\<And>op' x y. op' \<in> set ops \<Longrightarrow> account_change op' x y \<Longrightarrow> P x \<Longrightarrow> P y"
    using run_step.prems(3) by (metis list.set_intros(2))
  ultimately show ?case using run_step.IH [OF b(1,2)] by blast
qed

lemma repay_lowers:
  assumes "repay_credit ri org' u amount s sid k e st = Inr (st', x)" and b: "credit_books st"
    and "account_by_org org st = Some a" "account_by_org org st' = Some c"
  shows "ca_used_credit c \<le> ca_used_credit a"
proof -
  consider "st' = st"
    | old st1 where "account_by_org org' st = Some old" "0 < amount"
        "append_ledger (old\<lparr>ca_used_credit := ca_used_credit old - amount\<rparr>) REPAY (Some s) sid (Some k)
           (map_option au_id u) None e (put_account (old\<lparr>ca_used_credit := ca_used_credit old - amount\<rparr>) st) = Inr st1"
        "cr_accounts st' = cr_accounts st1"
    using assms(1)
    by (auto simp: repay_credit_def check_idempotent_dup_def Let_def split: if_splits option.splits)
  then show ?thesis
  proof cases
    case 1
    with assms(3,4) show ?thesis by simp
  next
    case (2 old st1)
    have books': "credit_books st'" using repay_good [OF assms(1) b] by (simp add: good_step_def)
    let ?acct = "old\<lparr>ca_used_credit := ca_used_credit old - amount\<rparr>"
    have "cr_accounts st' = replaced ?acct (cr_accounts st)"
      using append_ledger_Inr [OF 2(3)] 2(4) by auto
    from account_by_org_replaced [OF b account_by_org_member [OF 2(1)] _ _ this books', of org]
    have "account_by_org org st' = (if org = ca_org old then Some ?acct else account_by_org org st)" by simp
    with assms(3,4) 2(1,2) account_by_org_Some [OF 2(1)] show ?thesis by (auto split: if_splits)
  qed
qed

lemma status_allowed_closed: "status_allowed op CLOSED t \<Longrightarrow> op = OpProvision"
  by (cases op) auto

subsection \<open>Properties\<close>

text \<open>
  C1: the books always agree. Whatever sequence of openings, approvals, holds, suspensions,
  closures, consumptions, repayments and adjustments ran, the used credit of an account is
  the amount its latest ledger entry states and is never negative, its status is the one its
  latest history row states, the history of an account is a chain, the entries' available
  credit is limit minus used, a consumption never ended above the limit, and no idempotency
  key is in the ledger of an organisation twice.
\<close>

theorem credit_books_agree:
  assumes "credit_run ops (empty_credit orgs configs) st"
  shows "(\<forall>a \<in> set (cr_accounts st). ca_used_credit a = last_used (ca_org a) (cr_ledger st)
            \<and> 0 \<le> ca_used_credit a \<and> ca_status a = last_status (ca_id a) (cr_history st))
    \<and> history_chained (cr_history st) \<and> (\<forall>e \<in> set (cr_ledger st). entry_consistent e)
    \<and> distinct (map (\<lambda>e. (le_org e, le_key e)) (filter (\<lambda>e. le_key e \<noteq> None) (cr_ledger st)))"
proof -
  have "credit_books st" using credit_run_books [OF assms] by simp
  from books_parts [OF this] show ?thesis by blast
qed

text \<open>
  C27: among the operations of the credit service and its ledger, only the approval of a new
  credit application reopens a closed account: through any run of holds, releases, suspensions,
  reactivations, closures and ledger operations it stays closed, with its used credit and its limit.
  (The administrators' settings service \<^verbatim>\<open>org_credit_settings\<close> is not among them; its limit
  changes do not look at the status.)
\<close>

theorem closed_account_is_final:
  assumes "credit_run ops0 (empty_credit orgs configs) st" and "credit_run ops st st'"
    and "OpProvision \<notin> set ops" and "account_by_org org st = Some a" and "ca_status a = CLOSED"
  shows "\<exists>b. account_by_org org st' = Some b \<and> ca_status b = CLOSED
    \<and> ca_used_credit b = ca_used_credit a \<and> ca_credit_limit b = ca_credit_limit a"
proof (rule credit_run_account [OF assms(2) _ assms(4)])
  show "credit_books st" using credit_run_books [OF assms(1)] by simp
  show "ca_status c = CLOSED \<and> ca_used_credit c = ca_used_credit a \<and> ca_credit_limit c = ca_credit_limit a"
    if "op \<in> set ops" "account_change op b c"
      "ca_status b = CLOSED \<and> ca_used_credit b = ca_used_credit a \<and> ca_credit_limit b = ca_credit_limit a"
    for op b c
    using that assms(3) status_allowed_closed [of op "ca_status c"] by (auto simp: account_change_def)
qed (use assms(5) in simp)

text \<open>
  C28: the credit limit holds. As long as no application approval changes the limit, an account
  whose used credit is within its limit stays within it, through every consumption,
  repayment and manual adjustment.
\<close>

theorem credit_limit_holds:
  assumes "credit_run ops0 (empty_credit orgs configs) st" and "credit_run ops st st'"
    and "OpProvision \<notin> set ops" and "account_by_org org st = Some a"
    and "ca_credit_limit a = Some l" and "ca_used_credit a \<le> l"
  shows "\<exists>b. account_by_org org st' = Some b \<and> ca_credit_limit b = Some l \<and> ca_used_credit b \<le> l"
proof -
  \<comment> \<open>a repayment lowers the used credit, which the change relation alone does not say\<close>
  have step: "\<exists>c. account_by_org org st2 = Some c \<and> ca_credit_limit c = Some l \<and> ca_used_credit c \<le> l"
    if s: "credit_step op st1 st2" "credit_books st1" "op \<noteq> OpProvision" "account_by_org org st1 = Some b"
      "ca_credit_limit b = Some l" "ca_used_credit b \<le> l" for op st1 st2 b
  proof -
    from credit_step_good [OF s(1,2)] s(4) obtain c where c: "credit_books st2"
      "account_by_org org st2 = Some c" "account_change op b c" by (auto simp: good_step_def)
    show ?thesis
    proof (cases "op = OpRepay")
      case False
      with c s show ?thesis by (auto simp: account_change_def)
    next
      case True
      with s(1) obtain ri o' u amount so sid k e x where "repay_credit ri o' u amount so sid k e st1 = Inr (st2, x)"
        by (auto elim: credit_step_cases)
      then have le: "ca_used_credit y \<le> ca_used_credit b" if "account_by_org org st2 = Some y" for y
        using that s(2,4) repay_lowers by blast
      with c s True show ?thesis by (auto simp: account_change_def intro: order_trans)
    qed
  qed
  have "credit_books st" using credit_run_books [OF assms(1)] by simp
  with assms(2-6) show ?thesis
  proof (induction arbitrary: a rule: credit_run.induct)
    case (run_step op st st1 ops st2)
    from step [OF run_step.hyps(1) run_step.prems(5) _ run_step.prems(2,3,4)] run_step.prems(1)
    obtain c where "account_by_org org st1 = Some c" "ca_credit_limit c = Some l" "ca_used_credit c \<le> l" by auto
    moreover have "credit_books st1" using credit_step_good [OF run_step.hyps(1) run_step.prems(5)] by (simp add: good_step_def)
    ultimately show ?case using run_step.IH run_step.prems(1) by simp
  qed blast
qed


text \<open>
  The pre-flight check of an order and the consumption agree. With a key and an entry id
  not used before, the check passes exactly when the consumption succeeds, and then exactly
  the amount is added to the used credit.
\<close>

theorem preflight_agrees_with_consumption:
  assumes "\<forall>e \<in> set (cr_ledger st). le_id e \<noteq> entry_id \<and> (le_org e = org \<longrightarrow> le_key e \<noteq> Some key)"
  shows "(case assert_can_consume org amount st of
            Inr a \<Rightarrow> (\<exists>st' b. consume_credit ri org actor amount src src_id key entry_id st = Inr (st', b)
                      \<and> b = a\<lparr>ca_used_credit := ca_used_credit a + amount\<rparr>)
          | Inl _ \<Rightarrow> (\<exists>e. consume_credit ri org actor amount src src_id key entry_id st = Inl e))"
proof -
  have dup: "check_idempotent_dup org key st = Inr None"
    using assms by (auto simp: check_idempotent_dup_def)
  have le: "limit - used < amount \<longleftrightarrow> limit < used + amount" for limit used :: rat by (simp add: algebra_simps)
  show ?thesis
  proof (cases "account_by_org org st")
    case None
    then show ?thesis
      by (simp add: assert_can_consume_def consume_credit_def dup consume_locked_def load_account_locked_def)
  next
    case (Some a)
    with assms account_by_org_Some [OF Some] show ?thesis
      by (auto simp: assert_can_consume_def consume_credit_def dup consume_locked_def load_account_locked_def
          available_credit_def append_ledger_def Let_def le split: option.splits)
  qed
qed

text \<open>
  The ledger operations are safe to retry. Once a consumption succeeded under a key, then
  whatever ran in between, any consumption or repayment of the organisation under that key
  changes nothing and returns the current account.
\<close>

theorem consumed_key_replays:
  assumes "credit_run ops0 (empty_credit orgs configs) st"
    and "consume_credit ri org actor amount src src_id key entry_id st = Inr (st1, a)"
    and "credit_run ops st1 st2" and "0 < amount'"
  shows "\<exists>b. account_by_org org st2 = Some b
    \<and> consume_credit ri' org actor' amount' src' src_id' key entry_id' st2 = Inr (st2, b)
    \<and> repay_credit ri' org actor' amount' src' src_id' key entry_id' st2 = Inr (st2, b)"
proof -
  have b: "credit_books st" using credit_run_books [OF assms(1)] by simp
  have b1: "credit_books st1" using consume_good [OF assms(2) b] by (simp add: good_step_def)
  have "\<exists>e \<in> set (cr_ledger st1). le_org e = org \<and> le_key e = Some key"
    using consume_Inr(2) [OF assms(2)] account_by_org_Some
    by (elim disjE exE conjE) (fastforce dest: append_ledger_Inr)+
  then obtain e where e: "e \<in> set (cr_ledger st2)" "le_org e = org" "le_key e = Some key"
    using credit_run_ledger [OF assms(3)] by blast
  have b2: "credit_books st2" by (rule credit_run_books [OF assms(3) b1])
  from books_parts(4) [OF b2 e(1)] e(2) obtain c where "c \<in> set (cr_accounts st2)" "ca_org c = org" by auto
  then have c: "account_by_org org st2 = Some c" using account_by_org_unique [OF b2] by blast
  then have "check_idempotent_dup org key st2 = Inr (Some c)"
    using e by (auto simp: check_idempotent_dup_def load_account_locked_def)
  with c assms(4) show ?thesis by (simp add: consume_credit_def repay_credit_def)
qed

subsection \<open>Interleaved consumptions\<close>

text \<open>
  Requests run in transactions of their own: each reads the ledger for its key without a
  lock, then waits for the row lock of the account, and consumes and commits, or rolls back,
  while it holds the lock. The duplicate check may therefore be stale when the lock is granted.
\<close>

datatype consume_phase = CheckKey | AwaitLock | HoldLock | Returned | Raised app_error

record consume_request =
  cq_ri :: request_info
  cq_org :: string
  cq_actor :: "auth_user option"
  cq_amount :: rat
  cq_source :: ledger_source
  cq_source_id :: "string option"
  cq_key :: string
  cq_entry_id :: string

record consume_world =
  cw_db :: credit_state
  cw_lock :: "string \<Rightarrow> nat option"
  cw_phase :: "nat \<Rightarrow> consume_phase"

definition locked_consume :: "consume_request \<Rightarrow> credit_state \<Rightarrow> (credit_state \<times> credit_account) result" where
  "locked_consume q st = consume_locked (cq_ri q) (cq_org q) (cq_actor q) (cq_amount q) (cq_source q)
     (cq_source_id q) (cq_key q) (cq_entry_id q) st"

definition enter_phase :: "nat \<Rightarrow> consume_phase \<Rightarrow> consume_world \<Rightarrow> consume_world" where
  "enter_phase i p w = w\<lparr>cw_phase := (cw_phase w)(i := p)\<rparr>"

definition set_lock :: "string \<Rightarrow> nat option \<Rightarrow> consume_world \<Rightarrow> consume_world" where
  "set_lock org l w = w\<lparr>cw_lock := (cw_lock w)(org := l)\<rparr>"

inductive consume_interleave :: "(nat \<Rightarrow> consume_request) \<Rightarrow> consume_world \<Rightarrow> consume_world \<Rightarrow> bool"
  for q :: "nat \<Rightarrow> consume_request" where
  not_positive: "cw_phase w i = CheckKey \<Longrightarrow> cq_amount (q i) \<le> 0
    \<Longrightarrow> consume_interleave q w (enter_phase i (Raised (ValidationError ''Amount must be greater than zero.'')) w)"
| key_found: "cw_phase w i = CheckKey \<Longrightarrow> 0 < cq_amount (q i)
    \<Longrightarrow> check_idempotent_dup (cq_org (q i)) (cq_key (q i)) (cw_db w) = Inr (Some a)
    \<Longrightarrow> consume_interleave q w (enter_phase i Returned w)"
| key_new: "cw_phase w i = CheckKey \<Longrightarrow> 0 < cq_amount (q i)
    \<Longrightarrow> check_idempotent_dup (cq_org (q i)) (cq_key (q i)) (cw_db w) = Inr None
    \<Longrightarrow> consume_interleave q w (enter_phase i AwaitLock w)"
| grant: "cw_phase w i = AwaitLock \<Longrightarrow> cw_lock w (cq_org (q i)) = None
    \<Longrightarrow> consume_interleave q w (set_lock (cq_org (q i)) (Some i) (enter_phase i HoldLock w))"
| commit: "cw_phase w i = HoldLock \<Longrightarrow> locked_consume (q i) (cw_db w) = Inr (db', a)
    \<Longrightarrow> consume_interleave q w (set_lock (cq_org (q i)) None (enter_phase i Returned (w\<lparr>cw_db := db'\<rparr>)))"
| rollback: "cw_phase w i = HoldLock \<Longrightarrow> locked_consume (q i) (cw_db w) = Inl e
    \<Longrightarrow> consume_interleave q w (set_lock (cq_org (q i)) None (enter_phase i (Raised e) w))"

inductive consume_trace :: "(nat \<Rightarrow> consume_request) \<Rightarrow> consume_world \<Rightarrow> consume_world \<Rightarrow> bool"
  for q :: "nat \<Rightarrow> consume_request" where
  trace_nil: "consume_trace q w w"
| trace_step: "consume_trace q w v \<Longrightarrow> consume_interleave q v u \<Longrightarrow> consume_trace q w u"

definition fresh_world :: "credit_state \<Rightarrow> consume_world" where
  "fresh_world db = \<lparr>cw_db = db, cw_lock = (\<lambda>_. None), cw_phase = (\<lambda>_. CheckKey)\<rparr>"

definition world_inv :: "(nat \<Rightarrow> consume_request) \<Rightarrow> credit_state \<Rightarrow> consume_world \<Rightarrow> bool" where
  "world_inv q db0 w \<longleftrightarrow> (\<exists>ops. set ops \<subseteq> {OpConsume} \<and> credit_run ops db0 (cw_db w))
     \<and> (\<forall>i. cw_phase w i \<in> {AwaitLock, HoldLock} \<longrightarrow> 0 < cq_amount (q i))
     \<and> (\<forall>i. cw_phase w i = HoldLock \<longleftrightarrow> cw_lock w (cq_org (q i)) = Some i)
     \<and> (\<forall>i. cw_phase w i = Returned \<longrightarrow>
          (\<exists>e \<in> set (cr_ledger (cw_db w)). le_org e = cq_org (q i) \<and> le_key e = Some (cq_key (q i))))"

lemma credit_run_snoc: "credit_run ops st st1 \<Longrightarrow> credit_step op st1 st2 \<Longrightarrow> credit_run (ops @ [op]) st st2"
  by (induction rule: credit_run.induct) (auto intro: credit_run.intros)

lemma enter_phase_simps [simp]:
  "cw_db (enter_phase i p w) = cw_db w" "cw_lock (enter_phase i p w) = cw_lock w"
  "cw_phase (enter_phase i p w) = (cw_phase w)(i := p)"
  by (simp_all add: enter_phase_def)

lemma set_lock_simps [simp]:
  "cw_db (set_lock org l w) = cw_db w" "cw_phase (set_lock org l w) = cw_phase w"
  "cw_lock (set_lock org l w) = (cw_lock w)(org := l)"
  by (simp_all add: set_lock_def)

lemma locked_consume_Inr:
  assumes "locked_consume q st = Inr (st', a)"
  shows "\<exists>e. cr_ledger st' = cr_ledger st @ [e] \<and> le_org e = cq_org q \<and> le_key e = Some (cq_key q)"
    "0 < cq_amount q \<Longrightarrow> credit_step OpConsume st st'"
proof -
  from assms obtain old u st1 where o: "account_by_org (cq_org q) st = Some old"
    and l: "append_ledger (old\<lparr>ca_used_credit := u\<rparr>) CONSUME (Some (cq_source q)) (cq_source_id q) (Some (cq_key q))
      (map_option au_id (cq_actor q)) None (cq_entry_id q) (put_account (old\<lparr>ca_used_credit := u\<rparr>) st) = Inr st1"
    and st': "cr_ledger st' = cr_ledger st1"
    by (auto simp: locked_consume_def consume_locked_def Let_def split: if_splits option.splits)
  from append_ledger_Inr [OF l] account_by_org_Some [OF o] st'
  show "\<exists>e. cr_ledger st' = cr_ledger st @ [e] \<and> le_org e = cq_org q \<and> le_key e = Some (cq_key q)"
    by auto
  from append_ledger_Inr [OF l] account_by_org_Some [OF o]
  have "check_idempotent_dup (cq_org q) (cq_key q) st = Inr None"
    by (auto simp: check_idempotent_dup_def)
  with assms show "credit_step OpConsume st st'" if "0 < cq_amount q"
    using that step_consume [of "cq_ri q" "cq_org q" "cq_actor q" "cq_amount q" "cq_source q" "cq_source_id q"
        "cq_key q" "cq_entry_id q" st st' a]
    by (simp add: consume_credit_def locked_consume_def)
qed

lemma world_inv_parts:
  assumes "world_inv q db0 w"
  shows "\<exists>ops. set ops \<subseteq> {OpConsume} \<and> credit_run ops db0 (cw_db w)"
    "\<And>i. cw_phase w i = AwaitLock \<or> cw_phase w i = HoldLock \<Longrightarrow> 0 < cq_amount (q i)"
    "\<And>i. cw_phase w i = HoldLock \<longleftrightarrow> cw_lock w (cq_org (q i)) = Some i"
    "\<And>i. cw_phase w i = Returned \<Longrightarrow>
      \<exists>e \<in> set (cr_ledger (cw_db w)). le_org e = cq_org (q i) \<and> le_key e = Some (cq_key (q i))"
  using assms unfolding world_inv_def by auto

lemma world_invI:
  assumes "\<exists>ops. set ops \<subseteq> {OpConsume} \<and> credit_run ops db0 (cw_db w)"
    "\<And>i. cw_phase w i = AwaitLock \<or> cw_phase w i = HoldLock \<Longrightarrow> 0 < cq_amount (q i)"
    "\<And>i. cw_phase w i = HoldLock \<Longrightarrow> cw_lock w (cq_org (q i)) = Some i"
    "\<And>i. cw_lock w (cq_org (q i)) = Some i \<Longrightarrow> cw_phase w i = HoldLock"
    "\<And>i. cw_phase w i = Returned \<Longrightarrow>
      \<exists>e \<in> set (cr_ledger (cw_db w)). le_org e = cq_org (q i) \<and> le_key e = Some (cq_key (q i))"
  shows "world_inv q db0 w"
  using assms unfolding world_inv_def by (intro conjI allI iffI impI) auto

lemma world_inv_enter:
  assumes inv: "world_inv q db0 w" and i: "cw_phase w i = CheckKey" and p: "p \<noteq> HoldLock"
    "p = AwaitLock \<Longrightarrow> 0 < cq_amount (q i)"
    "p = Returned \<Longrightarrow> \<exists>e \<in> set (cr_ledger (cw_db w)). le_org e = cq_org (q i) \<and> le_key e = Some (cq_key (q i))"
  shows "world_inv q db0 (enter_phase i p w)"
proof (rule world_invI)
  note parts = world_inv_parts [OF inv]
  fix j
  show "cw_lock (enter_phase i p w) (cq_org (q j)) = Some j \<Longrightarrow> cw_phase (enter_phase i p w) j = HoldLock"
    using parts(3) [of j] i by (cases "j = i") auto
  show "cw_phase (enter_phase i p w) j = HoldLock \<Longrightarrow> cw_lock (enter_phase i p w) (cq_org (q j)) = Some j"
    using parts(3) [of j] p(1) by (cases "j = i") auto
  show "cw_phase (enter_phase i p w) j = AwaitLock \<or> cw_phase (enter_phase i p w) j = HoldLock \<Longrightarrow> 0 < cq_amount (q j)"
    using parts(2) [of j] p by (cases "j = i") auto
  show "cw_phase (enter_phase i p w) j = Returned \<Longrightarrow> \<exists>e \<in> set (cr_ledger (cw_db (enter_phase i p w))).
      le_org e = cq_org (q j) \<and> le_key e = Some (cq_key (q j))"
    using parts(4) [of j] p by (cases "j = i") auto
qed (use world_inv_parts(1) [OF inv] in simp)

lemma world_inv_unlock:
  assumes inv: "world_inv q db0 w" and i: "cw_phase w i = HoldLock" and p: "p \<noteq> HoldLock" "p \<noteq> AwaitLock"
    and run: "\<exists>ops. set ops \<subseteq> {OpConsume} \<and> credit_run ops db0 db'"
    and sub: "set (cr_ledger (cw_db w)) \<subseteq> set (cr_ledger db')"
    and ret: "p = Returned \<Longrightarrow> \<exists>e \<in> set (cr_ledger db'). le_org e = cq_org (q i) \<and> le_key e = Some (cq_key (q i))"
  shows "world_inv q db0 (set_lock (cq_org (q i)) None (enter_phase i p (w\<lparr>cw_db := db'\<rparr>)))"
    (is "world_inv q db0 ?v")
proof (rule world_invI)
  note parts = world_inv_parts [OF inv]
  fix j
  have lock_i: "cw_lock w (cq_org (q i)) = Some i" using parts(3) i by simp
  show "cw_lock ?v (cq_org (q j)) = Some j \<Longrightarrow> cw_phase ?v j = HoldLock"
    using parts(3) [of j] by (cases "j = i") (auto split: if_splits)
  show "cw_phase ?v j = HoldLock \<Longrightarrow> cw_lock ?v (cq_org (q j)) = Some j"
    using parts(3) [of j] p(1) lock_i by (cases "j = i") auto
  show "cw_phase ?v j = AwaitLock \<or> cw_phase ?v j = HoldLock \<Longrightarrow> 0 < cq_amount (q j)"
    using parts(2) [of j] p by (cases "j = i") auto
  show "cw_phase ?v j = Returned \<Longrightarrow> \<exists>e \<in> set (cr_ledger (cw_db ?v)).
      le_org e = cq_org (q j) \<and> le_key e = Some (cq_key (q j))"
    using parts(4) [of j] ret sub by (cases "j = i") auto
qed (use run in simp)

lemma world_inv_grant:
  assumes inv: "world_inv q db0 w" and i: "cw_phase w i = AwaitLock" and free: "cw_lock w (cq_org (q i)) = None"
  shows "world_inv q db0 (set_lock (cq_org (q i)) (Some i) (enter_phase i HoldLock w))"
    (is "world_inv q db0 ?v")
proof (rule world_invI)
  note parts = world_inv_parts [OF inv]
  fix j
  show "cw_lock ?v (cq_org (q j)) = Some j \<Longrightarrow> cw_phase ?v j = HoldLock"
    using parts(3) [of j] by (cases "j = i") (auto split: if_splits)
  show "cw_phase ?v j = HoldLock \<Longrightarrow> cw_lock ?v (cq_org (q j)) = Some j"
    using parts(3) [of j] free by (cases "j = i") auto
  show "cw_phase ?v j = AwaitLock \<or> cw_phase ?v j = HoldLock \<Longrightarrow> 0 < cq_amount (q j)"
    using parts(2) [of j] parts(2) [of i] i by (cases "j = i") auto
  show "cw_phase ?v j = Returned \<Longrightarrow> \<exists>e \<in> set (cr_ledger (cw_db ?v)).
      le_org e = cq_org (q j) \<and> le_key e = Some (cq_key (q j))"
    using parts(4) [of j] by (cases "j = i") auto
qed (use world_inv_parts(1) [OF inv] in simp)

lemma world_inv_step:
  assumes "consume_interleave q w v" and inv: "world_inv q db0 w"
  shows "world_inv q db0 v"
  using assms(1)
proof cases
  case (not_positive i)
  show ?thesis unfolding not_positive(1) by (rule world_inv_enter [OF inv not_positive(2)]) simp_all
next
  case (key_found i a)
  then have "\<exists>e \<in> set (cr_ledger (cw_db w)). le_org e = cq_org (q i) \<and> le_key e = Some (cq_key (q i))"
    by (auto simp: check_idempotent_dup_def split: if_splits)
  then show ?thesis using key_found world_inv_enter [OF inv, of i Returned] by simp
next
  case (key_new i)
  then show ?thesis using world_inv_enter [OF inv, of i AwaitLock] by simp
next
  case (grant i)
  then show ?thesis using world_inv_grant [OF inv] by simp
next
  case (commit i db' a)
  note l = locked_consume_Inr [OF commit(3)]
  have pos: "0 < cq_amount (q i)" using world_inv_parts(2) [OF inv] commit(2) by simp
  obtain ops where "set ops \<subseteq> {OpConsume}" "credit_run ops db0 (cw_db w)"
    using world_inv_parts(1) [OF inv] by blast
  with credit_run_snoc l(2) [OF pos]
  have "\<exists>ops. set ops \<subseteq> {OpConsume} \<and> credit_run ops db0 db'"
    by (intro exI [of _ "ops @ [OpConsume]"]) auto
  then show ?thesis
    unfolding commit(1) using l(1) by (intro world_inv_unlock [OF inv commit(2)]) auto
next
  case (rollback i e)
  have "w\<lparr>cw_db := cw_db w\<rparr> = w" by simp
  with rollback world_inv_unlock [OF inv rollback(2), of "Raised e" "cw_db w"] world_inv_parts(1) [OF inv]
  show ?thesis by simp
qed

lemma one_entry_per_key:
  assumes "distinct (map (\<lambda>e. (le_org e, le_key e)) (filter (\<lambda>e. le_key e \<noteq> None) xs))"
    and "\<exists>e \<in> set xs. le_org e = org \<and> le_key e = Some k"
  shows "length (filter (\<lambda>e. le_org e = org \<and> le_key e = Some k) xs) = 1"
  using assms
proof (induction xs)
  case (Cons x xs)
  show ?case
  proof (cases "le_org x = org \<and> le_key x = Some k")
    case True
    have "\<not> (le_org y = org \<and> le_key y = Some k)" if "y \<in> set xs" for y
    proof
      assume y: "le_org y = org \<and> le_key y = Some k"
      with that have "y \<in> set (filter (\<lambda>e. le_key e \<noteq> None) xs)" by simp
      then have "(le_org y, le_key y) \<in> (\<lambda>e. (le_org e, le_key e)) ` set (filter (\<lambda>e. le_key e \<noteq> None) xs)"
        by (rule imageI)
      with Cons.prems(1) True y show False by simp
    qed
    then have "filter (\<lambda>e. le_org e = org \<and> le_key e = Some k) xs = []" by (simp add: filter_empty_conv)
    with True show ?thesis by simp
  next
    case False
    with Cons.prems have "\<exists>e \<in> set xs. le_org e = org \<and> le_key e = Some k" by auto
    moreover have "distinct (map (\<lambda>e. (le_org e, le_key e)) (filter (\<lambda>e. le_key e \<noteq> None) xs))"
      using Cons.prems(1) by (simp split: if_splits)
    ultimately show ?thesis using Cons.IH False by simp
  qed
qed simp

lemma world_inv_trace: "consume_trace q (fresh_world db0) w \<Longrightarrow> world_inv q db0 w"
proof (induction "fresh_world db0" w rule: consume_trace.induct)
  case trace_nil
  then show ?case by (auto simp: world_inv_def fresh_world_def intro: exI [of _ "[]"] run_nil)
next
  case (trace_step v u)
  then show ?case using world_inv_step by blast
qed

text \<open>
  C8: concurrent consumptions are serialised by the row lock and the unique index. However the
  transactions interleave, the tables are those some sequence of whole consumptions leaves,
  at most one transaction holds the lock of an account, and every request that returned has
  its key in the ledger, in exactly one entry although the duplicate check runs without the lock.
\<close>

theorem consumptions_serialise:
  assumes "credit_run ops0 (empty_credit orgs configs) db0" and "consume_trace q (fresh_world db0) w"
  shows "(\<exists>ops. set ops \<subseteq> {OpConsume} \<and> credit_run ops db0 (cw_db w))
    \<and> (\<forall>i j. cw_phase w i = HoldLock \<longrightarrow> cw_phase w j = HoldLock \<longrightarrow> cq_org (q i) = cq_org (q j) \<longrightarrow> i = j)
    \<and> (\<forall>i. cw_phase w i = Returned \<longrightarrow>
         length (filter (\<lambda>e. le_org e = cq_org (q i) \<and> le_key e = Some (cq_key (q i))) (cr_ledger (cw_db w))) = 1)"
proof -
  have inv: "world_inv q db0 w" by (rule world_inv_trace [OF assms(2)])
  then obtain ops where ops: "set ops \<subseteq> {OpConsume}" "credit_run ops db0 (cw_db w)"
    by (auto simp: world_inv_def)
  have "credit_books db0" using credit_run_books [OF assms(1)] by simp
  from books_parts(5) [OF credit_run_books [OF ops(2) this]]
  have d: "distinct (map (\<lambda>e. (le_org e, le_key e)) (filter (\<lambda>e. le_key e \<noteq> None) (cr_ledger (cw_db w))))" .
  have "i = j" if "cw_phase w i = HoldLock" "cw_phase w j = HoldLock" "cq_org (q i) = cq_org (q j)" for i j
    using that world_inv_parts(3) [OF inv] by (metis option.inject)
  with ops one_entry_per_key [OF d] world_inv_parts(4) [OF inv] show ?thesis by blast
qed

subsection \<open>A sample account\<close>

definition sample_ri :: request_info where "sample_ri = \<lparr>ri_ip = None, ri_ua = None\<rparr>"

definition sample_admin :: auth_user where "sample_admin = \<lparr>au_id = ''adm'', au_role = ''ADMIN''\<rparr>"

definition sample_credit :: credit_state where
  \<comment> \<open>an approved limit of 100.00 and an account opened on it\<close>
  "sample_credit =
     (case get_or_create_account ''org'' ''acc'' 86400 (empty_credit [''org''] [(''org'', Some 100)]) of
        Inr (st, _) \<Rightarrow> st | Inl _ \<Rightarrow> empty_credit [] [])"

definition sample_consumed :: credit_state where
  "sample_consumed =
     (case consume_credit sample_ri ''org'' None 60 SRC_INVOICE (Some ''inv'') ''k1'' ''e1'' sample_credit of
        Inr (st, _) \<Rightarrow> st | Inl _ \<Rightarrow> sample_credit)"

definition sample_closed :: credit_state where
  "sample_closed =
     (case close_account sample_ri ''org'' sample_admin CLOSE_OTHER None ''acc2'' 90000 sample_credit of
        Inr (st, _) \<Rightarrow> st | Inl _ \<Rightarrow> sample_credit)"

lemma sample_opened: "\<exists>a. get_or_create_account ''org'' ''acc'' 86400 (empty_credit [''org''] [(''org'', Some 100)]) = Inr (sample_credit, a)"
  by (simp add: sample_credit_def get_or_create_account_def org_or_404_def empty_credit_def account_by_org_def
      create_account_def Let_def)

lemma sample_credit_account:
  "account_by_org ''org'' sample_credit = Some \<lparr>ca_id = ''acc'', ca_org = ''org'', ca_status = ACTIVE,
     ca_status_reason = None, ca_action_by = None, ca_last_status_change_at = Some 86400,
     ca_credit_limit = Some 100, ca_credit_limit_updated_at = Some 86400, ca_used_credit = 0,
     ca_payment_terms_days = None, ca_payment_terms_effective_from = None,
     ca_payment_terms_updated_at = None, ca_review_frequency = None, ca_facility_start_date = Some 1\<rparr>"
  "cr_ledger sample_credit = []" "cr_orgs sample_credit = [''org'']"
  by (simp_all add: sample_credit_def get_or_create_account_def org_or_404_def empty_credit_def account_by_org_def
      create_account_def day_of_def Let_def)

lemma sample_consumption:
  "\<exists>a. consume_credit sample_ri ''org'' None 60 SRC_INVOICE (Some ''inv'') ''k1'' ''e1'' sample_credit = Inr (sample_consumed, a)"
  unfolding sample_consumed_def
  by (simp add: consume_credit_def check_idempotent_dup_def sample_credit_account consume_locked_def
      append_ledger_def Let_def load_account_locked_def)

lemma sample_runs:
  "credit_run [OpOpen] (empty_credit [''org''] [(''org'', Some 100)]) sample_credit"
  "credit_run [OpConsume] sample_credit sample_consumed"
  "credit_run [OpOpen, OpConsume] (empty_credit [''org''] [(''org'', Some 100)]) sample_consumed"
  using sample_opened sample_consumption by (auto intro: credit_run.intros step_open step_consume)

theorem credit_books_agree_witness:
  "\<exists>st. credit_run [OpOpen, OpConsume] (empty_credit [''org''] [(''org'', Some 100)]) st
    \<and> (\<forall>a \<in> set (cr_accounts st). ca_used_credit a = last_used (ca_org a) (cr_ledger st))"
  using sample_runs(3) credit_books_agree [OF sample_runs(3)] by blast

lemma sample_closure:
  "\<exists>a. close_account sample_ri ''org'' sample_admin CLOSE_OTHER None ''acc2'' 90000 sample_credit = Inr (sample_closed, a)
     \<and> account_by_org ''org'' sample_closed = Some a \<and> ca_status a = CLOSED \<and> ca_used_credit a = 0"
  "cr_orgs sample_closed = [''org'']"
proof -
  have acc: "account_by_org ''org'' sample_credit = Some x \<Longrightarrow> account_by_org ''org'' (credit_audit ri ac et ei c old new r org ev sev
      (record_status_transition y f t rr u (put_account y sample_credit))) = Some y" if "ca_id y = ca_id x" "ca_org y = ca_org x" for x y ri ac et ei c old new r org ev sev f t rr u
    using that by (auto simp: account_by_org_def sample_credit_def get_or_create_account_def org_or_404_def
        empty_credit_def create_account_def replaced_def Let_def)
  show "\<exists>a. close_account sample_ri ''org'' sample_admin CLOSE_OTHER None ''acc2'' 90000 sample_credit = Inr (sample_closed, a)
     \<and> account_by_org ''org'' sample_closed = Some a \<and> ca_status a = CLOSED \<and> ca_used_credit a = 0"
    "cr_orgs sample_closed = [''org'']"
    unfolding sample_closed_def
    by (simp_all add: close_account_def get_or_create_account_def org_or_404_def sample_credit_account
        load_account_locked_def Let_def acc [OF _ _ sample_credit_account(1)])
qed

theorem closed_account_is_final_witness:
  "\<exists>st b. credit_run [OpOpen] sample_closed st \<and> account_by_org ''org'' st = Some b \<and> ca_status b = CLOSED
     \<and> ca_used_credit b = 0"
proof -
  obtain a where a: "close_account sample_ri ''org'' sample_admin CLOSE_OTHER None ''acc2'' 90000 sample_credit = Inr (sample_closed, a)"
    "account_by_org ''org'' sample_closed = Some a" "ca_status a = CLOSED" "ca_used_credit a = 0"
    using sample_closure(1) by blast
  have r0: "credit_run [OpOpen, OpClose] (empty_credit [''org''] [(''org'', Some 100)]) sample_closed"
    using credit_run_snoc [OF sample_runs(1) step_close [OF a(1)]] by simp
  have "get_or_create_account ''org'' ''x'' 0 sample_closed = Inr (sample_closed, a)"
    by (simp add: get_or_create_account_def org_or_404_def sample_closure(2) a(2))
  then have r: "credit_run [OpOpen] sample_closed sample_closed" by (intro run_step [OF step_open run_nil])
  from closed_account_is_final [OF r0 r _ a(2,3)] r a(4) show ?thesis by auto
qed

theorem credit_limit_holds_witness:
  "\<exists>b. account_by_org ''org'' sample_consumed = Some b \<and> ca_used_credit b \<le> 100"
  using credit_limit_holds [OF sample_runs(1,2) _ sample_credit_account(1)] by auto

theorem preflight_agrees_with_consumption_witness:
  "\<exists>st' b. consume_credit sample_ri ''org'' None 100 SRC_ORDER None ''k'' ''e'' sample_credit = Inr (st', b)
     \<and> ca_used_credit b = 100"
proof -
  have "assert_can_consume ''org'' 100 sample_credit = Inr (the (account_by_org ''org'' sample_credit))"
    by (simp add: assert_can_consume_def sample_credit_account available_credit_def)
  with preflight_agrees_with_consumption [where st = sample_credit and entry_id = "''e''" and org = "''org''" and key = "''k''"
      and amount = 100 and ri = sample_ri and actor = None and src = SRC_ORDER and src_id = None]
  show ?thesis by (auto simp: sample_credit_account)
qed

theorem consumed_key_replays_witness:
  "\<exists>b. repay_credit sample_ri ''org'' None 5 SRC_PAYMENT None ''k1'' ''e2'' sample_consumed = Inr (sample_consumed, b)"
proof -
  obtain a where "consume_credit sample_ri ''org'' None 60 SRC_INVOICE (Some ''inv'') ''k1'' ''e1'' sample_credit = Inr (sample_consumed, a)"
    using sample_consumption by blast
  from consumed_key_replays [OF sample_runs(1) this run_nil, of 5 sample_ri None SRC_PAYMENT None "''e2''"]
  show ?thesis by auto
qed

definition sample_requests :: "nat \<Rightarrow> consume_request" where
  \<comment> \<open>two transactions under one key\<close>
  "sample_requests i = \<lparr>cq_ri = sample_ri, cq_org = ''org'', cq_actor = None, cq_amount = 60, cq_source = SRC_INVOICE,
     cq_source_id = None, cq_key = ''k1'', cq_entry_id = (if i = 0 then ''e1'' else ''e2'')\<rparr>"

theorem consumptions_serialise_witness:
  "\<exists>w. consume_trace sample_requests (fresh_world sample_credit) w \<and> cw_phase w 0 = Returned
     \<and> cw_phase w 1 = AwaitLock
     \<and> length (filter (\<lambda>e. le_org e = ''org'' \<and> le_key e = Some ''k1'') (cr_ledger (cw_db w))) = 1"
proof -
  let ?w0 = "fresh_world sample_credit"
  let ?w1 = "enter_phase 0 AwaitLock ?w0" and ?w2 = "enter_phase 1 AwaitLock (enter_phase 0 AwaitLock ?w0)"
  let ?w3 = "set_lock ''org'' (Some 0) (enter_phase 0 HoldLock ?w2)"
  have dup: "check_idempotent_dup ''org'' ''k1'' sample_credit = Inr None"
    by (simp add: check_idempotent_dup_def sample_credit_account)
  obtain db a where c: "locked_consume (sample_requests 0) sample_credit = Inr (db, a)"
    by (simp add: locked_consume_def consume_locked_def sample_requests_def sample_credit_account
        append_ledger_def Let_def load_account_locked_def)
  let ?w4 = "set_lock ''org'' None (enter_phase 0 Returned (?w3\<lparr>cw_db := db\<rparr>))"
  have q: "cq_org (sample_requests i) = ''org''" "cq_key (sample_requests i) = ''k1''" "cq_amount (sample_requests i) = 60" for i
    by (simp_all add: sample_requests_def)
  have w0: "cw_db ?w0 = sample_credit" "cw_lock ?w0 = (\<lambda>_. None)" "cw_phase ?w0 = (\<lambda>_. CheckKey)"
    by (simp_all add: fresh_world_def)
  have "consume_trace sample_requests ?w0 ?w1"
    by (rule trace_step [OF trace_nil key_new]) (simp_all add: w0 q dup)
  then have "consume_trace sample_requests ?w0 ?w2"
    by (rule trace_step [OF _ key_new]) (simp_all add: w0 q dup)
  then have "consume_trace sample_requests ?w0 ?w3"
    using trace_step [OF _ grant [of ?w2 0 sample_requests]] by (simp add: w0 q)
  then have t: "consume_trace sample_requests ?w0 ?w4"
    using trace_step [OF _ commit [of ?w3 0 sample_requests db a]] by (simp add: w0 q c)
  from consumptions_serialise [OF sample_runs(1) t, THEN conjunct2, THEN conjunct2] have "\<forall>i. cw_phase ?w4 i = Returned \<longrightarrow>
    length (filter (\<lambda>e. le_org e = ''org'' \<and> le_key e = Some ''k1'') (cr_ledger (cw_db ?w4))) = 1"
    by (simp only: q)
  then have "cw_phase ?w4 0 = Returned \<longrightarrow> length (filter (\<lambda>e. le_org e = ''org'' \<and> le_key e = Some ''k1'') (cr_ledger (cw_db ?w4))) = 1"
    by (rule spec)
  with t show ?thesis by (intro exI [of _ ?w4]) (simp add: w0)
qed

end
