(* ===== verification/Calendar.thy ===== *)
theory Calendar
  imports Prelude
begin

text \<open>
  Python's \<^verbatim>\<open>datetime.date\<close> as far as the services use it: proleptic Gregorian dates with their
  order, ordinals (\<^verbatim>\<open>date.toordinal\<close>, the difference of two dates in days), and addition of a number of
  days. Addition steps from day to day; the lemmas read it off the ordinals. The upper bound of year
  9999, beyond which Python raises \<^verbatim>\<open>OverflowError\<close>, is not modelled.
\<close>

named_theorems date_simps \<open>dates as ordinals\<close>

datatype date = Date (year: int) (month: int) (day: int)

subsection \<open>The order\<close>

instantiation date :: linorder
begin

definition less_eq_date :: "date \<Rightarrow> date \<Rightarrow> bool" where
  "less_eq_date a b \<longleftrightarrow> year a < year b \<or> (year a = year b \<and>
     (month a < month b \<or> (month a = month b \<and> day a \<le> day b)))"

definition less_date :: "date \<Rightarrow> date \<Rightarrow> bool" where
  "less_date a b \<longleftrightarrow> year a < year b \<or> (year a = year b \<and>
     (month a < month b \<or> (month a = month b \<and> day a < day b)))"

instance
proof
  fix a b c :: date
  show "a < b \<longleftrightarrow> a \<le> b \<and> \<not> b \<le> a" by (auto simp: less_eq_date_def less_date_def)
  show "a \<le> a" by (simp add: less_eq_date_def)
  show "a \<le> b \<Longrightarrow> b \<le> c \<Longrightarrow> a \<le> c" by (auto simp: less_eq_date_def)
  show "a \<le> b \<Longrightarrow> b \<le> a \<Longrightarrow> a = b" by (auto simp: less_eq_date_def intro: date.expand)
  show "a \<le> b \<or> b \<le> a" by (auto simp: less_eq_date_def)
qed

end

subsection \<open>Months and ordinals\<close>

definition is_leap :: "int \<Rightarrow> bool" where
  "is_leap y \<longleftrightarrow> y mod 4 = 0 \<and> (y mod 100 \<noteq> 0 \<or> y mod 400 = 0)"

definition days_in_month :: "int \<Rightarrow> int \<Rightarrow> int" where
  "days_in_month y m =
     (if m = 2 then (if is_leap y then 29 else 28) else if m = 4 \<or> m = 6 \<or> m = 9 \<or> m = 11 then 30 else 31)"

definition valid_date :: "date \<Rightarrow> bool" where
  "valid_date d \<longleftrightarrow> 1 \<le> month d \<and> month d \<le> 12 \<and> 1 \<le> day d \<and> day d \<le> days_in_month (year d) (month d)"

definition leap_days_before :: "int \<Rightarrow> int" where
  "leap_days_before y = (y - 1) div 4 - (y - 1) div 100 + (y - 1) div 400"

definition days_before_year :: "int \<Rightarrow> int" where
  "days_before_year y = (y - 1) * 365 + leap_days_before y"

definition days_before_month :: "int \<Rightarrow> int \<Rightarrow> int" where
  "days_before_month y m =
     [0, 31, 59, 90, 120, 151, 181, 212, 243, 273, 304, 334] ! nat (m - 1) + (if 2 < m \<and> is_leap y then 1 else 0)"

definition toordinal :: "date \<Rightarrow> int" where
  "toordinal d = days_before_year (year d) + days_before_month (year d) (month d) + day d"

definition days_between :: "date \<Rightarrow> date \<Rightarrow> int" where
  \<comment> \<open>\<^verbatim>\<open>(b - a).days\<close>\<close>
  "days_between a b = toordinal b - toordinal a"

definition next_day :: "date \<Rightarrow> date" where
  "next_day d =
     (if day d < days_in_month (year d) (month d) then Date (year d) (month d) (day d + 1)
      else if month d < 12 then Date (year d) (month d + 1) 1
      else Date (year d + 1) 1 1)"

definition prev_day :: "date \<Rightarrow> date" where
  "prev_day d =
     (if 1 < day d then Date (year d) (month d) (day d - 1)
      else if 1 < month d then Date (year d) (month d - 1) (days_in_month (year d) (month d - 1))
      else Date (year d - 1) 12 31)"

definition add_days :: "date \<Rightarrow> int \<Rightarrow> date" where
  \<comment> \<open>\<^verbatim>\<open>d + timedelta(days=n)\<close>\<close>
  "add_days d n = (if 0 \<le> n then (next_day ^^ nat n) d else (prev_day ^^ nat (- n)) d)"

text \<open>Equations for evaluation: the steps match on the date, so that each is computed before the next.\<close>

lemma next_day_code [code]:
  "next_day (Date y m d) =
     (if d < days_in_month y m then Date y m (d + 1) else if m < 12 then Date y (m + 1) 1 else Date (y + 1) 1 1)"
  by (simp add: next_day_def)

lemma prev_day_code [code]:
  "prev_day (Date y m d) =
     (if 1 < d then Date y m (d - 1) else if 1 < m then Date y (m - 1) (days_in_month y (m - 1)) else Date (y - 1) 12 31)"
  by (simp add: prev_day_def)

lemma add_days_code [code]:
  "add_days d n = (if n = 0 then d else if 0 < n then add_days (next_day d) (n - 1) else add_days (prev_day d) (n + 1))"
proof -
  have "nat n = Suc (nat (n - 1))" if "0 < n" using that by simp
  moreover have "nat (- n) = Suc (nat (- (n + 1)))" if "n < 0" using that by simp
  ultimately show ?thesis by (auto simp: add_days_def funpow_swap1)
qed

subsection \<open>Laws\<close>

lemma month_cases:
  assumes "1 \<le> (m::int)" "m \<le> 12"
  obtains "m = 1" | "m = 2" | "m = 3" | "m = 4" | "m = 5" | "m = 6" | "m = 7" | "m = 8" | "m = 9" | "m = 10"
    | "m = 11" | "m = 12"
proof -
  have "m = 1 \<or> m = 2 \<or> m = 3 \<or> m = 4 \<or> m = 5 \<or> m = 6 \<or> m = 7 \<or> m = 8 \<or> m = 9 \<or> m = 10 \<or> m = 11 \<or> m = 12"
    using assms by arith
  then show thesis using that by blast
qed

lemma div_pred:
  assumes "0 < (n::int)"
  shows "y div n = (y - 1) div n + (if y mod n = 0 then 1 else 0)"
proof -
  define q r where "q = y div n" and "r = y mod n"
  have y: "y = r + q * n" and r: "0 \<le> r" "r < n" using assms by (simp_all add: q_def r_def)
  have "y - 1 = (r - 1) + q * n" by (simp add: y)
  then have "(y - 1) div n = q + (r - 1) div n" using assms by (simp only: div_mult_self1)
  moreover have "(r - 1) div n = (if r = 0 then - 1 else 0)"
    using r assms by (simp add: div_eq_minus1 div_pos_pos_trivial)
  ultimately show ?thesis by (simp add: q_def r_def)
qed

lemma indicator_sum:
  fixes A B C a b c :: int
  assumes "A = a + (if p then 1 else 0)" "B = b + (if q then 1 else 0)" "C = c + (if r then 1 else 0)" "q \<Longrightarrow> p" "r \<Longrightarrow> q"
  shows "A - B + C = a - b + c + (if p \<and> (\<not> q \<or> r) then 1 else 0)"
  using assms by (cases p; cases q; cases r; simp)

lemma leap_days: "leap_days_before (y + 1) = leap_days_before y + (if is_leap y then 1 else 0)"
  unfolding is_leap_def leap_days_before_def add_diff_cancel_right'
proof (rule indicator_sum [OF div_pred div_pred div_pred])
  show "y mod 4 = 0" if "y mod 100 = 0"
    using dvd_trans [of 4 100 y] that by (simp add: mod_eq_0_iff_dvd)
  show "y mod 100 = 0" if "y mod 400 = 0"
    using dvd_trans [of 100 400 y] that by (simp add: mod_eq_0_iff_dvd)
qed simp_all

lemma days_before_year_Suc: "days_before_year (y + 1) = days_before_year y + (if is_leap y then 366 else 365)"
  by (simp add: days_before_year_def leap_days)

lemma days_before_month_Suc:
  "1 \<le> m \<Longrightarrow> m \<le> 11 \<Longrightarrow> days_before_month y (m + 1) = days_before_month y m + days_in_month y m"
  by (rule month_cases [of m]) (simp_all add: days_before_month_def days_in_month_def)

lemma days_before_month_1 [simp]: "days_before_month y 1 = 0"
  by (simp add: days_before_month_def)

lemma days_before_month_12: "days_before_month y 12 + 31 = (if is_leap y then 366 else 365)"
  by (simp add: days_before_month_def)

lemma days_in_month_bounds: "28 \<le> days_in_month y m" "days_in_month y m \<le> 31"
  by (simp_all add: days_in_month_def)

lemma next_day_valid [simp]: "valid_date d \<Longrightarrow> valid_date (next_day d)"
  using days_in_month_bounds(1) [of "year d" "month d + 1"] days_in_month_bounds(1) [of "year d + 1" 1]
  by (auto simp: valid_date_def next_day_def)

lemma prev_day_valid [simp]: "valid_date d \<Longrightarrow> valid_date (prev_day d)"
  using days_in_month_bounds(1) [of "year d" "month d - 1"]
  by (auto simp: valid_date_def prev_day_def days_in_month_def)

lemma toordinal_next_day [date_simps]: "valid_date d \<Longrightarrow> toordinal (next_day d) = toordinal d + 1"
  using days_before_month_Suc [of "month d" "year d"] days_before_year_Suc [of "year d"] days_before_month_12 [of "year d"]
  by (auto simp: valid_date_def next_day_def toordinal_def days_in_month_def split: if_splits)

lemma toordinal_prev_day [date_simps]: "valid_date d \<Longrightarrow> toordinal (prev_day d) = toordinal d - 1"
  using days_before_month_Suc [of "month d - 1" "year d"] days_before_year_Suc [of "year d - 1"]
    days_before_month_12 [of "year d - 1"]
  by (auto simp: valid_date_def prev_day_def toordinal_def)

lemma steps_valid: "valid_date d \<Longrightarrow> valid_date ((next_day ^^ n) d) \<and> toordinal ((next_day ^^ n) d) = toordinal d + int n"
  "valid_date d \<Longrightarrow> valid_date ((prev_day ^^ n) d) \<and> toordinal ((prev_day ^^ n) d) = toordinal d - int n"
  by (induction n) (simp_all add: date_simps)

lemma add_days_valid [simp]: "valid_date d \<Longrightarrow> valid_date (add_days d n)"
  by (simp add: add_days_def steps_valid)

lemma toordinal_add_days [date_simps, simp]: "valid_date d \<Longrightarrow> toordinal (add_days d n) = toordinal d + n"
  by (simp add: add_days_def steps_valid)

lemma days_before_month_mono:
  assumes "1 \<le> m" "m < n"
  shows "n \<le> 12 \<Longrightarrow> days_before_month y m + days_in_month y m \<le> days_before_month y n"
  using assms(2)
proof (induction n rule: int_gr_induct)
  case base
  then show ?case using days_before_month_Suc [of m y] assms(1) by simp
next
  case (step k)
  then show ?case using days_before_month_Suc [of k y] days_in_month_bounds(1) [of y k] assms(1) by simp
qed

lemma days_before_year_mono: "y < z \<Longrightarrow> days_before_year (y + 1) \<le> days_before_year z"
proof (induction z rule: int_gr_induct)
  case (step z)
  then show ?case using days_before_year_Suc [of z] by simp
qed simp

lemma ordinal_in_year:
  assumes "valid_date d"
  shows "days_before_year (year d) < toordinal d" "toordinal d \<le> days_before_year (year d + 1)"
proof -
  have m: "1 \<le> month d" "month d \<le> 12" using assms by (simp_all add: valid_date_def)
  have "0 \<le> days_before_month (year d) (month d)"
    by (rule month_cases [OF m]) (simp_all add: days_before_month_def)
  moreover have "days_before_month (year d) (month d) + days_in_month (year d) (month d) \<le> (if is_leap (year d) then 366 else 365)"
    by (rule month_cases [OF m]) (simp_all add: days_before_month_def days_in_month_def)
  ultimately show "days_before_year (year d) < toordinal d" "toordinal d \<le> days_before_year (year d + 1)"
    using assms days_before_year_Suc [of "year d"] by (auto simp: valid_date_def toordinal_def)
qed

lemma toordinal_less:
  assumes "valid_date a" "valid_date b" "a < b"
  shows "toordinal a < toordinal b"
proof -
  consider "year a < year b" | "year a = year b" "month a < month b" | "year a = year b" "month a = month b" "day a < day b"
    using assms(3) by (auto simp: less_date_def)
  then show ?thesis
  proof cases
    case 1
    show ?thesis
      using ordinal_in_year(2) [OF assms(1)] ordinal_in_year(1) [OF assms(2)] days_before_year_mono [OF 1] by linarith
  next
    case 2
    have "days_before_month (year b) (month a) + days_in_month (year b) (month a) \<le> days_before_month (year b) (month b)"
      by (rule days_before_month_mono) (use assms 2 in \<open>auto simp: valid_date_def\<close>)
    then show ?thesis using assms 2 by (simp add: toordinal_def valid_date_def)
  qed (simp add: toordinal_def)
qed

lemma less_iff_toordinal [date_simps]: "valid_date a \<Longrightarrow> valid_date b \<Longrightarrow> a < b \<longleftrightarrow> toordinal a < toordinal b"
  by (metis linorder_neqE not_less_iff_gr_or_eq toordinal_less)

lemma le_iff_toordinal [date_simps]: "valid_date a \<Longrightarrow> valid_date b \<Longrightarrow> a \<le> b \<longleftrightarrow> toordinal a \<le> toordinal b"
  using less_iff_toordinal [of b a] by auto

lemma eq_iff_toordinal: "valid_date a \<Longrightarrow> valid_date b \<Longrightarrow> a = b \<longleftrightarrow> toordinal a = toordinal b"
  using less_iff_toordinal [of a b] less_iff_toordinal [of b a] by fastforce

end
