(* ===== verification/CreditApplications.thy ===== *)
theory CreditApplications
  imports OrgCredit Calendar Repository "HOL-Library.AList"
begin

text \<open>
  Applications for credit, \<^verbatim>\<open>app/modules/org_credit_applications\<close>: drafts and their publication, the review with trade references
  and the credit check, the decision, and what an approval does to the credit account of \<open>OrgCredit\<close>. The columns a client fills
  in are kept as a map from their names to JSON values. The report of Creditsafe is an argument (\<open>assessment\<close>), as are the ids of
  new rows, the sequence value of an application number and whether an upload succeeds. Instants are seconds.
  The check of an e-mail address is a parameter. Listings and responses are left out, and so are the columns that only they
  read (of an investigation: the order sent to the provider and its answer).
\<close>

subsection \<open>Data\<close>

datatype application_status =
    AS_SUBMITTED | AS_REVIEWER_ASSIGNED | AS_REFERENCES_VERIFIED | AS_CHECK_COMPLETED | AS_CHECK_FAILED
  | AS_INVESTIGATION | AS_READY | AS_APPROVED | AS_REJECTED | AS_WITHDRAWN | AS_CANCELLED

fun application_status_value :: "application_status \<Rightarrow> string" where
  "application_status_value AS_SUBMITTED = ''SUBMITTED''"
| "application_status_value AS_REVIEWER_ASSIGNED = ''REVIEWER_ASSIGNED''"
| "application_status_value AS_REFERENCES_VERIFIED = ''REFERENCES_VERIFIED''"
| "application_status_value AS_CHECK_COMPLETED = ''CREDIT_CHECK_COMPLETED''"
| "application_status_value AS_CHECK_FAILED = ''CREDIT_CHECK_FAILED''"
| "application_status_value AS_INVESTIGATION = ''CREDIT_CHECK_INVESTIGATION_PROGRESS''"
| "application_status_value AS_READY = ''READY_FOR_DECISION''"
| "application_status_value AS_APPROVED = ''APPROVED''"
| "application_status_value AS_REJECTED = ''REJECTED''"
| "application_status_value AS_WITHDRAWN = ''WITHDRAWN''"
| "application_status_value AS_CANCELLED = ''CANCELLED''"

datatype application_state = LS_DRAFT | LS_ACTIVE

datatype reference_status = RS_PENDING | RS_VERIFIED | RS_DECLINED | RS_UNABLE_TO_VERIFY

fun reference_status_value :: "reference_status \<Rightarrow> string" where
  "reference_status_value RS_PENDING = ''PENDING''"
| "reference_status_value RS_VERIFIED = ''VERIFIED''"
| "reference_status_value RS_DECLINED = ''DECLINED''"
| "reference_status_value RS_UNABLE_TO_VERIFY = ''UNABLE_TO_VERIFY''"

datatype investigation_status = IG_IN_PROGRESS | IG_COMPLETED | IG_FAILED | IG_CANCELLED

datatype rejection_category =
    INSUFFICIENT_REFERENCES | POOR_FINANCIAL_STANDING | INCOMPLETE_INFORMATION | POLICY_NON_COMPLIANCE | REJECTED_OTHER

fun rejection_category_value :: "rejection_category \<Rightarrow> string" where
  "rejection_category_value INSUFFICIENT_REFERENCES = ''INSUFFICIENT_REFERENCES''"
| "rejection_category_value POOR_FINANCIAL_STANDING = ''POOR_FINANCIAL_STANDING''"
| "rejection_category_value INCOMPLETE_INFORMATION = ''INCOMPLETE_INFORMATION''"
| "rejection_category_value POLICY_NON_COMPLIANCE = ''POLICY_NON_COMPLIANCE''"
| "rejection_category_value REJECTED_OTHER = ''OTHER''"

datatype application_frequency = AF_MONTHLY | AF_QUARTERLY | AF_ANNUALLY

fun application_frequency_value :: "application_frequency \<Rightarrow> string" where
  "application_frequency_value AF_MONTHLY = ''MONTHLY''"
| "application_frequency_value AF_QUARTERLY = ''QUARTERLY''"
| "application_frequency_value AF_ANNUALLY = ''ANNUALLY''"

type_synonym fields = "(string \<times> json) list"

type_synonym form = "string \<Rightarrow> json"

record org_credit_application = row +
  ap_organization_id :: string
  ap_number :: "string option"
  ap_state :: application_state
  ap_status :: application_status
  ap_form :: form
  ap_submitted_by :: "string option"
  ap_submitted_at :: "int option"
  ap_reviewer :: "string option"
  ap_reviewer_assigned_at :: "int option"
  ap_references_verified_at :: "int option"
  ap_credit_check_run_at :: "int option"
  ap_decided_at :: "int option"
  ap_approved_credit_limit :: "rat option"
  ap_approved_payment_terms :: "int option"
  ap_review_frequency :: "application_frequency option"
  ap_approval_notes :: "string option"
  ap_rejection :: "(rejection_category \<times> string) option"
  ap_cancellation_reason :: "string option"
  ap_approved :: "(int \<times> string) option"
  ap_rejected :: "(int \<times> string) option"
  ap_cancelled :: "(int \<times> string) option"
  ap_withdrawn :: "(int \<times> string) option"
  ap_deleted_at :: "int option"

record trade_reference =
  tr_id :: string
  tr_application_id :: string
  tr_index :: int
  tr_form :: form
  tr_status :: reference_status
  tr_verified :: "(int \<times> string) option"

record application_draft =
  dr_id :: string
  dr_application_id :: string
  dr_created_by :: "string option"
  dr_published_by :: "string option"

record bank_letter =
  bl_id :: string
  bl_application_id :: string
  bl_organization_id :: string
  bl_key :: string
  bl_filename :: string
  bl_uploaded_by :: string

record investigation =
  ig_id :: string
  ig_organization_id :: string
  ig_application_id :: "string option"
  ig_status :: investigation_status
  ig_reg_no :: "string option"
  ig_requested_at :: int
  ig_completed_at :: "int option"
  ig_connect_id :: "string option"

record cooldown_policy =
  cd_months :: int
  cd_days :: int
  cd_hours :: int

record application_db =
  ad_credit :: credit_state
  ad_apps :: "org_credit_application list"
  ad_refs :: "trade_reference list"
  ad_drafts :: "application_draft list"
  ad_letters :: "bank_letter list"
  ad_investigations :: "investigation list"
  ad_reports :: "(string \<times> fields) list"
  ad_org_cooldowns :: "(string \<times> cooldown_policy) list"
  ad_global_cooldown :: "(int option \<times> int option \<times> int option) option"
  ad_windows :: "(string \<times> int \<times> int) list"

datatype assessment =
    \<comment> \<open>what the provider answers: a report with its connection id, no such company, or any other failure\<close>
    Report string fields
  | NoCompany
  | ProviderFailure

subsection \<open>Forms\<close>

definition APPLICATION_COLUMNS :: "string list" where
  "APPLICATION_COLUMNS =
     [''company_registration_number'', ''vat_registration_number'', ''industry'', ''number_of_employees'',
      ''date_of_incorporation'', ''years_trading'', ''annual_turnover'', ''net_profit'', ''bank_name'', ''bank_sort_code'',
      ''bank_account_number_last4'', ''bank_account_type'', ''requested_credit_limit'', ''requested_payment_terms_days'',
      ''expected_monthly_spend'', ''seasonal_peaks'', ''justification'', ''director_signatory_name'',
      ''director_signatory_position'', ''declaration_date'', ''consent_credit_check'', ''consent_terms_and_conditions'',
      ''consent_data_processing'']"

definition CONSENT_COLUMNS :: "string list" where
  "CONSENT_COLUMNS = [''consent_credit_check'', ''consent_terms_and_conditions'', ''consent_data_processing'']"

definition REFERENCE_COLUMNS :: "string list" where
  "REFERENCE_COLUMNS =
     [''company_name'', ''contact_person'', ''contact_phone'', ''contact_email'', ''account_number_reference'',
      ''credit_limit_with_reference'', ''relationship_duration'']"

definition extract_application_fields :: "fields \<Rightarrow> fields" where
  "extract_application_fields data = filter (\<lambda>(k, _). k \<in> set APPLICATION_COLUMNS) data"

definition empty_form :: form where
  \<comment> \<open>the defaults of the columns\<close>
  "empty_form k = (if k \<in> set CONSENT_COLUMNS then JBool False else JNull)"

definition fill_form :: "fields \<Rightarrow> form \<Rightarrow> form" where
  "fill_form fs f k = (case map_of fs k of None \<Rightarrow> f k | Some v \<Rightarrow> v)"

definition fields_storable :: "fields \<Rightarrow> bool" where
  \<comment> \<open>the columns of the consents are not nullable\<close>
  "fields_storable fs \<longleftrightarrow> list_all (\<lambda>(k, v). k \<in> set CONSENT_COLUMNS \<longrightarrow> v \<noteq> JNull) fs"

fun json_text :: "json \<Rightarrow> string" where
  \<comment> \<open>\<^verbatim>\<open>value or ""\<close>\<close>
  "json_text (JStr s) = s"
| "json_text _ = ''''"

definition text_given :: "form \<Rightarrow> string \<Rightarrow> bool" where
  \<comment> \<open>at least one character after the schema has stripped the text\<close>
  "text_given f k \<longleftrightarrow> strip (json_text (f k)) \<noteq> ''''"

definition text_within :: "form \<Rightarrow> string \<Rightarrow> nat \<Rightarrow> bool" where
  "text_within f k n \<longleftrightarrow> text_given f k \<and> length (strip (json_text (f k))) \<le> n"

definition amount_positive :: "form \<Rightarrow> string \<Rightarrow> bool" where
  "amount_positive f k \<longleftrightarrow> (case f k of JDec d \<Rightarrow> 0 < d | _ \<Rightarrow> False)"

definition reference_complete :: "(string \<Rightarrow> bool) \<Rightarrow> form \<Rightarrow> bool" where
  \<comment> \<open>\<^verbatim>\<open>TradeReferenceSubmissionValidator\<close>\<close>
  "reference_complete email_ok f \<longleftrightarrow> text_within f ''company_name'' 255 \<and> text_within f ''contact_person'' 255
     \<and> text_within f ''contact_phone'' 40 \<and> email_ok (json_text (f ''contact_email''))
     \<and> f ''relationship_duration'' \<noteq> JNull"

definition form_complete :: "form \<Rightarrow> bool" where
  \<comment> \<open>the fields of \<^verbatim>\<open>CreditApplicationSubmissionValidator\<close> other than the references\<close>
  "form_complete f \<longleftrightarrow>
     list_all (text_given f) [''company_registration_number'', ''bank_name'', ''bank_sort_code'', ''bank_account_number_last4'',
       ''director_signatory_name'', ''director_signatory_position''] \<and>
     (case f ''years_trading'' of JInt n \<Rightarrow> 0 \<le> n | _ \<Rightarrow> False) \<and>
     list_all (amount_positive f) [''annual_turnover'', ''requested_credit_limit'', ''expected_monthly_spend''] \<and>
     (case f ''requested_payment_terms_days'' of JInt n \<Rightarrow> 1 \<le> n \<and> n \<le> 365 | _ \<Rightarrow> False) \<and>
     list_all (\<lambda>k. f k = JBool True) CONSENT_COLUMNS"

definition validate_for_submission :: "(string \<Rightarrow> bool) \<Rightarrow> form \<Rightarrow> trade_reference list \<Rightarrow> unit result" where
  \<comment> \<open>the list of the failed fields in the message is left out\<close>
  "validate_for_submission email_ok f refs =
     (if form_complete f \<and> 2 \<le> length refs \<and> list_all (\<lambda>r. reference_complete email_ok (tr_form r)) refs
      then Inr () else Inl (ValidationError ''Cannot submit application''))"

subsection \<open>Repositories\<close>

definition application_audit ::
    "request_info \<Rightarrow> auth_user \<Rightarrow> string \<Rightarrow> string \<Rightarrow> string \<Rightarrow> fields option \<Rightarrow> fields option \<Rightarrow> string \<Rightarrow> string \<Rightarrow> string
     \<Rightarrow> string \<Rightarrow> application_db \<Rightarrow> application_db" where
  "application_audit ri caller action etype eid old new reason org event severity st =
     st\<lparr>ad_credit := (ad_credit st)\<lparr>cr_audit := cr_audit (ad_credit st) @
       [\<lparr>ac_action = action, ac_entity_type = etype, ac_entity_id = Some eid, ac_entity_ref = None,
         ac_user_id = Some (au_id caller), ac_user_role = Some (au_role caller), ac_old_value = old, ac_new_value = new,
         ac_ip_address = ri_ip ri, ac_user_agent = ri_ua ri, ac_reason = Some reason, ac_organization_id = Some org,
         ac_category = ''CREDIT'', ac_event_type = event, ac_severity = severity, ac_session_id = None,
         ac_correlation_id = None\<rparr>]\<rparr>\<rparr>"

definition pad_left :: "nat \<Rightarrow> string \<Rightarrow> string" where
  "pad_left n s = replicate (n - length s) (CHR ''0'') @ s"

definition application_number :: "nat \<Rightarrow> nat \<Rightarrow> string" where
  "application_number y n = ''APP-'' @ nat_text y @ ''-'' @ pad_left 5 (nat_text n)"

definition get_active :: "string \<Rightarrow> string \<Rightarrow> application_db \<Rightarrow> org_credit_application option" where
  "get_active i org st = get_by_id i (\<lambda>a. ap_organization_id a = org \<and> ap_deleted_at a = None) (ad_apps st)"

definition get_active_or_404 :: "string \<Rightarrow> string \<Rightarrow> application_db \<Rightarrow> org_credit_application result" where
  "get_active_or_404 i org st =
     (case get_active i org st of None \<Rightarrow> Inl (NotFoundError ''org_credit_applications'' i) | Some a \<Rightarrow> Inr a)"

definition application_scope :: "string \<Rightarrow> org_credit_application \<Rightarrow> bool" where
  "application_scope org a \<longleftrightarrow> ap_organization_id a = org"

definition update_application ::
    "string \<Rightarrow> string \<Rightarrow> (org_credit_application \<Rightarrow> org_credit_application) \<Rightarrow> application_db
     \<Rightarrow> (application_db \<times> org_credit_application) result" where
  "update_application i org f st =
     bind_result (update_by_id ''org_credit_applications'' i f None (application_scope org) (ad_apps st)) (\<lambda>(apps, a).
     Inr (st\<lparr>ad_apps := apps\<rparr>, a))"

definition insert_application :: "org_credit_application \<Rightarrow> application_db \<Rightarrow> application_db result" where
  \<comment> \<open>primary key and unique application number\<close>
  "insert_application a st =
     (if ap_number a \<noteq> None \<and> ap_number a \<in> ap_number ` set (ad_apps st) then Inl (IntegrityError ''application_number'')
      else bind_result (create_row a (ad_apps st)) (\<lambda>apps. Inr (st\<lparr>ad_apps := apps\<rparr>)))"

definition list_by_application :: "string \<Rightarrow> application_db \<Rightarrow> trade_reference list" where
  "list_by_application i st = sort_key tr_index (filter (\<lambda>r. tr_application_id r = i) (ad_refs st))"

definition count_by_application :: "string \<Rightarrow> application_db \<Rightarrow> nat" where
  "count_by_application i st = length (filter (\<lambda>r. tr_application_id r = i) (ad_refs st))"

definition next_ref_index :: "string \<Rightarrow> application_db \<Rightarrow> int" where
  "next_ref_index i st = fold max (map tr_index (filter (\<lambda>r. tr_application_id r = i) (ad_refs st))) (-1) + 1"

definition reference_settled :: "trade_reference \<Rightarrow> bool" where
  "reference_settled r \<longleftrightarrow> tr_status r = RS_VERIFIED \<or> tr_status r = RS_UNABLE_TO_VERIFY"

definition count_unverified :: "string \<Rightarrow> application_db \<Rightarrow> nat" where
  "count_unverified i st = length (filter (\<lambda>r. tr_application_id r = i \<and> \<not> reference_settled r) (ad_refs st))"

definition get_reference_or_404 :: "string \<Rightarrow> string \<Rightarrow> application_db \<Rightarrow> trade_reference result" where
  "get_reference_or_404 rf i st =
     (case find (\<lambda>r. tr_id r = rf \<and> tr_application_id r = i) (ad_refs st) of
        None \<Rightarrow> Inl (NotFoundError ''org_credit_application_trade_references'' rf) | Some r \<Rightarrow> Inr r)"

definition insert_reference :: "trade_reference \<Rightarrow> application_db \<Rightarrow> application_db result" where
  "insert_reference r st =
     (if tr_id r \<in> tr_id ` set (ad_refs st) then Inl (IntegrityError ''primary key'')
      else Inr (st\<lparr>ad_refs := ad_refs st @ [r]\<rparr>))"

definition update_reference :: "string \<Rightarrow> (trade_reference \<Rightarrow> trade_reference) \<Rightarrow> application_db \<Rightarrow> application_db" where
  "update_reference rf f st = st\<lparr>ad_refs := map (\<lambda>r. if tr_id r = rf then f r else r) (ad_refs st)\<rparr>"

definition delete_all_for_application :: "string \<Rightarrow> application_db \<Rightarrow> application_db" where
  "delete_all_for_application i st = st\<lparr>ad_refs := filter (\<lambda>r. tr_application_id r \<noteq> i) (ad_refs st)\<rparr>"

definition get_active_for_application :: "string \<Rightarrow> string \<Rightarrow> application_db \<Rightarrow> investigation option" where
  \<comment> \<open>the most recent one\<close>
  "get_active_for_application org i st =
     (case sort_key (\<lambda>g. - ig_requested_at g) (filter (\<lambda>g. ig_organization_id g = org \<and> ig_application_id g = Some i
        \<and> ig_status g = IG_IN_PROGRESS) (ad_investigations st)) of
        [] \<Rightarrow> None | g # _ \<Rightarrow> Some g)"

definition insert_investigation :: "investigation \<Rightarrow> application_db \<Rightarrow> application_db result" where
  \<comment> \<open>primary key, and at most one investigation in progress per organisation\<close>
  "insert_investigation g st =
     (if ig_id g \<in> ig_id ` set (ad_investigations st) then Inl (IntegrityError ''primary key'')
      else if ig_status g = IG_IN_PROGRESS \<and> (\<exists>h \<in> set (ad_investigations st).
          ig_organization_id h = ig_organization_id g \<and> ig_status h = IG_IN_PROGRESS)
      then Inl (IntegrityError ''uq_org_credit_investigation_active_per_org'')
      else Inr (st\<lparr>ad_investigations := ad_investigations st @ [g]\<rparr>))"

definition update_investigation :: "string \<Rightarrow> (investigation \<Rightarrow> investigation) \<Rightarrow> application_db \<Rightarrow> application_db" where
  "update_investigation i f st =
     st\<lparr>ad_investigations := map (\<lambda>g. if ig_id g = i then f g else g) (ad_investigations st)\<rparr>"

definition upsert_report :: "string \<Rightarrow> fields \<Rightarrow> application_db \<Rightarrow> application_db" where
  "upsert_report org data st =
     (if org \<in> fst ` set (ad_reports st)
      then st\<lparr>ad_reports := map (\<lambda>(o', fs). if o' = org then (o', AList.merge fs data) else (o', fs)) (ad_reports st)\<rparr>
      else st\<lparr>ad_reports := ad_reports st @ [(org, data)]\<rparr>)"

subsection \<open>Drafts and publication\<close>

definition TERMINAL_STATUSES :: "application_status set" where
  "TERMINAL_STATUSES = {AS_APPROVED, AS_REJECTED, AS_WITHDRAWN, AS_CANCELLED}"

definition ensure_not_terminal :: "org_credit_application \<Rightarrow> unit result" where
  "ensure_not_terminal a =
     (if ap_status a \<in> TERMINAL_STATUSES then Inl (ValidationError ''This application is closed and cannot be changed.'')
      else Inr ())"

definition ensure_org_mutable_for_member :: "org_credit_application \<Rightarrow> unit result" where
  "ensure_org_mutable_for_member a =
     (if ap_state a \<noteq> LS_DRAFT
      then Inl (ForbiddenError ''Organisation users can only edit applications in draft status.'') else Inr ())"

definition new_application :: "string \<Rightarrow> string \<Rightarrow> application_state \<Rightarrow> fields \<Rightarrow> org_credit_application" where
  "new_application i org state fs =
     \<lparr>rid = i, version = 1, ap_organization_id = org, ap_number = None, ap_state = state, ap_status = AS_SUBMITTED,
      ap_form = fill_form fs empty_form, ap_submitted_by = None, ap_submitted_at = None, ap_reviewer = None,
      ap_reviewer_assigned_at = None, ap_references_verified_at = None, ap_credit_check_run_at = None, ap_decided_at = None,
      ap_approved_credit_limit = None, ap_approved_payment_terms = None, ap_review_frequency = None, ap_approval_notes = None,
      ap_rejection = None, ap_cancellation_reason = None, ap_approved = None, ap_rejected = None, ap_cancelled = None,
      ap_withdrawn = None, ap_deleted_at = None\<rparr>"

definition new_reference :: "string \<Rightarrow> string \<Rightarrow> int \<Rightarrow> fields \<Rightarrow> trade_reference" where
  "new_reference rf i idx fs =
     \<lparr>tr_id = rf, tr_application_id = i, tr_index = idx, tr_form = fill_form fs (\<lambda>_. JNull), tr_status = RS_PENDING,
      tr_verified = None\<rparr>"

fun insert_references :: "string \<Rightarrow> int \<Rightarrow> (string \<times> fields) list \<Rightarrow> application_db \<Rightarrow> application_db result" where
  "insert_references i idx [] st = Inr st"
| "insert_references i idx ((rf, fs) # inputs) st =
     bind_result (insert_reference (new_reference rf i idx fs) st) (insert_references i (idx + 1) inputs)"

definition sync_trade_references ::
    "string \<Rightarrow> (string \<times> fields) list option \<Rightarrow> application_db \<Rightarrow> (application_db \<times> trade_reference list) result" where
  "sync_trade_references i inputs st =
     (case inputs of
        None \<Rightarrow> Inr (st, list_by_application i st)
      | Some ins \<Rightarrow>
          bind_result (insert_references i 0 ins (delete_all_for_application i st)) (\<lambda>st'.
          Inr (st', list_by_application i st')))"

definition application_org_or_404 :: "string \<Rightarrow> application_db \<Rightarrow> unit result" where
  "application_org_or_404 org st = org_or_404 org (ad_credit st)"

definition create_application ::
    "request_info \<Rightarrow> (string \<Rightarrow> bool) \<Rightarrow> string \<Rightarrow> fields \<Rightarrow> (string \<times> fields) list option \<Rightarrow> auth_user \<Rightarrow> string \<Rightarrow> string
     \<Rightarrow> int \<Rightarrow> application_db \<Rightarrow> application_db result" where
  \<comment> \<open>the number is drawn from a sequence\<close>
  "create_application ri email_ok org data trs caller i number now st =
     bind_result (application_org_or_404 org st) (\<lambda>_.
     let fs = extract_application_fields data in
     if \<not> fields_storable fs then Inl (IntegrityError ''org_credit_applications'')
     else
       let a = (new_application i org LS_ACTIVE fs)\<lparr>ap_submitted_by := Some (au_id caller), ap_submitted_at := Some now,
                  ap_number := Some number\<rparr> in
       bind_result (insert_application a st) (\<lambda>st1.
       bind_result (sync_trade_references i trs st1) (\<lambda>(st2, refs).
       bind_result (validate_for_submission email_ok (ap_form a) refs) (\<lambda>_.
       Inr (application_audit ri caller ''org_credit_application.created'' ''org_credit_application'' i None
         (Some [(''organization_id'', JStr org), (''application_number'', JStr number)])
         (''Credit application '' @ number @ '' submitted'') org ''CREDIT_APPLICATION_SUBMITTED'' ''NOTICE'' st2)))))"

definition save_draft ::
    "request_info \<Rightarrow> string \<Rightarrow> auth_user \<Rightarrow> fields \<Rightarrow> (string \<times> fields) list option \<Rightarrow> string \<Rightarrow> string \<Rightarrow> string
     \<Rightarrow> application_db \<Rightarrow> application_db result" where
  \<comment> \<open>\<open>number\<close> is the draft number, which the database draws\<close>
  "save_draft ri org caller data trs i d number st =
     bind_result (application_org_or_404 org st) (\<lambda>_.
     let fs = extract_application_fields data in
     if \<not> fields_storable fs then Inl (IntegrityError ''org_credit_applications'')
     else
       bind_result (insert_application (new_application i org LS_DRAFT fs) st) (\<lambda>st1.
       bind_result (case trs of Some (t # ts) \<Rightarrow> sync_trade_references i trs st1 | _ \<Rightarrow> Inr (st1, [])) (\<lambda>(st2, _).
       if d \<in> dr_id ` set (ad_drafts st2) \<or> i \<in> dr_application_id ` set (ad_drafts st2)
       then Inl (IntegrityError ''org_credit_application_drafts'')
       else
         let st3 = st2\<lparr>ad_drafts := ad_drafts st2 @ [\<lparr>dr_id = d, dr_application_id = i, dr_created_by = Some (au_id caller),
                        dr_published_by = None\<rparr>]\<rparr> in
         Inr (application_audit ri caller ''org_credit_application.draft_saved'' ''org_credit_application_draft'' d None
           (Some [(''draft_number'', JStr number), (''application_id'', JStr i)])
           (''Saved credit application draft '' @ number) org ''CREDIT_APPLICATION_SUBMITTED'' ''INFO'' st3))))"

definition get_draft_or_404 :: "string \<Rightarrow> string \<Rightarrow> application_db \<Rightarrow> (application_draft \<times> org_credit_application) result" where
  \<comment> \<open>\<^verbatim>\<open>get_by_id_with_application_or_404\<close>; the foreign key leads to an application\<close>
  "get_draft_or_404 d org st =
     (case find (\<lambda>r. dr_id r = d) (ad_drafts st) of
        None \<Rightarrow> Inl (NotFoundError ''org_credit_application_drafts'' d)
      | Some r \<Rightarrow>
          (case get_by_id (dr_application_id r) (\<lambda>_. True) (ad_apps st) of
             None \<Rightarrow> Inl (NotFoundError ''org_credit_application_drafts'' d)
           | Some a \<Rightarrow>
               if ap_organization_id a \<noteq> org \<or> ap_deleted_at a \<noteq> None \<or> dr_published_by r \<noteq> None
               then Inl (NotFoundError ''org_credit_application_drafts'' d) else Inr (r, a)))"

definition check_open_draft :: "string \<Rightarrow> application_draft \<Rightarrow> org_credit_application \<Rightarrow> unit result" where
  "check_open_draft msg r a =
     (if ap_state a \<noteq> LS_DRAFT then Inl (ValidationError msg)
      else bind_result (ensure_org_mutable_for_member a) (\<lambda>_.
        if dr_published_by r \<noteq> None then Inl (ValidationError ''This draft has already been published.'') else Inr ()))"

definition store_fields :: "string \<Rightarrow> string \<Rightarrow> fields \<Rightarrow> org_credit_application \<Rightarrow> application_db
     \<Rightarrow> (application_db \<times> org_credit_application) result" where
  \<comment> \<open>\<^verbatim>\<open>if app_fields: update_by_id\<close>\<close>
  "store_fields i org fs a st =
     (if fs = [] then Inr (st, a)
      else if \<not> fields_storable fs then Inl (IntegrityError ''org_credit_applications'')
      else update_application i org (\<lambda>b. b\<lparr>ap_form := fill_form fs (ap_form b)\<rparr>) st)"

definition update_application_draft ::
    "request_info \<Rightarrow> string \<Rightarrow> string \<Rightarrow> auth_user \<Rightarrow> fields \<Rightarrow> (string \<times> fields) list option \<Rightarrow> application_db
     \<Rightarrow> application_db result" where
  "update_application_draft ri org d caller data trs st =
     bind_result (application_org_or_404 org st) (\<lambda>_.
     bind_result (get_draft_or_404 d org st) (\<lambda>(r, a).
     bind_result (check_open_draft ''Cannot update a draft that is no longer in draft status.'' r a) (\<lambda>_.
     let fs = extract_application_fields data in
     bind_result (store_fields (rid a) org fs a st) (\<lambda>(st1, a1).
     bind_result (case trs of None \<Rightarrow> Inr (st1, []) | Some _ \<Rightarrow> sync_trade_references (rid a) trs st1) (\<lambda>(st2, _).
     let st3 = (if fs = [] then st2
                else application_audit ri caller ''org_credit_application.draft_updated'' ''org_credit_application_draft'' d None
                  (Some fs) (''Updated '' @ nat_text (length fs) @ '' field(s) on credit application draft'') org
                  ''CREDIT_APPLICATION_SUBMITTED'' ''INFO'' st2) in
     bind_result (get_active_or_404 (rid a) org st3) (\<lambda>_. Inr st3))))))"

definition delete_application_draft :: "request_info \<Rightarrow> string \<Rightarrow> string \<Rightarrow> auth_user \<Rightarrow> string \<Rightarrow> application_db \<Rightarrow> application_db result" where
  \<comment> \<open>the rows that refer to the application go with it, an investigation loses its reference\<close>
  "delete_application_draft ri org d caller number st =
     bind_result (application_org_or_404 org st) (\<lambda>_.
     bind_result (get_draft_or_404 d org st) (\<lambda>(r, a).
     if ap_state a \<noteq> LS_DRAFT then Inl (ValidationError ''Cannot delete a draft that is no longer in draft status.'')
     else
       bind_result (ensure_org_mutable_for_member a) (\<lambda>_.
       bind_result (hard_delete ''org_credit_applications'' (rid a) (application_scope org) (ad_apps st)) (\<lambda>apps.
       let st1 = st\<lparr>ad_apps := apps,
             ad_refs := filter (\<lambda>t. tr_application_id t \<noteq> rid a) (ad_refs st),
             ad_drafts := filter (\<lambda>t. dr_application_id t \<noteq> rid a) (ad_drafts st),
             ad_letters := filter (\<lambda>t. bl_application_id t \<noteq> rid a) (ad_letters st),
             ad_investigations := map (\<lambda>g. if ig_application_id g = Some (rid a) then g\<lparr>ig_application_id := None\<rparr> else g)
               (ad_investigations st)\<rparr> in
       Inr (application_audit ri caller ''org_credit_application.draft_deleted'' ''org_credit_application_draft'' d
         (Some [(''application_id'', JStr (rid a)), (''draft_number'', JStr number)]) None
         (''Deleted credit application draft '' @ number) org ''CREDIT_APPLICATION_REJECTED'' ''NOTICE'' st1)))))"

definition publish_draft ::
    "request_info \<Rightarrow> (string \<Rightarrow> bool) \<Rightarrow> string \<Rightarrow> string \<Rightarrow> auth_user \<Rightarrow> fields \<Rightarrow> (string \<times> fields) list option \<Rightarrow> string
     \<Rightarrow> int \<Rightarrow> application_db \<Rightarrow> application_db result" where
  "publish_draft ri email_ok org d caller data trs number now st =
     bind_result (application_org_or_404 org st) (\<lambda>_.
     bind_result (get_draft_or_404 d org st) (\<lambda>(r, a).
     bind_result (check_open_draft ''Only draft applications can be published.'' r a) (\<lambda>_.
     bind_result (store_fields (rid a) org (extract_application_fields data) a st) (\<lambda>(st1, a1).
     bind_result (sync_trade_references (rid a) trs st1) (\<lambda>(st2, refs).
     bind_result (validate_for_submission email_ok (ap_form a1) refs) (\<lambda>_.
     if Some number \<in> ap_number ` set (ad_apps st2) then Inl (IntegrityError ''application_number'')
     else
       bind_result (update_application (rid a) org (\<lambda>b. b\<lparr>ap_number := Some number, ap_status := AS_SUBMITTED,
           ap_state := LS_ACTIVE, ap_submitted_at := Some now, ap_submitted_by := Some (au_id caller)\<rparr>) st2) (\<lambda>(st3, _).
       let st4 = st3\<lparr>ad_drafts := map (\<lambda>t. if dr_id t = d then t\<lparr>dr_published_by := Some (au_id caller)\<rparr> else t) (ad_drafts st3)\<rparr>;
           st5 = application_audit ri caller ''org_credit_application.draft_published'' ''org_credit_application'' (rid a) None
             (Some [(''draft_id'', JStr d), (''application_number'', JStr number)])
             (''Published draft as credit application '' @ number) org ''CREDIT_APPLICATION_SUBMITTED'' ''NOTICE'' st4 in
       bind_result (get_active_or_404 (rid a) org st5) (\<lambda>_. Inr st5))))))))"

subsection \<open>Review\<close>

definition open_application :: "string \<Rightarrow> string \<Rightarrow> application_db \<Rightarrow> org_credit_application result" where
  \<comment> \<open>how every operation of the review begins\<close>
  "open_application org i st =
     bind_result (application_org_or_404 org st) (\<lambda>_.
     bind_result (get_active_or_404 i org st) (\<lambda>a.
     bind_result (ensure_not_terminal a) (\<lambda>_. Inr a)))"

definition edit_section ::
    "request_info \<Rightarrow> string \<Rightarrow> string \<Rightarrow> auth_user \<Rightarrow> fields \<Rightarrow> string \<Rightarrow> application_db \<Rightarrow> application_db result" where
  "edit_section ri org i caller updates section st =
     bind_result (open_application org i st) (\<lambda>a.
     let fs = extract_application_fields updates in
     if fs = [] then Inr st
     else
       bind_result (store_fields i org fs a st) (\<lambda>(st1, _).
       Inr (application_audit ri caller (''org_credit_application.'' @ section @ ''_edited'') ''org_credit_application'' i None
         (Some fs) (''Edited '' @ [CHR 0x27] @ section @ [CHR 0x27] @ '' section ('' @ nat_text (length fs) @ '' field(s))'') org
         ''CREDIT_APPLICATION_SUBMITTED'' ''INFO'' st1)))"

definition MAX_TRADE_REFERENCES :: nat where "MAX_TRADE_REFERENCES = 5"

definition add_trade_reference ::
    "request_info \<Rightarrow> string \<Rightarrow> string \<Rightarrow> auth_user \<Rightarrow> fields \<Rightarrow> string \<Rightarrow> application_db \<Rightarrow> application_db result" where
  "add_trade_reference ri org i caller data rf st =
     bind_result (open_application org i st) (\<lambda>_.
     if MAX_TRADE_REFERENCES \<le> count_by_application i st
     then Inl (ValidationError ''Maximum 5 trade references allowed.'')
     else
       let idx = next_ref_index i st in
       bind_result (insert_reference (new_reference rf i idx data) st) (\<lambda>st1.
       Inr (application_audit ri caller ''org_credit_application.trade_reference_added'' ''org_credit_application'' i None
         (Some [(''ref_index'', JInt idx)]) (''Added trade reference #'' @ nat_text (nat idx)) org
         ''CREDIT_APPLICATION_SUBMITTED'' ''INFO'' st1)))"

definition update_trade_reference :: "string \<Rightarrow> string \<Rightarrow> string \<Rightarrow> fields \<Rightarrow> application_db \<Rightarrow> application_db result" where
  \<comment> \<open>the schema of the route admits the columns of \<open>REFERENCE_COLUMNS\<close> only\<close>
  "update_trade_reference org i rf updates st =
     bind_result (open_application org i st) (\<lambda>_.
     bind_result (get_reference_or_404 rf i st) (\<lambda>_.
     let fs = filter (\<lambda>(k, _). k \<in> set REFERENCE_COLUMNS) updates in
     Inr (if fs = [] then st else update_reference rf (\<lambda>r. r\<lparr>tr_form := fill_form fs (tr_form r)\<rparr>) st)))"

definition verify_trade_reference ::
    "request_info \<Rightarrow> string \<Rightarrow> string \<Rightarrow> string \<Rightarrow> auth_user \<Rightarrow> reference_status \<Rightarrow> int \<Rightarrow> application_db
     \<Rightarrow> application_db result" where
  "verify_trade_reference ri org i rf caller s now st =
     bind_result (open_application org i st) (\<lambda>a.
     if ap_status a \<notin> {AS_REVIEWER_ASSIGNED, AS_REFERENCES_VERIFIED, AS_CHECK_FAILED, AS_CHECK_COMPLETED, AS_READY}
     then Inl (ValidationError ''Trade references can only be verified during review.'')
     else
       bind_result (get_reference_or_404 rf i st) (\<lambda>_.
       let st1 = update_reference rf (\<lambda>r. (if s = RS_PENDING then r else r\<lparr>tr_verified := Some (now, au_id caller)\<rparr>)
                   \<lparr>tr_status := s\<rparr>) st in
       bind_result
         (if count_unverified i st1 = 0
          then bind_result (update_application i org
                 (\<lambda>b. b\<lparr>ap_references_verified_at := Some now, ap_status := AS_REFERENCES_VERIFIED\<rparr>) st1) (\<lambda>(st2, _). Inr st2)
          else Inr st1) (\<lambda>st2.
       Inr (application_audit ri caller ''org_credit_application.trade_reference_verified'' ''org_credit_application'' i None
         (Some [(''ref_id'', JStr rf), (''status'', JStr (reference_status_value s))])
         (''Trade reference verification set to '' @ reference_status_value s) org
         ''CREDIT_APPLICATION_SUBMITTED'' ''INFO'' st2))))"

definition assign_reviewer ::
    "request_info \<Rightarrow> string \<Rightarrow> string \<Rightarrow> auth_user \<Rightarrow> string \<Rightarrow> int \<Rightarrow> application_db \<Rightarrow> application_db result" where
  "assign_reviewer ri org i caller reviewer now st =
     bind_result (open_application org i st) (\<lambda>a.
     if ap_status a \<notin> {AS_SUBMITTED, AS_REVIEWER_ASSIGNED, AS_REFERENCES_VERIFIED, AS_CHECK_COMPLETED, AS_CHECK_FAILED, AS_READY}
     then Inl (ValidationError ''Reviewer can only be assigned while the application is in progress.'')
     else
       bind_result (update_application i org (\<lambda>b. b\<lparr>ap_reviewer := Some reviewer, ap_status := AS_REVIEWER_ASSIGNED,
         ap_reviewer_assigned_at := Some now\<rparr>) st) (\<lambda>(st1, _).
       Inr (application_audit ri caller ''org_credit_application.assign_reviewer'' ''org_credit_application'' i None
         (Some [(''reviewer_user_id'', JStr reviewer)]) ''Assigned reviewer to credit application'' org
         ''CREDIT_APPLICATION_ASSIGNED'' ''NOTICE'' st1)))"

subsection \<open>The credit check\<close>

definition set_check_status :: "string \<Rightarrow> string \<Rightarrow> application_status \<Rightarrow> int \<Rightarrow> application_db \<Rightarrow> application_db result" where
  "set_check_status i org s now st =
     bind_result (update_application i org (\<lambda>b. b\<lparr>ap_status := s, ap_credit_check_run_at := Some now\<rparr>) st) (\<lambda>(st1, _). Inr st1)"

definition check_audit ::
    "request_info \<Rightarrow> auth_user \<Rightarrow> string \<Rightarrow> string \<Rightarrow> application_status \<Rightarrow> string option \<Rightarrow> string \<Rightarrow> string \<Rightarrow> string
     \<Rightarrow> application_db \<Rightarrow> application_db" where
  "check_audit ri caller action i s ig reason org severity =
     application_audit ri caller action ''org_credit_application'' i None
       (Some ((''status'', JStr (application_status_value s)) #
          (case ig of None \<Rightarrow> [] | Some g \<Rightarrow> [(''investigation_id'', JStr g)]))) reason org ''CREDIT_SCORE_RECALCULATED'' severity"

definition open_fresh_investigation ::
    "string \<Rightarrow> string \<Rightarrow> string option \<Rightarrow> bool \<Rightarrow> string \<Rightarrow> int \<Rightarrow> application_db \<Rightarrow> (application_db \<times> investigation) result" where
  \<comment> \<open>\<open>ordered\<close>: the provider accepts the order of an investigation\<close>
  "open_fresh_investigation org i reg_no ordered ig now st =
     (case get_active_for_application org i st of
        Some g \<Rightarrow> Inr (st, g)
      | None \<Rightarrow>
          if \<not> ordered then Inl (ValidationError ''Creditsafe fresh investigation request failed.'')
          else
            let g = \<lparr>ig_id = ig, ig_organization_id = org, ig_application_id = Some i, ig_status = IG_IN_PROGRESS,
                     ig_reg_no = reg_no, ig_requested_at = now, ig_completed_at = None, ig_connect_id = None\<rparr> in
            bind_result (insert_investigation g st) (\<lambda>st1. Inr (st1, g)))"

definition registration_number :: "org_credit_application \<Rightarrow> string option" where
  "registration_number a = (case ap_form a ''company_registration_number'' of JStr s \<Rightarrow> Some s | _ \<Rightarrow> None)"

definition run_credit_check ::
    "request_info \<Rightarrow> string \<Rightarrow> string \<Rightarrow> auth_user \<Rightarrow> (string option \<Rightarrow> assessment) \<Rightarrow> bool \<Rightarrow> string \<Rightarrow> int \<Rightarrow> application_db
     \<Rightarrow> application_db result" where
  "run_credit_check ri org i caller assess ordered ig now st =
     bind_result (open_application org i st) (\<lambda>a.
     if ap_status a \<notin> {AS_REVIEWER_ASSIGNED, AS_REFERENCES_VERIFIED, AS_CHECK_FAILED}
     then Inl (ValidationError ''Credit check can only run while the application is under review.'')
     else
       let reg_no = registration_number a in
       case assess reg_no of
         NoCompany \<Rightarrow>
           bind_result (open_fresh_investigation org i reg_no ordered ig now st) (\<lambda>(st1, g).
           bind_result (set_check_status i org AS_INVESTIGATION now st1) (\<lambda>st2.
           Inr (check_audit ri caller ''org_credit_application.credit_check_investigation_opened'' i AS_INVESTIGATION
             (Some (ig_id g)) (''Opened fresh Creditsafe investigation for '' @ str_or reg_no ''company'') org ''NOTICE'' st2)))
       | ProviderFailure \<Rightarrow>
           bind_result (set_check_status i org AS_CHECK_FAILED now st) (\<lambda>st1.
           Inr (check_audit ri caller ''org_credit_application.credit_check_failed'' i AS_CHECK_FAILED None
             ''Creditsafe credit check failed'' org ''WARNING'' st1))
       | Report connect data \<Rightarrow>
           bind_result (set_check_status i org AS_CHECK_COMPLETED now (upsert_report org data st)) (\<lambda>st1.
           Inr (check_audit ri caller ''org_credit_application.credit_check_completed'' i AS_CHECK_COMPLETED None
             ''Creditsafe credit check completed'' org ''NOTICE'' st1)))"

definition refresh_credit_check ::
    "request_info \<Rightarrow> string \<Rightarrow> string \<Rightarrow> auth_user \<Rightarrow> (string option \<Rightarrow> assessment) \<Rightarrow> int \<Rightarrow> application_db
     \<Rightarrow> application_db result" where
  "refresh_credit_check ri org i caller assess now st =
     bind_result (open_application org i st) (\<lambda>a.
     if ap_status a \<noteq> AS_INVESTIGATION
     then Inl (ValidationError ''Credit check refresh is only available while an investigation is in progress.'')
     else
       case get_active_for_application org i st of
         None \<Rightarrow> Inl (NotFoundError ''org_credit_investigation'' i)
       | Some g \<Rightarrow>
           (case assess (if truthy_str (ig_reg_no g) then ig_reg_no g else registration_number a) of
              NoCompany \<Rightarrow> Inr st
            | ProviderFailure \<Rightarrow>
                bind_result (set_check_status i org AS_CHECK_FAILED now
                  (update_investigation (ig_id g) (\<lambda>h. h\<lparr>ig_status := IG_FAILED, ig_completed_at := Some now\<rparr>) st)) (\<lambda>st1.
                Inr (check_audit ri caller ''org_credit_application.credit_check_refresh_failed'' i AS_CHECK_FAILED
                  (Some (ig_id g)) ''Creditsafe investigation refresh failed'' org ''WARNING'' st1))
            | Report connect data \<Rightarrow>
                bind_result (set_check_status i org AS_CHECK_COMPLETED now
                  (update_investigation (ig_id g)
                    (\<lambda>h. h\<lparr>ig_status := IG_COMPLETED, ig_completed_at := Some now, ig_connect_id := Some connect\<rparr>)
                    (upsert_report org data st))) (\<lambda>st1.
                Inr (check_audit ri caller ''org_credit_application.credit_check_investigation_completed'' i AS_CHECK_COMPLETED
                  (Some (ig_id g)) ''Creditsafe investigation completed and report retrieved'' org ''NOTICE'' st1))))"

definition mark_ready_for_decision :: "string \<Rightarrow> string \<Rightarrow> application_db \<Rightarrow> application_db result" where
  "mark_ready_for_decision org i st =
     bind_result (open_application org i st) (\<lambda>a.
     if ap_status a \<notin> {AS_REVIEWER_ASSIGNED, AS_REFERENCES_VERIFIED, AS_CHECK_COMPLETED, AS_CHECK_FAILED}
     then Inl (ValidationError ''Application is not ready for this transition.'')
     else if ap_status a \<noteq> AS_CHECK_COMPLETED then Inl (ValidationError ''Credit assessment must be completed first.'')
     else if 0 < count_unverified i st then Inl (ValidationError ''All trade references must be verified first.'')
     else bind_result (update_application i org (\<lambda>b. b\<lparr>ap_status := AS_READY\<rparr>) st) (\<lambda>(st1, _). Inr st1))"

subsection \<open>Cool-down after a rejection\<close>

definition DEFAULT_COOLDOWN :: cooldown_policy where
  "DEFAULT_COOLDOWN = \<lparr>cd_months = 3, cd_days = 0, cd_hours = 0\<rparr>"

definition resolve_cooldown_for_org :: "string \<Rightarrow> application_db \<Rightarrow> cooldown_policy" where
  "resolve_cooldown_for_org org st =
     (case map_of (ad_org_cooldowns st) org of
        Some p \<Rightarrow> p
      | None \<Rightarrow>
          (case ad_global_cooldown st of
             Some (m, d, h) \<Rightarrow>
               if m \<noteq> None \<or> d \<noteq> None \<or> h \<noteq> None
               then \<lparr>cd_months = (case m of None \<Rightarrow> 0 | Some x \<Rightarrow> x), cd_days = (case d of None \<Rightarrow> 0 | Some x \<Rightarrow> x),
                     cd_hours = (case h of None \<Rightarrow> 0 | Some x \<Rightarrow> x)\<rparr>
               else DEFAULT_COOLDOWN
           | None \<Rightarrow> DEFAULT_COOLDOWN))"

definition epoch_date :: "int \<Rightarrow> date" where
  "epoch_date t = add_days (Date 1970 1 1) (t div 86400)"

definition ends_at_after_duration :: "int \<Rightarrow> cooldown_policy \<Rightarrow> int" where
  "ends_at_after_duration start p =
     (let d = epoch_date start;
          m = month d + cd_months p;
          y = year d + (m - 1) div 12;
          m' = (m - 1) mod 12 + 1;
          d' = Date y m' (min (day d) (days_in_month y m'))
      in start + days_between d d' * 86400 + cd_days p * 86400 + cd_hours p * 3600)"

definition start_cooldown_window :: "string \<Rightarrow> int \<Rightarrow> application_db \<Rightarrow> application_db result" where
  "start_cooldown_window org now st =
     bind_result (application_org_or_404 org st) (\<lambda>_.
     let p = resolve_cooldown_for_org org st in
     if cd_months p = 0 \<and> cd_days p = 0 \<and> cd_hours p = 0
     then Inl (ValidationError ''Resolved cool-down duration is zero; cannot start a window.'')
     else Inr (st\<lparr>ad_windows := filter (\<lambda>(o', _). o' \<noteq> org) (ad_windows st) @ [(org, now, ends_at_after_duration now p)]\<rparr>))"

subsection \<open>Decisions\<close>

definition decide :: "application_status \<Rightarrow> int \<Rightarrow> org_credit_application \<Rightarrow> org_credit_application" where
  "decide s now a = a\<lparr>ap_status := s, ap_decided_at := Some now\<rparr>"

definition approve_application ::
    "request_info \<Rightarrow> string \<Rightarrow> string \<Rightarrow> auth_user \<Rightarrow> rat \<Rightarrow> int \<Rightarrow> application_frequency option \<Rightarrow> string option \<Rightarrow> string
     \<Rightarrow> int \<Rightarrow> application_db \<Rightarrow> application_db result" where
  "approve_application ri org i caller limit terms freq notes acct now st =
     bind_result (open_application org i st) (\<lambda>a.
     if ap_status a \<notin> {AS_READY, AS_CHECK_COMPLETED}
     then Inl (ValidationError ''Application is not in a state that allows approval.'')
     else
       bind_result (update_application i org (\<lambda>b. (decide AS_APPROVED now b)\<lparr>ap_approved_credit_limit := Some limit,
           ap_approved_payment_terms := Some terms, ap_approved := Some (now, au_id caller),
           ap_review_frequency := (case freq of None \<Rightarrow> ap_review_frequency b | Some f \<Rightarrow> Some f),
           ap_approval_notes := (case notes of None \<Rightarrow> ap_approval_notes b | Some n \<Rightarrow> Some n)\<rparr>) st) (\<lambda>(st1, _).
       bind_result (provision_account_on_approval ri org caller i limit terms (map_option application_frequency_value freq)
           acct now (ad_credit st1)) (\<lambda>(credit, _).
       Inr (application_audit ri caller ''org_credit_application.approved'' ''org_credit_application'' i None
         (Some [(''status'', JStr ''APPROVED''), (''approved_credit_limit'', JDec limit),
                (''approved_payment_terms_days'', JInt terms)])
         (str_or notes (''Credit application approved with limit '' @ decimal_text limit)) org
         ''CREDIT_APPLICATION_APPROVED'' ''NOTICE'' (st1\<lparr>ad_credit := credit\<rparr>)))))"

definition reject_application ::
    "request_info \<Rightarrow> string \<Rightarrow> string \<Rightarrow> auth_user \<Rightarrow> rejection_category \<Rightarrow> string \<Rightarrow> int \<Rightarrow> application_db
     \<Rightarrow> application_db result" where
  \<comment> \<open>a \<^verbatim>\<open>ValidationError\<close> of the cool-down is logged and dropped\<close>
  "reject_application ri org i caller category reason now st =
     bind_result (open_application org i st) (\<lambda>a.
     if ap_status a \<notin> {AS_REVIEWER_ASSIGNED, AS_REFERENCES_VERIFIED, AS_CHECK_COMPLETED, AS_CHECK_FAILED, AS_READY}
     then Inl (ValidationError ''Application is not in a state that allows rejection.'')
     else
       bind_result (update_application i org (\<lambda>b. (decide AS_REJECTED now b)\<lparr>ap_rejection := Some (category, reason),
           ap_rejected := Some (now, au_id caller)\<rparr>) st) (\<lambda>(st1, _).
       let st2 = application_audit ri caller ''org_credit_application.rejected'' ''org_credit_application'' i None
             (Some [(''status'', JStr ''REJECTED''), (''rejection_category'', JStr (rejection_category_value category))])
             (str_or (Some reason) ''Credit application rejected'') org ''CREDIT_APPLICATION_REJECTED'' ''WARNING'' st1 in
       (case start_cooldown_window org now st2 of
          Inl (ValidationError _) \<Rightarrow> Inr st2
        | r \<Rightarrow> r)))"

definition cancel_application ::
    "request_info \<Rightarrow> string \<Rightarrow> string \<Rightarrow> auth_user \<Rightarrow> string \<Rightarrow> int \<Rightarrow> application_db \<Rightarrow> application_db result" where
  "cancel_application ri org i caller reason now st =
     bind_result (open_application org i st) (\<lambda>_.
     bind_result (update_application i org (\<lambda>b. (decide AS_CANCELLED now b)\<lparr>ap_cancellation_reason := Some reason,
         ap_cancelled := Some (now, au_id caller)\<rparr>) st) (\<lambda>(st1, _).
     Inr (application_audit ri caller ''org_credit_application.cancelled'' ''org_credit_application'' i None
       (Some [(''status'', JStr ''CANCELLED'')]) (str_or (Some reason) ''Credit application cancelled'') org
       ''CREDIT_APPLICATION_REJECTED'' ''NOTICE'' st1)))"

definition withdraw_application ::
    "request_info \<Rightarrow> string \<Rightarrow> string \<Rightarrow> auth_user \<Rightarrow> int \<Rightarrow> application_db \<Rightarrow> application_db result" where
  "withdraw_application ri org i caller now st =
     bind_result (open_application org i st) (\<lambda>a.
     if ap_status a \<noteq> AS_SUBMITTED
     then Inl (ValidationError ''Withdraw is only allowed for draft or submitted applications.'')
     else
       bind_result (update_application i org (\<lambda>b. b\<lparr>ap_status := AS_WITHDRAWN, ap_state := LS_ACTIVE,
           ap_withdrawn := Some (now, au_id caller)\<rparr>) st) (\<lambda>(st1, _).
       Inr (application_audit ri caller ''org_credit_application.withdrawn'' ''org_credit_application'' i None
         (Some [(''status'', JStr ''WITHDRAWN'')]) ''Credit application withdrawn by client'' org
         ''CREDIT_APPLICATION_REJECTED'' ''NOTICE'' st1)))"

definition delete_application ::
    "request_info \<Rightarrow> string \<Rightarrow> string \<Rightarrow> auth_user \<Rightarrow> int \<Rightarrow> application_db \<Rightarrow> application_db result" where
  "delete_application ri org i caller now st =
     bind_result (application_org_or_404 org st) (\<lambda>_.
     bind_result (get_active_or_404 i org st) (\<lambda>a.
     if ap_state a \<noteq> LS_DRAFT \<and> ap_status a \<noteq> AS_WITHDRAWN \<and> au_role caller \<noteq> ''ADMIN'' \<and> au_role caller \<noteq> ''SUPER_ADMIN''
     then Inl (ForbiddenError ''Organisation users can only delete draft or withdrawn applications.'')
     else
       bind_result (update_application i org (\<lambda>b. b\<lparr>ap_deleted_at := Some now\<rparr>) st) (\<lambda>(st1, _).
       Inr (application_audit ri caller ''org_credit_application.deleted'' ''org_credit_application'' i
         (Some [(''organization_id'', JStr org), (''status'', JStr (application_status_value (ap_status a)))]) None
         ''Credit application deleted'' org ''CREDIT_APPLICATION_REJECTED'' ''WARNING'' st1))))"

subsection \<open>The letter of the bank\<close>

definition handle_letter_upload ::
    "string \<Rightarrow> string \<Rightarrow> auth_user \<Rightarrow> string \<Rightarrow> string \<Rightarrow> string \<Rightarrow> bool \<Rightarrow> application_db \<Rightarrow> application_db \<times> bool" where
  \<comment> \<open>\<open>stored\<close>: the upload to the storage succeeds; a failure of any kind is reported and not raised\<close>
  "handle_letter_upload org i caller bl key filename stored st =
     (if \<not> stored \<or> bl \<in> bl_id ` set (ad_letters st) then (st, False)
      else (st\<lparr>ad_letters := ad_letters st @ [\<lparr>bl_id = bl, bl_application_id = i, bl_organization_id = org, bl_key = key,
              bl_filename = filename, bl_uploaded_by = au_id caller\<rparr>]\<rparr>, True))"

definition delete_bank_reference_letter :: "string \<Rightarrow> string \<Rightarrow> string \<Rightarrow> application_db \<Rightarrow> application_db result" where
  "delete_bank_reference_letter org i bl st =
     bind_result (get_active_or_404 i org st) (\<lambda>a.
     bind_result (ensure_org_mutable_for_member a) (\<lambda>_.
     bind_result (ensure_not_terminal a) (\<lambda>_.
     case find (\<lambda>l. bl_id l = bl \<and> bl_organization_id l = org) (ad_letters st) of
       None \<Rightarrow> Inl (NotFoundError ''org_credit_application_attachments'' bl)
     | Some l \<Rightarrow>
         if bl_application_id l \<noteq> i then Inl (NotFoundError ''org_credit_application_attachments'' bl)
         else Inr (st\<lparr>ad_letters := filter (\<lambda>l. bl_id l \<noteq> bl) (ad_letters st)\<rparr>))))"

subsection \<open>Reading the tables after a step\<close>

lemma audit_frame [simp]:
  "ad_apps (application_audit ri c act et e x y r org ev sv st) = ad_apps st"
  "ad_refs (application_audit ri c act et e x y r org ev sv st) = ad_refs st"
  "ad_drafts (application_audit ri c act et e x y r org ev sv st) = ad_drafts st"
  "ad_investigations (application_audit ri c act et e x y r org ev sv st) = ad_investigations st"
  "cr_orgs (ad_credit (application_audit ri c act et e x y r org ev sv st)) = cr_orgs (ad_credit st)"
  "cr_accounts (ad_credit (application_audit ri c act et e x y r org ev sv st)) = cr_accounts (ad_credit st)"
  "cr_ledger (ad_credit (application_audit ri c act et e x y r org ev sv st)) = cr_ledger (ad_credit st)"
  "cr_history (ad_credit (application_audit ri c act et e x y r org ev sv st)) = cr_history (ad_credit st)"
  by (simp_all add: application_audit_def)

lemma reference_frame [simp]:
  "ad_apps (update_reference rf f st) = ad_apps st" "ad_apps (delete_all_for_application i st) = ad_apps st"
  "ad_investigations (update_reference rf f st) = ad_investigations st"
  "ad_investigations (delete_all_for_application i st) = ad_investigations st"
  "ad_credit (update_reference rf f st) = ad_credit st" "ad_credit (delete_all_for_application i st) = ad_credit st"
  "ad_drafts (update_reference rf f st) = ad_drafts st" "ad_drafts (delete_all_for_application i st) = ad_drafts st"
  by (simp_all add: update_reference_def delete_all_for_application_def)

lemma check_frame [simp]:
  "ad_apps (upsert_report org d st) = ad_apps st" "ad_investigations (upsert_report org d st) = ad_investigations st"
  "ad_refs (upsert_report org d st) = ad_refs st" "ad_credit (upsert_report org d st) = ad_credit st"
  "ad_apps (update_investigation g f st) = ad_apps st" "ad_refs (update_investigation g f st) = ad_refs st"
  "ad_credit (update_investigation g f st) = ad_credit st"
  "ad_drafts (upsert_report org d st) = ad_drafts st" "ad_drafts (update_investigation g f st) = ad_drafts st"
  by (simp_all add: upsert_report_def update_investigation_def)

definition put_row :: "string \<Rightarrow> string \<Rightarrow> (org_credit_application \<Rightarrow> org_credit_application) \<Rightarrow> org_credit_application list \<Rightarrow> org_credit_application list" where
  "put_row i org f apps = map (\<lambda>a. if rid a = i \<and> application_scope org a then write_row f a else a) apps"

lemma update_application_Inr:
  "update_application i org f st = Inr (st', b) \<longleftrightarrow>
     (\<exists>a. get_by_id i (application_scope org) (ad_apps st) = Some a \<and> b = write_row f a \<and>
        st' = st\<lparr>ad_apps := put_row i org f (ad_apps st)\<rparr>)"
  by (auto simp: update_application_def update_by_id_def put_row_def)

lemma get_active_Some:
  "get_active i org st = Some a \<Longrightarrow> a \<in> set (ad_apps st) \<and> rid a = i \<and> ap_organization_id a = org \<and> ap_deleted_at a = None"
  unfolding get_active_def by (drule get_by_id_Some) simp

lemma get_active_or_404_Inr [simp]: "get_active_or_404 i org st = Inr a \<longleftrightarrow> get_active i org st = Some a"
  by (simp add: get_active_or_404_def split: option.splits)

lemma open_application_Inr [simp]:
  "open_application org i st = Inr a \<longleftrightarrow>
     org \<in> set (cr_orgs (ad_credit st)) \<and> get_active i org st = Some a \<and> ap_status a \<notin> TERMINAL_STATUSES"
  by (auto simp: open_application_def application_org_or_404_def org_or_404_def ensure_not_terminal_def)

lemma application_org_Inr [simp]: "application_org_or_404 org st = Inr u \<longleftrightarrow> org \<in> set (cr_orgs (ad_credit st))"
  by (simp add: application_org_or_404_def org_or_404_def)

subsection \<open>What may happen to the table of applications\<close>

definition review_move :: "application_status \<Rightarrow> application_status \<Rightarrow> bool" where
  \<comment> \<open>the specification of the review\<close>
  "review_move s t \<longleftrightarrow>
     t = AS_REVIEWER_ASSIGNED \<and> s \<in> {AS_SUBMITTED, AS_REFERENCES_VERIFIED, AS_CHECK_COMPLETED, AS_CHECK_FAILED, AS_READY} \<or>
     t = AS_REFERENCES_VERIFIED \<and> s \<in> {AS_REVIEWER_ASSIGNED, AS_CHECK_FAILED, AS_CHECK_COMPLETED, AS_READY} \<or>
     t \<in> {AS_CHECK_COMPLETED, AS_CHECK_FAILED, AS_INVESTIGATION} \<and> s \<in> {AS_REVIEWER_ASSIGNED, AS_REFERENCES_VERIFIED, AS_CHECK_FAILED} \<or>
     t \<in> {AS_CHECK_COMPLETED, AS_CHECK_FAILED} \<and> s = AS_INVESTIGATION \<or>
     t = AS_READY \<and> s = AS_CHECK_COMPLETED \<or>
     t = AS_APPROVED \<and> s \<in> {AS_READY, AS_CHECK_COMPLETED} \<or>
     t = AS_REJECTED \<and> s \<in> {AS_REVIEWER_ASSIGNED, AS_REFERENCES_VERIFIED, AS_CHECK_COMPLETED, AS_CHECK_FAILED, AS_READY} \<or>
     t = AS_WITHDRAWN \<and> s = AS_SUBMITTED \<or>
     t = AS_CANCELLED \<and> s \<notin> TERMINAL_STATUSES"

definition lifecycle_move :: "application_state \<times> application_status \<Rightarrow> application_state \<times> application_status \<Rightarrow> bool" where
  "lifecycle_move p q \<longleftrightarrow>
     fst p = fst q \<and> (snd p = snd q \<or> review_move (snd p) (snd q)) \<or>
     p = (LS_DRAFT, AS_SUBMITTED) \<and> q = (LS_ACTIVE, AS_WITHDRAWN) \<or>
     fst p = LS_DRAFT \<and> q = (LS_ACTIVE, AS_SUBMITTED)"

definition stage :: "org_credit_application \<Rightarrow> application_state \<times> application_status" where
  "stage a = (ap_state a, ap_status a)"

definition final :: "org_credit_application \<Rightarrow> bool" where
  "final a \<longleftrightarrow> ap_state a = LS_ACTIVE \<and> ap_status a \<in> TERMINAL_STATUSES"

definition same_but_deletion :: "org_credit_application \<Rightarrow> org_credit_application \<Rightarrow> bool" where
  "same_but_deletion a b \<longleftrightarrow> b\<lparr>version := version a, ap_deleted_at := ap_deleted_at a\<rparr> = a"

definition stamped :: "org_credit_application \<Rightarrow> bool" where
  \<comment> \<open>a decision carries its time, its author and its terms; what is active was submitted or withdrawn\<close>
  "stamped a \<longleftrightarrow>
     (ap_status a = AS_APPROVED \<longrightarrow> ap_approved a \<noteq> None \<and> ap_approved_credit_limit a \<noteq> None
        \<and> ap_approved_payment_terms a \<noteq> None \<and> ap_decided_at a \<noteq> None) \<and>
     (ap_status a = AS_REJECTED \<longrightarrow> ap_rejected a \<noteq> None \<and> ap_rejection a \<noteq> None \<and> ap_decided_at a \<noteq> None) \<and>
     (ap_status a = AS_CANCELLED \<longrightarrow> ap_cancelled a \<noteq> None \<and> ap_decided_at a \<noteq> None) \<and>
     (ap_status a = AS_WITHDRAWN \<longrightarrow> ap_withdrawn a \<noteq> None) \<and>
     (ap_state a = LS_ACTIVE \<and> ap_status a \<noteq> AS_WITHDRAWN \<longrightarrow>
        ap_number a \<noteq> None \<and> ap_submitted_at a \<noteq> None \<and> ap_submitted_by a \<noteq> None)"

definition row_move :: "org_credit_application \<Rightarrow> org_credit_application \<Rightarrow> bool" where
  "row_move a b \<longleftrightarrow> ap_organization_id b = ap_organization_id a \<and> lifecycle_move (stage a) (stage b)
     \<and> (final a \<longrightarrow> same_but_deletion a b) \<and> (stamped a \<longrightarrow> stamped b)"

definition numbers :: "org_credit_application list \<Rightarrow> string option set" where
  "numbers apps = {n \<in> ap_number ` set apps. n \<noteq> None}"

lemma numbersI: "a \<in> set apps \<Longrightarrow> ap_number a \<noteq> None \<Longrightarrow> ap_number a \<in> numbers apps"
  by (simp add: numbers_def)

inductive apps_step :: "org_credit_application list \<Rightarrow> org_credit_application list \<Rightarrow> bool" where
  row: "a \<in> set apps \<Longrightarrow> row_move a (write_row f a) \<Longrightarrow>
     ap_number (write_row f a) = ap_number a \<or> ap_number (write_row f a) \<notin> numbers apps \<Longrightarrow>
     apps_step apps (map (\<lambda>x. if rid x = rid a then write_row f x else x) apps)"
| added: "rid a \<notin> rid ` set apps \<Longrightarrow> ap_number a \<notin> numbers apps \<Longrightarrow> stamped a \<Longrightarrow> ap_status a = AS_SUBMITTED \<Longrightarrow>
     apps_step apps (apps @ [a])"
| removed: "a \<in> set apps \<Longrightarrow> ap_state a = LS_DRAFT \<Longrightarrow> apps_step apps (filter (\<lambda>x. rid x \<noteq> rid a) apps)"

definition apps_ok :: "org_credit_application list \<Rightarrow> bool" where
  "apps_ok apps \<longleftrightarrow> distinct_ids apps \<and> (\<forall>a \<in> set apps. stamped a) \<and>
     (\<forall>a \<in> set apps. \<forall>b \<in> set apps. ap_number a \<noteq> None \<longrightarrow> ap_number a = ap_number b \<longrightarrow> a = b)"

lemma write_row_fields [simp]:
  "ap_organization_id (write_row f a) = ap_organization_id (f a)" "ap_state (write_row f a) = ap_state (f a)"
  "ap_status (write_row f a) = ap_status (f a)" "ap_number (write_row f a) = ap_number (f a)"
  "ap_deleted_at (write_row f a) = ap_deleted_at (f a)" "ap_form (write_row f a) = ap_form (f a)"
  "stage (write_row f a) = stage (f a)" "stamped (write_row f a) = stamped (f a)"
  by (simp_all add: write_row_def stage_def stamped_def)

lemma apps_step_ok:
  assumes "apps_step apps apps'" and "apps_ok apps"
  shows "apps_ok apps'"
  using assms
proof cases
  case (row a f)
  let ?g = "\<lambda>x. if rid x = rid a then write_row f x else x"
  have same: "x \<in> set apps \<Longrightarrow> rid x = rid a \<Longrightarrow> x = a" for x
    using assms(2) row(2) distinct_ids_unique unfolding apps_ok_def by metis
  have "map rid (map ?g apps) = map rid apps" by simp
  then have "distinct_ids (map ?g apps)" using assms(2) unfolding apps_ok_def distinct_ids_def by metis
  moreover have "\<forall>x \<in> set apps. stamped (?g x)"
    using assms(2) row(2,3) same unfolding apps_ok_def row_move_def by auto
  moreover have "?g x = ?g y" if "x \<in> set apps" "y \<in> set apps" "ap_number (?g x) \<noteq> None" "ap_number (?g x) = ap_number (?g y)" for x y
  proof -
    have inj: "u = v" if "u \<in> set apps" "v \<in> set apps" "ap_number u \<noteq> None" "ap_number u = ap_number v" for u v
      using assms(2) that unfolding apps_ok_def by blast
    have mem: "ap_number v \<noteq> ap_number (write_row f a)" if "v \<in> set apps" "ap_number (write_row f a) \<noteq> None"
        "ap_number (write_row f a) \<noteq> ap_number a" for v
      using row(4) that numbersI [OF that(1)] by auto
    have off: "rid v = rid a" if "v \<in> set apps" "ap_number (write_row f a) \<noteq> None" "ap_number v = ap_number (write_row f a)" for v
      using inj [OF that(1) row(2)] mem [OF that(1,2)] that by (metis (no_types))
    show ?thesis
    proof (cases "rid x = rid a"; cases "rid y = rid a")
      assume "rid x = rid a" "rid y = rid a"
      then show ?thesis using same that(1,2) by metis
    next
      assume h: "rid x = rid a" "rid y \<noteq> rid a"
      then have "x = a" using same that(1) by blast
      then show ?thesis using off [OF that(2)] h that(3,4) by (metis (full_types))
    next
      assume h: "rid x \<noteq> rid a" "rid y = rid a"
      then have "y = a" using same that(2) by blast
      then show ?thesis using off [OF that(1)] h that(3,4) by (metis (full_types))
    next
      assume "rid x \<noteq> rid a" "rid y \<noteq> rid a"
      then show ?thesis using inj [OF that(1,2)] that(3,4) by simp
    qed
  qed
  ultimately show ?thesis unfolding row(1) apps_ok_def set_map by blast
next
  case (added a)
  have "ap_number b \<noteq> ap_number a \<or> ap_number a = None" if "b \<in> set apps" for b
    using added(3) numbersI [OF that] by metis
  then show ?thesis using assms(2) added unfolding apps_ok_def distinct_ids_def by (simp, intro conjI ballI impI) (metis option.distinct(1))+
next
  case (removed a)
  then have "distinct_ids apps'" using assms(2) unfolding apps_ok_def distinct_ids_def by (simp add: distinct_map_filter)
  then show ?thesis using assms(2) unfolding removed(1) apps_ok_def by (simp only: set_filter mem_Collect_eq) blast
qed

lemma put_row_step:
  assumes ok: "apps_ok (ad_apps st)" and a: "get_active i org st = Some a"
    and mv: "row_move a (f a)" and id: "rid (f a) = rid a"
    and num: "ap_number (f a) = ap_number a \<or> ap_number (f a) \<notin> numbers (ad_apps st)"
  shows "apps_step\<^sup>*\<^sup>* (ad_apps st) (put_row i org f (ad_apps st))"
proof -
  note a' = get_active_Some [OF a]
  have "x = a" if "x \<in> set (ad_apps st)" "rid x = i" for x
    using that a' ok distinct_ids_unique unfolding apps_ok_def by metis
  then have "put_row i org f (ad_apps st) = map (\<lambda>x. if rid x = rid a then write_row f x else x) (ad_apps st)"
    using a' by (auto simp: put_row_def application_scope_def)
  moreover have wr: "write_row f a = (f a)\<lparr>version := version a + 1\<rparr>"
    using id by (cases "f a") (simp add: write_row_def)
  have "row_move a (write_row f a)"
    using mv wr unfolding row_move_def same_but_deletion_def by (simp add: stage_def stamped_def)
  ultimately show ?thesis using apps_step.row [of a "ad_apps st" f] a' num by simp
qed

lemma apps_steps_ok: "apps_step\<^sup>*\<^sup>* apps apps' \<Longrightarrow> apps_ok apps \<Longrightarrow> apps_ok apps'"
  by (induction rule: rtranclp_induct) (auto intro: apps_step_ok)

lemma get_by_scope: "get_active i org st = Some a \<Longrightarrow> apps_ok (ad_apps st) \<Longrightarrow>
   get_by_id i (application_scope org) (ad_apps st) = Some a"
  using get_by_id_distinct [of "ad_apps st" a "application_scope org"] get_active_Some [of i org st a]
  by (simp add: apps_ok_def application_scope_def)

lemma update_steps:
  assumes "update_application i org f st0 = Inr (st', b)" and "ad_apps st0 = ad_apps st"
    and "apps_ok (ad_apps st)" and "get_active i org st = Some a" and "row_move a (f a)"
    and "rid (f a) = rid a" and "ap_number (f a) = ap_number a \<or> ap_number (f a) \<notin> numbers (ad_apps st)"
  shows "apps_step\<^sup>*\<^sup>* (ad_apps st) (ad_apps st') \<and> st' = st0\<lparr>ad_apps := ad_apps st'\<rparr>"
  using put_row_step [of st i org a f] assms by (auto simp: update_application_Inr)

lemmas row_move_simps = row_move_def stage_def lifecycle_move_def review_move_def final_def stamped_def TERMINAL_STATUSES_def

lemma insert_references_frame:
  "insert_references i idx ins st = Inr st' \<Longrightarrow> st' = st\<lparr>ad_refs := ad_refs st'\<rparr>"
proof (induction i idx ins st rule: insert_references.induct)
  case (2 i idx rf fs inputs st)
  then show ?case by (auto simp: insert_reference_def split: if_splits)
qed simp

lemma sync_frame: "sync_trade_references i ins st = Inr (st', rs) \<Longrightarrow> st' = st\<lparr>ad_refs := ad_refs st'\<rparr>"
  by (auto simp: sync_trade_references_def delete_all_for_application_def split: option.splits
      dest!: insert_references_frame)

lemma guard_Inr [simp]: "(if P then Inl e else m) = Inr x \<longleftrightarrow> \<not> P \<and> m = Inr x"
  by simp

lemma open_update_steps:
  assumes "open_application org i st = Inr a" and "update_application i org f st0 = Inr (st', b)"
    and "ad_apps st0 = ad_apps st" and "apps_ok (ad_apps st)"
    and "ap_status a \<notin> TERMINAL_STATUSES \<Longrightarrow> row_move a (f a)" and "rid (f a) = rid a" and "ap_number (f a) = ap_number a"
  shows "apps_step\<^sup>*\<^sup>* (ad_apps st) (ad_apps st')"
  using update_steps [of i org f st0 st' b st a] assms by simp

lemma review_row:
  assumes "ap_status b = ap_status a \<or> review_move (ap_status a) (ap_status b)" and "ap_status a \<notin> TERMINAL_STATUSES"
    and "ap_organization_id b = ap_organization_id a" and "ap_state b = ap_state a" and "ap_number b = ap_number a"
    and "ap_submitted_at b = ap_submitted_at a" and "ap_submitted_by b = ap_submitted_by a"
    and "ap_status b \<notin> TERMINAL_STATUSES \<or> (stamped a \<longrightarrow> stamped b)"
  shows "row_move a b"
proof -
  have "stamped a \<longrightarrow> stamped b" using assms(2,4-8) unfolding stamped_def TERMINAL_STATUSES_def by auto
  then show ?thesis using assms(1-4) by (auto simp: row_move_def stage_def lifecycle_move_def final_def)
qed

lemma terminal_iff [simp]:
  "s \<in> TERMINAL_STATUSES \<longleftrightarrow> s = AS_APPROVED \<or> s = AS_REJECTED \<or> s = AS_WITHDRAWN \<or> s = AS_CANCELLED"
  by (simp add: TERMINAL_STATUSES_def)

lemmas open_rules = open_update_steps [OF _ _ _ _ review_row]

lemma assign_apps:
  assumes "assign_reviewer ri org i c rv now st = Inr st'" and "apps_ok (ad_apps st)"
  shows "apps_step\<^sup>*\<^sup>* (ad_apps st) (ad_apps st')"
  using assms
  by (clarsimp simp: assign_reviewer_def simp del: open_application_Inr)
    (erule open_rules, assumption, auto simp: review_move_def)

lemma verify_reference_apps:
  assumes "verify_trade_reference ri org i rf c s now st = Inr st'" and "apps_ok (ad_apps st)"
  shows "apps_step\<^sup>*\<^sup>* (ad_apps st) (ad_apps st')"
  using assms
  by (clarsimp simp: verify_trade_reference_def Let_def simp del: open_application_Inr split: if_split_asm)
    (erule open_rules, assumption, auto simp: review_move_def)

lemma ready_apps:
  assumes "mark_ready_for_decision org i st = Inr st'" and "apps_ok (ad_apps st)"
  shows "apps_step\<^sup>*\<^sup>* (ad_apps st) (ad_apps st')"
  using assms
  by (clarsimp simp: mark_ready_for_decision_def simp del: open_application_Inr)
    (erule open_rules, assumption, auto simp: review_move_def)

lemma fresh_frame:
  "open_fresh_investigation org i rn od ig now st = Inr (st1, g) \<Longrightarrow> ad_apps st1 = ad_apps st \<and> ad_refs st1 = ad_refs st
     \<and> ad_credit st1 = ad_credit st"
  by (auto simp: open_fresh_investigation_def insert_investigation_def Let_def split: option.splits if_split_asm)

lemma set_check_apps:
  assumes "set_check_status i org s now st0 = Inr st'" and "open_application org i st = Inr a"
    and "ad_apps st0 = ad_apps st" and "apps_ok (ad_apps st)" and "review_move (ap_status a) s" and "s \<notin> TERMINAL_STATUSES"
  shows "apps_step\<^sup>*\<^sup>* (ad_apps st) (ad_apps st')"
  using assms
  by (clarsimp simp: set_check_status_def simp del: open_application_Inr terminal_iff)
    (erule open_rules, assumption, auto)

lemma store_fields_apps:
  assumes "store_fields i org fs a st = Inr (st', b)" and "apps_ok (ad_apps st)" and "get_active i org st = Some a"
    and "\<not> final a"
  shows "apps_step\<^sup>*\<^sup>* (ad_apps st) (ad_apps st') \<and> st' = st\<lparr>ad_apps := ad_apps st'\<rparr>
     \<and> (\<exists>a'. get_active i org st' = Some a' \<and> ap_state a' = ap_state a \<and> ap_status a' = ap_status a
          \<and> (b = a' \<or> fs \<noteq> [] \<and> ap_form b = ap_form a'))"
proof (cases "fs = []")
  case True
  then show ?thesis using assms by (auto simp: store_fields_def)
next
  case False
  let ?f = "\<lambda>b :: org_credit_application. b\<lparr>ap_form := fill_form fs (ap_form b)\<rparr>"
  have upd: "update_application i org ?f st = Inr (st', b)" using False assms(1) by (simp add: store_fields_def)
  have "row_move a (?f a)" using assms(4) by (simp add: row_move_def stage_def lifecycle_move_def stamped_def)
  then have "apps_step\<^sup>*\<^sup>* (ad_apps st) (ad_apps st') \<and> st' = st\<lparr>ad_apps := ad_apps st'\<rparr>"
    using update_steps [OF upd refl assms(2,3)] by simp
  moreover have "get_by_id i (\<lambda>a. ap_organization_id a = org \<and> ap_deleted_at a = None) (put_row i org ?f apps) =
      map_option (write_row ?f) (get_by_id i (\<lambda>a. ap_organization_id a = org \<and> ap_deleted_at a = None) apps)" for apps
    unfolding put_row_def application_scope_def by (induction apps) auto
  then have "get_active i org st' = Some (write_row ?f a)"
    using upd assms(3) by (auto simp: update_application_Inr get_active_def)
  moreover have "b = write_row ?f a"
    using upd get_by_scope [OF assms(3,2)] by (auto simp: update_application_Inr)
  ultimately show ?thesis by simp
qed

lemma edit_apps:
  assumes "edit_section ri org i c ups sec st = Inr st'" and "apps_ok (ad_apps st)"
  shows "apps_step\<^sup>*\<^sup>* (ad_apps st) (ad_apps st')"
  using assms by (auto simp: edit_section_def Let_def final_def split: if_split_asm dest!: store_fields_apps)

lemma run_check_apps:
  assumes "run_credit_check ri org i c assess od ig now st = Inr st'" and "apps_ok (ad_apps st)"
  shows "apps_step\<^sup>*\<^sup>* (ad_apps st) (ad_apps st')"
proof -
  from assms(1) obtain a where opn: "open_application org i st = Inr a"
    and g: "ap_status a \<in> {AS_REVIEWER_ASSIGNED, AS_REFERENCES_VERIFIED, AS_CHECK_FAILED}"
    by (auto simp: run_credit_check_def simp del: open_application_Inr)
  note run = assms(1) [unfolded run_credit_check_def opn bind_result_simps Let_def guard_Inr]
  have mv: "review_move (ap_status a) s" if "s \<in> {AS_CHECK_COMPLETED, AS_CHECK_FAILED, AS_INVESTIGATION}" for s
    using that g by (auto simp: review_move_def)
  have go: "apps_step\<^sup>*\<^sup>* (ad_apps st) (ad_apps st2)" if "set_check_status i org s now st0 = Inr st2"
      "s \<in> {AS_CHECK_COMPLETED, AS_CHECK_FAILED, AS_INVESTIGATION}" "ad_apps st0 = ad_apps st" for s st0 st2
    using set_check_apps [OF that(1) opn that(3) assms(2) mv [OF that(2)]] that(2) by auto
  show ?thesis
  proof (cases "assess (registration_number a)")
    case (Report k d)
    then show ?thesis using run by (auto simp: check_audit_def dest!: go)
  next
    case NoCompany
    then show ?thesis using run
      by (auto simp: check_audit_def dest!: fresh_frame go)
  next
    case ProviderFailure
    then show ?thesis using run by (auto simp: check_audit_def dest!: go)
  qed
qed

lemma refresh_apps:
  assumes "refresh_credit_check ri org i c assess now st = Inr st'" and "apps_ok (ad_apps st)"
  shows "apps_step\<^sup>*\<^sup>* (ad_apps st) (ad_apps st')"
proof -
  from assms(1) obtain a g where opn: "open_application org i st = Inr a" and s: "ap_status a = AS_INVESTIGATION"
    and ig: "get_active_for_application org i st = Some g"
    by (auto simp: refresh_credit_check_def simp del: open_application_Inr split: option.splits)
  note run = assms(1) [unfolded refresh_credit_check_def opn bind_result_simps guard_Inr ig option.case]
  have mv: "review_move (ap_status a) s" if "s \<in> {AS_CHECK_COMPLETED, AS_CHECK_FAILED}" for s
    using that s by (auto simp: review_move_def)
  have go: "apps_step\<^sup>*\<^sup>* (ad_apps st) (ad_apps st2)" if "set_check_status i org s now st0 = Inr st2"
      "s \<in> {AS_CHECK_COMPLETED, AS_CHECK_FAILED}" "ad_apps st0 = ad_apps st" for s st0 st2
    using set_check_apps [OF that(1) opn that(3) assms(2) mv [OF that(2)]] that(2) by auto
  show ?thesis
  proof (cases "assess (if truthy_str (ig_reg_no g) then ig_reg_no g else registration_number a)")
    case (Report k d)
    then show ?thesis using run by (auto simp: check_audit_def dest!: go)
  next
    case NoCompany
    then show ?thesis using run by simp
  next
    case ProviderFailure
    then show ?thesis using run by (auto simp: check_audit_def dest!: go)
  qed
qed

lemma approve_apps:
  assumes "approve_application ri org i c l terms freq nts acct now st = Inr st'" and "apps_ok (ad_apps st)"
  shows "apps_step\<^sup>*\<^sup>* (ad_apps st) (ad_apps st')"
  using assms
  by (clarsimp simp: approve_application_def simp del: open_application_Inr)
    (erule open_rules, assumption, auto simp: review_move_def decide_def stamped_def)

lemma cooldown_tail:
  assumes "(case start_cooldown_window org now st of Inl (ValidationError _) \<Rightarrow> Inr st | r \<Rightarrow> r) = Inr st'"
  shows "\<exists>w. st' = st\<lparr>ad_windows := w\<rparr>"
proof (cases "start_cooldown_window org now st")
  case (Inl e)
  then have "st' = st\<lparr>ad_windows := ad_windows st\<rparr>" using assms by (cases e) simp_all
  then show ?thesis ..
next
  case (Inr st1)
  then have "st' = st1" using assms by simp
  with Inr show ?thesis by (auto simp: start_cooldown_window_def Let_def)
qed

lemma reject_apps:
  assumes "reject_application ri org i c cat rs now st = Inr st'" and "apps_ok (ad_apps st)"
  shows "apps_step\<^sup>*\<^sup>* (ad_apps st) (ad_apps st')"
  using assms
  by (clarsimp simp: reject_application_def Let_def simp del: open_application_Inr dest!: cooldown_tail)
    (erule open_rules, assumption, auto simp: review_move_def decide_def stamped_def)

lemma cancel_apps:
  assumes "cancel_application ri org i c rs now st = Inr st'" and "apps_ok (ad_apps st)"
  shows "apps_step\<^sup>*\<^sup>* (ad_apps st) (ad_apps st')"
  using assms
  by (clarsimp simp: cancel_application_def simp del: open_application_Inr)
    (erule open_rules, assumption, auto simp: review_move_def decide_def stamped_def)

lemma withdraw_apps:
  assumes "withdraw_application ri org i c now st = Inr st'" and "apps_ok (ad_apps st)"
  shows "apps_step\<^sup>*\<^sup>* (ad_apps st) (ad_apps st')"
  using assms
  by (clarsimp simp: withdraw_application_def simp del: open_application_Inr)
    (erule open_update_steps, assumption, auto simp: row_move_def stage_def lifecycle_move_def review_move_def final_def
       stamped_def intro: application_state.exhaust)

lemma delete_apps:
  assumes "delete_application ri org i c now st = Inr st'" and "apps_ok (ad_apps st)"
  shows "apps_step\<^sup>*\<^sup>* (ad_apps st) (ad_apps st')"
proof -
  have mv: "row_move a (a\<lparr>ap_deleted_at := Some now\<rparr>)" for a
    unfolding row_move_def stage_def lifecycle_move_def same_but_deletion_def stamped_def by (cases a) simp
  from assms(1) obtain a st1 b where "get_active i org st = Some a"
    and "update_application i org (\<lambda>b. b\<lparr>ap_deleted_at := Some now\<rparr>) st = Inr (st1, b)" and "ad_apps st' = ad_apps st1"
    by (auto simp: delete_application_def)
  with update_steps [OF _ refl assms(2), of i org "\<lambda>b. b\<lparr>ap_deleted_at := Some now\<rparr>"] mv show ?thesis by simp
qed

subsection \<open>Drafts as steps of the table\<close>

lemma insert_application_Inr:
  "insert_application a st = Inr st' \<longleftrightarrow> rid a \<notin> rid ` set (ad_apps st) \<and> ap_number a \<notin> numbers (ad_apps st)
     \<and> st' = st\<lparr>ad_apps := ad_apps st @ [a]\<rparr>"
  by (auto simp: insert_application_def create_row_Inr numbers_def)

lemma insert_application_apps:
  assumes "insert_application a st = Inr st1" and "stamped a" and "ap_status a = AS_SUBMITTED"
    and "ad_apps st2 = ad_apps st1"
  shows "apps_step\<^sup>*\<^sup>* (ad_apps st) (ad_apps st2)"
  using apps_step.added [of a "ad_apps st"] assms by (auto simp: insert_application_Inr)

lemma sync_ex: "sync_trade_references i ins st = Inr (st', rs) \<Longrightarrow> \<exists>rf. st' = st\<lparr>ad_refs := rf\<rparr>"
  by (drule sync_frame) blast

lemma draft_refs_ex:
  "(case trs of Some (t # ts) \<Rightarrow> sync_trade_references i trs st | _ \<Rightarrow> Inr (st, [])) = Inr (st', rs) \<Longrightarrow>
     \<exists>rf. st' = st\<lparr>ad_refs := rf\<rparr>"
  "(case trs of None \<Rightarrow> Inr (st, []) | Some t \<Rightarrow> sync_trade_references i trs st) = Inr (st', rs) \<Longrightarrow>
     \<exists>rf. st' = st\<lparr>ad_refs := rf\<rparr>"
proof -
  have same: "\<exists>rf. st = st\<lparr>ad_refs := rf\<rparr>" by (rule exI [of _ "ad_refs st"]) simp
  show "(case trs of Some (t # ts) \<Rightarrow> sync_trade_references i trs st | _ \<Rightarrow> Inr (st, [])) = Inr (st', rs) \<Longrightarrow> \<exists>rf. st' = st\<lparr>ad_refs := rf\<rparr>"
    using same by (cases trs; cases "the trs") (auto dest: sync_ex)
  show "(case trs of None \<Rightarrow> Inr (st, []) | Some t \<Rightarrow> sync_trade_references i trs st) = Inr (st', rs) \<Longrightarrow> \<exists>rf. st' = st\<lparr>ad_refs := rf\<rparr>"
    using same by (cases trs) (auto dest: sync_ex)
qed

lemma new_application_fields [simp]:
  "rid (new_application i org s fs) = i" "ap_status (new_application i org s fs) = AS_SUBMITTED"
  "ap_state (new_application i org s fs) = s" "ap_number (new_application i org s fs) = None"
  "ap_organization_id (new_application i org s fs) = org" "ap_deleted_at (new_application i org s fs) = None"
  "ap_form (new_application i org s fs) = fill_form fs empty_form" "version (new_application i org s fs) = 1"
  by (simp_all add: new_application_def)

lemma create_apps:
  assumes "create_application ri email_ok org data trs c i n now st = Inr st'"
  shows "apps_step\<^sup>*\<^sup>* (ad_apps st) (ad_apps st')"
  using assms
  by (auto simp: create_application_def Let_def stamped_def dest!: sync_ex elim!: insert_application_apps)

lemma save_draft_apps:
  assumes "save_draft ri org c data trs i d n st = Inr st'"
  shows "apps_step\<^sup>*\<^sup>* (ad_apps st) (ad_apps st')"
  using assms
  by (auto simp: save_draft_def Let_def stamped_def dest!: draft_refs_ex
      elim!: insert_application_apps)

lemma get_draft_Inr:
  assumes "get_draft_or_404 d org st = Inr (r, a)" and "apps_ok (ad_apps st)"
  shows "get_active (rid a) org st = Some a \<and> dr_id r = d \<and> dr_application_id r = rid a \<and> r \<in> set (ad_drafts st)
     \<and> dr_published_by r = None"
proof -
  from assms(1) have r: "find (\<lambda>r. dr_id r = d) (ad_drafts st) = Some r"
    and a: "get_by_id (dr_application_id r) (\<lambda>_. True) (ad_apps st) = Some a" "ap_organization_id a = org" "ap_deleted_at a = None"
      "dr_published_by r = None"
    by (auto simp: get_draft_or_404_def split: option.splits)
  have "a \<in> set (ad_apps st)" "rid a = dr_application_id r" using get_by_id_Some [OF a(1)] by simp_all
  then show ?thesis
    using get_by_id_distinct [of "ad_apps st" a "\<lambda>a. ap_organization_id a = org \<and> ap_deleted_at a = None"] a find_Some_set [OF r]
      assms(2) unfolding get_active_def apps_ok_def by simp
qed

lemma delete_draft_apps:
  assumes "delete_application_draft ri org d c n st = Inr st'" and "apps_ok (ad_apps st)"
  shows "apps_step\<^sup>*\<^sup>* (ad_apps st) (ad_apps st')"
proof -
  from assms(1) obtain r a apps where "get_draft_or_404 d org st = Inr (r, a)" and "ap_state a = LS_DRAFT"
    and "hard_delete ''org_credit_applications'' (rid a) (application_scope org) (ad_apps st) = Inr apps" and "ad_apps st' = apps"
    by (auto simp: delete_application_draft_def)
  with get_draft_Inr [OF _ assms(2)] get_active_Some apps_step.removed [of a "ad_apps st"] show ?thesis
    by (fastforce simp: hard_delete_def dest!: get_by_id_Some)
qed

lemma update_draft_apps:
  assumes "update_application_draft ri org d c data trs st = Inr st'" and "apps_ok (ad_apps st)"
  shows "apps_step\<^sup>*\<^sup>* (ad_apps st) (ad_apps st')"
proof -
  from assms(1) obtain r a fs st1 b where d: "get_draft_or_404 d org st = Inr (r, a)" and "ap_state a = LS_DRAFT"
    and s: "store_fields (rid a) org fs a st = Inr (st1, b)" and e: "ad_apps st' = ad_apps st1"
    by (auto simp: update_application_draft_def check_open_draft_def Let_def dest!: draft_refs_ex split: if_split_asm)
  then show ?thesis using store_fields_apps [OF s assms(2)] get_draft_Inr [OF d assms(2)] by (simp add: final_def)
qed

lemma publish_parts:
  assumes "publish_draft ri email_ok org d c data trs n now st = Inr st'" and "apps_ok (ad_apps st)"
  obtains r a st1 b st2 st3 a' refs where "get_draft_or_404 d org st = Inr (r, a)" "ap_state a = LS_DRAFT"
    "store_fields (rid a) org (extract_application_fields data) a st = Inr (st1, b)"
    "sync_trade_references (rid a) trs st1 = Inr (st2, refs)" "validate_for_submission email_ok (ap_form b) refs = Inr ()"
    "Some n \<notin> ap_number ` set (ad_apps st2)"
    "update_application (rid a) org (\<lambda>b. b\<lparr>ap_number := Some n, ap_status := AS_SUBMITTED,
           ap_state := LS_ACTIVE, ap_submitted_at := Some now, ap_submitted_by := Some (au_id c)\<rparr>) st2 = Inr (st3, a')"
    "ad_apps st' = ad_apps st3" "ad_refs st' = ad_refs st3" "ad_investigations st' = ad_investigations st3"
    "cr_accounts (ad_credit st') = cr_accounts (ad_credit st3)" "cr_ledger (ad_credit st') = cr_ledger (ad_credit st3)"
    "cr_history (ad_credit st') = cr_history (ad_credit st3)"
  using assms by (auto simp: publish_draft_def check_open_draft_def Let_def)

lemma publish_apps:
  assumes "publish_draft ri email_ok org d c data trs n now st = Inr st'" and "apps_ok (ad_apps st)"
  shows "apps_step\<^sup>*\<^sup>* (ad_apps st) (ad_apps st')"
proof (rule publish_parts [OF assms])
  fix r a st1 b st2 st3 a' refs
  let ?f = "\<lambda>b :: org_credit_application. b\<lparr>ap_number := Some n, ap_status := AS_SUBMITTED,
           ap_state := LS_ACTIVE, ap_submitted_at := Some now, ap_submitted_by := Some (au_id c)\<rparr>"
  assume d: "get_draft_or_404 d org st = Inr (r, a)" "ap_state a = LS_DRAFT"
    and s: "store_fields (rid a) org (extract_application_fields data) a st = Inr (st1, b)"
    and y: "sync_trade_references (rid a) trs st1 = Inr (st2, refs)" and n: "Some n \<notin> ap_number ` set (ad_apps st2)"
    and u: "update_application (rid a) org ?f st2 = Inr (st3, a')" and e: "ad_apps st' = ad_apps st3"
  have get: "get_active (rid a) org st = Some a" using get_draft_Inr [OF d(1) assms(2)] by simp
  obtain a1 where a1: "apps_step\<^sup>*\<^sup>* (ad_apps st) (ad_apps st1)" "get_active (rid a) org st1 = Some a1" "ap_state a1 = LS_DRAFT"
    using store_fields_apps [OF s assms(2) get] d(2) by (auto simp: final_def)
  have ok: "apps_ok (ad_apps st1)" by (rule apps_steps_ok [OF a1(1) assms(2)])
  have same: "ad_apps st2 = ad_apps st1" using sync_ex [OF y] by auto
  have "row_move a1 (?f a1)" using a1(3) by (simp add: row_move_def stage_def lifecycle_move_def final_def stamped_def)
  then have "apps_step\<^sup>*\<^sup>* (ad_apps st1) (ad_apps st3)"
    using update_steps [OF u same ok a1(2)] n same by (simp add: numbers_def)
  with a1(1) show ?thesis unfolding e by (rule rtranclp_trans)
qed

subsection \<open>Every operation as a step\<close>

inductive application_step :: "application_db \<Rightarrow> application_db \<Rightarrow> bool" where
  step_create: "create_application ri email_ok org data trs c i n now st = Inr st' \<Longrightarrow> application_step st st'"
| step_save: "save_draft ri org c data trs i d n st = Inr st' \<Longrightarrow> application_step st st'"
| step_update: "update_application_draft ri org d c data trs st = Inr st' \<Longrightarrow> application_step st st'"
| step_discard: "delete_application_draft ri org d c n st = Inr st' \<Longrightarrow> application_step st st'"
| step_publish: "publish_draft ri email_ok org d c data trs n now st = Inr st' \<Longrightarrow> application_step st st'"
| step_edit: "edit_section ri org i c ups sec st = Inr st' \<Longrightarrow> application_step st st'"
| step_add_reference: "add_trade_reference ri org i c data rf st = Inr st' \<Longrightarrow> application_step st st'"
| step_update_reference: "update_trade_reference org i rf ups st = Inr st' \<Longrightarrow> application_step st st'"
| step_verify: "verify_trade_reference ri org i rf c s now st = Inr st' \<Longrightarrow> application_step st st'"
| step_assign: "assign_reviewer ri org i c rv now st = Inr st' \<Longrightarrow> application_step st st'"
| step_check: "run_credit_check ri org i c assess od ig now st = Inr st' \<Longrightarrow> application_step st st'"
| step_refresh: "refresh_credit_check ri org i c assess now st = Inr st' \<Longrightarrow> application_step st st'"
| step_ready: "mark_ready_for_decision org i st = Inr st' \<Longrightarrow> application_step st st'"
| step_approve: "approve_application ri org i c l terms freq nts acct now st = Inr st' \<Longrightarrow> application_step st st'"
| step_reject: "reject_application ri org i c cat rs now st = Inr st' \<Longrightarrow> application_step st st'"
| step_cancel: "cancel_application ri org i c rs now st = Inr st' \<Longrightarrow> application_step st st'"
| step_withdraw: "withdraw_application ri org i c now st = Inr st' \<Longrightarrow> application_step st st'"
| step_delete: "delete_application ri org i c now st = Inr st' \<Longrightarrow> application_step st st'"
| step_upload: "handle_letter_upload org i c bl key fn stored st = (st', ok) \<Longrightarrow> application_step st st'"
| step_remove_letter: "delete_bank_reference_letter org i bl st = Inr st' \<Longrightarrow> application_step st st'"
| step_credit: "credit_step op (ad_credit st) cs \<Longrightarrow> application_step st (st\<lparr>ad_credit := cs\<rparr>)"

lemma add_reference_frame:
  "add_trade_reference ri org i c data rf st = Inr st' \<Longrightarrow> ad_apps st' = ad_apps st"
  "update_trade_reference org i rf ups st = Inr st' \<Longrightarrow> ad_apps st' = ad_apps st"
  "handle_letter_upload org i c bl key fn stored st = (st', ok) \<Longrightarrow> ad_apps st' = ad_apps st"
  "delete_bank_reference_letter org i bl st = Inr st' \<Longrightarrow> ad_apps st' = ad_apps st"
  by (auto simp: add_trade_reference_def update_trade_reference_def handle_letter_upload_def delete_bank_reference_letter_def
      insert_reference_def Let_def split: if_split_asm option.splits)

lemmas apps_ops = create_apps save_draft_apps update_draft_apps delete_draft_apps publish_apps edit_apps verify_reference_apps
  assign_apps run_check_apps refresh_apps ready_apps approve_apps reject_apps cancel_apps withdraw_apps delete_apps

lemma application_step_apps:
  "application_step st st' \<Longrightarrow> apps_ok (ad_apps st) \<Longrightarrow> apps_step\<^sup>*\<^sup>* (ad_apps st) (ad_apps st')"
  by (induction rule: application_step.induct) (auto dest: apps_ops add_reference_frame)

definition investigating :: "org_credit_application list \<Rightarrow> (string \<times> string) set" where
  "investigating apps = (\<lambda>a. (rid a, ap_organization_id a)) ` {a \<in> set apps. ap_status a = AS_INVESTIGATION}"

definition quiet :: "application_db \<Rightarrow> application_db \<Rightarrow> bool" where
  \<comment> \<open>no investigation is opened or closed, no application goes and the credit books stay\<close>
  "quiet st st' \<longleftrightarrow> ad_investigations st' = ad_investigations st \<and> investigating (ad_apps st') \<subseteq> investigating (ad_apps st)
     \<and> rid ` set (ad_apps st) \<subseteq> rid ` set (ad_apps st') \<and> cr_accounts (ad_credit st') = cr_accounts (ad_credit st)
     \<and> cr_ledger (ad_credit st') = cr_ledger (ad_credit st) \<and> cr_history (ad_credit st') = cr_history (ad_credit st)"

lemma quiet_simps [simp]:
  "quiet st st"
  "quiet st (application_audit ri c act et e x y r org ev sv st1) = quiet st st1"
  "quiet st (st1\<lparr>ad_windows := w\<rparr>) = quiet st st1" "quiet st (st1\<lparr>ad_refs := rf\<rparr>) = quiet st st1"
  "quiet st (st1\<lparr>ad_drafts := dr\<rparr>) = quiet st st1" "quiet st (st1\<lparr>ad_letters := bl\<rparr>) = quiet st st1"
  "quiet st (upsert_report org d st1) = quiet st st1" "quiet st (update_reference rf' g st1) = quiet st st1"
  by (simp_all add: quiet_def upsert_report_def update_reference_def)

lemma quiet_trans: "quiet st st1 \<Longrightarrow> quiet st1 st2 \<Longrightarrow> quiet st st2"
proof -
  assume q: "quiet st st1" "quiet st1 st2"
  have "investigating (ad_apps st2) \<subseteq> investigating (ad_apps st)"
    using q unfolding quiet_def by (meson subset_trans)
  moreover have "rid ` set (ad_apps st) \<subseteq> rid ` set (ad_apps st2)"
    using q unfolding quiet_def by (meson subset_trans)
  ultimately show ?thesis using q by (simp add: quiet_def)
qed

lemma update_quiet:
  assumes "update_application i org f st = Inr (st', b)"
    and "\<And>x. ap_organization_id (f x) = ap_organization_id x \<and> (ap_status (f x) = AS_INVESTIGATION \<longrightarrow> ap_status x = AS_INVESTIGATION)"
  shows "quiet st st' \<and> ad_refs st' = ad_refs st"
proof -
  have 1: "investigating (put_row i org f apps) \<subseteq> investigating apps" for apps
    using assms(2) unfolding investigating_def put_row_def by (force split: if_splits)
  have 2: "rid ` set (put_row i org f apps) = rid ` set apps" for apps
    unfolding put_row_def by (induction apps) auto
  show ?thesis using assms(1) 1 [of "ad_apps st"] 2 [of "ad_apps st"] by (clarsimp simp: update_application_Inr quiet_def)
qed

lemma edit_quiet: "edit_section ri org i c ups sec st = Inr st' \<Longrightarrow> quiet st st' \<and> ad_refs st' = ad_refs st"
  by (auto simp: edit_section_def store_fields_def Let_def split: if_split_asm dest!: update_quiet)

lemma store_quiet: "store_fields i org fs a st = Inr (st', b) \<Longrightarrow> quiet st st' \<and> ad_refs st' = ad_refs st"
  by (auto simp: store_fields_def split: if_split_asm dest!: update_quiet)

lemma assign_quiet: "assign_reviewer ri org i c rv now st = Inr st' \<Longrightarrow> quiet st st' \<and> ad_refs st' = ad_refs st"
  by (auto simp: assign_reviewer_def dest!: update_quiet)

lemma ready_quiet: "mark_ready_for_decision org i st = Inr st' \<Longrightarrow> quiet st st' \<and> ad_refs st' = ad_refs st"
  by (auto simp: mark_ready_for_decision_def dest!: update_quiet)

lemma reject_quiet: "reject_application ri org i c cat rs now st = Inr st' \<Longrightarrow> quiet st st' \<and> ad_refs st' = ad_refs st"
  by (auto simp: reject_application_def Let_def decide_def dest!: cooldown_tail update_quiet)

lemma cancel_quiet: "cancel_application ri org i c rs now st = Inr st' \<Longrightarrow> quiet st st' \<and> ad_refs st' = ad_refs st"
  by (auto simp: cancel_application_def decide_def dest!: update_quiet)

lemma withdraw_quiet: "withdraw_application ri org i c now st = Inr st' \<Longrightarrow> quiet st st' \<and> ad_refs st' = ad_refs st"
  by (auto simp: withdraw_application_def dest!: update_quiet)

lemma delete_quiet: "delete_application ri org i c now st = Inr st' \<Longrightarrow> quiet st st' \<and> ad_refs st' = ad_refs st"
  by (auto simp: delete_application_def dest!: update_quiet)

lemma letter_quiet:
  "handle_letter_upload org i c bl key fn stored st = (st', ok) \<Longrightarrow> quiet st st' \<and> ad_refs st' = ad_refs st"
  "delete_bank_reference_letter org i bl st = Inr st' \<Longrightarrow> quiet st st' \<and> ad_refs st' = ad_refs st"
  by (auto simp: handle_letter_upload_def delete_bank_reference_letter_def split: if_split_asm option.splits)

lemma insert_quiet:
  assumes "insert_application a st = Inr st'" and "ap_status a = AS_SUBMITTED"
  shows "quiet st st' \<and> ad_refs st' = ad_refs st \<and> rid a \<in> rid ` set (ad_apps st') \<and> rid a \<notin> rid ` set (ad_apps st)"
  using assms by (auto simp: insert_application_Inr quiet_def investigating_def)

lemma sync_refs:
  "sync_trade_references i ins st = Inr (st', rs) \<Longrightarrow> quiet st st' \<and> ad_apps st' = ad_apps st"
  by (drule sync_ex) auto

lemmas quiet_ops = edit_quiet assign_quiet ready_quiet reject_quiet cancel_quiet withdraw_quiet delete_quiet letter_quiet

subsection \<open>Trade references\<close>

definition references_ok :: "application_db \<Rightarrow> bool" where
  \<comment> \<open>numbered without duplicates, each belongs to an application\<close>
  "references_ok st \<longleftrightarrow> distinct (map tr_id (ad_refs st)) \<and>
     distinct (map (\<lambda>r. (tr_application_id r, tr_index r)) (ad_refs st)) \<and>
     (\<forall>r \<in> set (ad_refs st). 0 \<le> tr_index r \<and> tr_application_id r \<in> rid ` set (ad_apps st))"

lemma references_same:
  "references_ok st \<Longrightarrow> ad_refs st' = ad_refs st \<Longrightarrow> rid ` set (ad_apps st) \<subseteq> rid ` set (ad_apps st') \<Longrightarrow> references_ok st'"
  unfolding references_ok_def by auto

lemma insert_reference_ok:
  assumes "insert_reference r st = Inr st'" and "references_ok st" and "0 \<le> tr_index r"
    and "tr_application_id r \<in> rid ` set (ad_apps st)"
    and "\<forall>q \<in> set (ad_refs st). tr_application_id q = tr_application_id r \<longrightarrow> tr_index q \<noteq> tr_index r"
  shows "references_ok st'"
proof -
  have "(tr_application_id r, tr_index r) \<notin> (\<lambda>r. (tr_application_id r, tr_index r)) ` set (ad_refs st)"
    using assms(5) by force
  then show ?thesis using assms(1-4) by (auto simp: insert_reference_def references_ok_def)
qed

lemma insert_references_ok:
  "insert_references i idx ins st = Inr st' \<Longrightarrow> references_ok st \<Longrightarrow> 0 \<le> idx \<Longrightarrow> i \<in> rid ` set (ad_apps st)
   \<Longrightarrow> \<forall>q \<in> set (ad_refs st). tr_application_id q = i \<longrightarrow> tr_index q < idx \<Longrightarrow> references_ok st'"
proof (induction i idx ins st rule: insert_references.induct)
  case (2 i idx rf fs inputs st)
  then obtain st1 where st1: "insert_reference (new_reference rf i idx fs) st = Inr st1"
    and rest: "insert_references i (idx + 1) inputs st1 = Inr st'" by auto
  have ok: "references_ok st1"
    using insert_reference_ok [OF st1 2(3)] 2(4-6) by (auto simp: new_reference_def)
  have "ad_apps st1 = ad_apps st \<and> ad_refs st1 = ad_refs st @ [new_reference rf i idx fs]"
    using st1 by (auto simp: insert_reference_def)
  then have "\<forall>q \<in> set (ad_refs st1). tr_application_id q = i \<longrightarrow> tr_index q < idx + 1" "i \<in> rid ` set (ad_apps st1)"
    using 2(5,6) by (auto simp: new_reference_def)
  then show ?case using 2(1) [OF st1 rest ok] 2(4) by simp
qed simp

lemma delete_all_ok: "references_ok st \<Longrightarrow> references_ok (delete_all_for_application i st)"
  by (auto simp: references_ok_def delete_all_for_application_def distinct_map_filter)

lemma sync_references_ok:
  assumes "sync_trade_references i ins st = Inr (st', rs)" and "references_ok st" and "i \<in> rid ` set (ad_apps st)"
  shows "references_ok st'"
proof (cases ins)
  case None
  then show ?thesis using assms by (simp add: sync_trade_references_def)
next
  case (Some xs)
  then have "insert_references i 0 xs (delete_all_for_application i st) = Inr st'"
    using assms(1) by (auto simp: sync_trade_references_def)
  then show ?thesis
    using insert_references_ok delete_all_ok [OF assms(2)] assms(3) by (simp add: delete_all_for_application_def)
qed

lemma update_reference_ok:
  assumes "references_ok st" and "\<And>r. tr_id (f r) = tr_id r \<and> tr_application_id (f r) = tr_application_id r \<and> tr_index (f r) = tr_index r"
  shows "references_ok (update_reference rf f st)"
proof -
  let ?g = "\<lambda>r. if tr_id r = rf then f r else r"
  have "map tr_id (map ?g rs) = map tr_id rs" and
    "map (\<lambda>r. (tr_application_id r, tr_index r)) (map ?g rs) = map (\<lambda>r. (tr_application_id r, tr_index r)) rs" for rs
    using assms(2) by simp_all
  then show ?thesis using assms by (auto simp: references_ok_def update_reference_def simp del: map_map)
qed

lemma fold_max_ge: "a \<le> fold max xs a" "x \<in> set xs \<Longrightarrow> x \<le> fold max xs (a :: int)"
proof -
  have *: "a \<le> fold max xs a" for a :: int and xs
  proof (induction xs arbitrary: a)
    case (Cons y ys)
    show ?case using Cons [of "max y a"] by simp
  qed simp
  then show "a \<le> fold max xs a" .
  show "x \<in> set xs \<Longrightarrow> x \<le> fold max xs a"
  proof (induction xs arbitrary: a)
    case (Cons y ys)
    then show ?case using * [of "max y a" ] by (cases "x = y") (auto intro: order_trans [OF max.cobounded1 *])
  qed simp
qed

lemma next_ref_index_gt:
  "0 \<le> next_ref_index i st" "r \<in> set (ad_refs st) \<Longrightarrow> tr_application_id r = i \<Longrightarrow> tr_index r < next_ref_index i st"
proof -
  let ?xs = "map tr_index (filter (\<lambda>r. tr_application_id r = i) (ad_refs st))"
  show "0 \<le> next_ref_index i st" using fold_max_ge(1) [of "-1" ?xs] by (simp add: next_ref_index_def)
  show "r \<in> set (ad_refs st) \<Longrightarrow> tr_application_id r = i \<Longrightarrow> tr_index r < next_ref_index i st"
    using fold_max_ge(2) [of "tr_index r" ?xs "-1"] by (auto simp: next_ref_index_def zle_add1_eq_le)
qed

lemma open_member: "open_application org i st = Inr a \<Longrightarrow> i \<in> rid ` set (ad_apps st)"
  using get_active_Some by (force simp: open_application_Inr)

lemma add_reference_ok:
  assumes "add_trade_reference ri org i c data rf st = Inr st'" and "references_ok st"
  shows "references_ok st' \<and> quiet st st'"
proof -
  let ?r = "new_reference rf i (next_ref_index i st) data"
  from assms(1) obtain a st1 where a: "open_application org i st = Inr a" and r: "insert_reference ?r st = Inr st1"
    and q: "quiet st1 st'" and e: "ad_refs st' = ad_refs st1" "ad_apps st' = ad_apps st1"
    by (auto simp: add_trade_reference_def Let_def simp del: open_application_Inr)
  have "tr_application_id ?r = i" "tr_index ?r = next_ref_index i st" by (simp_all add: new_reference_def)
  then have "references_ok st1"
    using insert_reference_ok [OF r assms(2)] next_ref_index_gt open_member [OF a] by fastforce
  moreover have "quiet st st1" using r by (auto simp: insert_reference_def)
  ultimately show ?thesis using e q quiet_trans by (auto simp: references_ok_def)
qed

lemma references_audit [simp]:
  "references_ok (application_audit ri c act et e x y r org ev sv st) = references_ok st"
  "references_ok (st\<lparr>ad_drafts := dr\<rparr>) = references_ok st" "references_ok (st\<lparr>ad_windows := w\<rparr>) = references_ok st"
  "references_ok (st\<lparr>ad_credit := cr\<rparr>) = references_ok st"
  by (simp_all add: references_ok_def)

lemma verify_ok:
  assumes "verify_trade_reference ri org i rf c s now st = Inr st'" and "references_ok st"
  shows "references_ok st' \<and> quiet st st'"
proof -
  let ?st1 = "update_reference rf (\<lambda>r. (if s = RS_PENDING then r else r\<lparr>tr_verified := Some (now, au_id c)\<rparr>)\<lparr>tr_status := s\<rparr>) st"
  from assms(1) obtain st2 where st2: "st2 = ?st1 \<or> (\<exists>b. update_application i org
      (\<lambda>b. b\<lparr>ap_references_verified_at := Some now, ap_status := AS_REFERENCES_VERIFIED\<rparr>) ?st1 = Inr (st2, b))"
    and st': "quiet st2 st'" "references_ok st' = references_ok st2"
  proof (cases "count_unverified i ?st1 = 0")
    case True
    with assms(1) show thesis
      by (clarsimp simp: verify_trade_reference_def Let_def) (rule that, rule disjI2, rule exI, assumption, simp_all)
  next
    case False
    then show thesis using assms(1) that [of ?st1] by (auto simp: verify_trade_reference_def Let_def)
  qed
  have q: "quiet ?st1 st2 \<and> ad_refs st2 = ad_refs ?st1" using st2 by (auto dest!: update_quiet)
  have "references_ok ?st1" by (rule update_reference_ok [OF assms(2)]) simp
  then have "references_ok st2" by (rule references_same) (use q in \<open>simp_all add: quiet_def\<close>)
  moreover have "quiet st st2" by (rule quiet_trans [of st ?st1]) (use q in simp_all)
  ultimately show ?thesis using st' quiet_trans by blast
qed

lemma update_trade_reference_ok:
  "update_trade_reference org i rf ups st = Inr st' \<Longrightarrow> references_ok st \<Longrightarrow> references_ok st' \<and> quiet st st'"
  by (auto simp: update_trade_reference_def Let_def intro!: update_reference_ok split: if_split_asm)

lemma draft_refs_ok:
  assumes "(case trs of Some (t # ts) \<Rightarrow> sync_trade_references i trs st | _ \<Rightarrow> Inr (st, [])) = Inr (st', rs) \<or>
      (case trs of None \<Rightarrow> Inr (st, []) | Some t \<Rightarrow> sync_trade_references i trs st) = Inr (st', rs) \<or>
      sync_trade_references i trs st = Inr (st', rs)"
    and "references_ok st" and "i \<in> rid ` set (ad_apps st)"
  shows "references_ok st' \<and> quiet st st' \<and> ad_apps st' = ad_apps st"
proof -
  have "sync_trade_references i trs st = Inr (st', rs) \<or> st' = st"
    using assms(1) by (cases trs; cases "the trs") auto
  then show ?thesis using sync_references_ok [of i trs st st' rs] sync_refs [of i trs st st' rs] assms(2,3) by auto
qed

lemma inserted_ok:
  assumes "insert_application a st = Inr st1" and "ap_status a = AS_SUBMITTED" and "references_ok st"
  shows "references_ok st1 \<and> quiet st st1 \<and> rid a \<in> rid ` set (ad_apps st1)"
  using insert_quiet [OF assms(1,2)] references_same [OF assms(3)] by (auto simp: quiet_def)

lemma create_ok:
  assumes "create_application ri email_ok org data trs c i n now st = Inr st'" and "references_ok st"
  shows "references_ok st' \<and> quiet st st'"
proof -
  from assms(1) obtain a st1 st2 refs where a: "insert_application a st = Inr st1" "ap_status a = AS_SUBMITTED" "rid a = i"
    and s: "sync_trade_references i trs st1 = Inr (st2, refs)" and q: "quiet st2 st'" "references_ok st' = references_ok st2"
    by (auto simp: create_application_def Let_def)
  note k = inserted_ok [OF a(1,2) assms(2)]
  have "references_ok st2 \<and> quiet st1 st2" using draft_refs_ok [OF disjI2 [OF disjI2 [OF s]]] k a(3) by simp
  then show ?thesis using q k quiet_trans by blast
qed

lemma save_draft_ok:
  assumes "save_draft ri org c data trs i d n st = Inr st'" and "references_ok st"
  shows "references_ok st' \<and> quiet st st'"
proof -
  from assms(1) obtain a st1 st2 refs where a: "insert_application a st = Inr st1" "ap_status a = AS_SUBMITTED" "rid a = i"
    and s: "(case trs of Some (t # ts) \<Rightarrow> sync_trade_references i trs st1 | _ \<Rightarrow> Inr (st1, [])) = Inr (st2, refs)"
    and q: "quiet st2 st'" "references_ok st' = references_ok st2"
    by (clarsimp simp: save_draft_def Let_def) (rule that, assumption, simp, simp, assumption, simp, simp)
  note k = inserted_ok [OF a(1,2) assms(2)]
  have "references_ok st2 \<and> quiet st1 st2" using draft_refs_ok [OF disjI1 [OF s]] k a(3) by simp
  then show ?thesis using q k quiet_trans by blast
qed

lemma stored_ok:
  assumes "store_fields i org fs a st = Inr (st1, b)" and "references_ok st"
  shows "references_ok st1 \<and> quiet st st1"
  using store_quiet [OF assms(1)] references_same [OF assms(2)] by (auto simp: quiet_def)

lemma update_draft_ok:
  assumes "update_application_draft ri org d c data trs st = Inr st'" and "references_ok st" and "apps_ok (ad_apps st)"
  shows "references_ok st' \<and> quiet st st'"
proof -
  from assms(1) obtain r a fs st1 b st2 refs where d: "get_draft_or_404 d org st = Inr (r, a)"
    and s: "store_fields (rid a) org fs a st = Inr (st1, b)"
    and y: "(case trs of None \<Rightarrow> Inr (st1, []) | Some t \<Rightarrow> sync_trade_references (rid a) trs st1) = Inr (st2, refs)"
    and q: "quiet st2 st'" "references_ok st' = references_ok st2"
    unfolding update_application_draft_def Let_def by (elim bind_result_InrE) (force split: if_split_asm)
  note k = stored_ok [OF s assms(2)]
  have "rid a \<in> rid ` set (ad_apps st1)"
    using get_draft_Inr [OF d assms(3)] get_active_Some k unfolding quiet_def by blast
  then have "references_ok st2 \<and> quiet st1 st2" using draft_refs_ok [OF disjI2 [OF disjI1 [OF y]]] k by simp
  then show ?thesis using q k quiet_trans by blast
qed

lemma publish_ok:
  assumes "publish_draft ri email_ok org d c data trs n now st = Inr st'" and "references_ok st" and "apps_ok (ad_apps st)"
  shows "references_ok st' \<and> quiet st st'"
proof (rule publish_parts [OF assms(1,3)])
  fix r a st1 b st2 st3 a' refs
  let ?f = "\<lambda>b :: org_credit_application. b\<lparr>ap_number := Some n, ap_status := AS_SUBMITTED,
           ap_state := LS_ACTIVE, ap_submitted_at := Some now, ap_submitted_by := Some (au_id c)\<rparr>"
  assume d: "get_draft_or_404 d org st = Inr (r, a)"
    and s: "store_fields (rid a) org (extract_application_fields data) a st = Inr (st1, b)"
    and y: "sync_trade_references (rid a) trs st1 = Inr (st2, refs)"
    and u: "update_application (rid a) org ?f st2 = Inr (st3, a')"
    and e: "ad_apps st' = ad_apps st3" "ad_refs st' = ad_refs st3" "ad_investigations st' = ad_investigations st3"
    "cr_accounts (ad_credit st') = cr_accounts (ad_credit st3)" "cr_ledger (ad_credit st') = cr_ledger (ad_credit st3)"
    "cr_history (ad_credit st') = cr_history (ad_credit st3)"
  note k = stored_ok [OF s assms(2)]
  have "rid a \<in> rid ` set (ad_apps st1)"
    using get_draft_Inr [OF d assms(3)] get_active_Some k unfolding quiet_def by blast
  then have r2: "references_ok st2 \<and> quiet st1 st2" using draft_refs_ok [OF disjI2 [OF disjI2 [OF y]]] k by simp
  have q3: "quiet st2 st3 \<and> ad_refs st3 = ad_refs st2" using update_quiet [OF u] by simp
  then have "references_ok st3" using references_same [of st2 st3] r2 by (simp add: quiet_def)
  moreover have "quiet st3 st'" using e by (simp add: quiet_def)
  ultimately show ?thesis using quiet_trans k r2 q3 e(1,2) unfolding references_ok_def by metis
qed

subsection \<open>Investigations\<close>

definition in_progress_for :: "string \<times> string \<Rightarrow> investigation \<Rightarrow> bool" where
  "in_progress_for p g \<longleftrightarrow> ig_status g = IG_IN_PROGRESS \<and> ig_application_id g = Some (fst p) \<and> ig_organization_id g = snd p"

definition investigations_ok :: "application_db \<Rightarrow> bool" where
  \<comment> \<open>one at a time per organisation; an application that waits for one has it\<close>
  "investigations_ok st \<longleftrightarrow> distinct (map ig_id (ad_investigations st)) \<and>
     (\<forall>g \<in> set (ad_investigations st). \<forall>h \<in> set (ad_investigations st). ig_status g = IG_IN_PROGRESS \<longrightarrow>
        ig_status h = IG_IN_PROGRESS \<longrightarrow> ig_organization_id g = ig_organization_id h \<longrightarrow> g = h) \<and>
     (\<forall>p \<in> investigating (ad_apps st). \<exists>g \<in> set (ad_investigations st). in_progress_for p g)"

definition books_kept :: "credit_state \<Rightarrow> credit_state \<Rightarrow> bool" where
  "books_kept c c' \<longleftrightarrow> cr_accounts c' = cr_accounts c \<and> cr_ledger c' = cr_ledger c \<and> cr_history c' = cr_history c"

lemma quiet_investigations: "quiet st st' \<Longrightarrow> investigations_ok st \<Longrightarrow> investigations_ok st'"
  unfolding quiet_def investigations_ok_def by auto

lemma quiet_books: "quiet st st' \<Longrightarrow> books_kept (ad_credit st) (ad_credit st')"
  by (simp add: quiet_def books_kept_def)

lemma active_investigation:
  assumes "get_active_for_application org i st = Some g"
  shows "g \<in> set (ad_investigations st) \<and> in_progress_for (i, org) g"
proof -
  let ?xs = "filter (\<lambda>g. ig_organization_id g = org \<and> ig_application_id g = Some i \<and> ig_status g = IG_IN_PROGRESS) (ad_investigations st)"
  obtain gs where eq: "sort_key (\<lambda>g. - ig_requested_at g) ?xs = g # gs"
    using assms by (auto simp: get_active_for_application_def split: list.splits)
  have "g \<in> set (sort_key (\<lambda>g. - ig_requested_at g) ?xs)" unfolding eq by simp
  then show ?thesis by (simp add: in_progress_for_def)
qed

lemma sort_key_Nil: "sort_key k xs = [] \<longleftrightarrow> xs = []"
  by (metis length_0_conv length_sort)

lemma no_active_investigation:
  "get_active_for_application org i st = None \<longleftrightarrow> (\<forall>g \<in> set (ad_investigations st). \<not> in_progress_for (i, org) g)"
proof -
  let ?xs = "filter (\<lambda>g. ig_organization_id g = org \<and> ig_application_id g = Some i \<and> ig_status g = IG_IN_PROGRESS) (ad_investigations st)"
  have "get_active_for_application org i st = None \<longleftrightarrow> sort_key (\<lambda>g. - ig_requested_at g) ?xs = []"
    by (cases "sort_key (\<lambda>g. - ig_requested_at g) ?xs") (simp_all add: get_active_for_application_def)
  also have "\<dots> \<longleftrightarrow> ?xs = []" by (rule sort_key_Nil)
  finally show ?thesis by (auto simp: in_progress_for_def filter_empty_conv)
qed

lemma investigating_put:
  "(\<And>x. ap_organization_id (f x) = ap_organization_id x) \<Longrightarrow> investigating (put_row i org f apps) \<subseteq> insert (i, org) (investigating apps)"
  "(\<And>x. ap_organization_id (f x) = ap_organization_id x \<and> ap_status (f x) \<noteq> AS_INVESTIGATION) \<Longrightarrow>
     investigating (put_row i org f apps) \<subseteq> investigating apps - {(i, org)}"
  unfolding investigating_def put_row_def application_scope_def by (force split: if_splits)+

lemma set_check_frame:
  assumes "set_check_status i org s now st0 = Inr st'"
  shows "ad_investigations st' = ad_investigations st0 \<and> ad_refs st' = ad_refs st0 \<and> ad_credit st' = ad_credit st0
     \<and> rid ` set (ad_apps st') = rid ` set (ad_apps st0) \<and> investigating (ad_apps st') \<subseteq> insert (i, org) (investigating (ad_apps st0))
     \<and> (s \<noteq> AS_INVESTIGATION \<longrightarrow> investigating (ad_apps st') \<subseteq> investigating (ad_apps st0) - {(i, org)})"
proof -
  let ?f = "\<lambda>b. b\<lparr>ap_status := s, ap_credit_check_run_at := Some now\<rparr>"
  have "st' = st0\<lparr>ad_apps := put_row i org ?f (ad_apps st0)\<rparr>"
    using assms by (auto simp: set_check_status_def update_application_Inr)
  moreover have "rid ` set (put_row i org ?f apps) = rid ` set apps" for apps
    unfolding put_row_def by (induction apps) auto
  moreover have "investigating (put_row i org ?f (ad_apps st0)) \<subseteq> insert (i, org) (investigating (ad_apps st0))"
    by (rule investigating_put) simp
  moreover have "s \<noteq> AS_INVESTIGATION \<Longrightarrow> investigating (put_row i org ?f (ad_apps st0)) \<subseteq> investigating (ad_apps st0) - {(i, org)}"
    by (rule investigating_put) simp
  ultimately show ?thesis by simp
qed

lemma fresh_investigation_ok:
  assumes "open_fresh_investigation org i rn od ig now st = Inr (st', g)" and "investigations_ok st"
  shows "investigations_ok st' \<and> g \<in> set (ad_investigations st') \<and> in_progress_for (i, org) g"
proof (cases "get_active_for_application org i st")
  case None
  let ?g = "\<lparr>ig_id = ig, ig_organization_id = org, ig_application_id = Some i, ig_status = IG_IN_PROGRESS,
     ig_reg_no = rn, ig_requested_at = now, ig_completed_at = None, ig_connect_id = None\<rparr>"
  have "insert_investigation ?g st = Inr st'" "g = ?g"
    using assms(1) None by (auto simp: open_fresh_investigation_def Let_def split: if_split_asm)
  then have "st' = st\<lparr>ad_investigations := ad_investigations st @ [g]\<rparr>" "ig_id g \<notin> ig_id ` set (ad_investigations st)"
    "\<forall>h \<in> set (ad_investigations st). ig_organization_id h = org \<longrightarrow> ig_status h \<noteq> IG_IN_PROGRESS" "in_progress_for (i, org) g"
    "ig_organization_id g = org"
    by (auto simp: insert_investigation_def in_progress_for_def split: if_split_asm)
  then show ?thesis using assms(2) unfolding investigations_ok_def by auto
next
  case (Some h)
  then show ?thesis using assms active_investigation [OF Some] by (auto simp: open_fresh_investigation_def)
qed

definition application_books :: "application_db \<Rightarrow> bool" where
  "application_books st \<longleftrightarrow> apps_ok (ad_apps st) \<and> references_ok st \<and> investigations_ok st \<and> credit_books (ad_credit st)"

definition tables_ok :: "application_db \<Rightarrow> bool" where
  \<comment> \<open>the invariant without the table of applications\<close>
  "tables_ok st \<longleftrightarrow> references_ok st \<and> investigations_ok st \<and> credit_books (ad_credit st)"

lemma books_split: "application_books st \<longleftrightarrow> apps_ok (ad_apps st) \<and> tables_ok st"
  by (simp add: application_books_def tables_ok_def)

lemma quiet_tables: "quiet st st' \<Longrightarrow> references_ok st' \<Longrightarrow> tables_ok st \<Longrightarrow> tables_ok st'"
  using quiet_investigations by (auto simp: tables_ok_def quiet_def)

lemma quiet_same_references: "quiet st st' \<and> ad_refs st' = ad_refs st \<Longrightarrow> tables_ok st \<Longrightarrow> tables_ok st'"
  using quiet_tables references_same by (auto simp: tables_ok_def quiet_def)

lemma tables_audit [simp]:
  "tables_ok (application_audit ri c act et e x y r org ev sv st) = tables_ok st" "tables_ok (upsert_report org d st) = tables_ok st"
  by (simp_all add: tables_ok_def investigations_ok_def references_ok_def)

lemma set_check_tables:
  assumes "set_check_status i org s now st0 = Inr st'" and "tables_ok st0"
    and "s = AS_INVESTIGATION \<longrightarrow> (\<exists>g \<in> set (ad_investigations st0). in_progress_for (i, org) g)"
  shows "tables_ok st'"
proof -
  note f = set_check_frame [OF assms(1)]
  have "\<exists>g \<in> set (ad_investigations st0). in_progress_for p g" if "p \<in> investigating (ad_apps st')" for p
  proof (cases "p \<in> investigating (ad_apps st0)")
    case True
    then show ?thesis using assms(2) by (auto simp: tables_ok_def investigations_ok_def)
  next
    case False
    then have "p = (i, org) \<and> s = AS_INVESTIGATION" using f that by blast
    then show ?thesis using assms(3) by simp
  qed
  then show ?thesis using f assms(2) by (simp add: tables_ok_def investigations_ok_def references_ok_def)
qed

lemma run_check_tables:
  assumes "run_credit_check ri org i c assess od ig now st = Inr st'" and "tables_ok st"
  shows "tables_ok st'"
proof -
  from assms(1) obtain a where opn: "open_application org i st = Inr a"
    by (auto simp: run_credit_check_def simp del: open_application_Inr)
  note run = assms(1) [unfolded run_credit_check_def opn bind_result_simps Let_def guard_Inr]
  show ?thesis
  proof (cases "assess (registration_number a)")
    case (Report k d)
    then show ?thesis using run assms(2) by (auto simp: check_audit_def elim!: set_check_tables)
  next
    case NoCompany
    then obtain st1 g st2 where g: "open_fresh_investigation org i (registration_number a) od ig now st = Inr (st1, g)"
      and s: "set_check_status i org AS_INVESTIGATION now st1 = Inr st2" and e: "tables_ok st' = tables_ok st2"
      using run by (auto simp: check_audit_def)
    have "tables_ok st1"
      using fresh_investigation_ok [OF g] fresh_frame [OF g] assms(2) by (simp add: tables_ok_def references_ok_def)
    then show ?thesis using set_check_tables [OF s] fresh_investigation_ok [OF g] assms(2) e by (auto simp: tables_ok_def)
  next
    case ProviderFailure
    then show ?thesis using run assms(2) by (auto simp: check_audit_def elim!: set_check_tables)
  qed
qed

lemma close_investigation_tables:
  assumes s: "set_check_status i org s now (update_investigation (ig_id g) f st0) = Inr st'" and ok: "tables_ok st0"
    and sn: "s \<noteq> AS_INVESTIGATION" and g: "g \<in> set (ad_investigations st0)" "in_progress_for (i, org) g"
    and f: "\<And>h. ig_id (f h) = ig_id h \<and> ig_status (f h) \<noteq> IG_IN_PROGRESS"
  shows "tables_ok st'"
proof -
  let ?m = "\<lambda>h. if ig_id h = ig_id g then f h else h"
  note fr = set_check_frame [OF s]
  have igs: "ad_investigations st' = map ?m (ad_investigations st0)" using fr by (simp add: update_investigation_def)
  have dist: "distinct (map ig_id (ad_investigations st0))"
    and one: "\<forall>g \<in> set (ad_investigations st0). \<forall>h \<in> set (ad_investigations st0). ig_status g = IG_IN_PROGRESS \<longrightarrow>
        ig_status h = IG_IN_PROGRESS \<longrightarrow> ig_organization_id g = ig_organization_id h \<longrightarrow> g = h"
    and has: "\<forall>p \<in> investigating (ad_apps st0). \<exists>g \<in> set (ad_investigations st0). in_progress_for p g"
    using ok by (auto simp: tables_ok_def investigations_ok_def)
  have "map ig_id (map ?m (ad_investigations st0)) = map ig_id (ad_investigations st0)" using f by simp
  then have d: "distinct (map ig_id (ad_investigations st'))" using dist igs by metis
  have same: "?m h = h" if "ig_status (?m h) = IG_IN_PROGRESS" for h using f that by (cases "ig_id h = ig_id g") auto
  have old: "h \<in> set (ad_investigations st0)" if "h \<in> set (ad_investigations st')" "ig_status h = IG_IN_PROGRESS" for h
  proof -
    from that(1) obtain k where "k \<in> set (ad_investigations st0)" "h = ?m k" unfolding igs set_map by (rule imageE)
    with same [of k] that(2) show ?thesis by metis
  qed
  have single: "\<forall>g \<in> set (ad_investigations st'). \<forall>h \<in> set (ad_investigations st'). ig_status g = IG_IN_PROGRESS \<longrightarrow>
        ig_status h = IG_IN_PROGRESS \<longrightarrow> ig_organization_id g = ig_organization_id h \<longrightarrow> g = h"
    using old one by blast
  have "\<exists>h \<in> set (ad_investigations st'). in_progress_for p h" if "p \<in> investigating (ad_apps st')" for p
  proof -
    have p: "p \<in> investigating (ad_apps st0)" "p \<noteq> (i, org)" using fr sn that by auto
    then obtain h where h: "h \<in> set (ad_investigations st0)" "in_progress_for p h" using has by blast
    have "h \<noteq> g" using h(2) g(2) p(2) by (cases p) (auto simp: in_progress_for_def)
    then have "ig_id h \<noteq> ig_id g" using dist h(1) g(1) by (metis distinct_map inj_onD)
    then have eq: "?m h = h" by simp
    have "?m h \<in> ?m ` set (ad_investigations st0)" using h(1) by (rule imageI)
    then have "h \<in> set (ad_investigations st')" unfolding igs set_map by (simp only: eq)
    then show ?thesis using h(2) by blast
  qed
  then have "investigations_ok st'" unfolding investigations_ok_def using d single by blast
  then show ?thesis using fr ok by (simp add: tables_ok_def references_ok_def)
qed

lemma refresh_tables:
  assumes "refresh_credit_check ri org i c assess now st = Inr st'" and "tables_ok st"
  shows "tables_ok st'"
proof -
  from assms(1) obtain a g where opn: "open_application org i st = Inr a" and ig: "get_active_for_application org i st = Some g"
    by (auto simp: refresh_credit_check_def simp del: open_application_Inr split: option.splits)
  note run = assms(1) [unfolded refresh_credit_check_def opn bind_result_simps guard_Inr ig option.case]
  note g = active_investigation [OF ig]
  show ?thesis
  proof (cases "assess (if truthy_str (ig_reg_no g) then ig_reg_no g else registration_number a)")
    case (Report k d)
    then obtain st1 where s: "set_check_status i org AS_CHECK_COMPLETED now (update_investigation (ig_id g)
        (\<lambda>h. h\<lparr>ig_status := IG_COMPLETED, ig_completed_at := Some now, ig_connect_id := Some k\<rparr>) (upsert_report org d st)) = Inr st1"
      and e: "tables_ok st' = tables_ok st1"
      using run by (auto simp: check_audit_def)
    have "tables_ok st1" by (rule close_investigation_tables [OF s]) (use assms(2) g in simp_all)
    with e show ?thesis by simp
  next
    case NoCompany
    then show ?thesis using run assms(2) by simp
  next
    case ProviderFailure
    then obtain st1 where s: "set_check_status i org AS_CHECK_FAILED now (update_investigation (ig_id g)
        (\<lambda>h. h\<lparr>ig_status := IG_FAILED, ig_completed_at := Some now\<rparr>) st) = Inr st1"
      and e: "tables_ok st' = tables_ok st1"
      using run by (auto simp: check_audit_def)
    have "tables_ok st1" by (rule close_investigation_tables [OF s]) (use assms(2) g in simp_all)
    with e show ?thesis by simp
  qed
qed

lemma discard_parts:
  assumes "delete_application_draft ri org d c n st = Inr st'" and "apps_ok (ad_apps st)"
  obtains a where "a \<in> set (ad_apps st)" "ap_state a = LS_DRAFT"
    "ad_apps st' = filter (\<lambda>s. rid s \<noteq> rid a) (ad_apps st)" "ad_refs st' = filter (\<lambda>t. tr_application_id t \<noteq> rid a) (ad_refs st)"
    "ad_investigations st' = map (\<lambda>g. if ig_application_id g = Some (rid a) then g\<lparr>ig_application_id := None\<rparr> else g) (ad_investigations st)"
    "cr_accounts (ad_credit st') = cr_accounts (ad_credit st)" "cr_ledger (ad_credit st') = cr_ledger (ad_credit st)"
    "cr_history (ad_credit st') = cr_history (ad_credit st)"
proof -
  from assms(1) obtain r a apps where d: "get_draft_or_404 d org st = Inr (r, a)" and s: "ap_state a = LS_DRAFT"
    and h: "hard_delete ''org_credit_applications'' (rid a) (application_scope org) (ad_apps st) = Inr apps" and e: "ad_apps st' = apps"
      "ad_refs st' = filter (\<lambda>t. tr_application_id t \<noteq> rid a) (ad_refs st)"
      "ad_investigations st' = map (\<lambda>g. if ig_application_id g = Some (rid a) then g\<lparr>ig_application_id := None\<rparr> else g) (ad_investigations st)"
      "cr_accounts (ad_credit st') = cr_accounts (ad_credit st)" "cr_ledger (ad_credit st') = cr_ledger (ad_credit st)"
      "cr_history (ad_credit st') = cr_history (ad_credit st)"
    by (auto simp: delete_application_draft_def)
  have "a \<in> set (ad_apps st)" using get_draft_Inr [OF d assms(2)] get_active_Some by blast
  moreover have "apps = filter (\<lambda>s. rid s \<noteq> rid a) (ad_apps st)" using h get_by_id_Some by (fastforce simp: hard_delete_def)
  ultimately show thesis using that s e by blast
qed

lemma discard_tables:
  assumes "delete_application_draft ri org d c n st = Inr st'" and "apps_ok (ad_apps st)" and ok: "tables_ok st"
  shows "tables_ok st'"
proof (rule discard_parts [OF assms(1,2)])
  fix a
  let ?m = "\<lambda>g. if ig_application_id g = Some (rid a) then g\<lparr>ig_application_id := None\<rparr> else g"
  assume apps: "ad_apps st' = filter (\<lambda>s. rid s \<noteq> rid a) (ad_apps st)"
    and refs: "ad_refs st' = filter (\<lambda>t. tr_application_id t \<noteq> rid a) (ad_refs st)"
    and igs: "ad_investigations st' = map ?m (ad_investigations st)"
    and bk: "cr_accounts (ad_credit st') = cr_accounts (ad_credit st)" "cr_ledger (ad_credit st') = cr_ledger (ad_credit st)"
      "cr_history (ad_credit st') = cr_history (ad_credit st)"
  have "map ig_id (map ?m xs) = map ig_id xs" for xs by simp
  then have d: "distinct (map ig_id (ad_investigations st'))"
    using ok unfolding igs tables_ok_def investigations_ok_def by metis
  have one: "g = h" if "g \<in> set (ad_investigations st)" "h \<in> set (ad_investigations st)" "ig_status g = IG_IN_PROGRESS"
      "ig_status h = IG_IN_PROGRESS" "ig_organization_id g = ig_organization_id h" for g h
    using ok that unfolding tables_ok_def investigations_ok_def by blast
  have single: "g = h" if m: "g \<in> set (ad_investigations st')" "h \<in> set (ad_investigations st')" and s: "ig_status g = IG_IN_PROGRESS"
      "ig_status h = IG_IN_PROGRESS" "ig_organization_id g = ig_organization_id h" for g h
  proof -
    obtain g0 h0 where gh: "g0 \<in> set (ad_investigations st)" "g = ?m g0" "h0 \<in> set (ad_investigations st)" "h = ?m h0"
      using m unfolding igs set_map by blast
    have k: "ig_status (?m x) = ig_status x" "ig_organization_id (?m x) = ig_organization_id x" for x by simp_all
    have "g0 = h0" using one [OF gh(1,3)] s unfolding gh(2,4) k by blast
    then show ?thesis unfolding gh(2,4) by (rule arg_cong)
  qed
  have "\<exists>h \<in> set (ad_investigations st'). in_progress_for p h" if "p \<in> investigating (ad_apps st')" for p
  proof -
    have p: "p \<in> investigating (ad_apps st)" "fst p \<noteq> rid a" using that unfolding apps investigating_def by auto
    then obtain h where h: "h \<in> set (ad_investigations st)" "in_progress_for p h"
      using ok unfolding tables_ok_def investigations_ok_def by blast
    have eq: "?m h = h" using h(2) p(2) by (auto simp: in_progress_for_def)
    have "?m h \<in> ?m ` set (ad_investigations st)" using h(1) by (rule imageI)
    then have "h \<in> set (ad_investigations st')" unfolding igs set_map by (simp only: eq)
    then show ?thesis using h(2) by blast
  qed
  then have "investigations_ok st'" unfolding investigations_ok_def using d single by blast
  moreover have "references_ok st'" using ok apps refs by (auto simp: tables_ok_def references_ok_def distinct_map_filter)
  ultimately show ?thesis using ok bk by (simp add: tables_ok_def)
qed

lemma approve_tables:
  assumes "approve_application ri org i c l terms freq nts acct now st = Inr st'" and "tables_ok st"
  shows "tables_ok st'"
proof -
  from assms(1) obtain f st1 b cs acc where u: "update_application i org f st = Inr (st1, b)"
    and f: "\<forall>x. ap_organization_id (f x) = ap_organization_id x \<and> ap_status (f x) = AS_APPROVED"
    and p: "provision_account_on_approval ri org c i l terms (map_option application_frequency_value freq) acct now (ad_credit st1) = Inr (cs, acc)"
    and e: "tables_ok st' = tables_ok (st1\<lparr>ad_credit := cs\<rparr>)"
    by (clarsimp simp: approve_application_def) (rule that, assumption, simp add: decide_def, assumption, simp)
  have t: "tables_ok st1" using update_quiet [OF u] f quiet_same_references assms(2) by simp
  have "credit_books cs" using credit_step_good [OF step_provision [OF p]] t by (auto simp: tables_ok_def good_step_def)
  then show ?thesis using t e by (simp add: tables_ok_def investigations_ok_def)
qed

subsection \<open>The machine of the applications\<close>

lemmas quiet_tables_ops = quiet_ops [THEN quiet_same_references]

lemma application_step_tables:
  "application_step st st' \<Longrightarrow> apps_ok (ad_apps st) \<Longrightarrow> tables_ok st \<Longrightarrow> tables_ok st'"
proof (induction rule: application_step.induct)
  case (step_credit op st cs)
  then show ?case
    using credit_step_good [of op "ad_credit st" cs] by (auto simp: tables_ok_def good_step_def investigations_ok_def)
next
  case (step_create ri email_ok org data trs c i n now st st')
  then show ?case using create_ok quiet_tables by (metis tables_ok_def)
next
  case (step_save ri org c data trs i d n st st')
  then show ?case using save_draft_ok quiet_tables by (metis tables_ok_def)
next
  case (step_update ri org d c data trs st st')
  then show ?case using update_draft_ok quiet_tables by (metis tables_ok_def)
next
  case (step_publish ri email_ok org d c data trs n now st st')
  then show ?case using publish_ok quiet_tables by (metis tables_ok_def)
next
  case (step_add_reference ri org i c data rf st st')
  then show ?case using add_reference_ok quiet_tables by (metis tables_ok_def)
next
  case (step_update_reference org i rf ups st st')
  then show ?case using update_trade_reference_ok quiet_tables by (metis tables_ok_def)
next
  case (step_verify ri org i rf c s now st st')
  then show ?case using verify_ok quiet_tables by (metis tables_ok_def)
qed (blast intro: quiet_tables_ops run_check_tables refresh_tables discard_tables approve_tables)+

definition track :: "string \<Rightarrow> application_db \<Rightarrow> (application_state \<times> application_status) option" where
  "track i st = map_option stage (get_by_id i (\<lambda>_. True) (ad_apps st))"

definition track_move ::
    "(application_state \<times> application_status) option \<Rightarrow> (application_state \<times> application_status) option \<Rightarrow> bool" where
  \<comment> \<open>the specification: what may happen to one application, present or not\<close>
  "track_move x y \<longleftrightarrow>
     (case x of
        None \<Rightarrow> y = None \<or> y = Some (LS_DRAFT, AS_SUBMITTED) \<or> y = Some (LS_ACTIVE, AS_SUBMITTED)
      | Some p \<Rightarrow> (case y of None \<Rightarrow> fst p = LS_DRAFT | Some q \<Rightarrow> lifecycle_move p q))"

definition finals_kept :: "org_credit_application list \<Rightarrow> org_credit_application list \<Rightarrow> bool" where
  "finals_kept apps apps' \<longleftrightarrow> (\<forall>a \<in> set apps. final a \<longrightarrow> (\<exists>b \<in> set apps'. rid b = rid a \<and> same_but_deletion a b))"

lemma same_but_deletion_refl [simp]: "same_but_deletion a a"
  by (simp add: same_but_deletion_def)

lemma same_but_deletion_fields:
  "same_but_deletion a b \<Longrightarrow> stage b = stage a \<and> final b = final a"
proof -
  assume "same_but_deletion a b"
  then have "a = b\<lparr>version := version a, ap_deleted_at := ap_deleted_at a\<rparr>" by (simp add: same_but_deletion_def)
  from arg_cong [OF this, of ap_state] arg_cong [OF this, of ap_status]
  have "ap_state a = ap_state b" "ap_status a = ap_status b" by simp_all
  then show ?thesis by (simp add: stage_def final_def)
qed

lemma same_but_deletion_trans: "same_but_deletion a b \<Longrightarrow> same_but_deletion b c \<Longrightarrow> same_but_deletion a c"
proof -
  assume ab: "same_but_deletion a b" and bc: "same_but_deletion b c"
  have "b = c\<lparr>version := version b, ap_deleted_at := ap_deleted_at b\<rparr>" using bc by (simp add: same_but_deletion_def)
  then have "b\<lparr>version := version a, ap_deleted_at := ap_deleted_at a\<rparr> =
      (c\<lparr>version := version b, ap_deleted_at := ap_deleted_at b\<rparr>)\<lparr>version := version a, ap_deleted_at := ap_deleted_at a\<rparr>"
    by (rule arg_cong)
  then show ?thesis using ab by (simp add: same_but_deletion_def)
qed

lemma finals_kept_refl [simp]: "finals_kept apps apps"
  unfolding finals_kept_def using same_but_deletion_refl by blast

lemma finals_kept_trans: "finals_kept xs ys \<Longrightarrow> finals_kept ys zs \<Longrightarrow> finals_kept xs zs"
  unfolding finals_kept_def using same_but_deletion_trans same_but_deletion_fields by metis

lemma apps_step_finals:
  assumes "apps_step apps apps'" and "apps_ok apps"
  shows "finals_kept apps apps'"
  using assms(1)
proof cases
  case (row a f)
  have "\<exists>y \<in> set apps'. rid y = rid x \<and> same_but_deletion x y" if x: "x \<in> set apps" "final x" for x
  proof (cases "rid x = rid a")
    case True
    then have "x = a" using x(1) row(2) assms(2) distinct_ids_unique unfolding apps_ok_def by metis
    moreover have "write_row f a \<in> set apps'" using row(1,2) by force
    ultimately show ?thesis using row(3) x(2) by (metis rid_write_row row_move_def)
  next
    case False
    then have "x \<in> set apps'" using row(1) x(1) by force
    then show ?thesis by auto
  qed
  then show ?thesis by (simp add: finals_kept_def)
next
  case (added a)
  then show ?thesis using same_but_deletion_refl by (auto simp: finals_kept_def)
next
  case (removed a)
  have "\<exists>y \<in> set apps'. rid y = rid x \<and> same_but_deletion x y" if x: "x \<in> set apps" "final x" for x
  proof -
    have "x \<noteq> a" using x(2) removed(3) by (auto simp: final_def)
    then have "rid x \<noteq> rid a" using x(1) removed(2) assms(2) distinct_ids_unique unfolding apps_ok_def by metis
    then show ?thesis using x(1) removed(1) by auto
  qed
  then show ?thesis by (simp add: finals_kept_def)
qed

lemma get_by_id_filter:
  "get_by_id i scope (filter (\<lambda>x. rid x \<noteq> j) rows) = (if i = j then None else get_by_id i scope rows)"
  by (induction rows) auto

lemma apps_step_track:
  assumes "apps_step apps apps'" and "apps_ok apps"
  shows "track_move (map_option stage (get_by_id i (\<lambda>_. True) apps)) (map_option stage (get_by_id i (\<lambda>_. True) apps'))"
proof -
  have refl: "track_move x x" for x by (auto simp: track_move_def lifecycle_move_def split: option.splits)
  have get: "get_by_id (rid a) (\<lambda>_. True) apps = Some a" if "a \<in> set apps" for a
    using get_by_id_distinct [of apps a "\<lambda>_. True"] that assms(2) by (simp add: apps_ok_def)
  show ?thesis
    using assms(1)
  proof cases
    case (row a f)
    show ?thesis
    proof (cases "i = rid a")
      case True
      then show ?thesis using get_by_id_map_write [OF get [OF row(2)], of f] get [OF row(2)] row(1,3)
        by (simp add: track_move_def row_move_def)
    next
      case False
      then show ?thesis using get_by_id_map_write_other [of i "rid a" "\<lambda>_. True" f apps] row(1) refl by simp
    qed
  next
    case (added a)
    show ?thesis
    proof (cases "get_by_id i (\<lambda>_. True) apps")
      case None
      then show ?thesis using added by (cases "ap_state a") (auto simp: track_move_def stage_def)
    next
      case (Some x)
      then show ?thesis using refl added(1) by simp
    qed
  next
    case (removed a)
    show ?thesis
    proof (cases "i = rid a")
      case True
      then show ?thesis using get [OF removed(2)] removed by (simp add: get_by_id_filter track_move_def stage_def)
    next
      case False
      then show ?thesis using refl removed(1) by (simp add: get_by_id_filter)
    qed
  qed
qed

lemma apps_steps_kept:
  assumes "apps_step\<^sup>*\<^sup>* apps apps'" and "apps_ok apps"
  shows "finals_kept apps apps' \<and>
    track_move\<^sup>*\<^sup>* (map_option stage (get_by_id i (\<lambda>_. True) apps)) (map_option stage (get_by_id i (\<lambda>_. True) apps'))"
  using assms
proof (induction rule: rtranclp_induct)
  case base
  then show ?case by simp
next
  case (step ys zs)
  have ok: "apps_ok ys" by (rule apps_steps_ok [OF step(1,4)])
  have "finals_kept apps zs" using step(3,4) apps_step_finals [OF step(2) ok] finals_kept_trans by blast
  then show ?case using step(3,4) apps_step_track [OF step(2) ok, of i] by (meson rtranclp.rtrancl_into_rtrancl)
qed

definition application_promise :: "application_db \<Rightarrow> application_db \<Rightarrow> bool" where
  "application_promise st st' \<longleftrightarrow> finals_kept (ad_apps st) (ad_apps st') \<and> (\<forall>i. track_move\<^sup>*\<^sup>* (track i st) (track i st'))"

interpretation application_machine: guarded_machine application_step application_books application_promise
proof
  fix s t :: application_db
  assume s: "application_books s" and t: "application_step s t"
  have ok: "apps_ok (ad_apps s)" and steps: "apps_step\<^sup>*\<^sup>* (ad_apps s) (ad_apps t)"
    using s application_step_apps [OF t] by (auto simp: books_split)
  show "application_books t"
    using s application_step_tables [OF t] apps_steps_ok [OF steps] by (auto simp: books_split)
  show "application_promise s t"
    using apps_steps_kept [OF steps ok] by (simp add: application_promise_def track_def)
next
  fix s t u :: application_db
  show "application_promise s s" by (simp add: application_promise_def)
  show "application_promise s t \<Longrightarrow> application_promise t u \<Longrightarrow> application_promise s u"
    unfolding application_promise_def using finals_kept_trans rtranclp_trans by metis
qed

subsection \<open>An investigation whose application is closed\<close>

definition orphaned :: "string \<Rightarrow> string \<Rightarrow> application_db \<Rightarrow> bool" where
  \<comment> \<open>an investigation is in progress for an application that is final\<close>
  "orphaned i org st \<longleftrightarrow> (\<exists>g \<in> set (ad_investigations st). in_progress_for (i, org) g) \<and>
     (\<exists>a \<in> set (ad_apps st). rid a = i \<and> final a)"

lemma open_not_final:
  assumes "open_application org i st = Inr a" and "apps_ok (ad_apps st)" and "b \<in> set (ad_apps st)" and "final b"
  shows "rid b \<noteq> i"
proof
  assume "rid b = i"
  moreover have "a \<in> set (ad_apps st)" "rid a = i" "ap_status a \<notin> TERMINAL_STATUSES"
    using assms(1) get_active_Some by auto
  ultimately have "b = a" using assms(2,3) distinct_ids_unique unfolding apps_ok_def by metis
  then show False using assms(4) \<open>ap_status a \<notin> TERMINAL_STATUSES\<close> by (auto simp: final_def)
qed

lemma run_check_grows:
  assumes "run_credit_check ri org i c assess od ig now st = Inr st'"
  shows "set (ad_investigations st) \<subseteq> set (ad_investigations st')"
proof -
  from assms obtain a where opn: "open_application org i st = Inr a"
    by (auto simp: run_credit_check_def simp del: open_application_Inr)
  note run = assms [unfolded run_credit_check_def opn bind_result_simps Let_def guard_Inr]
  have f: "set (ad_investigations st) \<subseteq> set (ad_investigations st1)"
    if "open_fresh_investigation org i rn od ig now st = Inr (st1, g)" for rn st1 g
    using that by (auto simp: open_fresh_investigation_def insert_investigation_def Let_def split: option.splits if_split_asm)
  show ?thesis
    using run by (cases "assess (registration_number a)") (auto simp: check_audit_def dest!: set_check_frame f)
qed

lemma update_investigation_other:
  "g \<in> set (ad_investigations st) \<Longrightarrow> ig_id g \<noteq> j \<Longrightarrow> g \<in> set (ad_investigations (update_investigation j f st))"
  unfolding update_investigation_def by force

lemma refresh_keeps_other:
  assumes "refresh_credit_check ri org' j c assess now st = Inr st'" and "tables_ok st"
    and g: "g \<in> set (ad_investigations st)" "in_progress_for (i, org) g" and "i \<noteq> j"
  shows "g \<in> set (ad_investigations st')"
proof -
  from assms(1) obtain a h where opn: "open_application org' j st = Inr a" and ig: "get_active_for_application org' j st = Some h"
    by (auto simp: refresh_credit_check_def simp del: open_application_Inr split: option.splits)
  note run = assms(1) [unfolded refresh_credit_check_def opn bind_result_simps guard_Inr ig option.case]
  have "g \<noteq> h" using active_investigation [OF ig] g(2) assms(5) by (auto simp: in_progress_for_def)
  then have "ig_id g \<noteq> ig_id h"
    using active_investigation [OF ig] g(1) assms(2) unfolding tables_ok_def investigations_ok_def by (metis distinct_map inj_onD)
  then have k: "g \<in> set (ad_investigations (update_investigation (ig_id h) f st0))" if "ad_investigations st0 = ad_investigations st" for f st0
    using update_investigation_other g(1) that by metis
  show ?thesis
  proof (cases "assess (if truthy_str (ig_reg_no h) then ig_reg_no h else registration_number a)")
    case (Report r d)
    then show ?thesis using run k by (auto simp: check_audit_def dest!: set_check_frame)
  next
    case NoCompany
    then show ?thesis using run g(1) by simp
  next
    case ProviderFailure
    then show ?thesis using run k by (auto simp: check_audit_def dest!: set_check_frame)
  qed
qed

lemma discard_keeps_other:
  assumes "delete_application_draft ri org' d c n st = Inr st'" and "apps_ok (ad_apps st)"
    and g: "g \<in> set (ad_investigations st)" "in_progress_for (i, org) g" and "b \<in> set (ad_apps st)" "rid b = i" "final b"
  shows "g \<in> set (ad_investigations st')"
proof (rule discard_parts [OF assms(1,2)])
  fix a :: org_credit_application
  let ?m = "\<lambda>g. if ig_application_id g = Some (rid a) then g\<lparr>ig_application_id := None\<rparr> else g"
  assume a: "a \<in> set (ad_apps st)" "ap_state a = LS_DRAFT" and igs: "ad_investigations st' = map ?m (ad_investigations st)"
  have "rid a \<noteq> i"
    using a assms(2,5-7) distinct_ids_unique unfolding apps_ok_def final_def by (metis application_state.distinct(1))
  then have eq: "?m g = g" using g(2) by (auto simp: in_progress_for_def)
  have "?m g \<in> ?m ` set (ad_investigations st)" using g(1) by (rule imageI)
  then show ?thesis unfolding igs set_map by (simp only: eq)
qed

lemma approve_investigations: "approve_application ri org i c l terms freq nts acct now st = Inr st' \<Longrightarrow>
  ad_investigations st' = ad_investigations st"
  by (auto simp: approve_application_def update_application_Inr)

lemmas loud_ops = create_ok [THEN conjunct2] save_draft_ok [THEN conjunct2] update_draft_ok [THEN conjunct2]
  publish_ok [THEN conjunct2] add_reference_ok [THEN conjunct2] update_trade_reference_ok [THEN conjunct2] verify_ok [THEN conjunct2]

lemma step_keeps_investigation:
  assumes "application_step st st'" and "application_books st"
    and "g \<in> set (ad_investigations st)" "in_progress_for (i, org) g" and "b \<in> set (ad_apps st)" "rid b = i" "final b"
  shows "g \<in> set (ad_investigations st')"
proof -
  have ok: "apps_ok (ad_apps st)" "references_ok st" "tables_ok st" using assms(2) by (auto simp: books_split tables_ok_def)
  have q: "quiet st st' \<Longrightarrow> ?thesis" using assms(3) by (simp add: quiet_def)
  show ?thesis
    using assms(1)
  proof cases
    case (step_refresh ri org' j c assess now)
    then have "i \<noteq> j" using open_not_final [of org' j st _ b] ok(1) assms(5-7)
      by (auto simp: refresh_credit_check_def simp del: open_application_Inr)
    then show ?thesis using refresh_keeps_other step_refresh ok(3) assms(3,4) by blast
  next
    case (step_discard ri org' d c n)
    then show ?thesis using discard_keeps_other ok(1) assms(3-7) by blast
  next
    case (step_check ri org' j c assess od ig now)
    then show ?thesis using run_check_grows assms(3) by blast
  next
    case (step_approve ri org' j c l terms freq nts acct now)
    then show ?thesis using approve_investigations assms(3) by metis
  next
    case (step_credit op cs)
    then show ?thesis using assms(3) by simp
  qed (rule q, use ok in \<open>blast intro: loud_ops quiet_ops [THEN conjunct1]\<close>)+
qed

lemma orphaned_stays:
  assumes "application_step\<^sup>*\<^sup>* st st'" and "application_books st" and "orphaned i org st"
  shows "orphaned i org st'"
  using assms
proof (induction rule: rtranclp_induct)
  case (step y z)
  have y: "application_books y" by (rule application_machine.run_good [OF step(1,4)])
  obtain g b where g: "g \<in> set (ad_investigations y)" "in_progress_for (i, org) g" and b: "b \<in> set (ad_apps y)" "rid b = i" "final b"
    using step(3-5) by (auto simp: orphaned_def)
  obtain b' where "b' \<in> set (ad_apps z)" "rid b' = i" "final b'"
    using application_machine.step_promise [OF y step(2)] b same_but_deletion_fields
    unfolding application_promise_def finals_kept_def by metis
  then show ?case using step_keeps_investigation [OF step(2) y g b] g(2) by (auto simp: orphaned_def)
qed

subsection \<open>What makes the operations succeed\<close>

lemma account_frequency_ok:
  "\<exists>f. (case map_option application_frequency_value freq of None \<Rightarrow> Inr None
     | Some v \<Rightarrow> bind_result (review_frequency_of (if v = ''ANNUALLY'' then ''ANNUAL'' else v)) (\<lambda>f. Inr (Some f))) = Inr f"
proof (cases freq)
  case (Some f)
  then show ?thesis by (cases f) (simp_all add: review_frequency_of_def)
qed simp

lemma provision_terms [simp]: "ca_payment_terms_days (provision_row c l t f now a) = Some t"
  by (simp add: provision_row_def Let_def set_status_def)

lemma provision_result:
  assumes "provision_account_on_approval ri org c app l t f i now st = Inr (st', a)" and b: "credit_books st"
  shows "account_by_org org st' = Some a \<and> ca_status a = ACTIVE \<and> ca_credit_limit a = Some l \<and> ca_payment_terms_days a = Some t
     \<and> ca_used_credit a = (case account_by_org org st of None \<Rightarrow> 0 | Some b \<Rightarrow> ca_used_credit b)"
proof -
  note d = assms(1) [unfolded provision_account_on_approval_def Let_def]
  from d obtain st1 where p: "provision_create org c l i now st = Inr st1" by auto
  from d p obtain old where old: "account_by_org org st1 = Some old" by auto
  from d p old obtain freq where a: "a = provision_row c l t freq now old" and acc: "cr_accounts st' = replaced a (cr_accounts st1)"
    by auto
  note g = provision_create_good [OF p b]
  have b': "credit_books st'" using provision_good [OF assms] by (simp add: good_step_def)
  have same: "ca_id a = ca_id old" "ca_org a = ca_org old" by (simp_all add: a)
  have "account_by_org org st' = Some a"
    using account_by_org_replaced [OF g(1) account_by_org_member [OF old] same acc b', of org] account_by_org_Some [OF old] by simp
  moreover have "ca_used_credit old = (case account_by_org org st of None \<Rightarrow> 0 | Some b \<Rightarrow> ca_used_credit b)"
  proof (cases "account_by_org org st")
    case None
    then obtain n where n: "create_account n st = Inr st1" "ca_used_credit n = 0" "ca_status n = ACTIVE" "ca_org n = org"
      using p by (force simp: provision_create_def)
    then show ?thesis using create_account_good(3) [OF n(1) b n(2,3)] old None by simp
  next
    case (Some k)
    then show ?thesis using g(2) [OF Some] old by simp
  qed
  ultimately show ?thesis by (simp add: a)
qed

lemma provision_opens:
  assumes "org \<in> set (cr_orgs st)" and "account_by_org org st = None \<longrightarrow> i \<notin> ca_id ` set (cr_accounts st)"
  shows "\<exists>st' a. provision_account_on_approval ri org c app l t (map_option application_frequency_value freq) i now st = Inr (st', a)"
proof -
  have free: "org \<notin> ca_org ` set (cr_accounts st)" if "account_by_org org st = None"
    using that by (auto simp: account_by_org_def find_None_iff)
  have "\<exists>st1. provision_create org c l i now st = Inr st1"
    using assms(2) free by (auto simp: provision_create_def create_account_def)
  then obtain st1 where p: "provision_create org c l i now st = Inr st1" ..
  have "\<exists>old. account_by_org org st1 = Some old"
  proof (cases "account_by_org org st")
    case None
    then obtain n where "st1 = st\<lparr>cr_accounts := cr_accounts st @ [n]\<rparr>" "ca_org n = org"
      using p by (force simp: provision_create_def create_account_def split: if_split_asm)
    then show ?thesis by (cases "account_by_org org st1") (auto simp: account_by_org_def find_None_iff)
  next
    case (Some k)
    then show ?thesis using p by (simp add: provision_create_def)
  qed
  then obtain old where old: "account_by_org org st1 = Some old" ..
  obtain f where f: "(case map_option application_frequency_value freq of None \<Rightarrow> Inr None
     | Some v \<Rightarrow> bind_result (review_frequency_of (if v = ''ANNUALLY'' then ''ANNUAL'' else v)) (\<lambda>f. Inr (Some f))) = Inr f"
    using account_frequency_ok by blast
  show ?thesis
    using assms(1) p old f by (simp add: provision_account_on_approval_def Let_def org_or_404_def)
qed

lemma get_active_audit [simp]:
  "get_active i org (application_audit ri c act et e x y r org' ev sv st) = get_active i org st"
  "get_active i org (st\<lparr>ad_credit := cr\<rparr>) = get_active i org st" "get_active i org (upsert_report org' d st) = get_active i org st"
  by (simp_all add: get_active_def)

lemma get_active_put:
  assumes "get_active i org st = Some a" and "\<And>x. ap_organization_id (f x) = ap_organization_id x \<and> ap_deleted_at (f x) = ap_deleted_at x"
  shows "get_active i org (st\<lparr>ad_apps := put_row i org f (ad_apps st)\<rparr>) = Some (write_row f a)"
proof -
  have "get_by_id i (\<lambda>a. ap_organization_id a = org \<and> ap_deleted_at a = None) (put_row i org f apps) =
      map_option (write_row f) (get_by_id i (\<lambda>a. ap_organization_id a = org \<and> ap_deleted_at a = None) apps)" for apps
    using assms(2) unfolding put_row_def application_scope_def by (induction apps) auto
  then show ?thesis using assms(1) by (simp add: get_active_def)
qed

lemma update_succeeds:
  assumes "get_active i org st = Some a" and "apps_ok (ad_apps st)"
  shows "update_application i org f st = Inr (st\<lparr>ad_apps := put_row i org f (ad_apps st)\<rparr>, write_row f a)"
  using get_by_scope [OF assms] by (simp add: update_application_Inr)

lemma open_succeeds:
  "org \<in> set (cr_orgs (ad_credit st)) \<Longrightarrow> get_active i org st = Some a \<Longrightarrow> ap_status a \<notin> TERMINAL_STATUSES
   \<Longrightarrow> open_application org i st = Inr a"
  by simp

definition same_case :: "org_credit_application \<Rightarrow> org_credit_application \<Rightarrow> bool" where
  "same_case a b \<longleftrightarrow> ap_state b = ap_state a \<and> ap_form b = ap_form a \<and> ap_number b = ap_number a"

definition next_status :: "application_db \<Rightarrow> string \<Rightarrow> string \<Rightarrow> org_credit_application \<Rightarrow> application_status \<Rightarrow> application_db \<Rightarrow> bool" where
  \<comment> \<open>one step that gives the application a status and leaves its columns, the references and the credit books\<close>
  "next_status st i org a s st' \<longleftrightarrow> application_step st st' \<and> ad_refs st' = ad_refs st \<and>
     cr_orgs (ad_credit st') = cr_orgs (ad_credit st) \<and> cr_accounts (ad_credit st') = cr_accounts (ad_credit st) \<and>
     (\<exists>b. get_active i org st' = Some b \<and> same_case a b \<and> ap_status b = s)"

lemma assign_succeeds:
  assumes "apps_ok (ad_apps st)" and "org \<in> set (cr_orgs (ad_credit st))" and "get_active i org st = Some a" and "ap_status a = AS_SUBMITTED"
  shows "\<exists>st'. assign_reviewer ri org i c rv now st = Inr st' \<and> next_status st i org a AS_REVIEWER_ASSIGNED st'"
proof -
  let ?f = "\<lambda>b :: org_credit_application. b\<lparr>ap_reviewer := Some rv, ap_status := AS_REVIEWER_ASSIGNED, ap_reviewer_assigned_at := Some now\<rparr>"
  have s: "assign_reviewer ri org i c rv now st = Inr (application_audit ri c ''org_credit_application.assign_reviewer'' ''org_credit_application'' i None
         (Some [(''reviewer_user_id'', JStr rv)]) ''Assigned reviewer to credit application'' org
         ''CREDIT_APPLICATION_ASSIGNED'' ''NOTICE'' (st\<lparr>ad_apps := put_row i org ?f (ad_apps st)\<rparr>))"
    (is "_ = Inr ?t")
    using assms by (simp add: assign_reviewer_def open_succeeds update_succeeds del: open_application_Inr)
  have "next_status st i org a AS_REVIEWER_ASSIGNED ?t"
    using step_assign [OF s] get_active_put [OF assms(3), of ?f] by (simp add: next_status_def same_case_def)
  with s show ?thesis by blast
qed

lemma set_check_succeeds:
  assumes "apps_ok (ad_apps st)" and "get_active i org st = Some a"
  shows "\<exists>st'. set_check_status i org s now st = Inr st' \<and> ad_refs st' = ad_refs st \<and> ad_credit st' = ad_credit st
     \<and> ad_investigations st' = ad_investigations st \<and> (\<exists>b. get_active i org st' = Some b \<and> same_case a b \<and> ap_status b = s)"
  using update_succeeds [OF assms(2,1), of "\<lambda>b. b\<lparr>ap_status := s, ap_credit_check_run_at := Some now\<rparr>"]
    get_active_put [OF assms(2), of "\<lambda>b. b\<lparr>ap_status := s, ap_credit_check_run_at := Some now\<rparr>"]
  by (simp add: set_check_status_def same_case_def)

lemma check_succeeds:
  assumes "apps_ok (ad_apps st)" and "org \<in> set (cr_orgs (ad_credit st))" and "get_active i org st = Some a"
    and "ap_status a = AS_REVIEWER_ASSIGNED"
  shows "\<exists>st'. run_credit_check ri org i c (\<lambda>_. Report k d) od ig now st = Inr st' \<and> next_status st i org a AS_CHECK_COMPLETED st'"
proof -
  obtain st1 b where s1: "set_check_status i org AS_CHECK_COMPLETED now (upsert_report org d st) = Inr st1" "ad_refs st1 = ad_refs st"
      "ad_credit st1 = ad_credit st" "get_active i org st1 = Some b" "same_case a b" "ap_status b = AS_CHECK_COMPLETED"
    using set_check_succeeds [of "upsert_report org d st" i org a AS_CHECK_COMPLETED now] assms(1,3) by auto
  have s: "run_credit_check ri org i c (\<lambda>_. Report k d) od ig now st = Inr (check_audit ri c ''org_credit_application.credit_check_completed'' i
      AS_CHECK_COMPLETED None ''Creditsafe credit check completed'' org ''NOTICE'' st1)" (is "_ = Inr ?t")
    using assms s1(1) by (simp add: run_credit_check_def open_succeeds del: open_application_Inr)
  have "next_status st i org a AS_CHECK_COMPLETED ?t"
    using step_check [OF s] s1 by (simp add: next_status_def check_audit_def)
  with s show ?thesis by blast
qed

lemma check_investigates:
  assumes "apps_ok (ad_apps st)" and "org \<in> set (cr_orgs (ad_credit st))" and "get_active i org st = Some a"
    and "ap_status a = AS_REVIEWER_ASSIGNED" and "ad_investigations st = []"
  shows "\<exists>st'. run_credit_check ri org i c (\<lambda>_. NoCompany) True ig now st = Inr st' \<and> next_status st i org a AS_INVESTIGATION st'"
proof -
  let ?g = "\<lparr>ig_id = ig, ig_organization_id = org, ig_application_id = Some i, ig_status = IG_IN_PROGRESS,
     ig_reg_no = registration_number a, ig_requested_at = now, ig_completed_at = None, ig_connect_id = None\<rparr>"
  let ?st0 = "st\<lparr>ad_investigations := [?g]\<rparr>"
  have f: "open_fresh_investigation org i (registration_number a) True ig now st = Inr (?st0, ?g)"
    using assms(5) by (simp add: open_fresh_investigation_def get_active_for_application_def insert_investigation_def Let_def)
  have g0: "get_active i org ?st0 = Some a" using assms(3) by (simp add: get_active_def)
  obtain st1 b where s1: "set_check_status i org AS_INVESTIGATION now ?st0 = Inr st1" "ad_refs st1 = ad_refs st"
      "ad_credit st1 = ad_credit st" "get_active i org st1 = Some b" "same_case a b" "ap_status b = AS_INVESTIGATION"
    using set_check_succeeds [of ?st0 i org a AS_INVESTIGATION now] assms(1) g0 by auto
  have s: "run_credit_check ri org i c (\<lambda>_. NoCompany) True ig now st = Inr (check_audit ri c
      ''org_credit_application.credit_check_investigation_opened'' i AS_INVESTIGATION (Some ig)
      (''Opened fresh Creditsafe investigation for '' @ str_or (registration_number a) ''company'') org ''NOTICE'' st1)" (is "_ = Inr ?t")
    using assms(2-4) f s1(1) by (simp add: run_credit_check_def open_succeeds del: open_application_Inr)
  have "next_status st i org a AS_INVESTIGATION ?t"
    using step_check [OF s] s1 by (simp add: next_status_def check_audit_def)
  with s show ?thesis by blast
qed

lemma approve_succeeds:
  assumes "apps_ok (ad_apps st)" and "credit_books (ad_credit st)" and "org \<in> set (cr_orgs (ad_credit st))"
    and "get_active i org st = Some a" and "ap_status a \<in> {AS_READY, AS_CHECK_COMPLETED}"
    and "account_by_org org (ad_credit st) = None \<longrightarrow> acct \<notin> ca_id ` set (cr_accounts (ad_credit st))"
  shows "\<exists>st'. approve_application ri org i c l terms freq nts acct now st = Inr st'"
proof -
  let ?f = "\<lambda>b. (decide AS_APPROVED now b)\<lparr>ap_approved_credit_limit := Some l,
           ap_approved_payment_terms := Some terms, ap_approved := Some (now, au_id c),
           ap_review_frequency := (case freq of None \<Rightarrow> ap_review_frequency b | Some f \<Rightarrow> Some f),
           ap_approval_notes := (case nts of None \<Rightarrow> ap_approval_notes b | Some n \<Rightarrow> Some n)\<rparr>"
  obtain cs acc where p: "provision_account_on_approval ri org c i l terms (map_option application_frequency_value freq) acct now
      (ad_credit st) = Inr (cs, acc)"
    using provision_opens [OF assms(3,6)] by blast
  have "update_application i org ?f st = Inr (st\<lparr>ad_apps := put_row i org ?f (ad_apps st)\<rparr>, write_row ?f a)"
    by (rule update_succeeds [OF assms(4,1)])
  then show ?thesis
    using assms(3-5) p by (auto simp: approve_application_def open_succeeds simp del: open_application_Inr)
qed

lemma approve_result:
  assumes "approve_application ri org i c l terms freq nts acct now st = Inr st'" and "apps_ok (ad_apps st)" and "credit_books (ad_credit st)"
  shows "\<exists>a b acc. open_application org i st = Inr a \<and> ap_status a \<in> {AS_READY, AS_CHECK_COMPLETED}
     \<and> get_active i org st' = Some b \<and> same_case a b \<and> ap_status b = AS_APPROVED \<and> ap_approved_credit_limit b = Some l
     \<and> ap_approved b = Some (now, au_id c) \<and> ad_refs st' = ad_refs st
     \<and> account_by_org org (ad_credit st') = Some acc \<and> ca_status acc = ACTIVE \<and> ca_credit_limit acc = Some l
     \<and> ca_payment_terms_days acc = Some terms
     \<and> ca_used_credit acc = (case account_by_org org (ad_credit st) of None \<Rightarrow> 0 | Some k \<Rightarrow> ca_used_credit k)
     \<and> (account_by_org org (ad_credit st) = None \<longrightarrow> acct \<notin> ca_id ` set (cr_accounts (ad_credit st)))"
proof -
  let ?f = "\<lambda>b. (decide AS_APPROVED now b)\<lparr>ap_approved_credit_limit := Some l,
           ap_approved_payment_terms := Some terms, ap_approved := Some (now, au_id c),
           ap_review_frequency := (case freq of None \<Rightarrow> ap_review_frequency b | Some f \<Rightarrow> Some f),
           ap_approval_notes := (case nts of None \<Rightarrow> ap_approval_notes b | Some n \<Rightarrow> Some n)\<rparr>"
  from assms(1) obtain a where opn: "open_application org i st = Inr a" "ap_status a \<in> {AS_READY, AS_CHECK_COMPLETED}"
    by (auto simp: approve_application_def simp del: open_application_Inr)
  then have get: "get_active i org st = Some a" by simp
  have u: "update_application i org ?f st = Inr (st\<lparr>ad_apps := put_row i org ?f (ad_apps st)\<rparr>, write_row ?f a)"
    by (rule update_succeeds [OF get assms(2)])
  note run = assms(1) [unfolded approve_application_def opn(1) u bind_result_simps guard_Inr prod.case]
  then obtain cs acc where p: "provision_account_on_approval ri org c i l terms (map_option application_frequency_value freq) acct now
      (ad_credit st) = Inr (cs, acc)" and st': "ad_credit st' = ad_credit (application_audit ri c ''org_credit_application.approved''
        ''org_credit_application'' i None (Some [(''status'', JStr ''APPROVED''), (''approved_credit_limit'', JDec l),
          (''approved_payment_terms_days'', JInt terms)]) (str_or nts (''Credit application approved with limit '' @ decimal_text l)) org
         ''CREDIT_APPLICATION_APPROVED'' ''NOTICE'' (st\<lparr>ad_apps := put_row i org ?f (ad_apps st), ad_credit := cs\<rparr>))"
      "get_active i org st' = get_active i org (st\<lparr>ad_apps := put_row i org ?f (ad_apps st)\<rparr>)" "ad_refs st' = ad_refs st"
    by auto
  have "get_active i org st' = Some (write_row ?f a)"
    unfolding st'(2) by (rule get_active_put [OF get]) (simp add: decide_def)
  moreover have "account_by_org org (ad_credit st') = account_by_org org cs" unfolding st'(1) by (simp add: account_by_org_def)
  moreover have "account_by_org org (ad_credit st) = None \<longrightarrow> acct \<notin> ca_id ` set (cr_accounts (ad_credit st))"
    using p by (auto simp: provision_account_on_approval_def provision_create_def create_account_def split: if_split_asm)
  ultimately show ?thesis
    using opn provision_result [OF p assms(3)] st'(3) by (simp add: same_case_def decide_def write_row_def)
qed

lemma cancel_orphans:
  assumes "application_books st" and "a \<in> set (ad_apps st)" and "ap_state a = LS_ACTIVE" and "ap_status a = AS_INVESTIGATION"
    and "cancel_application ri (ap_organization_id a) (rid a) c rs now st = Inr st1"
  shows "orphaned (rid a) (ap_organization_id a) st1"
proof -
  let ?org = "ap_organization_id a"
  let ?f = "\<lambda>b. (decide AS_CANCELLED now b)\<lparr>ap_cancellation_reason := Some rs, ap_cancelled := Some (now, au_id c)\<rparr>"
  from assms(5) have e: "ad_apps st1 = put_row (rid a) ?org ?f (ad_apps st)" "ad_investigations st1 = ad_investigations st"
    by (auto simp: cancel_application_def update_application_Inr)
  have "(rid a, ?org) \<in> investigating (ad_apps st)" using assms(2,4) by (auto simp: investigating_def)
  then have "\<exists>g \<in> set (ad_investigations st1). in_progress_for (rid a, ?org) g"
    using assms(1) unfolding e application_books_def investigations_ok_def by blast
  moreover have "write_row ?f a \<in> set (ad_apps st1)"
    unfolding e put_row_def using assms(2) by (force simp: application_scope_def)
  moreover have "final (write_row ?f a)" using assms(3) by (simp add: final_def decide_def)
  ultimately show ?thesis unfolding orphaned_def using rid_write_row by blast
qed

lemma orphaned_blocks:
  assumes "application_books st" and "orphaned i org st"
  shows "run_credit_check ri org j c (\<lambda>_. NoCompany) ordered ig now st \<noteq> Inr st' \<and>
    (open_application org j st = Inr b \<and> ap_status b \<in> {AS_REVIEWER_ASSIGNED, AS_REFERENCES_VERIFIED, AS_CHECK_FAILED}
       \<and> ig \<notin> ig_id ` set (ad_investigations st) \<longrightarrow>
     run_credit_check ri org j c (\<lambda>_. NoCompany) True ig now st =
       Inl (IntegrityError ''uq_org_credit_investigation_active_per_org''))"
proof -
  obtain g x where g: "g \<in> set (ad_investigations st)" "in_progress_for (i, org) g"
    and x: "x \<in> set (ad_apps st)" "rid x = i" "final x" using assms(2) by (auto simp: orphaned_def)
  have ok: "apps_ok (ad_apps st)" and one: "h = g" if "h \<in> set (ad_investigations st)" "in_progress_for (j, org) h" for h
    using assms(1) that g unfolding application_books_def investigations_ok_def in_progress_for_def by auto
  have none: "get_active_for_application org j st = None" if "open_application org j st = Inr y" for y
  proof -
    have "i \<noteq> j" using open_not_final [OF that _ x(1,3)] assms(1) x(2) by (auto simp: application_books_def)
    then show ?thesis unfolding no_active_investigation using one g(2) unfolding in_progress_for_def by (metis fst_conv option.inject)
  qed
  have other: "\<exists>h \<in> set (ad_investigations st). ig_organization_id h = org \<and> ig_status h = IG_IN_PROGRESS"
    using g by (auto simp: in_progress_for_def)
  have fails: "open_fresh_investigation org j rn od ig now st \<noteq> Inr r" if "open_application org j st = Inr y" for y rn od r
    using none [OF that] other by (auto simp: open_fresh_investigation_def insert_investigation_def Let_def split: if_split_asm)
  have "run_credit_check ri org j c (\<lambda>_. NoCompany) ordered ig now st \<noteq> Inr st'"
    using fails by (auto simp: run_credit_check_def Let_def simp del: open_application_Inr)
  moreover have "run_credit_check ri org j c (\<lambda>_. NoCompany) True ig now st =
       Inl (IntegrityError ''uq_org_credit_investigation_active_per_org'')"
    if "open_application org j st = Inr b" "ap_status b \<in> {AS_REVIEWER_ASSIGNED, AS_REFERENCES_VERIFIED, AS_CHECK_FAILED}"
      "ig \<notin> ig_id ` set (ad_investigations st)"
    using that none [OF that(1)] other
    by (simp add: run_credit_check_def open_fresh_investigation_def insert_investigation_def Let_def del: open_application_Inr)
  ultimately show ?thesis by blast
qed

subsection \<open>A sample\<close>

definition empty_applications :: "string list \<Rightarrow> application_db" where
  "empty_applications orgs = \<lparr>ad_credit = empty_credit orgs [], ad_apps = [], ad_refs = [], ad_drafts = [], ad_letters = [],
     ad_investigations = [], ad_reports = [], ad_org_cooldowns = [], ad_global_cooldown = None, ad_windows = []\<rparr>"

lemma empty_applications_books: "application_books (empty_applications orgs)"
  by (simp add: application_books_def empty_applications_def apps_ok_def references_ok_def investigations_ok_def investigating_def
      distinct_ids_def)

definition sample_caller :: auth_user where "sample_caller = \<lparr>au_id = ''u'', au_role = ''ADMIN''\<rparr>"

definition sample_origin :: request_info where "sample_origin = \<lparr>ri_ip = None, ri_ua = None\<rparr>"

definition sample_fields :: fields where
  "sample_fields =
     [(''company_registration_number'', JStr ''1''), (''bank_name'', JStr ''B''), (''bank_sort_code'', JStr ''2''),
      (''bank_account_number_last4'', JStr ''3''), (''director_signatory_name'', JStr ''D''),
      (''director_signatory_position'', JStr ''P''), (''years_trading'', JInt 4), (''annual_turnover'', JDec 5),
      (''requested_credit_limit'', JDec 6), (''expected_monthly_spend'', JDec 7), (''requested_payment_terms_days'', JInt 30),
      (''consent_credit_check'', JBool True), (''consent_terms_and_conditions'', JBool True), (''consent_data_processing'', JBool True)]"

definition sample_reference :: fields where
  "sample_reference = [(''company_name'', JStr ''C''), (''contact_person'', JStr ''Q''), (''contact_phone'', JStr ''9''),
     (''contact_email'', JStr ''e''), (''relationship_duration'', JStr ''long'')]"

lemma sample_complete:
  "form_complete (fill_form (extract_application_fields sample_fields) empty_form)"
  "fields_storable (extract_application_fields sample_fields)"
  "reference_complete (\<lambda>_. True) (fill_form sample_reference (\<lambda>_. JNull))"
  by code_simp+

definition begun :: "application_state \<Rightarrow> application_db \<Rightarrow> org_credit_application \<Rightarrow> bool" where
  "begun state st a \<longleftrightarrow> application_step (empty_applications [''org'']) st \<and> application_books st
     \<and> ''org'' \<in> set (cr_orgs (ad_credit st)) \<and> cr_accounts (ad_credit st) = [] \<and> ad_investigations st = []
     \<and> get_active ''a'' ''org'' st = Some a \<and> ap_state a = state \<and> ap_status a = AS_SUBMITTED"

lemma sample_draft: "\<exists>st a. begun LS_DRAFT st a"
proof -
  let ?a = "new_application ''a'' ''org'' LS_DRAFT []"
  let ?dr = "\<lparr>dr_id = ''d'', dr_application_id = ''a'', dr_created_by = Some (au_id sample_caller), dr_published_by = None\<rparr>"
  let ?st = "application_audit sample_origin sample_caller ''org_credit_application.draft_saved'' ''org_credit_application_draft'' ''d'' None
      (Some [(''draft_number'', JStr ''D-1''), (''application_id'', JStr ''a'')])
      ''Saved credit application draft D-1'' ''org'' ''CREDIT_APPLICATION_SUBMITTED'' ''INFO''
      ((empty_applications [''org''])\<lparr>ad_apps := [?a], ad_drafts := [?dr]\<rparr>)"
  have e: "extract_application_fields [] = []" by (simp add: extract_application_fields_def)
  have "insert_application ?a (empty_applications [''org'']) = Inr ((empty_applications [''org''])\<lparr>ad_apps := [?a]\<rparr>)"
    by (simp add: insert_application_Inr empty_applications_def numbers_def)
  then have "save_draft sample_origin ''org'' sample_caller [] None ''a'' ''d'' ''D-1'' (empty_applications [''org'']) = Inr ?st"
    by (simp add: save_draft_def e fields_storable_def empty_applications_def empty_credit_def application_org_or_404_def org_or_404_def)
  then have step: "application_step (empty_applications [''org'']) ?st" by (rule step_save)
  then have "application_books ?st" by (rule application_machine.step_good [OF empty_applications_books])
  then have "begun LS_DRAFT ?st ?a" using step
    by (simp add: begun_def get_active_def) (simp add: empty_applications_def empty_credit_def application_audit_def)
  then show ?thesis by blast
qed

lemma sample_active: "\<exists>st a. begun LS_ACTIVE st a"
proof -
  let ?fs = "extract_application_fields sample_fields"
  let ?a = "(new_application ''a'' ''org'' LS_ACTIVE ?fs)\<lparr>ap_submitted_by := Some (au_id sample_caller), ap_submitted_at := Some 0,
      ap_number := Some ''APP-1''\<rparr>"
  let ?rs = "[new_reference ''r1'' ''a'' 0 sample_reference, new_reference ''r2'' ''a'' 1 sample_reference]"
  let ?st1 = "(empty_applications [''org''])\<lparr>ad_apps := [?a]\<rparr>" and ?st2 = "(empty_applications [''org''])\<lparr>ad_apps := [?a], ad_refs := ?rs\<rparr>"
  let ?st = "application_audit sample_origin sample_caller ''org_credit_application.created'' ''org_credit_application'' ''a'' None
      (Some [(''organization_id'', JStr ''org''), (''application_number'', JStr ''APP-1'')])
      ''Credit application APP-1 submitted'' ''org'' ''CREDIT_APPLICATION_SUBMITTED'' ''NOTICE'' ?st2"
  have i: "insert_application ?a (empty_applications [''org'']) = Inr ?st1"
    by (simp add: insert_application_Inr empty_applications_def numbers_def)
  have "sync_trade_references ''a'' (Some [(''r1'', sample_reference), (''r2'', sample_reference)]) ?st1
      = Inr (?st2, list_by_application ''a'' ?st2)"
    by (simp add: sync_trade_references_def delete_all_for_application_def insert_reference_def new_reference_def empty_applications_def)
  moreover have "list_by_application ''a'' ?st2 = ?rs" by (simp add: list_by_application_def new_reference_def)
  moreover have "validate_for_submission (\<lambda>_. True) (ap_form ?a) ?rs = Inr ()"
    using sample_complete(1,3) by (simp add: validate_for_submission_def new_application_def new_reference_def)
  ultimately have "create_application sample_origin (\<lambda>_. True) ''org'' sample_fields
      (Some [(''r1'', sample_reference), (''r2'', sample_reference)]) sample_caller ''a'' ''APP-1'' 0 (empty_applications [''org'']) = Inr ?st"
    using i sample_complete(2)
    by (simp add: create_application_def Let_def application_org_or_404_def org_or_404_def empty_applications_def empty_credit_def)
  then have step: "application_step (empty_applications [''org'']) ?st" by (rule step_create)
  then have "application_books ?st" by (rule application_machine.step_good [OF empty_applications_books])
  then have "begun LS_ACTIVE ?st ?a" using step
    by (simp add: begun_def get_active_def) (simp add: empty_applications_def empty_credit_def application_audit_def)
  then show ?thesis by blast
qed

lemma begunD:
  assumes "begun state st a"
  shows "application_step\<^sup>*\<^sup>* (empty_applications [''org'']) st" "application_books st" "apps_ok (ad_apps st)"
    "''org'' \<in> set (cr_orgs (ad_credit st))" "cr_accounts (ad_credit st) = []" "ad_investigations st = []"
    "get_active ''a'' ''org'' st = Some a" "ap_state a = state" "ap_status a = AS_SUBMITTED"
  using assms by (auto simp: begun_def application_books_def)

lemma sample_waiting:
  "\<exists>st a. application_books st \<and> ''org'' \<in> set (cr_orgs (ad_credit st)) \<and> get_active ''a'' ''org'' st = Some a
     \<and> ap_state a = LS_ACTIVE \<and> ap_status a = AS_INVESTIGATION"
proof -
  obtain st a where b: "begun LS_ACTIVE st a" using sample_active by blast
  note d = begunD [OF b]
  let ?f = "\<lambda>b :: org_credit_application. b\<lparr>ap_reviewer := Some ''rv'', ap_status := AS_REVIEWER_ASSIGNED, ap_reviewer_assigned_at := Some 0\<rparr>"
  obtain st1 where s1: "assign_reviewer sample_origin ''org'' ''a'' sample_caller ''rv'' 0 st = Inr st1"
      "next_status st ''a'' ''org'' a AS_REVIEWER_ASSIGNED st1"
    using assign_succeeds [OF d(3,4,7,9)] by blast
  then obtain a1 where a1: "get_active ''a'' ''org'' st1 = Some a1" "same_case a a1" "ap_status a1 = AS_REVIEWER_ASSIGNED"
      and o1: "''org'' \<in> set (cr_orgs (ad_credit st1))" and g1: "application_books st1"
    using d(4) application_machine.step_good [OF d(2)] unfolding next_status_def by auto
  have "ad_investigations st1 = []" using assign_quiet [OF s1(1)] d(6) by (simp add: quiet_def)
  then obtain st2 where s2: "next_status st1 ''a'' ''org'' a1 AS_INVESTIGATION st2"
    using check_investigates [OF _ o1 a1(1,3), of sample_origin sample_caller "''g''" 0] g1 by (auto simp: application_books_def)
  then obtain a2 where "get_active ''a'' ''org'' st2 = Some a2" "same_case a1 a2" "ap_status a2 = AS_INVESTIGATION"
      "''org'' \<in> set (cr_orgs (ad_credit st2))" "application_books st2"
    using o1 application_machine.step_good [OF g1] unfolding next_status_def by auto
  then show ?thesis using a1(2) d(8) by (auto simp: same_case_def)
qed

lemma cancel_succeeds:
  assumes "apps_ok (ad_apps st)" and "org \<in> set (cr_orgs (ad_credit st))" and "get_active i org st = Some a" and "ap_status a \<notin> TERMINAL_STATUSES"
  shows "\<exists>st'. cancel_application ri org i c rs now st = Inr st'"
  using assms by (simp add: cancel_application_def open_succeeds update_succeeds del: open_application_Inr)


subsection \<open>Properties\<close>



text \<open>
  Exactly when an approval succeeds, and what it does: the organisation and the application exist, the application
  is ready for the decision or its credit check is completed, and an account has to be opened under a free
  id or exists. Then the application carries the decision and the account of the organisation is active with
  the approved limit and terms, whatever its status was, and keeps what is used. Neither the trade references nor the
  submission play a part.
\<close>
theorem approval_exact:
  assumes "application_books st"
  shows "((\<exists>st'. approve_application ri org i c l terms freq nts acct now st = Inr st') =
      (org \<in> set (cr_orgs (ad_credit st)) \<and> (\<exists>a. get_active i org st = Some a \<and> ap_status a \<in> {AS_READY, AS_CHECK_COMPLETED}) \<and>
       (account_by_org org (ad_credit st) = None \<longrightarrow> acct \<notin> ca_id ` set (cr_accounts (ad_credit st))))) \<and>
    (\<forall>st'. approve_application ri org i c l terms freq nts acct now st = Inr st' \<longrightarrow>
      (\<exists>b acc. get_active i org st' = Some b \<and> ap_status b = AS_APPROVED \<and> ap_approved_credit_limit b = Some l \<and>
         ap_approved b = Some (now, au_id c) \<and> ad_refs st' = ad_refs st \<and> account_by_org org (ad_credit st') = Some acc \<and>
         ca_status acc = ACTIVE \<and> ca_credit_limit acc = Some l \<and> ca_payment_terms_days acc = Some terms \<and>
         ca_used_credit acc = (case account_by_org org (ad_credit st) of None \<Rightarrow> 0 | Some k \<Rightarrow> ca_used_credit k)))"
    (is "?ok = ?when \<and> ?then")
proof (rule conjI [OF iffI])
  have b: "apps_ok (ad_apps st)" "credit_books (ad_credit st)" using assms by (auto simp: application_books_def)
  show "?when" if "?ok"
  proof -
    from that obtain st' where s: "approve_application ri org i c l terms freq nts acct now st = Inr st'" ..
    show ?thesis using approve_result [OF s b] by auto
  qed
  show "?ok" if "?when" using that approve_succeeds [OF b] by auto
  show "?then"
  proof (intro allI impI)
    fix st'
    assume s: "approve_application ri org i c l terms freq nts acct now st = Inr st'"
    from approve_result [OF s b] obtain a b' acc where "get_active i org st' = Some b'" "ap_status b' = AS_APPROVED"
      "ap_approved_credit_limit b' = Some l" "ap_approved b' = Some (now, au_id c)" "ad_refs st' = ad_refs st"
      "account_by_org org (ad_credit st') = Some acc" "ca_status acc = ACTIVE" "ca_credit_limit acc = Some l"
      "ca_payment_terms_days acc = Some terms"
      "ca_used_credit acc = (case account_by_org org (ad_credit st) of None \<Rightarrow> 0 | Some k \<Rightarrow> ca_used_credit k)"
      by (elim exE conjE)
    then show "\<exists>b acc. get_active i org st' = Some b \<and> ap_status b = AS_APPROVED \<and> ap_approved_credit_limit b = Some l \<and>
         ap_approved b = Some (now, au_id c) \<and> ad_refs st' = ad_refs st \<and> account_by_org org (ad_credit st') = Some acc \<and>
         ca_status acc = ACTIVE \<and> ca_credit_limit acc = Some l \<and> ca_payment_terms_days acc = Some terms \<and>
         ca_used_credit acc = (case account_by_org org (ad_credit st) of None \<Rightarrow> 0 | Some k \<Rightarrow> ca_used_credit k)"
      by (intro exI conjI)
  qed
qed

theorem approval_exact_witness:
  "\<exists>st. application_books st \<and> track ''a'' st = Some (LS_DRAFT, AS_SUBMITTED)
     \<and> \<not> (\<exists>st'. approve_application sample_origin ''org'' ''a'' sample_caller 500 30 None None ''acc'' 0 st = Inr st')"
proof -
  obtain st a where b: "begun LS_DRAFT st a" using sample_draft by blast
  note d = begunD [OF b]
  have "get_by_id ''a'' (\<lambda>_. True) (ad_apps st) = Some a"
    using get_active_Some [OF d(7)] get_by_id_distinct [of "ad_apps st" a "\<lambda>_. True"] d(3) by (auto simp: apps_ok_def)
  then have "track ''a'' st = Some (LS_DRAFT, AS_SUBMITTED)" using d(8,9) by (simp add: track_def stage_def)
  moreover have "\<not> (\<exists>st'. approve_application sample_origin ''org'' ''a'' sample_caller 500 30 None None ''acc'' 0 st = Inr st')"
    using approval_exact [OF d(2), of sample_origin "''org''" "''a''" sample_caller 500 30 None None "''acc''" 0] d(7,9) by simp
  ultimately show ?thesis using d(2) by blast
qed

text \<open>
  C40: A draft that was never submitted, whatever its form holds and without any validation, consent or verified
  reference, can be reviewed, checked and approved like an application: it stays an unnumbered draft, and the
  organisation has an active credit account with the chosen limit.
\<close>
theorem unsubmitted_draft_gets_credit:
  assumes "application_books st" and "org \<in> set (cr_orgs (ad_credit st))" and "get_active i org st = Some a"
    and "ap_state a = LS_DRAFT" and "ap_status a = AS_SUBMITTED"
    and "account_by_org org (ad_credit st) = None \<longrightarrow> acct \<notin> ca_id ` set (cr_accounts (ad_credit st))"
  shows "\<exists>st' b acc. application_step\<^sup>*\<^sup>* st st' \<and> get_active i org st' = Some b \<and> ap_state b = LS_DRAFT \<and> ap_status b = AS_APPROVED
     \<and> ap_form b = ap_form a \<and> ap_number b = ap_number a \<and> ad_refs st' = ad_refs st
     \<and> account_by_org org (ad_credit st') = Some acc \<and> ca_status acc = ACTIVE \<and> ca_credit_limit acc = Some l"
proof -
  note good = application_machine.step_good
  obtain ri :: request_info and c :: auth_user where "True" by simp
  have b0: "apps_ok (ad_apps st)" using assms(1) by (simp add: application_books_def)
  obtain st1 where s1: "next_status st i org a AS_REVIEWER_ASSIGNED st1"
    using assign_succeeds [OF b0 assms(2,3,5), of ri c "''reviewer''" 0] by blast
  then obtain a1 where a1: "get_active i org st1 = Some a1" "same_case a a1" "ap_status a1 = AS_REVIEWER_ASSIGNED"
    and o1: "org \<in> set (cr_orgs (ad_credit st1))" and g1: "application_books st1"
    using assms(2) good [OF assms(1)] unfolding next_status_def by auto
  have b1: "apps_ok (ad_apps st1)" using g1 by (simp add: application_books_def)
  obtain st2 where s2: "next_status st1 i org a1 AS_CHECK_COMPLETED st2"
    using check_succeeds [OF b1 o1 a1(1,3), of ri c "''connect''" "[]" True "''inv''" 0] by blast
  then obtain a2 where a2: "get_active i org st2 = Some a2" "same_case a1 a2" "ap_status a2 = AS_CHECK_COMPLETED"
    and o2: "org \<in> set (cr_orgs (ad_credit st2))" and g2: "application_books st2"
    using o1 good [OF g1] unfolding next_status_def by auto
  have b2: "apps_ok (ad_apps st2)" "credit_books (ad_credit st2)" using g2 by (simp_all add: application_books_def)
  have acc: "cr_accounts (ad_credit st2) = cr_accounts (ad_credit st)" using s1 s2 by (simp add: next_status_def)
  then have fresh: "account_by_org org (ad_credit st2) = None \<longrightarrow> acct \<notin> ca_id ` set (cr_accounts (ad_credit st2))"
    using assms(6) by (simp add: account_by_org_def)
  have "ap_status a2 \<in> {AS_READY, AS_CHECK_COMPLETED}" using a2(3) by simp
  from approve_succeeds [OF b2 o2 a2(1) this fresh]
  obtain st3 where s3: "approve_application ri org i c l 30 None None acct 0 st2 = Inr st3" by blast
  obtain b3 acc3 where r: "get_active i org st3 = Some b3" "same_case a2 b3" "ap_status b3 = AS_APPROVED" "ad_refs st3 = ad_refs st2"
      "account_by_org org (ad_credit st3) = Some acc3" "ca_status acc3 = ACTIVE" "ca_credit_limit acc3 = Some l"
    using approve_result [OF s3 b2] a2(1) by auto
  have "application_step\<^sup>*\<^sup>* st st3"
    using s1 s2 step_approve [OF s3] unfolding next_status_def by (meson rtranclp.rtrancl_into_rtrancl rtranclp.rtrancl_refl)
  then show ?thesis using r s1 s2 a1(2) a2(2) assms(4) unfolding next_status_def same_case_def by auto
qed

theorem unsubmitted_draft_gets_credit_witness:
  "\<exists>st a acc. application_step\<^sup>*\<^sup>* (empty_applications [''org'']) st \<and> get_active ''a'' ''org'' st = Some a \<and> ap_state a = LS_DRAFT
     \<and> account_by_org ''org'' (ad_credit st) = Some acc \<and> ca_status acc = ACTIVE \<and> ca_credit_limit acc = Some 500"
proof -
  obtain st a where b: "begun LS_DRAFT st a" using sample_draft by blast
  note d = begunD [OF b]
  have "''acc'' \<notin> ca_id ` set (cr_accounts (ad_credit st))" using d(5) by simp
  then obtain st' b acc where "application_step\<^sup>*\<^sup>* st st'" "get_active ''a'' ''org'' st' = Some b" "ap_state b = LS_DRAFT"
      "account_by_org ''org'' (ad_credit st') = Some acc" "ca_status acc = ACTIVE" "ca_credit_limit acc = Some 500"
    using unsubmitted_draft_gets_credit [OF d(2,4,7,8,9), of "''acc''" 500] by blast
  then show ?thesis using rtranclp_trans [OF d(1)] by blast
qed

text \<open>
  Cancelling an application while its investigation is in progress leaves the investigation in progress for ever: in
  every state reached afterwards, no credit check of any application of that organisation that the
  provider answers with no company succeeds; where the application is under review the order is placed and
  storing it violates the unique index.
\<close>
theorem cancelled_investigation_blocks_checks:
  assumes "application_books st" and "a \<in> set (ad_apps st)" and "ap_state a = LS_ACTIVE" and "ap_status a = AS_INVESTIGATION"
    and "cancel_application ri (ap_organization_id a) (rid a) c rs now st = Inr st1" and "application_step\<^sup>*\<^sup>* st1 st2"
  shows "run_credit_check ri' (ap_organization_id a) j c' (\<lambda>_. NoCompany) ordered ig now' st2 \<noteq> Inr st3 \<and>
    (open_application (ap_organization_id a) j st2 = Inr b \<and> ap_status b \<in> {AS_REVIEWER_ASSIGNED, AS_REFERENCES_VERIFIED, AS_CHECK_FAILED}
       \<and> ig \<notin> ig_id ` set (ad_investigations st2) \<longrightarrow>
     run_credit_check ri' (ap_organization_id a) j c' (\<lambda>_. NoCompany) True ig now' st2 =
       Inl (IntegrityError ''uq_org_credit_investigation_active_per_org''))"
proof -
  let ?org = "ap_organization_id a"
  have g1: "application_books st1" using application_machine.step_good [OF assms(1) step_cancel [OF assms(5)]] .
  then have g2: "application_books st2" by (rule application_machine.run_good [OF assms(6)])
  have "orphaned (rid a) ?org st1" by (rule cancel_orphans [OF assms(1-5)])
  then have "orphaned (rid a) ?org st2" by (rule orphaned_stays [OF assms(6) g1])
  then show ?thesis using orphaned_blocks [OF g2] by blast
qed

theorem cancelled_investigation_blocks_checks_witness:
  "\<exists>st a st1. get_active ''a'' ''org'' st = Some a \<and> ap_status a = AS_INVESTIGATION
     \<and> cancel_application sample_origin ''org'' ''a'' sample_caller ''no'' 0 st = Inr st1
     \<and> (\<forall>st' j ig now st''. application_step\<^sup>*\<^sup>* st1 st' \<longrightarrow>
         run_credit_check sample_origin ''org'' j sample_caller (\<lambda>_. NoCompany) True ig now st' \<noteq> Inr st'')"
proof -
  obtain st a where w: "application_books st" "''org'' \<in> set (cr_orgs (ad_credit st))" "get_active ''a'' ''org'' st = Some a"
      "ap_state a = LS_ACTIVE" "ap_status a = AS_INVESTIGATION" using sample_waiting by blast
  have a: "a \<in> set (ad_apps st)" "rid a = ''a''" "ap_organization_id a = ''org''" using get_active_Some [OF w(3)] by simp_all
  have "apps_ok (ad_apps st)" "ap_status a \<notin> TERMINAL_STATUSES" using w(1,5) by (auto simp: application_books_def TERMINAL_STATUSES_def)
  from cancel_succeeds [OF this(1) w(2,3) this(2)]
  obtain st1 where c: "cancel_application sample_origin ''org'' ''a'' sample_caller ''no'' 0 st = Inr st1" by blast
  then have "cancel_application sample_origin (ap_organization_id a) (rid a) sample_caller ''no'' 0 st = Inr st1" using a by simp
  from cancelled_investigation_blocks_checks [OF w(1) a(1) w(4,5) this]
  have "run_credit_check sample_origin ''org'' j sample_caller (\<lambda>_. NoCompany) True ig now st' \<noteq> Inr st''"
    if "application_step\<^sup>*\<^sup>* st1 st'" for st' j ig now st'' using that a(3) by simp
  then show ?thesis using w(3,5) c by blast
qed

end
