(* ===== verification/BillingData.thy ===== *)
theory BillingData
  imports Money Repository
begin

text \<open>
  The tables of billing that invoices, payments, refunds and credit notes share
  (\<^verbatim>\<open>app/modules/invoices/models.py\<close>, \<^verbatim>\<open>app/modules/billing/models.py\<close>), the aggregate
  queries of their repositories, and the two projections that are kept on the rows: paid
  amount and payment status of an invoice, allocated and unallocated amount of a payment.
  Append-only rows nothing refers to carry no id of their own. The payloads of payment and
  refund events and the old and new values of audit calls are left out; jobs for QuickBooks
  and for PDF rendering go to an outbox. Dates are day numbers, instants are seconds.
\<close>

subsection \<open>Data\<close>

datatype invoice_status = DRAFT | SENT

datatype payment_status = UNPAID | PARTIALLY_PAID | PAID | OVERDUE | VOID | WRITTEN_OFF

datatype invoice_event_type =
  EV_CREATED | EV_DRAFT_SAVED | EV_FINALIZED | EV_VOIDED | EV_WRITTEN_OFF | EV_CREDIT_APPLIED

datatype payment_record_status = DEPOSITED | NOT_DEPOSITED | PENDING | WITHHELD_RETURNED | VOIDED

datatype allocation_status = ALLOCATED | PARTIALLY_ALLOCATED | UNALLOCATED

datatype payment_provider = BRAINTREE | MANUAL | BANK_TRANSFER_PROVIDER | CHEQUE | OTHER_PROVIDER

datatype refund_method = CARD_REFUND | BANK_TRANSFER | CREDIT_NOTE

datatype refund_type = FULL | PARTIAL

datatype refund_status = INITIATED | PROCESSING | COMPLETED | FAILED | REVERSED

datatype credit_note_status = CN_ISSUED | CN_VOIDED | CN_WRITTEN_OFF

record invoice = row +
  inv_number :: string
  inv_order_id :: "string option"
  inv_org :: "string option"
  inv_customer :: "string option"
  inv_issue_date :: int
  inv_due_date :: int
  inv_subtotal :: rat
  inv_vat_rate :: rat
  inv_vat_amount :: rat
  inv_total :: rat
  inv_status :: invoice_status
  inv_paid_amount :: rat
  inv_payment_status :: payment_status
  inv_notes :: "string option"
  inv_contact_email :: "string option"
  inv_qb_queued :: bool

record line_item =
  li_invoice_id :: string
  li_package_id :: "string option"
  li_description :: string
  li_quantity :: int
  li_unit_price :: rat
  li_total_price :: rat
  li_line_type :: string

record invoice_event =
  ie_invoice_id :: string
  ie_type :: invoice_event_type
  ie_reason :: "string option"
  ie_actor :: "string option"
  ie_role :: "string option"

record payment = row +
  bp_org :: string
  bp_customer :: "string option"
  bp_recorded_by :: "string option"
  bp_amount :: rat
  bp_fee :: rat
  bp_status :: payment_record_status
  bp_allocation_status :: allocation_status
  bp_allocated :: rat
  bp_unallocated :: rat
  bp_date :: int
  bp_provider :: payment_provider
  bp_txn_id :: "string option"
  bp_braintree_status :: "string option"
  bp_braintree_status_at :: "int option"
  bp_dispute_status :: "string option"
  bp_dispute_amount :: rat
  bp_dispute_fee :: rat
  bp_notes :: "string option"

record allocation =
  pa_payment_id :: string
  pa_invoice_id :: string
  pa_revision_no :: nat
  pa_amount :: rat
  pa_by :: "string option"
  pa_notes :: "string option"

datatype payment_event_type =
    PE_RECORDED | PE_STATUS_CHANGED | PE_BRAINTREE_STATUS_CHANGED | PE_DISPUTE string
  | PE_ALLOCATED | PE_ALLOCATION_REVISED | PE_NOTES_UPDATED | PE_VOIDED

record payment_event =
  ev_payment_id :: string
  ev_type :: payment_event_type
  ev_actor :: "string option"

record refund = row +
  rf_number :: string
  rf_org :: string
  rf_payment_id :: string
  rf_invoice_id :: "string option"
  rf_provider :: payment_provider
  rf_method :: refund_method
  rf_type :: refund_type
  rf_status :: refund_status
  rf_reason_category :: string
  rf_reason :: string
  rf_requested :: rat
  rf_processed :: rat
  rf_initiated_by :: string
  rf_processed_by :: "string option"
  rf_completed_at :: "int option"
  rf_key :: "string option"
  rf_retry_count :: nat
  rf_failure_code :: "string option"
  rf_failure :: "string option"
  rf_txn_id :: "string option"
  rf_braintree_status :: "string option"
  rf_braintree_status_at :: "int option"
  rf_credit_note_id :: "string option"

datatype refund_event_type =
    RE_INITIATED | RE_FAILED | RE_COMPLETED | RE_MARKED_COMPLETED | RE_RETRIED
  | RE_ISSUED_CREDIT_NOTE | RE_BRAINTREE_STATUS_CHANGED

record refund_event =
  re_refund_id :: string
  re_type :: refund_event_type
  re_actor :: "string option"

record credit_note = row +
  cn_number :: string
  cn_org :: "string option"
  cn_customer :: "string option"
  cn_source_invoice :: "string option"
  cn_issue_date :: int
  cn_total :: rat
  cn_status :: credit_note_status
  cn_reason_category :: string
  cn_reason :: "string option"
  cn_reversal_invoice :: "string option"

record credit_application =
  ia_invoice_id :: string
  ia_credit_note_id :: string
  ia_amount :: rat
  ia_applied_at :: int
  ia_by :: "string option"

datatype outbox_job =
    QbInvoiceSync string string string
  | QbPaymentSync string string
  | QbVoidCreditNote string string
  | QbVoidCreditNoteChain string string string
  | PdfRequest string

record billing_note =
  bn_action :: string
  bn_entity_id :: string
  bn_user :: "string option"
  bn_role :: "string option"
  bn_reason :: "string option"
  bn_severity :: string

record billing_state =
  bs_invoices :: "invoice list"
  bs_lines :: "line_item list"
  bs_invoice_events :: "invoice_event list"
  bs_payments :: "payment list"
  bs_allocations :: "allocation list"
  bs_payment_events :: "payment_event list"
  bs_refunds :: "refund list"
  bs_refund_events :: "refund_event list"
  bs_credit_notes :: "credit_note list"
  bs_applications :: "credit_application list"
  bs_pdf_history :: "string list"
  bs_outbox :: "outbox_job list"
  bs_audit :: "billing_note list"

definition empty_billing :: billing_state where
  "empty_billing = \<lparr>bs_invoices = [], bs_lines = [], bs_invoice_events = [], bs_payments = [],
     bs_allocations = [], bs_payment_events = [], bs_refunds = [], bs_refund_events = [],
     bs_credit_notes = [], bs_applications = [], bs_pdf_history = [], bs_outbox = [], bs_audit = []\<rparr>"

record actor =
  ax_user :: "string option"
  ax_role :: "string option"

subsection \<open>Aggregates\<close>

definition total_allocated_for_invoice :: "string \<Rightarrow> billing_state \<Rightarrow> rat" where
  "total_allocated_for_invoice i st = sum_where (\<lambda>a. pa_invoice_id a = i) pa_amount (bs_allocations st)"

definition total_allocated_for_payment :: "string \<Rightarrow> billing_state \<Rightarrow> rat" where
  "total_allocated_for_payment p st = sum_where (\<lambda>a. pa_payment_id a = p) pa_amount (bs_allocations st)"

definition allocated_pair :: "string \<Rightarrow> string \<Rightarrow> billing_state \<Rightarrow> rat" where
  "allocated_pair p i st =
     sum_where (\<lambda>a. pa_payment_id a = p \<and> pa_invoice_id a = i) pa_amount (bs_allocations st)"

definition next_revision_no :: "string \<Rightarrow> string \<Rightarrow> billing_state \<Rightarrow> nat" where
  "next_revision_no p i st =
     fold max (map pa_revision_no
       (filter (\<lambda>a. pa_payment_id a = p \<and> pa_invoice_id a = i) (bs_allocations st))) 0 + 1"

definition applied_total_for_invoice :: "string \<Rightarrow> billing_state \<Rightarrow> rat" where
  "applied_total_for_invoice i st = sum_where (\<lambda>a. ia_invoice_id a = i) ia_amount (bs_applications st)"

definition applied_total_for_credit_note :: "string \<Rightarrow> billing_state \<Rightarrow> rat" where
  "applied_total_for_credit_note c st = sum_where (\<lambda>a. ia_credit_note_id a = c) ia_amount (bs_applications st)"

definition outcome_in :: "string \<Rightarrow> invoice_event list \<Rightarrow> invoice_event_type option" where
  \<comment> \<open>the newest VOIDED or WRITTEN_OFF event of the invoice\<close>
  "outcome_in i events =
     (case filter (\<lambda>e. ie_invoice_id e = i \<and> ie_type e \<in> {EV_VOIDED, EV_WRITTEN_OFF}) (rev events) of
        [] \<Rightarrow> None | e # _ \<Rightarrow> Some (ie_type e))"

definition latest_outcome :: "string \<Rightarrow> billing_state \<Rightarrow> invoice_event_type option" where
  "latest_outcome i st = outcome_in i (bs_invoice_events st)"

subsection \<open>Shared steps\<close>

definition append_invoice_event ::
    "string \<Rightarrow> invoice_event_type \<Rightarrow> string option \<Rightarrow> actor \<Rightarrow> billing_state \<Rightarrow> billing_state" where
  "append_invoice_event i t reason ax st =
     st\<lparr>bs_invoice_events := bs_invoice_events st @ [\<lparr>ie_invoice_id = i, ie_type = t, ie_reason = reason,
        ie_actor = ax_user ax, ie_role = ax_role ax\<rparr>]\<rparr>"

definition append_payment_event ::
    "string \<Rightarrow> payment_event_type \<Rightarrow> string option \<Rightarrow> billing_state \<Rightarrow> billing_state" where
  "append_payment_event p t u st =
     st\<lparr>bs_payment_events := bs_payment_events st @ [\<lparr>ev_payment_id = p, ev_type = t, ev_actor = u\<rparr>]\<rparr>"

definition append_refund_event ::
    "string \<Rightarrow> refund_event_type \<Rightarrow> string option \<Rightarrow> billing_state \<Rightarrow> billing_state" where
  "append_refund_event r t u st =
     st\<lparr>bs_refund_events := bs_refund_events st @ [\<lparr>re_refund_id = r, re_type = t, re_actor = u\<rparr>]\<rparr>"

definition billing_audit ::
    "string \<Rightarrow> string \<Rightarrow> actor \<Rightarrow> string option \<Rightarrow> string \<Rightarrow> billing_state \<Rightarrow> billing_state" where
  "billing_audit action entity_id ax reason severity st =
     st\<lparr>bs_audit := bs_audit st @ [\<lparr>bn_action = action, bn_entity_id = entity_id, bn_user = ax_user ax,
        bn_role = ax_role ax, bn_reason = reason, bn_severity = severity\<rparr>]\<rparr>"

definition audit_if :: "actor option \<Rightarrow> string \<Rightarrow> string \<Rightarrow> string option \<Rightarrow> string \<Rightarrow> billing_state \<Rightarrow> billing_state" where
  \<comment> \<open>the payment services audit only when a context is passed\<close>
  "audit_if ctx action entity_id reason severity st =
     (case ctx of None \<Rightarrow> st | Some ax \<Rightarrow> billing_audit action entity_id ax reason severity st)"

definition push_job :: "outbox_job \<Rightarrow> billing_state \<Rightarrow> billing_state" where
  "push_job j st = st\<lparr>bs_outbox := bs_outbox st @ [j]\<rparr>"

definition org_scope :: "string option \<Rightarrow> invoice \<Rightarrow> bool" where
  \<comment> \<open>\<^verbatim>\<open>_scope\<close>: no filter for administrators\<close>
  "org_scope org i = (if truthy_str org then inv_org i = org else True)"

definition update_invoice ::
    "string \<Rightarrow> (invoice \<Rightarrow> invoice) \<Rightarrow> int \<Rightarrow> (invoice \<Rightarrow> bool) \<Rightarrow> billing_state \<Rightarrow> (billing_state \<times> invoice) result" where
  "update_invoice i f v scope st =
     bind_result (update_by_id ''invoice'' i f (Some v) scope (bs_invoices st)) (\<lambda>(rows, r).
     Inr (st\<lparr>bs_invoices := rows\<rparr>, r))"

definition update_payment ::
    "string \<Rightarrow> (payment \<Rightarrow> payment) \<Rightarrow> int option \<Rightarrow> (payment \<Rightarrow> bool) \<Rightarrow> billing_state \<Rightarrow> (billing_state \<times> payment) result" where
  "update_payment p f v scope st =
     bind_result (update_by_id ''billing_payment'' p f v scope (bs_payments st)) (\<lambda>(rows, r).
     Inr (st\<lparr>bs_payments := rows\<rparr>, r))"

definition update_refund ::
    "string \<Rightarrow> (refund \<Rightarrow> refund) \<Rightarrow> int option \<Rightarrow> (refund \<Rightarrow> bool) \<Rightarrow> billing_state \<Rightarrow> (billing_state \<times> refund) result" where
  "update_refund r f v scope st =
     bind_result (update_by_id ''refund'' r f v scope (bs_refunds st)) (\<lambda>(rows, x).
     Inr (st\<lparr>bs_refunds := rows\<rparr>, x))"

definition update_credit_note ::
    "string \<Rightarrow> (credit_note \<Rightarrow> credit_note) \<Rightarrow> int \<Rightarrow> (credit_note \<Rightarrow> bool) \<Rightarrow> billing_state
     \<Rightarrow> (billing_state \<times> credit_note) result" where
  "update_credit_note c f v scope st =
     bind_result (update_by_id ''credit_note'' c f (Some v) scope (bs_credit_notes st)) (\<lambda>(rows, x).
     Inr (st\<lparr>bs_credit_notes := rows\<rparr>, x))"

subsection \<open>Projections\<close>

definition compute_payment_status ::
    "int \<Rightarrow> invoice \<Rightarrow> rat \<Rightarrow> rat \<Rightarrow> invoice_event_type option \<Rightarrow> payment_status" where
  "compute_payment_status today iv paid_amount credit_total outcome =
     (if outcome = Some EV_VOIDED then VOID
      else if outcome = Some EV_WRITTEN_OFF then WRITTEN_OFF
      else
        let total_after_credit = inv_total iv - credit_total;
            balance = total_after_credit - paid_amount
        in if balance \<le> 0 then PAID
           else if 0 < paid_amount then PARTIALLY_PAID
           else if inv_due_date iv < today then OVERDUE
           else UNPAID)"

definition recompute_invoice_projection :: "int \<Rightarrow> string \<Rightarrow> billing_state \<Rightarrow> (billing_state \<times> invoice) result" where
  "recompute_invoice_projection today i st =
     bind_result (get_by_id_or_404 ''invoice'' i (\<lambda>_. True) (bs_invoices st)) (\<lambda>iv.
     let paid_total = quantize_half_up (total_allocated_for_invoice i st);
         credit_total = quantize_half_up (applied_total_for_invoice i st);
         s = compute_payment_status today iv paid_total credit_total (latest_outcome i st)
     in update_invoice i (\<lambda>r. r\<lparr>inv_paid_amount := paid_total, inv_payment_status := s\<rparr>) (version iv)
          (\<lambda>_. True) st)"

fun recompute_invoice_projections :: "int \<Rightarrow> string list \<Rightarrow> billing_state \<Rightarrow> billing_state result" where
  "recompute_invoice_projections today [] st = Inr st"
| "recompute_invoice_projections today (i # is) st =
     bind_result (recompute_invoice_projection today i st) (\<lambda>(st', _).
     recompute_invoice_projections today is st')"

definition recompute_payment_projection :: "payment \<Rightarrow> billing_state \<Rightarrow> billing_state result" where
  "recompute_payment_projection p st =
     (let allocated = quantize_half_up (total_allocated_for_payment (rid p) st);
          unallocated = quantize_half_up (bp_amount p - allocated)
      in if unallocated < 0 then Inl (ValidationError ''allocated total exceeds payment amount'')
         else
           let s = (if allocated = 0 then UNALLOCATED else if unallocated = 0 then ALLOCATED
                    else PARTIALLY_ALLOCATED)
           in bind_result (update_payment (rid p)
                (\<lambda>r. r\<lparr>bp_allocated := allocated, bp_unallocated := unallocated, bp_allocation_status := s\<rparr>)
                (Some (version p)) (\<lambda>_. True) st) (\<lambda>(st', _). Inr st'))"

definition enqueue_qb_payment_sync :: "string \<Rightarrow> string \<Rightarrow> billing_state \<Rightarrow> billing_state" where
  "enqueue_qb_payment_sync p org st =
     (if quantize_half_up (total_allocated_for_payment p st) \<le> 0 then st
      else push_job (QbPaymentSync org p) st)"

definition enqueue_qb_invoice_sync :: "string option \<Rightarrow> string \<Rightarrow> string \<Rightarrow> billing_state \<Rightarrow> billing_state" where
  "enqueue_qb_invoice_sync org i trigger st =
     (if truthy_str org then push_job (QbInvoiceSync (str_or org '''') i trigger) st else st)"

end
