(* ===== verification/BillingBooks.thy ===== *)
theory BillingBooks
  imports BillingData
begin

text \<open>
  The invariant of the billing tables. \<open>books_but P I\<close> says that ids are unique, that every
  allocation is a positive amount between a payment that is not voided and a SENT invoice of the
  same organisation, that no credit note is applied beyond its amount, and that the projections
  kept on the rows equal the sums they are computed from, except on the payments of \<open>P\<close> and the
  invoices of \<open>I\<close>, the rows an operation has touched and not yet recomputed. The lemmas say
  what each shared step does to the two exception sets.
\<close>

named_theorems books_simps \<open>steps that leave the tables of the invariant alone\<close>

subsection \<open>Updates of one row\<close>

definition rewrite :: "string \<Rightarrow> ('a row_scheme \<Rightarrow> 'a row_scheme) \<Rightarrow> 'a table \<Rightarrow> 'a table" where
  "rewrite i f rows = map (\<lambda>s. if rid s = i then write_row f s else s) rows"

lemma set_rewrite: "set (rewrite i f rows) = (\<lambda>s. if rid s = i then write_row f s else s) ` set rows"
  by (simp add: rewrite_def)

lemma distinct_ids_rewrite [simp]: "distinct_ids (rewrite i f rows) = distinct_ids rows"
  unfolding rewrite_def by (rule distinct_ids_map_write)

lemma rids_rewrite [simp]: "map rid (rewrite i f rows) = map rid rows"
  by (simp add: rewrite_def)

lemma get_by_id_rewrite_other: "j \<noteq> i \<Longrightarrow> get_by_id j scope (rewrite i f rows) = get_by_id j scope rows"
  unfolding rewrite_def by (rule get_by_id_map_write_other)

lemma get_by_id_rewrite_same:
  assumes "distinct_ids rows" and "get_by_id i scope rows = Some r" and "scope' (write_row f r)"
  shows "get_by_id i scope' (rewrite i f rows) = Some (write_row f r)"
proof -
  have r: "r \<in> set rows" "rid r = i" using get_by_id_Some [OF assms(2)] by simp_all
  then have "write_row f r \<in> set (rewrite i f rows)" by (auto simp: set_rewrite image_iff)
  then show ?thesis
    using get_by_id_distinct [of "rewrite i f rows" "write_row f r" scope'] assms(1,3) r(2) by simp
qed

lemma update_by_id_cases:
  assumes "distinct_ids rows" and "update_by_id resource i f v scope rows = Inr (rows', r')"
  obtains r where "get_by_id i scope rows = Some r" "r \<in> set rows" "rid r = i" "scope r"
    "rows' = rewrite i f rows" "r' = write_row f r" "v = Some w \<longrightarrow> version r = w"
proof -
  obtain r where r: "get_by_id i scope rows = Some r"
    using assms(2) unfolding update_by_id_def by auto
  then have m: "r \<in> set rows" "rid r = i" "scope r" using get_by_id_Some by blast+
  have uniq: "s = r" if "s \<in> set rows" "rid s = i" for s
    using distinct_ids_unique [OF assms(1) that(1) m(1)] that(2) m(2) by simp
  show thesis
  proof (cases v)
    case None
    then have "rows' = map (\<lambda>s. if rid s = i \<and> scope s then write_row f s else s) rows" "r' = write_row f r"
      using assms(2) r unfolding update_by_id_def by (auto simp: get_by_id_or_404_def)
    moreover have "map (\<lambda>s. if rid s = i \<and> scope s then write_row f s else s) rows = rewrite i f rows"
      unfolding rewrite_def using uniq m(3) by (intro map_cong) auto
    ultimately show thesis using that r m None by simp
  next
    case (Some u)
    then have a: "atomic_versioned_update resource i f u rows = Inr rows'"
      and g: "get_by_id i scope rows' = Some r'"
      using assms(2) r unfolding update_by_id_def by (auto simp: get_by_id_or_404_def split: option.splits)
    have ver: "version r = u" using a uniq by (auto simp: atomic_versioned_update_def split: if_splits)
    have "map (\<lambda>s. if rid s = i \<and> version s = u then write_row f s else s) rows = rewrite i f rows"
      unfolding rewrite_def using uniq ver by (intro map_cong) auto
    then have rw: "rows' = rewrite i f rows" using a by (auto simp: atomic_versioned_update_def split: if_splits)
    have "r' \<in> set rows'" "rid r' = i" using get_by_id_Some [OF g] by simp_all
    moreover have "write_row f r \<in> set rows'" using m by (auto simp: rw set_rewrite image_iff)
    ultimately have "r' = write_row f r"
      using distinct_ids_unique [of rows' r' "write_row f r"] assms(1) m(2) by (simp add: rw)
    then show thesis using that r m rw ver Some by simp
  qed
qed

lemma update_by_id_ok:
  assumes "distinct_ids rows" and "get_by_id i scope rows = Some r" and "scope (write_row f r)"
  shows "update_by_id resource i f (Some (version r)) scope rows = Inr (rewrite i f rows, write_row f r)"
proof -
  have r: "r \<in> set rows" "rid r = i" using get_by_id_Some [OF assms(2)] by simp_all
  then have "get_by_id i (\<lambda>_. True) rows = Some r" using get_by_id_distinct [OF assms(1) r(1)] by simp
  then have a: "atomic_versioned_update resource i f (version r) rows = Inr (rewrite i f rows)"
    using atomic_update_get_same [OF assms(1)] by (simp add: rewrite_def)
  show ?thesis
    using a assms get_by_id_rewrite_same [OF assms(1,2), of scope f]
    by (simp add: update_by_id_def get_by_id_or_404_def)
qed

subsection \<open>The invariant\<close>

definition split_status :: "rat \<Rightarrow> rat \<Rightarrow> allocation_status" where
  "split_status allocated unallocated =
     (if allocated = 0 then UNALLOCATED else if unallocated = 0 then ALLOCATED else PARTIALLY_ALLOCATED)"

definition payment_matches :: "allocation list \<Rightarrow> payment \<Rightarrow> bool" where
  "payment_matches allocs p \<longleftrightarrow>
     bp_allocated p = sum_where (\<lambda>a. pa_payment_id a = rid p) pa_amount allocs
     \<and> bp_unallocated p = bp_amount p - bp_allocated p \<and> 0 \<le> bp_unallocated p
     \<and> bp_allocation_status p = split_status (bp_allocated p) (bp_unallocated p)"

definition closing_status :: "invoice_event_type option \<Rightarrow> payment_status option" where
  "closing_status outcome =
     (if outcome = Some EV_VOIDED then Some VOID
      else if outcome = Some EV_WRITTEN_OFF then Some WRITTEN_OFF else None)"

definition shows_outcome :: "invoice_event list \<Rightarrow> string \<Rightarrow> payment_status \<Rightarrow> bool" where
  "shows_outcome events i s \<longleftrightarrow>
     (case closing_status (outcome_in i events) of Some c \<Rightarrow> s = c | None \<Rightarrow> s \<noteq> VOID \<and> s \<noteq> WRITTEN_OFF)"

definition invoice_matches :: "allocation list \<Rightarrow> invoice_event list \<Rightarrow> invoice \<Rightarrow> bool" where
  "invoice_matches allocs events iv \<longleftrightarrow>
     inv_paid_amount iv = sum_where (\<lambda>a. pa_invoice_id a = rid iv) pa_amount allocs
     \<and> shows_outcome events (rid iv) (inv_payment_status iv)"

definition allocation_ok :: "payment list \<Rightarrow> invoice list \<Rightarrow> allocation \<Rightarrow> bool" where
  "allocation_ok pays invs a \<longleftrightarrow> is_money (pa_amount a) \<and> 0 < pa_amount a \<and>
     (\<exists>p \<in> set pays. rid p = pa_payment_id a \<and> bp_status p \<noteq> VOIDED \<and>
        (\<exists>iv \<in> set invs. rid iv = pa_invoice_id a \<and> inv_status iv = SENT \<and> inv_org iv = Some (bp_org p)))"

definition application_ok :: "invoice list \<Rightarrow> credit_note list \<Rightarrow> credit_application \<Rightarrow> bool" where
  "application_ok invs notes c \<longleftrightarrow> is_money (ia_amount c) \<and> 0 < ia_amount c \<and>
     (\<exists>iv \<in> set invs. rid iv = ia_invoice_id c \<and> inv_status iv = SENT) \<and>
     (\<exists>n \<in> set notes. rid n = ia_credit_note_id c)"

definition note_ok :: "credit_application list \<Rightarrow> credit_note \<Rightarrow> bool" where
  "note_ok apps n \<longleftrightarrow> is_money (cn_total n) \<and>
     sum_where (\<lambda>c. ia_credit_note_id c = rid n) ia_amount apps \<le> cn_total n"

definition books_but :: "string set \<Rightarrow> string set \<Rightarrow> billing_state \<Rightarrow> bool" where
  "books_but P I st \<longleftrightarrow>
     distinct_ids (bs_payments st) \<and> distinct_ids (bs_invoices st) \<and> distinct_ids (bs_credit_notes st)
     \<and> (\<forall>a \<in> set (bs_allocations st). allocation_ok (bs_payments st) (bs_invoices st) a)
     \<and> (\<forall>c \<in> set (bs_applications st). application_ok (bs_invoices st) (bs_credit_notes st) c)
     \<and> (\<forall>p \<in> set (bs_payments st). is_money (bp_amount p)
          \<and> (rid p \<notin> P \<longrightarrow> payment_matches (bs_allocations st) p))
     \<and> (\<forall>iv \<in> set (bs_invoices st). is_money (inv_total iv)
          \<and> (rid iv \<notin> I \<longrightarrow> invoice_matches (bs_allocations st) (bs_invoice_events st) iv))
     \<and> (\<forall>e \<in> set (bs_invoice_events st). ie_invoice_id e \<in> rid ` set (bs_invoices st))
     \<and> (\<forall>n \<in> set (bs_credit_notes st). note_ok (bs_applications st) n)"

abbreviation books_ok :: "billing_state \<Rightarrow> bool" where
  "books_ok \<equiv> books_but {} {}"

lemma books_ok_empty: "books_ok empty_billing"
  by (simp add: books_but_def empty_billing_def distinct_ids_def)

lemma books_but_mono: "books_but P I st \<Longrightarrow> P \<subseteq> Q \<Longrightarrow> I \<subseteq> J \<Longrightarrow> books_but Q J st"
  unfolding books_but_def by blast

text \<open>Steps on the other tables.\<close>

lemma books_frame [books_simps]:
  "books_but P I (append_payment_event p pt u st) = books_but P I st"
  "books_but P I (append_refund_event r rt u st) = books_but P I st"
  "books_but P I (billing_audit action e ax reason severity st) = books_but P I st"
  "books_but P I (push_job j st) = books_but P I st"
  by (simp_all add: books_but_def append_payment_event_def append_refund_event_def billing_audit_def push_job_def)

lemma books_frame_jobs [books_simps]:
  "books_but P I (audit_if ctx action e reason severity st) = books_but P I st"
  "books_but P I (enqueue_qb_payment_sync p org st) = books_but P I st"
  "books_but P I (enqueue_qb_invoice_sync oid i trigger st) = books_but P I st"
  by (simp_all add: audit_if_def enqueue_qb_payment_sync_def enqueue_qb_invoice_sync_def books_simps
      split: option.splits)

lemma outcome_in_append:
  "outcome_in i (es @ [e]) =
     (if ie_invoice_id e = i \<and> ie_type e \<in> {EV_VOIDED, EV_WRITTEN_OFF} then Some (ie_type e) else outcome_in i es)"
  by (auto simp: outcome_in_def)

lemma outcome_in_filter_other:
  "j \<noteq> i \<Longrightarrow> outcome_in j (filter (\<lambda>e. ie_invoice_id e \<noteq> i) es) = outcome_in j es"
proof -
  assume "j \<noteq> i"
  then have "filter (\<lambda>e. ie_invoice_id e = j \<and> ie_type e \<in> {EV_VOIDED, EV_WRITTEN_OFF})
        (rev (filter (\<lambda>e. ie_invoice_id e \<noteq> i) es))
      = filter (\<lambda>e. ie_invoice_id e = j \<and> ie_type e \<in> {EV_VOIDED, EV_WRITTEN_OFF}) (rev es)"
    by (simp add: rev_filter) (rule filter_cong, auto)
  then show ?thesis by (simp only: outcome_in_def)
qed

lemma outcome_in_absent: "(\<And>e. e \<in> set es \<Longrightarrow> ie_invoice_id e \<noteq> i) \<Longrightarrow> outcome_in i es = None"
proof -
  assume "\<And>e. e \<in> set es \<Longrightarrow> ie_invoice_id e \<noteq> i"
  then have "filter (\<lambda>e. ie_invoice_id e = i \<and> ie_type e \<in> {EV_VOIDED, EV_WRITTEN_OFF}) (rev es) = []"
    by (auto simp: filter_empty_conv)
  then show ?thesis by (simp only: outcome_in_def list.case)
qed

lemma outcome_in_range: "outcome_in i es = Some t \<Longrightarrow> t = EV_VOIDED \<or> t = EV_WRITTEN_OFF"
proof (induction es rule: rev_induct)
  case Nil
  then show ?case by (simp add: outcome_in_def)
next
  case (snoc e es)
  then show ?case by (auto simp: outcome_in_append split: if_splits)
qed

lemma shows_outcome_computed:
  "shows_outcome events i (compute_payment_status today iv paid credit (outcome_in i events))"
  by (auto simp: shows_outcome_def closing_status_def compute_payment_status_def Let_def)

lemma books_append_event:
  assumes "books_but P I st" and "i \<in> rid ` set (bs_invoices st)"
    and "t \<notin> {EV_VOIDED, EV_WRITTEN_OFF} \<or> i \<in> I"
  shows "books_but P I (append_invoice_event i t reason ax st)"
  using assms unfolding books_but_def append_invoice_event_def
  by (auto simp: invoice_matches_def shows_outcome_def outcome_in_append)

lemma append_event_tables [simp]:
  "bs_invoices (append_invoice_event i t reason ax st) = bs_invoices st"
  "bs_payments (append_invoice_event i t reason ax st) = bs_payments st"
  "bs_allocations (append_invoice_event i t reason ax st) = bs_allocations st"
  "bs_applications (append_invoice_event i t reason ax st) = bs_applications st"
  "bs_credit_notes (append_invoice_event i t reason ax st) = bs_credit_notes st"
  by (simp_all add: append_invoice_event_def)

text \<open>Writing a row.\<close>

lemma allocation_ok_mono:
  assumes "allocation_ok pays invs a"
    and "\<And>p. p \<in> set pays \<Longrightarrow> rid p = pa_payment_id a \<Longrightarrow> bp_status p \<noteq> VOIDED
      \<Longrightarrow> \<exists>q \<in> set pays'. rid q = rid p \<and> bp_status q \<noteq> VOIDED \<and> bp_org q = bp_org p"
    and "\<And>v. v \<in> set invs \<Longrightarrow> rid v = pa_invoice_id a \<Longrightarrow> inv_status v = SENT
      \<Longrightarrow> \<exists>w \<in> set invs'. rid w = rid v \<and> inv_status w = SENT \<and> inv_org w = inv_org v"
  shows "allocation_ok pays' invs' a"
proof -
  obtain p v where pv: "p \<in> set pays" "rid p = pa_payment_id a" "bp_status p \<noteq> VOIDED"
      "v \<in> set invs" "rid v = pa_invoice_id a" "inv_status v = SENT" "inv_org v = Some (bp_org p)"
    using assms(1) unfolding allocation_ok_def by blast
  obtain q where "q \<in> set pays'" "rid q = rid p" "bp_status q \<noteq> VOIDED" "bp_org q = bp_org p"
    using assms(2) pv by blast
  moreover obtain w where "w \<in> set invs'" "rid w = rid v" "inv_status w = SENT" "inv_org w = inv_org v"
    using assms(3) pv by blast
  ultimately show ?thesis using assms(1) pv unfolding allocation_ok_def by (metis)
qed

lemma write_row_selectors [simp]:
  "inv_org (write_row f iv) = inv_org (f iv)" "inv_status (write_row f iv) = inv_status (f iv)"
  "inv_total (write_row f iv) = inv_total (f iv)" "inv_payment_status (write_row f iv) = inv_payment_status (f iv)"
  "inv_paid_amount (write_row f iv) = inv_paid_amount (f iv)"
  "bp_org (write_row g p) = bp_org (g p)" "bp_status (write_row g p) = bp_status (g p)"
  "bp_amount (write_row g p) = bp_amount (g p)" "bp_allocated (write_row g p) = bp_allocated (g p)"
  "bp_unallocated (write_row g p) = bp_unallocated (g p)"
  "bp_allocation_status (write_row g p) = bp_allocation_status (g p)"
  "cn_total (write_row h n) = cn_total (h n)"
  for iv :: invoice and p :: payment and n :: credit_note
  by (simp_all add: write_row_def)

lemma books_rewrite_invoice:
  assumes books: "books_but P I st"
    and J: "I \<subseteq> insert i J"
    and f: "\<And>r. r \<in> set (bs_invoices st) \<Longrightarrow> rid r = i \<Longrightarrow>
      (inv_status r = SENT \<longrightarrow> inv_status (f r) = SENT \<and> inv_org (f r) = inv_org r)
      \<and> is_money (inv_total (f r))
      \<and> (i \<notin> J \<longrightarrow> inv_paid_amount (f r) = total_allocated_for_invoice i st
           \<and> shows_outcome (bs_invoice_events st) i (inv_payment_status (f r)))"
  shows "books_but P J (st\<lparr>bs_invoices := rewrite i f (bs_invoices st)\<rparr>)"
proof -
  let ?g = "\<lambda>s. if rid s = i then write_row f s else s"
  have old: "\<exists>w \<in> set (rewrite i f (bs_invoices st)). rid w = rid v \<and> inv_status w = SENT \<and> inv_org w = inv_org v"
    if "v \<in> set (bs_invoices st)" "inv_status v = SENT" for v
    using that f [of v] by (intro bexI [of _ "?g v"]) (auto simp: set_rewrite)
  have "allocation_ok (bs_payments st) (rewrite i f (bs_invoices st)) a" if "a \<in> set (bs_allocations st)" for a
  proof (rule allocation_ok_mono)
    show "allocation_ok (bs_payments st) (bs_invoices st) a" using books that by (simp add: books_but_def)
  qed (use old in blast)+
  moreover have "application_ok (rewrite i f (bs_invoices st)) (bs_credit_notes st) c"
    if "c \<in> set (bs_applications st)" for c
  proof -
    have "application_ok (bs_invoices st) (bs_credit_notes st) c" using books that by (simp add: books_but_def)
    then show ?thesis unfolding application_ok_def using old by metis
  qed
  moreover have "is_money (inv_total w) \<and> (rid w \<notin> J \<longrightarrow> invoice_matches (bs_allocations st) (bs_invoice_events st) w)"
    if "w \<in> set (rewrite i f (bs_invoices st))" for w
  proof -
    obtain v where v: "v \<in> set (bs_invoices st)" "w = ?g v" using \<open>w \<in> _\<close> by (auto simp: set_rewrite)
    show ?thesis
    proof (cases "rid v = i")
      case True
      then show ?thesis using f [OF v(1)] v(2)
        by (simp add: invoice_matches_def total_allocated_for_invoice_def)
    next
      case False
      then have "rid v \<notin> J \<Longrightarrow> rid v \<notin> I" using J by blast
      then show ?thesis using books v False unfolding books_but_def by simp
    qed
  qed
  moreover have "rid ` set (rewrite i f (bs_invoices st)) = rid ` set (bs_invoices st)"
    by (metis list.set_map rids_rewrite)
  ultimately show ?thesis using books by (simp add: books_but_def)
qed

lemma books_rewrite_payment:
  assumes books: "books_but P I st"
    and Q: "P \<subseteq> insert i Q"
    and f: "\<And>r. r \<in> set (bs_payments st) \<Longrightarrow> rid r = i \<Longrightarrow>
      bp_org (f r) = bp_org r \<and> is_money (bp_amount (f r))
      \<and> (bp_status (f r) = VOIDED \<longrightarrow> bp_status r = VOIDED \<or> (\<forall>a \<in> set (bs_allocations st). pa_payment_id a \<noteq> i))
      \<and> (i \<notin> Q \<longrightarrow> payment_matches (bs_allocations st) (write_row f r))"
  shows "books_but Q I (st\<lparr>bs_payments := rewrite i f (bs_payments st)\<rparr>)"
proof -
  let ?g = "\<lambda>s. if rid s = i then write_row f s else s"
  have "allocation_ok (rewrite i f (bs_payments st)) (bs_invoices st) a" if a: "a \<in> set (bs_allocations st)" for a
  proof (rule allocation_ok_mono)
    show "allocation_ok (bs_payments st) (bs_invoices st) a" using books a by (simp add: books_but_def)
    fix p
    assume p: "p \<in> set (bs_payments st)" "rid p = pa_payment_id a" "bp_status p \<noteq> VOIDED"
    show "\<exists>q \<in> set (rewrite i f (bs_payments st)). rid q = rid p \<and> bp_status q \<noteq> VOIDED \<and> bp_org q = bp_org p"
      using p f [of p] a by (intro bexI [of _ "?g p"]) (auto simp: set_rewrite)
  qed blast
  moreover have "is_money (bp_amount q) \<and> (rid q \<notin> Q \<longrightarrow> payment_matches (bs_allocations st) q)"
    if "q \<in> set (rewrite i f (bs_payments st))" for q
  proof -
    obtain p where p: "p \<in> set (bs_payments st)" "q = ?g p" using \<open>q \<in> _\<close> by (auto simp: set_rewrite)
    show ?thesis
    proof (cases "rid p = i")
      case True
      then show ?thesis using f [OF p(1)] p(2) by simp
    next
      case False
      then have "rid p \<notin> Q \<Longrightarrow> rid p \<notin> P" using Q by blast
      then show ?thesis using books p False unfolding books_but_def by simp
    qed
  qed
  ultimately show ?thesis using books by (simp add: books_but_def)
qed

lemma books_rewrite_note:
  assumes books: "books_but P I st"
    and f: "\<And>n. n \<in> set (bs_credit_notes st) \<Longrightarrow> rid n = i \<Longrightarrow> cn_total (f n) = cn_total n"
  shows "books_but P I (st\<lparr>bs_credit_notes := rewrite i f (bs_credit_notes st)\<rparr>)"
proof -
  let ?g = "\<lambda>s. if rid s = i then write_row f s else s"
  have "application_ok (bs_invoices st) (rewrite i f (bs_credit_notes st)) c"
    if "c \<in> set (bs_applications st)" for c
  proof -
    have "application_ok (bs_invoices st) (bs_credit_notes st) c" using books that by (simp add: books_but_def)
    moreover have "\<exists>m \<in> set (rewrite i f (bs_credit_notes st)). rid m = rid n" if "n \<in> set (bs_credit_notes st)" for n
      using that by (intro bexI [of _ "?g n"]) (auto simp: set_rewrite)
    ultimately show ?thesis unfolding application_ok_def by metis
  qed
  moreover have "note_ok (bs_applications st) m" if "m \<in> set (rewrite i f (bs_credit_notes st))" for m
    using books f that by (auto simp: set_rewrite books_but_def note_ok_def)
  ultimately show ?thesis using books by (simp add: books_but_def)
qed

text \<open>Adding a row.\<close>

lemma books_insert_payment:
  assumes "books_but P I st" and "rid p \<notin> rid ` set (bs_payments st)"
    and "is_money (bp_amount p)" and "0 \<le> bp_amount p"
    and "bp_allocated p = 0" and "bp_unallocated p = bp_amount p" and "bp_allocation_status p = UNALLOCATED"
  shows "books_but P I (st\<lparr>bs_payments := bs_payments st @ [p]\<rparr>)"
proof -
  have "pa_payment_id a \<noteq> rid p" if "a \<in> set (bs_allocations st)" for a
    using assms(1,2) that unfolding books_but_def allocation_ok_def by (metis imageI)
  then have "sum_where (\<lambda>a. pa_payment_id a = rid p) pa_amount (bs_allocations st) = 0"
    by (intro sum_where_none) simp
  then have "payment_matches (bs_allocations st) p"
    using assms by (simp add: payment_matches_def split_status_def)
  moreover have "allocation_ok (bs_payments st @ [p]) (bs_invoices st) a" if "a \<in> set (bs_allocations st)" for a
    using assms(1) that unfolding books_but_def allocation_ok_def by (simp add: bex_Un)
  ultimately show ?thesis using assms unfolding books_but_def by (auto simp: distinct_ids_def)
qed

lemma books_insert_invoice:
  assumes "books_but P I st" and "rid v \<notin> rid ` set (bs_invoices st)"
    and "is_money (inv_total v)" and "inv_paid_amount v = 0" and "inv_payment_status v = UNPAID"
  shows "books_but P I (st\<lparr>bs_invoices := bs_invoices st @ [v]\<rparr>)"
proof -
  have "pa_invoice_id a \<noteq> rid v" if "a \<in> set (bs_allocations st)" for a
    using assms(1,2) that unfolding books_but_def allocation_ok_def by (metis imageI)
  then have "sum_where (\<lambda>a. pa_invoice_id a = rid v) pa_amount (bs_allocations st) = 0"
    by (intro sum_where_none) simp
  moreover have "outcome_in (rid v) (bs_invoice_events st) = None"
  proof (rule outcome_in_absent)
    fix e
    assume "e \<in> set (bs_invoice_events st)"
    then have "ie_invoice_id e \<in> rid ` set (bs_invoices st)" using assms(1) by (simp add: books_but_def)
    then show "ie_invoice_id e \<noteq> rid v" using assms(2) by metis
  qed
  ultimately have "invoice_matches (bs_allocations st) (bs_invoice_events st) v"
    using assms by (simp add: invoice_matches_def shows_outcome_def closing_status_def)
  moreover have "allocation_ok (bs_payments st) (bs_invoices st @ [v]) a" if "a \<in> set (bs_allocations st)" for a
    by (rule allocation_ok_mono [of "bs_payments st" "bs_invoices st"])
      (use assms(1) that in \<open>auto simp: books_but_def\<close>)
  moreover have "application_ok (bs_invoices st @ [v]) (bs_credit_notes st) c" if "c \<in> set (bs_applications st)" for c
    using assms(1) that unfolding books_but_def application_ok_def by auto
  ultimately show ?thesis using assms unfolding books_but_def by (auto simp: distinct_ids_def)
qed

lemma books_insert_note:
  assumes "books_but P I st" and "rid n \<notin> rid ` set (bs_credit_notes st)"
    and "is_money (cn_total n)" and "0 \<le> cn_total n"
  shows "books_but P I (st\<lparr>bs_credit_notes := bs_credit_notes st @ [n]\<rparr>)"
proof -
  have "ia_credit_note_id c \<noteq> rid n" if "c \<in> set (bs_applications st)" for c
    using assms(1,2) that unfolding books_but_def application_ok_def by (metis imageI)
  then have "sum_where (\<lambda>c. ia_credit_note_id c = rid n) ia_amount (bs_applications st) = 0"
    by (intro sum_where_none) simp
  then have "note_ok (bs_applications st) n" using assms by (simp add: note_ok_def)
  moreover have "application_ok (bs_invoices st) (bs_credit_notes st @ [n]) c" if "c \<in> set (bs_applications st)" for c
    using assms(1) that unfolding books_but_def application_ok_def by auto
  ultimately show ?thesis using assms unfolding books_but_def by (auto simp: distinct_ids_def)
qed

text \<open>Adding and deleting allocations and credit applications.\<close>

lemma books_append_allocation:
  assumes "books_but P I st" and "allocation_ok (bs_payments st) (bs_invoices st) a"
  shows "books_but (insert (pa_payment_id a) P) (insert (pa_invoice_id a) I)
           (st\<lparr>bs_allocations := bs_allocations st @ [a]\<rparr>)"
  using assms unfolding books_but_def by (auto simp: payment_matches_def invoice_matches_def)

lemma books_drop_allocations:
  assumes "books_but P I st"
  shows "books_but (insert p P) (I \<union> pa_invoice_id ` {a \<in> set (bs_allocations st). pa_payment_id a = p})
           (st\<lparr>bs_allocations := filter (\<lambda>a. pa_payment_id a \<noteq> p) (bs_allocations st)\<rparr>)"
proof -
  let ?rest = "filter (\<lambda>a. pa_payment_id a \<noteq> p) (bs_allocations st)"
  have "payment_matches ?rest q = payment_matches (bs_allocations st) q" if "rid q \<noteq> p" for q
  proof -
    have "sum_where (\<lambda>a. pa_payment_id a = rid q) pa_amount ?rest
        = sum_where (\<lambda>a. pa_payment_id a = rid q) pa_amount (bs_allocations st)"
      unfolding sum_where_filter using that by (intro sum_where_cong) auto
    then show ?thesis by (simp add: payment_matches_def)
  qed
  moreover have "invoice_matches ?rest (bs_invoice_events st) v = invoice_matches (bs_allocations st) (bs_invoice_events st) v"
    if "rid v \<notin> pa_invoice_id ` {a \<in> set (bs_allocations st). pa_payment_id a = p}" for v
  proof -
    have "sum_where (\<lambda>a. pa_invoice_id a = rid v) pa_amount ?rest
        = sum_where (\<lambda>a. pa_invoice_id a = rid v) pa_amount (bs_allocations st)"
      unfolding sum_where_filter using that by (intro sum_where_cong) (auto simp: image_iff)
    then show ?thesis by (simp add: invoice_matches_def)
  qed
  ultimately show ?thesis using assms unfolding books_but_def by auto
qed

lemma books_append_application:
  assumes "books_but P I st" and "application_ok (bs_invoices st) (bs_credit_notes st) c"
    and "\<And>n. n \<in> set (bs_credit_notes st) \<Longrightarrow> rid n = ia_credit_note_id c
      \<Longrightarrow> applied_total_for_credit_note (rid n) st + ia_amount c \<le> cn_total n"
  shows "books_but P I (st\<lparr>bs_applications := bs_applications st @ [c]\<rparr>)"
  using assms unfolding books_but_def by (auto simp: note_ok_def applied_total_for_credit_note_def)

subsection \<open>Amounts of consistent books\<close>

lemma books_totals:
  assumes "books_but P I st"
  shows "is_money (total_allocated_for_invoice i st)" "0 \<le> total_allocated_for_invoice i st"
    "is_money (total_allocated_for_payment p st)" "0 \<le> total_allocated_for_payment p st"
    "is_money (allocated_pair p i st)" "0 \<le> allocated_pair p i st"
    "is_money (applied_total_for_invoice i st)" "0 \<le> applied_total_for_invoice i st"
    "is_money (applied_total_for_credit_note n st)" "0 \<le> applied_total_for_credit_note n st"
proof -
  have a: "is_money (pa_amount a)" "0 \<le> pa_amount a" if "a \<in> set (bs_allocations st)" for a
    using assms that unfolding books_but_def allocation_ok_def by (meson less_imp_le)+
  have c: "is_money (ia_amount c)" "0 \<le> ia_amount c" if "c \<in> set (bs_applications st)" for c
    using assms that unfolding books_but_def application_ok_def by (meson less_imp_le)+
  show "is_money (total_allocated_for_invoice i st)" "0 \<le> total_allocated_for_invoice i st"
    "is_money (total_allocated_for_payment p st)" "0 \<le> total_allocated_for_payment p st"
    "is_money (allocated_pair p i st)" "0 \<le> allocated_pair p i st"
    unfolding total_allocated_for_invoice_def total_allocated_for_payment_def allocated_pair_def
    using a by (auto intro: is_money_sum_where sum_where_nonneg)
  show "is_money (applied_total_for_invoice i st)" "0 \<le> applied_total_for_invoice i st"
    "is_money (applied_total_for_credit_note n st)" "0 \<le> applied_total_for_credit_note n st"
    unfolding applied_total_for_invoice_def applied_total_for_credit_note_def
    using c by (auto intro: is_money_sum_where sum_where_nonneg)
qed

subsection \<open>Recomputing\<close>

lemma update_invoice_cases:
  assumes "distinct_ids (bs_invoices st)" and "update_invoice i f v scope st = Inr (st', r')"
  obtains r where "get_by_id i scope (bs_invoices st) = Some r" "r \<in> set (bs_invoices st)" "rid r = i"
    "st' = st\<lparr>bs_invoices := rewrite i f (bs_invoices st)\<rparr>" "r' = write_row f r" "version r = v"
  using assms by (fastforce simp: update_invoice_def elim: update_by_id_cases [where w = v])

lemma update_payment_cases:
  assumes "distinct_ids (bs_payments st)" and "update_payment i f v scope st = Inr (st', r')"
  obtains r where "get_by_id i scope (bs_payments st) = Some r" "r \<in> set (bs_payments st)" "rid r = i"
    "st' = st\<lparr>bs_payments := rewrite i f (bs_payments st)\<rparr>" "r' = write_row f r"
  using assms by (fastforce simp: update_payment_def elim: update_by_id_cases)

lemma update_credit_note_cases:
  assumes "distinct_ids (bs_credit_notes st)" and "update_credit_note i f v scope st = Inr (st', r')"
  obtains r where "get_by_id i scope (bs_credit_notes st) = Some r" "r \<in> set (bs_credit_notes st)" "rid r = i"
    "st' = st\<lparr>bs_credit_notes := rewrite i f (bs_credit_notes st)\<rparr>" "r' = write_row f r" "version r = v"
  using assms by (fastforce simp: update_credit_note_def elim: update_by_id_cases [where w = v])

lemma books_distinct:
  "books_but P I st \<Longrightarrow> distinct_ids (bs_payments st)"
  "books_but P I st \<Longrightarrow> distinct_ids (bs_invoices st)"
  "books_but P I st \<Longrightarrow> distinct_ids (bs_credit_notes st)"
  by (simp_all add: books_but_def)

lemma recompute_invoice_cases:
  assumes books: "books_but P I st" and run: "recompute_invoice_projection today i st = Inr (st', r')"
  obtains r f where "r \<in> set (bs_invoices st)" "rid r = i"
    "f = (\<lambda>r. r\<lparr>inv_paid_amount := total_allocated_for_invoice i st, inv_payment_status :=
        compute_payment_status today (the (get_by_id i (\<lambda>_. True) (bs_invoices st)))
          (total_allocated_for_invoice i st) (applied_total_for_invoice i st) (latest_outcome i st)\<rparr>)"
    "get_by_id i (\<lambda>_. True) (bs_invoices st) = Some r"
    "st' = st\<lparr>bs_invoices := rewrite i f (bs_invoices st)\<rparr>" "r' = write_row f r"
proof -
  note sums = books_totals [OF books]
  obtain iv where iv: "get_by_id i (\<lambda>_. True) (bs_invoices st) = Some iv"
    using run by (auto simp: recompute_invoice_projection_def)
  then have "update_invoice i (\<lambda>r. r\<lparr>inv_paid_amount := total_allocated_for_invoice i st, inv_payment_status :=
        compute_payment_status today iv
          (total_allocated_for_invoice i st) (applied_total_for_invoice i st) (latest_outcome i st)\<rparr>)
      (version iv) (\<lambda>_. True) st = Inr (st', r')"
    using run sums(1,7) by (simp add: recompute_invoice_projection_def get_by_id_or_404_def Let_def)
  then show thesis
    by (rule update_invoice_cases [OF books_distinct(2) [OF books]]) (use iv that in auto)
qed

lemma recompute_open_invoice:
  assumes books: "books_but P I st" and run: "recompute_invoice_projection today i st = Inr (st', r)"
    and iv: "get_by_id i (\<lambda>_. True) (bs_invoices st) = Some iv" and open_iv: "latest_outcome i st = None"
  obtains w where "w \<in> set (bs_invoices st')" "rid w = i" "inv_total w = inv_total iv"
    "inv_paid_amount w = total_allocated_for_invoice i st"
    "inv_payment_status w = PAID \<longleftrightarrow>
       inv_total iv - applied_total_for_invoice i st - total_allocated_for_invoice i st \<le> 0"
    "bs_applications st' = bs_applications st" "bs_allocations st' = bs_allocations st"
  using books run
proof (rule recompute_invoice_cases)
  fix s f
  assume f: "f = (\<lambda>r. r\<lparr>inv_paid_amount := total_allocated_for_invoice i st, inv_payment_status :=
        compute_payment_status today (the (get_by_id i (\<lambda>_. True) (bs_invoices st)))
          (total_allocated_for_invoice i st) (applied_total_for_invoice i st) (latest_outcome i st)\<rparr>)"
    and st': "st' = st\<lparr>bs_invoices := rewrite i f (bs_invoices st)\<rparr>"
  have m: "iv \<in> set (bs_invoices st)" "rid iv = i" using get_by_id_Some [OF iv] by simp_all
  have "inv_payment_status (f iv) = PAID \<longleftrightarrow>
      inv_total iv - applied_total_for_invoice i st - total_allocated_for_invoice i st \<le> 0"
    by (simp add: f iv open_iv compute_payment_status_def Let_def)
  moreover have "inv_total (f iv) = inv_total iv" "inv_paid_amount (f iv) = total_allocated_for_invoice i st"
    by (simp_all add: f)
  moreover have "write_row f iv \<in> set (bs_invoices st')" using m by (auto simp: st' set_rewrite image_iff)
  ultimately show thesis using that [of "write_row f iv"] m by (simp add: st')
qed

lemma books_recompute_invoice:
  assumes books: "books_but P I st" and run: "recompute_invoice_projection today i st = Inr (st', r')"
  shows "books_but P (I - {i}) st'"
  using books run
proof (rule recompute_invoice_cases)
  fix r f
  assume f: "f = (\<lambda>r. r\<lparr>inv_paid_amount := total_allocated_for_invoice i st, inv_payment_status :=
        compute_payment_status today (the (get_by_id i (\<lambda>_. True) (bs_invoices st)))
          (total_allocated_for_invoice i st) (applied_total_for_invoice i st) (latest_outcome i st)\<rparr>)"
    and st': "st' = st\<lparr>bs_invoices := rewrite i f (bs_invoices st)\<rparr>"
  show ?thesis unfolding st'
  proof (rule books_rewrite_invoice [OF books])
    fix s
    assume "s \<in> set (bs_invoices st)"
    then have "is_money (inv_total s)" using books by (simp add: books_but_def)
    then show "(inv_status s = SENT \<longrightarrow> inv_status (f s) = SENT \<and> inv_org (f s) = inv_org s)
        \<and> is_money (inv_total (f s))
        \<and> (i \<notin> I - {i} \<longrightarrow> inv_paid_amount (f s) = total_allocated_for_invoice i st
             \<and> shows_outcome (bs_invoice_events st) i (inv_payment_status (f s)))"
      by (simp add: f latest_outcome_def shows_outcome_computed)
  qed blast
qed

lemma books_recompute_invoices:
  "books_but P I st \<Longrightarrow> recompute_invoice_projections today is st = Inr st' \<Longrightarrow> books_but P (I - set is) st'"
proof (induction "is" arbitrary: I st)
  case (Cons i "is")
  then obtain st1 r where "recompute_invoice_projection today i st = Inr (st1, r)"
      "recompute_invoice_projections today is st1 = Inr st'" by auto
  moreover have "I - set (i # is) = I - {i} - set is" by auto
  ultimately show ?case using Cons.IH books_recompute_invoice [OF Cons.prems(1)] by metis
qed simp

lemma recompute_payment_cases:
  assumes books: "books_but P I st" and run: "recompute_payment_projection p st = Inr st'"
    and p: "is_money (bp_amount p)"
  obtains f where "total_allocated_for_payment (rid p) st \<le> bp_amount p"
    "f = (\<lambda>r. r\<lparr>bp_allocated := total_allocated_for_payment (rid p) st,
       bp_unallocated := bp_amount p - total_allocated_for_payment (rid p) st,
       bp_allocation_status := split_status (total_allocated_for_payment (rid p) st)
         (bp_amount p - total_allocated_for_payment (rid p) st)\<rparr>)"
    "st' = st\<lparr>bs_payments := rewrite (rid p) f (bs_payments st)\<rparr>"
proof -
  have q: "quantize_half_up (total_allocated_for_payment (rid p) st) = total_allocated_for_payment (rid p) st"
    "quantize_half_up (bp_amount p - total_allocated_for_payment (rid p) st)
      = bp_amount p - total_allocated_for_payment (rid p) st"
    using books_totals(3) [OF books, of "rid p"] p by simp_all
  let ?f = "\<lambda>r. r\<lparr>bp_allocated := total_allocated_for_payment (rid p) st,
       bp_unallocated := bp_amount p - total_allocated_for_payment (rid p) st,
       bp_allocation_status := split_status (total_allocated_for_payment (rid p) st)
         (bp_amount p - total_allocated_for_payment (rid p) st)\<rparr>"
  have le: "total_allocated_for_payment (rid p) st \<le> bp_amount p"
    using run by (auto simp: recompute_payment_projection_def q Let_def split: if_splits)
  then obtain r' where "update_payment (rid p) ?f (Some (version p)) (\<lambda>_. True) st = Inr (st', r')"
    using run by (auto simp: recompute_payment_projection_def q Let_def split_status_def cong: if_cong)
  then show thesis
    by (rule update_payment_cases [OF books_distinct(1) [OF books]]) (use le that in auto)
qed

lemma books_recompute_payment:
  assumes books: "books_but P I st" and run: "recompute_payment_projection p st = Inr st'"
    and p: "\<And>r. r \<in> set (bs_payments st) \<Longrightarrow> rid r = rid p \<Longrightarrow> bp_amount r = bp_amount p"
    and m: "is_money (bp_amount p)"
  shows "books_but (P - {rid p}) I st'"
  using books run m
proof (rule recompute_payment_cases)
  fix f
  assume le: "total_allocated_for_payment (rid p) st \<le> bp_amount p"
    and f: "f = (\<lambda>r. r\<lparr>bp_allocated := total_allocated_for_payment (rid p) st,
       bp_unallocated := bp_amount p - total_allocated_for_payment (rid p) st,
       bp_allocation_status := split_status (total_allocated_for_payment (rid p) st)
         (bp_amount p - total_allocated_for_payment (rid p) st)\<rparr>)"
    and st': "st' = st\<lparr>bs_payments := rewrite (rid p) f (bs_payments st)\<rparr>"
  show ?thesis unfolding st'
  proof (rule books_rewrite_payment [OF books])
    fix r
    assume r: "r \<in> set (bs_payments st)" "rid r = rid p"
    then have "is_money (bp_amount r)" "bp_amount r = bp_amount p" using books p by (auto simp: books_but_def)
    then show "bp_org (f r) = bp_org r \<and> is_money (bp_amount (f r))
      \<and> (bp_status (f r) = VOIDED \<longrightarrow> bp_status r = VOIDED \<or> (\<forall>a \<in> set (bs_allocations st). pa_payment_id a \<noteq> rid p))
      \<and> (rid p \<notin> P - {rid p} \<longrightarrow> payment_matches (bs_allocations st) (write_row f r))"
      using r le by (simp add: f payment_matches_def total_allocated_for_payment_def)
  qed blast
qed

subsection \<open>Updates that keep the projections\<close>

lemma books_update_invoice:
  assumes books: "books_but P I st" and run: "update_invoice i f v scope st = Inr (st', r')"
    and f: "\<And>r. get_by_id i scope (bs_invoices st) = Some r \<Longrightarrow> is_money (inv_total r) \<Longrightarrow>
      (inv_status r = SENT \<longrightarrow> inv_status (f r) = SENT \<and> inv_org (f r) = inv_org r)
      \<and> is_money (inv_total (f r)) \<and> inv_paid_amount (f r) = inv_paid_amount r
      \<and> inv_payment_status (f r) = inv_payment_status r"
  shows "books_but P I st' \<and> i \<in> rid ` set (bs_invoices st')
    \<and> (\<exists>r. get_by_id i scope (bs_invoices st) = Some r \<and> r' = write_row f r \<and> rid r = i
         \<and> st' = st\<lparr>bs_invoices := rewrite i f (bs_invoices st)\<rparr>)"
  using books_distinct(2) [OF books] run
proof (rule update_invoice_cases)
  fix r
  assume r: "get_by_id i scope (bs_invoices st) = Some r" "r \<in> set (bs_invoices st)" "rid r = i"
    and st': "st' = st\<lparr>bs_invoices := rewrite i f (bs_invoices st)\<rparr>" "r' = write_row f r"
  have inv: "is_money (inv_total r)" "i \<notin> I \<Longrightarrow> invoice_matches (bs_allocations st) (bs_invoice_events st) r"
    using books r by (auto simp: books_but_def)
  have "books_but P I st'" unfolding st'(1)
  proof (rule books_rewrite_invoice [OF books])
    fix s
    assume s: "s \<in> set (bs_invoices st)" "rid s = i"
    then have "s = r" using distinct_ids_unique [OF books_distinct(2) [OF books]] r by metis
    then show "(inv_status s = SENT \<longrightarrow> inv_status (f s) = SENT \<and> inv_org (f s) = inv_org s)
      \<and> is_money (inv_total (f s))
      \<and> (i \<notin> I \<longrightarrow> inv_paid_amount (f s) = total_allocated_for_invoice i st
           \<and> shows_outcome (bs_invoice_events st) i (inv_payment_status (f s)))"
      using f [OF r(1)] inv r by (simp add: invoice_matches_def total_allocated_for_invoice_def)
  qed blast
  moreover have "i \<in> rid ` set (bs_invoices st')"
    using r(2,3) by (metis st'(1) list.set_map rids_rewrite imageI select_convs(1) billing_state.select_convs(1)
        billing_state.surjective billing_state.update_convs(1))
  ultimately show ?thesis using r st' by blast
qed

lemma books_update_payment:
  assumes books: "books_but P I st" and run: "update_payment i f v scope st = Inr (st', r')"
    and f: "\<And>r. get_by_id i scope (bs_payments st) = Some r \<Longrightarrow>
      bp_org (f r) = bp_org r \<and> bp_amount (f r) = bp_amount r
      \<and> (bp_status (f r) = VOIDED \<longrightarrow> bp_status r = VOIDED \<or> total_allocated_for_payment i st \<le> 0)
      \<and> bp_allocated (f r) = bp_allocated r \<and> bp_unallocated (f r) = bp_unallocated r
      \<and> bp_allocation_status (f r) = bp_allocation_status r"
  shows "books_but P I st'
    \<and> (\<exists>r. get_by_id i scope (bs_payments st) = Some r \<and> r' = write_row f r \<and> rid r = i
         \<and> st' = st\<lparr>bs_payments := rewrite i f (bs_payments st)\<rparr>)"
  using books_distinct(1) [OF books] run
proof (rule update_payment_cases)
  fix r
  assume r: "get_by_id i scope (bs_payments st) = Some r" "r \<in> set (bs_payments st)" "rid r = i"
    and st': "st' = st\<lparr>bs_payments := rewrite i f (bs_payments st)\<rparr>" "r' = write_row f r"
  have pay: "\<forall>p \<in> set (bs_payments st). is_money (bp_amount p)
      \<and> (rid p \<notin> P \<longrightarrow> payment_matches (bs_allocations st) p)"
    and pos: "\<forall>a \<in> set (bs_allocations st). 0 < pa_amount a"
    using books by (auto simp: books_but_def allocation_ok_def)
  have none: "\<forall>a \<in> set (bs_allocations st). pa_payment_id a \<noteq> i" if "total_allocated_for_payment i st \<le> 0"
  proof (rule ccontr)
    assume "\<not> (\<forall>a \<in> set (bs_allocations st). pa_payment_id a \<noteq> i)"
    then obtain a where a: "a \<in> set (bs_allocations st)" "pa_payment_id a = i" by blast
    then have "pa_amount a \<le> total_allocated_for_payment i st" unfolding total_allocated_for_payment_def
      using pos by (intro sum_where_member_le) (auto simp: less_imp_le)
    then show False using pos a(1) that by fastforce
  qed
  have "books_but P I st'" unfolding st'(1)
  proof (rule books_rewrite_payment [OF books])
    fix s
    assume s: "s \<in> set (bs_payments st)" "rid s = i"
    then have "s = r" using distinct_ids_unique [OF books_distinct(1) [OF books]] r by metis
    then show "bp_org (f s) = bp_org s \<and> is_money (bp_amount (f s))
      \<and> (bp_status (f s) = VOIDED \<longrightarrow> bp_status s = VOIDED \<or> (\<forall>a \<in> set (bs_allocations st). pa_payment_id a \<noteq> i))
      \<and> (i \<notin> P \<longrightarrow> payment_matches (bs_allocations st) (write_row f s))"
      using f [OF r(1)] pay none r by (auto simp: payment_matches_def)
  qed blast
  then show ?thesis using r st' by blast
qed

subsection \<open>What a SENT invoice keeps\<close>

text \<open>
  \<open>kept st st'\<close>: every SENT invoice is still there, SENT and of the same organisation, its outcome
  is final, and a voided or written-off invoice keeps its total.
\<close>

definition kept :: "billing_state \<Rightarrow> billing_state \<Rightarrow> bool" where
  "kept st st' \<longleftrightarrow> (\<forall>iv \<in> set (bs_invoices st). inv_status iv = SENT \<longrightarrow>
     (\<forall>t. latest_outcome (rid iv) st = Some t \<longrightarrow> latest_outcome (rid iv) st' = Some t)
     \<and> (\<exists>w \<in> set (bs_invoices st'). rid w = rid iv \<and> inv_status w = SENT \<and> inv_org w = inv_org iv
          \<and> (latest_outcome (rid iv) st \<noteq> None \<longrightarrow> inv_total w = inv_total iv)))"

lemma kept_same:
  "bs_invoices st' = bs_invoices st \<Longrightarrow> bs_invoice_events st' = bs_invoice_events st \<Longrightarrow> kept st st'"
  by (auto simp: kept_def latest_outcome_def)

lemma kept_refl [simp]: "kept st st"
  by (rule kept_same) simp_all

lemma kept_trans: "kept st st' \<Longrightarrow> kept st' st'' \<Longrightarrow> kept st st''"
  unfolding kept_def by (metis option.exhaust)

lemma kept_append_event:
  "t \<notin> {EV_VOIDED, EV_WRITTEN_OFF} \<or> latest_outcome i st = None \<Longrightarrow> kept st (append_invoice_event i t reason ax st)"
  unfolding kept_def latest_outcome_def append_invoice_event_def
  by (auto simp: outcome_in_append)

lemma kept_rewrite:
  assumes "\<And>r. r \<in> set (bs_invoices st) \<Longrightarrow> rid r = i \<Longrightarrow> inv_status r = SENT \<Longrightarrow>
      inv_status (f r) = SENT \<and> inv_org (f r) = inv_org r
      \<and> (latest_outcome i st \<noteq> None \<longrightarrow> inv_total (f r) = inv_total r)"
  shows "kept st (st\<lparr>bs_invoices := rewrite i f (bs_invoices st)\<rparr>)"
  unfolding kept_def
proof (intro ballI impI conjI allI)
  fix iv
  assume iv: "iv \<in> set (bs_invoices st)" "inv_status iv = SENT"
  let ?w = "if rid iv = i then write_row f iv else iv"
  have "?w \<in> set (rewrite i f (bs_invoices st))" using iv(1) by (auto simp: set_rewrite)
  moreover have "rid ?w = rid iv \<and> inv_status ?w = SENT \<and> inv_org ?w = inv_org iv
      \<and> (latest_outcome (rid iv) st \<noteq> None \<longrightarrow> inv_total ?w = inv_total iv)"
    using assms [OF iv(1)] iv(2) by simp
  ultimately show "\<exists>w \<in> set (bs_invoices (st\<lparr>bs_invoices := rewrite i f (bs_invoices st)\<rparr>)).
      rid w = rid iv \<and> inv_status w = SENT \<and> inv_org w = inv_org iv
      \<and> (latest_outcome (rid iv) st \<noteq> None \<longrightarrow> inv_total w = inv_total iv)"
    by (intro bexI [of _ ?w]) simp_all
qed (simp add: latest_outcome_def)

lemma kept_recompute_invoice:
  assumes "books_but P I st" and "recompute_invoice_projection today i st = Inr (st', r')"
  shows "kept st st'"
  using assms by (rule recompute_invoice_cases) (auto intro!: kept_rewrite)

lemma kept_recompute_invoices:
  "books_but P I st \<Longrightarrow> recompute_invoice_projections today is st = Inr st' \<Longrightarrow> kept st st'"
proof (induction "is" arbitrary: I st)
  case (Cons i "is")
  then obtain st1 r where run: "recompute_invoice_projection today i st = Inr (st1, r)"
      "recompute_invoice_projections today is st1 = Inr st'" by auto
  show ?case
    using kept_trans [OF kept_recompute_invoice [OF Cons.prems(1) run(1)]]
      Cons.IH [OF books_recompute_invoice [OF Cons.prems(1) run(1)] run(2)] by blast
qed simp

lemma kept_frame [books_simps]:
  "kept st (append_payment_event p pt u st') = kept st st'"
  "kept st (append_refund_event r rt u st') = kept st st'"
  "kept st (billing_audit action e ax reason severity st') = kept st st'"
  "kept st (push_job j st') = kept st st'"
  by (simp_all add: kept_def latest_outcome_def append_payment_event_def append_refund_event_def
      billing_audit_def push_job_def)

lemma kept_frame_jobs [books_simps]:
  "kept st (audit_if ctx action e reason severity st') = kept st st'"
  "kept st (enqueue_qb_payment_sync p org st') = kept st st'"
  "kept st (enqueue_qb_invoice_sync oid i trigger st') = kept st st'"
  by (simp_all add: audit_if_def enqueue_qb_payment_sync_def enqueue_qb_invoice_sync_def books_simps
      split: option.splits)

lemma kept_insert_invoice:
  "kept st (st\<lparr>bs_invoices := bs_invoices st @ vs\<rparr>)"
  by (auto simp: kept_def latest_outcome_def)

subsection \<open>The contract of an operation\<close>

definition keeps_books :: "(billing_state \<Rightarrow> (billing_state \<times> 'r) result) \<Rightarrow> bool" where
  "keeps_books oper \<longleftrightarrow> (\<forall>st st' r. books_ok st \<longrightarrow> oper st = Inr (st', r) \<longrightarrow> books_ok st' \<and> kept st st')"

lemma keeps_booksI:
  "(\<And>st st' r. books_ok st \<Longrightarrow> oper st = Inr (st', r) \<Longrightarrow> books_ok st' \<and> kept st st') \<Longrightarrow> keeps_books oper"
  by (simp add: keeps_books_def)

lemma keeps_booksD:
  "keeps_books oper \<Longrightarrow> oper st = Inr (st', r) \<Longrightarrow> books_ok st \<Longrightarrow> books_ok st' \<and> kept st st'"
  by (auto simp: keeps_books_def)


lemma keeps_books_bind:
  "(\<And>x. keeps_books (g x)) \<Longrightarrow> keeps_books (\<lambda>st. bind_result (m st) (\<lambda>x. g x st))"
proof (rule keeps_booksI)
  fix st st' r
  assume g: "\<And>x. keeps_books (g x)" and books: "books_ok st" and run: "bind_result (m st) (\<lambda>x. g x st) = Inr (st', r)"
  obtain x where "g x st = Inr (st', r)" using run by (cases "m st") simp_all
  from keeps_booksD [OF g this books] show "books_ok st' \<and> kept st st'" .
qed

lemma keeps_books_same: "keeps_books (\<lambda>st. Inr (st, x st))" "keeps_books (\<lambda>st. Inl e)"
  by (simp_all add: keeps_books_def)

lemma keeps_books_if: "keeps_books f \<Longrightarrow> keeps_books g \<Longrightarrow> keeps_books (\<lambda>st. if c st then f st else g st)"
  unfolding keeps_books_def by metis

lemmas keeps_books_rules = keeps_books_bind keeps_books_if keeps_books_same

end
