(* ===== verification/Invoices.thy ===== *)
theory Invoices
  imports BillingBooks
begin

text \<open>
  The invoice service, \<^verbatim>\<open>app/modules/invoices/service.py\<close>: drafts, finalising, voiding and
  writing off by append-only outcome events, the internal note, and the invoice that follows
  an order. Invoice numbers and ids of new rows are arguments, as is the date of today.
\<close>

subsection \<open>Amounts\<close>

definition is_close_money :: "rat \<Rightarrow> rat \<Rightarrow> bool" where
  "is_close_money a b \<longleftrightarrow> \<bar>quantize_half_up a - quantize_half_up b\<bar> \<le> 1 / 100"

definition derive_vat_rate :: "rat \<Rightarrow> rat \<Rightarrow> rat result" where
  "derive_vat_rate subtotal vat_amount =
     (if subtotal \<le> 0 then
        (if 0 < vat_amount then Inl (ValidationError ''VAT amount cannot be positive when subtotal is zero'')
         else Inr 0)
      else Inr (quantize_half_up (vat_amount / subtotal * 100)))"

definition validate_order_amounts :: "rat \<Rightarrow> rat \<Rightarrow> rat \<Rightarrow> unit result" where
  "validate_order_amounts subtotal vat_amount total_amount =
     (if subtotal < 0 \<or> vat_amount < 0 \<or> total_amount < 0
      then Inl (ValidationError ''Invoice amounts must be non-negative'')
      else if \<not> is_close_money (quantize_half_up (subtotal + vat_amount)) total_amount
      then Inl (ValidationError ''Order totals mismatch: subtotal + vat_amount must equal total'')
      else Inr ())"

definition split_vat_from_gross :: "rat \<Rightarrow> rat \<Rightarrow> rat \<times> rat \<times> rat" where
  \<comment> \<open>\<^verbatim>\<open>app/modules/billing/metrics.py\<close>; \<^verbatim>\<open>quantize\<close> without a mode rounds half to even\<close>
  "split_vat_from_gross gross vat_rate =
     (let rate = vat_rate / 100 in
      if rate \<le> 0 then (let t = quantize_half_even gross in (t, 0, t))
      else
        let subtotal = quantize_half_even (gross / (1 + rate));
            vat_amount = quantize_half_even (gross - subtotal)
        in (subtotal, vat_amount, quantize_half_even gross))"

subsection \<open>Orders and their lines\<close>

record package_line =
  pl_quantity :: "int option"
  pl_unit_price :: "price_field option"
  pl_amount :: "price_field option"
  pl_package_id :: "string option"
  pl_description :: "string option"
  pl_line_type :: "string option"

record billed_order =
  od_id :: string
  od_ref :: "string option"
  od_org :: "string option"
  od_customer :: "string option"
  od_subtotal :: "rat option"
  od_vat_amount :: "rat option"
  od_total_amount :: "rat option"
  od_package_lines :: "package_line list option"

record order_package =
  op_id :: string
  op_package_id :: "string option"

record line_draft =
  ld_package_id :: "string option"
  ld_description :: string
  ld_quantity :: int
  ld_unit_price :: rat
  ld_total_price :: rat
  ld_line_type :: string

definition or_zero :: "rat option \<Rightarrow> rat" where
  "or_zero x = (case x of None \<Rightarrow> 0 | Some d \<Rightarrow> d)"

definition package_line_draft :: "nat \<times> package_line \<Rightarrow> line_draft result" where
  "package_line_draft x =
     (case x of (idx, pkg) \<Rightarrow>
      let qty = (case pl_quantity pkg of None \<Rightarrow> 1 | Some n \<Rightarrow> if n = 0 then 1 else n) in
      bind_result (decimal_or_zero (if truthy_price (pl_unit_price pkg) then pl_unit_price pkg else pl_amount pkg)) (\<lambda>u.
      let unit = quantize_half_up u in
      bind_result (if truthy_price (pl_amount pkg) then to_decimal (the (pl_amount pkg))
                   else Inr (unit * of_int qty)) (\<lambda>t.
      Inr \<lparr>ld_package_id = pl_package_id pkg, ld_description = str_or (pl_description pkg) (''Package '' @ nat_text idx),
           ld_quantity = qty, ld_unit_price = unit, ld_total_price = quantize_half_up t,
           ld_line_type = str_or (pl_line_type pkg) ''service''\<rparr>)))"

definition build_order_line_items :: "billed_order \<Rightarrow> order_package list \<Rightarrow> line_draft list result" where
  "build_order_line_items od all_packages =
     (let subtotal = quantize_half_up (or_zero (od_subtotal od)) in
      case od_package_lines od of
        Some (l # ls) \<Rightarrow> map_result package_line_draft (enumerate 1 (l # ls))
      | _ \<Rightarrow>
          if all_packages \<noteq> [] \<and> subtotal = 0 then
            Inr (map (\<lambda>pkg. \<lparr>ld_package_id = Some (op_id pkg),
                  ld_description = ''Package '' @ str_or (op_package_id pkg) (str_or (Some (op_id pkg)) ''package''),
                  ld_quantity = 1, ld_unit_price = 0, ld_total_price = 0, ld_line_type = ''service''\<rparr>) all_packages)
          else
            Inr [\<lparr>ld_package_id = None, ld_description = ''Order service '' @ str_or (od_ref od) (od_id od),
                  ld_quantity = 1, ld_unit_price = subtotal, ld_total_price = subtotal, ld_line_type = ''service''\<rparr>])"

definition replace_line_items :: "string \<Rightarrow> line_draft list \<Rightarrow> billing_state \<Rightarrow> billing_state" where
  "replace_line_items i items st =
     st\<lparr>bs_lines := filter (\<lambda>l. li_invoice_id l \<noteq> i) (bs_lines st) @
        map (\<lambda>d. \<lparr>li_invoice_id = i, li_package_id = ld_package_id d, li_description = ld_description d,
            li_quantity = ld_quantity d, li_unit_price = quantize_half_up (ld_unit_price d),
            li_total_price = quantize_half_up (ld_total_price d),
            li_line_type = str_or (Some (ld_line_type d)) ''service''\<rparr>) items\<rparr>"

subsection \<open>Creating\<close>

record invoice_data =
  nd_order_id :: "string option"
  nd_org :: "string option"
  nd_customer :: "string option"
  nd_issue_date :: int
  nd_due_date :: int
  nd_subtotal :: rat
  nd_vat_rate :: rat
  nd_vat_amount :: rat
  nd_total :: rat
  nd_notes :: "string option"
  nd_contact_email :: "string option"

definition check_new_invoice :: "invoice_data \<Rightarrow> unit result" where
  "check_new_invoice d =
     (if nd_due_date d < nd_issue_date d then Inl (ValidationError ''Due date must be on or after issue date'')
      else if nd_total d < 0 then Inl (ValidationError ''Total must be non-negative'')
      else if nd_subtotal d < 0 \<or> nd_vat_amount d < 0
      then Inl (ValidationError ''Subtotal and VAT amount must be non-negative'')
      else Inr ())"

definition new_invoice :: "invoice_data \<Rightarrow> invoice_status \<Rightarrow> bool \<Rightarrow> string \<Rightarrow> string \<Rightarrow> invoice" where
  "new_invoice d status queued new_id number =
     \<lparr>rid = new_id, version = 1, inv_number = number, inv_order_id = nd_order_id d, inv_org = nd_org d,
      inv_customer = nd_customer d, inv_issue_date = nd_issue_date d, inv_due_date = nd_due_date d,
      inv_subtotal = quantize_half_up (nd_subtotal d), inv_vat_rate = quantize_half_up (nd_vat_rate d),
      inv_vat_amount = quantize_half_up (nd_vat_amount d), inv_total = quantize_half_up (nd_total d),
      inv_status = status, inv_paid_amount = 0, inv_payment_status = UNPAID, inv_notes = nd_notes d,
      inv_contact_email = str_or_none (strip (str_or (nd_contact_email d) '''')), inv_qb_queued = queued\<rparr>"

definition insert_invoice :: "invoice \<Rightarrow> billing_state \<Rightarrow> billing_state result" where
  \<comment> \<open>the primary key and the unique invoice number\<close>
  "insert_invoice i st =
     (if inv_number i \<in> inv_number ` set (bs_invoices st) then Inl (IntegrityError ''invoice_number'')
      else bind_result (create_row i (bs_invoices st)) (\<lambda>rows. Inr (st\<lparr>bs_invoices := rows\<rparr>)))"

definition create_draft ::
    "invoice_data \<Rightarrow> actor \<Rightarrow> string \<Rightarrow> string \<Rightarrow> billing_state \<Rightarrow> (billing_state \<times> invoice) result" where
  "create_draft d ax new_id number st =
     bind_result (check_new_invoice d) (\<lambda>_.
     let i = new_invoice d DRAFT False new_id number in
     bind_result (insert_invoice i st) (\<lambda>st1.
     Inr (billing_audit ''invoice.created'' new_id ax None ''NOTICE''
            (append_invoice_event new_id EV_CREATED None ax st1), i)))"

definition create_and_finalize ::
    "invoice_data \<Rightarrow> actor \<Rightarrow> bool \<Rightarrow> string \<Rightarrow> string \<Rightarrow> billing_state \<Rightarrow> (billing_state \<times> invoice) result" where
  "create_and_finalize d ax queue_qb_sync new_id number st =
     bind_result (check_new_invoice d) (\<lambda>_.
     let i = new_invoice d SENT (truthy_str (nd_org d)) new_id number in
     bind_result (insert_invoice i st) (\<lambda>st1.
     let st2 = append_invoice_event new_id EV_FINALIZED None ax (append_invoice_event new_id EV_CREATED None ax st1);
         st3 = billing_audit ''invoice.finalized'' new_id ax None ''NOTICE''
                 (billing_audit ''invoice.created'' new_id ax None ''NOTICE'' st2)
     in Inr (if queue_qb_sync then enqueue_qb_invoice_sync (nd_org d) new_id ''invoice.sync'' st3 else st3, i)))"

subsection \<open>Drafts\<close>

record draft_patch =
  dp_order_id :: "string option option"
  dp_org :: "string option option"
  dp_customer :: "string option option"
  dp_issue_date :: "int option"
  dp_due_date :: "int option"
  dp_subtotal :: "rat option"
  dp_vat_rate :: "rat option"
  dp_vat_amount :: "rat option"
  dp_total :: "rat option"

definition set_if :: "'a option \<Rightarrow> 'a \<Rightarrow> 'a" where
  "set_if x old = (case x of None \<Rightarrow> old | Some v \<Rightarrow> v)"

definition patch_invoice :: "draft_patch \<Rightarrow> invoice \<Rightarrow> invoice" where
  "patch_invoice d i = i\<lparr>
     inv_order_id := set_if (dp_order_id d) (inv_order_id i), inv_org := set_if (dp_org d) (inv_org i),
     inv_customer := set_if (dp_customer d) (inv_customer i),
     inv_issue_date := set_if (dp_issue_date d) (inv_issue_date i),
     inv_due_date := set_if (dp_due_date d) (inv_due_date i),
     inv_subtotal := set_if (map_option quantize_half_up (dp_subtotal d)) (inv_subtotal i),
     inv_vat_rate := set_if (map_option quantize_half_up (dp_vat_rate d)) (inv_vat_rate i),
     inv_vat_amount := set_if (map_option quantize_half_up (dp_vat_amount d)) (inv_vat_amount i),
     inv_total := set_if (map_option quantize_half_up (dp_total d)) (inv_total i)\<rparr>"

definition update_draft ::
    "int \<Rightarrow> string \<Rightarrow> draft_patch \<Rightarrow> string option \<Rightarrow> actor \<Rightarrow> billing_state \<Rightarrow> (billing_state \<times> invoice) result" where
  "update_draft today i d org ax st =
     bind_result (get_by_id_or_404 ''invoice'' i (org_scope org) (bs_invoices st)) (\<lambda>iv.
     if inv_status iv \<noteq> DRAFT then Inl (ConflictError ''Only draft invoices can be updated'')
     else if set_if (dp_due_date d) (inv_due_date iv) < set_if (dp_issue_date d) (inv_issue_date iv)
     then Inl (ValidationError ''Due date must be on or after issue date'')
     else
       bind_result (update_invoice i (patch_invoice d) (version iv) (org_scope org) st) (\<lambda>(st1, updated).
       let st2 = append_invoice_event i EV_DRAFT_SAVED None ax st1 in
       if dp_subtotal d \<noteq> None \<or> dp_vat_rate d \<noteq> None \<or> dp_vat_amount d \<noteq> None \<or> dp_total d \<noteq> None
          \<or> dp_due_date d \<noteq> None
       then recompute_invoice_projection today i st2 else Inr (st2, updated)))"

definition assert_draft_invoice_deletable :: "string \<Rightarrow> billing_state \<Rightarrow> unit result" where
  "assert_draft_invoice_deletable i st =
     (if \<exists>a \<in> set (bs_allocations st). pa_invoice_id a = i
      then Inl (ConflictError ''Cannot delete invoice with payment allocations'')
      else if \<exists>a \<in> set (bs_applications st). ia_invoice_id a = i
      then Inl (ConflictError ''Cannot delete invoice with applied credit notes'')
      else if \<exists>c \<in> set (bs_credit_notes st). cn_reversal_invoice c = Some i
      then Inl (ConflictError ''Cannot delete invoice referenced as a credit-note reversal'')
      else Inr ())"

definition delete_draft ::
    "string \<Rightarrow> string option \<Rightarrow> actor \<Rightarrow> billing_state \<Rightarrow> billing_state result" where
  \<comment> \<open>the foreign keys cascade to events, lines and PDF artifacts, and null the references of credit
     notes and refunds to the invoice\<close>
  "delete_draft i org ax st =
     bind_result (get_by_id_or_404 ''invoice'' i (org_scope org) (bs_invoices st)) (\<lambda>iv.
     if inv_status iv \<noteq> DRAFT then Inl (ConflictError ''Only draft invoices can be deleted'')
     else
       bind_result (assert_draft_invoice_deletable i st) (\<lambda>_.
       bind_result (hard_delete ''invoice'' i (org_scope org) (bs_invoices st)) (\<lambda>rows.
       Inr (billing_audit ''invoice.draft_deleted'' i ax None ''WARNING''
         (st\<lparr>bs_invoices := rows,
            bs_invoice_events := filter (\<lambda>e. ie_invoice_id e \<noteq> i) (bs_invoice_events st),
            bs_lines := filter (\<lambda>l. li_invoice_id l \<noteq> i) (bs_lines st),
            bs_pdf_history := filter (\<lambda>j. j \<noteq> i) (bs_pdf_history st),
            bs_credit_notes := map (\<lambda>c. if cn_source_invoice c = Some i then c\<lparr>cn_source_invoice := None\<rparr> else c)
              (bs_credit_notes st),
            bs_refunds := map (\<lambda>r. if rf_invoice_id r = Some i then r\<lparr>rf_invoice_id := None\<rparr> else r)
              (bs_refunds st)\<rparr>)))))"

subsection \<open>Finalising, voiding, writing off\<close>

definition finalize ::
    "string \<Rightarrow> string option \<Rightarrow> actor \<Rightarrow> billing_state \<Rightarrow> (billing_state \<times> invoice) result" where
  "finalize i org ax st =
     bind_result (get_by_id_or_404 ''invoice'' i (org_scope org) (bs_invoices st)) (\<lambda>iv.
     if inv_status iv = SENT then Inr (st, iv)
     else
       bind_result (update_invoice i (\<lambda>r. r\<lparr>inv_status := SENT,
            inv_qb_queued := (truthy_str (inv_org iv) \<or> inv_qb_queued r)\<rparr>) (version iv) (org_scope org) st)
         (\<lambda>(st1, updated).
       let st2 = billing_audit ''invoice.finalized'' i ax None ''NOTICE''
                   (append_invoice_event i EV_FINALIZED None ax st1)
       in Inr (enqueue_qb_invoice_sync (inv_org updated) i ''invoice.sync'' st2, updated)))"

definition close_invoice ::
    "invoice_event_type \<Rightarrow> string \<Rightarrow> string \<Rightarrow> int \<Rightarrow> string \<Rightarrow> string option \<Rightarrow> string option \<Rightarrow> actor
     \<Rightarrow> billing_state \<Rightarrow> (billing_state \<times> invoice) result" where
  \<comment> \<open>\<^verbatim>\<open>void\<close> and \<^verbatim>\<open>write_off\<close> differ in the event they append, the error text and the audit action\<close>
  "close_invoice outcome missing_reason action today i reason org ax st =
     (let reason_clean = strip (str_or reason '''') in
      if reason_clean = '''' then Inl (ValidationError missing_reason)
      else
        bind_result (get_by_id_or_404 ''invoice'' i (org_scope org) (bs_invoices st)) (\<lambda>iv.
        if latest_outcome i st \<noteq> None then Inl (ConflictError ''Invoice is already voided or written off'')
        else
          bind_result (update_invoice i (\<lambda>r. r) (version iv) (org_scope org) st) (\<lambda>(st1, _).
          bind_result (recompute_invoice_projection today i
                         (append_invoice_event i outcome (Some reason_clean) ax st1)) (\<lambda>(st2, projected).
          Inr (enqueue_qb_invoice_sync (inv_org projected) i ''invoice.sync''
                 (billing_audit action i ax (Some reason_clean) ''WARNING'' st2), projected)))))"

definition void_invoice ::
    "int \<Rightarrow> string \<Rightarrow> string option \<Rightarrow> string option \<Rightarrow> actor \<Rightarrow> billing_state \<Rightarrow> (billing_state \<times> invoice) result" where
  "void_invoice = close_invoice EV_VOIDED ''Reason is required for void'' ''invoice.voided''"

definition write_off ::
    "int \<Rightarrow> string \<Rightarrow> string option \<Rightarrow> string option \<Rightarrow> actor \<Rightarrow> billing_state \<Rightarrow> (billing_state \<times> invoice) result" where
  "write_off = close_invoice EV_WRITTEN_OFF ''Reason is required for write-off'' ''invoice.written_off''"

subsection \<open>The invoice of an order\<close>

definition invoice_by_order :: "string \<Rightarrow> string option \<Rightarrow> billing_state \<Rightarrow> invoice option" where
  \<comment> \<open>the newest; the organisation filters when it is given\<close>
  "invoice_by_order od org st =
     find (\<lambda>i. inv_order_id i = Some od \<and> (org = None \<or> inv_org i = org)) (rev (bs_invoices st))"

definition order_invoice_data :: "billed_order \<Rightarrow> int \<Rightarrow> int \<Rightarrow> rat \<Rightarrow> rat \<Rightarrow> rat \<Rightarrow> rat \<Rightarrow> invoice_data" where
  "order_invoice_data od issue due subtotal vat_rate vat_amount total_amount =
     \<lparr>nd_order_id = Some (od_id od), nd_org = od_org od, nd_customer = od_customer od,
      nd_issue_date = issue, nd_due_date = due, nd_subtotal = subtotal, nd_vat_rate = vat_rate,
      nd_vat_amount = vat_amount, nd_total = total_amount, nd_notes = Some ''Auto-generated from order'',
      nd_contact_email = None\<rparr>"

definition sync_fields :: "int \<Rightarrow> int \<Rightarrow> rat \<Rightarrow> rat \<Rightarrow> rat \<Rightarrow> rat \<Rightarrow> invoice \<Rightarrow> invoice" where
  "sync_fields issue due subtotal vat_rate vat_amount total_amount r =
     r\<lparr>inv_issue_date := issue, inv_due_date := due, inv_subtotal := subtotal, inv_vat_rate := vat_rate,
       inv_vat_amount := vat_amount, inv_total := total_amount, inv_notes := Some ''Auto-synced from order''\<rparr>"

definition order_billing :: "billed_order \<Rightarrow> order_package list \<Rightarrow> int \<Rightarrow> int \<Rightarrow> (rat \<times> line_draft list) result" where
  \<comment> \<open>the checks of \<^verbatim>\<open>sync_from_order\<close> before it writes: the VAT rate and the lines\<close>
  "order_billing od all_packages issue due =
     (let subtotal = quantize_half_up (or_zero (od_subtotal od));
          vat_amount = quantize_half_up (or_zero (od_vat_amount od));
          total_amount = quantize_half_up (or_zero (od_total_amount od)) in
      if due < issue then Inl (ValidationError ''due_date must be on or after issue_date'')
      else
        bind_result (validate_order_amounts subtotal vat_amount total_amount) (\<lambda>_.
        bind_result (derive_vat_rate subtotal vat_amount) (\<lambda>vat_rate.
        bind_result (build_order_line_items od all_packages) (\<lambda>items.
        let line_subtotal = quantize_half_up (sum_list (map ld_total_price items)) in
        if \<not> is_close_money line_subtotal subtotal
        then Inl (ValidationError ''Invoice line items subtotal does not match order subtotal'')
        else Inr (vat_rate, items)))))"

definition sync_from_order ::
    "int \<Rightarrow> billed_order \<Rightarrow> order_package list \<Rightarrow> int option \<Rightarrow> int option \<Rightarrow> actor \<Rightarrow> string \<Rightarrow> string
     \<Rightarrow> billing_state \<Rightarrow> (billing_state \<times> invoice) result" where
  "sync_from_order today od all_packages issue_date due_date ax new_id number st =
     (let issue = set_if issue_date today; due = set_if due_date issue;
          subtotal = quantize_half_up (or_zero (od_subtotal od));
          vat_amount = quantize_half_up (or_zero (od_vat_amount od));
          total_amount = quantize_half_up (or_zero (od_total_amount od)) in
      bind_result (order_billing od all_packages issue due) (\<lambda>(vat_rate, items).
      case invoice_by_order (od_id od) (od_org od) st of
        None \<Rightarrow>
          bind_result (create_draft (order_invoice_data od issue due subtotal vat_rate vat_amount total_amount)
              ax new_id number st) (\<lambda>(st1, i).
          Inr (replace_line_items new_id items st1, i))
      | Some existing \<Rightarrow>
          if inv_payment_status existing = VOID \<or> inv_payment_status existing = WRITTEN_OFF
          then Inl (ConflictError ''Cannot update an invoice that is voided or written off'')
          else
            bind_result (update_invoice (rid existing)
                (sync_fields issue due subtotal vat_rate vat_amount total_amount)
                (version existing) (\<lambda>_. True) st) (\<lambda>(st1, _).
            let st2 = append_invoice_event (rid existing) EV_DRAFT_SAVED None ax
                        (replace_line_items (rid existing) items st1) in
            bind_result (recompute_invoice_projection today (rid existing) st2) (\<lambda>(st3, updated).
            let st4 = (if rid existing \<in> set (bs_pdf_history st3) then push_job (PdfRequest (rid existing)) st3 else st3)
            in Inr (if truthy_str (inv_org updated) \<and> inv_status updated = SENT
                    then enqueue_qb_invoice_sync (inv_org updated) (rid updated) ''invoice.sync'' st4 else st4,
                    updated)))))"

subsection \<open>Internal note\<close>

definition display_internal_note :: "string option \<Rightarrow> string option" where
  "display_internal_note notes = (case notes of None \<Rightarrow> None | Some s \<Rightarrow> str_or_none (strip s))"

definition normalize_internal_note :: "string \<Rightarrow> string result" where
  "normalize_internal_note notes =
     (let cleaned = strip notes in
      if cleaned = '''' then Inl (ValidationError ''Internal note must not be blank'')
      else if 2000 < length cleaned then Inl (ValidationError ''Internal note must be at most 2000 characters'')
      else Inr cleaned)"

definition persist_internal_note ::
    "string \<Rightarrow> string option \<Rightarrow> int \<Rightarrow> string option \<Rightarrow> string \<Rightarrow> string \<Rightarrow> actor \<Rightarrow> billing_state
     \<Rightarrow> (billing_state \<times> invoice) result" where
  "persist_internal_note i notes v org action severity ax st =
     bind_result (update_invoice i (\<lambda>r. r\<lparr>inv_notes := notes\<rparr>) v (org_scope org) st) (\<lambda>(st1, updated).
     let st2 = billing_audit action i ax None severity st1
     in Inr (if truthy_str (inv_org updated) \<and> inv_status updated = SENT
             then enqueue_qb_invoice_sync (inv_org updated) i ''invoice.internal_note_changed'' st2 else st2,
             updated))"

definition upsert_invoice_internal_note ::
    "string \<Rightarrow> string \<Rightarrow> int \<Rightarrow> string option \<Rightarrow> actor \<Rightarrow> billing_state \<Rightarrow> (billing_state \<times> invoice) result" where
  "upsert_invoice_internal_note i notes v org ax st =
     bind_result (get_by_id_or_404 ''invoice'' i (org_scope org) (bs_invoices st)) (\<lambda>iv.
     bind_result (normalize_internal_note notes) (\<lambda>normalized.
     let current = display_internal_note (inv_notes iv) in
     if current = Some normalized then Inr (st, iv)
     else persist_internal_note i (Some normalized) v org
            (if current = None then ''invoice.internal_note_created'' else ''invoice.internal_note_updated'')
            ''INFO'' ax st))"

definition create_invoice_internal_note ::
    "string \<Rightarrow> string \<Rightarrow> int \<Rightarrow> string option \<Rightarrow> actor \<Rightarrow> billing_state \<Rightarrow> (billing_state \<times> invoice) result" where
  "create_invoice_internal_note i notes v org ax st =
     bind_result (get_by_id_or_404 ''invoice'' i (org_scope org) (bs_invoices st)) (\<lambda>iv.
     if display_internal_note (inv_notes iv) \<noteq> None
     then Inl (ConflictError ''Internal note already exists; use PUT to update'')
     else
       bind_result (normalize_internal_note notes) (\<lambda>normalized.
       persist_internal_note i (Some normalized) v org ''invoice.internal_note_created'' ''INFO'' ax st))"

definition delete_invoice_internal_note ::
    "string \<Rightarrow> int \<Rightarrow> string option \<Rightarrow> actor \<Rightarrow> billing_state \<Rightarrow> (billing_state \<times> invoice) result" where
  "delete_invoice_internal_note i v org ax st =
     bind_result (get_by_id_or_404 ''invoice'' i (org_scope org) (bs_invoices st)) (\<lambda>iv.
     if display_internal_note (inv_notes iv) = None then Inr (st, iv)
     else persist_internal_note i None v org ''invoice.internal_note_deleted'' ''WARNING'' ax st)"

subsection \<open>The books\<close>

lemma books_insert_new_invoice:
  assumes "books_ok st" and "insert_invoice (new_invoice d status queued new_id number) st = Inr st'"
  shows "books_ok st' \<and> kept st st' \<and> new_id \<in> rid ` set (bs_invoices st')
    \<and> st' = st\<lparr>bs_invoices := bs_invoices st @ [new_invoice d status queued new_id number]\<rparr>"
proof -
  have "rid (new_invoice d status queued new_id number) \<notin> rid ` set (bs_invoices st)"
    and st': "st' = st\<lparr>bs_invoices := bs_invoices st @ [new_invoice d status queued new_id number]\<rparr>"
    using assms(2) by (auto simp: insert_invoice_def create_row_Inr split: if_splits)
  then have "books_ok st'" using books_insert_invoice [OF assms(1)] by (simp add: new_invoice_def)
  moreover have "new_id \<in> rid ` set (bs_invoices st')" unfolding st' by (simp add: new_invoice_def)
  ultimately show ?thesis using st' kept_insert_invoice by blast
qed

lemma books_opening_event:
  "books_ok st \<Longrightarrow> i \<in> rid ` set (bs_invoices st) \<Longrightarrow> t \<in> {EV_CREATED, EV_DRAFT_SAVED, EV_FINALIZED, EV_CREDIT_APPLIED}
   \<Longrightarrow> books_ok (append_invoice_event i t reason ax st) \<and> kept st (append_invoice_event i t reason ax st)"
  using books_append_event [of "{}" "{}" st i t reason ax] kept_append_event [of t i st reason ax] by auto

lemma create_draft_keeps: "keeps_books (create_draft d ax new_id number)"
proof (rule keeps_booksI)
  fix st st' r
  assume books: "books_ok st" and run: "create_draft d ax new_id number st = Inr (st', r)"
  obtain st1 where 1: "insert_invoice (new_invoice d DRAFT False new_id number) st = Inr st1"
      "st' = billing_audit ''invoice.created'' new_id ax None ''NOTICE'' (append_invoice_event new_id EV_CREATED None ax st1)"
    using run by (auto simp: create_draft_def Let_def)
  note new = books_insert_new_invoice [OF books 1(1)]
  have "books_ok (append_invoice_event new_id EV_CREATED None ax st1)"
    "kept st1 (append_invoice_event new_id EV_CREATED None ax st1)"
    using books_opening_event [of st1 new_id EV_CREATED] new by auto
  then show "books_ok st' \<and> kept st st'" using new kept_trans 1(2) by (simp add: books_simps) blast
qed

lemma create_and_finalize_keeps: "keeps_books (create_and_finalize d ax queue new_id number)"
proof (rule keeps_booksI)
  fix st st' r
  assume books: "books_ok st" and run: "create_and_finalize d ax queue new_id number st = Inr (st', r)"
  obtain st1 where 1: "insert_invoice (new_invoice d SENT (truthy_str (nd_org d)) new_id number) st = Inr st1"
    using run by (auto simp: create_and_finalize_def Let_def)
  let ?st2 = "append_invoice_event new_id EV_CREATED None ax st1"
  let ?st3 = "append_invoice_event new_id EV_FINALIZED None ax ?st2"
  note new = books_insert_new_invoice [OF books 1]
  have 2: "books_ok ?st2" "kept st1 ?st2" using books_opening_event [of st1 new_id EV_CREATED] new by auto
  have 3: "books_ok ?st3" "kept ?st2 ?st3"
    using books_opening_event [of ?st2 new_id EV_FINALIZED] 2 new by auto
  have "kept st ?st3" using kept_trans [OF kept_trans [OF _ 2(2)] 3(2)] new by blast
  moreover have "books_ok st' = books_ok ?st3" "kept st st' = kept st ?st3"
    using run 1 by (auto simp: create_and_finalize_def Let_def books_simps split: if_splits)
  ultimately show "books_ok st' \<and> kept st st'" using 3 by simp
qed

lemma patch_invoice_money: "is_money (inv_total iv) \<Longrightarrow> is_money (inv_total (patch_invoice d iv))"
  by (simp add: patch_invoice_def set_if_def split: option.splits)

lemma patch_invoice_frame [simp]:
  "inv_paid_amount (patch_invoice d iv) = inv_paid_amount iv"
  "inv_payment_status (patch_invoice d iv) = inv_payment_status iv"
  "inv_status (patch_invoice d iv) = inv_status iv"
  by (simp_all add: patch_invoice_def)

lemma kept_rewritten:
  assumes "get_by_id i scope (bs_invoices st) = Some r" and "books_ok st"
    and "inv_status r = SENT \<Longrightarrow> inv_status (f r) = SENT \<and> inv_org (f r) = inv_org r
      \<and> (latest_outcome i st \<noteq> None \<longrightarrow> inv_total (f r) = inv_total r)"
  shows "kept st (st\<lparr>bs_invoices := rewrite i f (bs_invoices st)\<rparr>)"
proof (rule kept_rewrite)
  fix s
  assume s: "s \<in> set (bs_invoices st)" "rid s = i" "inv_status s = SENT"
  then have "s = r" using distinct_ids_unique [OF books_distinct(2) [OF assms(2)]] get_by_id_Some [OF assms(1)] by metis
  then show "inv_status (f s) = SENT \<and> inv_org (f s) = inv_org s
      \<and> (latest_outcome i st \<noteq> None \<longrightarrow> inv_total (f s) = inv_total s)" using assms(3) s by blast
qed

lemma update_draft_keeps: "keeps_books (update_draft today i d org ax)"
proof (rule keeps_booksI)
  fix st st' r
  assume books: "books_ok st" and run: "update_draft today i d org ax st = Inr (st', r)"
  obtain iv st1 u where iv: "get_by_id i (org_scope org) (bs_invoices st) = Some iv" "inv_status iv = DRAFT"
    and upd: "update_invoice i (patch_invoice d) (version iv) (org_scope org) st = Inr (st1, u)"
    and fin: "(\<exists>r'. recompute_invoice_projection today i (append_invoice_event i EV_DRAFT_SAVED None ax st1) = Inr (st', r'))
      \<or> st' = append_invoice_event i EV_DRAFT_SAVED None ax st1"
    using run by (auto simp: update_draft_def Let_def split: if_splits)
  have b1: "books_ok st1 \<and> i \<in> rid ` set (bs_invoices st1)
    \<and> (\<exists>r. get_by_id i (org_scope org) (bs_invoices st) = Some r \<and> u = write_row (patch_invoice d) r \<and> rid r = i
         \<and> st1 = st\<lparr>bs_invoices := rewrite i (patch_invoice d) (bs_invoices st)\<rparr>)"
    by (rule books_update_invoice [OF books upd]) (use iv in \<open>auto simp: patch_invoice_money\<close>)
  then have "kept st st1" using kept_rewritten [OF iv(1) books, of "patch_invoice d"] iv(2) by auto
  moreover let ?st2 = "append_invoice_event i EV_DRAFT_SAVED None ax st1"
  have st2: "books_ok ?st2" "kept st1 ?st2" using books_opening_event [of st1 i EV_DRAFT_SAVED] b1 by auto
  ultimately have "kept st ?st2" using kept_trans by blast
  then show "books_ok st' \<and> kept st st'"
    using fin st2 books_recompute_invoice [OF st2(1)] kept_recompute_invoice [OF st2(1)] kept_trans
    by (auto simp del: append_event_tables)
qed

lemma delete_draft_books:
  assumes books: "books_ok st" and run: "delete_draft i org ax st = Inr st'"
  shows "books_ok st' \<and> kept st st'"
proof -
  obtain iv where iv: "get_by_id i (org_scope org) (bs_invoices st) = Some iv" "inv_status iv = DRAFT"
    and free: "\<forall>a \<in> set (bs_allocations st). pa_invoice_id a \<noteq> i" "\<forall>a \<in> set (bs_applications st). ia_invoice_id a \<noteq> i"
    using run by (auto simp: delete_draft_def assert_draft_invoice_deletable_def split: if_splits)
  let ?invs = "filter (\<lambda>s. rid s \<noteq> i) (bs_invoices st)" and ?evs = "filter (\<lambda>e. ie_invoice_id e \<noteq> i) (bs_invoice_events st)"
  have iv_i: "iv \<in> set (bs_invoices st)" "rid iv = i" using get_by_id_Some [OF iv(1)] by auto
  have tables: "bs_invoices st' = ?invs" "bs_invoice_events st' = ?evs" "bs_allocations st' = bs_allocations st"
      "bs_applications st' = bs_applications st" "bs_payments st' = bs_payments st"
    and cns: "bs_credit_notes st' = map (\<lambda>c. if cn_source_invoice c = Some i then c\<lparr>cn_source_invoice := None\<rparr> else c)
       (bs_credit_notes st)"
    using run iv iv_i(2) by (auto simp: delete_draft_def hard_delete_def billing_audit_def get_by_id_or_404_def
        simp del: get_or_404_Inr split: if_splits)
  have other: "rid v \<noteq> i" if "v \<in> set (bs_invoices st)" "inv_status v = SENT" for v
    using distinct_ids_unique [OF books_distinct(2) [OF books] that(1) iv_i(1)] iv(2) iv_i(2) that(2) by auto
  have ids_eq: "map rid (bs_credit_notes st') = map rid (bs_credit_notes st)"
    unfolding cns by simp
  have note_ids: "rid ` set (bs_credit_notes st') = rid ` set (bs_credit_notes st)"
    "map rid (bs_credit_notes st') = map rid (bs_credit_notes st)"
    by (metis list.set_map ids_eq, rule ids_eq)
  have "allocation_ok (bs_payments st) ?invs a" if "a \<in> set (bs_allocations st)" for a
    by (rule allocation_ok_mono [of "bs_payments st" "bs_invoices st"])
      (use books that other in \<open>auto simp: books_but_def\<close>)
  moreover have "application_ok ?invs (bs_credit_notes st') c" if "c \<in> set (bs_applications st)" for c
  proof -
    have "application_ok (bs_invoices st) (bs_credit_notes st) c" using books that by (simp add: books_but_def)
    moreover from this have "\<exists>n \<in> set (bs_credit_notes st'). rid n = ia_credit_note_id c"
      using note_ids(1) unfolding application_ok_def by (metis imageE imageI)
    ultimately show ?thesis using other unfolding application_ok_def by auto
  qed
  moreover have "note_ok (bs_applications st) n" if "n \<in> set (bs_credit_notes st')" for n
    using books that by (auto simp: cns books_but_def note_ok_def)
  moreover have "invoice_matches (bs_allocations st) ?evs v = invoice_matches (bs_allocations st) (bs_invoice_events st) v"
    if "rid v \<noteq> i" for v
    using that by (simp add: invoice_matches_def shows_outcome_def outcome_in_filter_other)
  moreover have "distinct_ids ?invs" using books_distinct(2) [OF books] by (simp add: distinct_ids_def distinct_map_filter)
  moreover have "distinct_ids (bs_credit_notes st')" using books_distinct(3) [OF books] note_ids(2) by (simp add: distinct_ids_def)
  ultimately have "books_ok st'" using books unfolding books_but_def tables by auto
  moreover have "kept st st'"
  proof -
    have "outcome_in (rid v) ?evs = outcome_in (rid v) (bs_invoice_events st) \<and> v \<in> set ?invs"
      if "v \<in> set (bs_invoices st)" "inv_status v = SENT" for v
      using that other [OF that] outcome_in_filter_other [of "rid v" i] by simp
    then show ?thesis unfolding kept_def latest_outcome_def tables by metis
  qed
  ultimately show ?thesis ..
qed

lemma finalize_keeps: "keeps_books (finalize i org ax)"
proof (rule keeps_booksI)
  fix st st' r
  assume books: "books_ok st" and run: "finalize i org ax st = Inr (st', r)"
  obtain iv where iv: "get_by_id i (org_scope org) (bs_invoices st) = Some iv"
    using run by (auto simp: finalize_def)
  show "books_ok st' \<and> kept st st'"
  proof (cases "inv_status iv = SENT")
    case True
    then show ?thesis using run iv books by (auto simp: finalize_def get_by_id_or_404_def)
  next
    case False
    let ?f = "\<lambda>r. r\<lparr>inv_status := SENT, inv_qb_queued := (truthy_str (inv_org iv) \<or> inv_qb_queued r)\<rparr>"
    obtain st1 u where upd: "update_invoice i ?f (version iv) (org_scope org) st = Inr (st1, u)"
      and st': "st' = enqueue_qb_invoice_sync (inv_org u) i ''invoice.sync''
        (billing_audit ''invoice.finalized'' i ax None ''NOTICE'' (append_invoice_event i EV_FINALIZED None ax st1))"
      using run iv False by (auto simp: finalize_def Let_def get_by_id_or_404_def)
    have b1: "books_ok st1 \<and> i \<in> rid ` set (bs_invoices st1)
      \<and> (\<exists>r. get_by_id i (org_scope org) (bs_invoices st) = Some r \<and> u = write_row ?f r \<and> rid r = i
           \<and> st1 = st\<lparr>bs_invoices := rewrite i ?f (bs_invoices st)\<rparr>)"
      by (rule books_update_invoice [OF books upd]) auto
    then have "kept st st1" using kept_rewritten [OF iv books, of ?f] by auto
    then show ?thesis
      using books_opening_event [of st1 i EV_FINALIZED None ax] b1 kept_trans by (auto simp: st' books_simps)
  qed
qed

lemma close_invoice_cases:
  assumes books: "books_ok st" and t: "t = EV_VOIDED \<or> t = EV_WRITTEN_OFF"
    and run: "close_invoice t missing action today i reason org ax st = Inr (st', r)"
  obtains st1 st2 iv where "get_by_id i (org_scope org) (bs_invoices st) = Some iv"
    "latest_outcome i st = None" "books_ok st1" "kept st st1" "i \<in> rid ` set (bs_invoices st1)"
    "st1 = st\<lparr>bs_invoices := rewrite i (\<lambda>r. r) (bs_invoices st)\<rparr>"
    "recompute_invoice_projection today i
       (append_invoice_event i t (Some (strip (str_or reason ''''))) ax st1) = Inr (st2, r)"
    "st' = enqueue_qb_invoice_sync (inv_org r) i ''invoice.sync''
       (billing_audit action i ax (Some (strip (str_or reason ''''))) ''WARNING'' st2)"
    "strip (str_or reason '''') \<noteq> ''''"
proof -
  obtain iv st1 u st2 where 1: "get_by_id i (org_scope org) (bs_invoices st) = Some iv" "latest_outcome i st = None"
      "strip (str_or reason '''') \<noteq> ''''"
    and upd: "update_invoice i (\<lambda>r. r) (version iv) (org_scope org) st = Inr (st1, u)"
    and rec: "recompute_invoice_projection today i
       (append_invoice_event i t (Some (strip (str_or reason ''''))) ax st1) = Inr (st2, r)"
    and st': "st' = enqueue_qb_invoice_sync (inv_org r) i ''invoice.sync''
       (billing_audit action i ax (Some (strip (str_or reason ''''))) ''WARNING'' st2)"
    using run by (auto simp: close_invoice_def Let_def split: if_splits)
  have b1: "books_ok st1 \<and> i \<in> rid ` set (bs_invoices st1)
      \<and> (\<exists>r. get_by_id i (org_scope org) (bs_invoices st) = Some r \<and> u = write_row (\<lambda>r. r) r \<and> rid r = i
           \<and> st1 = st\<lparr>bs_invoices := rewrite i (\<lambda>r. r) (bs_invoices st)\<rparr>)"
    by (rule books_update_invoice [OF books upd]) auto
  moreover from this have "kept st st1" using kept_rewritten [OF 1(1) books, of "\<lambda>r. r"] by auto
  ultimately show thesis using that [OF 1(1,2) _ _ _ _ rec st' 1(3)] by blast
qed

lemma close_invoice_keeps:
  assumes t: "t = EV_VOIDED \<or> t = EV_WRITTEN_OFF"
  shows "keeps_books (close_invoice t missing action today i reason org ax)"
proof (rule keeps_booksI)
  fix st st' r
  assume books: "books_ok st" and run: "close_invoice t missing action today i reason org ax st = Inr (st', r)"
  show "books_ok st' \<and> kept st st'"
    using books t run
  proof (rule close_invoice_cases)
    fix st1 st2 iv
    let ?e = "append_invoice_event i t (Some (strip (str_or reason ''''))) ax st1"
    assume 1: "latest_outcome i st = None" "books_ok st1" "kept st st1" "i \<in> rid ` set (bs_invoices st1)"
      "st1 = st\<lparr>bs_invoices := rewrite i (\<lambda>r. r) (bs_invoices st)\<rparr>"
      and rec: "recompute_invoice_projection today i ?e = Inr (st2, r)"
      and st': "st' = enqueue_qb_invoice_sync (inv_org r) i ''invoice.sync''
       (billing_audit action i ax (Some (strip (str_or reason ''''))) ''WARNING'' st2)"
    have e: "books_but {} {i} ?e"
      using books_append_event [of "{}" "{i}" st1 i t] books_but_mono [OF 1(2), of "{}" "{i}"] 1(4) by auto
    have "kept st1 ?e" using 1(1,5) by (intro kept_append_event) (simp add: latest_outcome_def)
    then have "kept st st2" using kept_trans [OF kept_trans [OF 1(3)] kept_recompute_invoice [OF e rec]] by blast
    then show ?thesis using books_recompute_invoice [OF e rec] by (simp add: st' books_simps)
  qed
qed

lemma replace_lines_frame [books_simps]:
  "books_but P I (replace_line_items i items st) = books_but P I st"
  "kept st0 (replace_line_items i items st) = kept st0 st"
  "bs_invoices (replace_line_items i items st) = bs_invoices st"
  by (simp_all add: replace_line_items_def books_but_def kept_def latest_outcome_def)

lemma sync_from_order_cases:
  assumes "sync_from_order today od pkgs issue_date due_date ax new_id number st = Inr (st', r)"
  obtains (create) items rate issue due d st1 where "invoice_by_order (od_id od) (od_org od) st = None"
      "order_billing od pkgs issue due = Inr (rate, items)"
      "d = order_invoice_data od issue due (quantize_half_up (or_zero (od_subtotal od))) rate
         (quantize_half_up (or_zero (od_vat_amount od))) (quantize_half_up (or_zero (od_total_amount od)))"
      "create_draft d ax new_id number st = Inr (st1, r)" "st' = replace_line_items new_id items st1"
    | (update) existing items rate issue due f st1 u st3 where
      "invoice_by_order (od_id od) (od_org od) st = Some existing"
      "order_billing od pkgs issue due = Inr (rate, items)"
      "inv_payment_status existing \<noteq> VOID" "inv_payment_status existing \<noteq> WRITTEN_OFF"
      "f = sync_fields issue due (quantize_half_up (or_zero (od_subtotal od))) rate
         (quantize_half_up (or_zero (od_vat_amount od))) (quantize_half_up (or_zero (od_total_amount od)))"
      "update_invoice (rid existing) f (version existing) (\<lambda>_. True) st = Inr (st1, u)"
      "recompute_invoice_projection today (rid existing) (append_invoice_event (rid existing) EV_DRAFT_SAVED None ax
          (replace_line_items (rid existing) items st1)) = Inr (st3, r)"
      "\<And>P I. books_but P I st' = books_but P I st3" "\<And>st0. kept st0 st' = kept st0 st3"
      "bs_invoices st' = bs_invoices st3" "bs_lines st' = bs_lines st3" "bs_allocations st' = bs_allocations st3"
proof (cases "invoice_by_order (od_id od) (od_org od) st")
  case None
  then show thesis
    using assms by (auto simp: sync_from_order_def Let_def split: if_splits intro: create)
next
  case (Some existing)
  let ?f = "\<lambda>rate. sync_fields (set_if issue_date today) (set_if due_date (set_if issue_date today))
      (quantize_half_up (or_zero (od_subtotal od))) rate
      (quantize_half_up (or_zero (od_vat_amount od))) (quantize_half_up (or_zero (od_total_amount od)))"
  obtain rate items st1 u st3 where
    ob: "order_billing od pkgs (set_if issue_date today) (set_if due_date (set_if issue_date today)) = Inr (rate, items)"
    and open_st: "inv_payment_status existing \<noteq> VOID" "inv_payment_status existing \<noteq> WRITTEN_OFF"
    and upd: "update_invoice (rid existing) (?f rate) (version existing) (\<lambda>_. True) st = Inr (st1, u)"
    and rec: "recompute_invoice_projection today (rid existing) (append_invoice_event (rid existing) EV_DRAFT_SAVED None ax
          (replace_line_items (rid existing) items st1)) = Inr (st3, r)"
    and st': "st' = (let st4 = (if rid existing \<in> set (bs_pdf_history st3) then push_job (PdfRequest (rid existing)) st3 else st3)
            in if truthy_str (inv_org r) \<and> inv_status r = SENT
               then enqueue_qb_invoice_sync (inv_org r) (rid r) ''invoice.sync'' st4 else st4)"
    using assms Some by (auto simp: sync_from_order_def Let_def split: if_splits)
  show thesis
    by (rule update [OF Some ob open_st refl upd rec])
      (simp_all add: st' Let_def books_simps push_job_def enqueue_qb_invoice_sync_def kept_def latest_outcome_def books_but_def)
qed

lemma not_closed:
  "books_ok st \<Longrightarrow> iv \<in> set (bs_invoices st) \<Longrightarrow> inv_payment_status iv \<noteq> VOID \<Longrightarrow> inv_payment_status iv \<noteq> WRITTEN_OFF
   \<Longrightarrow> latest_outcome (rid iv) st = None"
proof (rule ccontr)
  assume *: "books_ok st" "iv \<in> set (bs_invoices st)" "inv_payment_status iv \<noteq> VOID" "inv_payment_status iv \<noteq> WRITTEN_OFF"
    and "latest_outcome (rid iv) st \<noteq> None"
  then obtain t where t: "latest_outcome (rid iv) st = Some t" "t = EV_VOIDED \<or> t = EV_WRITTEN_OFF"
    using outcome_in_range unfolding latest_outcome_def by blast
  have "shows_outcome (bs_invoice_events st) (rid iv) (inv_payment_status iv)"
    using *(1,2) by (auto simp: books_but_def invoice_matches_def)
  then show False using t *(3,4) by (auto simp: shows_outcome_def closing_status_def latest_outcome_def)
qed

lemma sync_from_order_keeps:
  "keeps_books (sync_from_order today od pkgs issue_date due_date ax new_id number)"
proof (rule keeps_booksI)
  fix st st' r
  assume books: "books_ok st" and run: "sync_from_order today od pkgs issue_date due_date ax new_id number st = Inr (st', r)"
  show "books_ok st' \<and> kept st st'"
    using run
  proof (cases rule: sync_from_order_cases)
    case (create items rate issue due d st1)
    then show ?thesis using keeps_booksD [OF create_draft_keeps create(4) books] by (simp add: books_simps)
  next
    case (update existing items rate issue due f st1 u st3)
    have ex: "existing \<in> set (bs_invoices st)"
      using update(1) find_Some_set by (fastforce simp: invoice_by_order_def)
    have found: "get_by_id (rid existing) (\<lambda>_. True) (bs_invoices st) = Some existing"
      using get_by_id_distinct [OF books_distinct(2) [OF books] ex] by simp
    have b1: "books_ok st1 \<and> rid existing \<in> rid ` set (bs_invoices st1)
      \<and> (\<exists>r. get_by_id (rid existing) (\<lambda>_. True) (bs_invoices st) = Some r \<and> u = write_row f r \<and> rid r = rid existing
           \<and> st1 = st\<lparr>bs_invoices := rewrite (rid existing) f (bs_invoices st)\<rparr>)"
      by (rule books_update_invoice [OF books update(6)]) (auto simp: update(5) sync_fields_def)
    have "kept st st1"
      using kept_rewritten [OF found books, of f] not_closed [OF books ex update(3,4)] b1
      by (auto simp: update(5) sync_fields_def)
    moreover let ?st2 = "append_invoice_event (rid existing) EV_DRAFT_SAVED None ax (replace_line_items (rid existing) items st1)"
    have b2: "books_ok ?st2 \<and> kept (replace_line_items (rid existing) items st1) ?st2"
      by (rule books_opening_event) (use b1 in \<open>simp_all add: books_simps\<close>)
    ultimately have "kept st ?st2" using kept_trans by (metis books_simps kept_refl replace_lines_frame(2))
    then show ?thesis
      using b2 books_recompute_invoice [OF _ update(7)] kept_recompute_invoice [OF _ update(7)] kept_trans
      unfolding update(8,9) by (metis Diff_empty Diff_insert0 empty_iff)
  qed
qed

lemma persist_note_keeps: "keeps_books (persist_internal_note i note v org action severity ax)"
proof (rule keeps_booksI)
  fix st st' r
  assume books: "books_ok st" and run: "persist_internal_note i note v org action severity ax st = Inr (st', r)"
  let ?f = "\<lambda>r. r\<lparr>inv_notes := note\<rparr>"
  obtain st1 u where upd: "update_invoice i ?f v (org_scope org) st = Inr (st1, u)"
    and st': "\<And>P I. books_but P I st' = books_but P I st1" "\<And>st0. kept st0 st' = kept st0 st1"
    using run by (auto simp: persist_internal_note_def Let_def books_simps split: if_splits)
  have b1: "books_ok st1 \<and> i \<in> rid ` set (bs_invoices st1)
      \<and> (\<exists>r. get_by_id i (org_scope org) (bs_invoices st) = Some r \<and> u = write_row ?f r \<and> rid r = i
           \<and> st1 = st\<lparr>bs_invoices := rewrite i ?f (bs_invoices st)\<rparr>)"
    by (rule books_update_invoice [OF books upd]) auto
  then have "kept st st1" using kept_rewritten [OF _ books, of i "org_scope org" _ ?f] by auto
  then show "books_ok st' \<and> kept st st'" using b1 st' by simp
qed

lemma internal_note_keeps:
  "keeps_books (upsert_invoice_internal_note i note v org ax)"
  "keeps_books (create_invoice_internal_note i note v org ax)"
  "keeps_books (delete_invoice_internal_note i v org ax)"
  unfolding upsert_invoice_internal_note_def create_invoice_internal_note_def
    delete_invoice_internal_note_def Let_def
  by (intro keeps_books_rules persist_note_keeps)+

end
