(* ===== verification/Payments.thy ===== *)
theory Payments
  imports Invoices "HOL-Library.List_Lexorder" "HOL-Library.Char_ord"
begin

text \<open>
  Payments and their allocation to invoices, \<^verbatim>\<open>app/modules/billing/service.py\<close>. A payment
  is recorded unallocated; an allocation row gives part of it to an invoice. The service either
  adds rows (\<open>add_or_revise_allocations\<close>) or replaces all rows of a payment by a target map
  (\<open>apply_allocation_targets\<close>), and both check that neither the payment nor an invoice is given
  away twice. The remittance advice (an uploaded file) and the free-form metadata are left
  out; ids of new rows and the clock are arguments.
\<close>

subsection \<open>Recording\<close>

record payment_input =
  pin_org :: string
  pin_amount :: rat
  pin_date :: int
  pin_client_type :: string
  pin_recorded_by :: "string option"
  pin_status :: payment_record_status
  pin_provider :: payment_provider
  pin_txn_id :: "string option"
  pin_fee :: rat
  pin_braintree_status :: "string option"
  pin_notes :: "string option"

definition validate_record_payment_org_scope_mode :: "string \<Rightarrow> unit result" where
  "validate_record_payment_org_scope_mode client_type =
     (let raw_ct = py_upper (strip client_type) in
      if raw_ct = ''CUSTOMER_B2C''
      then Inl (ValidationError ''CUSTOMER_B2C record payment is out of scope for this endpoint'')
      else if raw_ct = ''CUSTOMER_B2B'' then Inr ()
      else if raw_ct \<in> {''ADMIN'', ''WAREHOUSE'', ''DRIVER''}
      then Inl (ValidationError ''client_type must be CUSTOMER_B2B'')
      else Inl (ValidationError ''Invalid client_type''))"

definition notes_too_long :: "string option \<Rightarrow> bool" where
  "notes_too_long notes \<longleftrightarrow> (case notes of None \<Rightarrow> False | Some s \<Rightarrow> 500 < length s)"

definition txn_clash :: "payment \<Rightarrow> payment list \<Rightarrow> bool" where
  \<comment> \<open>the unique key of organisation, provider and provider transaction; NULL never clashes\<close>
  "txn_clash p rows \<longleftrightarrow> bp_txn_id p \<noteq> None \<and>
     (\<exists>q \<in> set rows. rid q \<noteq> rid p \<and> bp_org q = bp_org p \<and> bp_provider q = bp_provider p
        \<and> bp_txn_id q = bp_txn_id p)"

definition insert_payment :: "payment \<Rightarrow> billing_state \<Rightarrow> billing_state result" where
  "insert_payment p st =
     (if txn_clash p (bs_payments st) then Inl (IntegrityError ''uq_billing_payments_org_provider_txn'')
      else bind_result (create_row p (bs_payments st)) (\<lambda>rows. Inr (st\<lparr>bs_payments := rows\<rparr>)))"

definition new_payment :: "payment_input \<Rightarrow> string option \<Rightarrow> int \<Rightarrow> string \<Rightarrow> payment" where
  "new_payment d customer now new_id =
     \<lparr>rid = new_id, version = 1, bp_org = pin_org d, bp_customer = customer, bp_recorded_by = pin_recorded_by d,
      bp_amount = quantize_half_up (pin_amount d), bp_fee = quantize_half_up (pin_fee d),
      bp_status = pin_status d, bp_allocation_status = UNALLOCATED, bp_allocated = 0,
      bp_unallocated = quantize_half_up (pin_amount d), bp_date = pin_date d, bp_provider = pin_provider d,
      bp_txn_id = pin_txn_id d,
      bp_braintree_status = (if truthy_str (pin_braintree_status d) then pin_braintree_status d else None),
      bp_braintree_status_at = (if truthy_str (pin_braintree_status d) then Some now else None),
      bp_dispute_status = None, bp_dispute_amount = 0, bp_dispute_fee = 0, bp_notes = pin_notes d\<rparr>"

definition record_payment ::
    "payment_input \<Rightarrow> int \<Rightarrow> actor option \<Rightarrow> string \<Rightarrow> billing_state \<Rightarrow> (billing_state \<times> payment) result" where
  "record_payment d now ctx new_id st =
     bind_result (validate_record_payment_org_scope_mode (pin_client_type d)) (\<lambda>_.
     if quantize_half_up (pin_amount d) \<le> 0 then Inl (ValidationError ''amount must be greater than 0'')
     else if quantize_half_up (pin_fee d) < 0
     then Inl (ValidationError ''transaction_fee must be greater than or equal to 0'')
     else if notes_too_long (pin_notes d) then Inl (ValidationError ''notes exceeds maximum length'')
     else
       let p = new_payment d None now new_id in
       bind_result (insert_payment p st) (\<lambda>st1.
       Inr (audit_if ctx ''billing.payment.recorded'' new_id None ''NOTICE''
              (append_payment_event new_id PE_RECORDED (pin_recorded_by d) st1), p)))"

definition create_pending_payment ::
    "payment_input \<Rightarrow> string option \<Rightarrow> int \<Rightarrow> actor option \<Rightarrow> string \<Rightarrow> billing_state
     \<Rightarrow> (billing_state \<times> payment) result" where
  \<comment> \<open>of the input only organisation, amount, date, provider, recorder and notes are used\<close>
  "create_pending_payment d customer now ctx new_id st =
     (if quantize_half_up (pin_amount d) \<le> 0 then Inl (ValidationError ''amount must be greater than 0'')
      else
        let p = new_payment (d\<lparr>pin_status := PENDING, pin_txn_id := None, pin_fee := 0,
                   pin_braintree_status := None\<rparr>) customer now new_id in
        bind_result (insert_payment p st) (\<lambda>st1.
        Inr (audit_if ctx ''billing.payment.recorded'' new_id None ''NOTICE''
               (append_payment_event new_id PE_RECORDED (pin_recorded_by d) st1), p)))"

subsection \<open>Status, notes, voiding\<close>

definition payment_scope :: "string \<Rightarrow> payment \<Rightarrow> bool" where
  "payment_scope org p \<longleftrightarrow> bp_org p = org"

definition braintree_status_map :: "(string \<times> string) list" where
  "braintree_status_map = map (\<lambda>s. (py_lower s, s))
     [''AUTHORIZED'', ''SUBMITTED_FOR_SETTLEMENT'', ''SETTLEMENT_PENDING'', ''SETTLING'', ''SETTLED'',
      ''SETTLEMENT_DECLINED'', ''VOIDED'', ''FAILED'', ''RETRYING'', ''REFUND_SUBMITTED'']"

definition braintree_dispute_status_map :: "(string \<times> string) list" where
  "braintree_dispute_status_map = map (\<lambda>s. (py_lower s, s))
     [''OPEN'', ''DISPUTED'', ''UNDER_REVIEW'', ''WON'', ''LOST'', ''ACCEPTED'', ''EXPIRED'', ''AUTO_ACCEPTED'']"

definition normalize_status_by :: "(string \<times> string) list \<Rightarrow> string option \<Rightarrow> string option" where
  "normalize_status_by m status =
     (let raw = strip (str_or status '''') in
      if raw = '''' then None
      else case map_of m (py_lower raw) of
        Some v \<Rightarrow> Some v
      | None \<Rightarrow> Some (py_replace_char (CHR '' '') (CHR ''_'') (py_upper raw)))"

definition normalize_braintree_status :: "string option \<Rightarrow> string option" where
  "normalize_braintree_status = normalize_status_by braintree_status_map"

definition normalize_braintree_dispute_status :: "string option \<Rightarrow> string option" where
  "normalize_braintree_dispute_status = normalize_status_by braintree_dispute_status_map"

definition marked_fields ::
    "payment_record_status \<Rightarrow> string option \<Rightarrow> string option \<Rightarrow> rat \<Rightarrow> int \<Rightarrow> payment \<Rightarrow> payment \<Rightarrow> payment" where
  \<comment> \<open>\<open>p\<close> is the row as it was read\<close>
  "marked_fields to_status txn_id normalized fee_q now p r =
     r\<lparr>bp_status := to_status,
       bp_txn_id := (if txn_id = None then bp_txn_id p else txn_id), bp_fee := fee_q,
       bp_braintree_status := (if truthy_str normalized then normalized else bp_braintree_status p),
       bp_braintree_status_at := (if truthy_str normalized then Some now else bp_braintree_status_at p)\<rparr>"

definition mark_payment_status ::
    "string \<Rightarrow> string \<Rightarrow> payment_record_status \<Rightarrow> string option \<Rightarrow> string option \<Rightarrow> rat option \<Rightarrow> string option
     \<Rightarrow> bool \<Rightarrow> int \<Rightarrow> billing_state \<Rightarrow> (billing_state \<times> payment) result" where
  "mark_payment_status org pid to_status txn_id braintree_status fee actor_id queue_qb_sync now st =
     bind_result (get_by_id_or_404 ''billing_payment'' pid (payment_scope org) (bs_payments st)) (\<lambda>p.
     if bp_status p = VOIDED \<and> to_status \<noteq> VOIDED
     then Inl (ValidationError ''Voided payments cannot transition to a different status'')
     else
       let fee_q = set_if (map_option quantize_half_up fee) (bp_fee p);
           normalized = normalize_braintree_status braintree_status in
       if fee \<noteq> None \<and> fee_q < 0
       then Inl (ValidationError ''transaction_fee must be greater than or equal to 0'')
       else
         bind_result (update_payment pid (marked_fields to_status txn_id normalized fee_q now p)
             (Some (version p)) (payment_scope org) st) (\<lambda>(st1, updated).
         if txn_clash updated (bs_payments st1) then Inl (IntegrityError ''uq_billing_payments_org_provider_txn'')
         else
         let st2 = append_payment_event pid PE_STATUS_CHANGED actor_id st1
         in Inr (if queue_qb_sync then enqueue_qb_payment_sync pid org st2 else st2, updated)))"

definition void_payment ::
    "string \<Rightarrow> string \<Rightarrow> string option \<Rightarrow> string option \<Rightarrow> int option \<Rightarrow> actor option \<Rightarrow> billing_state
     \<Rightarrow> (billing_state \<times> payment) result" where
  \<comment> \<open>the reason goes into the event payload and the audit values only\<close>
  "void_payment org pid actor_id reason expected_version ctx st =
     bind_result (get_by_id_or_404 ''billing_payment'' pid (payment_scope org) (bs_payments st)) (\<lambda>p.
     if bp_status p = VOIDED then Inr (st, p)
     else if 0 < quantize_half_up (total_allocated_for_payment pid st)
     then Inl (ValidationError ''Only unallocated payments can be voided'')
     else
       bind_result (update_payment pid (\<lambda>r. r\<lparr>bp_status := VOIDED\<rparr>)
            (Some (set_if expected_version (version p))) (payment_scope org) st) (\<lambda>(st1, updated).
       Inr (audit_if ctx ''billing.payment.voided'' pid None ''NOTICE''
              (append_payment_event pid PE_VOIDED actor_id st1), updated)))"

definition update_payment_notes ::
    "string \<Rightarrow> string \<Rightarrow> string \<Rightarrow> string option \<Rightarrow> int option \<Rightarrow> actor option \<Rightarrow> billing_state
     \<Rightarrow> (billing_state \<times> payment) result" where
  "update_payment_notes org pid notes actor_id expected_version ctx st =
     bind_result (get_by_id_or_404 ''billing_payment'' pid (payment_scope org) (bs_payments st)) (\<lambda>p.
     if notes_too_long (Some notes) then Inl (ValidationError ''notes exceeds maximum length'')
     else
       bind_result (update_payment pid (\<lambda>r. r\<lparr>bp_notes := Some notes\<rparr>)
            (Some (set_if expected_version (version p))) (payment_scope org) st) (\<lambda>(st1, updated).
       Inr (audit_if ctx ''billing.payment.notes_updated'' pid None ''NOTICE''
              (append_payment_event pid PE_NOTES_UPDATED actor_id st1), updated)))"

definition apply_braintree_payment_status ::
    "string \<Rightarrow> string \<Rightarrow> int \<Rightarrow> billing_state \<Rightarrow> (billing_state \<times> payment option) result" where
  "apply_braintree_payment_status billing_payment_id braintree_status now st =
     (let pid = strip billing_payment_id; status = normalize_braintree_status (Some braintree_status) in
      if pid = '''' \<or> \<not> truthy_str status then Inr (st, None)
      else case get_by_id pid (\<lambda>_. True) (bs_payments st) of
        None \<Rightarrow> Inr (st, None)
      | Some p \<Rightarrow>
          bind_result (update_payment pid (\<lambda>r. r\<lparr>bp_braintree_status := status,
              bp_braintree_status_at := Some now\<rparr>) None (\<lambda>_. True) st) (\<lambda>(st1, updated).
          Inr (append_payment_event pid PE_BRAINTREE_STATUS_CHANGED None st1, Some updated)))"

definition dispute_event :: "string \<Rightarrow> string" where
  "dispute_event status =
     (if status = ''OPEN'' then ''BRAINTREE_DISPUTE_OPENED''
      else if status \<in> set (map snd braintree_dispute_status_map) then ''BRAINTREE_DISPUTE_'' @ status
      else ''BRAINTREE_DISPUTE_CHANGED'')"

definition apply_braintree_dispute_status ::
    "string \<Rightarrow> string \<Rightarrow> string \<Rightarrow> rat option \<Rightarrow> rat option \<Rightarrow> int \<Rightarrow> billing_state
     \<Rightarrow> (billing_state \<times> payment option) result" where
  "apply_braintree_dispute_status billing_payment_id dispute_id dispute_status amount fee now st =
     (let pid = strip billing_payment_id; local_dispute_id = strip dispute_id;
          status = normalize_braintree_dispute_status (Some dispute_status) in
      if pid = '''' \<or> \<not> truthy_str status \<or> local_dispute_id = '''' then Inr (st, None)
      else case get_by_id pid (\<lambda>_. True) (bs_payments st) of
        None \<Rightarrow> Inr (st, None)
      | Some p \<Rightarrow>
          bind_result (update_payment pid (\<lambda>r. r\<lparr>bp_dispute_status := status, bp_braintree_status_at := Some now,
              bp_dispute_amount := set_if (map_option quantize_half_up amount) (bp_dispute_amount r),
              bp_dispute_fee := set_if (map_option quantize_half_up fee) (bp_dispute_fee r)\<rparr>) None (\<lambda>_. True) st)
            (\<lambda>(st1, updated).
          if bp_dispute_amount updated < 0 then Inl (IntegrityError ''ck_billing_payments_dispute_amount_non_negative'')
          else if bp_dispute_fee updated < 0 then Inl (IntegrityError ''ck_billing_payments_dispute_fee_non_negative'')
          else Inr (append_payment_event pid (PE_DISPUTE (dispute_event (str_or status ''''))) None st1, Some updated)))"

subsection \<open>Allocating\<close>

record alloc_input =
  ai_invoice_id :: "string option"
  ai_amount :: "rat option"
  ai_notes :: "string option"

type_synonym target = "string \<times> rat \<times> string option"

definition normalize_allocation :: "alloc_input \<Rightarrow> target result" where
  "normalize_allocation row =
     (let iid = strip (str_or (ai_invoice_id row) ''''); amt = quantize_half_up (or_zero (ai_amount row)) in
      if iid = '''' then Inl (ValidationError ''invoice_id is required'')
      else if amt \<le> 0 then Inl (ValidationError ''allocated_amount must be greater than 0'')
      else Inr (iid, amt, ai_notes row))"

definition normalize_allocations :: "alloc_input list \<Rightarrow> target list result" where
  "normalize_allocations allocations =
     bind_result (map_result normalize_allocation allocations) (\<lambda>normalized.
     if \<not> distinct (map fst normalized) then Inl (ValidationError ''Duplicate invoice_id in allocations payload'')
     else Inr normalized)"

definition find_target :: "string \<Rightarrow> string \<Rightarrow> billing_state \<Rightarrow> invoice option" where
  "find_target org i st = get_by_id i (\<lambda>iv. inv_org iv = Some org) (bs_invoices st)"

definition check_targets :: "string \<Rightarrow> string list \<Rightarrow> billing_state \<Rightarrow> unit result" where
  \<comment> \<open>every invoice is of the payment's organisation, and every one is SENT\<close>
  "check_targets org ids st =
     bind_result (check_all (\<lambda>i. if find_target org i st = None then Inl (NotFoundError ''invoice'' i) else Inr ()) ids)
       (\<lambda>_. check_all (\<lambda>i. case find_target org i st of
              Some iv \<Rightarrow> if inv_status iv \<noteq> SENT
                         then Inl (ValidationError ''Only SENT invoices can receive payment allocations'') else Inr ()
            | None \<Rightarrow> Inl (NotFoundError ''invoice'' i)) ids)"

definition append_allocation ::
    "string \<Rightarrow> (nat \<Rightarrow> payment_event_type) \<Rightarrow> string option \<Rightarrow> target \<Rightarrow> billing_state \<Rightarrow> billing_state" where
  "append_allocation pid event actor_id t st =
     (let iid = fst t; revision_no = next_revision_no pid iid st in
      append_payment_event pid (event revision_no) actor_id
        (st\<lparr>bs_allocations := bs_allocations st @
             [\<lparr>pa_payment_id = pid, pa_invoice_id = iid, pa_revision_no = revision_no,
               pa_amount = fst (snd t), pa_by = actor_id, pa_notes = snd (snd t)\<rparr>]\<rparr>))"

definition invoice_room :: "string \<Rightarrow> string \<Rightarrow> billing_state \<Rightarrow> rat" where
  \<comment> \<open>what is left to allocate to an invoice of the organisation\<close>
  "invoice_room org i st =
     (case find_target org i st of None \<Rightarrow> 0
      | Some iv \<Rightarrow> quantize_half_up (inv_total iv - quantize_half_up (applied_total_for_invoice i st)
                    - quantize_half_up (total_allocated_for_invoice i st)))"

definition add_or_revise_allocations ::
    "int \<Rightarrow> string \<Rightarrow> alloc_input list \<Rightarrow> string option \<Rightarrow> actor option \<Rightarrow> billing_state
     \<Rightarrow> (billing_state \<times> payment) result" where
  "add_or_revise_allocations today pid allocations actor_id ctx st =
     (if allocations = [] then Inl (ValidationError ''At least one allocation is required'')
      else
        bind_result (get_by_id_or_404 ''billing_payment'' pid (\<lambda>_. True) (bs_payments st)) (\<lambda>p.
        if bp_status p = VOIDED then Inl (ValidationError ''Cannot allocate a voided payment'')
        else
          bind_result (normalize_allocations allocations) (\<lambda>normalized.
          let ids = map fst normalized in
          bind_result (check_targets (bp_org p) ids st) (\<lambda>_.
          if quantize_half_up (bp_amount p) < quantize_half_up (total_allocated_for_payment pid st)
               + quantize_half_up (sum_list (map (fst \<circ> snd) normalized))
          then Inl (ValidationError ''PAYMENT_OVER_ALLOCATED: allocation exceeds payment unallocated balance'')
          else
            bind_result (check_all (\<lambda>t. if invoice_room (bp_org p) (fst t) st < fst (snd t)
                then Inl (ValidationError ''INVOICE_OVER_ALLOCATED: allocation exceeds invoice outstanding balance'')
                else Inr ()) normalized) (\<lambda>_.
            let st1 = fold (append_allocation pid (\<lambda>n. if n = 1 then PE_ALLOCATED else PE_ALLOCATION_REVISED) actor_id)
                        normalized st in
            bind_result (recompute_payment_projection p st1) (\<lambda>st2.
            bind_result (recompute_invoice_projections today ids st2) (\<lambda>st3.
            let st4 = enqueue_qb_payment_sync pid (bp_org p) st3 in
            bind_result (get_by_id_or_404 ''billing_payment'' pid (\<lambda>_. True) (bs_payments st4)) (\<lambda>refreshed.
            Inr (audit_if ctx ''billing.payment.allocation.revised'' pid None ''NOTICE'' st4, refreshed)))))))))"

definition record_payment_with_allocations ::
    "int \<Rightarrow> payment_input \<Rightarrow> int \<Rightarrow> actor option \<Rightarrow> string \<Rightarrow> alloc_input list \<Rightarrow> billing_state
     \<Rightarrow> (billing_state \<times> payment) result" where
  \<comment> \<open>a savepoint: a refused allocation rolls the payment back. The payment is returned as it was
     read before the allocation, refreshed in place by the session's identity map.\<close>
  "record_payment_with_allocations today d now ctx new_id allocations st =
     bind_result (record_payment d now ctx new_id st) (\<lambda>(st1, p).
     if allocations = [] then Inr (st1, p)
     else add_or_revise_allocations today new_id allocations (pin_recorded_by d) ctx st1)"

subsection \<open>Replacing and removing\<close>

definition current_map :: "string \<Rightarrow> billing_state \<Rightarrow> (string \<times> rat) list" where
  \<comment> \<open>the positive totals of \<^verbatim>\<open>latest_for_payment\<close>, by invoice\<close>
  "current_map pid st =
     filter (\<lambda>(i, a). 0 < a)
       (map (\<lambda>i. (i, quantize_half_up (allocated_pair pid i st)))
         (sort (remdups (map pa_invoice_id (filter (\<lambda>a. pa_payment_id a = pid) (bs_allocations st))))))"

definition amount_in :: "(string \<times> rat) list \<Rightarrow> string \<Rightarrow> rat" where
  "amount_in m i = (case map_of m i of None \<Rightarrow> 0 | Some a \<Rightarrow> a)"

definition target_room :: "payment \<Rightarrow> string \<Rightarrow> billing_state \<Rightarrow> rat" where
  \<comment> \<open>what this payment may give the invoice, its present share included\<close>
  "target_room p i st =
     (case find_target (bp_org p) i st of None \<Rightarrow> 0
      | Some iv \<Rightarrow>
          let all_alloc = quantize_half_up (total_allocated_for_invoice i st);
              other_alloc = quantize_half_up (all_alloc - amount_in (current_map (rid p) st) i)
          in quantize_half_up (inv_total iv - quantize_half_up (applied_total_for_invoice i st) - other_alloc))"

definition apply_allocation_targets ::
    "int \<Rightarrow> payment \<Rightarrow> target list \<Rightarrow> string option \<Rightarrow> billing_state \<Rightarrow> (billing_state \<times> string list) result" where
  "apply_allocation_targets today p targets actor_id st =
     (let current = current_map (rid p) st; wanted = map (\<lambda>t. (fst t, fst (snd t))) targets; ids = map fst targets in
      if quantize_half_up (bp_amount p) < quantize_half_up (sum_list (map snd wanted))
      then Inl (ValidationError ''PAYMENT_OVER_ALLOCATED: allocation exceeds payment amount'')
      else
        bind_result (check_targets (bp_org p) ids st) (\<lambda>_.
        let touched = sort (remdups (map fst current @ ids)) in
        if touched = [] then Inr (st, [])
        else
          bind_result (check_all (\<lambda>t. if target_room p (fst t) st < fst (snd t)
              then Inl (ValidationError ''INVOICE_OVER_ALLOCATED: allocation exceeds invoice outstanding balance'')
              else Inr ()) targets) (\<lambda>_.
          if set wanted = set current then Inr (st, [])
          else
            let st1 = fold (append_allocation (rid p) (\<lambda>_. PE_ALLOCATION_REVISED) actor_id) targets
                  (st\<lparr>bs_allocations := filter (\<lambda>a. pa_payment_id a \<noteq> rid p) (bs_allocations st)\<rparr>) in
            bind_result (recompute_payment_projection p st1) (\<lambda>st2.
            bind_result (recompute_invoice_projections today touched st2) (\<lambda>st3.
            Inr (enqueue_qb_payment_sync (rid p) (bp_org p) st3, touched))))))"

definition replace_allocations ::
    "int \<Rightarrow> string \<Rightarrow> alloc_input list \<Rightarrow> string option \<Rightarrow> actor option \<Rightarrow> billing_state
     \<Rightarrow> (billing_state \<times> payment) result" where
  "replace_allocations today pid allocations actor_id ctx st =
     bind_result (get_by_id_or_404 ''billing_payment'' pid (\<lambda>_. True) (bs_payments st)) (\<lambda>p.
     if bp_status p = VOIDED then Inl (ValidationError ''Cannot allocate a voided payment'')
     else
       bind_result (normalize_allocations allocations) (\<lambda>targets.
       bind_result (apply_allocation_targets today p targets actor_id st) (\<lambda>(st1, _).
       bind_result (get_by_id_or_404 ''billing_payment'' pid (\<lambda>_. True) (bs_payments st1)) (\<lambda>refreshed.
       Inr (audit_if ctx ''billing.payment.allocations.replaced'' pid None ''NOTICE'' st1, refreshed)))))"

definition remove_allocation ::
    "int \<Rightarrow> string \<Rightarrow> string \<Rightarrow> string option \<Rightarrow> actor option \<Rightarrow> billing_state
     \<Rightarrow> (billing_state \<times> payment) result" where
  "remove_allocation today pid invoice_id actor_id ctx st =
     bind_result (get_by_id_or_404 ''billing_payment'' pid (\<lambda>_. True) (bs_payments st)) (\<lambda>p.
     if bp_status p = VOIDED then Inl (ValidationError ''Cannot allocate a voided payment'')
     else
       let current = current_map pid st; invoice_key = strip invoice_id in
       if invoice_key = '''' then Inl (ValidationError ''invoice_id is required'')
       else if invoice_key \<notin> fst ` set current
       then Inl (ValidationError ''No existing positive allocation found for invoice on this payment'')
       else
         let targets = map (\<lambda>(i, a). (i, a, None)) (filter (\<lambda>(i, a). i \<noteq> invoice_key) current) in
         bind_result (apply_allocation_targets today p targets actor_id st) (\<lambda>(st1, _).
         bind_result (get_by_id_or_404 ''billing_payment'' pid (\<lambda>_. True) (bs_payments st1)) (\<lambda>refreshed.
         Inr (audit_if ctx ''billing.payment.allocation.removed'' pid None ''NOTICE'' st1, refreshed))))"

subsection \<open>The books: recording and status\<close>

lemma kept_payments [books_simps]: "kept st0 (st\<lparr>bs_payments := rows\<rparr>) = kept st0 st"
  by (simp add: kept_def latest_outcome_def)

lemma books_insert_new_payment:
  assumes "books_ok st" and "insert_payment (new_payment d customer now new_id) st = Inr st'"
    and "0 < quantize_half_up (pin_amount d)"
  shows "books_ok st' \<and> kept st st'"
proof -
  let ?p = "new_payment d customer now new_id"
  have "rid ?p \<notin> rid ` set (bs_payments st)" and st': "st' = st\<lparr>bs_payments := bs_payments st @ [?p]\<rparr>"
    using assms(2) by (auto simp: insert_payment_def create_row_Inr split: if_splits)
  then have "books_ok st'"
    using books_insert_payment [OF assms(1), of ?p] assms(3) by (simp add: new_payment_def)
  then show ?thesis by (simp add: st' books_simps)
qed

lemma record_payment_keeps: "keeps_books (record_payment d now ctx new_id)"
proof (rule keeps_booksI)
  fix st st' r
  assume books: "books_ok st" and run: "record_payment d now ctx new_id st = Inr (st', r)"
  then obtain st1 where "insert_payment (new_payment d None now new_id) st = Inr st1" "0 < quantize_half_up (pin_amount d)"
      "st' = audit_if ctx ''billing.payment.recorded'' new_id None ''NOTICE''
              (append_payment_event new_id PE_RECORDED (pin_recorded_by d) st1)"
    by (auto simp: record_payment_def Let_def split: if_splits)
  with books_insert_new_payment [OF books] show "books_ok st' \<and> kept st st'" by (simp add: books_simps)
qed

lemma create_pending_payment_keeps: "keeps_books (create_pending_payment d customer now ctx new_id)"
proof (rule keeps_booksI)
  fix st st' r
  let ?d = "d\<lparr>pin_status := PENDING, pin_txn_id := None, pin_fee := 0, pin_braintree_status := None\<rparr>"
  assume books: "books_ok st" and run: "create_pending_payment d customer now ctx new_id st = Inr (st', r)"
  then obtain st1 where "insert_payment (new_payment ?d customer now new_id) st = Inr st1" "0 < quantize_half_up (pin_amount ?d)"
      "st' = audit_if ctx ''billing.payment.recorded'' new_id None ''NOTICE''
              (append_payment_event new_id PE_RECORDED (pin_recorded_by d) st1)"
    by (auto simp: create_pending_payment_def Let_def split: if_splits)
  with books_insert_new_payment [OF books] show "books_ok st' \<and> kept st st'" by (simp add: books_simps)
qed

text \<open>An update of a payment that leaves its amounts alone.\<close>

lemma update_payment_keeps:
  assumes "books_ok st" and "update_payment i f v scope st = Inr (st', r')"
    and "\<And>r. get_by_id i scope (bs_payments st) = Some r \<Longrightarrow>
      bp_org (f r) = bp_org r \<and> bp_amount (f r) = bp_amount r
      \<and> (bp_status (f r) = VOIDED \<longrightarrow> bp_status r = VOIDED \<or> total_allocated_for_payment i st \<le> 0)
      \<and> bp_allocated (f r) = bp_allocated r \<and> bp_unallocated (f r) = bp_unallocated r
      \<and> bp_allocation_status (f r) = bp_allocation_status r"
  shows "books_ok st' \<and> kept st st'"
  using books_update_payment [OF assms] by (auto simp: books_simps)

lemma mark_payment_status_keeps:
  assumes "to_status \<noteq> VOIDED"
  shows "keeps_books (mark_payment_status org pid to_status txn_id bt fee actor_id queue now)"
proof (rule keeps_booksI)
  fix st st' r
  assume books: "books_ok st"
    and run: "mark_payment_status org pid to_status txn_id bt fee actor_id queue now st = Inr (st', r)"
  obtain p st1 u where
      upd: "update_payment pid (marked_fields to_status txn_id (normalize_braintree_status bt)
        (set_if (map_option quantize_half_up fee) (bp_fee p)) now p) (Some (version p)) (payment_scope org) st = Inr (st1, u)"
    and st': "st' = (let st2 = append_payment_event pid PE_STATUS_CHANGED actor_id st1
       in if queue then enqueue_qb_payment_sync pid org st2 else st2)"
    using run by (auto simp: mark_payment_status_def Let_def split: if_splits)
  have "books_ok st1 \<and> kept st st1" by (rule update_payment_keeps [OF books upd]) (use assms in \<open>simp add: marked_fields_def\<close>)
  then show "books_ok st' \<and> kept st st'" by (simp add: st' Let_def books_simps)
qed

lemma void_payment_cases:
  assumes "void_payment org pid actor_id reason ev ctx st = Inr (st', r)"
  obtains (already) p where "get_by_id pid (payment_scope org) (bs_payments st) = Some p" "bp_status p = VOIDED" "st' = st" "r = p"
    | (voided) p st1 where "get_by_id pid (payment_scope org) (bs_payments st) = Some p" "bp_status p \<noteq> VOIDED"
      "quantize_half_up (total_allocated_for_payment pid st) \<le> 0"
      "update_payment pid (\<lambda>r. r\<lparr>bp_status := VOIDED\<rparr>) (Some (set_if ev (version p))) (payment_scope org) st = Inr (st1, r)"
      "st' = audit_if ctx ''billing.payment.voided'' pid None ''NOTICE'' (append_payment_event pid PE_VOIDED actor_id st1)"
proof -
  obtain p where p: "get_by_id pid (payment_scope org) (bs_payments st) = Some p"
    using assms by (auto simp: void_payment_def)
  show thesis
  proof (cases "bp_status p = VOIDED")
    case True
    then show thesis using assms p already [OF p True] by (simp add: void_payment_def get_by_id_or_404_def)
  next
    case False
    show thesis
    proof (cases "0 < quantize_half_up (total_allocated_for_payment pid st)")
      case True
      then show thesis using assms p False by (simp add: void_payment_def get_by_id_or_404_def)
    next
      case free: False
      then obtain st1 where "update_payment pid (\<lambda>r. r\<lparr>bp_status := VOIDED\<rparr>) (Some (set_if ev (version p)))
            (payment_scope org) st = Inr (st1, r)"
          "st' = audit_if ctx ''billing.payment.voided'' pid None ''NOTICE'' (append_payment_event pid PE_VOIDED actor_id st1)"
        using assms p False by (auto simp: void_payment_def get_by_id_or_404_def)
      then show thesis using voided [OF p False] free by simp
    qed
  qed
qed

lemma void_payment_keeps: "keeps_books (void_payment org pid actor_id reason ev ctx)"
proof (rule keeps_booksI)
  fix st st' r
  assume books: "books_ok st" and run: "void_payment org pid actor_id reason ev ctx st = Inr (st', r)"
  from run show "books_ok st' \<and> kept st st'"
  proof (cases rule: void_payment_cases)
    case (already p)
    then show ?thesis using books by simp
  next
    case (voided p st1)
    have "total_allocated_for_payment pid st \<le> 0" using voided(3) books_totals(3) [OF books] by simp
    then have "books_ok st1 \<and> kept st st1" by (intro update_payment_keeps [OF books voided(4)]) simp
    then show ?thesis by (simp add: voided(5) books_simps)
  qed
qed

lemma update_payment_notes_keeps: "keeps_books (update_payment_notes org pid note actor_id ev ctx)"
proof (rule keeps_booksI)
  fix st st' r
  assume books: "books_ok st" and run: "update_payment_notes org pid note actor_id ev ctx st = Inr (st', r)"
  obtain v st1 where upd: "update_payment pid (\<lambda>r. r\<lparr>bp_notes := Some note\<rparr>) v (payment_scope org) st = Inr (st1, r)"
    and st': "st' = audit_if ctx ''billing.payment.notes_updated'' pid None ''NOTICE''
              (append_payment_event pid PE_NOTES_UPDATED actor_id st1)"
    using run by (auto simp: update_payment_notes_def split: if_splits)
  have "books_ok st1 \<and> kept st st1" by (rule update_payment_keeps [OF books upd]) simp
  then show "books_ok st' \<and> kept st st'" by (simp add: st' books_simps)
qed

lemma braintree_keeps:
  "keeps_books (apply_braintree_payment_status bp status now)"
  "keeps_books (apply_braintree_dispute_status bp di ds amount fee now)"
proof -
  show "keeps_books (apply_braintree_payment_status bp status now)"
  proof (rule keeps_booksI)
    fix st st' r
    assume books: "books_ok st" and run: "apply_braintree_payment_status bp status now st = Inr (st', r)"
    let ?f = "\<lambda>r. r\<lparr>bp_braintree_status := normalize_braintree_status (Some status), bp_braintree_status_at := Some now\<rparr>"
    consider "st' = st" | st1 u where "update_payment (strip bp) ?f None (\<lambda>_. True) st = Inr (st1, u)"
        "st' = append_payment_event (strip bp) PE_BRAINTREE_STATUS_CHANGED None st1"
      using run by (auto simp: apply_braintree_payment_status_def Let_def split: if_splits option.splits)
    then show "books_ok st' \<and> kept st st'"
    proof cases
      case 2
      have "books_ok st1 \<and> kept st st1" by (rule update_payment_keeps [OF books 2(1)]) simp
      then show ?thesis by (simp add: 2(2) books_simps)
    qed (use books in simp)
  qed
  show "keeps_books (apply_braintree_dispute_status bp di ds amount fee now)"
  proof (rule keeps_booksI)
    fix st st' r
    assume books: "books_ok st" and run: "apply_braintree_dispute_status bp di ds amount fee now st = Inr (st', r)"
    let ?f = "\<lambda>r. r\<lparr>bp_dispute_status := normalize_braintree_dispute_status (Some ds), bp_braintree_status_at := Some now,
              bp_dispute_amount := set_if (map_option quantize_half_up amount) (bp_dispute_amount r),
              bp_dispute_fee := set_if (map_option quantize_half_up fee) (bp_dispute_fee r)\<rparr>"
    consider "st' = st" | st1 u e where "update_payment (strip bp) ?f None (\<lambda>_. True) st = Inr (st1, u)"
        "st' = append_payment_event (strip bp) e None st1"
      using run by (auto simp: apply_braintree_dispute_status_def Let_def split: if_splits option.splits)
    then show "books_ok st' \<and> kept st st'"
    proof cases
      case 2
      have "books_ok st1 \<and> kept st st1" by (rule update_payment_keeps [OF books 2(1)]) simp
      then show ?thesis by (simp add: 2(2) books_simps)
    qed (use books in simp)
  qed
qed

subsection \<open>The books: allocations\<close>

definition alloc_rows :: "string \<Rightarrow> target list \<Rightarrow> (string \<times> string \<times> rat) list" where
  "alloc_rows pid ts = map (\<lambda>t. (pid, fst t, fst (snd t))) ts"

definition row_key :: "allocation \<Rightarrow> string \<times> string \<times> rat" where
  "row_key a = (pa_payment_id a, pa_invoice_id a, pa_amount a)"

definition good_target :: "string \<Rightarrow> billing_state \<Rightarrow> target \<Rightarrow> bool" where
  "good_target org st t \<longleftrightarrow> is_money (fst (snd t)) \<and> 0 < fst (snd t)
     \<and> (\<exists>iv. find_target org (fst t) st = Some iv \<and> inv_status iv = SENT)"

lemma append_allocation_frame [simp]:
  "bs_invoices (append_allocation pid ev u t st) = bs_invoices st"
  "bs_payments (append_allocation pid ev u t st) = bs_payments st"
  "bs_invoice_events (append_allocation pid ev u t st) = bs_invoice_events st"
  "bs_applications (append_allocation pid ev u t st) = bs_applications st"
  "map row_key (bs_allocations (append_allocation pid ev u t st))
     = map row_key (bs_allocations st) @ alloc_rows pid [t]"
  by (simp_all add: append_allocation_def Let_def append_payment_event_def alloc_rows_def row_key_def)

lemma fold_allocations_frame [simp]:
  "bs_invoices (fold (append_allocation pid ev u) ts st) = bs_invoices st"
  "bs_payments (fold (append_allocation pid ev u) ts st) = bs_payments st"
  "bs_invoice_events (fold (append_allocation pid ev u) ts st) = bs_invoice_events st"
  "bs_applications (fold (append_allocation pid ev u) ts st) = bs_applications st"
  "map row_key (bs_allocations (fold (append_allocation pid ev u) ts st))
     = map row_key (bs_allocations st) @ alloc_rows pid ts"
  by (induction ts arbitrary: st) (simp_all add: alloc_rows_def)

lemma find_target_Some:
  "find_target org i st = Some iv \<Longrightarrow> iv \<in> set (bs_invoices st) \<and> rid iv = i \<and> inv_org iv = Some org"
  unfolding find_target_def using get_by_id_Some by blast

lemma books_append_target:
  assumes books: "books_but P I st"
    and p: "p \<in> set (bs_payments st)" "rid p = pid" "bp_status p \<noteq> VOIDED"
    and t: "good_target (bp_org p) st t"
  shows "books_but (insert pid P) (insert (fst t) I) (append_allocation pid ev u t st)"
proof -
  let ?a = "\<lparr>pa_payment_id = pid, pa_invoice_id = fst t, pa_revision_no = next_revision_no pid (fst t) st,
       pa_amount = fst (snd t), pa_by = u, pa_notes = snd (snd t)\<rparr>"
  obtain iv where iv: "find_target (bp_org p) (fst t) st = Some iv" "inv_status iv = SENT"
    using t by (auto simp: good_target_def)
  have "allocation_ok (bs_payments st) (bs_invoices st) ?a"
    unfolding allocation_ok_def using p t iv find_target_Some [OF iv(1)]
    by (auto simp: good_target_def intro!: bexI [of _ p] bexI [of _ iv])
  from books_append_allocation [OF books this] show ?thesis
    by (simp add: append_allocation_def Let_def books_simps)
qed

lemma books_fold_targets:
  assumes "books_but P I st" and "p \<in> set (bs_payments st)" "rid p = pid" "bp_status p \<noteq> VOIDED"
    and "\<And>t. t \<in> set ts \<Longrightarrow> good_target (bp_org p) st t"
  shows "books_but (insert pid P) (I \<union> fst ` set ts) (fold (append_allocation pid ev u) ts st)"
  using assms
proof (induction ts arbitrary: P I st)
  case Nil
  then show ?case using books_but_mono by (metis Un_upper1 fold_simps(1) subset_insertI)
next
  case (Cons t ts)
  let ?st = "append_allocation pid ev u t st"
  have "books_but (insert pid P) (insert (fst t) I) ?st"
    using books_append_target [OF Cons.prems(1-4)] Cons.prems(5) [of t] by simp
  moreover have "good_target (bp_org p) ?st s" if "s \<in> set ts" for s
    using Cons.prems(5) [of s] that by (simp add: good_target_def find_target_def)
  ultimately show ?case using Cons.IH [of "insert pid P" "insert (fst t) I" ?st] Cons.prems(2-4) by simp
qed

text \<open>The totals are sums over the keys of the rows.\<close>

definition pair_sum :: "string \<Rightarrow> string \<Rightarrow> (string \<times> string \<times> rat) list \<Rightarrow> rat" where
  "pair_sum p i ks = sum_where (\<lambda>k. fst k = p \<and> fst (snd k) = i) (\<lambda>k. snd (snd k)) ks"

lemma totals_by_keys:
  "total_allocated_for_invoice i st
     = sum_where (\<lambda>k. fst (snd k) = i) (\<lambda>k. snd (snd k)) (map row_key (bs_allocations st))"
  "total_allocated_for_payment p st
     = sum_where (\<lambda>k. fst k = p) (\<lambda>k. snd (snd k)) (map row_key (bs_allocations st))"
  "allocated_pair p i st = pair_sum p i (map row_key (bs_allocations st))"
  by (simp_all add: total_allocated_for_invoice_def total_allocated_for_payment_def allocated_pair_def
      pair_sum_def sum_where_map row_key_def)

definition amount_for :: "target list \<Rightarrow> string \<Rightarrow> rat" where
  \<comment> \<open>what a list of targets gives an invoice\<close>
  "amount_for ts i = sum_where (\<lambda>t. fst t = i) (\<lambda>t. fst (snd t)) ts"

lemma alloc_rows_sums [simp]:
  "sum_where (\<lambda>k. fst (snd k) = i) (\<lambda>k. snd (snd k)) (alloc_rows pid ts) = amount_for ts i"
  "sum_where (\<lambda>k. fst k = p) (\<lambda>k. snd (snd k)) (alloc_rows pid ts)
     = (if p = pid then sum_list (map (fst \<circ> snd) ts) else 0)"
  "pair_sum p i (alloc_rows pid ts) = (if p = pid then amount_for ts i else 0)"
  by (induction ts) (auto simp: alloc_rows_def amount_for_def pair_sum_def)

lemma amount_for_member:
  "distinct (map fst ts) \<Longrightarrow> (i, a, n) \<in> set ts \<Longrightarrow> amount_for ts i = a"
proof (induction ts)
  case (Cons t ts)
  have none: "amount_for ts i = 0" if "i \<notin> fst ` set ts" for i
    unfolding amount_for_def using that by (intro sum_where_none) force
  show ?case
  proof (cases "t = (i, a, n)")
    case True
    then show ?thesis using Cons.prems(1) none by (simp add: amount_for_def)
  next
    case False
    then have "(i, a, n) \<in> set ts" using Cons.prems(2) by simp
    moreover from this have "i \<in> fst ` set ts" by (metis fst_conv imageI)
    then have "fst t \<noteq> i" using Cons.prems(1) by auto
    ultimately show ?thesis using Cons by (simp add: amount_for_def)
  qed
qed simp

lemma amount_for_absent: "i \<notin> fst ` set ts \<Longrightarrow> amount_for ts i = 0"
  unfolding amount_for_def by (intro sum_where_none) force

lemma normalize_allocations_Inr:
  assumes "normalize_allocations allocations = Inr ts"
  shows "distinct (map fst ts) \<and> (\<forall>t \<in> set ts. is_money (fst (snd t)) \<and> 0 < fst (snd t))
    \<and> length ts = length allocations"
proof -
  have all: "list_all2 (\<lambda>x t. normalize_allocation x = Inr t) allocations ts" and "distinct (map fst ts)"
    using assms by (auto simp: normalize_allocations_def map_result_Inr split: if_splits)
  have "is_money (fst (snd t)) \<and> 0 < fst (snd t)" if "t \<in> set ts" for t
  proof -
    obtain x where "normalize_allocation x = Inr t"
      using all \<open>t \<in> set ts\<close> by (auto simp: list_all2_conv_all_nth in_set_conv_nth)
    then show ?thesis by (auto simp: normalize_allocation_def Let_def split: if_splits)
  qed
  then show ?thesis using \<open>distinct (map fst ts)\<close> list_all2_lengthD [OF all] by simp
qed

lemma check_targets_Inr:
  "check_targets org ids st = Inr () \<longleftrightarrow>
     (\<forall>i \<in> set ids. \<exists>iv. find_target org i st = Some iv \<and> inv_status iv = SENT)"
proof -
  have first: "check_all (\<lambda>i. if find_target org i st = None then Inl (NotFoundError ''invoice'' i) else Inr ()) ids = Inr ()
      \<longleftrightarrow> (\<forall>i \<in> set ids. find_target org i st \<noteq> None)"
    by (auto simp: check_all_ok)
  have second: "check_all (\<lambda>i. case find_target org i st of
              Some iv \<Rightarrow> if inv_status iv \<noteq> SENT
                         then Inl (ValidationError ''Only SENT invoices can receive payment allocations'') else Inr ()
            | None \<Rightarrow> Inl (NotFoundError ''invoice'' i)) ids = Inr ()
      \<longleftrightarrow> (\<forall>i \<in> set ids. \<exists>iv. find_target org i st = Some iv \<and> inv_status iv = SENT)"
    by (auto simp: check_all_ok split: option.splits if_splits)
  have unit: "(\<exists>x. Q x) = Q ()" for Q :: "unit \<Rightarrow> bool" by auto
  show ?thesis unfolding check_targets_def bind_result_Inr_iff second unit first by force
qed

lemma fold_allocations_totals:
  assumes "st1 = fold (append_allocation pid ev u) ts st"
  shows "total_allocated_for_invoice i st1 = total_allocated_for_invoice i st + amount_for ts i"
    and "total_allocated_for_payment q st1 = total_allocated_for_payment q st
           + (if q = pid then sum_list (map (fst \<circ> snd) ts) else 0)"
    and "allocated_pair q i st1 = allocated_pair q i st + (if q = pid then amount_for ts i else 0)"
  by (simp_all add: totals_by_keys assms pair_sum_def [of q i "_ @ _"]) (simp_all add: pair_sum_def [symmetric])

text \<open>Once the rows are written, both kinds of projections are recomputed.\<close>

lemma recompute_all_frame:
  assumes "books_but P I st" and "recompute_invoice_projections today is st = Inr st'"
  shows "bs_allocations st' = bs_allocations st \<and> bs_payments st' = bs_payments st
    \<and> bs_applications st' = bs_applications st \<and> bs_credit_notes st' = bs_credit_notes st
    \<and> bs_invoice_events st' = bs_invoice_events st
    \<and> map (\<lambda>v. (rid v, inv_total v)) (bs_invoices st') = map (\<lambda>v. (rid v, inv_total v)) (bs_invoices st)"
  using assms
proof (induction "is" arbitrary: I st)
  case (Cons i "is")
  obtain st1 r where run: "recompute_invoice_projection today i st = Inr (st1, r)"
      "recompute_invoice_projections today is st1 = Inr st'" using Cons.prems(2) by auto
  have "bs_allocations st1 = bs_allocations st \<and> bs_payments st1 = bs_payments st
    \<and> bs_applications st1 = bs_applications st \<and> bs_credit_notes st1 = bs_credit_notes st
    \<and> bs_invoice_events st1 = bs_invoice_events st
    \<and> map (\<lambda>v. (rid v, inv_total v)) (bs_invoices st1) = map (\<lambda>v. (rid v, inv_total v)) (bs_invoices st)"
    using Cons.prems(1) run(1) by (rule recompute_invoice_cases) (simp add: rewrite_def)
  then show ?case
    using Cons.IH [OF books_recompute_invoice [OF Cons.prems(1) run(1)] run(2)] by simp
qed simp

lemma settle_allocations:
  assumes books: "books_ok st" and p: "get_by_id pid (\<lambda>_. True) (bs_payments st) = Some p"
    and mid: "books_but {pid} I st1" "bs_payments st1 = bs_payments st"
    and pay: "recompute_payment_projection p st1 = Inr st2"
    and invs: "recompute_invoice_projections today is st2 = Inr st3" and I: "I \<subseteq> set is"
  shows "books_ok st3" and "kept st1 st3"
    and "bs_allocations st3 = bs_allocations st1 \<and> bs_applications st3 = bs_applications st1"
    and "map (\<lambda>v. (rid v, inv_total v)) (bs_invoices st3) = map (\<lambda>v. (rid v, inv_total v)) (bs_invoices st1)"
    and "total_allocated_for_payment pid st3 \<le> bp_amount p"
proof -
  have pm: "p \<in> set (bs_payments st)" "rid p = pid" using get_by_id_Some [OF p] by simp_all
  have m: "is_money (bp_amount p)" using books pm(1) by (simp add: books_but_def)
  have same: "bp_amount r = bp_amount p" if "r \<in> set (bs_payments st1)" "rid r = rid p" for r
    using distinct_ids_unique [OF books_distinct(1) [OF books]] that pm mid(2) by metis
  have "books_but ({pid} - {rid p}) I st2"
    by (rule books_recompute_payment [OF mid(1) pay _ m]) (rule same)
  then have b2: "books_but {} I st2" using pm by simp
  obtain f where st2: "st2 = st1\<lparr>bs_payments := rewrite (rid p) f (bs_payments st1)\<rparr>"
    and le: "total_allocated_for_payment (rid p) st1 \<le> bp_amount p"
    using mid(1) pay m by (rule recompute_payment_cases)
  have "I - set is = {}" using I by blast
  with books_recompute_invoices [OF b2 invs] show "books_ok st3" by (simp only:)
  show "kept st1 st3" using kept_trans [OF _ kept_recompute_invoices [OF b2 invs]] by (simp add: st2 books_simps)
  note fr = recompute_all_frame [OF b2 invs]
  then show "bs_allocations st3 = bs_allocations st1 \<and> bs_applications st3 = bs_applications st1"
    and "map (\<lambda>v. (rid v, inv_total v)) (bs_invoices st3) = map (\<lambda>v. (rid v, inv_total v)) (bs_invoices st1)"
    by (simp_all add: st2)
  show "total_allocated_for_payment pid st3 \<le> bp_amount p"
    using le fr pm(2) by (simp add: st2 total_allocated_for_payment_def)
qed

lemma total_invoice_row:
  assumes "map (\<lambda>v. (rid v, inv_total v)) (bs_invoices st') = map (\<lambda>v. (rid v, inv_total v)) (bs_invoices st)"
    and "iv \<in> set (bs_invoices st)"
  obtains w where "w \<in> set (bs_invoices st')" "rid w = rid iv" "inv_total w = inv_total iv"
proof -
  have "(rid iv, inv_total iv) \<in> set (map (\<lambda>v. (rid v, inv_total v)) (bs_invoices st'))"
    using assms by (metis (mono_tags, lifting) imageI list.set_map)
  then show thesis using that by auto
qed

lemma books_paid_amount:
  "books_ok st \<Longrightarrow> iv \<in> set (bs_invoices st) \<Longrightarrow> inv_paid_amount iv = total_allocated_for_invoice (rid iv) st"
  by (simp add: books_but_def invoice_matches_def total_allocated_for_invoice_def)

lemma books_payment_amounts:
  "books_ok st \<Longrightarrow> p \<in> set (bs_payments st) \<Longrightarrow>
     bp_allocated p = total_allocated_for_payment (rid p) st \<and> bp_unallocated p = bp_amount p - bp_allocated p
     \<and> 0 \<le> bp_unallocated p"
proof -
  assume "books_ok st" "p \<in> set (bs_payments st)"
  then have "payment_matches (bs_allocations st) p" by (simp add: books_but_def)
  then show ?thesis by (simp add: payment_matches_def total_allocated_for_payment_def)
qed

lemma target_invoice_money:
  "books_ok st \<Longrightarrow> find_target org i st = Some iv \<Longrightarrow> is_money (inv_total iv)"
  using find_target_Some [of org i st iv] by (simp add: books_but_def)

lemma invoice_room_eq:
  assumes "books_ok st" and "find_target org i st = Some iv"
  shows "invoice_room org i st = inv_total iv - applied_total_for_invoice i st - total_allocated_for_invoice i st"
  using target_invoice_money [OF assms] books_totals(1,7) [OF assms(1)] assms(2) by (simp add: invoice_room_def)

definition within_total :: "string \<Rightarrow> billing_state \<Rightarrow> bool" where
  \<comment> \<open>the invoice is there, and payments and credits together do not exceed its total\<close>
  "within_total i st \<longleftrightarrow> (\<exists>iv \<in> set (bs_invoices st). rid iv = i
     \<and> inv_paid_amount iv = total_allocated_for_invoice i st
     \<and> inv_paid_amount iv + applied_total_for_invoice i st \<le> inv_total iv)"

lemma within_totalI:
  assumes "books_ok st'" and "iv \<in> set (bs_invoices st)" and "rid iv = i"
    and "map (\<lambda>v. (rid v, inv_total v)) (bs_invoices st') = map (\<lambda>v. (rid v, inv_total v)) (bs_invoices st)"
    and "total_allocated_for_invoice i st' + applied_total_for_invoice i st' \<le> inv_total iv"
  shows "within_total i st'"
proof -
  obtain w where "w \<in> set (bs_invoices st')" "rid w = rid iv" "inv_total w = inv_total iv"
    using total_invoice_row [OF assms(4,2)] .
  with assms(3,5) books_paid_amount [OF assms(1)] show ?thesis unfolding within_total_def by metis
qed

lemma add_or_revise_cases:
  assumes "add_or_revise_allocations today pid allocations actor_id ctx st = Inr (st', r)"
  obtains p ts st1 st2 st3 where "get_by_id pid (\<lambda>_. True) (bs_payments st) = Some p" "bp_status p \<noteq> VOIDED"
    "normalize_allocations allocations = Inr ts" "check_targets (bp_org p) (map fst ts) st = Inr ()"
    "\<forall>t \<in> set ts. fst (snd t) \<le> invoice_room (bp_org p) (fst t) st"
    "st1 = fold (append_allocation pid (\<lambda>n. if n = 1 then PE_ALLOCATED else PE_ALLOCATION_REVISED) actor_id) ts st"
    "recompute_payment_projection p st1 = Inr st2" "recompute_invoice_projections today (map fst ts) st2 = Inr st3"
    "st' = audit_if ctx ''billing.payment.allocation.revised'' pid None ''NOTICE'' (enqueue_qb_payment_sync pid (bp_org p) st3)"
    "get_by_id pid (\<lambda>_. True) (bs_payments (enqueue_qb_payment_sync pid (bp_org p) st3)) = Some r" "ts \<noteq> []"
proof -
  obtain p ts where p: "get_by_id pid (\<lambda>_. True) (bs_payments st) = Some p" "bp_status p \<noteq> VOIDED"
    and ts: "normalize_allocations allocations = Inr ts" "check_targets (bp_org p) (map fst ts) st = Inr ()"
    and ne: "allocations \<noteq> []"
    and rest: "bind_result (check_all (\<lambda>t. if invoice_room (bp_org p) (fst t) st < fst (snd t)
                then Inl (ValidationError ''INVOICE_OVER_ALLOCATED: allocation exceeds invoice outstanding balance'')
                else Inr ()) ts) (\<lambda>_.
        bind_result (recompute_payment_projection p (fold (append_allocation pid
            (\<lambda>n. if n = 1 then PE_ALLOCATED else PE_ALLOCATION_REVISED) actor_id) ts st)) (\<lambda>st2.
        bind_result (recompute_invoice_projections today (map fst ts) st2) (\<lambda>st3.
        bind_result (get_by_id_or_404 ''billing_payment'' pid (\<lambda>_. True)
            (bs_payments (enqueue_qb_payment_sync pid (bp_org p) st3))) (\<lambda>refreshed.
        Inr (audit_if ctx ''billing.payment.allocation.revised'' pid None ''NOTICE''
              (enqueue_qb_payment_sync pid (bp_org p) st3), refreshed))))) = Inr (st', r)"
    using assms unfolding add_or_revise_allocations_def Let_def
    by (auto split: if_splits simp del: bind_result_Inr_iff dest!: bind_result_Inr_iff [THEN iffD1])
  have "list_all2 (\<lambda>_ _. True) ts allocations"
    using normalize_allocations_Inr [OF ts(1)] by (simp add: list_all2_conv_all_nth)
  then have "ts \<noteq> []" using ne by auto
  with rest that [OF p ts _ refl] show thesis by (fastforce simp: check_all_ok split: if_splits)
qed

lemma targets_good:
  assumes "normalize_allocations allocations = Inr ts" and "check_targets org (map fst ts) st = Inr ()"
  shows "\<forall>t \<in> set ts. good_target org st t"
  using assms normalize_allocations_Inr [OF assms(1)] by (auto simp: check_targets_Inr good_target_def)

lemma add_or_revise_books:
  assumes books: "books_ok st" and run: "add_or_revise_allocations today pid allocations actor_id ctx st = Inr (st', r)"
  obtains ts st1 p where "normalize_allocations allocations = Inr ts" "books_ok st'" "kept st st'"
    "get_by_id pid (\<lambda>_. True) (bs_payments st) = Some p"
    "\<forall>t \<in> set ts. good_target (bp_org p) st t \<and> fst (snd t) \<le> invoice_room (bp_org p) (fst t) st"
    "\<And>i. total_allocated_for_invoice i st' = total_allocated_for_invoice i st + amount_for ts i"
    "total_allocated_for_payment pid st' = total_allocated_for_payment pid st + sum_list (map (fst \<circ> snd) ts)"
    "total_allocated_for_payment pid st' \<le> bp_amount p"
    "bs_applications st' = bs_applications st"
    "map (\<lambda>v. (rid v, inv_total v)) (bs_invoices st') = map (\<lambda>v. (rid v, inv_total v)) (bs_invoices st)"
    "get_by_id pid (\<lambda>_. True) (bs_payments st') = Some r"
  using run
proof (rule add_or_revise_cases)
  fix p ts st1 st2 st3
  assume p: "get_by_id pid (\<lambda>_. True) (bs_payments st) = Some p" "bp_status p \<noteq> VOIDED"
    and ts: "normalize_allocations allocations = Inr ts" "check_targets (bp_org p) (map fst ts) st = Inr ()"
    and room: "\<forall>t \<in> set ts. fst (snd t) \<le> invoice_room (bp_org p) (fst t) st"
    and st1: "st1 = fold (append_allocation pid (\<lambda>n. if n = 1 then PE_ALLOCATED else PE_ALLOCATION_REVISED) actor_id) ts st"
    and rec: "recompute_payment_projection p st1 = Inr st2" "recompute_invoice_projections today (map fst ts) st2 = Inr st3"
    and st': "st' = audit_if ctx ''billing.payment.allocation.revised'' pid None ''NOTICE''
        (enqueue_qb_payment_sync pid (bp_org p) st3)"
    and r: "get_by_id pid (\<lambda>_. True) (bs_payments (enqueue_qb_payment_sync pid (bp_org p) st3)) = Some r"
  have pm: "p \<in> set (bs_payments st)" "rid p = pid" using get_by_id_Some [OF p(1)] by simp_all
  note good = targets_good [OF ts]
  have mid: "books_but {pid} (fst ` set ts) st1"
    using books_fold_targets [OF books pm p(2), of ts] good by (simp add: st1)
  have "fst ` set ts \<subseteq> set (map fst ts)" by simp
  note fin = settle_allocations [OF books p(1) mid _ rec this]
  have eq: "bs_payments st1 = bs_payments st" by (simp add: st1)
  have tables: "bs_allocations st' = bs_allocations st3" "bs_applications st' = bs_applications st3"
    "bs_invoices st' = bs_invoices st3" "bs_payments st' = bs_payments (enqueue_qb_payment_sync pid (bp_org p) st3)"
    by (simp_all add: st' audit_if_def billing_audit_def enqueue_qb_payment_sync_def push_job_def split: option.splits)
  have "kept st st1" by (rule kept_same) (simp_all add: st1)
  then have "kept st st'" using kept_trans [OF _ fin(2) [OF eq]] by (simp add: st' books_simps)
  moreover have "books_ok st'" using fin(1) [OF eq] by (simp add: st' books_simps)
  ultimately show thesis
    using that [OF ts(1) _ _ p(1)] good room fold_allocations_totals [OF st1] fin(3-5) [OF eq] r tables
    by (simp add: total_allocated_for_invoice_def total_allocated_for_payment_def st1)
qed

lemma add_or_revise_keeps: "keeps_books (add_or_revise_allocations today pid allocations actor_id ctx)"
  by (rule keeps_booksI) (erule (1) add_or_revise_books, blast)

lemma record_with_allocations_keeps:
  "keeps_books (record_payment_with_allocations today d now ctx new_id allocations)"
proof (rule keeps_booksI)
  fix st st' r
  assume books: "books_ok st"
    and run: "record_payment_with_allocations today d now ctx new_id allocations st = Inr (st', r)"
  then obtain st1 p where 1: "record_payment d now ctx new_id st = Inr (st1, p)"
    and 2: "st' = st1 \<or> add_or_revise_allocations today new_id allocations (pin_recorded_by d) ctx st1 = Inr (st', r)"
    by (auto simp: record_payment_with_allocations_def split: if_splits)
  have b1: "books_ok st1" "kept st st1" using keeps_booksD [OF record_payment_keeps 1 books] by auto
  show "books_ok st' \<and> kept st st'"
    using 2 b1 keeps_booksD [OF add_or_revise_keeps _ b1(1)] kept_trans [OF b1(2)] by blast
qed

subsection \<open>The books: replacing\<close>

lemma current_map_mem:
  assumes "books_ok st"
  shows "(i, a) \<in> set (current_map pid st) \<longleftrightarrow> a = allocated_pair pid i st \<and> 0 < a"
proof -
  have pair: "quantize_half_up (allocated_pair pid i st) = allocated_pair pid i st" for i
    using books_totals(5) [OF assms] by simp
  have "i \<in> set (map pa_invoice_id (filter (\<lambda>a. pa_payment_id a = pid) (bs_allocations st)))"
    if "0 < allocated_pair pid i st"
  proof (rule ccontr)
    assume "\<not> ?thesis"
    then have "\<not> (pa_payment_id a = pid \<and> pa_invoice_id a = i)" if "a \<in> set (bs_allocations st)" for a
      using that by auto
    then have "allocated_pair pid i st = 0" unfolding allocated_pair_def by (intro sum_where_none)
    then show False using that by simp
  qed
  then show ?thesis by (auto simp: current_map_def pair)
qed

lemma current_map_distinct: "distinct (map fst (current_map pid st))"
  unfolding current_map_def by (rule distinct_map_filter) (simp add: comp_def)

lemma amount_in_current:
  assumes "books_ok st"
  shows "amount_in (current_map pid st) i = allocated_pair pid i st"
proof (cases "0 < allocated_pair pid i st")
  case True
  then have "(i, allocated_pair pid i st) \<in> set (current_map pid st)" by (simp add: current_map_mem [OF assms])
  then have "map_of (current_map pid st) i = Some (allocated_pair pid i st)"
    by (intro map_of_is_SomeI current_map_distinct)
  then show ?thesis by (simp add: amount_in_def)
next
  case False
  then have "map_of (current_map pid st) i = None"
    using current_map_mem [OF assms] by (auto simp: map_of_eq_None_iff)
  then show ?thesis using False books_totals(6) [OF assms, of pid i] by (simp add: amount_in_def)
qed

lemma target_room_eq:
  assumes "books_ok st" and "find_target (bp_org p) i st = Some iv"
  shows "target_room p i st = inv_total iv - applied_total_for_invoice i st
    - (total_allocated_for_invoice i st - allocated_pair (rid p) i st)"
  using target_invoice_money [OF assms] books_totals(1,5,7) [OF assms(1)] assms(2)
  by (simp add: target_room_def Let_def amount_in_current [OF assms(1)])

lemma dropped_totals:
  fixes st :: billing_state and pid :: string
  defines "st1 \<equiv> st\<lparr>bs_allocations := filter (\<lambda>a. pa_payment_id a \<noteq> pid) (bs_allocations st)\<rparr>"
  shows "total_allocated_for_invoice i st1 = total_allocated_for_invoice i st - allocated_pair pid i st"
    and "allocated_pair q i st1 = (if q = pid then 0 else allocated_pair q i st)"
    and "total_allocated_for_payment pid st1 = 0"
proof -
  have "total_allocated_for_invoice i st
      = sum_where (\<lambda>a. pa_invoice_id a = i \<and> pa_payment_id a = pid) pa_amount (bs_allocations st)
      + sum_where (\<lambda>a. pa_invoice_id a = i \<and> pa_payment_id a \<noteq> pid) pa_amount (bs_allocations st)"
    unfolding total_allocated_for_invoice_def by (rule sum_where_split)
  moreover have "sum_where (\<lambda>a. pa_invoice_id a = i \<and> pa_payment_id a = pid) pa_amount (bs_allocations st)
      = allocated_pair pid i st"
    unfolding allocated_pair_def by (intro sum_where_cong) auto
  ultimately show "total_allocated_for_invoice i st1 = total_allocated_for_invoice i st - allocated_pair pid i st"
    by (simp add: st1_def total_allocated_for_invoice_def sum_where_filter)
  show "allocated_pair q i st1 = (if q = pid then 0 else allocated_pair q i st)"
    by (auto simp: st1_def allocated_pair_def sum_where_filter intro: sum_where_none sum_where_cong)
  show "total_allocated_for_payment pid st1 = 0"
    by (auto simp: st1_def total_allocated_for_payment_def sum_where_filter intro: sum_where_none)
qed

lemma amount_for_current:
  assumes "books_ok st" and "distinct (map fst ts)" and "\<forall>t \<in> set ts. 0 < fst (snd t)"
    and "set (map (\<lambda>t. (fst t, fst (snd t))) ts) = set (current_map pid st)"
  shows "amount_for ts i = allocated_pair pid i st"
proof (cases "i \<in> fst ` set ts")
  case True
  then obtain a n where t: "(i, a, n) \<in> set ts" by auto
  then have "(i, a) \<in> set (current_map pid st)" using assms(4) by force
  then show ?thesis using amount_for_member [OF assms(2) t] current_map_mem [OF assms(1)] by simp
next
  case False
  then have "(i, allocated_pair pid i st) \<notin> set (current_map pid st)" using assms(4) by force
  then have "allocated_pair pid i st = 0"
    using current_map_mem [OF assms(1)] books_totals(6) [OF assms(1), of pid i] by force
  then show ?thesis using amount_for_absent [OF False] by simp
qed

lemma apply_targets_cases:
  assumes "apply_allocation_targets today p ts actor_id st = Inr (st', touched)"
  obtains (idle) "check_targets (bp_org p) (map fst ts) st = Inr ()" "current_map (rid p) st = []" "ts = []" "st' = st"
    | (same) "check_targets (bp_org p) (map fst ts) st = Inr ()"
      "\<forall>t \<in> set ts. fst (snd t) \<le> target_room p (fst t) st"
      "set (map (\<lambda>t. (fst t, fst (snd t))) ts) = set (current_map (rid p) st)" "st' = st"
    | (changed) st1 st2 st3 "is" where "check_targets (bp_org p) (map fst ts) st = Inr ()"
      "\<forall>t \<in> set ts. fst (snd t) \<le> target_room p (fst t) st"
      "st1 = fold (append_allocation (rid p) (\<lambda>_. PE_ALLOCATION_REVISED) actor_id) ts
                  (st\<lparr>bs_allocations := filter (\<lambda>a. pa_payment_id a \<noteq> rid p) (bs_allocations st)\<rparr>)"
      "recompute_payment_projection p st1 = Inr st2"
      "recompute_invoice_projections today is st2 = Inr st3"
      "set is = fst ` set (current_map (rid p) st) \<union> fst ` set ts"
      "st' = enqueue_qb_payment_sync (rid p) (bp_org p) st3"
proof -
  let ?is = "sort (remdups (map fst (current_map (rid p) st) @ map fst ts))"
  have set_is: "set ?is = fst ` set (current_map (rid p) st) \<union> fst ` set ts" by simp
  have ck: "check_targets (bp_org p) (map fst ts) st = Inr ()"
    using assms by (auto simp: apply_allocation_targets_def Let_def simp del: set_map split: if_splits)
  show thesis
  proof (cases "?is = []")
    case True
    then have "set ?is = {}" by simp
    then have none: "current_map (rid p) st = []" "ts = []" unfolding set_is by simp_all
    then have "st' = st" using assms ck by (simp add: apply_allocation_targets_def Let_def split: if_splits)
    with none show thesis by (rule idle [OF ck])
  next
    case False
    then have rest: "bind_result (check_all (\<lambda>t. if target_room p (fst t) st < fst (snd t)
              then Inl (ValidationError ''INVOICE_OVER_ALLOCATED: allocation exceeds invoice outstanding balance'')
              else Inr ()) ts) (\<lambda>_.
          if set (map (\<lambda>t. (fst t, fst (snd t))) ts) = set (current_map (rid p) st) then Inr (st, [])
          else
            bind_result (recompute_payment_projection p (fold (append_allocation (rid p) (\<lambda>_. PE_ALLOCATION_REVISED) actor_id) ts
                  (st\<lparr>bs_allocations := filter (\<lambda>a. pa_payment_id a \<noteq> rid p) (bs_allocations st)\<rparr>))) (\<lambda>st2.
            bind_result (recompute_invoice_projections today ?is st2) (\<lambda>st3.
            Inr (enqueue_qb_payment_sync (rid p) (bp_org p) st3, ?is)))) = Inr (st', touched)"
      using assms ck by (simp add: apply_allocation_targets_def Let_def del: bind_result_Inr_iff sort_append split: if_splits)
    then have room: "\<forall>t \<in> set ts. fst (snd t) \<le> target_room p (fst t) st"
      by (fastforce simp: check_all_ok split: if_splits)
    show thesis
    proof (cases "set (map (\<lambda>t. (fst t, fst (snd t))) ts) = set (current_map (rid p) st)")
      case True
      then show thesis using same [OF ck room True] rest by simp
    next
      case False
      then obtain st2 st3 where "recompute_payment_projection p (fold (append_allocation (rid p) (\<lambda>_. PE_ALLOCATION_REVISED) actor_id) ts
                  (st\<lparr>bs_allocations := filter (\<lambda>a. pa_payment_id a \<noteq> rid p) (bs_allocations st)\<rparr>)) = Inr st2"
          "recompute_invoice_projections today ?is st2 = Inr st3" "st' = enqueue_qb_payment_sync (rid p) (bp_org p) st3"
        using rest by auto
      then show thesis using changed [OF ck room refl _ _ set_is] by blast
    qed
  qed
qed

lemma apply_targets_books:
  assumes books: "books_ok st" and p: "get_by_id pid (\<lambda>_. True) (bs_payments st) = Some p" "bp_status p \<noteq> VOIDED"
    and ts: "distinct (map fst ts)" "\<forall>t \<in> set ts. is_money (fst (snd t)) \<and> 0 < fst (snd t)"
    and run: "apply_allocation_targets today p ts actor_id st = Inr (st', touched)"
  shows "books_ok st' \<and> kept st st'
    \<and> (\<forall>q i. allocated_pair q i st' = (if q = pid then amount_for ts i else allocated_pair q i st))
    \<and> (\<forall>t \<in> set ts. within_total (fst t) st')"
proof -
  have pm: "p \<in> set (bs_payments st)" "rid p = pid" using get_by_id_Some [OF p(1)] by simp_all
  have found: "\<exists>iv. find_target (bp_org p) (fst t) st = Some iv \<and> inv_status iv = SENT"
    if "check_targets (bp_org p) (map fst ts) st = Inr ()" "t \<in> set ts" for t
    using that by (auto simp: check_targets_Inr)
  from run show ?thesis
  proof (cases rule: apply_targets_cases)
    case idle
    have "allocated_pair pid i st = 0" for i
      using current_map_mem [OF books, of i "allocated_pair pid i st" pid] books_totals(6) [OF books, of pid i]
        idle(2) pm(2) by auto
    then show ?thesis using idle(3,4) books by (simp add: amount_for_def)
  next
    case same
    have "within_total (fst t) st" if t: "t \<in> set ts" for t
    proof -
      obtain iv where iv: "find_target (bp_org p) (fst t) st = Some iv" using found [OF same(1) t] by blast
      have "fst (snd t) = allocated_pair pid (fst t) st"
        using same(3) t current_map_mem [OF books, of "fst t" "fst (snd t)" pid] pm(2) by force
      moreover have "fst (snd t) \<le> target_room p (fst t) st" using same(2) t by blast
      ultimately show ?thesis
        using within_totalI [OF books, of iv st "fst t"] find_target_Some [OF iv] target_room_eq [where p = p, OF books iv] pm(2) by simp
    qed
    then show ?thesis
      using amount_for_current [OF books ts(1) _ same(3)] ts(2) books same(4) pm(2) by auto
  next
    case (changed st1 st2 st3 "is")
    let ?st0 = "st\<lparr>bs_allocations := filter (\<lambda>a. pa_payment_id a \<noteq> pid) (bs_allocations st)\<rparr>"
    let ?gone = "pa_invoice_id ` {a \<in> set (bs_allocations st). pa_payment_id a = pid}"
    have st1: "st1 = fold (append_allocation pid (\<lambda>_. PE_ALLOCATION_REVISED) actor_id) ts ?st0"
      using changed(3) pm(2) by simp
    have b0: "books_but {pid} ?gone ?st0" using books_drop_allocations [OF books, of pid] by simp
    have "good_target (bp_org p) ?st0 t" if "t \<in> set ts" for t
      using found [OF changed(1) that] ts(2) that by (simp add: good_target_def find_target_def)
    then have mid: "books_but {pid} (?gone \<union> fst ` set ts) st1"
      using books_fold_targets [OF b0, of p pid ts] pm p(2) by (simp add: st1)
    have "i \<in> fst ` set (current_map pid st)" if "i \<in> ?gone" for i
    proof -
      obtain a where a: "a \<in> set (bs_allocations st)" "pa_payment_id a = pid" "pa_invoice_id a = i" using \<open>i \<in> ?gone\<close> by auto
      have pos: "0 < pa_amount b" if "b \<in> set (bs_allocations st)" for b
        using books that by (auto simp: books_but_def allocation_ok_def)
      then have "pa_amount a \<le> allocated_pair pid i st"
        unfolding allocated_pair_def using a by (intro sum_where_member_le) (auto simp: less_imp_le)
      then have "0 < allocated_pair pid i st" using pos [OF a(1)] by simp
      then show ?thesis using current_map_mem [OF books] by force
    qed
    then have "?gone \<subseteq> fst ` set (current_map pid st)" by (rule subsetI)
    then have "?gone \<union> fst ` set ts \<subseteq> set is" unfolding changed(6) pm(2) by (rule Un_mono) simp
    note fin = settle_allocations [OF books p(1) mid _ changed(4,5) this]
    have eq: "bs_payments st1 = bs_payments st" by (simp add: st1)
    have tables: "bs_allocations st' = bs_allocations st1" "bs_applications st' = bs_applications st"
      "map (\<lambda>v. (rid v, inv_total v)) (bs_invoices st') = map (\<lambda>v. (rid v, inv_total v)) (bs_invoices st)"
      using fin(3,4) [OF eq] by (simp_all add: changed(7) st1 enqueue_qb_payment_sync_def push_job_def)
    have ok: "books_ok st'" using fin(1) [OF eq] by (simp add: changed(7) books_simps)
    have "kept st st1" by (rule kept_same) (simp_all add: st1)
    then have kept: "kept st st'" using kept_trans [OF _ fin(2) [OF eq]] by (simp add: changed(7) books_simps)
    have pair: "allocated_pair q i st' = (if q = pid then amount_for ts i else allocated_pair q i st)" for q i
      using fold_allocations_totals(3) [OF st1, of q i] dropped_totals(2) [where q = q and i = i and st = st and pid = pid] tables(1)
      by (simp add: allocated_pair_def)
    have tot: "total_allocated_for_invoice i st' = total_allocated_for_invoice i st - allocated_pair pid i st + amount_for ts i" for i
      using fold_allocations_totals(1) [OF st1, of i] dropped_totals(1) [where i = i and st = st and pid = pid] tables(1)
      by (simp add: total_allocated_for_invoice_def)
    have "within_total (fst t) st'" if t: "t \<in> set ts" for t
    proof -
      obtain iv where iv: "find_target (bp_org p) (fst t) st = Some iv" using found [OF changed(1) t] by blast
      have "amount_for ts (fst t) = fst (snd t)" using amount_for_member [OF ts(1)] t by (metis prod.collapse)
      moreover have "fst (snd t) \<le> target_room p (fst t) st" using changed(2) t by blast
      ultimately have "total_allocated_for_invoice (fst t) st' + applied_total_for_invoice (fst t) st' \<le> inv_total iv"
        using tot [of "fst t"] target_room_eq [where p = p, OF books iv] pm(2) tables(2) by (simp add: applied_total_for_invoice_def)
      then show ?thesis using within_totalI [OF ok _ _ tables(3)] find_target_Some [OF iv] by blast
    qed
    then show ?thesis using ok kept pair by blast
  qed
qed

lemma replace_allocations_cases:
  assumes "replace_allocations today pid allocations actor_id ctx st = Inr (st', r)"
  obtains p ts st1 touched where "get_by_id pid (\<lambda>_. True) (bs_payments st) = Some p" "bp_status p \<noteq> VOIDED"
    "normalize_allocations allocations = Inr ts" "apply_allocation_targets today p ts actor_id st = Inr (st1, touched)"
    "st' = audit_if ctx ''billing.payment.allocations.replaced'' pid None ''NOTICE'' st1"
  using assms by (auto simp: replace_allocations_def split: if_splits)

lemma remove_allocation_cases:
  assumes "remove_allocation today pid invoice_id actor_id ctx st = Inr (st', r)"
  obtains p ts st1 touched where "get_by_id pid (\<lambda>_. True) (bs_payments st) = Some p" "bp_status p \<noteq> VOIDED"
    "ts = map (\<lambda>(i, a). (i, a, None)) (filter (\<lambda>(i, a). i \<noteq> strip invoice_id) (current_map pid st))"
    "apply_allocation_targets today p ts actor_id st = Inr (st1, touched)"
    "st' = audit_if ctx ''billing.payment.allocation.removed'' pid None ''NOTICE'' st1"
  using assms by (auto simp: remove_allocation_def Let_def split: if_splits)

lemma audit_if_tables [simp]:
  "bs_allocations (audit_if ctx a e r s st) = bs_allocations st" "bs_invoices (audit_if ctx a e r s st) = bs_invoices st"
  "bs_applications (audit_if ctx a e r s st) = bs_applications st" "bs_payments (audit_if ctx a e r s st) = bs_payments st"
  by (simp_all add: audit_if_def billing_audit_def split: option.splits)

lemma replaced_books:
  assumes books: "books_ok st" and run: "replace_allocations today pid allocations actor_id ctx st = Inr (st', r)"
  shows "\<exists>ts. normalize_allocations allocations = Inr ts \<and> books_ok st' \<and> kept st st'
    \<and> (\<forall>q i. allocated_pair q i st' = (if q = pid then amount_for ts i else allocated_pair q i st))
    \<and> (\<forall>t \<in> set ts. within_total (fst t) st')"
  using run
proof (rule replace_allocations_cases)
  fix p ts st1 touched
  assume p: "get_by_id pid (\<lambda>_. True) (bs_payments st) = Some p" "bp_status p \<noteq> VOIDED"
    and ts: "normalize_allocations allocations = Inr ts"
    and ap: "apply_allocation_targets today p ts actor_id st = Inr (st1, touched)"
    and st': "st' = audit_if ctx ''billing.payment.allocations.replaced'' pid None ''NOTICE'' st1"
  show ?thesis
    using apply_targets_books [OF books p _ _ ap] normalize_allocations_Inr [OF ts] ts
    by (simp add: st' books_simps allocated_pair_def within_total_def total_allocated_for_invoice_def
        applied_total_for_invoice_def)
qed

lemma removed_books:
  assumes books: "books_ok st" and run: "remove_allocation today pid invoice_id actor_id ctx st = Inr (st', r)"
  shows "books_ok st' \<and> kept st st'
    \<and> (\<forall>q i. allocated_pair q i st' = (if q = pid \<and> i = strip invoice_id then 0 else allocated_pair q i st))"
  using run
proof (rule remove_allocation_cases)
  fix p ts st1 touched
  let ?rest = "filter (\<lambda>(i, a). i \<noteq> strip invoice_id) (current_map pid st)"
  assume p: "get_by_id pid (\<lambda>_. True) (bs_payments st) = Some p" "bp_status p \<noteq> VOIDED"
    and ts: "ts = map (\<lambda>(i, a). (i, a, None)) ?rest"
    and ap: "apply_allocation_targets today p ts actor_id st = Inr (st1, touched)"
    and st': "st' = audit_if ctx ''billing.payment.allocation.removed'' pid None ''NOTICE'' st1"
  have fsts: "map fst ts = map fst ?rest" by (simp add: ts comp_def split_def)
  have d: "distinct (map fst ts)" unfolding fsts by (rule distinct_map_filter [OF current_map_distinct])
  have mem: "(i, a, n) \<in> set ts \<longleftrightarrow> n = None \<and> i \<noteq> strip invoice_id \<and> a = allocated_pair pid i st \<and> 0 < a" for i a n
    using current_map_mem [OF books, of i a pid] by (auto simp: ts)
  have pos: "\<forall>t \<in> set ts. is_money (fst (snd t)) \<and> 0 < fst (snd t)"
    using mem books_totals(5) [OF books] by auto
  have "amount_for ts i = (if i = strip invoice_id then 0 else allocated_pair pid i st)" for i
  proof (cases "i \<noteq> strip invoice_id \<and> 0 < allocated_pair pid i st")
    case True
    then show ?thesis using amount_for_member [OF d, of i "allocated_pair pid i st" None] mem by simp
  next
    case False
    then have "i \<notin> fst ` set ts" using mem by auto
    then show ?thesis using amount_for_absent False books_totals(6) [OF books, of pid i] by auto
  qed
  then show ?thesis
    using apply_targets_books [OF books p d pos ap] by (simp add: st' books_simps allocated_pair_def)
qed

lemma replacing_keeps:
  "keeps_books (replace_allocations today pid allocations actor_id ctx)"
  "keeps_books (remove_allocation today pid invoice_id actor_id ctx)"
  using replaced_books removed_books by (blast intro: keeps_booksI)+

subsection \<open>A sample\<close>

definition sample_invoice_data :: invoice_data where
  "sample_invoice_data = \<lparr>nd_order_id = None, nd_org = Some ''o1'', nd_customer = Some ''c1'', nd_issue_date = 10,
     nd_due_date = 40, nd_subtotal = 100, nd_vat_rate = 20, nd_vat_amount = 20, nd_total = 120, nd_notes = None,
     nd_contact_email = None\<rparr>"

definition sample_payment_input :: payment_input where
  "sample_payment_input = \<lparr>pin_org = ''o1'', pin_amount = 100, pin_date = 12, pin_client_type = ''CUSTOMER_B2B'',
     pin_recorded_by = None, pin_status = DEPOSITED, pin_provider = MANUAL, pin_txn_id = None, pin_fee = 0,
     pin_braintree_status = None, pin_notes = None\<rparr>"

definition sample_billing :: billing_state where
  \<comment> \<open>two SENT invoices of 120 and one payment of 100, nothing allocated\<close>
  "sample_billing = empty_billing
     \<lparr>bs_invoices := [new_invoice sample_invoice_data SENT False ''i1'' ''INV-000001'',
                      new_invoice sample_invoice_data SENT False ''i2'' ''INV-000002''],
      bs_payments := [new_payment sample_payment_input None 0 ''p1'']\<rparr>"

definition sample_allocations :: "alloc_input list" where
  "sample_allocations = [\<lparr>ai_invoice_id = Some ''i1'', ai_amount = Some 60, ai_notes = None\<rparr>,
     \<lparr>ai_invoice_id = Some ''i2'', ai_amount = Some 30, ai_notes = None\<rparr>]"

lemma sample_billing_ok: "books_ok sample_billing"
  by code_simp

lemma sample_allocated:
  "(case add_or_revise_allocations 20 ''p1'' sample_allocations None None sample_billing of
      Inl _ \<Rightarrow> False | Inr x \<Rightarrow> bp_allocated (snd x) = 90 \<and> bp_unallocated (snd x) = 10)"
  by code_simp

lemma sample_replaced:
  "(case replace_allocations 20 ''p1'' sample_allocations None None sample_billing of
      Inl _ \<Rightarrow> False | Inr x \<Rightarrow> bp_allocated (snd x) = 90
        \<and> (case remove_allocation 20 ''p1'' ''i1'' None None (fst x) of Inl _ \<Rightarrow> False | Inr y \<Rightarrow> bp_allocated (snd y) = 30))"
  by code_simp

subsection \<open>Properties\<close>

text \<open>C11: an allocation never gives away more than there is. When it succeeds, every listed invoice
  has received exactly the listed amount and no other invoice anything, the payment's allocated
  amount is the sum of its rows and at most its amount, and on each listed invoice payments and
  applied credit together stay within the invoice total.\<close>

theorem allocation_stays_within_limits:
  assumes "books_ok st" and "add_or_revise_allocations today pid allocations actor_id ctx st = Inr (st', r)"
  shows "\<exists>ts. normalize_allocations allocations = Inr ts
    \<and> (\<forall>i. total_allocated_for_invoice i st' = total_allocated_for_invoice i st + amount_for ts i)
    \<and> (\<forall>t \<in> set ts. amount_for ts (fst t) = fst (snd t) \<and> within_total (fst t) st')
    \<and> bp_allocated r = total_allocated_for_payment pid st + sum_list (map (fst \<circ> snd) ts)
    \<and> bp_allocated r + bp_unallocated r = bp_amount r \<and> 0 \<le> bp_unallocated r"
  using assms
proof (rule add_or_revise_books)
  fix ts p
  assume ts: "normalize_allocations allocations = Inr ts" and ok: "books_ok st'"
    and room: "\<forall>t \<in> set ts. good_target (bp_org p) st t \<and> fst (snd t) \<le> invoice_room (bp_org p) (fst t) st"
    and tot: "\<And>i. total_allocated_for_invoice i st' = total_allocated_for_invoice i st + amount_for ts i"
    and pay: "total_allocated_for_payment pid st' = total_allocated_for_payment pid st + sum_list (map (fst \<circ> snd) ts)"
    and apps: "bs_applications st' = bs_applications st"
    and rows: "map (\<lambda>v. (rid v, inv_total v)) (bs_invoices st') = map (\<lambda>v. (rid v, inv_total v)) (bs_invoices st)"
    and r: "get_by_id pid (\<lambda>_. True) (bs_payments st') = Some r"
  have each: "amount_for ts (fst t) = fst (snd t) \<and> within_total (fst t) st'" if t: "t \<in> set ts" for t
  proof -
    have amt: "amount_for ts (fst t) = fst (snd t)"
      using amount_for_member normalize_allocations_Inr [OF ts] t by (metis prod.collapse)
    obtain iv where iv: "find_target (bp_org p) (fst t) st = Some iv" using room t by (auto simp: good_target_def)
    have "total_allocated_for_invoice (fst t) st' + applied_total_for_invoice (fst t) st' \<le> inv_total iv"
      using room t invoice_room_eq [OF assms(1) iv] tot [of "fst t"] amt apps by (fastforce simp: applied_total_for_invoice_def)
    then show ?thesis using within_totalI [OF ok _ _ rows] find_target_Some [OF iv] amt by blast
  qed
  have "bp_allocated r = total_allocated_for_payment pid st' \<and> bp_unallocated r = bp_amount r - bp_allocated r
      \<and> 0 \<le> bp_unallocated r"
    using books_payment_amounts [OF ok, of r] get_by_id_Some [OF r] by simp
  then show ?thesis using ts tot each pay by auto
qed

lemma allocation_stays_within_limits_witness:
  "\<exists>st' r. add_or_revise_allocations 20 ''p1'' sample_allocations None None sample_billing = Inr (st', r)
     \<and> bp_allocated r + bp_unallocated r = bp_amount r"
proof -
  obtain st' r where run: "add_or_revise_allocations 20 ''p1'' sample_allocations None None sample_billing = Inr (st', r)"
    using sample_allocated unfolding result_ok by auto
  then show ?thesis using allocation_stays_within_limits [OF sample_billing_ok run] by blast
qed

text \<open>Replacing the allocations of a payment sets exactly the requested amounts: afterwards
  every invoice holds from this payment what was asked for it (nothing when it was not listed),
  the allocations of every other payment are as they were, and no listed invoice is over-allocated,
  whatever the payment had allocated before.\<close>

theorem replace_sets_exact_targets:
  assumes "books_ok st" and "replace_allocations today pid allocations actor_id ctx st = Inr (st', r)"
  shows "\<exists>ts. normalize_allocations allocations = Inr ts
    \<and> (\<forall>i. allocated_pair pid i st' = amount_for ts i)
    \<and> (\<forall>q i. q \<noteq> pid \<longrightarrow> allocated_pair q i st' = allocated_pair q i st)
    \<and> (\<forall>t \<in> set ts. within_total (fst t) st')"
proof -
  obtain ts where ts: "normalize_allocations allocations = Inr ts \<and> books_ok st' \<and> kept st st'
      \<and> (\<forall>q i. allocated_pair q i st' = (if q = pid then amount_for ts i else allocated_pair q i st))
      \<and> (\<forall>t \<in> set ts. within_total (fst t) st')"
    using replaced_books [OF assms] ..
  then show ?thesis by (intro exI [of _ ts]) simp
qed

lemma replace_sets_exact_targets_witness:
  "\<exists>st' r ts. replace_allocations 20 ''p1'' sample_allocations None None sample_billing = Inr (st', r)
     \<and> normalize_allocations sample_allocations = Inr ts \<and> allocated_pair ''p1'' ''i1'' st' = amount_for ts ''i1''"
proof -
  obtain st' r where run: "replace_allocations 20 ''p1'' sample_allocations None None sample_billing = Inr (st', r)"
    using sample_replaced unfolding result_ok by auto
  obtain ts where ts: "normalize_allocations sample_allocations = Inr ts
      \<and> (\<forall>i. allocated_pair ''p1'' i st' = amount_for ts i)
      \<and> (\<forall>q i. q \<noteq> ''p1'' \<longrightarrow> allocated_pair q i st' = allocated_pair q i sample_billing)
      \<and> (\<forall>t \<in> set ts. within_total (fst t) st')"
    using replace_sets_exact_targets [OF sample_billing_ok run] ..
  with run show ?thesis by (intro exI [of _ st'] exI [of _ r] exI [of _ ts]) simp
qed

text \<open>Removing the allocation of a payment to one invoice takes away that allocation only:
  afterwards the pair holds nothing, and what the payment gives any other invoice and what any
  other payment gives is unchanged, although the service deletes and rewrites all rows of the payment.\<close>

theorem remove_takes_one_allocation:
  assumes "books_ok st" and "remove_allocation today pid invoice_id actor_id ctx st = Inr (st', r)"
  shows "\<forall>q i. allocated_pair q i st' = (if q = pid \<and> i = strip invoice_id then 0 else allocated_pair q i st)"
  using removed_books [OF assms] by blast

lemma remove_takes_one_allocation_witness:
  "\<exists>st st' r. remove_allocation 20 ''p1'' ''i1'' None None st = Inr (st', r)
     \<and> allocated_pair ''p1'' ''i1'' st' = 0 \<and> allocated_pair ''p1'' ''i2'' st' = allocated_pair ''p1'' ''i2'' st"
proof -
  obtain st r st' r' where run: "replace_allocations 20 ''p1'' sample_allocations None None sample_billing = Inr (st, r)"
    "remove_allocation 20 ''p1'' ''i1'' None None st = Inr (st', r')"
    using sample_replaced unfolding result_ok by auto
  have ok: "books_ok st" using replaced_books [OF sample_billing_ok run(1)] by blast
  have "strip ''i1'' = ''i1''" by code_simp
  with remove_takes_one_allocation [OF ok run(2)]
  have "allocated_pair ''p1'' ''i1'' st' = 0 \<and> allocated_pair ''p1'' ''i2'' st' = allocated_pair ''p1'' ''i2'' st" by simp
  with run(2) show ?thesis by blast
qed

end
