(* ===== verification/CreditNotes.thy ===== *)
theory CreditNotes
  imports Invoices
begin

text \<open>
  Credit notes, \<^verbatim>\<open>app/modules/billing/service.py\<close>: issuing one, applying it to an invoice, and
  voiding it, which bills the applied credit again on a reversal invoice
  (\<^verbatim>\<open>create_reversal_for_credit_note_void\<close> of the invoice service). The users table is an
  argument: the role and the organisation of a user by id. Numbers and ids of new rows are arguments.
\<close>

subsection \<open>Customers\<close>

record user_row =
  us_role :: string
  us_org :: "string option"

fun remove_all :: "string \<Rightarrow> nat \<Rightarrow> string \<Rightarrow> string" where
  \<comment> \<open>\<^verbatim>\<open>s.replace(needle, "")\<close>, with the number of characters still to skip\<close>
  "remove_all needle skip [] = []"
| "remove_all needle (Suc k) (c # cs) = remove_all needle k cs"
| "remove_all needle 0 (c # cs) =
     (if take (length needle) (c # cs) = needle then remove_all needle (length needle - 1) cs
      else c # remove_all needle 0 cs)"

definition is_hex :: "char \<Rightarrow> bool" where
  "is_hex c = (let n = of_char c :: nat in 48 \<le> n \<and> n \<le> 57 \<or> 65 \<le> n \<and> n \<le> 70 \<or> 97 \<le> n \<and> n \<le> 102)"

fun hex_digits :: "string \<Rightarrow> bool" where
  \<comment> \<open>digits with single underscores between them\<close>
  "hex_digits [] = False"
| "hex_digits [c] = is_hex c"
| "hex_digits (c # d # cs) = (is_hex c \<and> (if d = CHR ''_'' then hex_digits cs else hex_digits (d # cs)))"

definition py_int_hex :: "string \<Rightarrow> bool" where
  \<comment> \<open>\<^verbatim>\<open>int(s, 16)\<close> accepts the text: white space around it, a sign, a prefix\<close>
  "py_int_hex s =
     (let t = strip s;
          u = (case t of c # cs \<Rightarrow> if c = CHR ''+'' \<or> c = CHR ''-'' then cs else t | [] \<Rightarrow> []);
          v = (if take 2 u = ''0x'' \<or> take 2 u = ''0X''
               then (case drop 2 u of c # cs \<Rightarrow> if c = CHR ''_'' then cs else drop 2 u | [] \<Rightarrow> [])
               else u)
      in hex_digits v)"

definition strip_braces :: "string \<Rightarrow> string" where
  "strip_braces s = rev (dropWhile (\<lambda>c. c = CHR ''{'' \<or> c = CHR ''}'')
     (rev (dropWhile (\<lambda>c. c = CHR ''{'' \<or> c = CHR ''}'') s)))"

definition is_uuid :: "string \<Rightarrow> bool" where
  \<comment> \<open>the constructor \<^verbatim>\<open>UUID(text)\<close> of the standard library does not raise; its range check cannot
     fail on 32 characters, and a negative number needs a sign\<close>
  "is_uuid s =
     (let h = filter (\<lambda>c. c \<noteq> CHR ''-'') (strip_braces (remove_all ''uuid:'' 0 (remove_all ''urn:'' 0 s)))
      in length h = 32 \<and> py_int_hex h)"

definition validate_b2b_customer_in_org :: "(string \<Rightarrow> user_row option) \<Rightarrow> string \<Rightarrow> string \<Rightarrow> unit result" where
  "validate_b2b_customer_in_org users customer_id org =
     (let uid = strip customer_id in
      if uid = '''' then Inl (ValidationError ''customer_id is required'')
      else if \<not> is_uuid uid then Inl (ValidationError ''Invalid customer_id'')
      else case users uid of
        None \<Rightarrow> Inl (NotFoundError ''customer'' uid)
      | Some u \<Rightarrow>
          if us_role u \<noteq> ''CUSTOMER_B2B''
          then Inl (ValidationError ''customer_id must reference a CUSTOMER_B2B user'')
          else if str_or (us_org u) '''' \<noteq> org
          then Inl (ValidationError ''customer_id does not belong to this organisation'')
          else Inr ())"

definition invoice_in_org :: "string \<Rightarrow> invoice \<Rightarrow> bool" where
  "invoice_in_org org i \<longleftrightarrow> inv_org i = Some org"

definition note_in_org :: "string \<Rightarrow> credit_note \<Rightarrow> bool" where
  "note_in_org org c \<longleftrightarrow> cn_org c = Some org"

definition resolve_credit_note_customer_id :: "credit_note \<Rightarrow> string \<Rightarrow> billing_state \<Rightarrow> string option" where
  "resolve_credit_note_customer_id cn org st =
     (let cid = strip (str_or (cn_customer cn) '''') in
      if cid \<noteq> '''' then Some cid
      else if truthy_str (cn_source_invoice cn) then
        (case get_by_id (the (cn_source_invoice cn)) (invoice_in_org org) (bs_invoices st) of
           None \<Rightarrow> None
         | Some i \<Rightarrow> if truthy_str (inv_customer i) then inv_customer i else None)
      else None)"

definition credit_note_portal_status :: "credit_note_status \<Rightarrow> rat \<Rightarrow> rat \<Rightarrow> string" where
  "credit_note_portal_status status applied_total total_credit_amount =
     (if status = CN_VOIDED \<or> status = CN_WRITTEN_OFF then ''VOID''
      else if applied_total \<le> 0 then ''OPEN''
      else if quantize_half_up (total_credit_amount - applied_total) \<le> 0 then ''FULLY_APPLIED''
      else ''PARTIALLY_APPLIED'')"

subsection \<open>Issuing\<close>

definition insert_credit_note :: "credit_note \<Rightarrow> billing_state \<Rightarrow> billing_state result" where
  \<comment> \<open>the primary key and the unique number\<close>
  "insert_credit_note c st =
     (if cn_number c \<in> cn_number ` set (bs_credit_notes st) then Inl (IntegrityError ''credit_note_number'')
      else bind_result (create_row c (bs_credit_notes st)) (\<lambda>rows. Inr (st\<lparr>bs_credit_notes := rows\<rparr>)))"

definition create_credit_note ::
    "(string \<Rightarrow> user_row option) \<Rightarrow> string \<Rightarrow> string option \<Rightarrow> string option \<Rightarrow> int \<Rightarrow> rat \<Rightarrow> string \<Rightarrow> string option
     \<Rightarrow> string \<Rightarrow> string \<Rightarrow> billing_state \<Rightarrow> (billing_state \<times> credit_note) result" where
  "create_credit_note users org source_invoice_id customer_id issue_date amount reason_category reason new_id number st =
     (let amt = quantize_half_up amount in
      if amt \<le> 0 then Inl (ValidationError ''amount must be greater than 0'')
      else
        let resolved = str_or_none (strip (str_or customer_id '''')) in
        bind_result (case resolved of None \<Rightarrow> Inr ()
                     | Some uid \<Rightarrow> validate_b2b_customer_in_org users uid org) (\<lambda>_.
        bind_result (if truthy_str source_invoice_id
                     then map_sum id Some (get_by_id_or_404 ''invoice'' (the source_invoice_id) (invoice_in_org org)
                                             (bs_invoices st))
                     else Inr None) (\<lambda>source.
        let c = \<lparr>rid = new_id, version = 1, cn_number = number, cn_org = Some org,
              cn_customer = (if resolved \<noteq> None then resolved else Option.bind source inv_customer),
              cn_source_invoice = map_option rid source, cn_issue_date = issue_date, cn_total = amt,
              cn_status = CN_ISSUED, cn_reason_category = reason_category, cn_reason = reason,
              cn_reversal_invoice = None\<rparr>
        in bind_result (insert_credit_note c st) (\<lambda>st1. Inr (st1, c)))))"

subsection \<open>Applying\<close>

definition apply_credit_note_auto ::
    "int \<Rightarrow> string \<Rightarrow> string \<Rightarrow> string \<Rightarrow> string option \<Rightarrow> string option \<Rightarrow> bool \<Rightarrow> billing_state
     \<Rightarrow> (billing_state \<times> credit_application) result" where
  "apply_credit_note_auto today credit_note_id invoice_id org actor_id customer_id b2b_org_scope st =
     (case get_by_id credit_note_id (note_in_org org) (bs_credit_notes st) of
        None \<Rightarrow> Inl (NotFoundError ''credit_note'' credit_note_id)
      | Some cn \<Rightarrow>
      if (if b2b_org_scope then str_or (cn_org cn) '''' \<noteq> org else customer_id \<noteq> None \<and> cn_customer cn \<noteq> customer_id)
      then Inl (NotFoundError ''credit_note'' credit_note_id)
      else if cn_status cn = CN_VOIDED \<or> cn_status cn = CN_WRITTEN_OFF
      then Inl (ValidationError ''Credit note is not applicable'')
      else if cn_status cn \<noteq> CN_ISSUED then Inl (ValidationError ''Only ISSUED credit notes can be applied'')
      else
      case get_by_id invoice_id (invoice_in_org org) (bs_invoices st) of
        None \<Rightarrow> Inl (NotFoundError ''invoice'' invoice_id)
      | Some iv \<Rightarrow>
      if inv_status iv \<noteq> SENT then Inl (ValidationError ''Only SENT invoices can receive credit'')
      else if latest_outcome (rid iv) st \<noteq> None then Inl (ValidationError ''Invoice is not applicable for credit'')
      else
      case resolve_credit_note_customer_id cn org st of
        None \<Rightarrow> Inl (ValidationError ''Credit note has no customer; link a source invoice or assign a customer before applying credit'')
      | Some customer \<Rightarrow>
      if inv_customer iv \<noteq> Some customer then Inl (ValidationError ''Invoice does not match the credit note customer'')
      else
        let credit_remaining = quantize_half_up (cn_total cn - quantize_half_up (applied_total_for_credit_note (rid cn) st));
            paid = quantize_half_up (total_allocated_for_invoice (rid iv) st);
            credited = quantize_half_up (applied_total_for_invoice (rid iv) st);
            outstanding = quantize_half_up (inv_total iv - credited - paid);
            amount = quantize_half_up (min credit_remaining outstanding)
        in if amount \<le> 0 then Inl (ValidationError ''Nothing to apply'')
        else
          let app = \<lparr>ia_invoice_id = rid iv, ia_credit_note_id = rid cn, ia_amount = amount,
                ia_applied_at = today, ia_by = actor_id\<rparr>;
              st1 = append_invoice_event (rid iv) EV_CREDIT_APPLIED
                (Some (''Credit note '' @ cn_number cn @ '' applied: '' @ decimal_text amount))
                \<lparr>ax_user = actor_id, ax_role = Some ''CUSTOMER_B2B''\<rparr>
                (st\<lparr>bs_applications := bs_applications st @ [app]\<rparr>)
          in bind_result (recompute_invoice_projection today (rid iv) st1) (\<lambda>(st2, _). Inr (st2, app)))"

subsection \<open>Voiding\<close>

definition default_vat_rate :: rat where
  "default_vat_rate = 20"

definition reversal_line_item_description :: "string \<Rightarrow> rat \<Rightarrow> string \<Rightarrow> string" where
  "reversal_line_item_description number applied_gross void_reason =
     take 255 (''Reversal of credit note '' @ number @ '' (applied GBP '' @ decimal_text applied_gross
       @ ''). Void reason: '' @ strip void_reason)"

definition create_reversal_for_credit_note_void ::
    "int \<Rightarrow> credit_note \<Rightarrow> rat \<Rightarrow> string \<Rightarrow> actor \<Rightarrow> string \<Rightarrow> string \<Rightarrow> billing_state \<Rightarrow> (billing_state \<times> invoice) result" where
  "create_reversal_for_credit_note_void today cn applied_total void_reason ax new_id number st =
     (if \<not> truthy_str (cn_org cn) then Inl (ValidationError ''Credit note must belong to an organization'')
      else if \<not> truthy_str (cn_customer cn)
      then Inl (ValidationError ''Credit note must have customer_id before void with applications'')
      else
        let gross = quantize_half_up applied_total;
            (subtotal, vat_amount, total) = split_vat_from_gross gross default_vat_rate;
            note = take 2000 (''Reversal of credit note '' @ cn_number cn @ ''. Void reason: '' @ strip void_reason);
            d = \<lparr>nd_order_id = None, nd_org = cn_org cn, nd_customer = cn_customer cn, nd_issue_date = today,
              nd_due_date = today, nd_subtotal = subtotal, nd_vat_rate = default_vat_rate,
              nd_vat_amount = vat_amount, nd_total = total, nd_notes = Some note, nd_contact_email = None\<rparr>;
            line = \<lparr>ld_package_id = None,
              ld_description = reversal_line_item_description (cn_number cn) gross (strip void_reason),
              ld_quantity = 1, ld_unit_price = subtotal, ld_total_price = subtotal, ld_line_type = ''service''\<rparr>
        in
        bind_result (create_and_finalize d ax False new_id number st) (\<lambda>(st1, i).
        let st2 = enqueue_qb_invoice_sync (cn_org cn) (rid i) ''billing.void_credit_note_reversal''
                    (replace_line_items (rid i) [line] st1) in
        bind_result (get_by_id_or_404 ''invoice'' (rid i) (\<lambda>v. inv_org v = cn_org cn) (bs_invoices st2)) (\<lambda>v.
        Inr (st2, v))))"

definition announce_void ::
    "string \<Rightarrow> string \<Rightarrow> string option \<Rightarrow> string \<Rightarrow> actor \<Rightarrow> billing_state \<Rightarrow> billing_state" where
  \<comment> \<open>the audit entry, only for a known actor, and the job for QuickBooks\<close>
  "announce_void org credit_note_id reversal reason_clean ax st =
     (let st1 = (if truthy_str (ax_user ax) then
                   billing_audit (if reversal = None then ''billing.credit_note.voided''
                                  else ''billing.credit_note.voided_with_reversal'')
                     credit_note_id \<lparr>ax_user = ax_user ax, ax_role = Some (str_or (ax_role ax) ''ADMIN'')\<rparr>
                     (Some reason_clean) ''WARNING'' st
                 else st)
      in push_job (case reversal of None \<Rightarrow> QbVoidCreditNote org credit_note_id
                   | Some i \<Rightarrow> QbVoidCreditNoteChain org credit_note_id i) st1)"

definition void_credit_note ::
    "int \<Rightarrow> string \<Rightarrow> string \<Rightarrow> string option \<Rightarrow> actor \<Rightarrow> string \<Rightarrow> string \<Rightarrow> billing_state
     \<Rightarrow> (billing_state \<times> credit_note) result" where
  "void_credit_note today credit_note_id org reason ax new_id number st =
     bind_result (get_by_id_or_404 ''credit_note'' credit_note_id (note_in_org org) (bs_credit_notes st)) (\<lambda>cn.
     if cn_status cn = CN_VOIDED \<or> cn_status cn = CN_WRITTEN_OFF then Inr (st, cn)
     else
       let reason_clean = strip (str_or reason ''Credit note voided'') in
       if reason_clean = '''' then Inl (ValidationError ''reason is required for void'')
       else
         let applied_total = quantize_half_up (applied_total_for_credit_note (rid cn) st) in
         bind_result (if 0 < applied_total
                      then map_sum id (\<lambda>(st1, i). (st1, Some (rid i)))
                             (create_reversal_for_credit_note_void today cn applied_total reason_clean ax new_id number st)
                      else Inr (st, None)) (\<lambda>(st1, reversal).
         bind_result (update_credit_note (rid cn)
             (\<lambda>r. r\<lparr>cn_status := CN_VOIDED,
                cn_reversal_invoice := (if reversal = None then cn_reversal_invoice r else reversal)\<rparr>)
             (version cn) (note_in_org org) st1) (\<lambda>(st2, updated).
         Inr (announce_void org (rid updated) reversal reason_clean ax st2, updated))))"

subsection \<open>The books\<close>

lemma apply_credit_note_cases:
  assumes "books_ok st" and "apply_credit_note_auto today cnid invid org actor customer b2b st = Inr (st', a)"
  obtains cn iv r st1 where "get_by_id cnid (note_in_org org) (bs_credit_notes st) = Some cn" "cn_status cn = CN_ISSUED"
    "get_by_id invid (invoice_in_org org) (bs_invoices st) = Some iv" "inv_status iv = SENT"
    "latest_outcome invid st = None"
    "inv_customer iv = resolve_credit_note_customer_id cn org st"
    "a = \<lparr>ia_invoice_id = invid, ia_credit_note_id = cnid, ia_amount =
       min (cn_total cn - applied_total_for_credit_note cnid st)
           (inv_total iv - applied_total_for_invoice invid st - total_allocated_for_invoice invid st),
       ia_applied_at = today, ia_by = actor\<rparr>"
    "0 < ia_amount a" "is_money (ia_amount a)"
    "st1 = append_invoice_event invid EV_CREDIT_APPLIED
       (Some (''Credit note '' @ cn_number cn @ '' applied: '' @ decimal_text (ia_amount a)))
       \<lparr>ax_user = actor, ax_role = Some ''CUSTOMER_B2B''\<rparr> (st\<lparr>bs_applications := bs_applications st @ [a]\<rparr>)"
    "recompute_invoice_projection today invid st1 = Inr (st', r)"
proof -
  note run = assms(2) [unfolded apply_credit_note_auto_def]
  obtain cn where cn: "get_by_id cnid (note_in_org org) (bs_credit_notes st) = Some cn"
    using run by (auto split: option.splits)
  have status: "cn_status cn = CN_ISSUED" using run cn by (auto split: if_splits)
  obtain iv where iv: "get_by_id invid (invoice_in_org org) (bs_invoices st) = Some iv"
    using run cn by (auto split: if_splits option.splits)
  have ids: "rid cn = cnid" "rid iv = invid" "cn \<in> set (bs_credit_notes st)" "iv \<in> set (bs_invoices st)"
    using get_by_id_Some [OF cn] get_by_id_Some [OF iv] by simp_all
  have m: "is_money (cn_total cn)" "is_money (inv_total iv)"
    using assms(1) ids by (auto simp: books_but_def note_ok_def)
  have open_st: "inv_status iv = SENT" "latest_outcome invid st = None"
    "inv_customer iv = resolve_credit_note_customer_id cn org st"
    using run cn iv ids by (auto split: if_splits option.splits)
  let ?amt = "min (cn_total cn - applied_total_for_credit_note cnid st)
           (inv_total iv - applied_total_for_invoice invid st - total_allocated_for_invoice invid st)"
  have amt: "is_money ?amt" using m books_totals(1,7,9) [OF assms(1)] by simp
  have q: "quantize_half_up (min (quantize_half_up (cn_total cn - quantize_half_up (applied_total_for_credit_note cnid st)))
      (quantize_half_up (inv_total iv - quantize_half_up (applied_total_for_invoice invid st)
         - quantize_half_up (total_allocated_for_invoice invid st)))) = ?amt"
    using m books_totals(1,7,9) [OF assms(1)] by simp
  let ?app = "\<lparr>ia_invoice_id = invid, ia_credit_note_id = cnid, ia_amount = ?amt, ia_applied_at = today, ia_by = actor\<rparr>"
  let ?st1 = "append_invoice_event invid EV_CREDIT_APPLIED
       (Some (''Credit note '' @ cn_number cn @ '' applied: '' @ decimal_text ?amt))
       \<lparr>ax_user = actor, ax_role = Some ''CUSTOMER_B2B''\<rparr> (st\<lparr>bs_applications := bs_applications st @ [?app]\<rparr>)"
  have scope: "(if b2b then str_or (cn_org cn) '''' \<noteq> org else customer \<noteq> None \<and> cn_customer cn \<noteq> customer) = False"
    using run cn by (auto split: if_splits)
  obtain x where x: "resolve_credit_note_customer_id cn org st = Some x"
    using run cn iv status scope open_st ids by (auto split: if_splits option.splits)
  have "(if ?amt \<le> 0 then Inl (ValidationError ''Nothing to apply'')
      else bind_result (recompute_invoice_projection today invid ?st1) (\<lambda>(st2, _). Inr (st2, ?app))) = Inr (st', a)"
    using run unfolding cn iv x option.case scope if_False Let_def ids(1,2) q
    by (simp only: status open_st x ids q credit_note_status.distinct simp_thms if_False if_True not_True_eq_False
        not_False_eq_True cong: if_cong)
  then obtain r where pos: "\<not> ?amt \<le> 0" and a: "a = ?app"
    and fin: "recompute_invoice_projection today invid ?st1 = Inr (st', r)"
    by (auto split: if_splits)
  have amount: "ia_amount a = ?amt" by (simp add: a)
  have "recompute_invoice_projection today invid (append_invoice_event invid EV_CREDIT_APPLIED
       (Some (''Credit note '' @ cn_number cn @ '' applied: '' @ decimal_text (ia_amount a)))
       \<lparr>ax_user = actor, ax_role = Some ''CUSTOMER_B2B''\<rparr> (st\<lparr>bs_applications := bs_applications st @ [a]\<rparr>)) = Inr (st', r)"
    using fin unfolding amount unfolding a .
  moreover have "0 < ia_amount a" "is_money (ia_amount a)" unfolding amount using pos amt by (simp_all only: not_le)
  ultimately show thesis using that [OF cn status iv open_st a _ _ refl] by blast
qed

lemma apply_credit_opened:
  assumes books: "books_ok st"
    and cn: "get_by_id cnid (note_in_org org) (bs_credit_notes st) = Some cn"
    and iv: "get_by_id invid (invoice_in_org org) (bs_invoices st) = Some iv" "inv_status iv = SENT"
    and a: "a = \<lparr>ia_invoice_id = invid, ia_credit_note_id = cnid, ia_amount =
       min (cn_total cn - applied_total_for_credit_note cnid st)
           (inv_total iv - applied_total_for_invoice invid st - total_allocated_for_invoice invid st),
       ia_applied_at = today, ia_by = actor\<rparr>"
    and amt: "0 < ia_amount a" "is_money (ia_amount a)"
    and st1: "st1 = append_invoice_event invid EV_CREDIT_APPLIED reason ax (st\<lparr>bs_applications := bs_applications st @ [a]\<rparr>)"
  shows "books_ok st1 \<and> kept st st1"
proof -
  let ?st0 = "st\<lparr>bs_applications := bs_applications st @ [a]\<rparr>"
  note cns = get_by_id_Some [OF cn] and ivs = get_by_id_Some [OF iv(1)]
  have b0: "books_ok ?st0"
  proof (rule books_append_application [OF books])
    show "application_ok (bs_invoices st) (bs_credit_notes st) a"
      unfolding application_ok_def using cns ivs iv(2) amt by (auto simp: a)
    fix n
    assume n: "n \<in> set (bs_credit_notes st)" "rid n = ia_credit_note_id a"
    then have "n = cn" using distinct_ids_unique [OF books_distinct(3) [OF books]] cns by (simp add: a)
    then show "applied_total_for_credit_note (rid n) st + ia_amount a \<le> cn_total n" using cns by (simp add: a)
  qed
  have "kept st ?st0" by (rule kept_same) simp_all
  moreover have "books_ok st1 \<and> kept ?st0 st1" unfolding st1
    by (rule books_opening_event [OF b0]) (use ivs in \<open>auto simp: image_iff\<close>)
  ultimately show ?thesis using kept_trans by blast
qed

lemma apply_credit_keeps: "keeps_books (apply_credit_note_auto today cnid invid org actor customer b2b)"
proof (rule keeps_booksI)
  fix st st' a
  assume books: "books_ok st" and run: "apply_credit_note_auto today cnid invid org actor customer b2b st = Inr (st', a)"
  show "books_ok st' \<and> kept st st'"
    using books run
  proof (rule apply_credit_note_cases)
    fix cn iv r st1
    assume cn: "get_by_id cnid (note_in_org org) (bs_credit_notes st) = Some cn"
      and iv: "get_by_id invid (invoice_in_org org) (bs_invoices st) = Some iv" "inv_status iv = SENT"
      and a: "a = \<lparr>ia_invoice_id = invid, ia_credit_note_id = cnid, ia_amount =
         min (cn_total cn - applied_total_for_credit_note cnid st)
             (inv_total iv - applied_total_for_invoice invid st - total_allocated_for_invoice invid st),
         ia_applied_at = today, ia_by = actor\<rparr>"
      and amt: "0 < ia_amount a" "is_money (ia_amount a)"
      and st1: "st1 = append_invoice_event invid EV_CREDIT_APPLIED
         (Some (''Credit note '' @ cn_number cn @ '' applied: '' @ decimal_text (ia_amount a)))
         \<lparr>ax_user = actor, ax_role = Some ''CUSTOMER_B2B''\<rparr> (st\<lparr>bs_applications := bs_applications st @ [a]\<rparr>)"
      and rec: "recompute_invoice_projection today invid st1 = Inr (st', r)"
    have "books_ok st1 \<and> kept st st1" by (rule apply_credit_opened [OF books cn iv a amt st1])
    then show ?thesis
      using books_recompute_invoice [OF _ rec, of "{}" "{}"] kept_recompute_invoice [OF _ rec, of "{}" "{}"] kept_trans
      by (metis Diff_empty empty_Diff)
  qed
qed

lemma create_credit_note_keeps:
  "keeps_books (create_credit_note users org source customer issue_date amount category reason new_id number)"
proof (rule keeps_booksI)
  fix st st' c
  assume books: "books_ok st"
    and run: "create_credit_note users org source customer issue_date amount category reason new_id number st = Inr (st', c)"
  have "insert_credit_note c st = Inr st'" "cn_total c = quantize_half_up amount" "0 < cn_total c"
    using run by (auto simp: create_credit_note_def Let_def split: if_splits)
  then have "rid c \<notin> rid ` set (bs_credit_notes st)" "st' = st\<lparr>bs_credit_notes := bs_credit_notes st @ [c]\<rparr>"
    "is_money (cn_total c)" "0 \<le> cn_total c"
    by (auto simp: insert_credit_note_def create_row_Inr split: if_splits)
  then show "books_ok st' \<and> kept st st'" using books_insert_note [OF books] by (simp add: kept_same)
qed

lemma split_vat_default:
  "is_money gross \<Longrightarrow> 0 \<le> gross \<Longrightarrow>
   \<exists>s v. split_vat_from_gross gross default_vat_rate = (s, v, gross) \<and> is_money s \<and> is_money v \<and> s + v = gross
     \<and> \<bar>s - gross / (6 / 5)\<bar> \<le> 1 / 200"
  unfolding split_vat_from_gross_def default_vat_rate_def
  using quantize_half_even_error [of "gross / (6 / 5)"] by (simp add: Let_def)

lemma reversal_cases:
  assumes books: "books_ok st" and money: "is_money applied" "0 \<le> applied"
    and run: "create_reversal_for_credit_note_void today cn applied reason ax new_id number st = Inr (st', v)"
  obtains iv s where "truthy_str (cn_org cn)" "truthy_str (cn_customer cn)" "new_id \<notin> rid ` set (bs_invoices st)"
    "bs_invoices st' = bs_invoices st @ [iv]" "rid iv = new_id" "v = iv" "inv_status iv = SENT" "inv_total iv = applied"
    "inv_subtotal iv + inv_vat_amount iv = applied" "inv_paid_amount iv = 0" "inv_payment_status iv = UNPAID"
    "inv_org iv = cn_org cn" "inv_customer iv = cn_customer cn" "inv_order_id iv = None"
    "filter (\<lambda>l. li_invoice_id l = new_id) (bs_lines st') = [s]" "li_total_price s = inv_subtotal iv"
    "bs_applications st' = bs_applications st" "bs_credit_notes st' = bs_credit_notes st"
    "bs_allocations st' = bs_allocations st" "books_ok st'" "kept st st'"
proof -
  obtain s v0 where split: "split_vat_from_gross applied default_vat_rate = (s, v0, applied)"
    and sv: "is_money s" "is_money v0" "s + v0 = applied"
    using split_vat_default [OF money] by blast
  let ?d = "\<lparr>nd_order_id = None, nd_org = cn_org cn, nd_customer = cn_customer cn, nd_issue_date = today,
      nd_due_date = today, nd_subtotal = s, nd_vat_rate = default_vat_rate, nd_vat_amount = v0, nd_total = applied,
      nd_notes = Some (take 2000 (''Reversal of credit note '' @ cn_number cn @ ''. Void reason: '' @ strip reason)),
      nd_contact_email = None\<rparr>"
  let ?line = "\<lparr>ld_package_id = None, ld_description = reversal_line_item_description (cn_number cn) applied (strip reason),
      ld_quantity = 1, ld_unit_price = s, ld_total_price = s, ld_line_type = ''service''\<rparr>"
  let ?new = "new_invoice ?d SENT (truthy_str (cn_org cn)) new_id number"
  have t: "truthy_str (cn_org cn)" "truthy_str (cn_customer cn)"
    using run by (auto simp: create_reversal_for_credit_note_void_def split: if_splits)
  obtain st1 i where cf: "create_and_finalize ?d ax False new_id number st = Inr (st1, i)"
    and st': "st' = enqueue_qb_invoice_sync (cn_org cn) (rid i) ''billing.void_credit_note_reversal''
        (replace_line_items (rid i) [?line] st1)"
    and v: "get_by_id (rid i) (\<lambda>v. inv_org v = cn_org cn) (bs_invoices st1) = Some v"
    using run t split money
    by (auto simp: create_reversal_for_credit_note_void_def Let_def enqueue_qb_invoice_sync_def push_job_def books_simps
        split: if_splits)
  obtain st0 where ins: "insert_invoice ?new st = Inr st0" "i = ?new"
    using cf by (auto simp: create_and_finalize_def Let_def)
  have fresh: "new_id \<notin> rid ` set (bs_invoices st)" and st0: "st0 = st\<lparr>bs_invoices := bs_invoices st @ [?new]\<rparr>"
    using ins(1) by (auto simp: insert_invoice_def create_row_Inr new_invoice_def split: if_splits)
  have st1: "bs_invoices st1 = bs_invoices st @ [?new]" "bs_applications st1 = bs_applications st"
    "bs_credit_notes st1 = bs_credit_notes st" "bs_allocations st1 = bs_allocations st"
    using cf ins st0 by (auto simp: create_and_finalize_def Let_def billing_audit_def split: if_splits)
  have rid_new: "rid ?new = new_id" by (simp add: new_invoice_def)
  have "get_by_id new_id (\<lambda>v. inv_org v = cn_org cn) (bs_invoices st) = None"
    using fresh by (auto simp: get_by_id_None)
  then have veq: "v = ?new" using v ins(2) rid_new by (simp add: st1 new_invoice_def)
  have keep: "books_ok st' \<and> kept st st'"
    using keeps_booksD [OF create_and_finalize_keeps cf books] by (simp add: st' books_simps)
  have tables: "bs_invoices st' = bs_invoices st @ [?new]" "bs_applications st' = bs_applications st"
    "bs_credit_notes st' = bs_credit_notes st" "bs_allocations st' = bs_allocations st"
    by (simp_all add: st' st1 books_simps enqueue_qb_invoice_sync_def push_job_def replace_line_items_def)
  have lines: "filter (\<lambda>l. li_invoice_id l = new_id) (bs_lines st') =
     [\<lparr>li_invoice_id = new_id, li_package_id = None, li_description = ld_description ?line, li_quantity = 1,
       li_unit_price = s, li_total_price = s, li_line_type = ''service''\<rparr>]"
    using sv(1) ins(2) rid_new
    by (simp add: st' enqueue_qb_invoice_sync_def push_job_def replace_line_items_def str_or_def)
  show thesis
    by (rule that [OF t fresh tables(1) rid_new veq _ _ _ _ _ _ _ _ lines _ tables(2-4)])
      (use keep sv money in \<open>simp_all add: new_invoice_def\<close>)
qed

lemma announce_void_frame [books_simps]:
  "books_but P I (announce_void org i reversal reason ax st) = books_but P I st"
  "kept st0 (announce_void org i reversal reason ax st) = kept st0 st"
  "bs_invoices (announce_void org i reversal reason ax st) = bs_invoices st"
  "bs_lines (announce_void org i reversal reason ax st) = bs_lines st"
  "bs_credit_notes (announce_void org i reversal reason ax st) = bs_credit_notes st"
  "bs_applications (announce_void org i reversal reason ax st) = bs_applications st"
  "bs_allocations (announce_void org i reversal reason ax st) = bs_allocations st"
  by (simp_all add: announce_void_def Let_def books_simps) (simp_all add: push_job_def billing_audit_def)

lemma void_credit_note_cases:
  assumes books: "books_ok st" and run: "void_credit_note today cnid org reason ax new_id number st = Inr (st', c)"
  obtains (again) "get_by_id cnid (note_in_org org) (bs_credit_notes st) = Some c" "cn_status c \<noteq> CN_ISSUED" "st' = st"
  | (unapplied) cn where "get_by_id cnid (note_in_org org) (bs_credit_notes st) = Some cn" "cn_status cn = CN_ISSUED"
      "applied_total_for_credit_note cnid st = 0" "bs_invoices st' = bs_invoices st"
      "bs_applications st' = bs_applications st" "bs_allocations st' = bs_allocations st"
      "c = write_row (\<lambda>r. r\<lparr>cn_status := CN_VOIDED, cn_reversal_invoice := cn_reversal_invoice r\<rparr>) cn"
      "bs_credit_notes st' = rewrite cnid (\<lambda>r. r\<lparr>cn_status := CN_VOIDED, cn_reversal_invoice := cn_reversal_invoice r\<rparr>)
         (bs_credit_notes st)" "books_ok st'" "kept st st'"
  | (rebilled) cn iv s where "get_by_id cnid (note_in_org org) (bs_credit_notes st) = Some cn" "cn_status cn = CN_ISSUED"
      "0 < applied_total_for_credit_note cnid st" "new_id \<notin> rid ` set (bs_invoices st)"
      "bs_invoices st' = bs_invoices st @ [iv]" "rid iv = new_id" "inv_status iv = SENT"
      "inv_total iv = applied_total_for_credit_note cnid st"
      "inv_subtotal iv + inv_vat_amount iv = inv_total iv" "inv_paid_amount iv = 0" "inv_payment_status iv = UNPAID"
      "inv_org iv = cn_org cn" "inv_customer iv = cn_customer cn" "truthy_str (cn_customer cn)"
      "filter (\<lambda>l. li_invoice_id l = new_id) (bs_lines st') = [s]" "li_total_price s = inv_subtotal iv"
      "bs_applications st' = bs_applications st" "bs_allocations st' = bs_allocations st"
      "c = write_row (\<lambda>r. r\<lparr>cn_status := CN_VOIDED, cn_reversal_invoice := Some new_id\<rparr>) cn"
      "bs_credit_notes st' = rewrite cnid (\<lambda>r. r\<lparr>cn_status := CN_VOIDED, cn_reversal_invoice := Some new_id\<rparr>)
         (bs_credit_notes st)" "books_ok st'" "kept st st'"
proof -
  obtain cn where cn: "get_by_id cnid (note_in_org org) (bs_credit_notes st) = Some cn"
    using run by (auto simp: void_credit_note_def)
  have ids: "rid cn = cnid" using get_by_id_Some [OF cn] by simp
  note sums = books_totals(9,10) [OF books, of cnid]
  show thesis
  proof (cases "cn_status cn = CN_ISSUED")
    case False
    then have "cn_status cn = CN_VOIDED \<or> cn_status cn = CN_WRITTEN_OFF" by (cases "cn_status cn") auto
    then show thesis using run cn False by (auto simp: void_credit_note_def get_by_id_or_404_def intro: again)
  next
    case issued: True
    let ?f = "\<lambda>reversal r. r\<lparr>cn_status := CN_VOIDED,
        cn_reversal_invoice := (if reversal = None then cn_reversal_invoice r else reversal)\<rparr>"
    obtain st1 reversal st2 u where
      rev: "(if 0 < applied_total_for_credit_note cnid st
             then map_sum id (\<lambda>(st1, i). (st1, Some (rid i))) (create_reversal_for_credit_note_void today cn
               (applied_total_for_credit_note cnid st) (strip (str_or reason ''Credit note voided'')) ax new_id number st)
             else Inr (st, None)) = Inr (st1, reversal)"
      and upd: "update_credit_note cnid (?f reversal) (version cn) (note_in_org org) st1 = Inr (st2, u)"
      and c: "c = u"
      and same: "bs_invoices st' = bs_invoices st2" "bs_applications st' = bs_applications st2"
        "bs_allocations st' = bs_allocations st2" "bs_credit_notes st' = bs_credit_notes st2" "bs_lines st' = bs_lines st2"
        "books_ok st' = books_ok st2" "kept st st' = kept st st2"
    proof -
      let ?reason = "strip (str_or reason ''Credit note voided'')"
      let ?tail = "\<lambda>(st1, reversal).
         bind_result (update_credit_note cnid (?f reversal) (version cn) (note_in_org org) st1) (\<lambda>(st2, updated).
         Inr (announce_void org (rid updated) reversal ?reason ax st2, updated))"
      have found: "get_by_id_or_404 ''credit_note'' cnid (note_in_org org) (bs_credit_notes st) = Inr cn" using cn by simp
      have q: "quantize_half_up (applied_total_for_credit_note cnid st) = applied_total_for_credit_note cnid st"
        using sums by simp
      have "bind_result (if 0 < applied_total_for_credit_note cnid st
             then map_sum id (\<lambda>(st1, i). (st1, Some (rid i))) (create_reversal_for_credit_note_void today cn
               (applied_total_for_credit_note cnid st) ?reason ax new_id number st)
             else Inr (st, None)) ?tail = Inr (st', c)"
        using run unfolding void_credit_note_def found bind_result_simps issued ids q Let_def
        by (simp only: credit_note_status.distinct simp_thms if_False split: if_splits) simp
      then obtain st1 reversal where
        1: "(if 0 < applied_total_for_credit_note cnid st
             then map_sum id (\<lambda>(st1, i). (st1, Some (rid i))) (create_reversal_for_credit_note_void today cn
               (applied_total_for_credit_note cnid st) ?reason ax new_id number st)
             else Inr (st, None)) = Inr (st1, reversal)" and 2: "?tail (st1, reversal) = Inr (st', c)"
        by (elim bind_result_InrE) (simp only: split_paired_all)
      obtain st2 u where 3: "update_credit_note cnid (?f reversal) (version cn) (note_in_org org) st1 = Inr (st2, u)"
        using 2 by (cases "update_credit_note cnid (?f reversal) (version cn) (note_in_org org) st1") auto
      show thesis
        by (rule that [OF 1 3])
          (use 2 3 in \<open>auto simp: books_simps\<close>)
    qed
    show thesis
    proof (cases "0 < applied_total_for_credit_note cnid st")
      case False
      then have 1: "st1 = st" "reversal = None" "applied_total_for_credit_note cnid st = 0"
        using rev sums by auto
      have f: "?f None = (\<lambda>r. r\<lparr>cn_status := CN_VOIDED, cn_reversal_invoice := cn_reversal_invoice r\<rparr>)" by (rule ext) simp
      have "update_credit_note cnid (\<lambda>r. r\<lparr>cn_status := CN_VOIDED, cn_reversal_invoice := cn_reversal_invoice r\<rparr>)
          (version cn) (note_in_org org) st = Inr (st2, u)" using upd unfolding 1(1,2) f .
      with books_distinct(3) [OF books] obtain r where
        2: "get_by_id cnid (note_in_org org) (bs_credit_notes st) = Some r"
          "st2 = st\<lparr>bs_credit_notes := rewrite cnid (\<lambda>r. r\<lparr>cn_status := CN_VOIDED,
              cn_reversal_invoice := cn_reversal_invoice r\<rparr>) (bs_credit_notes st)\<rparr>"
          "u = write_row (\<lambda>r. r\<lparr>cn_status := CN_VOIDED, cn_reversal_invoice := cn_reversal_invoice r\<rparr>) r"
        by (rule update_credit_note_cases)
      have "books_ok st2" unfolding 2(2) by (rule books_rewrite_note [OF books]) simp
      moreover have "kept st st2" unfolding 2(2) by (rule kept_same) simp_all
      ultimately show thesis using unapplied [OF cn issued 1(3)] same 2 cn c by simp
    next
      case True
      then obtain i where cr: "create_reversal_for_credit_note_void today cn (applied_total_for_credit_note cnid st)
          (strip (str_or reason ''Credit note voided'')) ax new_id number st = Inr (st1, i)" "reversal = Some (rid i)"
        using rev by (cases "create_reversal_for_credit_note_void today cn (applied_total_for_credit_note cnid st)
          (strip (str_or reason ''Credit note voided'')) ax new_id number st") auto
      show thesis
        using books sums cr(1)
      proof (rule reversal_cases)
        fix iv s
        assume new: "new_id \<notin> rid ` set (bs_invoices st)" "bs_invoices st1 = bs_invoices st @ [iv]" "rid iv = new_id"
            "i = iv" "truthy_str (cn_customer cn)"
          and row: "inv_status iv = SENT" "inv_total iv = applied_total_for_credit_note cnid st"
            "inv_subtotal iv + inv_vat_amount iv = applied_total_for_credit_note cnid st"
            "inv_paid_amount iv = 0" "inv_payment_status iv = UNPAID" "inv_org iv = cn_org cn" "inv_customer iv = cn_customer cn"
          and lines: "filter (\<lambda>l. li_invoice_id l = new_id) (bs_lines st1) = [s]" "li_total_price s = inv_subtotal iv"
          and tables: "bs_applications st1 = bs_applications st" "bs_credit_notes st1 = bs_credit_notes st"
            "bs_allocations st1 = bs_allocations st"
          and ok: "books_ok st1" "kept st st1"
        have f: "?f (Some new_id) = (\<lambda>r. r\<lparr>cn_status := CN_VOIDED, cn_reversal_invoice := Some new_id\<rparr>)" by (rule ext) simp
        have "update_credit_note cnid (\<lambda>r. r\<lparr>cn_status := CN_VOIDED, cn_reversal_invoice := Some new_id\<rparr>)
            (version cn) (note_in_org org) st1 = Inr (st2, u)" using upd unfolding cr(2) new(3,4) f .
        with books_distinct(3) [OF ok(1)] obtain r where
          2: "get_by_id cnid (note_in_org org) (bs_credit_notes st1) = Some r"
            "st2 = st1\<lparr>bs_credit_notes := rewrite cnid (\<lambda>r. r\<lparr>cn_status := CN_VOIDED,
                cn_reversal_invoice := Some new_id\<rparr>) (bs_credit_notes st1)\<rparr>"
            "u = write_row (\<lambda>r. r\<lparr>cn_status := CN_VOIDED, cn_reversal_invoice := Some new_id\<rparr>) r"
          by (rule update_credit_note_cases)
        have "books_ok st2" unfolding 2(2) by (rule books_rewrite_note [OF ok(1)]) simp
        moreover have "kept st1 st2" unfolding 2(2) by (rule kept_same) simp_all
        ultimately show thesis
          using rebilled [OF cn issued True new(1) _ new(3) row(1,2) _ row(4-7) new(5) _ lines(2)]
            kept_trans [OF ok(2)] same 2 cn c new tables row(2,3) lines by simp
      qed
    qed
  qed
qed

lemma void_credit_note_keeps: "keeps_books (void_credit_note today cnid org reason ax new_id number)"
proof (rule keeps_booksI)
  fix st st' r
  assume books: "books_ok st" and "void_credit_note today cnid org reason ax new_id number st = Inr (st', r)"
  then show "books_ok st' \<and> kept st st'" by (cases rule: void_credit_note_cases) (use books in auto)
qed

subsection \<open>A sample\<close>

definition sample_note_books :: billing_state where
  \<comment> \<open>a SENT invoice of 120 and a credit note of 50 for the same customer\<close>
  "sample_note_books = empty_billing
     \<lparr>bs_invoices := [new_invoice \<lparr>nd_order_id = None, nd_org = Some ''o1'', nd_customer = Some ''c1'', nd_issue_date = 10,
        nd_due_date = 40, nd_subtotal = 100, nd_vat_rate = 20, nd_vat_amount = 20, nd_total = 120, nd_notes = None,
        nd_contact_email = None\<rparr> SENT False ''i1'' ''INV-000001''],
      bs_credit_notes := [\<lparr>rid = ''n1'', version = 1, cn_number = ''CN-000001'', cn_org = Some ''o1'',
        cn_customer = Some ''c1'', cn_source_invoice = None, cn_issue_date = 11, cn_total = 50, cn_status = CN_ISSUED,
        cn_reason_category = ''OTHER'', cn_reason = None, cn_reversal_invoice = None\<rparr>]\<rparr>"

lemma sample_note_books_ok: "books_ok sample_note_books"
  by code_simp

lemma sample_credit_applied:
  "(case apply_credit_note_auto 12 ''n1'' ''i1'' ''o1'' None None False sample_note_books of
      Inl _ \<Rightarrow> False | Inr x \<Rightarrow> ia_amount (snd x) = 50)"
  by code_simp

lemma sample_voided:
  "(case apply_credit_note_auto 12 ''n1'' ''i1'' ''o1'' None None False sample_note_books of
      Inl _ \<Rightarrow> False
    | Inr x \<Rightarrow>
        (case void_credit_note 13 ''n1'' ''o1'' None \<lparr>ax_user = Some ''u'', ax_role = None\<rparr> ''i2'' ''INV-000002'' (fst x) of
           Inl _ \<Rightarrow> False
         | Inr y \<Rightarrow> length (bs_invoices (fst y)) = 2 \<and> length (bs_invoices (fst x)) = 1
             \<and> (case get_by_id ''n1'' (note_in_org ''o1'') (bs_credit_notes (fst x)) of
                  None \<Rightarrow> False | Some cn \<Rightarrow> cn_status cn = CN_ISSUED)))"
  by code_simp

subsection \<open>Properties\<close>

text \<open>C12: applying a credit note takes the smaller of what is left on the note and what is outstanding
  on the invoice, and at least a penny: afterwards the note is used up or the invoice is paid, payments
  and credit on the invoice stay within its total, its payment status is PAID exactly when they reach
  it, and no other note and no other invoice is credited.\<close>

theorem credit_application_exact:
  assumes books: "books_ok st" and run: "apply_credit_note_auto today cnid invid org actor customer b2b st = Inr (st', a)"
  shows "\<exists>cn \<in> set (bs_credit_notes st). \<exists>w \<in> set (bs_invoices st'). rid cn = cnid \<and> rid w = invid
    \<and> cn_status cn = CN_ISSUED \<and> 1 / 100 \<le> ia_amount a
    \<and> ia_amount a = min (cn_total cn - applied_total_for_credit_note cnid st)
        (inv_total w - applied_total_for_invoice invid st - inv_paid_amount w)
    \<and> (applied_total_for_credit_note cnid st' = cn_total cn \<or> inv_payment_status w = PAID)
    \<and> applied_total_for_credit_note cnid st' \<le> cn_total cn
    \<and> inv_paid_amount w + applied_total_for_invoice invid st' \<le> inv_total w
    \<and> (inv_payment_status w = PAID \<longleftrightarrow> inv_paid_amount w + applied_total_for_invoice invid st' = inv_total w)
    \<and> (\<forall>c. applied_total_for_credit_note c st' = applied_total_for_credit_note c st + (if c = cnid then ia_amount a else 0))
    \<and> (\<forall>i. applied_total_for_invoice i st' = applied_total_for_invoice i st + (if i = invid then ia_amount a else 0))"
  using books run
proof (rule apply_credit_note_cases)
  fix cn iv r st1
  assume cn: "get_by_id cnid (note_in_org org) (bs_credit_notes st) = Some cn" "cn_status cn = CN_ISSUED"
    and iv: "get_by_id invid (invoice_in_org org) (bs_invoices st) = Some iv" "inv_status iv = SENT"
    and open_iv: "latest_outcome invid st = None"
    and a: "a = \<lparr>ia_invoice_id = invid, ia_credit_note_id = cnid, ia_amount =
       min (cn_total cn - applied_total_for_credit_note cnid st)
           (inv_total iv - applied_total_for_invoice invid st - total_allocated_for_invoice invid st),
       ia_applied_at = today, ia_by = actor\<rparr>"
    and amt: "0 < ia_amount a" "is_money (ia_amount a)"
    and st1: "st1 = append_invoice_event invid EV_CREDIT_APPLIED
       (Some (''Credit note '' @ cn_number cn @ '' applied: '' @ decimal_text (ia_amount a)))
       \<lparr>ax_user = actor, ax_role = Some ''CUSTOMER_B2B''\<rparr> (st\<lparr>bs_applications := bs_applications st @ [a]\<rparr>)"
    and rec: "recompute_invoice_projection today invid st1 = Inr (st', r)"
  have ivs: "iv \<in> set (bs_invoices st)" "rid iv = invid" using get_by_id_Some [OF iv(1)] by simp_all
  have b1: "books_ok st1" using apply_credit_opened [OF books cn(1) iv a amt st1] ..
  have found: "get_by_id invid (\<lambda>_. True) (bs_invoices st1) = Some iv"
    using get_by_id_distinct [OF books_distinct(2) [OF books] ivs(1)] ivs(2) by (simp add: st1)
  have open1: "latest_outcome invid st1 = None"
    using open_iv by (simp add: st1 latest_outcome_def append_invoice_event_def outcome_in_append)
  have alloc: "total_allocated_for_invoice invid st1 = total_allocated_for_invoice invid st"
    by (simp add: st1 total_allocated_for_invoice_def)
  obtain w where w: "w \<in> set (bs_invoices st')" "rid w = invid" "inv_total w = inv_total iv"
      "inv_paid_amount w = total_allocated_for_invoice invid st"
    and paid: "inv_payment_status w = PAID \<longleftrightarrow>
       inv_total iv - applied_total_for_invoice invid st1 - total_allocated_for_invoice invid st \<le> 0"
    and apps: "bs_applications st' = bs_applications st1"
    using b1 rec found open1 unfolding alloc [symmetric] by (rule recompute_open_invoice)
  have tot: "applied_total_for_credit_note c st' = applied_total_for_credit_note c st + (if c = cnid then ia_amount a else 0)"
    "applied_total_for_invoice i st' = applied_total_for_invoice i st + (if i = invid then ia_amount a else 0)" for c i
    using apps by (simp_all add: st1 applied_total_for_credit_note_def applied_total_for_invoice_def a)
  have same: "applied_total_for_invoice invid st1 = applied_total_for_invoice invid st'"
    using apps by (simp add: applied_total_for_invoice_def)
  have amount: "ia_amount a = min (cn_total cn - applied_total_for_credit_note cnid st)
      (inv_total w - applied_total_for_invoice invid st - inv_paid_amount w)" by (simp add: a w)
  have penny: "1 / 100 \<le> ia_amount a" using is_money_step [OF is_money_0 amt(2,1)] by simp
  have "applied_total_for_credit_note cnid st' = cn_total cn \<or> inv_payment_status w = PAID"
    "applied_total_for_credit_note cnid st' \<le> cn_total cn"
    "inv_paid_amount w + applied_total_for_invoice invid st' \<le> inv_total w"
    using amount paid w(3,4) tot(1) [of cnid] tot(2) [of invid] unfolding same by (auto simp: min_def split: if_splits)
  then show ?thesis
    using get_by_id_Some [OF cn(1)] cn(2) w(1,2) penny amount tot paid w(3,4) unfolding same
    by (intro bexI [of _ cn] bexI [of _ w] conjI allI) auto
qed

lemma credit_application_exact_witness:
  "\<exists>st' a. apply_credit_note_auto 12 ''n1'' ''i1'' ''o1'' None None False sample_note_books = Inr (st', a)
     \<and> applied_total_for_credit_note ''n1'' st' \<le> 50"
proof -
  obtain st' a where run: "apply_credit_note_auto 12 ''n1'' ''i1'' ''o1'' None None False sample_note_books = Inr (st', a)"
    using sample_credit_applied unfolding result_ok by auto
  have "cn_total cn = 50" if "cn \<in> set (bs_credit_notes sample_note_books)" for cn
    using that by (simp add: sample_note_books_def)
  then show ?thesis using credit_application_exact [OF sample_note_books_ok run] run by metis
qed

text \<open>Voiding an issued credit note bills exactly the credit that was applied. The note is VOIDED;
  if nothing was applied no invoice appears; otherwise one new SENT, unpaid invoice of the note's
  customer and organisation does, with the applied credit as its total, split into subtotal and VAT
  without a missing penny, and the note refers to it. The applications stay, so every other invoice
  keeps its credit; voiding again changes nothing and the note can never be applied again.\<close>

theorem void_rebills_applied_credit:
  assumes books: "books_ok st" and cn: "get_by_id cnid (note_in_org org) (bs_credit_notes st) = Some cn"
    and issued: "cn_status cn = CN_ISSUED"
    and run: "void_credit_note today cnid org reason ax new_id number st = Inr (st', c)"
  shows "cn_status c = CN_VOIDED \<and> get_by_id cnid (note_in_org org) (bs_credit_notes st') = Some c
    \<and> bs_applications st' = bs_applications st
    \<and> (if applied_total_for_credit_note cnid st = 0 then bs_invoices st' = bs_invoices st
       else \<exists>iv. bs_invoices st' = bs_invoices st @ [iv] \<and> inv_status iv = SENT \<and> inv_payment_status iv = UNPAID
         \<and> inv_total iv = applied_total_for_credit_note cnid st \<and> inv_subtotal iv + inv_vat_amount iv = inv_total iv
         \<and> inv_customer iv = cn_customer cn \<and> inv_org iv = Some org \<and> cn_reversal_invoice c = Some (rid iv))
    \<and> void_credit_note today' cnid org reason' ax' new_id' number' st' = Inr (st', c)
    \<and> apply_credit_note_auto today' cnid invid org actor None b2b st' = Inl (ValidationError ''Credit note is not applicable'')"
proof -
  have org: "cn_org cn = Some org" using get_by_id_Some [OF cn] by (simp add: note_in_org_def)
  have rest: "void_credit_note today' cnid org reason' ax' new_id' number' st' = Inr (st', c)
      \<and> apply_credit_note_auto today' cnid invid org actor None b2b st' = Inl (ValidationError ''Credit note is not applicable'')"
    if "get_by_id cnid (note_in_org org) (bs_credit_notes st') = Some c" "cn_status c = CN_VOIDED"
  proof -
    have "cn_org c = Some org" using get_by_id_Some [OF that(1)] by (simp add: note_in_org_def)
    with that show ?thesis
      by (cases org) (simp_all add: void_credit_note_def apply_credit_note_auto_def get_by_id_or_404_def)
  qed
  have found: "get_by_id cnid (note_in_org org) (rewrite cnid f (bs_credit_notes st)) = Some (write_row f cn)"
    if "cn_org (f cn) = Some org" for f
    by (rule get_by_id_rewrite_same [OF books_distinct(3) [OF books] cn])
      (use that in \<open>simp add: note_in_org_def write_row_def\<close>)
  show ?thesis
    using books run
  proof (cases rule: void_credit_note_cases)
    case again
    then show ?thesis using cn issued by simp
  next
    case (unapplied cn')
    then have "cn' = cn" using cn by simp
    with unapplied found org have 1: "get_by_id cnid (note_in_org org) (bs_credit_notes st') = Some c" "cn_status c = CN_VOIDED"
      by (simp_all add: write_row_def)
    then show ?thesis using rest [OF 1] unapplied by simp
  next
    case (rebilled cn' iv s)
    then have "cn' = cn" using cn by simp
    with rebilled found org have 1: "get_by_id cnid (note_in_org org) (bs_credit_notes st') = Some c" "cn_status c = CN_VOIDED"
        "cn_reversal_invoice c = Some new_id"
      by (simp_all add: write_row_def)
    then show ?thesis using rest [OF 1(1,2)] rebilled \<open>cn' = cn\<close> org by auto
  qed
qed

lemma void_rebills_applied_credit_witness:
  "\<exists>st st' c iv. void_credit_note 13 ''n1'' ''o1'' None \<lparr>ax_user = Some ''u'', ax_role = None\<rparr> ''i2'' ''INV-000002'' st = Inr (st', c)
     \<and> bs_invoices st' = bs_invoices st @ [iv] \<and> inv_total iv = applied_total_for_credit_note ''n1'' st"
proof -
  obtain st a st' c where run: "apply_credit_note_auto 12 ''n1'' ''i1'' ''o1'' None None False sample_note_books = Inr (st, a)"
      "void_credit_note 13 ''n1'' ''o1'' None \<lparr>ax_user = Some ''u'', ax_role = None\<rparr> ''i2'' ''INV-000002'' st = Inr (st', c)"
    and two: "length (bs_invoices st') = 2" "length (bs_invoices st) = 1"
      "\<exists>cn. get_by_id ''n1'' (note_in_org ''o1'') (bs_credit_notes st) = Some cn \<and> cn_status cn = CN_ISSUED"
    using sample_voided unfolding result_ok by (auto split: option.splits)
  have ok: "books_ok st" using keeps_booksD [OF apply_credit_keeps run(1) sample_note_books_ok] ..
  obtain cn where cn: "get_by_id ''n1'' (note_in_org ''o1'') (bs_credit_notes st) = Some cn" "cn_status cn = CN_ISSUED"
    using two(3) by blast
  have "applied_total_for_credit_note ''n1'' st \<noteq> 0"
    using void_rebills_applied_credit [OF ok cn run(2)] two by auto
  then obtain iv where "bs_invoices st' = bs_invoices st @ [iv]" "inv_total iv = applied_total_for_credit_note ''n1'' st"
    using void_rebills_applied_credit [OF ok cn run(2), of 13 None "\<lparr>ax_user = None, ax_role = None\<rparr>" "''i3''" "''n''" "''i1''" None False]
    by auto
  with run(2) show ?thesis by blast
qed

text \<open>A credit note that carries no customer of its own can be applied, because the customer of its
  source invoice stands in for it, but once credit was applied it can never be voided: the reversal
  invoice asks for a customer on the note itself, so every attempt fails and nothing changes.\<close>

theorem applied_note_without_customer_cannot_be_voided:
  assumes books: "books_ok st" and cn: "get_by_id cnid (note_in_org org) (bs_credit_notes st) = Some cn"
    and issued: "cn_status cn = CN_ISSUED" and none: "\<not> truthy_str (cn_customer cn)"
    and applied: "applied_total_for_credit_note cnid st \<noteq> 0"
  shows "\<exists>e. void_credit_note today cnid org reason ax new_id number st = Inl (ValidationError e)"
proof -
  have ids: "rid cn = cnid" using get_by_id_Some [OF cn] by simp
  have pos: "0 < applied_total_for_credit_note cnid st" "is_money (applied_total_for_credit_note cnid st)"
    using applied books_totals(9,10) [OF books, of cnid] by simp_all
  have "\<exists>e. create_reversal_for_credit_note_void today cn (applied_total_for_credit_note cnid st) r ax new_id number st
      = Inl (ValidationError e)" for r
    using none by (auto simp: create_reversal_for_credit_note_void_def)
  then obtain e where "create_reversal_for_credit_note_void today cn (applied_total_for_credit_note cnid st)
      (strip (str_or reason ''Credit note voided'')) ax new_id number st = Inl (ValidationError e)" by blast
  then show ?thesis
    using cn issued ids pos by (simp add: void_credit_note_def get_by_id_or_404_def Let_def)
qed

definition stranded_note_books :: billing_state where
  \<comment> \<open>a note without a customer whose source invoice has one, and a second invoice of that customer\<close>
  "stranded_note_books = sample_note_books
     \<lparr>bs_credit_notes := [\<lparr>rid = ''n1'', version = 1, cn_number = ''CN-000001'', cn_org = Some ''o1'',
        cn_customer = None, cn_source_invoice = Some ''i1'', cn_issue_date = 11, cn_total = 50, cn_status = CN_ISSUED,
        cn_reason_category = ''OTHER'', cn_reason = None, cn_reversal_invoice = None\<rparr>]\<rparr>"

lemma stranded_note_books_ok: "books_ok stranded_note_books"
  by code_simp

lemma stranded_applied:
  "(case apply_credit_note_auto 12 ''n1'' ''i1'' ''o1'' None None False stranded_note_books of
      Inl _ \<Rightarrow> False
    | Inr x \<Rightarrow> applied_total_for_credit_note ''n1'' (fst x) = 50 \<and>
        (case get_by_id ''n1'' (note_in_org ''o1'') (bs_credit_notes (fst x)) of
           None \<Rightarrow> False | Some cn \<Rightarrow> cn_status cn = CN_ISSUED \<and> cn_customer cn = None))"
  by code_simp

lemma applied_note_without_customer_cannot_be_voided_witness:
  "\<exists>st a. apply_credit_note_auto 12 ''n1'' ''i1'' ''o1'' None None False stranded_note_books = Inr (st, a)
     \<and> (\<exists>e. void_credit_note 13 ''n1'' ''o1'' None \<lparr>ax_user = Some ''u'', ax_role = None\<rparr> ''i2'' ''INV-000002'' st
            = Inl (ValidationError e))"
proof -
  obtain st a where run: "apply_credit_note_auto 12 ''n1'' ''i1'' ''o1'' None None False stranded_note_books = Inr (st, a)"
    and applied: "applied_total_for_credit_note ''n1'' st \<noteq> 0"
    and "case get_by_id ''n1'' (note_in_org ''o1'') (bs_credit_notes st) of
           None \<Rightarrow> False | Some cn \<Rightarrow> cn_status cn = CN_ISSUED \<and> cn_customer cn = None"
    using stranded_applied unfolding result_ok by auto
  then obtain cn where cn: "get_by_id ''n1'' (note_in_org ''o1'') (bs_credit_notes st) = Some cn"
      "cn_status cn = CN_ISSUED" "\<not> truthy_str (cn_customer cn)" by (auto split: option.splits)
  have ok: "books_ok st" using keeps_booksD [OF apply_credit_keeps run stranded_note_books_ok] ..
  show ?thesis using run applied_note_without_customer_cannot_be_voided [OF ok cn applied] by blast
qed

end
