(* ===== verification/Refunds.thy ===== *)
theory Refunds
  imports Payments CreditNotes
begin

text \<open>
  Refunds of payments, \<^verbatim>\<open>app/modules/billing/service.py\<close> from \<^verbatim>\<open>create_refund\<close> to
  \<^verbatim>\<open>issue_credit_note_for_refund\<close>, and the reversal of a card transaction in
  \<^verbatim>\<open>app/integrations/braintree/transactions.py\<close>. The gateway of the payment provider is an
  argument: what it finds under a transaction id and what it answers to a void or a refund; an
  \<open>Inl\<close> is an exception of its library. Ids, numbers and the clock reading are arguments.
  Of the free metadata of a refund only the credit note id is kept; the booking reference, the
  currency and the time of the request are left out.
\<close>

subsection \<open>Reversing a card transaction\<close>

record gateway_tx =
  gt_status :: string
  gt_type :: string
  gt_amount :: "rat option"
  gt_refunded_transaction_id :: "string option"
  gt_refund_id :: "string option"

record gateway_answer =
  ga_success :: bool
  ga_transaction_id :: "string option"
  ga_message :: "string option"

record gateway =
  gw_find :: "string \<Rightarrow> gateway_tx result"
  gw_void :: "string \<Rightarrow> gateway_answer result"
  gw_refund :: "string \<Rightarrow> rat \<Rightarrow> string \<Rightarrow> gateway_answer result"

record reversal =
  rv_success :: bool
  rv_action :: string
  rv_original :: string
  rv_transaction_id :: "string option"
  rv_message :: "string option"

definition not_reversed :: "string \<Rightarrow> string \<Rightarrow> string option \<Rightarrow> string \<Rightarrow> reversal" where
  "not_reversed action original tx_id message =
     \<lparr>rv_success = False, rv_action = action, rv_original = original, rv_transaction_id = tx_id,
      rv_message = Some message\<rparr>"

definition refund_or_void_transaction :: "gateway \<Rightarrow> string \<Rightarrow> rat \<Rightarrow> string \<Rightarrow> reversal result" where
  "refund_or_void_transaction gw transaction_id amount order_id =
     (let raw_id = strip transaction_id in
      if raw_id = '''' then Inl (ValidationError ''transaction_id is required'')
      else
        bind_result (gw_find gw raw_id) (\<lambda>tx.
        let status = py_lower (strip (gt_status tx));
            refund_id = strip (str_or (gt_refund_id tx) '''') in
        if status = ''voided''
        then Inr (not_reversed ''none'' raw_id (Some raw_id) ''Transaction is already voided and cannot be reversed again.'')
        else if status = ''settlement_declined''
        then Inr (not_reversed ''none'' raw_id (Some raw_id) ''Transaction settlement was declined; nothing to refund or void.'')
        else if py_lower (strip (gt_type tx)) = ''credit''
        then Inr (not_reversed ''none'' raw_id (Some raw_id) ''Transaction is already a credit/refund transaction.'')
        else if truthy_str (gt_refunded_transaction_id tx)
        then Inr (not_reversed ''none'' raw_id (Some raw_id) ''Transaction is already a refund record and cannot be reversed.'')
        else if refund_id \<noteq> ''''
        then Inr (not_reversed ''none'' raw_id (Some refund_id) ''Transaction has already been refunded.'')
        else if status \<in> {''authorized'', ''submitted_for_settlement'', ''settlement_pending''} then
          (if gt_amount tx \<noteq> None \<and> quantize_half_even amount \<noteq> quantize_half_even (the (gt_amount tx))
           then Inr (not_reversed ''void'' raw_id (Some raw_id)
             ''Partial void is not supported by Braintree. Use full amount for void or wait for settlement and refund partial.'')
           else
             bind_result (gw_void gw raw_id) (\<lambda>answer.
             Inr \<lparr>rv_success = ga_success answer, rv_action = ''void'', rv_original = raw_id,
               rv_transaction_id = Some raw_id,
               rv_message = (if ga_success answer then None else str_or_none (strip (str_or (ga_message answer) '''')))\<rparr>))
        else if status \<notin> {''settling'', ''settled''}
        then Inr (not_reversed ''none'' raw_id (Some raw_id)
          (''Transaction status '' @ CHR 0x27 # str_or (Some status) ''unknown'' @ CHR 0x27 # '' is not refundable yet.''))
        else
          bind_result (gw_refund gw raw_id (quantize_half_even amount) (take 255 (strip order_id))) (\<lambda>answer.
          Inr \<lparr>rv_success = ga_success answer, rv_action = ''refund'', rv_original = raw_id,
            rv_transaction_id =
              (if ga_success answer then str_or_none (strip (str_or (ga_transaction_id answer) '''')) else None),
            rv_message = (if ga_success answer then None else str_or_none (strip (str_or (ga_message answer) '''')))\<rparr>)))"

subsection \<open>Creating a refund\<close>

definition total_non_reversed_refunded_for_payment :: "string \<Rightarrow> billing_state \<Rightarrow> rat" where
  "total_non_reversed_refunded_for_payment p st =
     sum_where (\<lambda>r. rf_payment_id r = p \<and> rf_status r \<noteq> REVERSED) rf_processed (bs_refunds st)"

definition refund_with_key :: "string \<Rightarrow> string \<Rightarrow> billing_state \<Rightarrow> refund option" where
  "refund_with_key org key st = find (\<lambda>r. rf_org r = org \<and> rf_key r = Some key) (bs_refunds st)"

definition refund_in_org :: "string \<Rightarrow> refund \<Rightarrow> bool" where
  "refund_in_org org r \<longleftrightarrow> rf_org r = org"

definition insert_refund :: "refund \<Rightarrow> billing_state \<Rightarrow> billing_state result" where
  \<comment> \<open>primary key, unique number, unique key per organisation and the check constraints\<close>
  "insert_refund r st =
     (if rf_number r \<in> rf_number ` set (bs_refunds st) then Inl (IntegrityError ''refund_number'')
      else if \<exists>s \<in> set (bs_refunds st). rf_org s = rf_org r \<and> rf_key s = rf_key r \<and> rf_key r \<noteq> None
      then Inl (IntegrityError ''uq_refunds_org_idempotency_key'')
      else if \<not> (0 < rf_requested r \<and> 0 \<le> rf_processed r \<and> rf_processed r \<le> rf_requested r)
      then Inl (IntegrityError ''ck_refunds'')
      else bind_result (create_row r (bs_refunds st)) (\<lambda>rows. Inr (st\<lparr>bs_refunds := rows\<rparr>)))"

record refund_request =
  rq_org :: string
  rq_payment_id :: string
  rq_amount :: rat
  rq_type :: refund_type
  rq_method :: refund_method
  rq_reason_category :: string
  rq_reason :: string
  rq_actor :: string
  rq_invoice_id :: "string option"
  rq_key :: "string option"

definition new_refund :: "refund_request \<Rightarrow> payment \<Rightarrow> rat \<Rightarrow> string \<Rightarrow> string \<Rightarrow> refund" where
  "new_refund rq p amount new_id number =
     \<lparr>rid = new_id, version = 1, rf_number = number, rf_org = rq_org rq, rf_payment_id = rid p,
      rf_invoice_id = rq_invoice_id rq,
      rf_provider = (if rq_method rq = CARD_REFUND then bp_provider p else MANUAL),
      rf_method = rq_method rq, rf_type = rq_type rq,
      rf_status = (if rq_method rq = CARD_REFUND then PROCESSING else INITIATED),
      rf_reason_category = rq_reason_category rq, rf_reason = rq_reason rq, rf_requested = amount,
      rf_processed = (if rq_method rq \<noteq> CARD_REFUND then amount else 0),
      rf_initiated_by = rq_actor rq, rf_processed_by = None, rf_completed_at = None, rf_key = rq_key rq,
      rf_retry_count = 0, rf_failure_code = None, rf_failure = None, rf_txn_id = None, rf_braintree_status = None,
      rf_braintree_status_at = None, rf_credit_note_id = None\<rparr>"

definition settle_non_card :: "refund_request \<Rightarrow> rat \<Rightarrow> int \<Rightarrow> refund \<Rightarrow> refund" where
  "settle_non_card rq amount now r =
     (let is_note = (rq_method rq = CREDIT_NOTE) in
      r\<lparr>rf_status := (if is_note then COMPLETED else INITIATED), rf_completed_at := (if is_note then Some now else None),
        rf_processed := (if is_note then amount else 0), rf_processed_by := (if is_note then Some (rq_actor rq) else None)\<rparr>)"

definition card_failed :: "reversal \<Rightarrow> string \<Rightarrow> string \<Rightarrow> int \<Rightarrow> refund \<Rightarrow> refund" where
  "card_failed rv source_txn_id default_message now r =
     r\<lparr>rf_status := FAILED, rf_failure := Some (str_or (rv_message rv) default_message),
       rf_txn_id := Some (str_or (str_or_none (strip (str_or (rv_transaction_id rv) ''''))) source_txn_id),
       rf_braintree_status := Some ''FAILED'', rf_braintree_status_at := Some now\<rparr>"

definition card_completed :: "reversal \<Rightarrow> string \<Rightarrow> rat \<Rightarrow> string \<Rightarrow> int \<Rightarrow> refund \<Rightarrow> refund" where
  "card_completed rv source_txn_id amount actor_id now r =
     r\<lparr>rf_status := COMPLETED, rf_processed := amount, rf_processed_by := Some actor_id, rf_completed_at := Some now,
       rf_failure_code := None, rf_failure := None,
       rf_txn_id := Some (str_or (str_or_none (strip (str_or (rv_transaction_id rv) ''''))) source_txn_id),
       rf_braintree_status := Some (if rv_action rv = ''void'' then ''VOIDED'' else ''REFUND_SUBMITTED''),
       rf_braintree_status_at := Some now\<rparr>"

definition refund_checks :: "refund_request \<Rightarrow> rat \<Rightarrow> payment \<Rightarrow> billing_state \<Rightarrow> unit result" where
  "refund_checks rq amount p st =
     (let already = quantize_half_up (total_non_reversed_refunded_for_payment (rid p) st);
          remaining = quantize_half_up (bp_amount p - already) in
      if remaining \<le> 0 then Inl (ValidationError ''Payment is already fully refunded'')
      else if rq_type rq = FULL \<and> amount \<noteq> remaining
      then Inl (ValidationError ''Full refund amount must equal remaining refundable amount'')
      else if rq_type rq = PARTIAL \<and> remaining \<le> amount
      then Inl (ValidationError ''Partial refund amount must be less than remaining refundable amount'')
      else if rq_method rq = CARD_REFUND \<and> strip (str_or (bp_txn_id p) '''') = ''''
      then Inl (ValidationError ''Card refund requires payment.provider_txn_id'')
      else Inr ())"

definition run_card_refund ::
    "gateway \<Rightarrow> string \<Rightarrow> rat \<Rightarrow> string \<Rightarrow> int \<Rightarrow> string \<Rightarrow> refund \<Rightarrow> billing_state \<Rightarrow> (billing_state \<times> refund) result" where
  \<comment> \<open>the part of \<^verbatim>\<open>create_refund\<close> after the row is written, for card refunds\<close>
  "run_card_refund gw source_txn_id amount actor_id now org r st =
     bind_result (refund_or_void_transaction gw source_txn_id amount (rid r)) (\<lambda>rv.
     bind_result (update_refund (rid r)
         (if \<not> rv_success rv then card_failed rv source_txn_id ''Braintree refund/void failed'' now
          else card_completed rv source_txn_id amount actor_id now)
         (Some (version r)) (refund_in_org org) st) (\<lambda>(st1, r1).
     Inr (append_refund_event (rid r1) (if \<not> rv_success rv then RE_FAILED else RE_COMPLETED) (Some actor_id) st1, r1)))"

definition create_refund ::
    "gateway \<Rightarrow> refund_request \<Rightarrow> int \<Rightarrow> string \<Rightarrow> string \<Rightarrow> billing_state \<Rightarrow> (billing_state \<times> refund) result" where
  "create_refund gw rq now new_id number st =
     (let amount = quantize_half_up (rq_amount rq) in
      if amount \<le> 0 then Inl (ValidationError ''amount must be greater than 0'')
      else
      case (if truthy_str (rq_key rq) then refund_with_key (rq_org rq) (the (rq_key rq)) st else None) of
        Some existing \<Rightarrow> Inr (st, existing)
      | None \<Rightarrow>
        bind_result (get_by_id_or_404 ''billing_payment'' (rq_payment_id rq) (\<lambda>p. bp_org p = rq_org rq) (bs_payments st)) (\<lambda>p.
        bind_result (case rq_invoice_id rq of None \<Rightarrow> Inr ()
                     | Some i \<Rightarrow> map_sum id (\<lambda>_. ()) (get_by_id_or_404 ''invoice'' i (invoice_in_org (rq_org rq)) (bs_invoices st)))
          (\<lambda>_.
        bind_result (refund_checks rq amount p st) (\<lambda>_.
        let r0 = new_refund rq p amount new_id number in
        bind_result (insert_refund r0 st) (\<lambda>st1.
        bind_result (if rq_method rq \<noteq> CARD_REFUND
                     then update_refund new_id (settle_non_card rq amount now) (Some (version r0)) (refund_in_org (rq_org rq)) st1
                     else Inr (st1, r0)) (\<lambda>(st2, r).
        let st3 = append_refund_event (rid r) RE_INITIATED (Some (rq_actor rq)) st2 in
        if rq_method rq = CARD_REFUND
        then run_card_refund gw (strip (str_or (bp_txn_id p) '''')) amount (rq_actor rq) now (rq_org rq) r st3
        else Inr (st3, r)))))))"

subsection \<open>The other operations\<close>

definition mark_refund_complete ::
    "string \<Rightarrow> string \<Rightarrow> string \<Rightarrow> string option \<Rightarrow> int \<Rightarrow> billing_state \<Rightarrow> (billing_state \<times> refund) result" where
  "mark_refund_complete org refund_id actor_id braintree_status now st =
     bind_result (get_by_id_or_404 ''refund'' refund_id (refund_in_org org) (bs_refunds st)) (\<lambda>r.
     if rf_method r = CARD_REFUND then Inl (ValidationError ''Card refunds cannot be manually marked complete'')
     else if rf_status r \<noteq> INITIATED \<and> rf_status r \<noteq> PROCESSING \<and> rf_status r \<noteq> FAILED
     then Inl (ValidationError ''Refund is not in a completable state'')
     else
       bind_result (update_refund (rid r) (\<lambda>s. s\<lparr>rf_status := COMPLETED, rf_processed := rf_requested r,
            rf_processed_by := Some actor_id, rf_completed_at := Some now,
            rf_braintree_status := (if truthy_str braintree_status then braintree_status else rf_braintree_status r),
            rf_braintree_status_at := (if truthy_str braintree_status then Some now else rf_braintree_status_at r)\<rparr>)
          (Some (version r)) (refund_in_org org) st) (\<lambda>(st1, updated).
       Inr (append_refund_event (rid r) RE_MARKED_COMPLETED (Some actor_id) st1, updated)))"

definition retry_card_refund ::
    "gateway \<Rightarrow> string \<Rightarrow> string \<Rightarrow> string option \<Rightarrow> string option \<Rightarrow> int \<Rightarrow> refund \<Rightarrow> billing_state
     \<Rightarrow> (billing_state \<times> refund) result" where
  "retry_card_refund gw org actor_id failure_code failure_message now r st =
     (let source_txn_id = strip (str_or (rf_txn_id r) '''') in
      if source_txn_id = '''' then Inl (ValidationError ''Failed card refund cannot be retried without source transaction id'')
      else
        bind_result (update_refund (rid r) (\<lambda>s. s\<lparr>rf_status := PROCESSING, rf_retry_count := rf_retry_count r + 1,
             rf_failure_code := failure_code, rf_failure := failure_message,
             rf_braintree_status := Some ''RETRYING'', rf_braintree_status_at := Some now\<rparr>)
           (Some (version r)) (refund_in_org org) st) (\<lambda>(st1, base).
        bind_result (refund_or_void_transaction gw source_txn_id (rf_requested r) (rid base)) (\<lambda>rv.
        update_refund (rid base)
          (if \<not> rv_success rv then card_failed rv source_txn_id ''Braintree refund/void failed on retry'' now
           else card_completed rv source_txn_id (rf_requested base) actor_id now)
          (Some (version base)) (refund_in_org org) st1)))"

definition retry_refund ::
    "gateway \<Rightarrow> string \<Rightarrow> string \<Rightarrow> string \<Rightarrow> string option \<Rightarrow> string option \<Rightarrow> string option \<Rightarrow> int
     \<Rightarrow> billing_state \<Rightarrow> (billing_state \<times> refund) result" where
  "retry_refund gw org refund_id actor_id braintree_status failure_code failure_message now st =
     bind_result (get_by_id_or_404 ''refund'' refund_id (refund_in_org org) (bs_refunds st)) (\<lambda>r.
     if rf_status r \<noteq> FAILED then Inl (ValidationError ''Only failed refunds can be retried'')
     else
       bind_result
         (if rf_method r \<noteq> CARD_REFUND then
            update_refund (rid r) (\<lambda>s. s\<lparr>rf_status := INITIATED, rf_retry_count := rf_retry_count r + 1,
                rf_failure_code := failure_code, rf_failure := failure_message,
                rf_braintree_status := (if truthy_str braintree_status then braintree_status else rf_braintree_status r),
                rf_braintree_status_at := (if truthy_str braintree_status then Some now else rf_braintree_status_at r)\<rparr>)
              (Some (version r)) (refund_in_org org) st
          else retry_card_refund gw org actor_id failure_code failure_message now r st) (\<lambda>(st1, updated).
       Inr (append_refund_event (rid r) RE_RETRIED (Some actor_id) st1, updated)))"

definition issue_credit_note_for_refund ::
    "string \<Rightarrow> string \<Rightarrow> string \<Rightarrow> string option \<Rightarrow> int \<Rightarrow> int \<Rightarrow> string \<Rightarrow> string \<Rightarrow> billing_state
     \<Rightarrow> (billing_state \<times> refund) result" where
  "issue_credit_note_for_refund org refund_id actor_id note today now new_id number st =
     bind_result (get_by_id_or_404 ''refund'' refund_id (refund_in_org org) (bs_refunds st)) (\<lambda>r.
     if rf_method r \<noteq> CREDIT_NOTE
     then Inl (ValidationError ''Only CREDIT_NOTE refunds can be issued as credit notes'')
     else if rf_status r = COMPLETED then Inr (st, r)
     else
       let customer = (if truthy_str (rf_invoice_id r)
            then Option.bind (get_by_id (the (rf_invoice_id r)) (invoice_in_org org) (bs_invoices st)) inv_customer
            else None);
           cn = \<lparr>rid = new_id, version = 1, cn_number = number, cn_org = Some org, cn_customer = customer,
             cn_source_invoice = rf_invoice_id r, cn_issue_date = today, cn_total = quantize_half_up (rf_requested r),
             cn_status = CN_ISSUED, cn_reason_category = str_or (Some (rf_reason_category r)) ''OTHER'',
             cn_reason = Some (str_or note (rf_reason r)), cn_reversal_invoice = None\<rparr>
       in
       bind_result (insert_credit_note cn st) (\<lambda>st1.
       bind_result (update_refund (rid r) (\<lambda>s. s\<lparr>rf_status := COMPLETED, rf_processed := rf_requested r,
            rf_processed_by := Some actor_id, rf_completed_at := Some now, rf_credit_note_id := Some new_id\<rparr>)
          (Some (version r)) (refund_in_org org) st1) (\<lambda>(st2, updated).
       Inr (append_refund_event (rid r) RE_ISSUED_CREDIT_NOTE (Some actor_id) st2, updated))))"

definition apply_braintree_refund_status ::
    "string \<Rightarrow> string \<Rightarrow> int \<Rightarrow> billing_state \<Rightarrow> (billing_state \<times> refund option) result" where
  "apply_braintree_refund_status refund_id braintree_status now st =
     (let local_id = strip refund_id; status = normalize_braintree_status (Some braintree_status) in
      if local_id = '''' \<or> \<not> truthy_str status then Inr (st, None)
      else case get_by_id local_id (\<lambda>_. True) (bs_refunds st) of
        None \<Rightarrow> Inr (st, None)
      | Some r \<Rightarrow>
          bind_result (update_refund (rid r) (\<lambda>s. s\<lparr>rf_braintree_status := status,
               rf_braintree_status_at := Some now\<rparr>) None (\<lambda>_. True) st) (\<lambda>(st1, updated).
          Inr (append_refund_event (rid r) RE_BRAINTREE_STATUS_CHANGED None st1, Some updated)))"

subsection \<open>The refund table\<close>

definition refund_core :: "refund \<Rightarrow> string \<times> string \<times> string \<times> refund_method \<times> rat \<times> string option" where
  "refund_core r = (rf_number r, rf_org r, rf_payment_id r, rf_method r, rf_requested r, rf_key r)"

definition refund_shape :: "refund \<Rightarrow> bool" where
  \<comment> \<open>the states a stored refund can be in, by method, and the processed amount of each\<close>
  "refund_shape r \<longleftrightarrow>
     (case rf_method r of
        CARD_REFUND \<Rightarrow> rf_status r = COMPLETED \<or> (rf_status r = FAILED \<and> strip (str_or (rf_txn_id r) '''') \<noteq> '''')
      | BANK_TRANSFER \<Rightarrow> rf_status r = COMPLETED \<or> rf_status r = INITIATED
      | CREDIT_NOTE \<Rightarrow> rf_status r = COMPLETED)
     \<and> rf_processed r = (if rf_status r = COMPLETED then rf_requested r else 0)"

definition refund_keys :: "refund list \<Rightarrow> (string \<times> string option) list" where
  "refund_keys rs = map (\<lambda>r. (rf_org r, rf_key r)) (filter (\<lambda>r. rf_key r \<noteq> None) rs)"

definition refunds_but :: "string set \<Rightarrow> billing_state \<Rightarrow> bool" where
  "refunds_but X st \<longleftrightarrow> distinct_ids (bs_refunds st) \<and> distinct (map rf_number (bs_refunds st))
     \<and> distinct (refund_keys (bs_refunds st))
     \<and> (\<forall>r \<in> set (bs_refunds st). is_money (rf_requested r) \<and> 0 < rf_requested r \<and> (rid r \<notin> X \<longrightarrow> refund_shape r))"

abbreviation refunds_ok :: "billing_state \<Rightarrow> bool" where
  "refunds_ok \<equiv> refunds_but {}"

definition refunds_kept :: "billing_state \<Rightarrow> billing_state \<Rightarrow> bool" where
  "refunds_kept st st' \<longleftrightarrow> (\<forall>r \<in> set (bs_refunds st). \<exists>s \<in> set (bs_refunds st').
     rid s = rid r \<and> refund_core s = refund_core r
     \<and> (rf_status r = COMPLETED \<longrightarrow> rf_status s = COMPLETED \<and> rf_processed s = rf_processed r))"

lemma refunds_kept_refl [simp]: "refunds_kept st st"
  by (auto simp: refunds_kept_def)

lemma refunds_kept_trans: "refunds_kept st st' \<Longrightarrow> refunds_kept st' st'' \<Longrightarrow> refunds_kept st st''"
  unfolding refunds_kept_def by metis

lemma refunds_frame [simp]:
  "bs_refunds (append_refund_event r t u st) = bs_refunds st"
  by (simp add: append_refund_event_def)

lemma refunds_event [simp]:
  "refunds_but X (append_refund_event r t u st) = refunds_but X st"
  "refunds_kept st0 (append_refund_event r t u st) = refunds_kept st0 st"
  by (simp_all add: refunds_but_def refunds_kept_def)

lemma refund_write_row [simp]:
  "rf_status (write_row f r) = rf_status (f r)" "rf_processed (write_row f r) = rf_processed (f r)"
  "rf_requested (write_row f r) = rf_requested (f r)" "rf_method (write_row f r) = rf_method (f r)"
  "rf_txn_id (write_row f r) = rf_txn_id (f r)" "rf_number (write_row f r) = rf_number (f r)"
  "rf_org (write_row f r) = rf_org (f r)" "rf_payment_id (write_row f r) = rf_payment_id (f r)"
  "rf_key (write_row f r) = rf_key (f r)" "refund_core (write_row f r) = refund_core (f r)"
  "refund_shape (write_row f r) = refund_shape (f r)" for r :: refund
  by (simp_all add: write_row_def refund_core_def refund_shape_def split: refund_method.splits)

lemma update_refund_cases:
  assumes "distinct_ids (bs_refunds st)" and "update_refund i f v scope st = Inr (st', r')"
  obtains r where "get_by_id i scope (bs_refunds st) = Some r" "r \<in> set (bs_refunds st)" "rid r = i"
    "st' = st\<lparr>bs_refunds := rewrite i f (bs_refunds st)\<rparr>" "r' = write_row f r" "r' \<in> set (bs_refunds st')"
proof -
  obtain rows where rows: "update_by_id ''refund'' i f v scope (bs_refunds st) = Inr (rows, r')"
    "st' = st\<lparr>bs_refunds := rows\<rparr>" using assms(2) by (auto simp: update_refund_def)
  obtain r where r: "get_by_id i scope (bs_refunds st) = Some r" "r \<in> set (bs_refunds st)" "rid r = i"
    "rows = rewrite i f (bs_refunds st)" "r' = write_row f r"
    using update_by_id_cases [OF assms(1) rows(1)] by metis
  then have "r' \<in> set rows" by (auto simp: set_rewrite image_iff)
  with r rows(2) show thesis using that by simp
qed

lemma refunds_rewrite:
  assumes ok: "refunds_but X st" and X: "X \<subseteq> insert i Y"
    and f: "\<And>r. r \<in> set (bs_refunds st) \<Longrightarrow> rid r = i \<Longrightarrow> refund_core (f r) = refund_core r \<and> (i \<notin> Y \<longrightarrow> refund_shape (f r))"
  shows "refunds_but Y (st\<lparr>bs_refunds := rewrite i f (bs_refunds st)\<rparr>)"
proof -
  let ?g = "\<lambda>s. if rid s = i then write_row f s else s"
  have core: "rf_number (?g r) = rf_number r \<and> rf_org (?g r) = rf_org r \<and> rf_key (?g r) = rf_key r
      \<and> rf_requested (?g r) = rf_requested r \<and> rid (?g r) = rid r" if "r \<in> set (bs_refunds st)" for r
    using f [OF that] by (auto simp: refund_core_def)
  have "map rf_number (rewrite i f (bs_refunds st)) = map rf_number (bs_refunds st)"
    using core by (simp add: rewrite_def)
  moreover have "refund_keys (rewrite i f (bs_refunds st)) = refund_keys (bs_refunds st)"
  proof -
    have "refund_keys (map ?g rs) = refund_keys rs" if "set rs \<subseteq> set (bs_refunds st)" for rs
      using that core by (induction rs) (simp_all add: refund_keys_def)
    then show ?thesis by (simp add: rewrite_def)
  qed
  moreover have "is_money (rf_requested r) \<and> 0 < rf_requested r \<and> (rid r \<notin> Y \<longrightarrow> refund_shape r)"
    if w: "r \<in> set (rewrite i f (bs_refunds st))" for r
  proof -
    obtain r0 where r0: "r0 \<in> set (bs_refunds st)" "r = ?g r0" using w unfolding set_rewrite by blast
    then have "is_money (rf_requested r0) \<and> 0 < rf_requested r0 \<and> (rid r0 \<notin> X \<longrightarrow> refund_shape r0)"
      using ok by (simp add: refunds_but_def)
    then show ?thesis using r0 core [OF r0(1)] f [OF r0(1)] X by (cases "rid r0 = i") auto
  qed
  ultimately show ?thesis using ok by (simp add: refunds_but_def)
qed

lemma refunds_kept_rewrite:
  assumes "\<And>r. r \<in> set (bs_refunds st) \<Longrightarrow> rid r = i \<Longrightarrow> refund_core (f r) = refund_core r
      \<and> (rf_status r = COMPLETED \<longrightarrow> rf_status (f r) = COMPLETED \<and> rf_processed (f r) = rf_processed r)"
  shows "refunds_kept st (st\<lparr>bs_refunds := rewrite i f (bs_refunds st)\<rparr>)"
  unfolding refunds_kept_def
proof
  fix r
  assume "r \<in> set (bs_refunds st)"
  then show "\<exists>s \<in> set (bs_refunds (st\<lparr>bs_refunds := rewrite i f (bs_refunds st)\<rparr>)). rid s = rid r \<and> refund_core s = refund_core r
     \<and> (rf_status r = COMPLETED \<longrightarrow> rf_status s = COMPLETED \<and> rf_processed s = rf_processed r)"
    using assms [of r]
    by (intro bexI [of _ "if rid r = i then write_row f r else r"]) (auto simp: set_rewrite)
qed

lemma rewrite_last:
  "i \<notin> rid ` set rs \<Longrightarrow> rid r = i \<Longrightarrow> rewrite i f (rs @ [r]) = rs @ [write_row f r]"
proof -
  assume fresh: "i \<notin> rid ` set rs" and r: "rid r = i"
  then have "map (\<lambda>s. if rid s = i then write_row f s else s) rs = rs" by (intro map_idI) (metis imageI)
  with r show ?thesis by (simp add: rewrite_def)
qed

lemma insert_refund_Inr:
  "insert_refund r st = Inr st' \<Longrightarrow>
     rf_number r \<notin> rf_number ` set (bs_refunds st) \<and> rid r \<notin> rid ` set (bs_refunds st)
     \<and> (\<forall>s \<in> set (bs_refunds st). rf_org s = rf_org r \<longrightarrow> rf_key s = rf_key r \<longrightarrow> rf_key r = None)
     \<and> st' = st\<lparr>bs_refunds := bs_refunds st @ [r]\<rparr>"
  by (auto simp: insert_refund_def create_row_Inr split: if_splits)

lemma refunds_append:
  assumes ok: "refunds_ok st" and st': "bs_refunds st' = bs_refunds st @ [r]"
    and new: "rf_number r \<notin> rf_number ` set (bs_refunds st)" "rid r \<notin> rid ` set (bs_refunds st)"
      "\<forall>s \<in> set (bs_refunds st). rf_org s = rf_org r \<longrightarrow> rf_key s = rf_key r \<longrightarrow> rf_key r = None"
    and row: "is_money (rf_requested r)" "0 < rf_requested r" "refund_shape r"
  shows "refunds_ok st' \<and> refunds_kept st st'"
proof -
  have "distinct (refund_keys (bs_refunds st @ [r]))"
    using ok new(3) by (auto simp: refunds_but_def refund_keys_def)
  then have "refunds_ok st'"
    using ok new(1,2) row by (simp add: refunds_but_def st' distinct_ids_def)
  moreover have "refunds_kept st st'" unfolding refunds_kept_def st' by auto
  ultimately show ?thesis ..
qed

lemma card_outcome [simp]:
  "refund_core (card_failed rv t m now r) = refund_core r" "rf_status (card_failed rv t m now r) = FAILED"
  "refund_core (card_completed rv t a u now r) = refund_core r" "rf_status (card_completed rv t a u now r) = COMPLETED"
  "rf_processed (card_failed rv t m now r) = rf_processed r" "rf_processed (card_completed rv t a u now r) = a"
  "rf_method (card_failed rv t m now r) = rf_method r" "rf_method (card_completed rv t a u now r) = rf_method r"
  "rf_requested (card_failed rv t m now r) = rf_requested r" "rf_requested (card_completed rv t a u now r) = rf_requested r"
  by (simp_all add: card_failed_def card_completed_def refund_core_def)

lemma str_or_strip: "t \<noteq> '''' \<Longrightarrow> strip t = t \<Longrightarrow> strip (str_or (str_or_none (strip s)) t) \<noteq> ''''"
  by (cases "strip s = ''''") (simp_all add: str_or_none_def str_or_def)

lemma card_failed_txn:
  "t \<noteq> '''' \<Longrightarrow> strip t = t \<Longrightarrow> strip (str_or (rf_txn_id (card_failed rv t m now r)) '''') \<noteq> ''''"
proof -
  assume t: "t \<noteq> ''''" "strip t = t"
  let ?u = "str_or (str_or_none (strip (str_or (rv_transaction_id rv) ''''))) t"
  have u: "strip ?u \<noteq> ''''" using str_or_strip [OF t] .
  have "strip '''' = ''''" by (simp add: strip_def)
  then have "?u \<noteq> ''''" using u by metis
  then have "str_or (Some ?u) '''' = ?u" by (simp add: str_or_def)
  then show ?thesis using u by (simp add: card_failed_def)
qed

lemma run_card_refund_cases:
  assumes d: "distinct_ids (bs_refunds st)" and run: "run_card_refund gw t amount u now org r st = Inr (st', r')"
  obtains rv f where "refund_or_void_transaction gw t amount (rid r) = Inr rv"
    "f = (if \<not> rv_success rv then card_failed rv t ''Braintree refund/void failed'' now else card_completed rv t amount u now)"
    "bs_refunds st' = rewrite (rid r) f (bs_refunds st)" "\<exists>s. r' = write_row f s \<and> s \<in> set (bs_refunds st) \<and> rid s = rid r"
    "st' = st\<lparr>bs_refunds := bs_refunds st', bs_refund_events := bs_refund_events st'\<rparr>"
proof -
  obtain rv where rv: "refund_or_void_transaction gw t amount (rid r) = Inr rv"
    using run by (auto simp: run_card_refund_def)
  let ?f = "if \<not> rv_success rv then card_failed rv t ''Braintree refund/void failed'' now else card_completed rv t amount u now"
  obtain st1 where upd: "update_refund (rid r) ?f (Some (version r)) (refund_in_org org) st = Inr (st1, r')"
    and st': "st' = append_refund_event (rid r') (if \<not> rv_success rv then RE_FAILED else RE_COMPLETED) (Some u) st1"
    using run unfolding run_card_refund_def rv bind_result_simps by (auto elim!: bind_result_InrE simp del: bind_result_Inr_iff)
  show thesis
    using d upd by (rule update_refund_cases) (use that [OF rv refl] in \<open>auto simp: st' append_refund_event_def\<close>)
qed

lemma refund_checks_Inr:
  assumes "refund_checks rq amount p st = Inr ()" and "is_money (bp_amount p)"
    and "is_money (total_non_reversed_refunded_for_payment (rid p) st)"
  shows "amount \<le> bp_amount p - total_non_reversed_refunded_for_payment (rid p) st
    \<and> (rq_type rq = FULL \<longleftrightarrow> amount = bp_amount p - total_non_reversed_refunded_for_payment (rid p) st)
    \<and> (rq_method rq = CARD_REFUND \<longrightarrow> strip (str_or (bp_txn_id p) '''') \<noteq> '''')"
  using assms by (cases "rq_type rq") (auto simp: refund_checks_def Let_def split: if_splits)

lemma create_refund_cases:
  assumes run: "create_refund gw rq now new_id number st = Inr (st', r)" and ok: "refunds_ok st"
  obtains (replayed) "st' = st" "truthy_str (rq_key rq)" "refund_with_key (rq_org rq) (the (rq_key rq)) st = Some r"
      "0 < quantize_half_up (rq_amount rq)"
  | (created) p where
      "get_by_id (rq_payment_id rq) (\<lambda>p. bp_org p = rq_org rq) (bs_payments st) = Some p"
      "refund_checks rq (quantize_half_up (rq_amount rq)) p st = Inr ()" "0 < quantize_half_up (rq_amount rq)"
      "truthy_str (rq_key rq) \<Longrightarrow> refund_with_key (rq_org rq) (the (rq_key rq)) st = None"
      "bs_refunds st' = bs_refunds st @ [r]" "rid r = new_id"
      "refund_core r = (number, rq_org rq, rq_payment_id rq, rq_method rq, quantize_half_up (rq_amount rq), rq_key rq)"
      "refund_shape r" "refunds_ok st' \<and> refunds_kept st st'"
      "st' = st\<lparr>bs_refunds := bs_refunds st', bs_refund_events := bs_refund_events st'\<rparr>"
      "rq_method rq \<noteq> CARD_REFUND \<Longrightarrow> rf_status r = (if rq_method rq = CREDIT_NOTE then COMPLETED else INITIATED)"
proof -
  let ?amt = "quantize_half_up (rq_amount rq)"
  have pos: "0 < ?amt" using run by (auto simp: create_refund_def Let_def split: if_splits)
  show thesis
  proof (cases "(if truthy_str (rq_key rq) then refund_with_key (rq_org rq) (the (rq_key rq)) st else None)")
    case (Some existing)
    then show thesis using run pos by (auto simp: create_refund_def Let_def split: if_splits intro: replayed)
  next
    case None
    obtain p where p: "get_by_id (rq_payment_id rq) (\<lambda>p. bp_org p = rq_org rq) (bs_payments st) = Some p"
        "refund_checks rq ?amt p st = Inr ()"
      and rest: "bind_result (insert_refund (new_refund rq p ?amt new_id number) st) (\<lambda>st1.
        bind_result (if rq_method rq \<noteq> CARD_REFUND
                     then update_refund new_id (settle_non_card rq ?amt now) (Some (version (new_refund rq p ?amt new_id number)))
                       (refund_in_org (rq_org rq)) st1
                     else Inr (st1, new_refund rq p ?amt new_id number)) (\<lambda>(st2, r).
        if rq_method rq = CARD_REFUND
        then run_card_refund gw (strip (str_or (bp_txn_id p) '''')) ?amt (rq_actor rq) now (rq_org rq) r
               (append_refund_event (rid r) RE_INITIATED (Some (rq_actor rq)) st2)
        else Inr (append_refund_event (rid r) RE_INITIATED (Some (rq_actor rq)) st2, r))) = Inr (st', r)"
      using run None pos by (auto simp: create_refund_def Let_def simp del: bind_result_Inr_iff elim!: bind_result_InrE split: if_splits)
    let ?r0 = "new_refund rq p ?amt new_id number"
    have core0: "refund_core ?r0 = (number, rq_org rq, rq_payment_id rq, rq_method rq, ?amt, rq_key rq)"
      using get_by_id_Some [OF p(1)] by (simp add: new_refund_def refund_core_def)
    obtain st1 where ins: "insert_refund ?r0 st = Inr st1" using rest by auto
    note new = insert_refund_Inr [OF ins]
    have rid0: "rid ?r0 = new_id" by (simp add: new_refund_def)
    have d1: "distinct_ids (bs_refunds st1)" using ok new by (auto simp: refunds_but_def distinct_ids_def)
    have fresh: "new_id \<notin> rid ` set (bs_refunds st)" using new rid0 by simp
    have only: "s = ?r0" if "s \<in> set (bs_refunds st1)" "rid s = new_id" for s
      using that new fresh by auto
    have finish: "refunds_ok st' \<and> refunds_kept st st'"
      if "bs_refunds st' = bs_refunds st @ [r]" "rid r = new_id" "refund_core r = refund_core ?r0" "refund_shape r"
      by (rule refunds_append [OF ok that(1)]) (use that new rid0 pos core0 in \<open>auto simp: refund_core_def\<close>)
    show thesis
    proof (cases "rq_method rq = CARD_REFUND")
      case True
      let ?t = "strip (str_or (bp_txn_id p) '''')"
      let ?st2 = "append_refund_event new_id RE_INITIATED (Some (rq_actor rq)) st1"
      have card: "run_card_refund gw ?t ?amt (rq_actor rq) now (rq_org rq) ?r0 ?st2 = Inr (st', r)"
        using rest ins True rid0 by simp
      have t: "?t \<noteq> ''''" using p(2) True by (auto simp: refund_checks_def Let_def split: if_splits)
      obtain rv f where f: "f = (if \<not> rv_success rv then card_failed rv ?t ''Braintree refund/void failed'' now
            else card_completed rv ?t ?amt (rq_actor rq) now)"
        and rows: "bs_refunds st' = rewrite new_id f (bs_refunds st1)"
        and r: "\<exists>s. r = write_row f s \<and> s \<in> set (bs_refunds st1) \<and> rid s = new_id"
        and same: "st' = ?st2\<lparr>bs_refunds := bs_refunds st', bs_refund_events := bs_refund_events st'\<rparr>"
        using run_card_refund_cases [OF _ card] d1 rid0 by (metis refunds_frame)
      have r0: "r = write_row f ?r0" using r only by (elim exE conjE) metis
      have 1: "bs_refunds st' = bs_refunds st @ [r]"
        using rows new rewrite_last [OF fresh rid0] r0 by simp
      have 2: "refund_core r = refund_core ?r0" by (simp add: r0 f)
      have 3: "refund_shape r"
        using True card_failed_txn [OF t strip_idem] by (simp add: r0 refund_shape_def f new_refund_def)
      have 4: "rid r = new_id" using r0 rid0 by simp
      have 5: "st' = st\<lparr>bs_refunds := bs_refunds st', bs_refund_events := bs_refund_events st'\<rparr>"
        using same new by (simp add: append_refund_event_def)
      show thesis
        by (rule created [OF p pos _ 1 4 _ 3 finish [OF 1 4 2 3] 5]) (use None True 2 core0 in auto)
    next
      case False
      obtain st2 where upd: "update_refund new_id (settle_non_card rq ?amt now) (Some (version ?r0)) (refund_in_org (rq_org rq)) st1
            = Inr (st2, r)"
        and st': "st' = append_refund_event (rid r) RE_INITIATED (Some (rq_actor rq)) st2"
        using rest ins False by (auto simp del: bind_result_Inr_iff elim!: bind_result_InrE)
      obtain s where s: "s \<in> set (bs_refunds st1)" "rid s = new_id"
        "st2 = st1\<lparr>bs_refunds := rewrite new_id (settle_non_card rq ?amt now) (bs_refunds st1)\<rparr>"
        "r = write_row (settle_non_card rq ?amt now) s"
        using d1 upd by (rule update_refund_cases)
      have r0: "r = write_row (settle_non_card rq ?amt now) ?r0" using s(4) only [OF s(1,2)] by simp
      have 1: "bs_refunds st' = bs_refunds st @ [r]"
        using s(3) new rewrite_last [OF fresh rid0] r0 by (simp add: st')
      have 2: "refund_core r = refund_core ?r0" by (simp add: r0 settle_non_card_def Let_def refund_core_def)
      have 3: "refund_shape r"
        using False by (cases "rq_method rq") (simp_all add: r0 refund_shape_def settle_non_card_def Let_def new_refund_def)
      have 4: "rid r = new_id" using r0 rid0 by simp
      have 5: "st' = st\<lparr>bs_refunds := bs_refunds st', bs_refund_events := bs_refund_events st'\<rparr>"
        using s(3) new by (simp add: st' append_refund_event_def)
      show thesis
        by (rule created [OF p pos _ 1 4 _ 3 finish [OF 1 4 2 3] 5])
          (use None False 2 core0 r0 in \<open>auto simp: settle_non_card_def Let_def\<close>)
    qed
  qed
qed

subsection \<open>Every operation keeps the refund table\<close>

definition keeps_refunds :: "(billing_state \<Rightarrow> (billing_state \<times> 'r) result) \<Rightarrow> bool" where
  "keeps_refunds oper \<longleftrightarrow> (\<forall>st st' r. refunds_ok st \<longrightarrow> oper st = Inr (st', r) \<longrightarrow> refunds_ok st' \<and> refunds_kept st st')"

lemma keeps_refundsI:
  "(\<And>st st' r. refunds_ok st \<Longrightarrow> oper st = Inr (st', r) \<Longrightarrow> refunds_ok st' \<and> refunds_kept st st') \<Longrightarrow> keeps_refunds oper"
  by (simp add: keeps_refunds_def)

lemma keeps_refundsD:
  "keeps_refunds oper \<Longrightarrow> oper st = Inr (st', r) \<Longrightarrow> refunds_ok st \<Longrightarrow> refunds_ok st' \<and> refunds_kept st st'"
  by (auto simp: keeps_refunds_def)

lemma refunds_ok_distinct: "refunds_but X st \<Longrightarrow> distinct_ids (bs_refunds st)"
  by (simp add: refunds_but_def)

lemma refunds_shape_of: "refunds_ok st \<Longrightarrow> r \<in> set (bs_refunds st) \<Longrightarrow> refund_shape r"
  by (simp add: refunds_but_def)

lemma update_refund_keeps:
  assumes ok: "refunds_but X st" and upd: "update_refund (rid r) f v scope st = Inr (st', r')"
    and r: "r \<in> set (bs_refunds st)"
    and f: "refund_core (f r) = refund_core r" "rf_status r \<noteq> COMPLETED \<or> (rf_status (f r) = COMPLETED \<and> rf_processed (f r) = rf_processed r)"
    and Y: "X \<subseteq> insert (rid r) Y" "rid r \<notin> Y \<longrightarrow> refund_shape (f r)"
  shows "refunds_but Y st' \<and> refunds_kept st st' \<and> r' = write_row f r \<and> r' \<in> set (bs_refunds st')
    \<and> st' = st\<lparr>bs_refunds := rewrite (rid r) f (bs_refunds st)\<rparr>"
proof -
  obtain s where s: "s \<in> set (bs_refunds st)" "rid s = rid r" "st' = st\<lparr>bs_refunds := rewrite (rid r) f (bs_refunds st)\<rparr>"
      "r' = write_row f s" "r' \<in> set (bs_refunds st')"
    using refunds_ok_distinct [OF ok] upd by (rule update_refund_cases)
  have uniq: "u = r" if "u \<in> set (bs_refunds st)" "rid u = rid r" for u
    using distinct_ids_unique [OF refunds_ok_distinct [OF ok] that(1) r that(2)] .
  have "refunds_but Y st'" unfolding s(3)
    by (rule refunds_rewrite [OF ok Y(1)]) (use f Y(2) uniq in blast)
  moreover have "refunds_kept st st'" unfolding s(3)
    by (rule refunds_kept_rewrite) (use f uniq in blast)
  ultimately show ?thesis using s uniq [OF s(1,2)] by simp
qed

lemma create_refund_keeps: "keeps_refunds (create_refund gw rq now new_id number)"
proof (rule keeps_refundsI)
  fix st st' r
  assume ok: "refunds_ok st" and run: "create_refund gw rq now new_id number st = Inr (st', r)"
  from run ok show "refunds_ok st' \<and> refunds_kept st st'" by (cases rule: create_refund_cases) (use ok in auto)
qed

lemma mark_refund_complete_cases:
  assumes ok: "refunds_ok st" and run: "mark_refund_complete org i u bs now st = Inr (st', r')"
  obtains r where "get_by_id i (refund_in_org org) (bs_refunds st) = Some r" "rf_method r = BANK_TRANSFER"
    "rf_status r = INITIATED" "rf_status r' = COMPLETED" "rf_processed r' = rf_requested r" "refund_core r' = refund_core r"
    "\<exists>f. st' = st\<lparr>bs_refunds := rewrite i f (bs_refunds st), bs_refund_events := bs_refund_events st'\<rparr>
       \<and> r' = write_row f r" "refunds_ok st' \<and> refunds_kept st st'"
proof -
  obtain r where r: "get_by_id i (refund_in_org org) (bs_refunds st) = Some r"
    using run by (auto simp: mark_refund_complete_def)
  have m: "r \<in> set (bs_refunds st)" "rid r = i" using get_by_id_Some [OF r] by simp_all
  have bank: "rf_method r = BANK_TRANSFER" "rf_status r = INITIATED"
    using run r refunds_shape_of [OF ok m(1)]
    by (auto simp: mark_refund_complete_def get_by_id_or_404_def refund_shape_def split: if_splits refund_method.splits)
  let ?f = "\<lambda>s. s\<lparr>rf_status := COMPLETED, rf_processed := rf_requested r,
            rf_processed_by := Some u, rf_completed_at := Some now,
            rf_braintree_status := (if truthy_str bs then bs else rf_braintree_status r),
            rf_braintree_status_at := (if truthy_str bs then Some now else rf_braintree_status_at r)\<rparr>"
  obtain st1 where upd: "update_refund (rid r) ?f (Some (version r)) (refund_in_org org) st = Inr (st1, r')"
    and st': "st' = append_refund_event i RE_MARKED_COMPLETED (Some u) st1"
    using run r bank m(2) unfolding mark_refund_complete_def
    by (auto simp: get_by_id_or_404_def simp del: bind_result_Inr_iff elim!: bind_result_InrE)
  have u: "refunds_ok st1 \<and> refunds_kept st st1 \<and> r' = write_row ?f r \<and> r' \<in> set (bs_refunds st1)
      \<and> st1 = st\<lparr>bs_refunds := rewrite (rid r) ?f (bs_refunds st)\<rparr>"
    by (rule update_refund_keeps [OF ok upd m(1)]) (use bank in \<open>simp_all add: refund_core_def refund_shape_def\<close>)
  then have st'_eq: "st' = st\<lparr>bs_refunds := rewrite i ?f (bs_refunds st), bs_refund_events := bs_refund_events st'\<rparr>"
    using m(2) by (simp add: st' append_refund_event_def)
  have kept: "refunds_ok st' \<and> refunds_kept st st'" using u unfolding st' refunds_event by (elim conjE) (intro conjI)
  have r': "r' = write_row ?f r" using u by blast
  have "rf_status r' = COMPLETED" "rf_processed r' = rf_requested r" "refund_core r' = refund_core r"
    by (simp_all add: r' refund_core_def)
  then show thesis using that [OF r bank _ _ _ _ kept] st'_eq r' by blast
qed

lemma mark_refund_complete_keeps: "keeps_refunds (mark_refund_complete org i u bs now)"
  by (rule keeps_refundsI) (erule mark_refund_complete_cases)

lemma retry_card_keeps:
  assumes ok: "refunds_ok st" and r: "r \<in> set (bs_refunds st)" "rf_method r = CARD_REFUND" "rf_status r = FAILED"
    and run: "retry_card_refund gw org u fc fm now r st = Inr (st', r')"
  shows "refunds_ok st' \<and> refunds_kept st st' \<and> r' \<in> set (bs_refunds st') \<and> rid r' = rid r \<and> refund_core r' = refund_core r
    \<and> st' = st\<lparr>bs_refunds := bs_refunds st'\<rparr>"
proof -
  let ?t = "strip (str_or (rf_txn_id r) '''')"
  let ?f = "\<lambda>s. s\<lparr>rf_status := PROCESSING, rf_retry_count := rf_retry_count r + 1,
             rf_failure_code := fc, rf_failure := fm,
             rf_braintree_status := Some ''RETRYING'', rf_braintree_status_at := Some now\<rparr>"
  obtain st1 base rv where t: "?t \<noteq> ''''"
    and upd: "update_refund (rid r) ?f (Some (version r)) (refund_in_org org) st = Inr (st1, base)"
    and upd2: "update_refund (rid base)
          (if \<not> rv_success rv then card_failed rv ?t ''Braintree refund/void failed on retry'' now
           else card_completed rv ?t (rf_requested base) u now)
          (Some (version base)) (refund_in_org org) st1 = Inr (st', r')"
    using run unfolding retry_card_refund_def Let_def
    by (auto simp del: bind_result_Inr_iff elim!: bind_result_InrE split: if_splits)
  have u1: "refunds_but {rid r} st1 \<and> refunds_kept st st1 \<and> base = write_row ?f r \<and> base \<in> set (bs_refunds st1)
      \<and> st1 = st\<lparr>bs_refunds := rewrite (rid r) ?f (bs_refunds st)\<rparr>"
    by (rule update_refund_keeps [OF ok upd r(1)]) (use r in \<open>simp_all add: refund_core_def\<close>)
  then have base: "rf_method base = CARD_REFUND" "rf_status base = PROCESSING" "rid base = rid r"
      "rf_processed base = 0" "refund_core base = refund_core r"
    using r refunds_shape_of [OF ok r(1)] by (auto simp: refund_shape_def refund_core_def)
  let ?g = "if \<not> rv_success rv then card_failed rv ?t ''Braintree refund/void failed on retry'' now
           else card_completed rv ?t (rf_requested base) u now"
  have shape: "refund_shape (?g base)"
    using base card_failed_txn [OF t strip_idem] by (simp add: refund_shape_def)
  have "refunds_but {rid r} st1" "base \<in> set (bs_refunds st1)" using u1 by blast+
  from update_refund_keeps [OF this(1) upd2 this(2), of "{}"]
  have "refunds_ok st' \<and> refunds_kept st1 st' \<and> r' = write_row ?g base \<and> r' \<in> set (bs_refunds st')
      \<and> st' = st1\<lparr>bs_refunds := rewrite (rid base) ?g (bs_refunds st1)\<rparr>"
    using base shape by auto
  note u2 = this
  have "refund_core r' = refund_core r" "rid r' = rid r" using u2 base by auto
  moreover have "refunds_kept st st'" using u1 u2 refunds_kept_trans by blast
  moreover have "st' = st\<lparr>bs_refunds := bs_refunds st'\<rparr>"
  proof -
    have "st1 = st\<lparr>bs_refunds := bs_refunds st1\<rparr>" "st' = st1\<lparr>bs_refunds := bs_refunds st'\<rparr>"
      using u1 u2 by simp_all
    then show ?thesis by (metis billing_state.update_convs(7) billing_state.surjective)
  qed
  ultimately show ?thesis using u2 by blast
qed

lemma retry_refund_keeps: "keeps_refunds (retry_refund gw org i u bs fc fm now)"
proof (rule keeps_refundsI)
  fix st st' r'
  assume ok: "refunds_ok st" and run: "retry_refund gw org i u bs fc fm now st = Inr (st', r')"
  obtain r where r: "get_by_id i (refund_in_org org) (bs_refunds st) = Some r" "rf_status r = FAILED"
    using run by (auto simp: retry_refund_def split: if_splits)
  have m: "r \<in> set (bs_refunds st)" using get_by_id_Some [OF r(1)] by simp
  then have card: "rf_method r = CARD_REFUND"
    using refunds_shape_of [OF ok m] r(2) by (auto simp: refund_shape_def split: refund_method.splits)
  obtain st1 where 1: "retry_card_refund gw org u fc fm now r st = Inr (st1, r')"
      "st' = append_refund_event (rid r) RE_RETRIED (Some u) st1"
    using run r card unfolding retry_refund_def
    by (auto simp: get_by_id_or_404_def simp del: bind_result_Inr_iff elim!: bind_result_InrE)
  show "refunds_ok st' \<and> refunds_kept st st'"
    using retry_card_keeps [OF ok m card r(2) 1(1)] by (simp add: 1(2))
qed

lemma issue_credit_note_same:
  assumes "refunds_ok st" and "issue_credit_note_for_refund org i u note today now new_id number st = Inr (st', r)"
  shows "st' = st"
proof -
  obtain r0 where r0: "get_by_id i (refund_in_org org) (bs_refunds st) = Some r0" "rf_method r0 = CREDIT_NOTE"
    using assms(2) by (auto simp: issue_credit_note_for_refund_def split: if_splits)
  then have "rf_status r0 = COMPLETED"
    using refunds_shape_of [OF assms(1), of r0] get_by_id_Some [OF r0(1)] by (simp add: refund_shape_def)
  then show ?thesis using assms(2) r0 by (simp add: issue_credit_note_for_refund_def get_by_id_or_404_def)
qed

lemma refund_status_keeps: "keeps_refunds (apply_braintree_refund_status i s now)"
proof (rule keeps_refundsI)
  fix st st' r'
  assume ok: "refunds_ok st" and run: "apply_braintree_refund_status i s now st = Inr (st', r')"
  show "refunds_ok st' \<and> refunds_kept st st'"
  proof (cases "r' = None")
    case True
    then show ?thesis using run ok by (auto simp: apply_braintree_refund_status_def Let_def split: if_splits option.splits)
  next
    case False
    let ?f = "\<lambda>u. u\<lparr>rf_braintree_status := normalize_braintree_status (Some s), rf_braintree_status_at := Some now\<rparr>"
    obtain r st1 x where r: "get_by_id (strip i) (\<lambda>_. True) (bs_refunds st) = Some r"
      and upd: "update_refund (rid r) ?f None (\<lambda>_. True) st = Inr (st1, x)"
      and st': "st' = append_refund_event (rid r) RE_BRAINTREE_STATUS_CHANGED None st1"
      using run False by (auto simp: apply_braintree_refund_status_def Let_def simp del: bind_result_Inr_iff
          elim!: bind_result_InrE split: if_splits option.splits)
    have m: "r \<in> set (bs_refunds st)" using get_by_id_Some [OF r] by simp
    have "refunds_ok st1 \<and> refunds_kept st st1 \<and> x = write_row ?f r \<and> x \<in> set (bs_refunds st1)
        \<and> st1 = st\<lparr>bs_refunds := rewrite (rid r) ?f (bs_refunds st)\<rparr>"
      by (rule update_refund_keeps [OF ok upd m])
        (use refunds_shape_of [OF ok m] in \<open>simp_all add: refund_core_def refund_shape_def split: refund_method.splits\<close>)
    then show ?thesis unfolding st' refunds_event by (elim conjE) (intro conjI)
  qed
qed

subsection \<open>The billing books\<close>

definition refund_only :: "billing_state \<Rightarrow> billing_state \<Rightarrow> bool" where
  "refund_only st st' \<longleftrightarrow> st'\<lparr>bs_refunds := bs_refunds st, bs_refund_events := bs_refund_events st\<rparr> = st"

lemma refund_only_iff:
  "refund_only st st' \<longleftrightarrow> (\<exists>rs es. st' = st\<lparr>bs_refunds := rs, bs_refund_events := es\<rparr>)"
  unfolding refund_only_def by (cases st; cases st') (auto simp: billing_state.defs)

lemma refund_only_trans: "refund_only st st' \<Longrightarrow> refund_only st' st'' \<Longrightarrow> refund_only st st''"
  unfolding refund_only_iff by (elim exE) (simp, intro exI, rule refl)

lemma refund_only_update: "update_refund i f v scope st = Inr (st', r) \<Longrightarrow> refund_only st st'"
  unfolding refund_only_iff by (cases st) (auto simp: update_refund_def billing_state.defs)

lemma refund_only_event: "refund_only st st' \<Longrightarrow> refund_only st (append_refund_event i t u st')"
  unfolding refund_only_iff by (cases st) (auto simp: append_refund_event_def billing_state.defs)

lemma refund_only_refl: "refund_only st st"
  by (simp add: refund_only_def)

lemma refund_only_books: "refund_only st st' \<Longrightarrow> books_but P I st' = books_but P I st"
  "refund_only st st' \<Longrightarrow> kept st0 st' = kept st0 st"
  by (auto simp: refund_only_iff books_but_def kept_def latest_outcome_def)

lemma run_card_refund_only: "run_card_refund gw t a u now org r st = Inr (st', r') \<Longrightarrow> refund_only st st'"
  unfolding run_card_refund_def
  by (auto simp del: bind_result_Inr_iff elim!: bind_result_InrE intro: refund_only_event dest: refund_only_update)

lemma insert_refund_only: "insert_refund r st = Inr st' \<Longrightarrow> refund_only st st'"
  by (cases st) (auto simp: refund_only_iff billing_state.defs dest!: insert_refund_Inr)

lemma refund_only_after_event: "refund_only (append_refund_event i t u st) st' \<Longrightarrow> refund_only st st'"
  using refund_only_trans refund_only_event refund_only_refl by blast

lemma create_refund_only: "create_refund gw rq now new_id number st = Inr (st', r) \<Longrightarrow> refund_only st st'"
  unfolding create_refund_def Let_def
  by (auto simp del: bind_result_Inr_iff elim!: bind_result_InrE split: if_splits option.splits
      intro!: refund_only_event refund_only_refl
      dest!: insert_refund_only refund_only_update run_card_refund_only refund_only_after_event intro: refund_only_trans)

lemma refund_ops_only:
  "mark_refund_complete org i u bs now st = Inr (st', r) \<Longrightarrow> refund_only st st'"
  "retry_card_refund gw org u fc fm now r0 st = Inr (st', r) \<Longrightarrow> refund_only st st'"
  "apply_braintree_refund_status i s now st = Inr (st', ro) \<Longrightarrow> refund_only st st'"
  unfolding mark_refund_complete_def retry_card_refund_def apply_braintree_refund_status_def Let_def
  by (auto simp del: bind_result_Inr_iff elim!: bind_result_InrE split: if_splits option.splits
      intro!: refund_only_event refund_only_refl dest!: refund_only_update intro: refund_only_trans)

lemma retry_refund_only: "retry_refund gw org i u bs fc fm now st = Inr (st', r) \<Longrightarrow> refund_only st st'"
  unfolding retry_refund_def
  by (auto simp del: bind_result_Inr_iff elim!: bind_result_InrE split: if_splits
      intro!: refund_only_event dest!: refund_only_update refund_ops_only(2))

lemma refund_only_keeps: "(\<And>st st' r. oper st = Inr (st', r) \<Longrightarrow> refund_only st st') \<Longrightarrow> keeps_books oper"
proof (rule keeps_booksI)
  fix st st' r
  assume only: "\<And>st st' r. oper st = Inr (st', r) \<Longrightarrow> refund_only st st'" and ok: "books_ok st" and run: "oper st = Inr (st', r)"
  from only [OF run] ok show "books_ok st' \<and> kept st st'" by (simp add: refund_only_books)
qed

lemma refunds_keep_books:
  shows "keeps_books (create_refund gw rq now new_id number)"
    and "keeps_books (mark_refund_complete org i u bs now)"
    and "keeps_books (retry_refund gw org i u bs fc fm now)"
    and "keeps_books (apply_braintree_refund_status i s now)"
proof -
  show "keeps_books (create_refund gw rq now new_id number)" by (rule refund_only_keeps) (rule create_refund_only)
  show "keeps_books (mark_refund_complete org i u bs now)" by (rule refund_only_keeps) (rule refund_ops_only(1))
  show "keeps_books (retry_refund gw org i u bs fc fm now)" by (rule refund_only_keeps) (rule retry_refund_only)
  show "keeps_books (apply_braintree_refund_status i s now)" by (rule refund_only_keeps) (rule refund_ops_only(3))
qed

subsection \<open>Runs\<close>

inductive refund_step :: "billing_state \<Rightarrow> billing_state \<Rightarrow> bool" where
  rs_create: "create_refund gw rq now new_id number st = Inr (st', r) \<Longrightarrow> refund_step st st'"
| rs_complete: "mark_refund_complete org i u bs now st = Inr (st', r) \<Longrightarrow> refund_step st st'"
| rs_retry: "retry_refund gw org i u bs fc fm now st = Inr (st', r) \<Longrightarrow> refund_step st st'"
| rs_issue: "issue_credit_note_for_refund org i u note today now new_id number st = Inr (st', r) \<Longrightarrow> refund_step st st'"
| rs_status: "apply_braintree_refund_status i s now st = Inr (st', ro) \<Longrightarrow> refund_step st st'"

inductive_cases refund_step_cases: "refund_step st st'"

lemma refund_step_keeps: "refunds_ok st \<Longrightarrow> refund_step st st' \<Longrightarrow> refunds_ok st' \<and> refunds_kept st st'"
  by (erule refund_step_cases)
    (auto dest: keeps_refundsD [OF create_refund_keeps] keeps_refundsD [OF mark_refund_complete_keeps]
      keeps_refundsD [OF retry_refund_keeps] keeps_refundsD [OF refund_status_keeps] issue_credit_note_same)

interpretation refunds: guarded_machine refund_step refunds_ok refunds_kept
proof
  show "refunds_ok st'" if "refunds_ok st" "refund_step st st'" for st st' using refund_step_keeps [OF that] ..
  show "refunds_kept st st'" if "refunds_ok st" "refund_step st st'" for st st' using refund_step_keeps [OF that] ..
  show "refunds_kept st st" for st by simp
  show "refunds_kept s u" if "refunds_kept s t" "refunds_kept t u" for s t u using refunds_kept_trans that by blast
qed

subsection \<open>Amounts\<close>

lemma refunded_money:
  assumes "refunds_ok st"
  shows "is_money (total_non_reversed_refunded_for_payment p st)" "0 \<le> total_non_reversed_refunded_for_payment p st"
proof -
  have "is_money (rf_processed r) \<and> 0 \<le> rf_processed r" if "r \<in> set (bs_refunds st)" for r
  proof -
    have "refund_shape r" "is_money (rf_requested r)" "0 < rf_requested r" using assms that by (simp_all add: refunds_but_def)
    then show ?thesis by (auto simp: refund_shape_def)
  qed
  then show "is_money (total_non_reversed_refunded_for_payment p st)" "0 \<le> total_non_reversed_refunded_for_payment p st"
    unfolding total_non_reversed_refunded_for_payment_def by (auto intro: is_money_sum_where sum_where_nonneg)
qed

lemma sum_where_rewrite:
  assumes "distinct_ids rows" and "r \<in> set rows" and "rid r = i"
  shows "sum_where P g (rewrite i f rows) = sum_where P g rows - (if P r then g r else 0)
     + (if P (write_row f r) then g (write_row f r) else 0)"
  using assms
proof (induction rows)
  case Nil
  then show ?case by simp
next
  case (Cons s rows)
  show ?case
  proof (cases "s = r")
    case True
    then have "i \<notin> rid ` set rows" using Cons.prems by (auto simp: distinct_ids_def)
    then have "map (\<lambda>s. if rid s = i then write_row f s else s) rows = rows" by (intro map_idI) (metis imageI)
    then show ?thesis using True Cons.prems(3) by (simp add: rewrite_def)
  next
    case False
    then have "rid s \<noteq> i" "r \<in> set rows" "distinct_ids rows"
      using Cons.prems by (auto simp: distinct_ids_def image_iff)
    then show ?thesis using Cons.IH Cons.prems(3) by (simp add: rewrite_def)
  qed
qed

lemma completed_adds:
  assumes ok: "refunds_ok st" and run: "mark_refund_complete org i u bs now st = Inr (st', r')"
  shows "total_non_reversed_refunded_for_payment p st' = total_non_reversed_refunded_for_payment p st
     + (if p = rf_payment_id r' then rf_requested r' else 0)"
  using run
proof (rule mark_refund_complete_cases [OF ok])
  fix r
  assume r: "get_by_id i (refund_in_org org) (bs_refunds st) = Some r" "rf_method r = BANK_TRANSFER" "rf_status r = INITIATED"
    and r': "rf_status r' = COMPLETED" "rf_processed r' = rf_requested r" "refund_core r' = refund_core r"
    and "\<exists>f. st' = st\<lparr>bs_refunds := rewrite i f (bs_refunds st), bs_refund_events := bs_refund_events st'\<rparr> \<and> r' = write_row f r"
  then obtain f where f: "st' = st\<lparr>bs_refunds := rewrite i f (bs_refunds st), bs_refund_events := bs_refund_events st'\<rparr>"
    "r' = write_row f r" by blast
  have m: "r \<in> set (bs_refunds st)" "rid r = i" using get_by_id_Some [OF r(1)] by simp_all
  have "bs_refunds st' = rewrite i f (bs_refunds st)"
    by (subst f(1)) simp
  then have "total_non_reversed_refunded_for_payment p st' = total_non_reversed_refunded_for_payment p st
      - (if rf_payment_id r = p \<and> rf_status r \<noteq> REVERSED then rf_processed r else 0)
      + (if rf_payment_id r' = p \<and> rf_status r' \<noteq> REVERSED then rf_processed r' else 0)"
    unfolding total_non_reversed_refunded_for_payment_def
    using sum_where_rewrite [OF refunds_ok_distinct [OF ok] m, where P = "\<lambda>r. rf_payment_id r = p \<and> rf_status r \<noteq> REVERSED"
        and g = rf_processed and f = f] by (simp add: f(2))
  moreover have "rf_processed r = 0" using refunds_shape_of [OF ok m(1)] r(3) by (simp add: refund_shape_def)
  ultimately show ?thesis using r' by (simp add: refund_core_def)
qed

lemma update_refund_ok:
  assumes "distinct_ids (bs_refunds st)" and "r \<in> set (bs_refunds st)" and "scope r" and "scope (write_row f r)"
  shows "update_refund (rid r) f (Some (version r)) scope st
     = Inr (st\<lparr>bs_refunds := rewrite (rid r) f (bs_refunds st)\<rparr>, write_row f r)"
  using update_by_id_ok [OF assms(1) get_by_id_distinct [where scope = scope, OF assms(1-3)] assms(4)] by (simp add: update_refund_def)

lemma create_bank_refund_ok:
  assumes ok: "refunds_ok st"
    and p: "get_by_id (rq_payment_id rq) (\<lambda>p. bp_org p = rq_org rq) (bs_payments st) = Some p" "is_money (bp_amount p)"
    and rq: "rq_method rq = BANK_TRANSFER" "rq_type rq = FULL" "rq_invoice_id rq = None" "rq_key rq = None"
      "rq_amount rq = bp_amount p - total_non_reversed_refunded_for_payment (rid p) st" "0 < rq_amount rq"
    and fresh: "new_id \<notin> rid ` set (bs_refunds st)" "number \<notin> rf_number ` set (bs_refunds st)"
  shows "\<exists>st' r. create_refund gw rq now new_id number st = Inr (st', r)"
proof -
  have q: "quantize_half_up (rq_amount rq) = rq_amount rq" using rq(5) p(2) refunded_money(1) [OF ok] by simp
  have ch: "refund_checks rq (rq_amount rq) p st = Inr ()"
    using rq p(2) refunded_money(1) [OF ok] by (simp add: refund_checks_def Let_def)
  let ?r0 = "new_refund rq p (rq_amount rq) new_id number"
  let ?st1 = "st\<lparr>bs_refunds := bs_refunds st @ [?r0]\<rparr>"
  have r0: "rid ?r0 = new_id" "rf_number ?r0 = number" "rf_key ?r0 = None" "rf_requested ?r0 = rq_amount rq"
    "rf_processed ?r0 = rq_amount rq" "rf_org ?r0 = rq_org rq" using rq by (simp_all add: new_refund_def)
  have ins: "insert_refund ?r0 st = Inr ?st1"
    using fresh rq(6) r0 by (simp add: insert_refund_def create_row_def)
  have "distinct_ids (bs_refunds ?st1)" using ok fresh(1) r0(1) by (simp add: refunds_but_def distinct_ids_def)
  from update_refund_ok [OF this, of ?r0 "refund_in_org (rq_org rq)" "settle_non_card rq (rq_amount rq) now"]
  obtain x where "update_refund new_id (settle_non_card rq (rq_amount rq) now) (Some (version ?r0))
      (refund_in_org (rq_org rq)) ?st1 = Inr x"
    using r0 by (simp add: refund_in_org_def settle_non_card_def Let_def)
  then show ?thesis
    using p(1) rq ch ins q by (cases x) (simp add: create_refund_def Let_def get_by_id_or_404_def)
qed

lemma mark_refund_complete_ok:
  assumes ok: "refunds_ok st" and r: "r \<in> set (bs_refunds st)" "rf_method r = BANK_TRANSFER" "rf_status r = INITIATED"
  shows "\<exists>st' r'. mark_refund_complete (rf_org r) (rid r) u bs now st = Inr (st', r')"
proof -
  have d: "distinct_ids (bs_refunds st)" using ok by (rule refunds_ok_distinct)
  have g: "get_by_id (rid r) (refund_in_org (rf_org r)) (bs_refunds st) = Some r"
    by (rule get_by_id_distinct [OF d r(1)]) (simp add: refund_in_org_def)
  let ?f = "\<lambda>s. s\<lparr>rf_status := COMPLETED, rf_processed := rf_requested r,
            rf_processed_by := Some u, rf_completed_at := Some now,
            rf_braintree_status := (if truthy_str bs then bs else rf_braintree_status r),
            rf_braintree_status_at := (if truthy_str bs then Some now else rf_braintree_status_at r)\<rparr>"
  have "update_refund (rid r) ?f (Some (version r)) (refund_in_org (rf_org r)) st
      = Inr (st\<lparr>bs_refunds := rewrite (rid r) ?f (bs_refunds st)\<rparr>, write_row ?f r)"
    by (rule update_refund_ok [OF d r(1)]) (simp_all add: refund_in_org_def)
  then show ?thesis
    using g r(2,3) by (simp add: mark_refund_complete_def get_by_id_or_404_def)
qed

lemma bank_refund_created:
  assumes ok: "refunds_ok st"
    and p: "get_by_id (rq_payment_id rq) (\<lambda>p. bp_org p = rq_org rq) (bs_payments st) = Some p" "is_money (bp_amount p)"
    and rq: "rq_method rq = BANK_TRANSFER" "rq_type rq = FULL" "rq_invoice_id rq = None" "rq_key rq = None"
      "rq_amount rq = bp_amount p - total_non_reversed_refunded_for_payment (rid p) st" "0 < rq_amount rq"
    and fresh: "new_id \<notin> rid ` set (bs_refunds st)" "number \<notin> rf_number ` set (bs_refunds st)"
  shows "\<exists>st' r. create_refund gw rq now new_id number st = Inr (st', r) \<and> bs_refunds st' = bs_refunds st @ [r]
    \<and> rid r = new_id \<and> rf_method r = BANK_TRANSFER \<and> rf_status r = INITIATED \<and> rf_processed r = 0
    \<and> rf_number r = number \<and> rf_org r = rq_org rq \<and> rf_payment_id r = rq_payment_id rq \<and> rf_requested r = rq_amount rq
    \<and> refunds_ok st' \<and> bs_payments st' = bs_payments st
    \<and> total_non_reversed_refunded_for_payment (rid p) st' = total_non_reversed_refunded_for_payment (rid p) st"
proof -
  have amt: "quantize_half_up (rq_amount rq) = rq_amount rq" using rq(5) p(2) refunded_money(1) [OF ok] by simp
  obtain st' r where run: "create_refund gw rq now new_id number st = Inr (st', r)"
    using create_bank_refund_ok [OF assms] by blast
  from run ok have "bs_refunds st' = bs_refunds st @ [r] \<and> rid r = new_id \<and> rf_status r = INITIATED \<and> rf_processed r = 0
    \<and> refund_core r = (number, rq_org rq, rq_payment_id rq, BANK_TRANSFER, rq_amount rq, None)
    \<and> refunds_ok st' \<and> bs_payments st' = bs_payments st"
  proof (cases rule: create_refund_cases)
    case replayed
    with rq(4) show ?thesis by simp
  next
    case (created q)
    have "rf_status r = INITIATED" using created(11) rq(1) by simp
    moreover from this have "rf_processed r = 0" using created(8) by (simp add: refund_shape_def)
    moreover have "bs_payments st' = bs_payments st" by (subst created(10)) simp
    ultimately show ?thesis using created(5-7,9) amt rq by simp
  qed
  with run show ?thesis
    by (intro exI [of _ st'] exI [of _ r]) (simp add: refund_core_def total_non_reversed_refunded_for_payment_def)
qed

lemma bank_refund_completed:
  assumes ok: "refunds_ok st" and r: "r \<in> set (bs_refunds st)" "rf_method r = BANK_TRANSFER" "rf_status r = INITIATED"
  shows "\<exists>st' r'. mark_refund_complete (rf_org r) (rid r) u bs now st = Inr (st', r') \<and> refunds_ok st'
    \<and> total_non_reversed_refunded_for_payment (rf_payment_id r) st'
        = total_non_reversed_refunded_for_payment (rf_payment_id r) st + rf_requested r
    \<and> (\<forall>s \<in> set (bs_refunds st). rid s \<noteq> rid r \<longrightarrow> s \<in> set (bs_refunds st'))"
proof -
  obtain st' r' where run: "mark_refund_complete (rf_org r) (rid r) u bs now st = Inr (st', r')"
    using mark_refund_complete_ok [OF assms] by blast
  note sum = completed_adds [OF ok run]
  from run have "rf_payment_id r' = rf_payment_id r \<and> rf_requested r' = rf_requested r \<and> refunds_ok st'
    \<and> (\<forall>s \<in> set (bs_refunds st). rid s \<noteq> rid r \<longrightarrow> s \<in> set (bs_refunds st'))"
  proof (rule mark_refund_complete_cases [OF ok])
    fix r0
    assume g: "get_by_id (rid r) (refund_in_org (rf_org r)) (bs_refunds st) = Some r0"
      and core: "refund_core r' = refund_core r0" and ok': "refunds_ok st' \<and> refunds_kept st st'"
      and "\<exists>f. st' = st\<lparr>bs_refunds := rewrite (rid r) f (bs_refunds st), bs_refund_events := bs_refund_events st'\<rparr> \<and> r' = write_row f r0"
    then obtain f where f: "st' = st\<lparr>bs_refunds := rewrite (rid r) f (bs_refunds st), bs_refund_events := bs_refund_events st'\<rparr>"
      by blast
    have "r0 = r" using g get_by_id_distinct [where scope = "refund_in_org (rf_org r)", OF refunds_ok_distinct [OF ok] r(1)]
      by (simp add: refund_in_org_def)
    moreover have "bs_refunds st' = rewrite (rid r) f (bs_refunds st)" by (subst f) simp
    then have "\<forall>s \<in> set (bs_refunds st). rid s \<noteq> rid r \<longrightarrow> s \<in> set (bs_refunds st')" by (auto simp: set_rewrite image_iff)
    ultimately show ?thesis using core ok' by (simp add: refund_core_def)
  qed
  with run sum show ?thesis by auto
qed

subsection \<open>A sample\<close>

definition sample_gateway :: gateway where
  "sample_gateway = \<lparr>gw_find = (\<lambda>_. Inr \<lparr>gt_status = ''Settled'', gt_type = ''sale'', gt_amount = Some 100,
       gt_refunded_transaction_id = None, gt_refund_id = None\<rparr>),
     gw_void = (\<lambda>_. Inr \<lparr>ga_success = False, ga_transaction_id = None, ga_message = None\<rparr>),
     gw_refund = (\<lambda>_ _ _. Inr \<lparr>ga_success = True, ga_transaction_id = Some ''t2'', ga_message = None\<rparr>)\<rparr>"

definition sample_refund_request :: refund_request where
  "sample_refund_request = \<lparr>rq_org = ''o1'', rq_payment_id = ''p1'', rq_amount = 40, rq_type = PARTIAL,
     rq_method = CREDIT_NOTE, rq_reason_category = ''OTHER'', rq_reason = ''damaged'', rq_actor = ''u'',
     rq_invoice_id = None, rq_key = Some ''k1''\<rparr>"

lemma sample_refunds_ok: "refunds_ok sample_billing"
  by (simp add: refunds_but_def sample_billing_def empty_billing_def distinct_ids_def refund_keys_def)

lemma sample_no_refunds: "bs_refunds sample_billing = []"
  by (simp add: sample_billing_def empty_billing_def)

lemma sample_refund_created:
  "(case create_refund sample_gateway sample_refund_request 50 ''r1'' ''REF-000001'' sample_billing of
      Inl _ \<Rightarrow> False | Inr x \<Rightarrow> rf_key (snd x) = Some ''k1'' \<and> rf_org (snd x) = ''o1''
        \<and> (case issue_credit_note_for_refund ''o1'' ''r1'' ''u'' None 50 50 ''n1'' ''CN-000001'' (fst x) of
             Inl _ \<Rightarrow> False | Inr y \<Rightarrow> rid (snd y) = ''r1''))"
  by code_simp

lemma sample_reversal:
  "(case refund_or_void_transaction sample_gateway ''t1'' 40 ''r1'' of Inl _ \<Rightarrow> False | Inr rv \<Rightarrow> rv_success rv)"
  by code_simp

lemma sample_created:
  obtains st r where "create_refund sample_gateway sample_refund_request 50 ''r1'' ''REF-000001'' sample_billing = Inr (st, r)"
    "refund_step sample_billing st" "refunds_ok st" "r \<in> set (bs_refunds st)" "rf_key r = Some ''k1''" "rf_org r = ''o1''"
    "\<exists>st' r'. issue_credit_note_for_refund ''o1'' ''r1'' ''u'' None 50 50 ''n1'' ''CN-000001'' st = Inr (st', r')"
proof -
  obtain st r where run: "create_refund sample_gateway sample_refund_request 50 ''r1'' ''REF-000001'' sample_billing = Inr (st, r)"
    and key: "rf_key r = Some ''k1''" "rf_org r = ''o1''"
    and issue: "\<exists>st' r'. issue_credit_note_for_refund ''o1'' ''r1'' ''u'' None 50 50 ''n1'' ''CN-000001'' st = Inr (st', r')"
    using sample_refund_created unfolding result_ok by (auto simp: result_ok)
  have "r \<in> set (bs_refunds st)"
    using run sample_refunds_ok
    by (cases rule: create_refund_cases) (simp_all add: refund_with_key_def sample_no_refunds)
  with run key issue show thesis
    using that rs_create [OF run] refund_step_keeps [OF sample_refunds_ok] by blast
qed

subsection \<open>Properties\<close>

text \<open>C13: a refund never asks for more than is left of the payment. When a request is not a replay,
  the new refund is at least a penny, asks for at most the payment amount less what was refunded before,
  and for exactly that when it is a full refund; what counts as refunded afterwards still fits
  the payment, and it has grown by the request when the money went out at once (a card reversal that
  succeeded or a credit note) and not at all otherwise.\<close>

theorem refund_stays_within_payment:
  assumes books: "books_ok st" and ok: "refunds_ok st"
    and run: "create_refund gw rq now new_id number st = Inr (st', r)" and new: "r \<notin> set (bs_refunds st)"
  shows "\<exists>p \<in> set (bs_payments st). rid p = rf_payment_id r \<and> 1 / 100 \<le> rf_requested r
    \<and> rf_requested r \<le> bp_amount p - total_non_reversed_refunded_for_payment (rid p) st
    \<and> (rq_type rq = FULL \<longleftrightarrow> rf_requested r = bp_amount p - total_non_reversed_refunded_for_payment (rid p) st)
    \<and> total_non_reversed_refunded_for_payment (rid p) st'
        = total_non_reversed_refunded_for_payment (rid p) st + (if rf_status r = COMPLETED then rf_requested r else 0)
    \<and> total_non_reversed_refunded_for_payment (rid p) st' \<le> bp_amount p"
  using run ok
proof (cases rule: create_refund_cases)
  case replayed
  then have "r \<in> set (bs_refunds st)" using find_Some_set by (fastforce simp: refund_with_key_def)
  with new show ?thesis by simp
next
  case (created p)
  have p: "p \<in> set (bs_payments st)" "rid p = rq_payment_id rq" using get_by_id_Some [OF created(1)] by simp_all
  have m: "is_money (bp_amount p)" using books p(1) by (simp add: books_but_def)
  note ch = refund_checks_Inr [OF created(2) m refunded_money(1) [OF ok]]
  have core: "rf_payment_id r = rid p" "rf_requested r = quantize_half_up (rq_amount rq)"
    using created(7) p by (simp_all add: refund_core_def)
  have proc: "rf_processed r = (if rf_status r = COMPLETED then rf_requested r else 0)"
    using created(8) by (simp add: refund_shape_def)
  have "1 / 100 \<le> rf_requested r" using is_money_step [OF is_money_0 quantize_half_up_money created(3)] core by simp
  moreover have "total_non_reversed_refunded_for_payment (rid p) st'
      = total_non_reversed_refunded_for_payment (rid p) st + (if rf_status r = COMPLETED then rf_requested r else 0)"
    using created(5) core proc by (simp add: total_non_reversed_refunded_for_payment_def)
  ultimately show ?thesis using p(1) core ch by (intro bexI [of _ p]) auto
qed

lemma refund_stays_within_payment_witness:
  "\<exists>st r. create_refund sample_gateway sample_refund_request 50 ''r1'' ''REF-000001'' sample_billing = Inr (st, r)
     \<and> 1 / 100 \<le> rf_requested r"
proof (rule sample_created)
  fix st r
  assume run: "create_refund sample_gateway sample_refund_request 50 ''r1'' ''REF-000001'' sample_billing = Inr (st, r)"
  have "r \<notin> set (bs_refunds sample_billing)" by (simp add: sample_no_refunds)
  from refund_stays_within_payment [OF sample_billing_ok sample_refunds_ok run this] run show ?thesis by blast
qed

text \<open>A request that repeats the idempotency key of an earlier refund of the organisation returns
  that refund and changes nothing, whatever it asks for and whatever payment it names, as long as the
  amount is positive and the refund is still stored.\<close>

theorem refund_key_replays:
  assumes ok: "refunds_ok st" and row: "r \<in> set (bs_refunds st)" and key: "rf_key r = Some k" "k \<noteq> ''''"
    and rq: "rq_org rq = rf_org r" "rq_key rq = Some k" "0 < quantize_half_up (rq_amount rq)"
  shows "create_refund gw rq now new_id number st = Inr (st, r)"
proof -
  have uniq: "s = r" if "s \<in> set (bs_refunds st)" "rf_org s = rf_org r" "rf_key s = Some k" for s
  proof -
    have "distinct (refund_keys (bs_refunds st))" using ok by (simp add: refunds_but_def)
    then have "inj_on (\<lambda>r. (rf_org r, rf_key r)) (set (filter (\<lambda>r. rf_key r \<noteq> None) (bs_refunds st)))"
      by (simp add: refund_keys_def distinct_map)
    then show ?thesis using that row key(1) by (auto dest: inj_onD)
  qed
  have "find (\<lambda>s. rf_org s = rf_org r \<and> rf_key s = Some k) (bs_refunds st) \<noteq> None"
    using row key(1) by (auto simp: find_None_iff)
  then obtain s where s: "find (\<lambda>s. rf_org s = rf_org r \<and> rf_key s = Some k) (bs_refunds st) = Some s" by auto
  then have "refund_with_key (rq_org rq) k st = Some r"
    using find_Some_set [OF s] uniq by (simp add: refund_with_key_def rq(1))
  moreover have "\<not> quantize_half_up (rq_amount rq) \<le> 0" using rq(3) by simp
  moreover have "truthy_str (Some k)" using key(2) by (cases k) simp_all
  ultimately show ?thesis using rq(2) by (simp add: create_refund_def Let_def)
qed

lemma refund_key_replays_witness:
  "\<exists>st r. r \<in> set (bs_refunds st)
     \<and> create_refund sample_gateway sample_refund_request 60 ''r2'' ''REF-000002'' st = Inr (st, r)"
proof (rule sample_created)
  fix st r
  assume ok: "refunds_ok st" and row: "r \<in> set (bs_refunds st)" and key: "rf_key r = Some ''k1''" and org: "rf_org r = ''o1''"
  have q: "quantize_half_up 40 = 40" by code_simp
  have "create_refund sample_gateway sample_refund_request 60 ''r2'' ''REF-000002'' st = Inr (st, r)"
    by (rule refund_key_replays [OF ok row key]) (simp_all add: sample_refund_request_def org q)
  with row show ?thesis by blast
qed

text \<open>C31: over any sequence of refund operations, with any answers of the payment provider: a card
  refund is stored as completed or failed (a failed one with a transaction to retry), a bank transfer as
  initiated or completed, a credit-note refund as completed; the processed amount is the requested
  one when the refund is completed and nothing otherwise; numbers and idempotency keys are unique; and
  no refund disappears, changes its payment, method, amount or key, or leaves the completed state.\<close>

theorem refund_runs_keep_the_table:
  assumes "refund_step\<^sup>*\<^sup>* st st'" and "refunds_ok st"
  shows "(\<forall>r \<in> set (bs_refunds st'). refund_shape r) \<and> distinct (map rf_number (bs_refunds st'))
    \<and> distinct (refund_keys (bs_refunds st'))
    \<and> (\<forall>r \<in> set (bs_refunds st). \<exists>s \<in> set (bs_refunds st'). rid s = rid r \<and> refund_core s = refund_core r
        \<and> (rf_status r = COMPLETED \<longrightarrow> rf_status s = COMPLETED \<and> rf_processed s = rf_processed r))"
  using refunds.run_invariant [OF assms] unfolding refunds_kept_def by (simp add: refunds_but_def)

lemma refund_runs_keep_the_table_witness:
  "\<exists>st. refund_step\<^sup>*\<^sup>* sample_billing st \<and> bs_refunds st \<noteq> [] \<and> (\<forall>r \<in> set (bs_refunds st). refund_shape r)"
proof (rule sample_created)
  fix st r
  assume "refund_step sample_billing st" and "r \<in> set (bs_refunds st)"
  then have "refund_step\<^sup>*\<^sup>* sample_billing st" "bs_refunds st \<noteq> []" by auto
  with refund_runs_keep_the_table [OF this(1) sample_refunds_ok] show ?thesis by blast
qed

text \<open>No credit note is ever issued for a refund. A credit-note refund is completed when it is
  created, so in every state the refund operations reach the operation that should issue the note
  leaves everything as it is.\<close>

theorem refund_credit_note_never_issued:
  assumes "refund_step\<^sup>*\<^sup>* st0 st" and "refunds_ok st0"
    and "issue_credit_note_for_refund org i u note today now new_id number st = Inr (st', r)"
  shows "st' = st \<and> rf_method r = CREDIT_NOTE \<and> rf_status r = COMPLETED"
proof -
  have ok: "refunds_ok st" using refunds.run_good [OF assms(1,2)] .
  then have same: "st' = st" using assms(3) by (rule issue_credit_note_same)
  have "r \<in> set (bs_refunds st)" "rf_method r = CREDIT_NOTE"
    using assms(3) same refunds_shape_of [OF ok] get_by_id_Some
    by (fastforce simp: issue_credit_note_for_refund_def refund_shape_def simp del: bind_result_Inr_iff
        elim!: bind_result_InrE split: if_splits)+
  then have "rf_status r = COMPLETED" using refunds_shape_of [OF ok] by (force simp: refund_shape_def)
  with same \<open>rf_method r = CREDIT_NOTE\<close> show ?thesis by simp
qed

lemma refund_credit_note_never_issued_witness:
  "\<exists>st r. refund_step\<^sup>*\<^sup>* sample_billing st
     \<and> issue_credit_note_for_refund ''o1'' ''r1'' ''u'' None 50 50 ''n1'' ''CN-000001'' st = Inr (st, r) \<and> rf_status r = COMPLETED"
proof (rule sample_created)
  fix st r
  assume "refund_step sample_billing st"
    and "\<exists>st' r'. issue_credit_note_for_refund ''o1'' ''r1'' ''u'' None 50 50 ''n1'' ''CN-000001'' st = Inr (st', r')"
  then obtain st' r' where run: "refund_step\<^sup>*\<^sup>* sample_billing st"
      "issue_credit_note_for_refund ''o1'' ''r1'' ''u'' None 50 50 ''n1'' ''CN-000001'' st = Inr (st', r')" by auto
  from refund_credit_note_never_issued [OF run(1) sample_refunds_ok run(2)] run show ?thesis by blast
qed

text \<open>C32: refunds by bank transfer can pay a payment back twice. A bank refund counts as refunded only
  when it is marked complete, and neither a second full request nor the completion looks at the
  other open requests: from any consistent state, two full bank refunds of the same payment can
  both be created and both be completed, and then exactly its remaining amount too much is refunded.\<close>

theorem bank_refunds_can_exceed_payment:
  assumes books: "books_ok st" and ok: "refunds_ok st"
    and p: "p \<in> set (bs_payments st)" "0 < bp_amount p - total_non_reversed_refunded_for_payment (rid p) st"
    and rq: "rq = \<lparr>rq_org = bp_org p, rq_payment_id = rid p,
       rq_amount = bp_amount p - total_non_reversed_refunded_for_payment (rid p) st, rq_type = FULL,
       rq_method = BANK_TRANSFER, rq_reason_category = ''OTHER'', rq_reason = '''', rq_actor = u,
       rq_invoice_id = None, rq_key = None\<rparr>"
    and fresh: "i1 \<notin> rid ` set (bs_refunds st)" "i2 \<notin> rid ` set (bs_refunds st)" "i1 \<noteq> i2"
      "n1 \<notin> rf_number ` set (bs_refunds st)" "n2 \<notin> rf_number ` set (bs_refunds st)" "n1 \<noteq> n2"
  shows "\<exists>st1 st2 st3 st4 r1 r2 r3 r4. create_refund gw rq now i1 n1 st = Inr (st1, r1)
    \<and> create_refund gw rq now i2 n2 st1 = Inr (st2, r2)
    \<and> mark_refund_complete (bp_org p) i1 u None now st2 = Inr (st3, r3)
    \<and> mark_refund_complete (bp_org p) i2 u None now st3 = Inr (st4, r4)
    \<and> total_non_reversed_refunded_for_payment (rid p) st4 = bp_amount p + rq_amount rq"
proof -
  let ?T = "\<lambda>st. total_non_reversed_refunded_for_payment (rid p) st"
  have m: "is_money (bp_amount p)" using books p(1) by (simp add: books_but_def)
  have found: "get_by_id (rq_payment_id rq) (\<lambda>q. bp_org q = rq_org rq) (bs_payments st) = Some p"
    using get_by_id_distinct [where scope = "\<lambda>q. bp_org q = bp_org p", OF books_distinct(1) [OF books] p(1)] by (simp add: rq)
  have q: "rq_method rq = BANK_TRANSFER" "rq_type rq = FULL" "rq_invoice_id rq = None" "rq_key rq = None"
      "rq_amount rq = bp_amount p - ?T st" "0 < rq_amount rq" "rq_org rq = bp_org p" "rq_payment_id rq = rid p"
    using p(2) by (simp_all add: rq)
  obtain st1 r1 where 1: "create_refund gw rq now i1 n1 st = Inr (st1, r1)" "bs_refunds st1 = bs_refunds st @ [r1]"
      "rid r1 = i1" "rf_method r1 = BANK_TRANSFER" "rf_status r1 = INITIATED" "rf_number r1 = n1" "rf_org r1 = bp_org p"
      "rf_payment_id r1 = rid p" "rf_requested r1 = rq_amount rq" "refunds_ok st1" "bs_payments st1 = bs_payments st" "?T st1 = ?T st"
    using bank_refund_created [OF ok found m q(1-6) fresh(1,4)] q(7,8) by metis
  have "\<exists>st' r. create_refund gw rq now i2 n2 st1 = Inr (st', r) \<and> bs_refunds st' = bs_refunds st1 @ [r]
    \<and> rid r = i2 \<and> rf_method r = BANK_TRANSFER \<and> rf_status r = INITIATED \<and> rf_processed r = 0
    \<and> rf_number r = n2 \<and> rf_org r = rq_org rq \<and> rf_payment_id r = rq_payment_id rq \<and> rf_requested r = rq_amount rq
    \<and> refunds_ok st' \<and> bs_payments st' = bs_payments st1 \<and> ?T st' = ?T st1"
    by (rule bank_refund_created [OF 1(10) _ m q(1-4) _ q(6)]) (use 1 found q(5) fresh in auto)
  then obtain st2 r2 where 2: "create_refund gw rq now i2 n2 st1 = Inr (st2, r2)" "bs_refunds st2 = bs_refunds st1 @ [r2]"
      "rid r2 = i2" "rf_method r2 = BANK_TRANSFER" "rf_status r2 = INITIATED" "rf_org r2 = bp_org p"
      "rf_payment_id r2 = rid p" "rf_requested r2 = rq_amount rq" "refunds_ok st2" "?T st2 = ?T st1"
    using q(7,8) by metis
  have in2: "r1 \<in> set (bs_refunds st2)" "r2 \<in> set (bs_refunds st2)" using 1(2) 2(2) by simp_all
  obtain st3 r3 where 3: "mark_refund_complete (bp_org p) i1 u None now st2 = Inr (st3, r3)" "refunds_ok st3"
      "?T st3 = ?T st2 + rq_amount rq" "\<forall>s \<in> set (bs_refunds st2). rid s \<noteq> i1 \<longrightarrow> s \<in> set (bs_refunds st3)"
    using bank_refund_completed [OF 2(9) in2(1) 1(4,5), of u None now] 1(3,7,8,9) by metis
  have "r2 \<in> set (bs_refunds st3)" using 3(4) in2(2) 2(3) fresh(3) by auto
  from bank_refund_completed [OF 3(2) this 2(4,5), of u None now]
  obtain st4 r4 where 4: "mark_refund_complete (bp_org p) i2 u None now st3 = Inr (st4, r4)" "?T st4 = ?T st3 + rq_amount rq"
    using 2(3,6,7,8) by metis
  have "?T st4 = bp_amount p + rq_amount rq" using 4(2) 3(3) 2(10) 1(12) q(5) by simp
  with 1(1) 2(1) 3(1) 4(1) show ?thesis by blast
qed

lemma bank_refunds_can_exceed_payment_witness:
  "\<exists>st. total_non_reversed_refunded_for_payment ''p1'' st = 200 \<and> (\<exists>p \<in> set (bs_payments sample_billing). rid p = ''p1'' \<and> bp_amount p = 100)"
proof -
  let ?p = "new_payment sample_payment_input None 0 ''p1''"
  have q: "quantize_half_up 100 = 100" by code_simp
  have p: "?p \<in> set (bs_payments sample_billing)" "rid ?p = ''p1''" "bp_amount ?p = 100"
    using q by (simp_all add: sample_billing_def new_payment_def sample_payment_input_def Let_def)
  have none: "total_non_reversed_refunded_for_payment (rid ?p) sample_billing = 0"
    by (simp add: total_non_reversed_refunded_for_payment_def sample_no_refunds)
  have pos: "0 < bp_amount ?p - total_non_reversed_refunded_for_payment (rid ?p) sample_billing" using p none by simp
  from bank_refunds_can_exceed_payment [OF sample_billing_ok sample_refunds_ok p(1) pos refl,
      where gw = sample_gateway and u = "''u''" and now = 50
        and ?i1.0 = "''r1''" and ?i2.0 = "''r2''" and ?n1.0 = "''A''" and ?n2.0 = "''B''"]
  obtain st4 where "total_non_reversed_refunded_for_payment (rid ?p) st4 = bp_amount ?p + bp_amount ?p"
    using none by (auto simp: sample_no_refunds)
  then show ?thesis using p by auto
qed

text \<open>The reversal of a card transaction asks the provider to move money only when nothing was
  reversed before. Whenever it reports success, the transaction found under the trimmed id is no credit, no refund
  record and not refunded already, and either it had not settled, was asked for in full (or its amount is
  unknown) and the provider voided it, or it was settling or settled and the provider refunded
  exactly the requested amount.\<close>

theorem reversal_only_when_open:
  assumes "refund_or_void_transaction gw t amount oid = Inr rv" and "rv_success rv"
  shows "\<exists>tx answer. gw_find gw (strip t) = Inr tx \<and> ga_success answer
    \<and> py_lower (strip (gt_type tx)) \<noteq> ''credit'' \<and> \<not> truthy_str (gt_refunded_transaction_id tx)
    \<and> strip (str_or (gt_refund_id tx) '''') = ''''
    \<and> (rv_action rv = ''void'' \<and> gw_void gw (strip t) = Inr answer
         \<and> py_lower (strip (gt_status tx)) \<in> {''authorized'', ''submitted_for_settlement'', ''settlement_pending''}
         \<and> (gt_amount tx = None \<or> map_option quantize_half_even (gt_amount tx) = Some (quantize_half_even amount))
       \<or> rv_action rv = ''refund'' \<and> py_lower (strip (gt_status tx)) \<in> {''settling'', ''settled''}
         \<and> gw_refund gw (strip t) (quantize_half_even amount) (take 255 (strip oid)) = Inr answer)"
proof -
  obtain tx where tx: "gw_find gw (strip t) = Inr tx" and ne: "strip t \<noteq> ''''"
    using assms(1) by (auto simp: refund_or_void_transaction_def Let_def split: if_splits)
  define status where "status = py_lower (strip (gt_status tx))"
  define voided declined where "voided = (status = ''voided'')" and "declined = (status = ''settlement_declined'')"
  define credit where "credit = (py_lower (strip (gt_type tx)) = ''credit'')"
  define voidable where "voidable = (status \<in> {''authorized'', ''submitted_for_settlement'', ''settlement_pending''})"
  define refundable where "refundable = (status \<in> {''settling'', ''settled''})"
  define refunded where "refunded = (strip (str_or (gt_refund_id tx) '''') \<noteq> '''')"
  define partial where "partial = (gt_amount tx \<noteq> None \<and> quantize_half_even amount \<noteq> quantize_half_even (the (gt_amount tx)))"
  have fails: "rv_success (not_reversed a b c d) = False" for a b c d by (simp add: not_reversed_def)
  note run = assms(1) [unfolded refund_or_void_transaction_def Let_def tx bind_result_simps,
      folded status_def, folded voided_def declined_def credit_def voidable_def refundable_def refunded_def partial_def]
  have 1: "\<not> voided" using run ne assms(2) fails by (cases voided) (simp only: if_True if_False simp_thms sum.inject, metis)+
  have 2: "\<not> declined" using run ne 1 assms(2) fails
    by (cases declined) (simp only: if_True if_False simp_thms sum.inject, metis)+
  have 3: "\<not> credit" using run ne 1 2 assms(2) fails
    by (cases credit) (simp only: if_True if_False simp_thms sum.inject, metis)+
  have 4: "\<not> truthy_str (gt_refunded_transaction_id tx)" using run ne 1 2 3 assms(2) fails
    by (cases "truthy_str (gt_refunded_transaction_id tx)") (simp only: if_True if_False simp_thms sum.inject, metis)+
  have 5: "\<not> refunded" using run ne 1 2 3 4 assms(2) fails
    by (cases refunded) (simp only: if_True if_False simp_thms sum.inject, metis)+
  note open_tx = 1 2 3 4 5
  have rest: "(if voidable then
          (if partial then Inr (not_reversed ''void'' (strip t) (Some (strip t))
             ''Partial void is not supported by Braintree. Use full amount for void or wait for settlement and refund partial.'')
           else bind_result (gw_void gw (strip t)) (\<lambda>answer.
             Inr \<lparr>rv_success = ga_success answer, rv_action = ''void'', rv_original = strip t,
               rv_transaction_id = Some (strip t),
               rv_message = (if ga_success answer then None else str_or_none (strip (str_or (ga_message answer) '''')))\<rparr>))
        else if \<not> refundable
        then Inr (not_reversed ''none'' (strip t) (Some (strip t))
          (''Transaction status '' @ CHR 0x27 # str_or (Some status) ''unknown'' @ CHR 0x27 # '' is not refundable yet.''))
        else bind_result (gw_refund gw (strip t) (quantize_half_even amount) (take 255 (strip oid))) (\<lambda>answer.
          Inr \<lparr>rv_success = ga_success answer, rv_action = ''refund'', rv_original = strip t,
            rv_transaction_id =
              (if ga_success answer then str_or_none (strip (str_or (ga_transaction_id answer) '''')) else None),
            rv_message = (if ga_success answer then None else str_or_none (strip (str_or (ga_message answer) '''')))\<rparr>)) = Inr rv"
    using run ne open_tx by (simp only: if_False simp_thms not_False_eq_True if_True)
  have facts: "py_lower (strip (gt_type tx)) \<noteq> ''credit''" "strip (str_or (gt_refund_id tx) '''') = ''''"
    using open_tx unfolding credit_def refunded_def by blast+
  show ?thesis
  proof (cases voidable)
    case True
    with rest have "\<not> partial" using assms(2) fails by (cases partial) auto
    then obtain answer where "gw_void gw (strip t) = Inr answer" "ga_success answer" "rv_action rv = ''void''"
      using rest True assms(2) by (auto elim!: bind_result_InrE simp del: bind_result_Inr_iff)
    moreover have "gt_amount tx = None \<or> map_option quantize_half_even (gt_amount tx) = Some (quantize_half_even amount)"
      using \<open>\<not> partial\<close> unfolding partial_def by auto
    ultimately show ?thesis using tx open_tx facts True unfolding status_def voidable_def by blast
  next
    case False
    with rest have "refundable" using assms(2) fails by (cases refundable) auto
    moreover from this obtain answer where "ga_success answer" "rv_action rv = ''refund''"
        "gw_refund gw (strip t) (quantize_half_even amount) (take 255 (strip oid)) = Inr answer"
      using rest False assms(2) by (auto elim!: bind_result_InrE simp del: bind_result_Inr_iff)
    ultimately show ?thesis using tx open_tx facts unfolding status_def refundable_def by blast
  qed
qed

lemma reversal_only_when_open_witness:
  "\<exists>rv tx. refund_or_void_transaction sample_gateway ''t1'' 40 ''r1'' = Inr rv \<and> gw_find sample_gateway (strip ''t1'') = Inr tx
     \<and> py_lower (strip (gt_type tx)) \<noteq> ''credit''"
proof -
  obtain rv where rv: "refund_or_void_transaction sample_gateway ''t1'' 40 ''r1'' = Inr rv" "rv_success rv"
    using sample_reversal unfolding result_ok by blast
  from reversal_only_when_open [OF rv] rv(1) show ?thesis by blast
qed

end
