(* ===== verification/Ledger.thy ===== *)
theory Ledger
  imports Refunds
begin

text \<open>
  The billing module as one machine: a step is one call of an operation of the invoice, payment,
  credit-note or refund services that returns without an exception (a call that raises rolls its
  transaction back). The interface \<open>guarded_machine\<close> is interpreted on it with the invariant of the
  books and of the refund table, so both hold after every run.
\<close>

named_theorems refund_frame \<open>steps that leave the refund table alone\<close>

subsection \<open>Operations that leave the refunds alone\<close>

lemma refund_frame_simps [refund_frame, simp]:
  "bs_refunds (append_invoice_event i t reason ax st) = bs_refunds st"
  "bs_refunds (append_payment_event p pt u st) = bs_refunds st"
  "bs_refunds (billing_audit a e ax r s st) = bs_refunds st"
  "bs_refunds (audit_if ctx a e r s st) = bs_refunds st"
  "bs_refunds (push_job j st) = bs_refunds st"
  "bs_refunds (enqueue_qb_payment_sync p org st) = bs_refunds st"
  "bs_refunds (enqueue_qb_invoice_sync oid i trigger st) = bs_refunds st"
  "bs_refunds (replace_line_items i items st) = bs_refunds st"
  "bs_refunds (append_allocation p ev u tg st) = bs_refunds st"
  "bs_refunds (announce_void org c rv why ax st) = bs_refunds st"
  by (simp_all add: append_invoice_event_def append_payment_event_def billing_audit_def audit_if_def push_job_def
      enqueue_qb_payment_sync_def enqueue_qb_invoice_sync_def replace_line_items_def append_allocation_def
      announce_void_def Let_def split: option.splits)

lemma refund_frame_fold [simp]: "bs_refunds (fold (append_allocation p ev u) ts st) = bs_refunds st"
  by (induction ts arbitrary: st) simp_all

lemma refund_frame_rows [refund_frame]:
  "update_invoice i f v scope st = Inr (st', r) \<Longrightarrow> bs_refunds st' = bs_refunds st"
  "update_payment p g w scope' st = Inr (st', q) \<Longrightarrow> bs_refunds st' = bs_refunds st"
  "update_credit_note c h v scope'' st = Inr (st', n) \<Longrightarrow> bs_refunds st' = bs_refunds st"
  "insert_invoice iv st = Inr st' \<Longrightarrow> bs_refunds st' = bs_refunds st"
  "insert_payment pay st = Inr st' \<Longrightarrow> bs_refunds st' = bs_refunds st"
  "insert_credit_note cn st = Inr st' \<Longrightarrow> bs_refunds st' = bs_refunds st"
  by (auto simp: update_invoice_def update_payment_def update_credit_note_def insert_invoice_def insert_payment_def
      insert_credit_note_def split: if_splits)

lemma refund_frame_recompute [refund_frame]:
  "recompute_invoice_projection today i st = Inr (st', r) \<Longrightarrow> bs_refunds st' = bs_refunds st"
  "recompute_payment_projection p st = Inr st' \<Longrightarrow> bs_refunds st' = bs_refunds st"
  by (auto simp: recompute_invoice_projection_def recompute_payment_projection_def Let_def
      dest!: refund_frame_rows split: if_splits)

lemma refund_frame_recomputes [refund_frame]:
  "recompute_invoice_projections today is st = Inr st' \<Longrightarrow> bs_refunds st' = bs_refunds st"
  by (induction "is" arbitrary: st) (auto dest!: refund_frame_recompute)

lemma keeps_refunds_same:
  assumes "\<And>st st' r. oper st = Inr (st', r) \<Longrightarrow> bs_refunds st' = bs_refunds st"
  shows "keeps_refunds oper"
proof (rule keeps_refundsI)
  fix st st' r
  assume ok: "refunds_ok st" and run: "oper st = Inr (st', r)"
  show "refunds_ok st' \<and> refunds_kept st st'"
    using ok assms [OF run] by (auto simp: refunds_but_def refunds_kept_def)
qed

lemma refund_frame_drafts [refund_frame]:
  "create_draft d ax i n st = Inr (st', r) \<Longrightarrow> bs_refunds st' = bs_refunds st"
  "create_and_finalize d ax q i n st = Inr (st', r) \<Longrightarrow> bs_refunds st' = bs_refunds st"
  "update_draft today i patch org ax st = Inr (st', r) \<Longrightarrow> bs_refunds st' = bs_refunds st"
  "finalize i org ax st = Inr (st', r) \<Longrightarrow> bs_refunds st' = bs_refunds st"
  by (auto simp: create_draft_def create_and_finalize_def update_draft_def finalize_def Let_def
      dest!: refund_frame_rows refund_frame_recompute split: if_splits)

lemma refund_frame_invoices [refund_frame]:
  "close_invoice t m a today i reason org ax st = Inr (st', r) \<Longrightarrow> bs_refunds st' = bs_refunds st"
  "sync_from_order today od pkgs iss due ax i n st = Inr (st', r) \<Longrightarrow> bs_refunds st' = bs_refunds st"
  "persist_internal_note i note v org action severity ax st = Inr (st', r) \<Longrightarrow> bs_refunds st' = bs_refunds st"
  unfolding close_invoice_def sync_from_order_def persist_internal_note_def Let_def
  by (auto simp del: bind_result_Inr_iff elim!: bind_result_InrE
      dest!: refund_frame_rows refund_frame_recompute refund_frame_drafts split: if_splits option.splits)

lemma refund_frame_payments [refund_frame]:
  "record_payment d now ctx i st = Inr (st', r) \<Longrightarrow> bs_refunds st' = bs_refunds st"
  "create_pending_payment d c now ctx i st = Inr (st', r) \<Longrightarrow> bs_refunds st' = bs_refunds st"
  "mark_payment_status org p s t bs fee u q now st = Inr (st', r) \<Longrightarrow> bs_refunds st' = bs_refunds st"
  "void_payment org p u reason ev ctx st = Inr (st', r) \<Longrightarrow> bs_refunds st' = bs_refunds st"
  "update_payment_notes org p notes u ev ctx st = Inr (st', r) \<Longrightarrow> bs_refunds st' = bs_refunds st"
  "apply_braintree_payment_status p bst now st = Inr (st', ro) \<Longrightarrow> bs_refunds st' = bs_refunds st"
  "apply_braintree_dispute_status p di ds am fe now st = Inr (st', ro) \<Longrightarrow> bs_refunds st' = bs_refunds st"
  unfolding record_payment_def create_pending_payment_def mark_payment_status_def void_payment_def
    update_payment_notes_def apply_braintree_payment_status_def apply_braintree_dispute_status_def Let_def
  by (auto simp del: bind_result_Inr_iff elim!: bind_result_InrE dest!: refund_frame_rows split: if_splits option.splits)

lemma refund_frame_allocations [refund_frame]:
  "add_or_revise_allocations today p al u ctx st = Inr (st', r) \<Longrightarrow> bs_refunds st' = bs_refunds st"
  "apply_allocation_targets today pay ts u st = Inr (st', touched) \<Longrightarrow> bs_refunds st' = bs_refunds st"
  unfolding add_or_revise_allocations_def apply_allocation_targets_def Let_def
  by (auto simp del: bind_result_Inr_iff elim!: bind_result_InrE dest!: refund_frame_recompute refund_frame_recomputes
      split: if_splits option.splits)

lemma refund_frame_replacing [refund_frame]:
  "record_payment_with_allocations today pin now ctx i al st = Inr (st', r) \<Longrightarrow> bs_refunds st' = bs_refunds st"
  "replace_allocations today p al u ctx st = Inr (st', r) \<Longrightarrow> bs_refunds st' = bs_refunds st"
  "remove_allocation today p iid u ctx st = Inr (st', r) \<Longrightarrow> bs_refunds st' = bs_refunds st"
  unfolding record_payment_with_allocations_def replace_allocations_def remove_allocation_def Let_def
  by (auto simp del: bind_result_Inr_iff elim!: bind_result_InrE dest!: refund_frame_payments refund_frame_allocations
      split: if_splits option.splits)

lemma refund_frame_notes [refund_frame]:
  "create_credit_note users org src cust iss amt cat reason i n st = Inr (st', r) \<Longrightarrow> bs_refunds st' = bs_refunds st"
  "apply_credit_note_auto today c i org u cust b2b st = Inr (st', a) \<Longrightarrow> bs_refunds st' = bs_refunds st"
  "create_reversal_for_credit_note_void today cn tot why ax i n st = Inr (st', iv) \<Longrightarrow> bs_refunds st' = bs_refunds st"
  unfolding create_credit_note_def apply_credit_note_auto_def create_reversal_for_credit_note_void_def Let_def
  by (auto simp del: bind_result_Inr_iff elim!: bind_result_InrE
      dest!: refund_frame_rows refund_frame_recompute refund_frame_drafts split: if_splits option.splits prod.splits)

lemma refund_frame_void [refund_frame]:
  "void_credit_note today c org reason ax i n st = Inr (st', r) \<Longrightarrow> bs_refunds st' = bs_refunds st"
  unfolding void_credit_note_def Let_def
  by (auto simp del: bind_result_Inr_iff elim!: bind_result_InrE
      simp: map_sum_Inr dest!: refund_frame_rows refund_frame_notes split: if_splits option.splits prod.splits)

text \<open>Deleting a draft clears references of refunds to it; the note operations go through one update.\<close>

lemma refunds_of_deleted:
  assumes ok: "refunds_ok st" and rows: "bs_refunds st' = map (\<lambda>r. if rf_invoice_id r = Some i then r\<lparr>rf_invoice_id := None\<rparr> else r)
     (bs_refunds st)"
  shows "refunds_ok st' \<and> refunds_kept st st'"
proof -
  let ?g = "\<lambda>r. if rf_invoice_id r = Some i then r\<lparr>rf_invoice_id := None\<rparr> else r"
  have same: "rid (?g r) = rid r" "rf_number (?g r) = rf_number r" "rf_org (?g r) = rf_org r" "rf_key (?g r) = rf_key r"
    "rf_requested (?g r) = rf_requested r" "refund_shape (?g r) = refund_shape r" "refund_core (?g r) = refund_core r"
    "rf_status (?g r) = rf_status r" "rf_processed (?g r) = rf_processed r" for r
    by (auto simp: refund_core_def refund_shape_def split: refund_method.splits)
  have shape: "refund_shape (r\<lparr>rf_invoice_id := None\<rparr>) = refund_shape r" for r
    by (simp add: refund_shape_def split: refund_method.splits)
  have keys: "refund_keys (map ?g rs) = refund_keys rs" for rs by (induction rs) (simp_all add: refund_keys_def)
  have maps: "map rid (map ?g rs) = map rid rs" "map rf_number (map ?g rs) = map rf_number rs" for rs
    using same(1,2) by (induction rs) simp_all
  have "refunds_ok st'"
    using ok unfolding refunds_but_def distinct_ids_def rows keys maps by (auto simp: same shape)
  moreover have "refunds_kept st st'" unfolding refunds_kept_def rows
  proof
    fix r assume "r \<in> set (bs_refunds st)"
    then have "?g r \<in> set (map ?g (bs_refunds st))" by auto
    then show "\<exists>s\<in>set (map ?g (bs_refunds st)). rid s = rid r \<and> refund_core s = refund_core r
        \<and> (rf_status r = COMPLETED \<longrightarrow> rf_status s = COMPLETED \<and> rf_processed s = rf_processed r)"
      by (rule rev_bexI) (simp only: same simp_thms)
  qed
  ultimately show ?thesis ..
qed

lemma delete_draft_refunds:
  "refunds_ok st \<Longrightarrow> delete_draft i org ax st = Inr st' \<Longrightarrow> refunds_ok st' \<and> refunds_kept st st'"
  by (rule refunds_of_deleted)
    (auto simp: delete_draft_def billing_audit_def simp del: bind_result_Inr_iff elim!: bind_result_InrE split: if_splits)

lemma refund_frame_internal_notes [refund_frame]:
  "upsert_invoice_internal_note i note v org ax st = Inr (st', r) \<Longrightarrow> bs_refunds st' = bs_refunds st"
  "create_invoice_internal_note i note v org ax st = Inr (st', r) \<Longrightarrow> bs_refunds st' = bs_refunds st"
  "delete_invoice_internal_note i v org ax st = Inr (st', r) \<Longrightarrow> bs_refunds st' = bs_refunds st"
  unfolding upsert_invoice_internal_note_def create_invoice_internal_note_def delete_invoice_internal_note_def Let_def
  by (auto simp del: bind_result_Inr_iff elim!: bind_result_InrE dest!: refund_frame_invoices split: if_splits)

subsection \<open>Steps\<close>

text \<open>
  One call of a billing service. \<open>mark_payment_status\<close> is called with DEPOSITED only, by the payment step
  of the order service, so \<open>deposit\<close> fixes that status.
\<close>

inductive billing_step :: "billing_state \<Rightarrow> billing_state \<Rightarrow> bool" where
  create_draft: "create_draft d ax i n st = Inr (st', iv) \<Longrightarrow> billing_step st st'"
| create_and_finalize: "create_and_finalize d ax q i n st = Inr (st', iv) \<Longrightarrow> billing_step st st'"
| update_draft: "update_draft today i patch org ax st = Inr (st', iv) \<Longrightarrow> billing_step st st'"
| delete_draft: "delete_draft i org ax st = Inr st' \<Longrightarrow> billing_step st st'"
| finalize: "finalize i org ax st = Inr (st', iv) \<Longrightarrow> billing_step st st'"
| void_invoice: "void_invoice today i reason org ax st = Inr (st', iv) \<Longrightarrow> billing_step st st'"
| write_off: "write_off today i reason org ax st = Inr (st', iv) \<Longrightarrow> billing_step st st'"
| sync: "sync_from_order today od pkgs iss due ax i n st = Inr (st', iv) \<Longrightarrow> billing_step st st'"
| note_put: "upsert_invoice_internal_note i note v org ax st = Inr (st', iv) \<Longrightarrow> billing_step st st'"
| note_post: "create_invoice_internal_note i note v org ax st = Inr (st', iv) \<Longrightarrow> billing_step st st'"
| note_delete: "delete_invoice_internal_note i v org ax st = Inr (st', iv) \<Longrightarrow> billing_step st st'"
| recording: "record_payment pin now ctx i st = Inr (st', p) \<Longrightarrow> billing_step st st'"
| pending: "create_pending_payment pin c now ctx i st = Inr (st', p) \<Longrightarrow> billing_step st st'"
| deposit: "mark_payment_status org i DEPOSITED t bst fee u q now st = Inr (st', p) \<Longrightarrow> billing_step st st'"
| void_payment: "void_payment org i u reason ev ctx st = Inr (st', p) \<Longrightarrow> billing_step st st'"
| payment_notes: "update_payment_notes org i notes u ev ctx st = Inr (st', p) \<Longrightarrow> billing_step st st'"
| payment_status: "apply_braintree_payment_status i bst now st = Inr (st', po) \<Longrightarrow> billing_step st st'"
| payment_dispute: "apply_braintree_dispute_status i di ds am fe now st = Inr (st', po) \<Longrightarrow> billing_step st st'"
| allocate: "add_or_revise_allocations today i al u ctx st = Inr (st', p) \<Longrightarrow> billing_step st st'"
| record_allocated: "record_payment_with_allocations today pin now ctx i al st = Inr (st', p) \<Longrightarrow> billing_step st st'"
| replace: "replace_allocations today i al u ctx st = Inr (st', p) \<Longrightarrow> billing_step st st'"
| remove: "remove_allocation today i iid u ctx st = Inr (st', p) \<Longrightarrow> billing_step st st'"
| issue_note: "create_credit_note users org src cust iss amt cat why i n st = Inr (st', cn) \<Longrightarrow> billing_step st st'"
| apply_note: "apply_credit_note_auto today c i org u cust b2b st = Inr (st', a) \<Longrightarrow> billing_step st st'"
| void_note: "void_credit_note today c org reason ax i n st = Inr (st', cn) \<Longrightarrow> billing_step st st'"
| refunding: "refund_step st st' \<Longrightarrow> billing_step st st'"

inductive_cases billing_step_cases: "billing_step st st'"

lemma braintree_keeps_both:
  "keeps_books (apply_braintree_payment_status i bst now)"
  "keeps_books (apply_braintree_dispute_status i di ds am fe now)"
  by (rule braintree_keeps)+

lemma refund_step_books: "books_ok st \<Longrightarrow> refunds_ok st \<Longrightarrow> refund_step st st' \<Longrightarrow> books_ok st' \<and> kept st st'"
  by (erule refund_step_cases)
    (auto dest: keeps_booksD [OF refunds_keep_books(1)] keeps_booksD [OF refunds_keep_books(2)]
      keeps_booksD [OF refunds_keep_books(3)] keeps_booksD [OF refunds_keep_books(4)] issue_credit_note_same)

lemma closing_keeps: "keeps_books (void_invoice today i reason org ax)" "keeps_books (write_off today i reason org ax)"
  unfolding void_invoice_def write_off_def by (rule close_invoice_keeps, simp)+

lemmas billing_keeps = create_draft_keeps create_and_finalize_keeps update_draft_keeps finalize_keeps closing_keeps
  sync_from_order_keeps internal_note_keeps record_payment_keeps create_pending_payment_keeps
  mark_payment_status_keeps [of DEPOSITED, simplified] void_payment_keeps update_payment_notes_keeps braintree_keeps_both
  add_or_revise_keeps record_with_allocations_keeps replacing_keeps create_credit_note_keeps apply_credit_keeps
  void_credit_note_keeps

lemmas billing_step_keeps = billing_keeps [THEN keeps_booksD]

lemma billing_step_books: "billing_step st st' \<Longrightarrow> books_ok st \<Longrightarrow> refunds_ok st \<Longrightarrow> books_ok st' \<and> kept st st'"
proof (erule billing_step_cases)
  assume "books_ok st" "refunds_ok st" "refund_step st st'"
  then show "books_ok st' \<and> kept st st'" by (rule refund_step_books)
next
  fix i org ax
  assume "books_ok st" "delete_draft i org ax st = Inr st'"
  then show "books_ok st' \<and> kept st st'" by (rule delete_draft_books)
qed (erule (1) billing_step_keeps)+


lemma refund_frame_closing [refund_frame]:
  "void_invoice today i reason org ax st = Inr (st', iv) \<Longrightarrow> bs_refunds st' = bs_refunds st"
  "write_off today i reason org ax st = Inr (st', iv) \<Longrightarrow> bs_refunds st' = bs_refunds st"
  unfolding void_invoice_def write_off_def by (rule refund_frame_invoices, assumption)+

lemma same_refunds: "bs_refunds st' = bs_refunds st \<Longrightarrow> refunds_ok st \<Longrightarrow> refunds_ok st' \<and> refunds_kept st st'"
  by (auto simp: refunds_but_def refunds_kept_def)

lemma billing_step_refunds: "billing_step st st' \<Longrightarrow> refunds_ok st \<Longrightarrow> refunds_ok st' \<and> refunds_kept st st'"
proof (erule billing_step_cases)
  assume "refunds_ok st" "refund_step st st'"
  then show "refunds_ok st' \<and> refunds_kept st st'" by (rule refund_step_keeps)
next
  fix i org ax
  assume "refunds_ok st" "delete_draft i org ax st = Inr st'"
  then show "refunds_ok st' \<and> refunds_kept st st'" by (rule delete_draft_refunds)
qed (rule same_refunds, erule refund_frame, assumption)+

abbreviation ledger_ok :: "billing_state \<Rightarrow> bool" where
  "ledger_ok st \<equiv> books_ok st \<and> refunds_ok st"

interpretation billing: guarded_machine billing_step ledger_ok "\<lambda>st st'. kept st st' \<and> refunds_kept st st'"
proof
  fix s t assume ok: "ledger_ok s" and run: "billing_step s t"
  then have "books_ok t \<and> kept s t" "refunds_ok t \<and> refunds_kept s t"
    using billing_step_books [OF run] billing_step_refunds [OF run] by blast+
  then show "ledger_ok t" "kept s t \<and> refunds_kept s t" by blast+
qed (use kept_trans refunds_kept_trans in \<open>auto\<close>)

lemma empty_ledger_ok: "ledger_ok empty_billing"
  using books_ok_empty by (simp add: refunds_but_def empty_billing_def distinct_ids_def refund_keys_def)

lemmas reachable_ledger = billing.run_good [OF _ empty_ledger_ok]

subsection \<open>A sample run\<close>

definition sample_opening :: "(billing_state \<times> payment) result" where
  \<comment> \<open>an invoice of 120 is issued, a payment of 100 recorded with 60 allocated to it\<close>
  "sample_opening =
     bind_result (create_and_finalize sample_invoice_data \<lparr>ax_user = Some ''u'', ax_role = None\<rparr> False ''i1'' ''INV-000001'' empty_billing)
       (\<lambda>(st, _). record_payment_with_allocations 20 sample_payment_input 5 None ''p1''
          [\<lparr>ai_invoice_id = Some ''i1'', ai_amount = Some 60, ai_notes = None\<rparr>] st)"

definition sample_closing :: "(billing_state \<times> invoice) result" where
  \<comment> \<open>and then the invoice is voided\<close>
  "sample_closing = bind_result sample_opening
     (\<lambda>(st, _). void_invoice 21 ''i1'' (Some ''error'') (Some ''o1'') \<lparr>ax_user = Some ''u'', ax_role = None\<rparr> st)"

definition sample_after_close :: "(billing_state \<times> payment) result" where
  \<comment> \<open>and more of the payment is allocated to the voided invoice\<close>
  "sample_after_close = bind_result sample_closing
     (\<lambda>(st, _). add_or_revise_allocations 22 ''p1'' [\<lparr>ai_invoice_id = Some ''i1'', ai_amount = Some 30, ai_notes = None\<rparr>]
        (Some ''u'') None st)"

lemma sample_run_values:
  "(case sample_after_close of Inl _ \<Rightarrow> False | Inr x \<Rightarrow> latest_outcome ''i1'' (fst x) = Some EV_VOIDED
      \<and> total_allocated_for_invoice ''i1'' (fst x) = 90 \<and> bp_unallocated (snd x) = 10)"
  "(case sample_closing of Inl _ \<Rightarrow> False | Inr x \<Rightarrow> latest_outcome ''i1'' (fst x) = Some EV_VOIDED
      \<and> total_allocated_for_invoice ''i1'' (fst x) = 60
      \<and> (case get_by_id ''i1'' (\<lambda>_. True) (bs_invoices (fst x)) of None \<Rightarrow> False | Some iv \<Rightarrow> inv_status iv = SENT))"
  by code_simp+


lemma ledger_sample_runs:
  obtains st1 st2 st3 p1 iv p3 where "sample_opening = Inr (st1, p1)" "sample_closing = Inr (st2, iv)" "sample_after_close = Inr (st3, p3)"
    "billing_step\<^sup>*\<^sup>* empty_billing st1" "billing_step\<^sup>*\<^sup>* empty_billing st2" "billing_step\<^sup>*\<^sup>* st2 st3"
proof -
  obtain st3 p3 where 3: "sample_after_close = Inr (st3, p3)" using sample_run_values(1) unfolding result_ok by auto
  then obtain st2 iv where 2: "sample_closing = Inr (st2, iv)" "billing_step st2 st3"
    unfolding sample_after_close_def by (auto simp del: bind_result_Inr_iff elim!: bind_result_InrE dest: billing_step.allocate)
  then obtain st1 p1 where 1: "sample_opening = Inr (st1, p1)" "billing_step st1 st2"
    unfolding sample_closing_def by (auto simp del: bind_result_Inr_iff elim!: bind_result_InrE dest: billing_step.void_invoice)
  from 1(1) obtain st0 where 0: "billing_step empty_billing st0" "billing_step st0 st1"
    unfolding sample_opening_def by (auto simp del: bind_result_Inr_iff elim!: bind_result_InrE
        dest: billing_step.create_and_finalize billing_step.record_allocated)
  from 0 1(2) 2(2) show thesis
    by (intro that [OF 1(1) 2(1) 3]) (meson r_into_rtranclp rtranclp.rtrancl_into_rtrancl)+
qed

lemma no_allocations_no_sum: "\<forall>a \<in> set xs. \<not> P a \<Longrightarrow> sum_where P f xs = 0"
  by (induction xs) (simp_all add: sum_where_def)

lemma voided_payment_empty:
  assumes books: "books_ok st" and p: "p \<in> set (bs_payments st)" "bp_status p = VOIDED"
  shows "total_allocated_for_payment (rid p) st = 0"
proof -
  have "pa_payment_id a \<noteq> rid p" if "a \<in> set (bs_allocations st)" for a
  proof
    assume same: "pa_payment_id a = rid p"
    have "allocation_ok (bs_payments st) (bs_invoices st) a" using books that by (simp add: books_but_def)
    then obtain q where "q \<in> set (bs_payments st)" "rid q = rid p" "bp_status q \<noteq> VOIDED"
      using same by (auto simp: allocation_ok_def)
    with distinct_ids_unique [OF books_distinct(1) [OF books]] p show False by blast
  qed
  then show ?thesis unfolding total_allocated_for_payment_def by (intro no_allocations_no_sum) blast
qed

subsection \<open>Properties\<close>

text \<open>C2: the billing tables agree with each other after any sequence of billing operations that starts
  from empty tables: the paid amount stored on an invoice is the sum of the allocations to it and its
  payment status shows how it was closed, if it was; the amounts stored on a payment are the sum of
  its allocations and what is left of it, never negative, and a voided payment has given nothing;
  every allocation is a positive amount from a payment that is not voided to a SENT invoice of the same
  organisation; no credit note is applied beyond its total.\<close>

theorem billing_tables_agree:
  assumes "billing_step\<^sup>*\<^sup>* empty_billing st"
  shows "(\<forall>iv \<in> set (bs_invoices st). inv_paid_amount iv = total_allocated_for_invoice (rid iv) st
      \<and> shows_outcome (bs_invoice_events st) (rid iv) (inv_payment_status iv))
    \<and> (\<forall>p \<in> set (bs_payments st). bp_allocated p = total_allocated_for_payment (rid p) st
      \<and> bp_allocated p + bp_unallocated p = bp_amount p \<and> 0 \<le> bp_unallocated p
      \<and> (bp_status p = VOIDED \<longrightarrow> bp_allocated p = 0))
    \<and> (\<forall>a \<in> set (bs_allocations st). allocation_ok (bs_payments st) (bs_invoices st) a)
    \<and> (\<forall>n \<in> set (bs_credit_notes st). applied_total_for_credit_note (rid n) st \<le> cn_total n)"
proof -
  have books: "books_ok st" using reachable_ledger [OF assms] ..
  have "bp_allocated p = total_allocated_for_payment (rid p) st
      \<and> bp_allocated p + bp_unallocated p = bp_amount p \<and> 0 \<le> bp_unallocated p \<and> (bp_status p = VOIDED \<longrightarrow> bp_allocated p = 0)"
    if "p \<in> set (bs_payments st)" for p
    using books_payment_amounts [OF books that] voided_payment_empty [OF books that] by auto
  then have "\<forall>p \<in> set (bs_payments st). bp_allocated p = total_allocated_for_payment (rid p) st
      \<and> bp_allocated p + bp_unallocated p = bp_amount p \<and> 0 \<le> bp_unallocated p \<and> (bp_status p = VOIDED \<longrightarrow> bp_allocated p = 0)" ..
  moreover have "\<forall>iv \<in> set (bs_invoices st). inv_paid_amount iv = total_allocated_for_invoice (rid iv) st
      \<and> shows_outcome (bs_invoice_events st) (rid iv) (inv_payment_status iv)"
    "\<forall>a \<in> set (bs_allocations st). allocation_ok (bs_payments st) (bs_invoices st) a"
    "\<forall>n \<in> set (bs_credit_notes st). applied_total_for_credit_note (rid n) st \<le> cn_total n"
    using books by (simp_all add: books_but_def invoice_matches_def note_ok_def total_allocated_for_invoice_def applied_total_for_credit_note_def)
  ultimately show ?thesis by blast
qed

lemma billing_tables_agree_witness:
  "\<exists>st p. sample_opening = Inr (st, p) \<and> (\<forall>q \<in> set (bs_payments st). bp_allocated q + bp_unallocated q = bp_amount q)"
proof (rule ledger_sample_runs)
  fix st1 p1
  assume "sample_opening = Inr (st1, p1)" "billing_step\<^sup>*\<^sup>* empty_billing st1"
  then show ?thesis using billing_tables_agree [of st1] by blast
qed

text \<open>C17: an issued invoice that was closed stays closed: once a SENT invoice has been voided or written
  off, after any further sequence of billing operations it is still there as a SENT invoice with the same
  total, the same recorded outcome and the payment status that goes with it. (A DRAFT can be voided as
  well, and then still be edited or deleted; nothing is claimed of it.)\<close>

theorem closed_invoice_is_final:
  assumes "billing_step\<^sup>*\<^sup>* empty_billing st" and "billing_step\<^sup>*\<^sup>* st st'"
    and "iv \<in> set (bs_invoices st)" and "inv_status iv = SENT" and "latest_outcome (rid iv) st = Some t"
  shows "latest_outcome (rid iv) st' = Some t
    \<and> (\<exists>w \<in> set (bs_invoices st'). rid w = rid iv \<and> inv_status w = SENT \<and> inv_total w = inv_total iv
        \<and> inv_payment_status w = (if t = EV_VOIDED then VOID else WRITTEN_OFF))"
proof -
  have ok: "ledger_ok st" by (rule reachable_ledger [OF assms(1)])
  have "books_ok st'" and kept: "kept st st'" using billing.run_invariant [OF assms(2) ok] by blast+
  obtain w where w: "w \<in> set (bs_invoices st')" "rid w = rid iv" "inv_status w = SENT" "inv_total w = inv_total iv"
    and out: "latest_outcome (rid iv) st' = Some t"
    using kept assms(3-5) unfolding kept_def by blast
  have "shows_outcome (bs_invoice_events st') (rid w) (inv_payment_status w)"
    using \<open>books_ok st'\<close> w(1) by (simp add: books_but_def invoice_matches_def)
  moreover have "t = EV_VOIDED \<or> t = EV_WRITTEN_OFF"
    using outcome_in_range [of "rid iv" "bs_invoice_events st'" t] out by (simp add: latest_outcome_def)
  ultimately have "inv_payment_status w = (if t = EV_VOIDED then VOID else WRITTEN_OFF)"
    using out w(2) by (auto simp: shows_outcome_def closing_status_def latest_outcome_def)
  with w out show ?thesis by blast
qed

text \<open>C33: voiding an invoice does not stop money from being given to it. From empty tables the
  operations reach a state in which an invoice is voided and a later allocation of a payment to
  it succeeds: the allocation looks only at the document status SENT and the total, not at the
  recorded outcome, which applying a credit note does look at.\<close>

theorem voided_invoice_takes_allocations:
  "\<exists>st iv st' p. billing_step\<^sup>*\<^sup>* empty_billing st \<and> latest_outcome ''i1'' st = Some EV_VOIDED
     \<and> sample_closing = Inr (st, iv)
     \<and> add_or_revise_allocations 22 ''p1'' [\<lparr>ai_invoice_id = Some ''i1'', ai_amount = Some 30, ai_notes = None\<rparr>]
         (Some ''u'') None st = Inr (st', p)
     \<and> total_allocated_for_invoice ''i1'' st = 60 \<and> total_allocated_for_invoice ''i1'' st' = 90"
proof (rule ledger_sample_runs)
  fix st2 st3 iv p3
  assume runs: "sample_closing = Inr (st2, iv)" "sample_after_close = Inr (st3, p3)" "billing_step\<^sup>*\<^sup>* empty_billing st2"
  from runs(2) have "add_or_revise_allocations 22 ''p1'' [\<lparr>ai_invoice_id = Some ''i1'', ai_amount = Some 30, ai_notes = None\<rparr>]
      (Some ''u'') None st2 = Inr (st3, p3)" unfolding sample_after_close_def runs(1) by simp
  moreover have "latest_outcome ''i1'' st2 = Some EV_VOIDED \<and> total_allocated_for_invoice ''i1'' st2 = 60
      \<and> total_allocated_for_invoice ''i1'' st3 = 90"
    using sample_run_values unfolding runs(1,2) by simp
  ultimately show ?thesis using runs by blast
qed

lemma closed_invoice_is_final_witness:
  "\<exists>st2 iv st3 p. sample_closing = Inr (st2, iv) \<and> sample_after_close = Inr (st3, p)
     \<and> (\<exists>w \<in> set (bs_invoices st3). rid w = ''i1'' \<and> inv_payment_status w = VOID)"
proof (rule ledger_sample_runs)
  fix st2 st3 iv p3
  assume runs: "sample_closing = Inr (st2, iv)" "sample_after_close = Inr (st3, p3)"
    "billing_step\<^sup>*\<^sup>* empty_billing st2" "billing_step\<^sup>*\<^sup>* st2 st3"
  obtain w where w: "get_by_id ''i1'' (\<lambda>_. True) (bs_invoices st2) = Some w" "inv_status w = SENT"
    and out: "latest_outcome ''i1'' st2 = Some EV_VOIDED"
    using sample_run_values(2) unfolding runs(1) result_ok by (auto split: option.splits)
  have ws: "w \<in> set (bs_invoices st2)" "rid w = ''i1''" using get_by_id_Some [OF w(1)] by simp_all
  have "latest_outcome (rid w) st2 = Some EV_VOIDED" using out ws by simp
  from closed_invoice_is_final [OF runs(3,4) ws(1) w(2) this] runs ws(2) show ?thesis by fastforce
qed

end
