(* ===== verification/StatementSchedule.thy ===== *)
theory StatementSchedule
  imports Money Calendar
begin

text \<open>
  Recurring account statements: when a schedule fires and which period the statement covers
  (\<^verbatim>\<open>app/modules/account_statements/scheduling.py\<close>, \<^verbatim>\<open>validation.py\<close>). Instants are
  microseconds. The time zone of an organisation is a parameter (\<open>zone\<close>): the local date of an instant
  (\<^verbatim>\<open>ref.astimezone(tz).date()\<close>) and the instant of 06:00 on a local day (\<^verbatim>\<open>_local_run_dt\<close>). What the
  code relies on is the interface \<open>run_zone\<close>; it is interpreted on UTC. The two \<^verbatim>\<open>while\<close> loops are partial
  functions, so that a loop that never ends has no value, and the lemmas show that they end.
\<close>

subsection \<open>Frequencies and intervals\<close>

datatype frequency = MONTHLY_FIRST | QUARTERLY | CUSTOM

definition normalize_frequency :: "string \<Rightarrow> frequency result" where
  "normalize_frequency s =
     (let raw = py_upper (strip s)
      in if raw = ''MONTHLY_FIRST'' then Inr MONTHLY_FIRST
         else if raw = ''QUARTERLY'' then Inr QUARTERLY
         else if raw = ''CUSTOM'' then Inr CUSTOM
         else Inl (ValidationError ''frequency must be one of: MONTHLY_FIRST, QUARTERLY, CUSTOM''))"

fun int_digits :: "bool \<Rightarrow> int \<Rightarrow> string \<Rightarrow> int option" where
  \<comment> \<open>digits with single underscores between them; the flag: the last character was a digit\<close>
  "int_digits seen acc [] = (if seen then Some acc else None)"
| "int_digits seen acc (c # cs) =
     (if is_digit c then int_digits True (10 * acc + int (digit_value c)) cs
      else if c = CHR ''_'' \<and> seen then int_digits False acc cs
      else None)"

definition py_int :: "string \<Rightarrow> int option" where
  \<comment> \<open>\<^verbatim>\<open>int(text)\<close>\<close>
  "py_int s =
     (case strip s of
        [] \<Rightarrow> None
      | c # cs \<Rightarrow>
          if c = CHR ''-'' then map_option uminus (int_digits False 0 cs)
          else if c = CHR ''+'' then int_digits False 0 cs
          else int_digits False 0 (c # cs))"

definition py_str_int :: "int \<Rightarrow> string" where
  "py_str_int n = (if n < 0 then CHR ''-'' # int_text (- n) else int_text n)"

definition CUSTOM_SCHEDULE_ONCE :: string where "CUSTOM_SCHEDULE_ONCE = ''once''"
definition MIN_CUSTOM_INTERVAL_DAYS :: int where "MIN_CUSTOM_INTERVAL_DAYS = 7"
definition MAX_CUSTOM_INTERVAL_DAYS :: int where "MAX_CUSTOM_INTERVAL_DAYS = 366"
definition MAX_PERIOD_DAYS :: int where "MAX_PERIOD_DAYS = 366"
definition DEFAULT_SCHEDULE_VALID_TO :: date where "DEFAULT_SCHEDULE_VALID_TO = Date 2099 12 31"

definition is_once_custom_schedule :: "string option \<Rightarrow> bool" where
  "is_once_custom_schedule stored \<longleftrightarrow> py_lower (strip (str_or stored '''')) = CUSTOM_SCHEDULE_ONCE"

definition parse_interval_days :: "string option \<Rightarrow> int result" where
  "parse_interval_days stored =
     (let raw = strip (str_or stored '''')
      in if raw = '''' then Inl (ValidationError ''interval_days is required when frequency is CUSTOM'')
         else if is_once_custom_schedule (Some raw) then
           Inl (ValidationError ''interval_days is not used for one-time CUSTOM schedules'')
         else
           case py_int raw of
             None \<Rightarrow> Inl (ValidationError ''interval_days must be a whole number of days'')
           | Some days \<Rightarrow>
               if days < MIN_CUSTOM_INTERVAL_DAYS \<or> MAX_CUSTOM_INTERVAL_DAYS < days
               then Inl (ValidationError ''interval_days must be between 7 and 366'')
               else Inr days)"

definition format_interval_storage :: "int \<Rightarrow> string" where
  "format_interval_storage interval_days = py_str_int interval_days"

subsection \<open>Zones and windows\<close>

record zone =
  z_key :: string
  z_date :: "int \<Rightarrow> date"
  z_run :: "date \<Rightarrow> int"

definition second :: int where "second = 1000000"

definition resolve_timezone :: "(string \<Rightarrow> zone option) \<Rightarrow> string option \<Rightarrow> zone result" where
  \<comment> \<open>\<^verbatim>\<open>tzdb\<close> is the zone database of \<^verbatim>\<open>zoneinfo\<close>\<close>
  "resolve_timezone tzdb name =
     (let candidate = str_or (Some (strip (str_or name ''Europe/London''))) ''Europe/London''
      in case tzdb candidate of
           None \<Rightarrow> Inl (ValidationError (''Unknown timezone: '' @ candidate))
         | Some z \<Rightarrow> Inr z)"

definition resolve_schedule_window ::
    "frequency \<Rightarrow> date option \<Rightarrow> date option \<Rightarrow> zone \<Rightarrow> int \<Rightarrow> (date \<times> date) result" where
  "resolve_schedule_window f valid_from valid_to z now =
     bind_result
       (if f = CUSTOM then
          (case (valid_from, valid_to) of
             (Some a, Some b) \<Rightarrow> Inr (a, b)
           | _ \<Rightarrow> Inl (ValidationError ''valid_from and valid_to are required when frequency is CUSTOM''))
        else Inr (case valid_from of None \<Rightarrow> z_date z now | Some a \<Rightarrow> a,
                  case valid_to of None \<Rightarrow> DEFAULT_SCHEDULE_VALID_TO | Some b \<Rightarrow> b))
       (\<lambda>(a, b). if b < a then Inl (ValidationError ''valid_from must be on or before valid_to'') else Inr (a, b))"

definition validate_schedule_inputs ::
    "(string \<Rightarrow> zone option) \<Rightarrow> string \<Rightarrow> date option \<Rightarrow> date option \<Rightarrow> string option \<Rightarrow> int option \<Rightarrow> int
     \<Rightarrow> (frequency \<times> zone \<times> string option \<times> date \<times> date) result" where
  "validate_schedule_inputs tzdb frequency_text valid_from valid_to timezone interval_days now =
     bind_result (normalize_frequency frequency_text) (\<lambda>f.
     bind_result (resolve_timezone tzdb timezone) (\<lambda>z.
     bind_result (resolve_schedule_window f valid_from valid_to z now) (\<lambda>(a, b).
     if f = CUSTOM then
       (case interval_days of
          None \<Rightarrow> Inr (f, z, Some CUSTOM_SCHEDULE_ONCE, a, b)
        | Some n \<Rightarrow>
            bind_result (parse_interval_days (Some (format_interval_storage n))) (\<lambda>_.
            Inr (f, z, Some (format_interval_storage n), a, b)))
     else if interval_days \<noteq> None then
       Inl (ValidationError ''interval_days is only allowed when frequency is CUSTOM'')
     else Inr (f, z, None, a, b))))"

definition validate_period :: "date \<Rightarrow> date \<Rightarrow> date option \<Rightarrow> unit result" where
  "validate_period period_start period_end today =
     (if period_end < period_start then Inl (ValidationError ''period_start must be on or before period_end'')
      else if (case today of None \<Rightarrow> False | Some t \<Rightarrow> t < period_end)
      then Inl (ValidationError ''period_end cannot be in the future'')
      else if MAX_PERIOD_DAYS < days_between period_start period_end + 1
      then Inl (ValidationError ''Statement period cannot exceed 366 days'')
      else Inr ())"

fun dotted :: "string \<Rightarrow> bool" where
  \<comment> \<open>a dot with something before and after it\<close>
  "dotted (a # b # c # cs) \<longleftrightarrow> b = CHR ''.'' \<or> dotted (b # c # cs)"
| "dotted _ \<longleftrightarrow> False"

definition email_shape :: "string \<Rightarrow> bool" where
  \<comment> \<open>the regular expression \<^verbatim>\<open>^[^@\s]+@[^@\s]+\.[^@\s]+$\<close>\<close>
  "email_shape s \<longleftrightarrow>
     (let before = takeWhile (\<lambda>c. c \<noteq> CHR ''@'') s; rest = drop (length before + 1) s
      in before \<noteq> [] \<and> CHR ''@'' \<in> set s \<and> CHR ''@'' \<notin> set rest \<and> \<not> list_ex is_space s \<and> dotted rest)"

definition validate_email :: "string \<Rightarrow> string result" where
  "validate_email email =
     (let cleaned = py_lower (strip email)
      in if cleaned = '''' \<or> \<not> email_shape cleaned
         then Inl (ValidationError ''recipient_email must be a valid email address'') else Inr cleaned)"

subsection \<open>Months and quarters\<close>

definition first_of_month :: "date \<Rightarrow> date" where
  "first_of_month d = Date (year d) (month d) 1"

definition add_months :: "date \<Rightarrow> int \<Rightarrow> date" where
  "add_months d months =
     (let month_index = month d - 1 + months
      in Date (year d + month_index div 12) (month_index mod 12 + 1) 1)"

definition quarter_start :: "date \<Rightarrow> date" where
  "quarter_start d = Date (year d) ((month d - 1) div 3 * 3 + 1) 1"

definition next_quarter_start :: "date \<Rightarrow> date" where
  "next_quarter_start d = (let q = quarter_start d in if d = q then add_months q 3 else q)"

definition is_monthly_run_day :: "date \<Rightarrow> bool" where
  "is_monthly_run_day d \<longleftrightarrow> day d = 1"

definition is_quarterly_run_day :: "date \<Rightarrow> bool" where
  "is_quarterly_run_day d \<longleftrightarrow> day d = 1 \<and> month d \<in> {1, 4, 7, 10}"

definition statement_period_for_run :: "frequency \<Rightarrow> date \<Rightarrow> (date \<times> date) result" where
  "statement_period_for_run f run =
     (case f of
        MONTHLY_FIRST \<Rightarrow>
          if \<not> is_monthly_run_day run then Inl (ValidationError ''MONTHLY_FIRST schedules only run on the 1st of the month'')
          else let last_prev = add_days (first_of_month run) (- 1) in Inr (first_of_month last_prev, last_prev)
      | QUARTERLY \<Rightarrow>
          if \<not> is_quarterly_run_day run
          then Inl (ValidationError ''QUARTERLY schedules only run on the 1st of Jan, Apr, Jul, or Oct'')
          else let last_prev = add_days (quarter_start run) (- 1) in Inr (quarter_start last_prev, last_prev)
      | CUSTOM \<Rightarrow> Inl (ValidationError ''CUSTOM schedule periods use statement_period_for_custom_run''))"

definition statement_period_for_custom_run ::
    "date \<Rightarrow> date \<Rightarrow> date \<Rightarrow> int option \<Rightarrow> zone \<Rightarrow> string option \<Rightarrow> (date \<times> date) result" where
  "statement_period_for_custom_run run valid_from valid_to last_run_at z stored =
     (if is_once_custom_schedule stored then Inr (valid_from, valid_to)
      else
        let period_start = (case last_run_at of None \<Rightarrow> valid_from | Some t \<Rightarrow> add_days (z_date z t) 1);
            period_end = add_days run (- 1)
        in if period_end < period_start
           then Inl (ValidationError ''No statement period to generate for this CUSTOM schedule run'')
           else Inr (period_start, period_end))"

subsection \<open>The next run\<close>

definition next_preset_local_run_day :: "frequency \<Rightarrow> date \<Rightarrow> date result" where
  "next_preset_local_run_day f after =
     (case f of
        MONTHLY_FIRST \<Rightarrow>
          let candidate = first_of_month after
          in Inr (if candidate < after then add_months (first_of_month after) 1 else candidate)
      | QUARTERLY \<Rightarrow>
          let candidate = next_quarter_start after
          in Inr (if candidate < after then add_months candidate 3 else candidate)
      | CUSTOM \<Rightarrow> Inl (ValidationError ''Unsupported preset frequency''))"

partial_function (option) next_interval_from ::
    "zone \<Rightarrow> int \<Rightarrow> date \<Rightarrow> int \<Rightarrow> date \<Rightarrow> int option option" where
  \<comment> \<open>the loop of \<^verbatim>\<open>_next_interval_run_utc\<close>, from an anchor on\<close>
  "next_interval_from z n valid_to after anchor =
     (if anchor \<le> valid_to then
        if after < z_run z anchor then Some (Some (z_run z anchor))
        else next_interval_from z n valid_to after (add_days anchor n)
      else Some None)"

definition next_interval_run_utc :: "int \<Rightarrow> zone \<Rightarrow> date \<Rightarrow> date \<Rightarrow> int \<Rightarrow> int option option" where
  "next_interval_run_utc n z valid_from valid_to after = next_interval_from z n valid_to after valid_from"

definition next_once_run_utc :: "date \<Rightarrow> zone \<Rightarrow> int \<Rightarrow> int option" where
  "next_once_run_utc valid_to z after =
     (if valid_to < z_date z after then None
      else if after < z_run z valid_to then Some (z_run z valid_to)
      else Some (after + second))"

partial_function (option) next_preset_from ::
    "zone \<Rightarrow> frequency \<Rightarrow> date \<Rightarrow> int \<Rightarrow> date \<Rightarrow> int option result option" where
  \<comment> \<open>the loop of \<^verbatim>\<open>next_run_at_utc\<close>\<close>
  "next_preset_from z f valid_to ref run_day =
     (if run_day \<le> valid_to then
        if ref < z_run z run_day then Some (Inr (Some (z_run z run_day)))
        else
          (case next_preset_local_run_day f (add_days run_day 1) of
             Inl e \<Rightarrow> Some (Inl e)
           | Inr d \<Rightarrow> next_preset_from z f valid_to ref d)
      else Some (Inr None))"

declare next_interval_from.simps [code] next_preset_from.simps [code]

definition next_run_at_utc ::
    "frequency \<Rightarrow> zone \<Rightarrow> date \<Rightarrow> date \<Rightarrow> string option \<Rightarrow> int \<Rightarrow> int option result option" where
  \<comment> \<open>the outer option: the loop ends; then an exception, or no further run, or the next one\<close>
  "next_run_at_utc f z valid_from valid_to stored ref =
     (if valid_to < z_date z ref then Some (Inr None)
      else if f = CUSTOM then
        if is_once_custom_schedule stored then Some (Inr (next_once_run_utc valid_to z ref))
        else
          (case parse_interval_days stored of
             Inl e \<Rightarrow> Some (Inl e)
           | Inr n \<Rightarrow> map_option Inr (next_interval_run_utc n z valid_from valid_to ref))
      else
        (case next_preset_local_run_day f (max valid_from (z_date z ref)) of
           Inl e \<Rightarrow> Some (Inl e)
         | Inr d \<Rightarrow> next_preset_from z f valid_to ref d))"

definition initial_next_run_at_utc ::
    "frequency \<Rightarrow> zone \<Rightarrow> date \<Rightarrow> date \<Rightarrow> string option \<Rightarrow> int \<Rightarrow> int option result option" where
  "initial_next_run_at_utc f z valid_from valid_to stored now =
     next_run_at_utc f z valid_from valid_to stored (now - second)"


subsection \<open>Run days\<close>

lemma quarter_month: "1 \<le> m \<Longrightarrow> m \<le> 12 \<Longrightarrow>
   (m - 1) div 3 * 3 + 1 = (if m \<le> 3 then 1 else if m \<le> 6 then 4 else if m \<le> 9 then 7 else (10::int))"
  by (rule month_cases [of m]) simp_all

lemma first_of_month_valid: "valid_date d \<Longrightarrow> valid_date (first_of_month d)"
  using days_in_month_bounds(1) [of "year d" "month d"] by (simp add: valid_date_def first_of_month_def)

lemma monthly_day:
  assumes d: "valid_date d" and e: "next_preset_local_run_day MONTHLY_FIRST d = Inr e"
  shows "valid_date e" "is_monthly_run_day e" "d \<le> e" "valid_date b \<Longrightarrow> is_monthly_run_day b \<Longrightarrow> d \<le> b \<Longrightarrow> e \<le> b"
proof -
  have m: "1 \<le> month d" "month d \<le> 12" "1 \<le> day d" using d by (simp_all add: valid_date_def)
  have e_eq: "e = (if 1 < day d then (if month d < 12 then Date (year d) (month d + 1) 1 else Date (year d + 1) 1 1)
      else Date (year d) (month d) 1)"
    using e m by (auto simp: next_preset_local_run_day_def Let_def first_of_month_def less_date_def add_months_def)
  show "valid_date e" using m days_in_month_bounds(1) [of "year e" "month e"] by (auto simp: e_eq valid_date_def)
  show "is_monthly_run_day e" by (simp add: e_eq is_monthly_run_day_def)
  show "d \<le> e" using m by (auto simp: e_eq less_eq_date_def)
  show "e \<le> b" if "valid_date b" "is_monthly_run_day b" "d \<le> b"
    using that m by (auto simp: e_eq less_eq_date_def is_monthly_run_day_def valid_date_def)
qed

lemma quarterly_day:
  assumes d: "valid_date d" and e: "next_preset_local_run_day QUARTERLY d = Inr e"
  shows "valid_date e" "is_quarterly_run_day e" "d < e" "valid_date b \<Longrightarrow> is_quarterly_run_day b \<Longrightarrow> d < b \<Longrightarrow> e \<le> b"
proof -
  have m: "1 \<le> month d" "month d \<le> 12" "1 \<le> day d" using d by (simp_all add: valid_date_def)
  let ?next = "if month d \<le> 3 then Date (year d) 4 1 else if month d \<le> 6 then Date (year d) 7 1
      else if month d \<le> 9 then Date (year d) 10 1 else Date (year d + 1) 1 1"
  have q: "quarter_start d = Date (year d) (if month d \<le> 3 then 1 else if month d \<le> 6 then 4 else if month d \<le> 9 then 7 else 10) 1"
    using quarter_month [OF m(1,2)] by (simp add: quarter_start_def)
  have add: "add_months (quarter_start d) 3 = ?next" by (simp add: q add_months_def)
  have "quarter_start d \<le> d" using m by (auto simp: q less_eq_date_def)
  then have e_eq: "e = ?next"
    using e add by (auto simp: next_preset_local_run_day_def next_quarter_start_def Let_def less_le split: if_splits)
      (auto simp: less_eq_date_def)
  show "valid_date e" by (simp add: e_eq valid_date_def days_in_month_def)
  show "is_quarterly_run_day e" by (simp add: e_eq is_quarterly_run_day_def)
  show "d < e" by (simp add: e_eq less_date_def)
  show "e \<le> b" if "valid_date b" "is_quarterly_run_day b" "d < b"
    using that m by (auto simp: e_eq less_eq_date_def less_date_def is_quarterly_run_day_def valid_date_def)
qed

subsection \<open>What the code relies on in a zone\<close>

text \<open>
  06:00 on a local day exists and lies on that day, it comes before every instant of a later local day
  and after every instant of an earlier one. (A clock change moves local midnight by an hour or
  two, never past six in the morning.) A zone that once left out a whole calendar day, as
  \<^verbatim>\<open>Pacific/Apia\<close> left out 2011-12-30, does not satisfy this for the day it left out.
\<close>

locale run_zone =
  fixes local_date :: "int \<Rightarrow> date" and run_at :: "date \<Rightarrow> int"
  assumes local_valid: "valid_date (local_date t)"
    and run_date: "valid_date d \<Longrightarrow> local_date (run_at d) = d"
    and run_passed: "valid_date d \<Longrightarrow> d < local_date t \<Longrightarrow> run_at d < t"
    and run_ahead: "valid_date d \<Longrightarrow> local_date t < d \<Longrightarrow> t < run_at d"
begin

lemma run_mono: "valid_date d \<Longrightarrow> valid_date e \<Longrightarrow> d < e \<Longrightarrow> run_at d < run_at e"
  using run_passed [of d "run_at e"] run_date by simp

lemma run_mono_le: "valid_date d \<Longrightarrow> valid_date e \<Longrightarrow> d \<le> e \<Longrightarrow> run_at d \<le> run_at e"
  using run_mono by (cases "d = e") (auto simp: less_le intro: less_imp_le)

lemma run_future: "valid_date d \<Longrightarrow> t < run_at d \<Longrightarrow> local_date t \<le> d"
  using run_passed [of d t] by fastforce

end

text \<open>UTC: days of 86,400 seconds since 1970-01-01; the first day of 2026 is day 20,454.\<close>

definition utc_day :: "int \<Rightarrow> date" where
  "utc_day t = add_days (Date 2026 1 1) (t div (86400 * second) - 20454)"

definition utc_run :: "date \<Rightarrow> int" where
  "utc_run d = (toordinal d - toordinal (Date 1970 1 1)) * (86400 * second) + 21600 * second"

lemma epoch_valid: "valid_date (Date 2026 1 1)" "toordinal (Date 2026 1 1) = toordinal (Date 1970 1 1) + 20454"
  by code_simp+

lemma utc_day_ordinal: "toordinal (utc_day t) = toordinal (Date 1970 1 1) + t div (86400 * second)"
  by (simp add: utc_day_def epoch_valid)

interpretation utc: run_zone utc_day utc_run
proof
  show valid: "valid_date (utc_day t)" for t by (simp add: utc_day_def epoch_valid)
  fix d t assume d: "valid_date d"
  show "utc_day (utc_run d) = d"
    by (simp add: eq_iff_toordinal d valid utc_day_ordinal utc_run_def second_def)
  have day: "t = t div (86400 * second) * (86400 * second) + t mod (86400 * second)"
    and rest: "0 \<le> t mod (86400 * second)" "t mod (86400 * second) < 86400 * second" by (simp_all add: second_def)
  let ?k = "t div (86400 * second)" and ?m = "toordinal d - toordinal (Date 1970 1 1)"
  show "utc_run d < t" if "d < utc_day t"
  proof -
    have "?m + 1 \<le> ?k" using that less_iff_toordinal [OF d valid] utc_day_ordinal by simp
    then have "(?m + 1) * (86400 * second) \<le> ?k * (86400 * second)" by (intro mult_right_mono) (simp_all add: second_def)
    then show ?thesis using day rest by (simp add: utc_run_def second_def algebra_simps)
  qed
  show "t < utc_run d" if "utc_day t < d"
  proof -
    have "?k + 1 \<le> ?m" using that less_iff_toordinal [OF valid d] utc_day_ordinal by simp
    then have "(?k + 1) * (86400 * second) \<le> ?m * (86400 * second)" by (intro mult_right_mono) (simp_all add: second_def)
    then show ?thesis using day rest by (simp add: utc_run_def second_def algebra_simps)
  qed
qed

definition utc_zone :: zone where
  "utc_zone = \<lparr>z_key = ''UTC'', z_date = utc_day, z_run = utc_run\<rparr>"


subsection \<open>The loops find the earliest run\<close>

definition earliest_run :: "(date \<Rightarrow> bool) \<Rightarrow> zone \<Rightarrow> int \<Rightarrow> int option \<Rightarrow> bool" where
  \<comment> \<open>the first instant after \<^verbatim>\<open>ref\<close> at which a day with property \<open>P\<close> has its run, if there is one\<close>
  "earliest_run P z ref res \<longleftrightarrow>
     (case res of
        None \<Rightarrow> \<forall>d. valid_date d \<longrightarrow> P d \<longrightarrow> z_run z d \<le> ref
      | Some t \<Rightarrow> ref < t \<and> (\<exists>d. valid_date d \<and> P d \<and> t = z_run z d
          \<and> (\<forall>e. valid_date e \<longrightarrow> P e \<longrightarrow> e < d \<longrightarrow> z_run z e \<le> ref)))"

lemma earliest_run_cong:
  "(\<And>d. valid_date d \<Longrightarrow> ref < z_run z d \<Longrightarrow> P d = Q d) \<Longrightarrow> earliest_run P z ref res \<longleftrightarrow> earliest_run Q z ref res"
  unfolding earliest_run_def by (auto simp: not_less split: option.splits) (metis not_less)+

lemma interval_from_earliest:
  assumes "0 < n" "valid_date anchor" "valid_date valid_to"
  shows "\<exists>res. next_interval_from z n valid_to ref anchor = Some res
    \<and> earliest_run (\<lambda>d. anchor \<le> d \<and> d \<le> valid_to \<and> (toordinal d - toordinal anchor) mod n = 0) z ref res"
  using assms
proof (induction "nat (toordinal valid_to + 1 - toordinal anchor)" arbitrary: anchor rule: less_induct)
  case less
  let ?P = "\<lambda>a d. a \<le> d \<and> d \<le> valid_to \<and> (toordinal d - toordinal a) mod n = 0"
  note unfold = next_interval_from.simps [of z n valid_to ref anchor]
  show ?case
  proof (cases "anchor \<le> valid_to \<and> z_run z anchor \<le> ref")
    case False
    then show ?thesis using less.prems unfold by (force simp: earliest_run_def)
  next
    case True
    let ?next = "add_days anchor n"
    have "nat (toordinal valid_to + 1 - toordinal ?next) < nat (toordinal valid_to + 1 - toordinal anchor)"
      using True less.prems le_iff_toordinal [OF less.prems(2,3)] by simp
    then obtain res where res: "next_interval_from z n valid_to ref ?next = Some res" "earliest_run (?P ?next) z ref res"
      using less.hyps [of ?next] less.prems by auto
    have same: "?P anchor d = ?P ?next d" if "valid_date d" "ref < z_run z d" for d
    proof -
      have "d \<noteq> anchor" using True that by auto
      then have ne: "toordinal d \<noteq> toordinal anchor" using eq_iff_toordinal [OF that(1) less.prems(2)] by simp
      have eq: "(toordinal d - (toordinal anchor + n)) mod n = (toordinal d - toordinal anchor) mod n"
        using minus_mod_self2 [of "toordinal d - toordinal anchor" n] by (simp only: diff_diff_eq)
      have up: "toordinal anchor + n \<le> toordinal d" if "toordinal anchor \<le> toordinal d" "(toordinal d - toordinal anchor) mod n = 0"
      proof -
        have "n \<le> toordinal d - toordinal anchor"
          using that ne less.prems(1) by (intro zdvd_imp_le) (auto simp: mod_eq_0_iff_dvd)
        then show ?thesis by simp
      qed
      have "toordinal anchor \<le> toordinal d" if "toordinal anchor + n \<le> toordinal d" using that less.prems(1) by simp
      with up show ?thesis
        unfolding le_iff_toordinal [OF less.prems(2) that(1)] le_iff_toordinal [OF add_days_valid [OF less.prems(2)] that(1)]
          toordinal_add_days [OF less.prems(2)] eq by metis
    qed
    show ?thesis using True res unfold earliest_run_cong [of ref z "?P anchor" "?P ?next", OF same] by auto
  qed
qed

lemma preset_from_earliest:
  assumes step: "\<And>d. valid_date d \<Longrightarrow> \<exists>e. next_preset_local_run_day f d = Inr e \<and> valid_date e \<and> P e \<and> d \<le> e
      \<and> (\<forall>b. valid_date b \<longrightarrow> P b \<longrightarrow> d < b \<longrightarrow> e \<le> b)"
    and apart: "\<And>d. valid_date d \<Longrightarrow> P d \<Longrightarrow> \<not> P (add_days d 1)"
    and "valid_date run" "P run" "valid_date valid_to"
  shows "\<exists>res. next_preset_from z f valid_to ref run = Some (Inr res)
    \<and> earliest_run (\<lambda>d. P d \<and> run \<le> d \<and> d \<le> valid_to) z ref res"
  using assms(3-5)
proof (induction "nat (toordinal valid_to + 1 - toordinal run)" arbitrary: run rule: less_induct)
  case less
  note unfold = next_preset_from.simps [of z f valid_to ref run]
  show ?case
  proof (cases "run \<le> valid_to \<and> z_run z run \<le> ref")
    case False
    then show ?thesis using less.prems unfold by (force simp: earliest_run_def)
  next
    case True
    let ?next = "add_days run 1"
    have nv: "valid_date ?next" using less.prems by simp
    obtain e where e: "next_preset_local_run_day f ?next = Inr e" "valid_date e" "P e" "?next \<le> e"
      "\<forall>b. valid_date b \<longrightarrow> P b \<longrightarrow> ?next < b \<longrightarrow> e \<le> b" using step [OF nv] by blast
    have "nat (toordinal valid_to + 1 - toordinal e) < nat (toordinal valid_to + 1 - toordinal run)"
      using True less.prems e(2,4) nv by (auto simp: date_simps)
    then obtain res where res: "next_preset_from z f valid_to ref e = Some (Inr res)"
      "earliest_run (\<lambda>d. P d \<and> e \<le> d \<and> d \<le> valid_to) z ref res"
      using less.hyps [of e] e less.prems(3) by auto
    have same: "(P d \<and> run \<le> d \<and> d \<le> valid_to) = (P d \<and> e \<le> d \<and> d \<le> valid_to)" if d: "valid_date d" "ref < z_run z d" for d
    proof -
      have "d \<noteq> run" using True d by auto
      then have "?next \<le> d" if "run \<le> d"
        using that d(1) less.prems(1) by (auto simp: date_simps eq_iff_toordinal)
      moreover have "e \<le> d" if "P d" "?next \<le> d"
        using that e(5) d(1) apart [OF less.prems(1,2)] by (cases "d = ?next") auto
      moreover have "run < e" using e(2,4) nv less.prems(1) by (auto simp: date_simps)
      ultimately show ?thesis by (meson less_imp_le order_trans)
    qed
    show ?thesis
      using True res e(1) unfold
        earliest_run_cong [of ref z "\<lambda>d. P d \<and> run \<le> d \<and> d \<le> valid_to" "\<lambda>d. P d \<and> e \<le> d \<and> d \<le> valid_to", OF same] by auto
  qed
qed


subsection \<open>Which run is next\<close>

definition searched_days :: "frequency \<Rightarrow> string option \<Rightarrow> date \<Rightarrow> date \<Rightarrow> date \<Rightarrow> date \<Rightarrow> bool" where
  \<comment> \<open>the days the code's search goes through; not a specification: the quarterly search starts after its first day\<close>
  "searched_days f stored valid_from valid_to today d \<longleftrightarrow> valid_from \<le> d \<and> d \<le> valid_to \<and>
     (case f of
        MONTHLY_FIRST \<Rightarrow> is_monthly_run_day d
      | QUARTERLY \<Rightarrow> is_quarterly_run_day d \<and> d \<noteq> max valid_from today
      | CUSTOM \<Rightarrow> (case parse_interval_days stored of Inl _ \<Rightarrow> False
                  | Inr n \<Rightarrow> (toordinal d - toordinal valid_from) mod n = 0))"

definition documented_days :: "frequency \<Rightarrow> string option \<Rightarrow> date \<Rightarrow> date \<Rightarrow> date \<Rightarrow> bool" where
  \<comment> \<open>the days on which a schedule is meant to run: the run days of its frequency in its window\<close>
  "documented_days f stored valid_from valid_to d \<longleftrightarrow> valid_from \<le> d \<and> d \<le> valid_to \<and>
     (case f of
        MONTHLY_FIRST \<Rightarrow> is_monthly_run_day d
      | QUARTERLY \<Rightarrow> is_quarterly_run_day d
      | CUSTOM \<Rightarrow>
          if is_once_custom_schedule stored then d = valid_to
          else (case parse_interval_days stored of Inl _ \<Rightarrow> False
                | Inr n \<Rightarrow> (toordinal d - toordinal valid_from) mod n = 0))"

lemma preset_step:
  assumes "valid_date d"
  shows "\<exists>e. next_preset_local_run_day MONTHLY_FIRST d = Inr e \<and> valid_date e \<and> is_monthly_run_day e \<and> d \<le> e
      \<and> (\<forall>b. valid_date b \<longrightarrow> is_monthly_run_day b \<longrightarrow> d < b \<longrightarrow> e \<le> b)"
    and "\<exists>e. next_preset_local_run_day QUARTERLY d = Inr e \<and> valid_date e \<and> is_quarterly_run_day e \<and> d \<le> e
      \<and> (\<forall>b. valid_date b \<longrightarrow> is_quarterly_run_day b \<longrightarrow> d < b \<longrightarrow> e \<le> b)"
proof -
  obtain e where e: "next_preset_local_run_day MONTHLY_FIRST d = Inr e" by (simp add: next_preset_local_run_day_def Let_def)
  show "\<exists>e. next_preset_local_run_day MONTHLY_FIRST d = Inr e \<and> valid_date e \<and> is_monthly_run_day e \<and> d \<le> e
      \<and> (\<forall>b. valid_date b \<longrightarrow> is_monthly_run_day b \<longrightarrow> d < b \<longrightarrow> e \<le> b)"
    using e monthly_day [OF assms e] by (intro exI [of _ e]) (auto intro: less_imp_le)
  obtain q where q: "next_preset_local_run_day QUARTERLY d = Inr q" by (simp add: next_preset_local_run_day_def Let_def)
  show "\<exists>e. next_preset_local_run_day QUARTERLY d = Inr e \<and> valid_date e \<and> is_quarterly_run_day e \<and> d \<le> e
      \<and> (\<forall>b. valid_date b \<longrightarrow> is_quarterly_run_day b \<longrightarrow> d < b \<longrightarrow> e \<le> b)"
    using q quarterly_day [OF assms q] by (intro exI [of _ q]) (auto intro: less_imp_le)
qed

lemma first_days_apart: "valid_date d \<Longrightarrow> day d = 1 \<Longrightarrow> day (add_days d 1) = 2"
  using days_in_month_bounds(1) [of "year d" "month d"] by (simp add: add_days_def next_day_def)

lemma str_or_given [simp]: "str_or (Some s) [] = s"
  by (cases s) simp_all

lemma parse_interval_range: "parse_interval_days stored = Inr n \<Longrightarrow> 7 \<le> n \<and> n \<le> 366"
  by (auto simp: parse_interval_days_def Let_def MIN_CUSTOM_INTERVAL_DAYS_def MAX_CUSTOM_INTERVAL_DAYS_def
      split: option.splits if_splits)

lemma max_valid: "valid_date a \<Longrightarrow> valid_date b \<Longrightarrow> valid_date (max a b)"
  by (simp add: max_def)

lemma preset_run_earliest:
  assumes zone: "run_zone (z_date z) (z_run z)" and dates: "valid_date valid_from" "valid_date valid_to" and f: "f \<noteq> CUSTOM"
  shows "\<exists>res. next_run_at_utc f z valid_from valid_to stored ref = Some (Inr res)
    \<and> earliest_run (searched_days f stored valid_from valid_to (z_date z ref)) z ref res"
proof -
  let ?today = "z_date z ref"
  let ?days = "searched_days f stored valid_from valid_to ?today"
  have today: "valid_date ?today" by (rule run_zone.local_valid [OF zone])
  have ahead: "?today \<le> d" if "valid_date d" "ref < z_run z d" for d by (rule run_zone.run_future [OF zone that])
  show ?thesis
  proof (cases "valid_to < ?today")
    case True
    have "z_run z d \<le> ref" if "valid_date d" "?days d" for d
      using ahead [OF that(1)] that(2) True unfolding searched_days_def by (meson leD linorder_le_less_linear order_trans)
    then show ?thesis using True by (simp add: next_run_at_utc_def earliest_run_def)
  next
    case False
    let ?start = "max valid_from ?today"
    note sv = max_valid [OF dates(1) today]
    show ?thesis
    proof (cases f)
      case MONTHLY_FIRST
      obtain e where e: "next_preset_local_run_day MONTHLY_FIRST ?start = Inr e" by (simp add: next_preset_local_run_day_def Let_def)
      note m = monthly_day [OF sv e]
      obtain res where res: "next_preset_from z MONTHLY_FIRST valid_to ref e = Some (Inr res)"
          "earliest_run (\<lambda>d. is_monthly_run_day d \<and> e \<le> d \<and> d \<le> valid_to) z ref res"
        using preset_from_earliest [where P = is_monthly_run_day, OF preset_step(1) _ m(1,2) dates(2)] first_days_apart
        by (force simp: is_monthly_run_day_def)
      have "(is_monthly_run_day d \<and> e \<le> d \<and> d \<le> valid_to) = ?days d" if d: "valid_date d" "ref < z_run z d" for d
        using m(3) m(4) [of d] d ahead [OF d] by (auto simp: searched_days_def MONTHLY_FIRST max_def intro: order_trans split: if_splits)
      then show ?thesis using res e False MONTHLY_FIRST
          earliest_run_cong [of ref z "\<lambda>d. is_monthly_run_day d \<and> e \<le> d \<and> d \<le> valid_to" ?days]
        by (auto simp: next_run_at_utc_def)
    next
      case QUARTERLY
      obtain e where e: "next_preset_local_run_day QUARTERLY ?start = Inr e" by (simp add: next_preset_local_run_day_def Let_def)
      note q = quarterly_day [OF sv e]
      obtain res where res: "next_preset_from z QUARTERLY valid_to ref e = Some (Inr res)"
          "earliest_run (\<lambda>d. is_quarterly_run_day d \<and> e \<le> d \<and> d \<le> valid_to) z ref res"
        using preset_from_earliest [where P = is_quarterly_run_day, OF preset_step(2) _ q(1,2) dates(2)] first_days_apart
        by (force simp: is_quarterly_run_day_def)
      have "(is_quarterly_run_day d \<and> e \<le> d \<and> d \<le> valid_to) = ?days d" if d: "valid_date d" "ref < z_run z d" for d
        using q(3) q(4) [of d] d ahead [OF d] by (auto simp: searched_days_def QUARTERLY max_def split: if_splits)
      then show ?thesis using res e False QUARTERLY
          earliest_run_cong [of ref z "\<lambda>d. is_quarterly_run_day d \<and> e \<le> d \<and> d \<le> valid_to" ?days]
        by (auto simp: next_run_at_utc_def)
    qed (use f in simp)
  qed
qed

lemma interval_run_earliest:
  assumes zone: "run_zone (z_date z) (z_run z)" and dates: "valid_date valid_from" "valid_date valid_to"
    and n: "parse_interval_days stored = Inr n"
  shows "\<exists>res. next_run_at_utc CUSTOM z valid_from valid_to stored ref = Some (Inr res)
    \<and> earliest_run (searched_days CUSTOM stored valid_from valid_to (z_date z ref)) z ref res"
proof -
  let ?days = "searched_days CUSTOM stored valid_from valid_to (z_date z ref)"
  have pos: "0 < n" using parse_interval_range [OF n] by simp
  have not_once: "\<not> is_once_custom_schedule stored"
    using n by (auto simp: parse_interval_days_def is_once_custom_schedule_def Let_def split: if_splits)
  obtain res where res: "next_interval_from z n valid_to ref valid_from = Some res"
      "earliest_run (\<lambda>d. valid_from \<le> d \<and> d \<le> valid_to \<and> (toordinal d - toordinal valid_from) mod n = 0) z ref res"
    using interval_from_earliest [OF pos dates] by blast
  have "?days = (\<lambda>d. valid_from \<le> d \<and> d \<le> valid_to \<and> (toordinal d - toordinal valid_from) mod n = 0)"
    by (rule ext) (simp add: searched_days_def n)
  then have spec: "earliest_run ?days z ref res" using res(2) by simp
  show ?thesis
  proof (cases "valid_to < z_date z ref")
    case True
    have "z_run z d \<le> ref" if "valid_date d" "?days d" for d
      using run_zone.run_future [OF zone that(1), of ref] that(2) True unfolding searched_days_def
      by (meson leD linorder_le_less_linear order_trans)
    then show ?thesis using True by (simp add: next_run_at_utc_def earliest_run_def)
  qed (use res spec n not_once in \<open>simp add: next_run_at_utc_def next_interval_run_utc_def\<close>)
qed

lemma once_run_earliest:
  assumes zone: "run_zone (z_date z) (z_run z)" and dates: "valid_date valid_from" "valid_date valid_to" "valid_from \<le> valid_to"
    and once: "is_once_custom_schedule stored"
  shows "\<exists>res. next_run_at_utc CUSTOM z valid_from valid_to stored ref = Some (Inr res)
    \<and> (if z_date z ref = valid_to \<and> z_run z valid_to \<le> ref then res = Some (ref + second)
       else earliest_run (documented_days CUSTOM stored valid_from valid_to) z ref res)"
proof -
  have days: "documented_days CUSTOM stored valid_from valid_to = (\<lambda>d. d = valid_to)"
    using dates(3) once by (auto simp: documented_days_def fun_eq_iff)
  have passed: "z_run z valid_to \<le> ref" if "valid_to < z_date z ref"
    using run_zone.run_passed [OF zone dates(2) that] by simp
  have ahead: "z_date z ref = valid_to" if "\<not> valid_to < z_date z ref" "z_run z valid_to \<le> ref"
    using run_zone.run_ahead [OF zone dates(2), of ref] that by (meson linorder_neqE not_less)
  show ?thesis unfolding days
    using once passed ahead dates(2) by (auto simp: next_run_at_utc_def next_once_run_utc_def earliest_run_def)
qed


subsection \<open>Interval texts\<close>

lemma int_digits_read: "list_all is_digit s \<Longrightarrow> int_digits True acc s = Some (foldl (\<lambda>a c. 10 * a + int (digit_value c)) acc s)"
  by (induction s arbitrary: acc) simp_all

lemma foldl_digits: "foldl (\<lambda>a c. 10 * a + int (digit_value c)) (int k) s = int (foldl (\<lambda>a c. 10 * a + digit_value c) k s)"
proof (induction s arbitrary: k)
  case (Cons c s)
  show ?case using Cons.IH [of "10 * k + digit_value c"] by simp
qed simp

lemma int_digits_nat_text: "int_digits False 0 (nat_text k) = Some (int k)"
proof -
  obtain c s where s: "nat_text k = c # s" using nat_text_nonempty [of k] by (cases "nat_text k") auto
  have d: "is_digit c" "list_all is_digit s" using nat_text_digits [of k] s by simp_all
  have "int_digits False 0 (nat_text k) = Some (foldl (\<lambda>a c. 10 * a + int (digit_value c)) 0 (nat_text k))"
    using d by (simp add: s int_digits_read)
  also have "\<dots> = Some (int (text_nat (nat_text k)))" using foldl_digits [of 0 "nat_text k"] by (simp add: text_nat_def)
  finally show ?thesis by simp
qed

lemma digit_no_space: "is_digit c \<Longrightarrow> \<not> is_space c"
  by (auto simp: is_digit_def is_space_def)

lemma strip_no_space: "s \<noteq> [] \<Longrightarrow> \<not> is_space (hd s) \<Longrightarrow> \<not> is_space (last s) \<Longrightarrow> strip s = s"
  unfolding strip_def by (subst dropWhile_eq_self_iff [THEN iffD2], simp, subst dropWhile_eq_self_iff [THEN iffD2]) (simp_all add: hd_rev)

lemma nat_text_ends: "is_digit (hd (nat_text k))" "is_digit (last (nat_text k))"
  using nat_text_digits [of k] nat_text_nonempty [of k] by (auto simp: list_all_iff)

lemma py_str_int_text:
  "py_str_int n = (if n < 0 then CHR ''-'' # nat_text (nat (- n)) else nat_text (nat n))"
  by (simp add: py_str_int_def int_text_nat)

lemma py_str_int_ends: "py_str_int n \<noteq> []" "\<not> is_space (hd (py_str_int n))" "\<not> is_space (last (py_str_int n))"
  using nat_text_ends by (auto simp: py_str_int_text digit_no_space) (simp add: is_space_def)

lemma strip_py_str_int [simp]: "strip (py_str_int n) = py_str_int n"
  by (rule strip_no_space) (rule py_str_int_ends)+

lemma py_int_str [simp]: "py_int (py_str_int n) = Some n"
proof (cases "n < 0")
  case True
  then show ?thesis unfolding py_int_def strip_py_str_int by (simp add: py_str_int_text int_digits_nat_text)
next
  case False
  obtain c s where s: "nat_text (nat n) = c # s" using nat_text_nonempty [of "nat n"] by (cases "nat_text (nat n)") auto
  have "is_digit c" using nat_text_ends(1) [of "nat n"] by (simp add: s)
  then have "c \<noteq> CHR ''-''" "c \<noteq> CHR ''+''" by (auto simp: is_digit_def)
  moreover have "py_str_int n = c # s" "int_digits False 0 (c # s) = Some n"
    using False s int_digits_nat_text [of "nat n"] by (simp_all add: py_str_int_text)
  ultimately show ?thesis unfolding py_int_def strip_py_str_int by simp
qed

lemma not_once: "\<not> is_once_custom_schedule (Some (py_str_int n))"
proof
  assume "is_once_custom_schedule (Some (py_str_int n))"
  then have "map lower_char (py_str_int n) = ''once''"
    by (simp add: is_once_custom_schedule_def CUSTOM_SCHEDULE_ONCE_def py_lower_def)
  then have "lower_char (last (py_str_int n)) = CHR ''e''"
    using py_str_int_ends(1) [of n] last_map [of "py_str_int n" lower_char] by simp
  moreover have "is_digit (last (py_str_int n))" using nat_text_ends by (auto simp: py_str_int_text)
  ultimately show False by (auto simp: lower_char_def is_digit_def Let_def split: if_splits)
qed

lemma interval_text_read:
  "parse_interval_days (Some (format_interval_storage n)) =
     (if 7 \<le> n \<and> n \<le> 366 then Inr n else Inl (ValidationError ''interval_days must be between 7 and 366''))
   \<and> \<not> is_once_custom_schedule (Some (format_interval_storage n))"
proof -
  have "py_str_int n \<noteq> []" by (rule py_str_int_ends)
  then show ?thesis
    using not_once [of n]
    by (auto simp: parse_interval_days_def format_interval_storage_def MIN_CUSTOM_INTERVAL_DAYS_def
        MAX_CUSTOM_INTERVAL_DAYS_def)
qed

subsection \<open>Properties\<close>

text \<open>C14: the search for the next run of a schedule always ends, and its result is the documented one,
  06:00 local time of the first run day in the window whose run lies after the reference instant (and
  nothing exactly when there is none), with two exceptions. A quarterly schedule whose search begins on
  a quarter day (the later of \<^verbatim>\<open>valid_from\<close> and today) passes over that day, even when its run
  is still to come, and returns the first one after it. A one-time schedule on its last day, once the
  run of that day has passed, is due again one second after the reference instant.\<close>

theorem next_run_earliest_but_two_cases:
  assumes "run_zone (z_date z) (z_run z)" and "valid_date valid_from" and "valid_date valid_to" and "valid_from \<le> valid_to"
    and "f = CUSTOM \<Longrightarrow> is_once_custom_schedule stored \<or> parse_interval_days stored = Inr n"
  shows "\<exists>res. next_run_at_utc f z valid_from valid_to stored ref = Some (Inr res)
    \<and> (if f = QUARTERLY \<and> is_quarterly_run_day (max valid_from (z_date z ref))
       then earliest_run (\<lambda>d. documented_days f stored valid_from valid_to d \<and> d \<noteq> max valid_from (z_date z ref)) z ref res
       else if f = CUSTOM \<and> is_once_custom_schedule stored \<and> z_date z ref = valid_to \<and> z_run z valid_to \<le> ref
       then res = Some (ref + second)
       else earliest_run (documented_days f stored valid_from valid_to) z ref res)"
proof (cases "f = CUSTOM")
  case preset: False
  obtain res where res: "next_run_at_utc f z valid_from valid_to stored ref = Some (Inr res)"
      "earliest_run (searched_days f stored valid_from valid_to (z_date z ref)) z ref res"
    using preset_run_earliest [OF assms(1-3) preset] by blast
  have "searched_days f stored valid_from valid_to (z_date z ref)
      = (if f = QUARTERLY then \<lambda>d. documented_days f stored valid_from valid_to d \<and> d \<noteq> max valid_from (z_date z ref)
         else documented_days f stored valid_from valid_to)"
    using preset by (cases f) (auto simp: fun_eq_iff searched_days_def documented_days_def)
  moreover have "(\<lambda>d. documented_days f stored valid_from valid_to d \<and> d \<noteq> max valid_from (z_date z ref))
      = documented_days f stored valid_from valid_to"
    if "f = QUARTERLY" "\<not> is_quarterly_run_day (max valid_from (z_date z ref))"
    using that by (auto simp: fun_eq_iff documented_days_def)
  ultimately show ?thesis using res preset by (intro exI [of _ res]) (auto split: if_splits)
next
  case custom: True
  show ?thesis
  proof (cases "is_once_custom_schedule stored")
    case True
    obtain res where "next_run_at_utc CUSTOM z valid_from valid_to stored ref = Some (Inr res)"
        "if z_date z ref = valid_to \<and> z_run z valid_to \<le> ref then res = Some (ref + second)
         else earliest_run (documented_days CUSTOM stored valid_from valid_to) z ref res"
      using once_run_earliest [OF assms(1-4) True] by blast
    then show ?thesis using True custom by (intro exI [of _ res]) (auto split: if_splits)
  next
    case False
    then have n: "parse_interval_days stored = Inr n" using assms(5) custom by blast
    have "searched_days CUSTOM stored valid_from valid_to (z_date z ref) = documented_days CUSTOM stored valid_from valid_to"
      using False by (auto simp: fun_eq_iff searched_days_def documented_days_def)
    then obtain res where "next_run_at_utc CUSTOM z valid_from valid_to stored ref = Some (Inr res)"
        "earliest_run (documented_days CUSTOM stored valid_from valid_to) z ref res"
      using interval_run_earliest [OF assms(1-3) n, of ref] by metis
    then show ?thesis using False custom by (intro exI [of _ res]) simp
  qed
qed

lemma next_run_earliest_but_two_cases_witness:
  "next_run_at_utc QUARTERLY utc_zone (Date 2026 4 1) (Date 2099 12 31) None 0 \<noteq> Some (Inr (Some (utc_run (Date 2026 4 1))))
   \<and> next_run_at_utc CUSTOM utc_zone (Date 2026 1 1) (Date 2026 3 31) (Some ''once'') (utc_run (Date 2026 3 31))
       = Some (Inr (Some (utc_run (Date 2026 3 31) + second)))"
proof
  have v: "valid_date (Date 2026 4 1)" "valid_date (Date 2099 12 31)" "Date 2026 4 1 \<le> Date 2099 12 31"
    "is_quarterly_run_day (max (Date 2026 4 1) (utc_day 0))"
    "valid_date (Date 2026 1 1)" "valid_date (Date 2026 3 31)" "Date 2026 1 1 \<le> Date 2026 3 31"
    "is_once_custom_schedule (Some ''once'')" "max (Date 2026 4 1) (utc_day 0) = Date 2026 4 1" by code_simp+
  have zone: "run_zone (z_date utc_zone) (z_run utc_zone)" using utc.run_zone_axioms by (simp add: utc_zone_def)
  show "next_run_at_utc QUARTERLY utc_zone (Date 2026 4 1) (Date 2099 12 31) None 0 \<noteq> Some (Inr (Some (utc_run (Date 2026 4 1))))"
  proof
    assume run: "next_run_at_utc QUARTERLY utc_zone (Date 2026 4 1) (Date 2099 12 31) None 0 = Some (Inr (Some (utc_run (Date 2026 4 1))))"
    obtain d where d: "valid_date d" "utc_run (Date 2026 4 1) = utc_run d" "d \<noteq> Date 2026 4 1"
      using next_run_earliest_but_two_cases [OF zone v(1-3), of QUARTERLY None 0 0] v(4,9) run
      by (auto simp: earliest_run_def utc_zone_def)
    have "Date 2026 4 1 < d \<or> d < Date 2026 4 1" using d(3) by (meson linorder_neqE)
    then show False using utc.run_mono [OF v(1) d(1)] utc.run_mono [OF d(1) v(1)] d(2) by auto
  qed
  have "z_date utc_zone (utc_run (Date 2026 3 31)) = Date 2026 3 31" using utc.run_date [OF v(6)] by (simp add: utc_zone_def)
  moreover have "z_run utc_zone (Date 2026 3 31) = utc_run (Date 2026 3 31)" by (simp add: utc_zone_def)
  ultimately show "next_run_at_utc CUSTOM utc_zone (Date 2026 1 1) (Date 2026 3 31) (Some ''once'') (utc_run (Date 2026 3 31))
      = Some (Inr (Some (utc_run (Date 2026 3 31) + second)))"
    using next_run_earliest_but_two_cases [OF zone v(5-7), of CUSTOM "Some ''once''" 0 "utc_run (Date 2026 3 31)"] v(8) by auto
qed

text \<open>A quarterly schedule misses the quarter day it starts on. When the window opens on a quarter
  day whose 06:00 is still to come, a monthly schedule runs on that day, but a quarterly one runs on
  a later quarter day or never: the start of the next quarter is searched strictly after the day the
  search begins on.\<close>

theorem quarterly_misses_first_day:
  assumes zone: "run_zone (z_date z) (z_run z)" and dates: "valid_date valid_from" "valid_date valid_to"
    and start: "is_quarterly_run_day valid_from" "valid_from \<le> valid_to" "ref < z_run z valid_from"
  shows "next_run_at_utc MONTHLY_FIRST z valid_from valid_to None ref = Some (Inr (Some (z_run z valid_from)))
    \<and> (\<exists>res. next_run_at_utc QUARTERLY z valid_from valid_to None ref = Some (Inr res)
        \<and> (\<forall>t. res = Some t \<longrightarrow> (\<exists>d. valid_date d \<and> is_quarterly_run_day d \<and> valid_from < d \<and> t = z_run z d)))"
proof
  have today: "z_date z ref \<le> valid_from" by (rule run_zone.run_future [OF zone dates(1) start(3)])
  have no_earlier: "\<not> d < valid_from" if "searched_days f None valid_from valid_to (z_date z ref) d" for f d
    using that by (auto simp: searched_days_def)
  have run_day: "searched_days MONTHLY_FIRST None valid_from valid_to (z_date z ref) valid_from"
    using start by (simp add: searched_days_def is_monthly_run_day_def is_quarterly_run_day_def)
  obtain m where m: "next_run_at_utc MONTHLY_FIRST z valid_from valid_to None ref = Some (Inr m)"
      "earliest_run (searched_days MONTHLY_FIRST None valid_from valid_to (z_date z ref)) z ref m"
    using preset_run_earliest [OF zone dates, of MONTHLY_FIRST] by auto
  have "m = Some (z_run z valid_from)"
    using m(2) run_day dates(1) start(3) no_earlier unfolding earliest_run_def
    by (auto split: option.splits) (metis linorder_neqE not_less)
  with m(1) show "next_run_at_utc MONTHLY_FIRST z valid_from valid_to None ref = Some (Inr (Some (z_run z valid_from)))"
    by simp
  obtain q where q: "next_run_at_utc QUARTERLY z valid_from valid_to None ref = Some (Inr q)"
      "earliest_run (searched_days QUARTERLY None valid_from valid_to (z_date z ref)) z ref q"
    using preset_run_earliest [OF zone dates, of QUARTERLY] by auto
  have "\<exists>d. valid_date d \<and> is_quarterly_run_day d \<and> valid_from < d \<and> t = z_run z d" if "q = Some t" for t
    using q(2) that today by (auto simp: earliest_run_def searched_days_def max_def split: if_splits)
  with q(1) show "\<exists>res. next_run_at_utc QUARTERLY z valid_from valid_to None ref = Some (Inr res)
      \<and> (\<forall>t. res = Some t \<longrightarrow> (\<exists>d. valid_date d \<and> is_quarterly_run_day d \<and> valid_from < d \<and> t = z_run z d))" by blast
qed

lemma quarterly_misses_first_day_witness:
  "next_run_at_utc MONTHLY_FIRST utc_zone (Date 2026 4 1) (Date 2099 12 31) None 0
     = Some (Inr (Some (utc_run (Date 2026 4 1))))"
proof -
  have "valid_date (Date 2026 4 1)" "valid_date (Date 2099 12 31)" "is_quarterly_run_day (Date 2026 4 1)"
    "Date 2026 4 1 \<le> Date 2099 12 31" "0 < utc_run (Date 2026 4 1)" by code_simp+
  then show ?thesis
    using quarterly_misses_first_day [of utc_zone "Date 2026 4 1" "Date 2099 12 31" 0] utc.run_zone_axioms
    by (simp add: utc_zone_def)
qed

text \<open>C35: the interval of a schedule survives its storage as text: whatever number of days is written
  to the column, reading it back gives that number when it is between 7 and 366 and is refused
  otherwise, and it is never mistaken for the marker of a one-time schedule.\<close>

theorem interval_storage_roundtrip:
  "parse_interval_days (Some (format_interval_storage n)) =
     (if 7 \<le> n \<and> n \<le> 366 then Inr n else Inl (ValidationError ''interval_days must be between 7 and 366''))
   \<and> \<not> is_once_custom_schedule (Some (format_interval_storage n))"
  by (rule interval_text_read)

end
