(* ===== verification/Statements.thy ===== *)
theory Statements
  imports BillingBooks StatementSchedule "HOL-Library.List_Lexorder" "HOL-Library.Char_ord" "HOL-Library.Product_Lexorder"
begin

text \<open>
  Account statements (\<^verbatim>\<open>app/modules/account_statements\<close>): the ledger of an organisation over a
  period, read from the billing tables (\<^verbatim>\<open>ledger.py\<close>), the statements and their PDF states, the recurring
  schedules and the worker tasks (\<^verbatim>\<open>service.py\<close>, \<^verbatim>\<open>repository.py\<close>, \<^verbatim>\<open>tasks.py\<close>). Parameters: the number
  a sequence gave each payment, the digest of a statement's content signature, the zone database, whether
  the job queue answers, and the outcome of rendering, upload and mail. Snapshots, order references and
  the texts of a row's status are left out. Days of the billing tables are ordinals.
\<close>

named_theorems statement_simps \<open>statement tables after a write\<close>

subsection \<open>The ledger\<close>

datatype row_type = ROW_INVOICE | ROW_CREDIT_NOTE | ROW_PAYMENT | ROW_REFUND

record ledger_row =
  lr_type :: row_type
  lr_reference_id :: string
  lr_reference_number :: string
  lr_issue_date :: int
  lr_payment_date :: "int option"
  lr_amount :: rat
  lr_display :: rat
  lr_lines :: "line_item list"

type_synonym ledger_entry = "int \<times> nat \<times> ledger_row"

record statement_options =
  so_line_items :: bool
  so_credit_notes :: bool
  so_payment_history :: bool

datatype aging_bucket = DAYS_1_30 | DAYS_31_60 | DAYS_61_90 | DAYS_90_PLUS

record ledger_result =
  lg_opening :: rat
  lg_closing :: rat
  lg_rows :: "ledger_row list"
  lg_total_invoice :: rat
  lg_total_paid :: rat
  lg_total_unpaid :: rat
  lg_total_overdue :: rat
  lg_aging :: "aging_bucket \<Rightarrow> rat"
  lg_truncated :: bool

definition MAX_LEDGER_ROWS :: nat where "MAX_LEDGER_ROWS = 5000"

definition invoice_outstanding :: "invoice \<Rightarrow> rat" where
  "invoice_outstanding iv =
     (if inv_payment_status iv = VOID \<or> inv_payment_status iv = WRITTEN_OFF then 0
      else quantize_half_up (max 0 (inv_total iv - inv_paid_amount iv)))"

definition aging_bucket_of :: "int \<Rightarrow> aging_bucket option" where
  "aging_bucket_of days_past_due =
     (if days_past_due < 1 then None
      else if days_past_due \<le> 30 then Some DAYS_1_30
      else if days_past_due \<le> 60 then Some DAYS_31_60
      else if days_past_due \<le> 90 then Some DAYS_61_90
      else Some DAYS_90_PLUS)"

definition day_of_seconds :: "int \<Rightarrow> int" where
  \<comment> \<open>\<^verbatim>\<open>completed_at.date()\<close> of a UTC instant in seconds, as an ordinal\<close>
  "day_of_seconds t = toordinal (Date 1970 1 1) + t div 86400"

definition statement_invoices :: "string \<Rightarrow> billing_state \<Rightarrow> invoice list" where
  "statement_invoices org st =
     filter (\<lambda>iv. inv_org iv = Some org \<and> inv_status iv = SENT
       \<and> inv_payment_status iv \<noteq> VOID \<and> inv_payment_status iv \<noteq> WRITTEN_OFF) (bs_invoices st)"

definition statement_credit_notes :: "string \<Rightarrow> billing_state \<Rightarrow> credit_note list" where
  "statement_credit_notes org st = filter (\<lambda>c. cn_org c = Some org \<and> cn_status c = CN_ISSUED) (bs_credit_notes st)"

definition statement_payments :: "string \<Rightarrow> billing_state \<Rightarrow> payment list" where
  "statement_payments org st = filter (\<lambda>p. bp_org p = org \<and> bp_status p \<noteq> VOIDED) (bs_payments st)"

definition statement_refunds :: "string \<Rightarrow> billing_state \<Rightarrow> refund list" where
  "statement_refunds org st =
     filter (\<lambda>r. rf_org r = org \<and> rf_status r = COMPLETED \<and> rf_completed_at r \<noteq> None) (bs_refunds st)"

definition invoice_row :: "bool \<Rightarrow> billing_state \<Rightarrow> invoice \<Rightarrow> ledger_row" where
  "invoice_row detail st iv =
     \<lparr>lr_type = ROW_INVOICE, lr_reference_id = rid iv, lr_reference_number = inv_number iv,
      lr_issue_date = inv_issue_date iv, lr_payment_date = None,
      lr_amount = quantize_half_up (inv_total iv), lr_display = quantize_half_up (inv_total iv),
      lr_lines = (if detail then take 200 (filter (\<lambda>l. li_invoice_id l = rid iv) (bs_lines st)) else [])\<rparr>"

definition credit_note_row :: "credit_note \<Rightarrow> ledger_row" where
  "credit_note_row c =
     \<lparr>lr_type = ROW_CREDIT_NOTE, lr_reference_id = rid c, lr_reference_number = cn_number c,
      lr_issue_date = cn_issue_date c, lr_payment_date = None,
      lr_amount = quantize_half_up (- cn_total c), lr_display = quantize_half_up (- cn_total c), lr_lines = []\<rparr>"

definition payment_row :: "(string \<Rightarrow> string) \<Rightarrow> payment \<Rightarrow> ledger_row" where
  "payment_row number p =
     \<lparr>lr_type = ROW_PAYMENT, lr_reference_id = rid p, lr_reference_number = number (rid p),
      lr_issue_date = bp_date p, lr_payment_date = Some (bp_date p),
      lr_amount = quantize_half_up (- bp_amount p), lr_display = quantize_half_up (- bp_amount p), lr_lines = []\<rparr>"

definition refund_day :: "refund \<Rightarrow> int" where
  "refund_day r = (case rf_completed_at r of None \<Rightarrow> 0 | Some t \<Rightarrow> day_of_seconds t)"

definition refund_row :: "refund \<Rightarrow> ledger_row" where
  "refund_row r =
     \<lparr>lr_type = ROW_REFUND, lr_reference_id = rid r, lr_reference_number = rf_number r,
      lr_issue_date = refund_day r, lr_payment_date = Some (refund_day r),
      lr_amount = quantize_half_up (rf_processed r), lr_display = quantize_half_up (rf_processed r), lr_lines = []\<rparr>"

definition ledger_entries ::
    "statement_options \<Rightarrow> (string \<Rightarrow> string) \<Rightarrow> string \<Rightarrow> billing_state \<Rightarrow> ledger_entry list" where
  "ledger_entries opts number org st =
     sort_key (\<lambda>(d, p, r). (d, p, lr_reference_number r))
       (map (\<lambda>iv. (inv_issue_date iv, 0, invoice_row (so_line_items opts) st iv)) (statement_invoices org st)
        @ (if so_credit_notes opts then map (\<lambda>c. (cn_issue_date c, 1, credit_note_row c)) (statement_credit_notes org st) else [])
        @ (if so_payment_history opts then
             map (\<lambda>p. (bp_date p, 2, payment_row number p)) (statement_payments org st)
             @ map (\<lambda>r. (refund_day r, 3, refund_row r)) (statement_refunds org st)
           else []))"

definition entry_amount :: "ledger_entry \<Rightarrow> rat" where
  "entry_amount e = lr_amount (snd (snd e))"

definition overdue_invoice :: "int \<Rightarrow> invoice \<Rightarrow> bool" where
  "overdue_invoice as_of iv \<longleftrightarrow> inv_due_date iv < as_of \<and> 0 < invoice_outstanding iv"

definition build_ledger ::
    "statement_options \<Rightarrow> (string \<Rightarrow> string) \<Rightarrow> string \<Rightarrow> int \<Rightarrow> int \<Rightarrow> int \<Rightarrow> billing_state \<Rightarrow> ledger_result" where
  "build_ledger opts number org period_start period_end aging_as_of st =
     (let entries = ledger_entries opts number org st;
          opening = sum_where (\<lambda>e. fst e < period_start) entry_amount entries;
          in_period = filter (\<lambda>e. period_start \<le> fst e \<and> fst e \<le> period_end) entries;
          rows = map (snd \<circ> snd) (take MAX_LEDGER_ROWS in_period);
          open_invoices = statement_invoices org st
      in \<lparr>lg_opening = opening,
          lg_closing = opening + sum_where (\<lambda>e. period_start \<le> fst e \<and> fst e \<le> period_end) entry_amount entries,
          lg_rows = rows,
          lg_total_invoice = quantize_half_up (sum_where (\<lambda>r. lr_type r = ROW_INVOICE) lr_display rows),
          lg_total_paid = quantize_half_up (sum_where (\<lambda>r. lr_type r = ROW_PAYMENT) (\<lambda>r. - lr_display r) rows),
          lg_total_unpaid = quantize_half_up (sum_list (map invoice_outstanding open_invoices)),
          lg_total_overdue = quantize_half_up (sum_where (overdue_invoice aging_as_of) invoice_outstanding open_invoices),
          lg_aging = (\<lambda>b. quantize_half_up
             (sum_where (\<lambda>iv. 0 < invoice_outstanding iv \<and> aging_bucket_of (aging_as_of - inv_due_date iv) = Some b)
                invoice_outstanding open_invoices)),
          lg_truncated = (MAX_LEDGER_ROWS < length in_period)\<rparr>)"

subsection \<open>Statements and schedules\<close>

datatype pdf_status = PDF_PENDING | PDF_GENERATING | PDF_READY | PDF_FAILED

datatype created_by_type = BY_SYSTEM | BY_ADMIN | BY_CLIENT

datatype schedule_status = SCHEDULE_ACTIVE | SCHEDULE_PAUSED | SCHEDULE_COMPLETED

datatype delivery_status = DELIVERY_PENDING | DELIVERY_SENT | DELIVERY_FAILED

type_synonym signature_payload = "string \<times> date \<times> date \<times> bool \<times> bool \<times> bool \<times> string"

record statement = row +
  ts_org :: string
  ts_start :: date
  ts_end :: date
  ts_opening :: rat
  ts_closing :: rat
  ts_total_invoice :: rat
  ts_total_paid :: rat
  ts_total_unpaid :: rat
  ts_total_overdue :: rat
  ts_aging :: "aging_bucket \<Rightarrow> rat"
  ts_options :: statement_options
  ts_pdf :: pdf_status
  ts_pdf_key :: "string option"
  ts_signature :: string
  ts_job :: "string option"
  ts_failure :: "string option"
  ts_generated_at :: "int option"
  ts_created_by :: "string option"
  ts_created_by_type :: created_by_type
  ts_deleted_at :: "int option"

record schedule = row +
  sc_org :: string
  sc_frequency :: string
  sc_valid_from :: date
  sc_valid_to :: date
  sc_recipient :: string
  sc_timezone :: string
  sc_options :: statement_options
  sc_status :: schedule_status
  sc_next_run_at :: "int option"
  sc_last_run_at :: "int option"
  sc_custom_cron :: "string option"

record delivery = row +
  dl_statement_id :: string
  dl_recipient :: string
  dl_status :: delivery_status
  dl_sent_at :: "int option"
  dl_by :: "string option"

datatype statement_job = GeneratePdf string | DeliverStatement string string string

record statement_db =
  sd_statements :: "statement list"
  sd_schedules :: "schedule list"
  sd_deliveries :: "delivery list"
  sd_jobs :: "statement_job list"

record statement_env =
  se_org :: "string \<Rightarrow> bool"
  se_books :: billing_state
  se_payment_number :: "string \<Rightarrow> string"
  se_digest :: "signature_payload \<Rightarrow> string"
  se_sha256 :: "string \<Rightarrow> string"
  se_zones :: "string \<Rightarrow> zone option"
  se_today :: date
  se_statement_id :: "nat \<Rightarrow> string"
  se_queue_up :: bool

definition PDF_TEMPLATE_VERSION :: string where "PDF_TEMPLATE_VERSION = ''v1''"

definition compute_content_signature ::
    "statement_env \<Rightarrow> string \<Rightarrow> date \<Rightarrow> date \<Rightarrow> statement_options \<Rightarrow> string" where
  "compute_content_signature env org a b opts =
     se_digest env (org, a, b, so_line_items opts, so_credit_notes opts, so_payment_history opts, PDF_TEMPLATE_VERSION)"

definition ensure_org :: "statement_env \<Rightarrow> string \<Rightarrow> unit result" where
  "ensure_org env org = (if se_org env org then Inr () else Inl (NotFoundError ''organization'' org))"

definition service_build_ledger ::
    "statement_env \<Rightarrow> string \<Rightarrow> date \<Rightarrow> date \<Rightarrow> statement_options \<Rightarrow> date option \<Rightarrow> ledger_result result" where
  "service_build_ledger env org a b opts aging_as_of =
     bind_result (ensure_org env org) (\<lambda>_.
     bind_result (validate_period a b (Some (se_today env))) (\<lambda>_.
     Inr (build_ledger opts (se_payment_number env) org (toordinal a) (toordinal b)
            (toordinal (case aging_as_of of None \<Rightarrow> b | Some d \<Rightarrow> d)) (se_books env))))"

definition active_by_signature :: "string \<Rightarrow> string \<Rightarrow> statement list \<Rightarrow> statement option result" where
  \<comment> \<open>\<^verbatim>\<open>scalar_one_or_none\<close>: two matching rows are an error\<close>
  "active_by_signature org sig rows =
     (case filter (\<lambda>s. ts_org s = org \<and> ts_signature s = sig \<and> ts_deleted_at s = None \<and> ts_pdf s \<noteq> PDF_FAILED) rows of
        [] \<Rightarrow> Inr None
      | [s] \<Rightarrow> Inr (Some s)
      | _ \<Rightarrow> Inl (MultipleResultsFound ''account_statements''))"

definition enqueue_job :: "statement_env \<Rightarrow> statement_job \<Rightarrow> statement_db \<Rightarrow> statement_db" where
  \<comment> \<open>\<open>sd_jobs\<close> lists the requests; the queue drops one whose job id it still knows\<close>
  "enqueue_job env j db = (if se_queue_up env then db\<lparr>sd_jobs := sd_jobs db @ [j]\<rparr> else db)"

definition pdf_job_id :: "statement_env \<Rightarrow> string \<Rightarrow> string \<Rightarrow> string option \<Rightarrow> string" where
  "pdf_job_id env statement_id signature idempotency_key =
     (let idem_raw = strip (str_or idempotency_key '''');
          idem_part = (if idem_raw = '''' then ''noidem'' else take 12 (se_sha256 env idem_raw))
      in ''stmtpdf:'' @ statement_id @ CHR '':'' # take 12 signature @ CHR '':'' # idem_part)"

definition new_statement ::
    "statement_env \<Rightarrow> string \<Rightarrow> string \<Rightarrow> date \<Rightarrow> date \<Rightarrow> statement_options \<Rightarrow> string option \<Rightarrow> created_by_type
     \<Rightarrow> string option \<Rightarrow> ledger_result \<Rightarrow> statement" where
  "new_statement env new_id org a b opts user user_type key l =
     \<lparr>rid = new_id, version = 1, ts_org = org, ts_start = a, ts_end = b, ts_opening = lg_opening l, ts_closing = lg_closing l,
      ts_total_invoice = lg_total_invoice l, ts_total_paid = lg_total_paid l, ts_total_unpaid = lg_total_unpaid l,
      ts_total_overdue = lg_total_overdue l, ts_aging = lg_aging l, ts_options = opts, ts_pdf = PDF_GENERATING,
      ts_pdf_key = None, ts_signature = compute_content_signature env org a b opts,
      ts_job = (if se_queue_up env then Some (pdf_job_id env new_id (compute_content_signature env org a b opts) key)
        else None),
      ts_failure = None, ts_generated_at = None, ts_created_by = user, ts_created_by_type = user_type, ts_deleted_at = None\<rparr>"

definition create_statement ::
    "statement_env \<Rightarrow> string \<Rightarrow> date \<Rightarrow> date \<Rightarrow> statement_options \<Rightarrow> string option \<Rightarrow> created_by_type
     \<Rightarrow> string option \<Rightarrow> statement_db \<Rightarrow> (statement_db \<times> statement) result" where
  "create_statement env org a b opts user user_type key db =
     bind_result (validate_period a b (Some (se_today env))) (\<lambda>_.
     bind_result (active_by_signature org (compute_content_signature env org a b opts) (sd_statements db)) (\<lambda>existing.
     case existing of
       Some s \<Rightarrow> Inr (db, s)
     | None \<Rightarrow>
         bind_result (service_build_ledger env org a b opts (Some b)) (\<lambda>l.
         let new_id = se_statement_id env (length (sd_statements db));
             s = new_statement env new_id org a b opts user user_type key l
         in bind_result (create_row s (sd_statements db)) (\<lambda>rows.
            Inr (enqueue_job env (GeneratePdf new_id) (db\<lparr>sd_statements := rows\<rparr>), s)))))"

definition statement_in_org :: "string \<Rightarrow> statement \<Rightarrow> bool" where
  "statement_in_org org s \<longleftrightarrow> ts_org s = org"

definition get_statement :: "string \<Rightarrow> string \<Rightarrow> statement_db \<Rightarrow> statement result" where
  "get_statement i org db =
     (case get_by_id i (statement_in_org org) (sd_statements db) of
        None \<Rightarrow> Inl (NotFoundError ''account_statement'' i)
      | Some s \<Rightarrow> if ts_deleted_at s \<noteq> None then Inl (NotFoundError ''account_statement'' i) else Inr s)"

definition has_successful_delivery :: "string \<Rightarrow> statement_db \<Rightarrow> bool" where
  "has_successful_delivery i db \<longleftrightarrow> (\<exists>d \<in> set (sd_deliveries db). dl_statement_id d = i \<and> dl_status d = DELIVERY_SENT)"

definition delete_statement :: "string \<Rightarrow> string \<Rightarrow> int \<Rightarrow> statement_db \<Rightarrow> statement_db result" where
  "delete_statement i org now db =
     bind_result (get_statement i org db) (\<lambda>s.
     if has_successful_delivery i db
     then Inl (ConflictError ''Cannot delete a statement that has been emailed to a client'')
     else
       bind_result (update_by_id ''account_statement'' i (\<lambda>r. r\<lparr>ts_deleted_at := Some now\<rparr>) (Some (version s))
                      (\<lambda>_. True) (sd_statements db)) (\<lambda>(rows, _).
       Inr (db\<lparr>sd_statements := rows\<rparr>)))"

definition signed_url_allowed :: "statement \<Rightarrow> bool" where
  \<comment> \<open>the check of \<^verbatim>\<open>get_signed_url\<close>\<close>
  "signed_url_allowed s \<longleftrightarrow> ts_pdf s = PDF_READY \<and> truthy_str (ts_pdf_key s)"

datatype mail_outcome = MAIL_SENT | MAIL_REFUSED string

definition send_email ::
    "statement_env \<Rightarrow> mail_outcome \<Rightarrow> string \<Rightarrow> int \<Rightarrow> string \<Rightarrow> string \<Rightarrow> string \<Rightarrow> string option
     \<Rightarrow> statement_db \<Rightarrow> (statement_db \<times> delivery_status) result" where
  \<comment> \<open>a refused mail raises, so the session rolls the delivery row back with everything else\<close>
  "send_email env outcome new_id now i org recipient user db =
     bind_result (get_statement i org db) (\<lambda>s.
     bind_result (validate_email recipient) (\<lambda>email.
     case ts_pdf s of
       PDF_PENDING \<Rightarrow> Inr (enqueue_job env (DeliverStatement i org email) db, DELIVERY_PENDING)
     | PDF_GENERATING \<Rightarrow> Inr (enqueue_job env (DeliverStatement i org email) db, DELIVERY_PENDING)
     | PDF_FAILED \<Rightarrow> Inl (ValidationError ''Statement PDF generation failed; create a new statement before sending email'')
     | PDF_READY \<Rightarrow>
         if \<not> signed_url_allowed s then Inl (NotFoundError ''account_statement_pdf'' i)
         else
           bind_result (create_row \<lparr>rid = new_id, version = 1, dl_statement_id = i, dl_recipient = email,
                          dl_status = DELIVERY_PENDING, dl_sent_at = None, dl_by = user\<rparr> (sd_deliveries db)) (\<lambda>rows.
           case outcome of
             MAIL_REFUSED text_given \<Rightarrow> Inl (ValidationError text_given)
           | MAIL_SENT \<Rightarrow>
               bind_result (update_by_id ''delivery'' new_id (\<lambda>d. d\<lparr>dl_status := DELIVERY_SENT, dl_sent_at := Some now\<rparr>) None
                              (\<lambda>_. True) rows) (\<lambda>(rows', _).
               Inr (db\<lparr>sd_deliveries := rows'\<rparr>, DELIVERY_SENT)))))"

subsection \<open>The PDF task\<close>

datatype pdf_outcome = RENDERED | RENDER_FAILED string string | UPLOAD_FAILED string

definition update_statement :: "string \<Rightarrow> (statement \<Rightarrow> statement) \<Rightarrow> statement_db \<Rightarrow> statement_db" where
  \<comment> \<open>the tasks update without an expected version\<close>
  "update_statement i f db =
     db\<lparr>sd_statements := map (\<lambda>s. if rid s = i then write_row f s else s) (sd_statements db)\<rparr>"

definition mark_failed :: "string \<Rightarrow> string \<Rightarrow> string \<Rightarrow> statement_db \<Rightarrow> statement_db" where
  "mark_failed i code reason =
     update_statement i (\<lambda>s. s\<lparr>ts_pdf := PDF_FAILED, ts_failure := Some (take 500 (code @ '': '' @ reason))\<rparr>)"

definition generate_pdf_task :: "statement_env \<Rightarrow> pdf_outcome \<Rightarrow> string \<Rightarrow> int \<Rightarrow> statement_db \<Rightarrow> statement_db \<times> bool" where
  \<comment> \<open>the committed tables, and whether the task asks to be retried\<close>
  "generate_pdf_task env outcome i now db =
     (case get_by_id i (\<lambda>_. True) (sd_statements db) of
        None \<Rightarrow> (db, False)
      | Some s \<Rightarrow>
          if \<not> se_org env (ts_org s) then (mark_failed i ''ORG_NOT_FOUND'' ''Organization not found'' db, False)
          else
            (case outcome of
               RENDER_FAILED code reason \<Rightarrow> (mark_failed i code reason db, True)
             | UPLOAD_FAILED reason \<Rightarrow> (mark_failed i ''UPLOAD_FAILED'' reason db, True)
             | RENDERED \<Rightarrow>
                 (update_statement i (\<lambda>r. r\<lparr>ts_pdf := PDF_READY,
                    ts_pdf_key := Some (''account-statements/'' @ ts_org s @ ''/'' @ i @ ''.pdf''),
                    ts_generated_at := Some now, ts_failure := None\<rparr>) db, False)))"

definition deliver_task ::
    "statement_env \<Rightarrow> mail_outcome \<Rightarrow> string \<Rightarrow> int \<Rightarrow> string \<Rightarrow> string \<Rightarrow> string \<Rightarrow> string option
     \<Rightarrow> statement_db \<Rightarrow> (statement_db \<times> delivery_status) result" where
  \<comment> \<open>a statement whose PDF is not ready makes the task retry, which raises\<close>
  "deliver_task env outcome new_id now i org recipient user db =
     bind_result (get_statement i org db) (\<lambda>s.
     if ts_pdf s \<noteq> PDF_READY then Inl (ConflictError ''retry'')
     else bind_result (validate_email recipient) (\<lambda>email. send_email env outcome new_id now i org email user db))"


subsection \<open>Schedules\<close>

definition create_schedule ::
    "statement_env \<Rightarrow> string \<Rightarrow> int \<Rightarrow> string \<Rightarrow> string \<Rightarrow> date option \<Rightarrow> date option \<Rightarrow> string \<Rightarrow> string option
     \<Rightarrow> statement_options \<Rightarrow> int option \<Rightarrow> statement_db \<Rightarrow> (statement_db \<times> schedule) result option" where
  \<comment> \<open>the outer option: the search for the first run ends\<close>
  "create_schedule env new_id now org frequency_text valid_from valid_to recipient timezone opts interval_days db =
     (case bind_result (ensure_org env org) (\<lambda>_.
           bind_result (validate_schedule_inputs (se_zones env) frequency_text valid_from valid_to timezone interval_days now) (\<lambda>v.
           bind_result (validate_email recipient) (\<lambda>email. Inr (v, email)))) of
        Inl e \<Rightarrow> Some (Inl e)
      | Inr ((f, z, stored, a, b), email) \<Rightarrow>
          map_option (\<lambda>r.
            bind_result r (\<lambda>next_run.
            let s = \<lparr>rid = new_id, version = 1, sc_org = org,
                  sc_frequency = (case f of MONTHLY_FIRST \<Rightarrow> ''MONTHLY_FIRST'' | QUARTERLY \<Rightarrow> ''QUARTERLY'' | CUSTOM \<Rightarrow> ''CUSTOM''),
                  sc_valid_from = a, sc_valid_to = b, sc_recipient = email, sc_timezone = z_key z, sc_options = opts,
                  sc_status = (if next_run \<noteq> None then SCHEDULE_ACTIVE else SCHEDULE_COMPLETED),
                  sc_next_run_at = next_run, sc_last_run_at = None, sc_custom_cron = stored\<rparr>
            in bind_result (create_row s (sd_schedules db)) (\<lambda>rows. Inr (db\<lparr>sd_schedules := rows\<rparr>, s))))
            (initial_next_run_at_utc f z a b stored now))"

definition schedule_due :: "int \<Rightarrow> schedule \<Rightarrow> bool" where
  "schedule_due before s \<longleftrightarrow> sc_status s = SCHEDULE_ACTIVE
     \<and> (case sc_next_run_at s of None \<Rightarrow> False | Some t \<Rightarrow> t \<le> before)"

definition due_schedules :: "int \<Rightarrow> statement_db \<Rightarrow> schedule list" where
  \<comment> \<open>\<^verbatim>\<open>list_due\<close>, in the order of the next run; rows with the same instant in insertion order\<close>
  "due_schedules before db =
     sort_key (\<lambda>s. case sc_next_run_at s of None \<Rightarrow> 0 | Some t \<Rightarrow> t) (filter (schedule_due before) (sd_schedules db))"

definition update_schedule :: "schedule \<Rightarrow> (schedule \<Rightarrow> schedule) \<Rightarrow> statement_db \<Rightarrow> statement_db result" where
  "update_schedule s f db =
     bind_result (update_by_id ''account_statement_schedule'' (rid s) f (Some (version s)) (\<lambda>_. True) (sd_schedules db))
       (\<lambda>(rows, _). Inr (db\<lparr>sd_schedules := rows\<rparr>))"

definition run_period :: "frequency \<Rightarrow> zone \<Rightarrow> schedule \<Rightarrow> date \<Rightarrow> (date \<times> date) result" where
  \<comment> \<open>the period of one run of a schedule on a local day, validated\<close>
  "run_period f z s run_local =
     bind_result
       (if f = CUSTOM
        then statement_period_for_custom_run run_local (sc_valid_from s) (sc_valid_to s) (sc_last_run_at s) z (sc_custom_cron s)
        else statement_period_for_run f run_local)
       (\<lambda>(a, b). bind_result (validate_period a b (Some run_local)) (\<lambda>_. Inr (a, b)))"

definition padded :: "nat \<Rightarrow> int \<Rightarrow> string" where
  "padded w n = (let t = py_str_int n in replicate (w - length t) CHR ''0'' @ t)"

definition date_text :: "date \<Rightarrow> string" where
  \<comment> \<open>\<^verbatim>\<open>str(date)\<close>, the ISO form\<close>
  "date_text d = padded 4 (year d) @ CHR ''-'' # padded 2 (month d) @ CHR ''-'' # padded 2 (day d)"

definition schedule_key :: "schedule \<Rightarrow> date \<Rightarrow> date \<Rightarrow> string" where
  "schedule_key s a b = ''schedule:'' @ rid s @ CHR '':'' # date_text a @ CHR '':'' # date_text b"

definition out_of_window :: "frequency \<Rightarrow> schedule \<Rightarrow> date \<Rightarrow> bool" where
  "out_of_window f s run_local \<longleftrightarrow> \<not> (f = CUSTOM \<and> is_once_custom_schedule (sc_custom_cron s))
     \<and> (run_local < sc_valid_from s \<or> sc_valid_to s < run_local)"

definition finish_run :: "statement_env \<Rightarrow> schedule \<Rightarrow> statement \<Rightarrow> int \<Rightarrow> int option \<Rightarrow> statement_db \<Rightarrow> statement_db result" where
  "finish_run env s stmt now following db =
     bind_result (update_schedule s (\<lambda>r. r\<lparr>sc_last_run_at := Some now, sc_next_run_at := following,
                    sc_status := (if following \<noteq> None then SCHEDULE_ACTIVE else SCHEDULE_COMPLETED)\<rparr>) db) (\<lambda>db'.
     Inr (enqueue_job env (DeliverStatement (rid stmt) (sc_org s) (sc_recipient s)) db'))"

definition execute_schedule_run :: "statement_env \<Rightarrow> schedule \<Rightarrow> int \<Rightarrow> statement_db \<Rightarrow> statement_db result option" where
  "execute_schedule_run env s now db =
     (case bind_result (normalize_frequency (sc_frequency s)) (\<lambda>f.
           bind_result (resolve_timezone (se_zones env) (Some (sc_timezone s))) (\<lambda>z. Inr (f, z))) of
        Inl e \<Rightarrow> Some (Inl e)
      | Inr (f, z) \<Rightarrow>
          let run_local = z_date z now
          in if out_of_window f s run_local then
               Some (update_schedule s (\<lambda>r. r\<lparr>sc_status := SCHEDULE_COMPLETED, sc_next_run_at := None\<rparr>) db)
             else
               (case bind_result (run_period f z s run_local) (\<lambda>(a, b).
                     create_statement env (sc_org s) a b (sc_options s) None BY_SYSTEM (Some (schedule_key s a b)) db) of
                  Inl e \<Rightarrow> Some (Inl e)
                | Inr (db', stmt) \<Rightarrow>
                    map_option (\<lambda>r. bind_result r (\<lambda>following. finish_run env s stmt now following db'))
                      (next_run_at_utc f z (sc_valid_from s) (sc_valid_to s) (sc_custom_cron s) now)))"

partial_function (option) process_from ::
    "statement_env \<Rightarrow> int \<Rightarrow> nat \<Rightarrow> statement_db \<Rightarrow> (statement_db \<times> nat) result option" where
  \<comment> \<open>the loop of \<^verbatim>\<open>process_due_schedules\<close>; an exception ends it and rolls the session back\<close>
  "process_from env ref processed db =
     (case due_schedules ref db of
        [] \<Rightarrow> Some (Inr (db, processed))
      | s # _ \<Rightarrow>
          Option.bind (execute_schedule_run env s ref db) (\<lambda>r.
          case r of
            Inl e \<Rightarrow> Some (Inl e)
          | Inr db' \<Rightarrow> process_from env ref (processed + 1) db'))"

declare process_from.simps [code]

definition process_due_schedules :: "statement_env \<Rightarrow> int \<Rightarrow> statement_db \<Rightarrow> (statement_db \<times> nat) result option" where
  "process_due_schedules env ref db = process_from env ref 0 db"



subsection \<open>Runs of schedules\<close>

definition zones_ok :: "statement_env \<Rightarrow> bool" where
  "zones_ok env \<longleftrightarrow> (\<forall>k z. se_zones env k = Some z \<longrightarrow> z_key z = k \<and> run_zone (z_date z) (z_run z))"

definition schedules_ok :: "statement_db \<Rightarrow> bool" where
  "schedules_ok db \<longleftrightarrow> distinct_ids (sd_schedules db)
     \<and> (\<forall>s \<in> set (sd_schedules db). valid_date (sc_valid_from s) \<and> valid_date (sc_valid_to s))"

lemma next_run_total:
  assumes zone: "run_zone (z_date z) (z_run z)" and dates: "valid_date a" "valid_date b"
  shows "\<exists>r. next_run_at_utc f z a b stored ref = Some r \<and> (\<forall>t. r = Inr (Some t) \<longrightarrow> ref < t)"
proof (cases "f = CUSTOM")
  case False
  from preset_run_earliest [OF zone dates False] obtain res
    where "next_run_at_utc f z a b stored ref = Some (Inr res)"
      "earliest_run (searched_days f stored a b (z_date z ref)) z ref res" by blast
  then show ?thesis by (auto simp: earliest_run_def)
next
  case True
  consider n where "parse_interval_days stored = Inr n" | "is_once_custom_schedule stored"
    | e where "parse_interval_days stored = Inl e" "\<not> is_once_custom_schedule stored"
    by (metis old.sum.exhaust)
  then show ?thesis
  proof cases
    case 1
    from interval_run_earliest [OF zone dates 1] obtain res
      where "next_run_at_utc CUSTOM z a b stored ref = Some (Inr res)"
        "earliest_run (searched_days CUSTOM stored a b (z_date z ref)) z ref res" by blast
    then show ?thesis using True by (auto simp: earliest_run_def)
  qed (auto simp: True next_run_at_utc_def next_once_run_utc_def second_def)
qed

lemma enqueue_job_frame [statement_simps, simp]:
  "sd_schedules (enqueue_job env j db) = sd_schedules db"
  "sd_statements (enqueue_job env j db) = sd_statements db"
  "sd_deliveries (enqueue_job env j db) = sd_deliveries db"
  by (simp_all add: enqueue_job_def)

lemma create_statement_frame:
  "create_statement env org a b opts u ut key db = Inr (db', s) \<Longrightarrow> sd_schedules db' = sd_schedules db \<and> sd_deliveries db' = sd_deliveries db"
  by (auto simp: create_statement_def Let_def split: option.splits)

definition rewrite_schedule :: "schedule \<Rightarrow> (schedule \<Rightarrow> schedule) \<Rightarrow> schedule list \<Rightarrow> schedule list" where
  "rewrite_schedule s f rows = map (\<lambda>r. if rid r = rid s then write_row f r else r) rows"

lemma update_schedule_eq:
  assumes "distinct_ids (sd_schedules db)" and "s \<in> set (sd_schedules db)"
  shows "update_schedule s f db = Inr (db\<lparr>sd_schedules := rewrite_schedule s f (sd_schedules db)\<rparr>)"
proof -
  have "get_by_id (rid s) (\<lambda>_. True) (sd_schedules db) = Some s" using get_by_id_distinct [OF assms] by simp
  from commit_row_current [OF assms(1) this refl, of "''account_statement_schedule''" f]
  obtain r where "update_by_id ''account_statement_schedule'' (rid s) f (Some (version s)) (\<lambda>_. True) (sd_schedules db)
      = Inr (rewrite_schedule s f (sd_schedules db), r)"
    by (auto simp: commit_row_def rewrite_schedule_def split: prod.splits)
  then show ?thesis by (simp add: update_schedule_def)
qed

definition settled :: "int \<Rightarrow> schedule \<Rightarrow> (schedule \<Rightarrow> schedule) \<Rightarrow> bool" where
  \<comment> \<open>an update of a run: afterwards the schedule is not due, and its dates are as they were\<close>
  "settled ref s f \<longleftrightarrow> \<not> schedule_due ref (write_row f s)
     \<and> sc_valid_from (f s) = sc_valid_from s \<and> sc_valid_to (f s) = sc_valid_to s"

lemma execute_total:
  assumes env: "zones_ok env" and ok: "schedules_ok db" and s: "s \<in> set (sd_schedules db)"
  shows "\<exists>r. execute_schedule_run env s ref db = Some r \<and> (\<forall>db'. r = Inr db' \<longrightarrow>
     (\<exists>f. settled ref s f \<and> sd_schedules db' = rewrite_schedule s f (sd_schedules db)))"
proof -
  let ?pre = "bind_result (normalize_frequency (sc_frequency s)) (\<lambda>f.
      bind_result (resolve_timezone (se_zones env) (Some (sc_timezone s))) (\<lambda>z. Inr (f, z)))"
  have d: "distinct_ids (sd_schedules db)" and dates: "valid_date (sc_valid_from s)" "valid_date (sc_valid_to s)"
    using ok s by (auto simp: schedules_ok_def)
  show ?thesis
  proof (cases ?pre)
    case (Inl e)
    then show ?thesis by (simp add: execute_schedule_run_def)
  next
    case (Inr fz)
    obtain f z where fz: "?pre = Inr (f, z)" using Inr by (cases fz) simp
    then have "resolve_timezone (se_zones env) (Some (sc_timezone s)) = Inr z" by auto
    then have zone: "run_zone (z_date z) (z_run z)"
      using env by (auto simp: resolve_timezone_def zones_ok_def Let_def split: option.splits)
    show ?thesis
    proof (cases "out_of_window f s (z_date z ref)")
      case True
      let ?g = "\<lambda>r. r\<lparr>sc_status := SCHEDULE_COMPLETED, sc_next_run_at := None\<rparr>"
      have "execute_schedule_run env s ref db = Some (Inr (db\<lparr>sd_schedules := rewrite_schedule s ?g (sd_schedules db)\<rparr>))"
        using True unfolding execute_schedule_run_def fz update_schedule_eq [OF d s] by simp
      moreover have "settled ref s ?g" by (simp add: settled_def write_row_def schedule_due_def)
      ultimately show ?thesis by (intro exI conjI allI impI) (assumption, auto)
    next
      case False
      let ?made = "bind_result (run_period f z s (z_date z ref)) (\<lambda>(a, b).
          create_statement env (sc_org s) a b (sc_options s) None BY_SYSTEM (Some (schedule_key s a b)) db)"
      show ?thesis
      proof (cases ?made)
        case (Inl e)
        then show ?thesis using False unfolding execute_schedule_run_def fz by simp
      next
        case (Inr made)
        obtain db1 stmt where made: "?made = Inr (db1, stmt)" using Inr by (cases made) simp
        then have same: "sd_schedules db1 = sd_schedules db" using create_statement_frame by fastforce
        obtain r where r: "next_run_at_utc f z (sc_valid_from s) (sc_valid_to s) (sc_custom_cron s) ref = Some r"
            "\<forall>t. r = Inr (Some t) \<longrightarrow> ref < t"
          using next_run_total [OF zone dates] by blast
        have run: "execute_schedule_run env s ref db = Some (bind_result r (\<lambda>following. finish_run env s stmt ref following db1))"
          unfolding execute_schedule_run_def fz Let_def sum.case prod.case made r(1) using False by simp
        have upd: "update_schedule s g db1 = Inr (db1\<lparr>sd_schedules := rewrite_schedule s g (sd_schedules db)\<rparr>)" for g
          using update_schedule_eq [of db1 s g] d s same by simp
        have "\<exists>g. settled ref s g \<and> sd_schedules db' = rewrite_schedule s g (sd_schedules db)"
          if done_run: "bind_result r (\<lambda>following. finish_run env s stmt ref following db1) = Inr db'" for db'
        proof -
          obtain following where f: "r = Inr following" "finish_run env s stmt ref following db1 = Inr db'" using done_run by auto
          let ?g = "\<lambda>r. r\<lparr>sc_last_run_at := Some ref, sc_next_run_at := following,
              sc_status := (if following \<noteq> None then SCHEDULE_ACTIVE else SCHEDULE_COMPLETED)\<rparr>"
          have "settled ref s ?g" using r(2) f(1) by (auto simp: settled_def write_row_def schedule_due_def)
          moreover have "sd_schedules db' = rewrite_schedule s ?g (sd_schedules db)"
            using f(2) unfolding finish_run_def upd by auto
          ultimately show ?thesis by blast
        qed
        then show ?thesis using run by blast
      qed
    qed
  qed
qed


lemma due_after_run:
  assumes "settled ref s f" and "s \<in> set rows" and "distinct_ids rows"
  shows "filter (schedule_due ref) (rewrite_schedule s f rows) = filter (\<lambda>r. rid r \<noteq> rid s) (filter (schedule_due ref) rows)"
proof -
  have "rid r = rid s \<Longrightarrow> r = s" if "r \<in> set rows" for r
    using assms(2,3) that unfolding distinct_ids_def by (metis distinct_map inj_onD)
  then have "filter (schedule_due ref) (map (\<lambda>r. if rid r = rid s then write_row f r else r) rs)
      = filter (\<lambda>r. rid r \<noteq> rid s) (filter (schedule_due ref) rs)" if "set rs \<subseteq> set rows" for rs
    using that assms(1) by (induction rs) (auto simp: settled_def)
  then show ?thesis by (simp add: rewrite_schedule_def)
qed

lemma due_set: "set (due_schedules ref db) = {s \<in> set (sd_schedules db). schedule_due ref s}"
  and due_length: "length (due_schedules ref db) = length (filter (schedule_due ref) (sd_schedules db))"
  by (auto simp: due_schedules_def)

lemma schedules_ok_after:
  assumes "schedules_ok db" and "settled ref s f" and "s \<in> set (sd_schedules db)"
    and "sd_schedules db' = rewrite_schedule s f (sd_schedules db)"
  shows "schedules_ok db'"
proof -
  have "valid_date (sc_valid_from (write_row f r)) \<and> valid_date (sc_valid_to (write_row f r))"
    if "r \<in> set (sd_schedules db)" "rid r = rid s" for r
  proof -
    have "r = s" using distinct_ids_unique [OF _ that(1) assms(3) that(2)] assms(1) by (simp add: schedules_ok_def)
    then show ?thesis using assms(1-3) by (simp add: schedules_ok_def settled_def write_row_def)
  qed
  then show ?thesis
    using assms(1,4) by (auto simp: schedules_ok_def rewrite_schedule_def distinct_ids_map_write)
qed

lemma length_without:
  "distinct_ids rows \<Longrightarrow> s \<in> set rows \<Longrightarrow> length rows = Suc (length (filter (\<lambda>r. rid r \<noteq> rid s) rows))"
proof (induction rows)
  case (Cons r rows)
  show ?case
  proof (cases "rid r = rid s")
    case True
    then have "\<forall>x \<in> set rows. rid x \<noteq> rid s" using Cons.prems by (simp add: distinct_ids_def) (metis image_eqI)
    then show ?thesis using True by (simp add: filter_id_conv)
  qed (use Cons in \<open>auto simp: distinct_ids_def\<close>)
qed simp

lemma distinct_ids_filter: "distinct_ids rows \<Longrightarrow> distinct_ids (filter P rows)"
  by (simp add: distinct_ids_def distinct_map_filter)

definition run_ended ::
    "statement_env \<Rightarrow> int \<Rightarrow> nat \<Rightarrow> statement_db \<Rightarrow> (statement_db \<times> nat) result \<Rightarrow> bool" where
  "run_ended env ref n db r \<longleftrightarrow>
     (case r of
        Inl e \<Rightarrow> \<exists>s \<in> set (due_schedules ref db). \<exists>d. execute_schedule_run env s ref d = Some (Inl e)
      | Inr (db', k) \<Rightarrow> schedules_ok db' \<and> due_schedules ref db' = [] \<and> k = n + length (due_schedules ref db)
          \<and> (\<forall>s \<in> set (due_schedules ref db). \<exists>d d'. execute_schedule_run env s ref d = Some (Inr d'))
          \<and> (\<forall>s \<in> set (sd_schedules db). \<not> schedule_due ref s \<longrightarrow> s \<in> set (sd_schedules db')))"

lemma process_from_ends:
  assumes env: "zones_ok env" and ok: "schedules_ok db"
  shows "\<exists>r. process_from env ref n db = Some r \<and> run_ended env ref n db r"
  using ok
proof (induction "length (due_schedules ref db)" arbitrary: db n)
  case 0
  then show ?case
    using due_set [of ref db] by (subst process_from.simps) (auto simp: run_ended_def)
next
  case (Suc k)
  obtain s ss where due: "due_schedules ref db = s # ss" using Suc.hyps(2) by (cases "due_schedules ref db") auto
  have s: "s \<in> set (sd_schedules db)" "schedule_due ref s" using due_set [of ref db] due by auto
  obtain r where r: "execute_schedule_run env s ref db = Some r"
    "\<And>db'. r = Inr db' \<Longrightarrow> \<exists>f. settled ref s f \<and> sd_schedules db' = rewrite_schedule s f (sd_schedules db)"
    using execute_total [OF env Suc.prems s(1)] by blast
  note unfold = process_from.simps [of env ref n db]
  show ?case
  proof (cases r)
    case (Inl e)
    then have "process_from env ref n db = Some (Inl e)" using r(1) due unfold by simp
    then show ?thesis using r(1) Inl due by (auto simp: run_ended_def)
  next
    case (Inr db1)
    obtain f where f: "settled ref s f" "sd_schedules db1 = rewrite_schedule s f (sd_schedules db)" using r(2) [OF Inr] by blast
    have d: "distinct_ids (sd_schedules db)" using Suc.prems by (simp add: schedules_ok_def)
    have ok1: "schedules_ok db1" by (rule schedules_ok_after [OF Suc.prems f(1) s(1) f(2)])
    have rest: "filter (schedule_due ref) (sd_schedules db1) = filter (\<lambda>r. rid r \<noteq> rid s) (filter (schedule_due ref) (sd_schedules db))"
      using due_after_run [OF f(1) s(1) d] f(2) by simp
    have due1: "set (due_schedules ref db1) = {x \<in> set (due_schedules ref db). rid x \<noteq> rid s}"
      using arg_cong [OF rest, of set] unfolding due_schedules_def by simp
    have only: "x = s" if "x \<in> set (sd_schedules db)" "rid x = rid s" for x
      by (rule distinct_ids_unique [OF d that(1) s(1) that(2)])
    have len: "length (due_schedules ref db) = Suc (length (due_schedules ref db1))"
      unfolding due_length rest by (rule length_without [OF distinct_ids_filter [OF d]]) (use s in simp)
    then have k: "k = length (due_schedules ref db1)" using Suc.hyps(2) by simp
    obtain r' where r': "process_from env ref (Suc n) db1 = Some r'" "run_ended env ref (Suc n) db1 r'"
      using Suc.hyps(1) [OF k ok1, of "Suc n"] by blast
    have "process_from env ref n db = Some r'" using r(1) due unfold Inr r'(1) by simp
    moreover have "x \<in> set (sd_schedules db1) \<and> \<not> schedule_due ref x" if "x \<in> set (sd_schedules db)" "\<not> schedule_due ref x" for x
      using that s(2) only f(2) by (auto simp: rewrite_schedule_def image_iff intro!: bexI [of _ x])
    moreover have "x = s \<or> x \<in> set (due_schedules ref db1)" if "x \<in> set (due_schedules ref db)" for x
      using that only unfolding due1 by (auto simp: due_set)
    ultimately show ?thesis
      using r'(2) len r(1) Inr due1 unfolding run_ended_def
      by (cases r') (fastforce split: prod.splits)+
  qed
qed


subsection \<open>Schedules that cannot run\<close>

definition schedule_zone :: "statement_env \<Rightarrow> schedule \<Rightarrow> (frequency \<times> zone) result" where
  "schedule_zone env s =
     bind_result (normalize_frequency (sc_frequency s)) (\<lambda>f.
     bind_result (resolve_timezone (se_zones env) (Some (sc_timezone s))) (\<lambda>z. Inr (f, z)))"

definition stuck_schedule :: "statement_env \<Rightarrow> schedule \<Rightarrow> int \<Rightarrow> bool" where
  \<comment> \<open>a preset schedule in its window on a day that is not one of its run days, or an interval schedule on its first day\<close>
  "stuck_schedule env s now \<longleftrightarrow>
     (case schedule_zone env s of
        Inl _ \<Rightarrow> False
      | Inr (f, z) \<Rightarrow>
          let d = z_date z now
          in \<not> out_of_window f s d \<and>
             (case f of
                MONTHLY_FIRST \<Rightarrow> \<not> is_monthly_run_day d
              | QUARTERLY \<Rightarrow> \<not> is_quarterly_run_day d
              | CUSTOM \<Rightarrow> \<not> is_once_custom_schedule (sc_custom_cron s) \<and> sc_last_run_at s = None \<and> d = sc_valid_from s))"

lemma stuck_fails:
  assumes "zones_ok env" and "stuck_schedule env s now"
  shows "\<exists>e. \<forall>db. execute_schedule_run env s now db = Some (Inl e)"
proof -
  obtain f z where fz: "schedule_zone env s = Inr (f, z)" and inside: "\<not> out_of_window f s (z_date z now)"
    and bad: "case f of MONTHLY_FIRST \<Rightarrow> \<not> is_monthly_run_day (z_date z now) | QUARTERLY \<Rightarrow> \<not> is_quarterly_run_day (z_date z now)
       | CUSTOM \<Rightarrow> \<not> is_once_custom_schedule (sc_custom_cron s) \<and> sc_last_run_at s = None \<and> z_date z now = sc_valid_from s"
    using assms(2) by (auto simp: stuck_schedule_def Let_def split: sum.splits)
  have "resolve_timezone (se_zones env) (Some (sc_timezone s)) = Inr z" using fz by (auto simp: schedule_zone_def)
  then have "run_zone (z_date z) (z_run z)"
    using assms(1) by (auto simp: resolve_timezone_def zones_ok_def Let_def split: option.splits)
  then have "valid_date (z_date z now)" by (rule run_zone.local_valid)
  then have "add_days (z_date z now) (- 1) < z_date z now" by (simp add: less_iff_toordinal)
  then obtain e where "run_period f z s (z_date z now) = Inl e"
    using bad by (cases f) (auto simp: run_period_def statement_period_for_run_def statement_period_for_custom_run_def)
  then show ?thesis
    unfolding execute_schedule_run_def fz [unfolded schedule_zone_def] using inside by simp
qed

lemma resolve_stored_key:
  assumes "zones_ok env" and "resolve_timezone (se_zones env) name = Inr z"
  shows "resolve_timezone (se_zones env) (Some (z_key z)) = Inr z"
proof -
  let ?k = "str_or (Some (strip (str_or name ''Europe/London''))) ''Europe/London''"
  have k: "se_zones env ?k = Some z" "z_key z = ?k"
    using assms by (auto simp: resolve_timezone_def zones_ok_def Let_def split: option.splits)
  have "strip ''Europe/London'' = ''Europe/London''" by code_simp
  then have "str_or (Some (strip (str_or (Some ?k) ''Europe/London''))) ''Europe/London'' = ?k"
    using strip_idem [of "str_or name ''Europe/London''"]
    by (cases "strip (str_or name ''Europe/London'') = []") (simp_all add: str_or_def)
  with k show ?thesis by (simp add: resolve_timezone_def Let_def)
qed

lemma custom_text: "normalize_frequency ''CUSTOM'' = Inr CUSTOM"
  by code_simp

lemma create_interval_cases:
  assumes "create_schedule env new_id now org freq (Some a) (Some b) recipient timezone opts (Some n) db = Some (Inr (db', s))"
    and "normalize_frequency freq = Inr CUSTOM"
  obtains z next_run where "resolve_timezone (se_zones env) timezone = Inr z" "a \<le> b"
    "parse_interval_days (Some (format_interval_storage n)) = Inr n"
    "next_run_at_utc CUSTOM z a b (Some (format_interval_storage n)) (now - second) = Some (Inr next_run)"
    "s \<in> set (sd_schedules db')" "sc_frequency s = ''CUSTOM''" "sc_timezone s = z_key z" "sc_valid_from s = a" "sc_valid_to s = b"
    "sc_custom_cron s = Some (format_interval_storage n)" "sc_last_run_at s = None" "sc_next_run_at s = next_run"
    "sc_status s = (if next_run \<noteq> None then SCHEDULE_ACTIVE else SCHEDULE_COMPLETED)"
  using assms interval_text_read [of n]
  by (auto simp: create_schedule_def validate_schedule_inputs_def resolve_schedule_window_def initial_next_run_at_utc_def
      create_row_Inr Let_def split: sum.splits if_splits)


subsection \<open>Sums of the ledger\<close>

lemma entries_up_to:
  assumes "a \<le> b + 1"
  shows "sum_where (\<lambda>e. fst e < b + 1) f es
    = sum_where (\<lambda>e. fst e < a) f es + sum_where (\<lambda>e. a \<le> fst e \<and> fst e \<le> b) f (es :: ledger_entry list)"
  using assms by (induction es) auto

lemma sum_where_rows:
  "sum_where (\<lambda>e. a \<le> fst e \<and> fst e \<le> b) entry_amount es
    = sum_list (map (lr_amount \<circ> snd \<circ> snd) (filter (\<lambda>e. a \<le> fst e \<and> fst e \<le> b) es))"
  by (induction es) (auto simp: entry_amount_def)

lemma invoice_outstanding_money: "is_money (invoice_outstanding iv)" "0 \<le> invoice_outstanding iv"
  by (auto simp: invoice_outstanding_def is_money_0 quantize_half_up_money intro!: quantize_half_up_nonneg)

lemma outstanding_sums_money [money_simps]:
  "quantize_half_up (sum_where P invoice_outstanding ivs) = sum_where P invoice_outstanding ivs"
  "quantize_half_up (sum_list (map invoice_outstanding ivs)) = sum_list (map invoice_outstanding ivs)"
  by (intro quantize_half_up_id is_money_sum_where is_money_sum_list; auto simp: invoice_outstanding_money)+

lemma bucket_cases: "(\<exists>b. aging_bucket_of n = Some b) \<longleftrightarrow> 0 < n"
  by (auto simp: aging_bucket_of_def)

lemma bucket_sums:
  "sum_where (overdue_invoice d) invoice_outstanding ivs
   = (\<Sum>b \<leftarrow> [DAYS_1_30, DAYS_31_60, DAYS_61_90, DAYS_90_PLUS].
        sum_where (\<lambda>iv. 0 < invoice_outstanding iv \<and> aging_bucket_of (d - inv_due_date iv) = Some b) invoice_outstanding ivs)"
  by (induction ivs) (auto simp: overdue_invoice_def aging_bucket_of_def)

subsection \<open>A sample\<close>

definition sample_env :: statement_env where
  "sample_env = \<lparr>se_org = (\<lambda>_. True), se_books = empty_billing, se_payment_number = id,
     se_digest = (\<lambda>(org, a, b, i, c, p, v). org), se_sha256 = (\<lambda>t. ''k''), se_zones = (\<lambda>k. if k = ''UTC'' then Some utc_zone else None),
     se_today = Date 2026 3 31, se_statement_id = (\<lambda>n. replicate n CHR ''x''), se_queue_up = True\<rparr>"

definition sample_options :: statement_options where
  "sample_options = \<lparr>so_line_items = False, so_credit_notes = True, so_payment_history = True\<rparr>"

definition sample_schedule :: schedule where
  \<comment> \<open>a monthly schedule whose run of 1 March 2026 is due\<close>
  "sample_schedule = \<lparr>rid = ''m'', version = 1, sc_org = ''o1'', sc_frequency = ''MONTHLY_FIRST'',
     sc_valid_from = Date 2026 1 1, sc_valid_to = Date 2099 12 31, sc_recipient = ''a@b.c'', sc_timezone = ''UTC'',
     sc_options = sample_options, sc_status = SCHEDULE_ACTIVE, sc_next_run_at = Some (utc_run (Date 2026 3 1)),
     sc_last_run_at = None, sc_custom_cron = None\<rparr>"

definition sample_once :: schedule where
  \<comment> \<open>a one-time schedule for January to 31 March 2026\<close>
  "sample_once = sample_schedule\<lparr>sc_frequency := ''CUSTOM'', sc_valid_to := Date 2026 3 31,
     sc_next_run_at := Some (utc_run (Date 2026 3 31)), sc_custom_cron := Some ''once''\<rparr>"

definition db_with :: "schedule list \<Rightarrow> statement_db" where
  "db_with ss = \<lparr>sd_statements = [], sd_schedules = ss, sd_deliveries = [], sd_jobs = []\<rparr>"

lemma sample_zones_ok: "zones_ok sample_env"
  using utc.run_zone_axioms by (simp add: zones_ok_def sample_env_def utc_zone_def)

lemma sample_schedules_ok: "schedules_ok (db_with [sample_schedule])" "schedules_ok (db_with [])" "schedules_ok (db_with [sample_once])"
  by code_simp+



lemma sample_interval_created:
  "(case create_schedule sample_env ''n'' 0 ''o1'' ''custom'' (Some (Date 2026 3 2)) (Some (Date 2026 12 31)) ''a@b.c'' (Some ''UTC'')
      sample_options (Some 14) (db_with []) of
      Some (Inr x) \<Rightarrow> sc_next_run_at (snd x) = Some (utc_run (Date 2026 3 2)) | _ \<Rightarrow> False)"
  by code_simp

lemma sample_pass:
  "(case process_due_schedules sample_env (utc_run (Date 2026 3 1)) (db_with [sample_schedule]) of
      Some (Inr x) \<Rightarrow> True | _ \<Rightarrow> False)"
  by code_simp

lemma sample_once_runs:
  "(case execute_schedule_run sample_env sample_once (utc_run (Date 2026 3 31)) (db_with [sample_once]) of
      Some (Inr db) \<Rightarrow> True | _ \<Rightarrow> False)"
  by code_simp


subsection \<open>Signatures\<close>

definition live_statement :: "string \<Rightarrow> string \<Rightarrow> statement \<Rightarrow> bool" where
  "live_statement org sig s \<longleftrightarrow> ts_org s = org \<and> ts_signature s = sig \<and> ts_deleted_at s = None \<and> ts_pdf s \<noteq> PDF_FAILED"

lemma active_by_signature_live:
  "active_by_signature org sig rows =
     (case filter (live_statement org sig) rows of [] \<Rightarrow> Inr None | [s] \<Rightarrow> Inr (Some s)
      | _ \<Rightarrow> Inl (MultipleResultsFound ''account_statements''))"
  by (simp add: active_by_signature_def live_statement_def [abs_def])

lemma create_statement_cases:
  assumes "create_statement env org a b opts u ut key db = Inr (db', s)"
  obtains (existing) "db' = db" "filter (live_statement org (compute_content_signature env org a b opts)) (sd_statements db) = [s]"
  | (created) "sd_statements db' = sd_statements db @ [s]" "rid s \<notin> rid ` set (sd_statements db)"
      "filter (live_statement org (compute_content_signature env org a b opts)) (sd_statements db) = []"
      "live_statement org (compute_content_signature env org a b opts) s"
proof (cases "filter (live_statement org (compute_content_signature env org a b opts)) (sd_statements db)")
  case Nil
  then show thesis using assms created
    by (auto simp: create_statement_def active_by_signature_live create_row_Inr Let_def new_statement_def live_statement_def)
next
  case (Cons x xs)
  then show thesis using assms existing
    by (cases xs) (auto simp: create_statement_def active_by_signature_live)
qed

lemma create_statement_live:
  assumes "create_statement env org a b opts u ut key db = Inr (db', s)"
  shows "filter (live_statement org (compute_content_signature env org a b opts)) (sd_statements db') = [s]"
  using assms by (cases rule: create_statement_cases) auto

lemma update_keeps_live:
  assumes "\<And>s. s \<in> set (sd_statements db) \<Longrightarrow> rid s = i \<Longrightarrow> live_statement org sig (write_row f s) = live_statement org sig s"
  shows "map rid (filter (live_statement org sig) (sd_statements (update_statement i f db)))
    = map rid (filter (live_statement org sig) (sd_statements db))"
proof -
  have "map rid (filter (live_statement org sig) (map (\<lambda>s. if rid s = i then write_row f s else s) rows))
      = map rid (filter (live_statement org sig) rows)" if "set rows \<subseteq> set (sd_statements db)" for rows
    using that assms by (induction rows) auto
  then show ?thesis by (simp add: update_statement_def)
qed

subsection \<open>Properties\<close>

text \<open>Statements follow on from each other. On the same data and options, the closing balance of
  a statement is the opening balance of the one that starts the day after, whatever day each is
  looked at; and unless the rows were cut off, the rows of a statement lead from its opening to its
  closing balance.\<close>

theorem statements_follow_on:
  assumes "a \<le> b + 1"
  shows "lg_closing (build_ledger opts number org a b d st) = lg_opening (build_ledger opts number org (b + 1) c d' st)
    \<and> (\<not> lg_truncated (build_ledger opts number org a b d st) \<longrightarrow>
        lg_closing (build_ledger opts number org a b d st)
          = lg_opening (build_ledger opts number org a b d st)
            + sum_list (map lr_amount (lg_rows (build_ledger opts number org a b d st))))"
  using entries_up_to [OF assms, of entry_amount "ledger_entries opts number org st"]
  by (auto simp: build_ledger_def Let_def sum_where_rows comp_assoc)

lemma statements_follow_on_witness:
  "lg_closing (build_ledger sample_options id ''o1'' 1 31 31 empty_billing)
     = lg_opening (build_ledger sample_options id ''o1'' 32 59 59 empty_billing)"
  using statements_follow_on [of 1 31 sample_options id "''o1''" 31 empty_billing 59 59] by simp

text \<open>The overdue total of a statement is the sum of its four age bands, and it is at most the unpaid
  total: every overdue invoice falls into exactly one band and no invoice counts twice.\<close>

theorem aging_bands_partition_overdue:
  "lg_total_overdue (build_ledger opts number org a b d st)
     = (\<Sum>x \<leftarrow> [DAYS_1_30, DAYS_31_60, DAYS_61_90, DAYS_90_PLUS]. lg_aging (build_ledger opts number org a b d st) x)
   \<and> lg_total_overdue (build_ledger opts number org a b d st) \<le> lg_total_unpaid (build_ledger opts number org a b d st)"
proof -
  have "sum_where P invoice_outstanding ivs \<le> sum_list (map invoice_outstanding ivs)" for P ivs
    by (induction ivs) (auto simp: invoice_outstanding_money add_increasing add_mono)
  then have "sum_where (overdue_invoice d) invoice_outstanding (statement_invoices org st)
      \<le> sum_list (map invoice_outstanding (statement_invoices org st))" .
  then show ?thesis unfolding build_ledger_def Let_def ledger_result.simps money_simps list.map sum_list.Cons sum_list.Nil
    using bucket_sums [of d "statement_invoices org st"] by simp
qed

text \<open>A statement does not see credit that was applied to an invoice. An invoice that payments and
  applied credit settle in full still counts as unpaid with the whole credited amount, and as
  overdue once its due date has passed.\<close>

theorem credited_invoice_still_unpaid:
  assumes books: "books_ok st" and iv: "iv \<in> set (statement_invoices org st)"
    and credit: "0 < applied_total_for_invoice (rid iv) st"
    and settled: "inv_total iv = inv_paid_amount iv + applied_total_for_invoice (rid iv) st"
  shows "applied_total_for_invoice (rid iv) st \<le> lg_total_unpaid (build_ledger opts number org a b d st)
    \<and> (inv_due_date iv < d \<longrightarrow> applied_total_for_invoice (rid iv) st \<le> lg_total_overdue (build_ledger opts number org a b d st))"
proof -
  let ?c = "applied_total_for_invoice (rid iv) st"
  have "is_money ?c" unfolding applied_total_for_invoice_def
    by (rule is_money_sum_where) (use books in \<open>auto simp: books_but_def application_ok_def\<close>)
  then have out: "invoice_outstanding iv = ?c"
    using iv credit settled by (simp add: invoice_outstanding_def statement_invoices_def)
  have nonneg: "\<And>s. s \<in> set ivs \<Longrightarrow> 0 \<le> invoice_outstanding s" for ivs by (rule invoice_outstanding_money)
  have "?c \<le> sum_where (\<lambda>_. True) invoice_outstanding (statement_invoices org st)"
    using sum_where_member_le [where P = "\<lambda>_. True" and f = invoice_outstanding, OF nonneg iv] out by simp
  moreover have "?c \<le> sum_where (overdue_invoice d) invoice_outstanding (statement_invoices org st)" if "inv_due_date iv < d"
    using sum_where_member_le [where P = "overdue_invoice d" and f = invoice_outstanding, OF nonneg iv] out that credit by (simp add: overdue_invoice_def)
  ultimately show ?thesis by (simp add: build_ledger_def Let_def money_simps sum_where_def)
qed

definition sample_credited :: billing_state where
  \<comment> \<open>an invoice of 50 that a credit note of 50 settles\<close>
  "sample_credited = empty_billing
     \<lparr>bs_invoices := [\<lparr>rid = ''i1'', version = 1, inv_number = ''INV-000001'', inv_order_id = None, inv_org = Some ''o1'',
        inv_customer = Some ''c1'', inv_issue_date = 10, inv_due_date = 40, inv_subtotal = 50, inv_vat_rate = 0,
        inv_vat_amount = 0, inv_total = 50, inv_status = SENT, inv_paid_amount = 0, inv_payment_status = PAID,
        inv_notes = None, inv_contact_email = None, inv_qb_queued = False\<rparr>],
      bs_credit_notes := [\<lparr>rid = ''n1'', version = 1, cn_number = ''CN-000001'', cn_org = Some ''o1'',
        cn_customer = Some ''c1'', cn_source_invoice = None, cn_issue_date = 11, cn_total = 50, cn_status = CN_ISSUED,
        cn_reason_category = ''OTHER'', cn_reason = None, cn_reversal_invoice = None\<rparr>],
      bs_applications := [\<lparr>ia_invoice_id = ''i1'', ia_credit_note_id = ''n1'', ia_amount = 50, ia_applied_at = 12, ia_by = None\<rparr>]\<rparr>"

lemma credited_invoice_still_unpaid_witness:
  "50 \<le> lg_total_overdue (build_ledger sample_options id ''o1'' 1 90 90 sample_credited)"
proof -
  let ?iv = "hd (bs_invoices sample_credited)"
  have v: "books_ok sample_credited" "?iv \<in> set (statement_invoices ''o1'' sample_credited)"
    "0 < applied_total_for_invoice (rid ?iv) sample_credited"
    "inv_total ?iv = inv_paid_amount ?iv + applied_total_for_invoice (rid ?iv) sample_credited"
    "applied_total_for_invoice (rid ?iv) sample_credited = 50" "inv_due_date ?iv < 90"
    by code_simp+
  from credited_invoice_still_unpaid [OF v(1-4), of sample_options id 1 90 90] v(5,6) show ?thesis by simp
qed

text \<open>C7: processing the due schedules always comes to an end. Either an exception stopped it, raised by
  the run of one of the schedules that were due, or every due schedule was run exactly once, none is
  due any more at that instant, and the schedules that were not due are untouched.\<close>

theorem due_schedules_all_processed:
  assumes "zones_ok env" and "schedules_ok db"
  shows "\<exists>r. process_due_schedules env now db = Some r \<and>
    (case r of
       Inl e \<Rightarrow> \<exists>s \<in> set (due_schedules now db). \<exists>d. execute_schedule_run env s now d = Some (Inl e)
     | Inr (db', k) \<Rightarrow> schedules_ok db' \<and> due_schedules now db' = [] \<and> k = length (due_schedules now db)
         \<and> (\<forall>s \<in> set (due_schedules now db). \<exists>d d'. execute_schedule_run env s now d = Some (Inr d'))
         \<and> (\<forall>s \<in> set (sd_schedules db). \<not> schedule_due now s \<longrightarrow> s \<in> set (sd_schedules db')))"
  using process_from_ends [OF assms, of now 0] unfolding process_due_schedules_def run_ended_def add_0 .

lemma due_schedules_all_processed_witness:
  "\<exists>db'. process_due_schedules sample_env (utc_run (Date 2026 3 1)) (db_with [sample_schedule]) = Some (Inr (db', 1))
     \<and> due_schedules (utc_run (Date 2026 3 1)) db' = []"
proof -
  have "length (due_schedules (utc_run (Date 2026 3 1)) (db_with [sample_schedule])) = 1" by code_simp
  moreover obtain db' k where "process_due_schedules sample_env (utc_run (Date 2026 3 1)) (db_with [sample_schedule]) = Some (Inr (db', k))"
    using sample_pass by (auto split: option.splits sum.splits)
  ultimately show ?thesis
    using due_schedules_all_processed [OF sample_zones_ok sample_schedules_ok(1), of "utc_run (Date 2026 3 1)"] by auto
qed

lemma stuck_blocks:
  assumes "zones_ok env" and "schedules_ok db"
    and "s \<in> set (sd_schedules db)" and "schedule_due now s" and "stuck_schedule env s now"
  shows "\<exists>e. process_due_schedules env now db = Some (Inl e)"
proof -
  obtain e where "\<forall>d. execute_schedule_run env s now d = Some (Inl e)" using stuck_fails [OF assms(1,5)] by blast
  then have "\<not> (\<exists>d d'. execute_schedule_run env s now d = Some (Inr d'))" by simp
  then show ?thesis
    using process_from_ends [OF assms(1,2), of now 0] assms(3,4)
    by (fastforce simp: process_due_schedules_def run_ended_def due_set split: sum.splits)
qed



text \<open>An interval schedule that is created before its first day cannot make its first run. Its first run
  falls on the first day of the window, when the period to report would end the day before it begins:
  on that day, from six in the morning on, it is due, its run fails, and with it the
  pass over all schedules.\<close>

theorem interval_schedule_blocks_first_day:
  assumes env: "zones_ok env" and ok: "schedules_ok db"
    and made: "create_schedule env new_id now org freq (Some a) (Some b) recipient timezone opts (Some n) db = Some (Inr (db', s))"
    and freq: "normalize_frequency freq = Inr CUSTOM" and dates: "valid_date a" "valid_date b"
    and z: "resolve_timezone (se_zones env) timezone = Inr z"
    and early: "now - second < z_run z a" and later: "z_date z t = a" "z_run z a \<le> t"
  shows "schedule_due t s \<and> stuck_schedule env s t \<and> (\<exists>e. process_due_schedules env t db' = Some (Inl e))"
proof -
  from made freq obtain next_run where le: "a \<le> b"
    and n: "parse_interval_days (Some (format_interval_storage n)) = Inr n"
    and nxt: "next_run_at_utc CUSTOM z a b (Some (format_interval_storage n)) (now - second) = Some (Inr next_run)"
    and s: "s \<in> set (sd_schedules db')" "sc_frequency s = ''CUSTOM''" "sc_timezone s = z_key z" "sc_valid_from s = a" "sc_valid_to s = b"
      "sc_custom_cron s = Some (format_interval_storage n)" "sc_last_run_at s = None" "sc_next_run_at s = next_run"
      "sc_status s = (if next_run \<noteq> None then SCHEDULE_ACTIVE else SCHEDULE_COMPLETED)"
    by (rule create_interval_cases) (use z in auto)
  have zone: "run_zone (z_date z) (z_run z)"
    using env z by (auto simp: resolve_timezone_def zones_ok_def Let_def split: option.splits)
  have "earliest_run (searched_days CUSTOM (Some (format_interval_storage n)) a b (z_date z (now - second))) z (now - second) next_run"
    using interval_run_earliest [OF zone dates n, of "now - second"] nxt by simp
  moreover have "searched_days CUSTOM (Some (format_interval_storage n)) a b (z_date z (now - second)) a"
    using le n by (simp add: searched_days_def)
  moreover have "\<not> d < a" if "searched_days CUSTOM (Some (format_interval_storage n)) a b (z_date z (now - second)) d" for d
    using that by (auto simp: searched_days_def)
  ultimately have nr: "next_run = Some (z_run z a)"
    using dates(1) early unfolding earliest_run_def by (auto split: option.splits) (metis linorder_neqE not_less)
  have due: "schedule_due t s" using s later nr by (simp add: schedule_due_def)
  have "\<not> is_once_custom_schedule (Some (format_interval_storage n))" using interval_text_read [of n] by blast
  moreover have "schedule_zone env s = Inr (CUSTOM, z)"
    using resolve_stored_key [OF env z] s custom_text by (simp add: schedule_zone_def)
  ultimately have stuck: "stuck_schedule env s t"
    using s later le by (simp add: stuck_schedule_def out_of_window_def)
  have "schedules_ok db'"
    using made ok dates freq interval_text_read [of n] by (auto simp: create_schedule_def validate_schedule_inputs_def
      resolve_schedule_window_def Let_def schedules_ok_def create_row_Inr distinct_ids_def split: sum.splits if_splits)
  with due stuck stuck_blocks [OF env _ s(1) due stuck] show ?thesis by blast
qed


lemma interval_schedule_blocks_first_day_witness:
  "\<exists>db s e. create_schedule sample_env ''n'' 0 ''o1'' ''custom'' (Some (Date 2026 3 2)) (Some (Date 2026 12 31)) ''a@b.c''
       (Some ''UTC'') sample_options (Some 14) (db_with []) = Some (Inr (db, s))
     \<and> process_due_schedules sample_env (utc_run (Date 2026 3 2)) db = Some (Inl e)"
proof -
  obtain db s where made: "create_schedule sample_env ''n'' 0 ''o1'' ''custom'' (Some (Date 2026 3 2)) (Some (Date 2026 12 31))
      ''a@b.c'' (Some ''UTC'') sample_options (Some 14) (db_with []) = Some (Inr (db, s))"
    using sample_interval_created by (auto split: option.splits sum.splits)
  have v: "normalize_frequency ''custom'' = Inr CUSTOM" "valid_date (Date 2026 3 2)" "valid_date (Date 2026 12 31)"
    "0 - second < z_run utc_zone (Date 2026 3 2)" by code_simp+
  have z: "resolve_timezone (se_zones sample_env) (Some ''UTC'') = Inr utc_zone"
    by (simp add: resolve_timezone_def sample_env_def strip_def is_space_def)
  have run: "z_date utc_zone (utc_run (Date 2026 3 2)) = Date 2026 3 2" "z_run utc_zone (Date 2026 3 2) \<le> utc_run (Date 2026 3 2)"
    using utc.run_date [OF v(2)] by (simp_all add: utc_zone_def)
  from interval_schedule_blocks_first_day [OF sample_zones_ok sample_schedules_ok(2) made v(1-3) z v(4) run] made
  show ?thesis by blast
qed

text \<open>A one-time schedule does not run once. When it runs on its last day, after six in the morning,
  it is stored as active with its next run a second later, so the next pass on that day, and the first
  one of the day after, run it again.\<close>

theorem once_schedule_runs_again:
  assumes env: "zones_ok env" and ok: "schedules_ok db" and s: "s \<in> set (sd_schedules db)"
    and once: "schedule_zone env s = Inr (CUSTOM, z)" "is_once_custom_schedule (sc_custom_cron s)"
    and day: "z_date z now = sc_valid_to s" "z_run z (sc_valid_to s) \<le> now"
    and run: "execute_schedule_run env s now db = Some (Inr db')"
  shows "\<exists>r \<in> set (sd_schedules db'). rid r = rid s \<and> sc_last_run_at r = Some now
    \<and> sc_next_run_at r = Some (now + second) \<and> (\<forall>t \<ge> now + second. schedule_due t r)"
proof -
  have next_run: "next_run_at_utc CUSTOM z (sc_valid_from s) (sc_valid_to s) (sc_custom_cron s) now = Some (Inr (Some (now + second)))"
    using once(2) day by (simp add: next_run_at_utc_def next_once_run_utc_def)
  have inside: "\<not> out_of_window CUSTOM s (z_date z now)" using once(2) by (simp add: out_of_window_def)
  obtain a b db1 stmt where made: "run_period CUSTOM z s (z_date z now) = Inr (a, b)"
      "create_statement env (sc_org s) a b (sc_options s) None BY_SYSTEM (Some (schedule_key s a b)) db = Inr (db1, stmt)"
      "finish_run env s stmt now (Some (now + second)) db1 = Inr db'"
    using run inside next_run unfolding execute_schedule_run_def once(1) [unfolded schedule_zone_def]
    by (auto simp: Let_def split: sum.splits)
  have same: "sd_schedules db1 = sd_schedules db" using create_statement_frame [OF made(2)] by simp
  let ?g = "\<lambda>r. r\<lparr>sc_last_run_at := Some now, sc_next_run_at := Some (now + second),
      sc_status := (if Some (now + second) \<noteq> None then SCHEDULE_ACTIVE else SCHEDULE_COMPLETED)\<rparr>"
  have d: "distinct_ids (sd_schedules db1)" "s \<in> set (sd_schedules db1)" using ok s same by (simp_all add: schedules_ok_def)
  have "sd_schedules db' = rewrite_schedule s ?g (sd_schedules db)"
    using made(3) update_schedule_eq [OF d, of ?g] same by (auto simp: finish_run_def)
  then have "write_row ?g s \<in> set (sd_schedules db')" using s by (auto simp: rewrite_schedule_def)
  moreover have "schedule_due t (write_row ?g s)" if "now + second \<le> t" for t
    using that by (simp add: schedule_due_def write_row_def)
  ultimately show ?thesis by (intro bexI [of _ "write_row ?g s"]) (simp_all add: write_row_def)
qed

lemma once_schedule_runs_again_witness:
  "\<exists>db. execute_schedule_run sample_env sample_once (utc_run (Date 2026 3 31)) (db_with [sample_once]) = Some (Inr db)
     \<and> (\<exists>r \<in> set (sd_schedules db). schedule_due (utc_run (Date 2026 3 31) + second) r)"
proof -
  obtain db where run: "execute_schedule_run sample_env sample_once (utc_run (Date 2026 3 31)) (db_with [sample_once]) = Some (Inr db)"
    using sample_once_runs by (auto split: option.splits sum.splits)
  have v: "is_once_custom_schedule (sc_custom_cron sample_once)" "valid_date (Date 2026 3 31)"
    "sc_valid_to sample_once = Date 2026 3 31" "normalize_frequency (sc_frequency sample_once) = Inr CUSTOM"
    "sc_timezone sample_once = ''UTC''" by code_simp+
  have z: "schedule_zone sample_env sample_once = Inr (CUSTOM, utc_zone)"
    by (simp add: schedule_zone_def v resolve_timezone_def sample_env_def strip_def is_space_def)
  have day: "z_date utc_zone (utc_run (Date 2026 3 31)) = sc_valid_to sample_once"
    "z_run utc_zone (sc_valid_to sample_once) \<le> utc_run (Date 2026 3 31)"
    using utc.run_date [OF v(2)] v(3) by (simp_all add: utc_zone_def)
  have "sample_once \<in> set (sd_schedules (db_with [sample_once]))" by (simp add: db_with_def)
  from once_schedule_runs_again [OF sample_zones_ok sample_schedules_ok(3) this z v(1) day run] run show ?thesis by blast
qed


subsection \<open>A retried PDF\<close>

lemma two_live_statements:
  assumes "s \<in> set rows" "r \<in> set rows" "rid s \<noteq> rid r" "live_statement org sig s" "live_statement org sig r"
  shows "active_by_signature org sig rows = Inl (MultipleResultsFound ''account_statements'')"
proof -
  have both: "s \<in> set (filter (live_statement org sig) rows)" "r \<in> set (filter (live_statement org sig) rows)" using assms by simp_all
  then obtain x y zs where "filter (live_statement org sig) rows = x # y # zs"
    using assms(3) by (cases "filter (live_statement org sig) rows"; cases "tl (filter (live_statement org sig) rows)") auto
  then show ?thesis by (simp add: active_by_signature_live)
qed

lemma create_statement_checks:
  "create_statement env org a b opts u ut key db = Inr (db', s) \<Longrightarrow> validate_period a b (Some (se_today env)) = Inr ()"
  by (auto simp: create_statement_def)

lemma created_org:
  assumes "create_statement env org a b opts u ut key db = Inr (db', s)" and "s \<notin> set (sd_statements db)"
  shows "se_org env org"
proof (cases "filter (live_statement org (compute_content_signature env org a b opts)) (sd_statements db)")
  case Nil
  then show ?thesis using assms(1)
    by (auto simp: create_statement_def active_by_signature_live service_build_ledger_def ensure_org_def split: if_splits)
next
  case (Cons x xs)
  then have "x \<in> set (sd_statements db)" by (auto dest: filter_eq_ConsD)
  then show ?thesis using assms Cons by (cases xs) (auto simp: create_statement_def active_by_signature_live)
qed

text \<open>Creating the same statement again returns the stored one and changes nothing, as long as it is
  live. But when its PDF fails, a new statement may be created, and if the retry of the first PDF then
  succeeds there are two live statements with one signature: from then on every request for this statement ends in
  an unhandled error.\<close>

theorem retried_pdf_breaks_signature:
  assumes first: "create_statement env org a b opts u ut key db = Inr (db1, s1)" and new: "s1 \<notin> set (sd_statements db)"
    and failed: "generate_pdf_task env (UPLOAD_FAILED why) (rid s1) t db1 = (db2, retry)"
    and again: "create_statement env org a b opts u' ut' key' db2 = Inr (db3, s2)"
    and retried: "generate_pdf_task env RENDERED (rid s1) t' db3 = (db4, retry')"
  shows "create_statement env org a b opts u' ut' key' db1 = Inr (db1, s1) \<and> retry
    \<and> create_statement env org a b opts v vt key'' db4 = Inl (MultipleResultsFound ''account_statements'')"
proof -
  let ?sig = "compute_content_signature env org a b opts"
  let ?live = "live_statement org ?sig"
  note period = create_statement_checks [OF first]
  from first have made: "sd_statements db1 = sd_statements db @ [s1]" "rid s1 \<notin> rid ` set (sd_statements db)" "?live s1"
    by (rule create_statement_cases; use new in \<open>auto dest: filter_eq_ConsD\<close>)+
  have live1: "filter ?live (sd_statements db1) = [s1]" by (rule create_statement_live [OF first])
  have org: "ts_org s1 = org" "se_org env org" using made(3) created_org [OF first new] by (simp_all add: live_statement_def)
  have got1: "get_by_id (rid s1) (\<lambda>_. True) (sd_statements db1) = Some s1"
    using create_row_get [of s1 "sd_statements db" "sd_statements db1" "rid s1" "\<lambda>_. True"] made(1,2) by (simp add: create_row_Inr)
  let ?fail = "\<lambda>s. s\<lparr>ts_pdf := PDF_FAILED, ts_failure := Some (take 500 (''UPLOAD_FAILED'' @ '': '' @ why))\<rparr>"
  have two: "retry" "sd_statements db2 = map (\<lambda>s. if rid s = rid s1 then write_row ?fail s else s) (sd_statements db1)"
    using failed got1 org by (auto simp: generate_pdf_task_def mark_failed_def update_statement_def)
  have "\<not> ?live s" if stored: "s \<in> set (sd_statements db2)" for s
  proof -
    obtain r where r: "r \<in> set (sd_statements db1)" "s = (if rid r = rid s1 then write_row ?fail r else r)" using stored two(2) by auto
    show ?thesis
    proof (cases "rid r = rid s1")
      case True
      then show ?thesis using r(2) by (simp add: live_statement_def write_row_def)
    next
      case False
      then have "r \<notin> set (filter ?live (sd_statements db1))" using live1 by auto
      then show ?thesis using r False by simp
    qed
  qed
  then have none2: "filter ?live (sd_statements db2) = []" by (simp add: filter_empty_conv)
  from again have three: "sd_statements db3 = sd_statements db2 @ [s2]" "rid s2 \<notin> rid ` set (sd_statements db2)" "?live s2"
    by (rule create_statement_cases; use none2 in auto)+
  let ?f1 = "write_row ?fail s1"
  have in2: "?f1 \<in> set (sd_statements db2)" using made(1) two(2) by auto
  have got3: "get_by_id (rid s1) (\<lambda>_. True) (sd_statements db3) = Some ?f1"
    using get_by_id_map_write [OF got1, of ?fail] by (simp add: three(1) two(2))
  let ?ready = "\<lambda>r. r\<lparr>ts_pdf := PDF_READY, ts_pdf_key := Some (''account-statements/'' @ org @ ''/'' @ rid s1 @ ''.pdf''),
      ts_generated_at := Some t', ts_failure := None\<rparr>"
  have four: "sd_statements db4 = map (\<lambda>s. if rid s = rid s1 then write_row ?ready s else s) (sd_statements db3)"
    using retried got3 org by (auto simp: generate_pdf_task_def update_statement_def write_row_def)
  have apart: "rid s2 \<noteq> rid s1" using three(2) in2 by (metis image_eqI rid_write_row)
  have "write_row ?ready ?f1 \<in> set (sd_statements db4)" "s2 \<in> set (sd_statements db4)"
    using in2 three(1) apart by (auto simp: four image_iff intro: bexI [of _ ?f1] bexI [of _ s2])
  then have "active_by_signature org ?sig (sd_statements db4) = Inl (MultipleResultsFound ''account_statements'')"
    by (rule two_live_statements) (use apart made(3) three(3) in \<open>simp_all add: live_statement_def write_row_def\<close>)
  moreover have "active_by_signature org ?sig (sd_statements db1) = Inr (Some s1)" by (simp add: active_by_signature_live live1)
  ultimately show ?thesis using two(1) period by (simp add: create_statement_def)
qed

definition sample_retry :: "(statement_db \<times> statement_db \<times> statement_db \<times> statement_db) result" where
  "sample_retry =
     (let make = create_statement sample_env ''o1'' (Date 2026 1 1) (Date 2026 1 31) sample_options None BY_ADMIN None
      in bind_result (make (db_with [])) (\<lambda>(db1, s1).
         let db2 = fst (generate_pdf_task sample_env (UPLOAD_FAILED ''timeout'') (rid s1) 5 db1)
         in bind_result (make db2) (\<lambda>(db3, s2).
            Inr (db1, db2, db3, fst (generate_pdf_task sample_env RENDERED (rid s1) 6 db3)))))"

lemma sample_retry_runs: "(case sample_retry of Inl _ \<Rightarrow> False | Inr x \<Rightarrow> True)"
  by code_simp

lemma retried_pdf_breaks_signature_witness:
  "\<exists>db. create_statement sample_env ''o1'' (Date 2026 1 1) (Date 2026 1 31) sample_options None BY_ADMIN None db
     = Inl (MultipleResultsFound ''account_statements'')"
proof -
  obtain db1 s1 db3 s2 where run: "create_statement sample_env ''o1'' (Date 2026 1 1) (Date 2026 1 31) sample_options None BY_ADMIN None (db_with [])
      = Inr (db1, s1)"
    "create_statement sample_env ''o1'' (Date 2026 1 1) (Date 2026 1 31) sample_options None BY_ADMIN None
       (fst (generate_pdf_task sample_env (UPLOAD_FAILED ''timeout'') (rid s1) 5 db1)) = Inr (db3, s2)"
    using sample_retry_runs unfolding sample_retry_def result_ok by (auto simp: Let_def)
  have "s1 \<notin> set (sd_statements (db_with []))" by (simp add: db_with_def)
  from retried_pdf_breaks_signature [OF run(1) this prod.collapse [symmetric] run(2) prod.collapse [symmetric], where t' = 6 and v = None and vt = BY_ADMIN]
  show ?thesis by blast
qed

end
