(* ===== verification/OrderStatus.thy ===== *)
theory OrderStatus
  imports Prelude
begin

text \<open>
  The statuses of orders, delivery stops and packages (\<^verbatim>\<open>app/modules/orders/enums.py\<close>) and the two
  functions of \<^verbatim>\<open>OrderService\<close> that derive the status of a stop and of an order from its packages. The
  prefixes \<open>O\<close>, \<open>S\<close> and \<open>P\<close> tell the three enumerations apart. The dictionary of counts that a
  \<^verbatim>\<open>GROUP BY\<close> yields is kept as the list of the statuses it counts: \<^verbatim>\<open>get(s, 0)\<close> is \<open>count_list\<close> and the sum
  of the values is the length. \<open>package_move\<close> is the specification of what the services may do to a package.
\<close>

subsection \<open>Statuses\<close>

datatype order_status =
    O_PENDING_PICKUP
  | O_PICKUP_SCHEDULED
  | O_ENROUTE_PICKUP
  | O_ENROUTE_WAREHOUSE
  | O_AT_WAREHOUSE
  | O_SORTING_IN_PROGRESS
  | O_DELIVERY_IN_PROGRESS
  | O_PARTIALLY_DELIVERED
  | O_DELIVERED
  | O_FAILED
  | O_RETURN_IN_PROGRESS
  | O_RETURN_IN_TRANSIT
  | O_RETURNED
  | O_CANCELLED

datatype stop_status =
    S_PENDING_PICKUP
  | S_PICKUP_SCHEDULED
  | S_ENROUTE_PICKUP
  | S_ENROUTE_WAREHOUSE
  | S_AT_WAREHOUSE
  | S_SORTING_IN_PROGRESS
  | S_DELIVERY_SCHEDULED
  | S_LOADED_FOR_DELIVERY
  | S_OUT_FOR_DELIVERY
  | S_DELIVERED
  | S_PARTIALLY_DELIVERED
  | S_DELIVERY_ATTEMPT_1_FAILED
  | S_DELIVERY_ATTEMPT_2_FAILED
  | S_DELIVERY_ATTEMPT_3_FAILED
  | S_MIXED
  | S_FAILED
  | S_CANCELLED
  | S_RETURN_INITIATED
  | S_RETURN_IN_TRANSIT
  | S_RETURNED
  | S_DISPOSED

datatype package_status =
    P_PENDING_PICKUP
  | P_PICKUP_SCHEDULED
  | P_ENROUTE_PICKUP
  | P_ENROUTE_WAREHOUSE
  | P_AT_WAREHOUSE
  | P_SORTING_IN_PROGRESS
  | P_DELIVERY_SCHEDULED
  | P_LOADED_FOR_DELIVERY
  | P_OUT_FOR_DELIVERY
  | P_DELIVERED_TO_CUSTOMER
  | P_CUSTOMER_NOT_HOME
  | P_REFUSED_BY_CUSTOMER
  | P_MISSING
  | P_DAMAGED
  | P_LEFT_AT_SAFE_PLACE
  | P_RETURN_INITIATED
  | P_RETURN_IN_TRANSIT
  | P_RETURNED
  | P_CANCELLED
  | P_DISPOSED

datatype return_resolution =
    RETURN_TO_SENDER
  | DISPOSE

datatype disposal_reason =
    DAMAGED_PARCEL
  | ABANDONED
  | OPERATIONAL_INSTRUCTION
  | DISPOSAL_OTHER

fun order_value :: "order_status \<Rightarrow> string" where
  "order_value O_PENDING_PICKUP = ''PENDING_PICKUP''"
| "order_value O_PICKUP_SCHEDULED = ''PICKUP_SCHEDULED''"
| "order_value O_ENROUTE_PICKUP = ''ENROUTE_PICKUP''"
| "order_value O_ENROUTE_WAREHOUSE = ''ENROUTE_WAREHOUSE''"
| "order_value O_AT_WAREHOUSE = ''AT_WAREHOUSE''"
| "order_value O_SORTING_IN_PROGRESS = ''SORTING_IN_PROGRESS''"
| "order_value O_DELIVERY_IN_PROGRESS = ''DELIVERY_IN_PROGRESS''"
| "order_value O_PARTIALLY_DELIVERED = ''PARTIALLY_DELIVERED''"
| "order_value O_DELIVERED = ''DELIVERED''"
| "order_value O_FAILED = ''FAILED''"
| "order_value O_RETURN_IN_PROGRESS = ''RETURN_IN_PROGRESS''"
| "order_value O_RETURN_IN_TRANSIT = ''RETURN_IN_TRANSIT''"
| "order_value O_RETURNED = ''RETURNED''"
| "order_value O_CANCELLED = ''CANCELLED''"

fun stop_value :: "stop_status \<Rightarrow> string" where
  "stop_value S_PENDING_PICKUP = ''PENDING_PICKUP''"
| "stop_value S_PICKUP_SCHEDULED = ''PICKUP_SCHEDULED''"
| "stop_value S_ENROUTE_PICKUP = ''ENROUTE_PICKUP''"
| "stop_value S_ENROUTE_WAREHOUSE = ''ENROUTE_WAREHOUSE''"
| "stop_value S_AT_WAREHOUSE = ''AT_WAREHOUSE''"
| "stop_value S_SORTING_IN_PROGRESS = ''SORTING_IN_PROGRESS''"
| "stop_value S_DELIVERY_SCHEDULED = ''DELIVERY_SCHEDULED''"
| "stop_value S_LOADED_FOR_DELIVERY = ''LOADED_FOR_DELIVERY''"
| "stop_value S_OUT_FOR_DELIVERY = ''OUT_FOR_DELIVERY''"
| "stop_value S_DELIVERED = ''DELIVERED''"
| "stop_value S_PARTIALLY_DELIVERED = ''PARTIALLY_DELIVERED''"
| "stop_value S_DELIVERY_ATTEMPT_1_FAILED = ''DELIVERY_ATTEMPT_1_FAILED''"
| "stop_value S_DELIVERY_ATTEMPT_2_FAILED = ''DELIVERY_ATTEMPT_2_FAILED''"
| "stop_value S_DELIVERY_ATTEMPT_3_FAILED = ''DELIVERY_ATTEMPT_3_FAILED''"
| "stop_value S_MIXED = ''MIXED''"
| "stop_value S_FAILED = ''FAILED''"
| "stop_value S_CANCELLED = ''CANCELLED''"
| "stop_value S_RETURN_INITIATED = ''RETURN_INITIATED''"
| "stop_value S_RETURN_IN_TRANSIT = ''RETURN_IN_TRANSIT''"
| "stop_value S_RETURNED = ''RETURNED''"
| "stop_value S_DISPOSED = ''DISPOSED''"

fun package_value :: "package_status \<Rightarrow> string" where
  "package_value P_PENDING_PICKUP = ''PENDING_PICKUP''"
| "package_value P_PICKUP_SCHEDULED = ''PICKUP_SCHEDULED''"
| "package_value P_ENROUTE_PICKUP = ''ENROUTE_PICKUP''"
| "package_value P_ENROUTE_WAREHOUSE = ''ENROUTE_WAREHOUSE''"
| "package_value P_AT_WAREHOUSE = ''AT_WAREHOUSE''"
| "package_value P_SORTING_IN_PROGRESS = ''SORTING_IN_PROGRESS''"
| "package_value P_DELIVERY_SCHEDULED = ''DELIVERY_SCHEDULED''"
| "package_value P_LOADED_FOR_DELIVERY = ''LOADED_FOR_DELIVERY''"
| "package_value P_OUT_FOR_DELIVERY = ''OUT_FOR_DELIVERY''"
| "package_value P_DELIVERED_TO_CUSTOMER = ''DELIVERED_TO_CUSTOMER''"
| "package_value P_CUSTOMER_NOT_HOME = ''CUSTOMER_NOT_HOME''"
| "package_value P_REFUSED_BY_CUSTOMER = ''REFUSED_BY_CUSTOMER''"
| "package_value P_MISSING = ''MISSING''"
| "package_value P_DAMAGED = ''DAMAGED''"
| "package_value P_LEFT_AT_SAFE_PLACE = ''LEFT_AT_SAFE_PLACE''"
| "package_value P_RETURN_INITIATED = ''RETURN_INITIATED''"
| "package_value P_RETURN_IN_TRANSIT = ''RETURN_IN_TRANSIT''"
| "package_value P_RETURNED = ''RETURNED''"
| "package_value P_CANCELLED = ''CANCELLED''"
| "package_value P_DISPOSED = ''DISPOSED''"

fun resolution_value :: "return_resolution \<Rightarrow> string" where
  "resolution_value RETURN_TO_SENDER = ''RETURN_TO_SENDER''"
| "resolution_value DISPOSE = ''DISPOSE''"

fun disposal_value :: "disposal_reason \<Rightarrow> string" where
  "disposal_value DAMAGED_PARCEL = ''DAMAGED_PARCEL''"
| "disposal_value ABANDONED = ''ABANDONED''"
| "disposal_value OPERATIONAL_INSTRUCTION = ''OPERATIONAL_INSTRUCTION''"
| "disposal_value DISPOSAL_OTHER = ''OTHER''"

definition FAILED_PACKAGE_STATUSES :: "package_status list" where
  "FAILED_PACKAGE_STATUSES =
     [P_CUSTOMER_NOT_HOME, P_REFUSED_BY_CUSTOMER, P_MISSING, P_DAMAGED, P_CANCELLED]"

definition RETURN_IN_TRANSIT_STATUSES :: "package_status list" where
  "RETURN_IN_TRANSIT_STATUSES =
     [P_RETURN_INITIATED, P_RETURN_IN_TRANSIT]"

definition RESCHEDULABLE_PACKAGE_STATUSES :: "package_status list" where
  "RESCHEDULABLE_PACKAGE_STATUSES =
     [P_CUSTOMER_NOT_HOME]"

definition RETURNABLE_PACKAGE_STATUSES :: "package_status list" where
  "RETURNABLE_PACKAGE_STATUSES =
     [P_CUSTOMER_NOT_HOME, P_REFUSED_BY_CUSTOMER, P_MISSING, P_DAMAGED]"

definition RESOLVABLE_RETURN_PACKAGE_STATUSES :: "package_status list" where
  "RESOLVABLE_RETURN_PACKAGE_STATUSES =
     [P_RETURN_INITIATED]"

definition PACKAGE_STATUSES_BLOCKING_CANCELLATION :: "package_status list" where
  "PACKAGE_STATUSES_BLOCKING_CANCELLATION =
     [P_DELIVERED_TO_CUSTOMER, P_LEFT_AT_SAFE_PLACE, P_RETURNED, P_DISPOSED, P_RETURN_IN_TRANSIT, P_RETURN_INITIATED]"

definition MAX_RETURN_EVIDENCE_IMAGES :: nat where "MAX_RETURN_EVIDENCE_IMAGES = 5"

lemmas status_sets = FAILED_PACKAGE_STATUSES_def RETURN_IN_TRANSIT_STATUSES_def RESCHEDULABLE_PACKAGE_STATUSES_def
  RETURNABLE_PACKAGE_STATUSES_def RESOLVABLE_RETURN_PACKAGE_STATUSES_def PACKAGE_STATUSES_BLOCKING_CANCELLATION_def

subsection \<open>Derived statuses\<close>

definition count_all :: "package_status list \<Rightarrow> package_status list \<Rightarrow> nat" where
  \<comment> \<open>\<^verbatim>\<open>sum(breakdown.get(s.value, 0) for s in STATUSES)\<close>\<close>
  "count_all statuses breakdown = sum_list (map (count_list breakdown) statuses)"

definition resolve_order_status_from_packages :: "package_status list \<Rightarrow> order_status option" where
  "resolve_order_status_from_packages breakdown =
     (let total = length breakdown;
          delivered = count_list breakdown P_DELIVERED_TO_CUSTOMER + count_list breakdown P_LEFT_AT_SAFE_PLACE;
          cancelled = count_list breakdown P_CANCELLED;
          returned = count_list breakdown P_RETURNED + count_list breakdown P_DISPOSED;
          return_in_flight = count_all RETURN_IN_TRANSIT_STATUSES breakdown;
          failed = count_all FAILED_PACKAGE_STATUSES breakdown
      in if total = 0 then None
         else if returned = total then Some O_RETURNED
         else if cancelled = total then Some O_CANCELLED
         else if delivered = total then Some O_DELIVERED
         else if 0 < return_in_flight \<and> return_in_flight + returned = total then Some O_RETURN_IN_PROGRESS
         else if 0 < delivered \<and> delivered + failed + cancelled + returned + return_in_flight = total
           then Some O_PARTIALLY_DELIVERED
         else if failed = total then Some O_FAILED
         else None)"

definition resolve_stop_status_from_packages ::
    "stop_status option \<Rightarrow> package_status list \<Rightarrow> stop_status option" where
  "resolve_stop_status_from_packages active_status breakdown =
     (let total = length breakdown;
          delivered = count_list breakdown P_DELIVERED_TO_CUSTOMER + count_list breakdown P_LEFT_AT_SAFE_PLACE;
          cancelled = count_list breakdown P_CANCELLED;
          returned = count_list breakdown P_RETURNED;
          disposed = count_list breakdown P_DISPOSED;
          in_transit = count_list breakdown P_RETURN_IN_TRANSIT;
          initiated = count_list breakdown P_RETURN_INITIATED;
          failed = count_all FAILED_PACKAGE_STATUSES breakdown
      in if total = 0 then None
         else if returned = total then Some S_RETURNED
         else if disposed = total then Some S_DISPOSED
         else if cancelled = total then Some S_CANCELLED
         else if delivered = total then Some S_DELIVERED
         else if 0 < in_transit \<and> in_transit + returned + disposed = total then Some S_RETURN_IN_TRANSIT
         else if 0 < initiated \<and> initiated + returned + disposed + in_transit = total then Some S_RETURN_INITIATED
         else if 0 < delivered
             \<and> delivered + failed + cancelled + returned + disposed + in_transit + initiated = total
           then Some S_PARTIALLY_DELIVERED
         else if active_status \<noteq> None then active_status
         else if failed = total then Some S_FAILED
         else None)"

subsection \<open>Counting\<close>

definition delivered_status :: "package_status \<Rightarrow> bool" where
  "delivered_status s \<longleftrightarrow> s \<in> {P_DELIVERED_TO_CUSTOMER, P_LEFT_AT_SAFE_PLACE}"

definition finished_status :: "package_status \<Rightarrow> bool" where
  \<comment> \<open>the package has an outcome: delivered, failed, cancelled, on its way back or back\<close>
  "finished_status s \<longleftrightarrow> s \<in> set ([P_DELIVERED_TO_CUSTOMER, P_LEFT_AT_SAFE_PLACE, P_RETURNED, P_DISPOSED]
     @ RETURN_IN_TRANSIT_STATUSES @ FAILED_PACKAGE_STATUSES)"


definition cancelled_status :: "package_status \<Rightarrow> bool" where
  "cancelled_status s \<longleftrightarrow> s = P_CANCELLED"

definition back_status :: "package_status \<Rightarrow> bool" where
  "back_status s \<longleftrightarrow> s \<in> {P_RETURNED, P_DISPOSED}"

definition in_flight_status :: "package_status \<Rightarrow> bool" where
  "in_flight_status s \<longleftrightarrow> s \<in> {P_RETURN_INITIATED, P_RETURN_IN_TRANSIT}"

definition failed_status :: "package_status \<Rightarrow> bool" where
  "failed_status s \<longleftrightarrow> s \<in> set FAILED_PACKAGE_STATUSES"

definition number_of :: "(package_status \<Rightarrow> bool) \<Rightarrow> package_status list \<Rightarrow> nat" where
  "number_of P bs = length (filter P bs)"

lemmas status_classes = delivered_status_def finished_status_def cancelled_status_def back_status_def
  in_flight_status_def failed_status_def

lemma number_of_simps [simp]:
  "number_of P [] = 0"
  "number_of P (s # bs) = (if P s then Suc (number_of P bs) else number_of P bs)"
  by (simp_all add: number_of_def)

lemma number_of_all: "number_of P bs = length bs \<longleftrightarrow> (\<forall>s \<in> set bs. P s)"
proof (induction bs)
  case (Cons s bs)
  have "number_of P bs \<le> length bs" by (simp add: number_of_def)
  with Cons show ?case by auto
qed simp

lemma number_of_none: "number_of P bs = 0 \<longleftrightarrow> (\<forall>s \<in> set bs. \<not> P s)"
  by (induction bs) auto

lemma counts_as_numbers:
  "count_list bs P_DELIVERED_TO_CUSTOMER + count_list bs P_LEFT_AT_SAFE_PLACE = number_of delivered_status bs"
  "count_list bs P_CANCELLED = number_of cancelled_status bs"
  "count_list bs P_RETURNED + count_list bs P_DISPOSED = number_of back_status bs"
  "count_all RETURN_IN_TRANSIT_STATUSES bs = number_of in_flight_status bs"
  "count_all FAILED_PACKAGE_STATUSES bs = number_of failed_status bs"
  unfolding count_all_def status_sets
  by (induction bs) (auto simp: status_classes status_sets)

lemma numbers_partition:
  "length bs = number_of delivered_status bs + number_of back_status bs + number_of in_flight_status bs
     + number_of failed_status bs + number_of (\<lambda>s. \<not> finished_status s) bs"
proof (induction bs)
  case (Cons s bs)
  then show ?case by (cases s) (simp_all add: status_classes status_sets)
qed simp

lemma cancelled_le_failed: "number_of cancelled_status bs \<le> number_of failed_status bs"
  by (induction bs) (auto simp: status_classes status_sets)

subsection \<open>The order status against a reference\<close>

definition reference_order_status :: "package_status list \<Rightarrow> order_status option" where
  \<comment> \<open>each class of the outcome stated on the packages themselves\<close>
  "reference_order_status bs =
     (if bs = [] then None
      else if list_all back_status bs then Some O_RETURNED
      else if list_all cancelled_status bs then Some O_CANCELLED
      else if list_all delivered_status bs then Some O_DELIVERED
      else if list_all (\<lambda>s. back_status s \<or> in_flight_status s) bs then Some O_RETURN_IN_PROGRESS
      else if list_all finished_status bs \<and> list_ex delivered_status bs then Some O_PARTIALLY_DELIVERED
      else if list_all failed_status bs then Some O_FAILED
      else None)"

lemma number_of_or:
  "number_of (\<lambda>s. back_status s \<or> in_flight_status s) bs = number_of in_flight_status bs + number_of back_status bs"
  by (induction bs) (auto simp: status_classes)

lemma number_of_not: "number_of P bs + number_of (\<lambda>s. \<not> P s) bs = length bs"
  by (induction bs) auto

lemma reference_by_numbers:
  "list_all P bs \<longleftrightarrow> number_of P bs = length bs"
  "list_ex P bs \<longleftrightarrow> 0 < number_of P bs"
  unfolding number_of_all list_all_iff list_ex_iff using number_of_none [of P bs] by auto

lemma reference_order_status_numbers:
  "reference_order_status bs =
     (let total = length bs; d = number_of delivered_status bs; c = number_of cancelled_status bs;
          b = number_of back_status bs; t = number_of in_flight_status bs; f = number_of failed_status bs;
          u = number_of (\<lambda>s. \<not> finished_status s) bs
      in if total = 0 then None else if b = total then Some O_RETURNED else if c = total then Some O_CANCELLED
         else if d = total then Some O_DELIVERED else if t + b = total then Some O_RETURN_IN_PROGRESS
         else if u = 0 \<and> 0 < d then Some O_PARTIALLY_DELIVERED else if f = total then Some O_FAILED else None)"
proof -
  have "number_of finished_status bs = length bs \<longleftrightarrow> number_of (\<lambda>s. \<not> finished_status s) bs = 0"
    using number_of_not [of finished_status bs] by linarith
  then show ?thesis
    unfolding reference_order_status_def reference_by_numbers number_of_or Let_def by simp
qed

lemma order_status_agrees:
  "resolve_order_status_from_packages bs = reference_order_status bs \<longleftrightarrow>
     \<not> (0 < number_of delivered_status bs \<and> 0 < number_of cancelled_status bs
        \<and> number_of (\<lambda>s. \<not> finished_status s) bs \<in> {0, number_of cancelled_status bs})"
  unfolding resolve_order_status_from_packages_def reference_order_status_numbers counts_as_numbers Let_def
  using numbers_partition [of bs] cancelled_le_failed [of bs]
  by (auto split: if_splits)

text \<open>
  C37: the status the code derives for an order is the reference status, except exactly when a delivered and
  a cancelled package are among the packages and the number of packages without an outcome is zero or the
  number of cancelled ones. Cancelled packages are counted twice, once among the failed ones: a delivered and
  a cancelled package together give no status, and one more package still on its way gives
  \<open>PARTIALLY_DELIVERED\<close>.
\<close>

theorem order_status_counts_cancelled_twice:
  "(resolve_order_status_from_packages bs = reference_order_status bs \<longleftrightarrow>
     \<not> (0 < number_of delivered_status bs \<and> 0 < number_of cancelled_status bs
        \<and> number_of (\<lambda>s. \<not> finished_status s) bs \<in> {0, number_of cancelled_status bs}))
   \<and> resolve_order_status_from_packages [P_DELIVERED_TO_CUSTOMER, P_CANCELLED] = None
   \<and> resolve_order_status_from_packages [P_DELIVERED_TO_CUSTOMER, P_CANCELLED, P_AT_WAREHOUSE]
       = Some O_PARTIALLY_DELIVERED"
  using order_status_agrees [of bs]
  by (simp add: resolve_order_status_from_packages_def count_all_def status_sets)

subsection \<open>What may happen to a package\<close>

inductive package_move :: "package_status \<Rightarrow> package_status \<Rightarrow> bool" where
  cancel: "s \<notin> set PACKAGE_STATUSES_BLOCKING_CANCELLATION \<Longrightarrow> s \<noteq> P_CANCELLED \<Longrightarrow> package_move s P_CANCELLED"
| reschedule: "s \<in> set RESCHEDULABLE_PACKAGE_STATUSES \<Longrightarrow> package_move s P_AT_WAREHOUSE"
| found: "package_move P_MISSING P_AT_WAREHOUSE"
| start_return: "s \<in> set RETURNABLE_PACKAGE_STATUSES \<Longrightarrow> package_move s P_RETURN_INITIATED"
| send_back: "s \<in> set RESOLVABLE_RETURN_PACKAGE_STATUSES \<Longrightarrow> package_move s P_RETURN_IN_TRANSIT"
| dispose: "s \<in> set RESOLVABLE_RETURN_PACKAGE_STATUSES \<Longrightarrow> package_move s P_DISPOSED"

inductive_cases package_moveE: "package_move s t"

inductive_simps package_move_simps [simp]:
  "package_move P_DELIVERED_TO_CUSTOMER t" "package_move P_LEFT_AT_SAFE_PLACE t" "package_move P_RETURNED t"
  "package_move P_DISPOSED t" "package_move P_RETURN_IN_TRANSIT t" "package_move P_CANCELLED t"

definition settled_package :: "package_status \<Rightarrow> bool" where
  "settled_package s \<longleftrightarrow> s \<in> {P_DELIVERED_TO_CUSTOMER, P_LEFT_AT_SAFE_PLACE, P_RETURNED, P_DISPOSED,
     P_RETURN_IN_TRANSIT, P_CANCELLED}"

lemma settled_package_iff: "settled_package s \<longleftrightarrow> \<not> (\<exists>t. package_move s t)"
  unfolding settled_package_def
  by (cases s) (simp_all add: status_sets package_move.simps [of _ "t" for t] ex_disj_distrib)

subsection \<open>Event logs that replay\<close>

text \<open>
  A log entry names the row, the status it left and the status it entered. \<open>replays f es g\<close>: from the
  statuses \<open>f\<close> each entry leaves the current status of a row that exists, and the statuses \<open>g\<close> are reached.
\<close>

fun replays :: "(string \<Rightarrow> 's option) \<Rightarrow> (string \<times> 's option \<times> 's) list \<Rightarrow> (string \<Rightarrow> 's option) \<Rightarrow> bool" where
  "replays f [] g \<longleftrightarrow> g = f"
| "replays f ((i, from, to) # es) g \<longleftrightarrow> from \<noteq> None \<and> f i = from \<and> replays (f(i \<mapsto> to)) es g"

lemma replays_append: "replays f (es @ fs) h \<longleftrightarrow> (\<exists>g. replays f es g \<and> replays g fs h)"
proof (induction es arbitrary: f)
  case (Cons e es)
  then show ?case by (cases e) (auto simp del: fun_upd_apply)
qed simp

lemma replays_trans: "replays f es g \<Longrightarrow> replays g fs h \<Longrightarrow> replays f (es @ fs) h"
  by (auto simp: replays_append)

lemma replays_dom: "replays f es g \<Longrightarrow> (f i = None) = (g i = None)"
proof (induction es arbitrary: f)
  case (Cons e es)
  then obtain j r t where e: "e = (j, Some r, t)" "f j = Some r" "replays (f(j \<mapsto> t)) es g"
    by (cases e) auto
  show ?case using Cons.IH [OF e(3)] e(2) by (auto split: if_splits)
qed simp

lemma replays_settled:
  "replays f es g \<Longrightarrow> (\<And>i s t. (i, Some s, t) \<in> set es \<Longrightarrow> package_move s t)
   \<Longrightarrow> f i = Some s \<Longrightarrow> settled_package s \<Longrightarrow> g i = Some s"
proof (induction es arbitrary: f)
  case (Cons e es)
  obtain j r t where e: "e = (j, Some r, t)" "f j = Some r" "replays (f(j \<mapsto> t)) es g"
    using Cons.prems(1) by (cases e) auto
  then have "package_move r t" using Cons.prems(2) by auto
  with e Cons.prems have "j \<noteq> i" by (auto simp: settled_package_iff)
  moreover have "(k, Some u, v) \<in> set es \<Longrightarrow> package_move u v" for k u v
    using Cons.prems(2) [of k u v] by simp
  ultimately show ?case using Cons.IH [OF e(3)] Cons.prems(3,4) by simp
qed simp

end
