(* ===== verification/OrderLifecycle.thy ===== *)
theory OrderLifecycle
  imports Repository AuditTrail Money OrderStatus
begin

text \<open>
  Cancellation, rescheduling, returns and found parcels of \<^verbatim>\<open>OrderService\<close>
  (\<^verbatim>\<open>app/modules/orders/service.py\<close>) over the tables of orders, delivery stops, packages, their status
  events, the evidence images and the requested automation jobs. Tables are kept in creation order, which
  the listings sort by. The services write attributes of loaded rows, so the version of a row is not bumped.
  A new event row has neither id nor time until \<open>flush\<close> (sessions do not flush before a query). An exception
  rolls the transaction back. Parameters, in \<open>life_ctx\<close>: the clock, the ids a flush draws and the
  result of each image upload. Dates are only stored and printed and are kept as ISO texts.
\<close>

named_theorems life_simps \<open>reading the order tables after a write\<close>

subsection \<open>Tables\<close>

record life_order = row +
  lo_ref :: string
  lo_org :: string
  lo_customer :: "string option"
  lo_status :: order_status

record life_stop = row +
  ls_order :: string
  ls_tracking :: string
  ls_status :: stop_status
  ls_scheduled_for :: "string option"
  ls_return_initiated_at :: "int option"
  ls_return_initiated_by :: "string option"
  ls_resolution :: "return_resolution option"
  ls_resolved_at :: "int option"
  ls_resolved_by :: "string option"
  ls_dispatch_date :: "string option"
  ls_return_cost :: "rat option"
  ls_cost_waived :: bool
  ls_return_notes :: "string option"
  ls_disposal_reason :: "disposal_reason option"

record parcel = row +
  pk_ref :: string
  pk_order :: string
  pk_stop :: "string option"
  pk_status :: package_status

record 's status_event =
  ev_id :: "string option"
  ev_created_at :: "int option"
  ev_entity :: string
  ev_from :: "'s option"
  ev_to :: 's
  ev_actor :: "string option"

record automation_job =
  aj_job_id :: string
  aj_event_id :: string
  aj_occurred_at :: "int option"
  aj_org :: string
  aj_entity_type :: string
  aj_entity_id :: string
  aj_order_id :: string
  aj_stop_id :: "string option"
  aj_from :: "string option"
  aj_to :: string
  aj_actor :: "string option"

record evidence_image =
  ei_stop :: string
  ei_key :: string
  ei_sort :: nat

record life_state =
  lf_orders :: "life_order list"
  lf_stops :: "life_stop list"
  lf_parcels :: "parcel list"
  lf_order_events :: "order_status status_event list"
  lf_stop_events :: "stop_status status_event list"
  lf_package_events :: "package_status status_event list"
  lf_jobs :: "automation_job list"
  lf_images :: "evidence_image list"
  lf_audit :: "audit_call list"

record life_user =
  lu_id :: string
  lu_role :: string
  lu_org :: "string option"

record life_ctx =
  lx_user :: string
  lx_role :: string
  lx_ip :: "string option"
  lx_agent :: "string option"
  lx_now :: int
  lx_uuid :: "string \<Rightarrow> nat \<Rightarrow> string"
  lx_upload :: "nat \<Rightarrow> string option"

subsection \<open>Queries\<close>

definition get_order_tree_or_404 :: "string \<Rightarrow> life_state \<Rightarrow> life_order result" where
  "get_order_tree_or_404 o_id st = get_by_id_or_404 ''order'' o_id (\<lambda>_. True) (lf_orders st)"

definition order_stops :: "string \<Rightarrow> life_state \<Rightarrow> life_stop list" where
  "order_stops o_id st = filter (\<lambda>s. ls_order s = o_id) (lf_stops st)"

definition packages_of_stop :: "string \<Rightarrow> string \<Rightarrow> life_state \<Rightarrow> parcel list" where
  "packages_of_stop o_id s_id st = filter (\<lambda>p. pk_stop p = Some s_id \<and> pk_order p = o_id) (lf_parcels st)"

definition get_stop_with_order :: "string \<Rightarrow> life_state \<Rightarrow> (life_stop \<times> life_order) option" where
  "get_stop_with_order s_id st =
     (case get_by_id s_id (\<lambda>_. True) (lf_stops st) of
        None \<Rightarrow> None
      | Some s \<Rightarrow> map_option (\<lambda>ord. (s, ord)) (get_by_id (ls_order s) (\<lambda>_. True) (lf_orders st)))"

definition get_package_with_stop_and_order ::
    "string \<Rightarrow> life_state \<Rightarrow> (parcel \<times> life_stop option \<times> life_order) option" where
  "get_package_with_stop_and_order p_id st =
     (case get_by_id p_id (\<lambda>_. True) (lf_parcels st) of
        None \<Rightarrow> None
      | Some p \<Rightarrow> map_option
          (\<lambda>ord. (p, (case pk_stop p of None \<Rightarrow> None | Some s_id \<Rightarrow> get_by_id s_id (\<lambda>_. True) (lf_stops st)), ord))
          (get_by_id (pk_order p) (\<lambda>_. True) (lf_orders st)))"

definition get_stop_with_order_or_404 :: "string \<Rightarrow> string \<Rightarrow> life_state \<Rightarrow> (life_stop \<times> life_order) result" where
  "get_stop_with_order_or_404 s_id o_id st =
     (case get_stop_with_order s_id st of
        None \<Rightarrow> Inl (NotFoundError ''delivery_stop'' s_id)
      | Some (s, ord) \<Rightarrow> if rid ord \<noteq> o_id then Inl (NotFoundError ''delivery_stop'' s_id) else Inr (s, ord))"

definition get_package_or_404 ::
    "string \<Rightarrow> string \<Rightarrow> life_state \<Rightarrow> (parcel \<times> life_stop option \<times> life_order) result" where
  "get_package_or_404 p_id o_id st =
     (case get_package_with_stop_and_order p_id st of
        None \<Rightarrow> Inl (NotFoundError ''package'' p_id)
      | Some (p, s, ord) \<Rightarrow>
          if rid ord \<noteq> o_id then Inl (NotFoundError ''package'' p_id) else Inr (p, s, ord))"

definition list_packages_by_stop_and_statuses ::
    "string \<Rightarrow> package_status list \<Rightarrow> life_state \<Rightarrow> parcel list" where
  "list_packages_by_stop_and_statuses s_id statuses st =
     filter (\<lambda>p. pk_stop p = Some s_id \<and> pk_status p \<in> set statuses) (lf_parcels st)"

definition package_status_breakdown_for_order :: "string \<Rightarrow> life_state \<Rightarrow> package_status list" where
  "package_status_breakdown_for_order o_id st =
     map pk_status (filter (\<lambda>p. pk_order p = o_id) (lf_parcels st))"

definition package_status_breakdown_for_stop :: "string \<Rightarrow> life_state \<Rightarrow> package_status list" where
  "package_status_breakdown_for_stop s_id st =
     map pk_status (filter (\<lambda>p. pk_stop p = Some s_id) (lf_parcels st))"

definition order_status_of :: "string \<Rightarrow> life_state \<Rightarrow> order_status option" where
  "order_status_of i st = map_option lo_status (get_by_id i (\<lambda>_. True) (lf_orders st))"

definition stop_status_of :: "string \<Rightarrow> life_state \<Rightarrow> stop_status option" where
  "stop_status_of i st = map_option ls_status (get_by_id i (\<lambda>_. True) (lf_stops st))"

definition package_status_of :: "string \<Rightarrow> life_state \<Rightarrow> package_status option" where
  "package_status_of i st = map_option pk_status (get_by_id i (\<lambda>_. True) (lf_parcels st))"

subsection \<open>Writes\<close>

definition set_order_status :: "string \<Rightarrow> order_status \<Rightarrow> life_state \<Rightarrow> life_state" where
  "set_order_status i s st =
     st\<lparr>lf_orders := map (\<lambda>r. if rid r = i then r\<lparr>lo_status := s\<rparr> else r) (lf_orders st)\<rparr>"

definition update_stop :: "string \<Rightarrow> (life_stop \<Rightarrow> life_stop) \<Rightarrow> life_state \<Rightarrow> life_state" where
  "update_stop i f st = st\<lparr>lf_stops := map (\<lambda>r. if rid r = i then f r else r) (lf_stops st)\<rparr>"

definition set_stop_status :: "string \<Rightarrow> stop_status \<Rightarrow> life_state \<Rightarrow> life_state" where
  "set_stop_status i s st = update_stop i (\<lambda>r. r\<lparr>ls_status := s\<rparr>) st"

definition set_package_status :: "string \<Rightarrow> package_status \<Rightarrow> life_state \<Rightarrow> life_state" where
  "set_package_status i s st =
     st\<lparr>lf_parcels := map (\<lambda>r. if rid r = i then r\<lparr>pk_status := s\<rparr> else r) (lf_parcels st)\<rparr>"

definition flush_events :: "life_ctx \<Rightarrow> string \<Rightarrow> 's status_event list \<Rightarrow> 's status_event list" where
  \<comment> \<open>the column defaults of id and creation time are drawn when a new row is inserted\<close>
  "flush_events cx table evs =
     map (\<lambda>(n, e). if ev_id e = None then e\<lparr>ev_id := Some (lx_uuid cx table n), ev_created_at := Some (lx_now cx)\<rparr> else e)
       (enumerate 0 evs)"

definition flush :: "life_ctx \<Rightarrow> life_state \<Rightarrow> life_state" where
  "flush cx st = st\<lparr>lf_order_events := flush_events cx ''order_events'' (lf_order_events st),
     lf_stop_events := flush_events cx ''delivery_stop_events'' (lf_stop_events st),
     lf_package_events := flush_events cx ''package_events'' (lf_package_events st)\<rparr>"

subsection \<open>Status events and automation jobs\<close>

definition new_event :: "string \<Rightarrow> 's option \<Rightarrow> 's \<Rightarrow> string option \<Rightarrow> 's status_event" where
  "new_event entity from_status to_status actor =
     \<lparr>ev_id = None, ev_created_at = None, ev_entity = entity, ev_from = from_status, ev_to = to_status,
      ev_actor = actor\<rparr>"

definition record_order_transition ::
    "string \<Rightarrow> order_status option \<Rightarrow> order_status \<Rightarrow> string option \<Rightarrow> life_state \<Rightarrow> life_state" where
  "record_order_transition i from_status to_status actor st =
     st\<lparr>lf_order_events := lf_order_events st @ [new_event i from_status to_status actor]\<rparr>"

definition record_delivery_stop_transition ::
    "string \<Rightarrow> stop_status option \<Rightarrow> stop_status \<Rightarrow> string option \<Rightarrow> life_state \<Rightarrow> life_state" where
  "record_delivery_stop_transition i from_status to_status actor st =
     st\<lparr>lf_stop_events := lf_stop_events st @ [new_event i from_status to_status actor]\<rparr>"

definition record_package_transition ::
    "string \<Rightarrow> package_status option \<Rightarrow> package_status \<Rightarrow> string option \<Rightarrow> life_state \<Rightarrow> life_state" where
  "record_package_transition i from_status to_status actor st =
     st\<lparr>lf_package_events := lf_package_events st @ [new_event i from_status to_status actor]\<rparr>"

definition py_str :: "string option \<Rightarrow> string" where
  \<comment> \<open>\<^verbatim>\<open>str(x)\<close> of an optional string\<close>
  "py_str x = (case x of None \<Rightarrow> ''None'' | Some s \<Rightarrow> s)"

definition automation_request ::
    "'s status_event \<Rightarrow> ('s \<Rightarrow> string) \<Rightarrow> string \<Rightarrow> string option \<Rightarrow> life_order \<Rightarrow> automation_job" where
  "automation_request ev val entity_type stop_id ord =
     \<lparr>aj_job_id = ''status-auto:'' @ py_str (ev_id ev), aj_event_id = py_str (ev_id ev),
      aj_occurred_at = ev_created_at ev, aj_org = lo_org ord, aj_entity_type = entity_type,
      aj_entity_id = ev_entity ev, aj_order_id = rid ord, aj_stop_id = stop_id,
      aj_from = map_option val (ev_from ev), aj_to = val (ev_to ev), aj_actor = ev_actor ev\<rparr>"

definition append_order_status_event ::
    "bool \<Rightarrow> string \<Rightarrow> order_status option \<Rightarrow> order_status \<Rightarrow> string option \<Rightarrow> life_state \<Rightarrow> life_state" where
  "append_order_status_event suppress_automation o_id from_status to_status actor st =
     (let st1 = record_order_transition o_id from_status to_status actor st;
          ev = last (lf_order_events st1)
      in if suppress_automation then st1
         else case get_by_id o_id (\<lambda>_. True) (lf_orders st1) of
             None \<Rightarrow> st1
           | Some ord \<Rightarrow> st1\<lparr>lf_jobs := lf_jobs st1 @ [automation_request ev order_value ''BOOKING_ORDER'' None ord]\<rparr>)"

definition append_delivery_stop_status_event ::
    "bool \<Rightarrow> string \<Rightarrow> stop_status option \<Rightarrow> stop_status \<Rightarrow> string option \<Rightarrow> life_state \<Rightarrow> life_state" where
  "append_delivery_stop_status_event suppress_automation s_id from_status to_status actor st =
     (let st1 = record_delivery_stop_transition s_id from_status to_status actor st;
          ev = last (lf_stop_events st1)
      in if suppress_automation then st1
         else case get_stop_with_order s_id st1 of
             None \<Rightarrow> st1
           | Some (s, ord) \<Rightarrow>
               st1\<lparr>lf_jobs := lf_jobs st1 @ [automation_request ev stop_value ''DELIVERY_STOP'' (Some (rid s)) ord]\<rparr>)"

definition append_package_status_event ::
    "string \<Rightarrow> package_status option \<Rightarrow> package_status \<Rightarrow> string option \<Rightarrow> life_state \<Rightarrow> life_state" where
  "append_package_status_event p_id from_status to_status actor st =
     record_package_transition p_id from_status to_status actor st"

definition order_audit ::
    "life_ctx \<Rightarrow> string \<Rightarrow> string \<Rightarrow> string \<Rightarrow> string option \<Rightarrow> (string \<times> json) list \<Rightarrow> (string \<times> json) list
     \<Rightarrow> string \<Rightarrow> string \<Rightarrow> life_state \<Rightarrow> life_state" where
  "order_audit cx action entity_type entity_id entity_ref old new org event_type st =
     st\<lparr>lf_audit := lf_audit st @ [\<lparr>ac_action = action, ac_entity_type = entity_type,
        ac_entity_id = Some entity_id, ac_entity_ref = entity_ref, ac_user_id = Some (lx_user cx),
        ac_user_role = Some (lx_role cx), ac_old_value = Some old, ac_new_value = Some new,
        ac_ip_address = lx_ip cx, ac_user_agent = lx_agent cx, ac_reason = None, ac_organization_id = Some org,
        ac_category = ''Order'', ac_event_type = event_type, ac_severity = ''INFO'',
        ac_session_id = None, ac_correlation_id = None\<rparr>]\<rparr>"

definition current :: "'a row_scheme \<Rightarrow> 'a table \<Rightarrow> 'a row_scheme" where
  \<comment> \<open>a loaded object shows the attributes its row has now\<close>
  "current r rows = (case get_by_id (rid r) (\<lambda>_. True) rows of None \<Rightarrow> r | Some r' \<Rightarrow> r')"

definition recompute_order_status :: "life_ctx \<Rightarrow> bool \<Rightarrow> string \<Rightarrow> life_state \<Rightarrow> life_state" where
  "recompute_order_status cx record_order_status_event o_id st =
     (case (get_by_id o_id (\<lambda>_. True) (lf_orders st),
            resolve_order_status_from_packages (package_status_breakdown_for_order o_id st)) of
        (Some ord, Some s) \<Rightarrow>
          if s = lo_status ord then st
          else let st1 = flush cx (set_order_status o_id s st)
               in if record_order_status_event
                  then flush cx (append_order_status_event False o_id (Some (lo_status ord)) s (Some (lx_user cx)) st1)
                  else st1
      | _ \<Rightarrow> st)"

subsection \<open>Cancellation\<close>

definition assert_order_access_for_mutation :: "life_order \<Rightarrow> life_user \<Rightarrow> string option \<Rightarrow> unit result" where
  "assert_order_access_for_mutation ord user query_org =
     (if lu_role user \<in> {''SUPER_ADMIN'', ''ADMIN''} then
        if \<not> truthy_str query_org then Inl (ValidationError ''organization_id is required for admin users'')
        else if Some (lo_org ord) \<noteq> query_org then Inl (NotFoundError ''order'' (rid ord))
        else Inr ()
      else if lu_role user \<in> {''CUSTOMER_B2B'', ''WAREHOUSE_STAFF''} then
        if \<not> truthy_str (lu_org user) \<or> Some (lo_org ord) \<noteq> lu_org user
        then Inl (ForbiddenError ''Not allowed to modify this order'')
        else Inr ()
      else if lu_role user = ''CUSTOMER_B2C'' then
        if lo_customer ord \<noteq> Some (lu_id user) then Inl (ForbiddenError ''Not allowed to modify this order'')
        else Inr ()
      else Inl (ForbiddenError ''Not allowed to modify this order''))"

fun apply_package_cancellations ::
    "life_ctx \<Rightarrow> parcel list \<Rightarrow> life_state \<Rightarrow> (life_state \<times> string list) result" where
  "apply_package_cancellations cx [] st = Inr (flush cx st, [])"
| "apply_package_cancellations cx (p # ps) st =
     (if pk_status p = P_CANCELLED then apply_package_cancellations cx ps st
      else if pk_status p \<in> set PACKAGE_STATUSES_BLOCKING_CANCELLATION
        then Inl (ValidationError (''Cannot cancel while package '' @ pk_ref p @ '' is in status ''
               @ package_value (pk_status p)))
      else bind_result
          (apply_package_cancellations cx ps
            (append_package_status_event (rid p) (Some (pk_status p)) P_CANCELLED (Some (lx_user cx))
              (set_package_status (rid p) P_CANCELLED st)))
          (\<lambda>(st1, affected). Inr (st1, rid p # affected)))"

definition mark_delivery_stop_cancelled :: "life_ctx \<Rightarrow> life_stop \<Rightarrow> life_state \<Rightarrow> life_state" where
  "mark_delivery_stop_cancelled cx s st =
     (if ls_status s = S_CANCELLED then st
      else flush cx (append_delivery_stop_status_event False (rid s) (Some (ls_status s)) S_CANCELLED
             (Some (lx_user cx)) (set_stop_status (rid s) S_CANCELLED st)))"

definition cancel_order ::
    "life_ctx \<Rightarrow> life_user \<Rightarrow> string option \<Rightarrow> string option \<Rightarrow> string \<Rightarrow> life_state
     \<Rightarrow> (life_state \<times> order_status) result" where
  "cancel_order cx user query_org notes_text o_id st =
     bind_result (get_order_tree_or_404 o_id st) (\<lambda>ord.
     bind_result (assert_order_access_for_mutation ord user query_org) (\<lambda>_.
     if lo_status ord = O_CANCELLED then Inl (ValidationError ''This order is already cancelled'')
     else let all_packages = concat (map (\<lambda>s. packages_of_stop o_id (rid s) st) (order_stops o_id st))
       in if all_packages = [] then Inl (ValidationError ''This order has no packages to cancel'')
          else bind_result (apply_package_cancellations cx all_packages st) (\<lambda>(st1, _).
            let st2 = fold (mark_delivery_stop_cancelled cx) (order_stops o_id st) st1;
                st3 = recompute_order_status cx False o_id st2;
                s = lo_status (current ord (lf_orders st3))
            in Inr (order_audit cx ''order.cancelled'' ''order'' o_id (Some (lo_ref ord))
                 [(''status'', JStr (order_value (lo_status ord)))]
                 [(''status'', JStr (order_value s)), (''notes'', j_str notes_text)]
                 (lo_org ord) ''BOOKING_CANCELLED'' st3, s))))"

record stop_cancel_response =
  sc_order_ref :: string
  sc_stop_id :: string
  sc_tracking :: string
  sc_stop_status :: stop_status
  sc_order_status :: order_status
  sc_affected :: "string list"

definition cancel_delivery_stop ::
    "life_ctx \<Rightarrow> life_user \<Rightarrow> string option \<Rightarrow> string option \<Rightarrow> string \<Rightarrow> string \<Rightarrow> life_state
     \<Rightarrow> (life_state \<times> stop_cancel_response) result" where
  "cancel_delivery_stop cx user query_org notes_text o_id s_id st =
     bind_result (get_order_tree_or_404 o_id st) (\<lambda>ord.
     bind_result (assert_order_access_for_mutation ord user query_org) (\<lambda>_.
     case find (\<lambda>s. rid s = s_id) (order_stops o_id st) of
       None \<Rightarrow> Inl (NotFoundError ''delivery_stop'' s_id)
     | Some s \<Rightarrow>
         let packages = packages_of_stop o_id s_id st;
             response = (\<lambda>st' affected. \<lparr>sc_order_ref = lo_ref ord, sc_stop_id = s_id, sc_tracking = ls_tracking s,
               sc_stop_status = ls_status (current s (lf_stops st')),
               sc_order_status = lo_status (current ord (lf_orders st')), sc_affected = affected\<rparr>)
         in if packages = [] then Inl (ValidationError ''This delivery stop has no packages to cancel'')
            else if (\<forall>p \<in> set packages. pk_status p = P_CANCELLED) \<and> ls_status s = S_CANCELLED
              then Inr (st, response st [])
            else bind_result (apply_package_cancellations cx packages st) (\<lambda>(st1, affected).
              let st2 = mark_delivery_stop_cancelled cx s st1;
                  st3 = recompute_order_status cx False o_id st2;
                  r = response st3 affected
              in Inr (order_audit cx ''delivery_stop.cancelled'' ''delivery_stop'' s_id (Some (ls_tracking s))
                   [(''stop_status'', JStr (stop_value (ls_status s))),
                    (''order_status'', JStr (order_value (lo_status ord)))]
                   [(''stop_status'', JStr (stop_value (sc_stop_status r))),
                    (''order_status'', JStr (order_value (sc_order_status r))),
                    (''package_ids'', JList (map JStr affected)), (''notes'', j_str notes_text)]
                   (lo_org ord) ''BOOKING_MODIFIED'' st3, r))))"

subsection \<open>Steps the actions share\<close>

definition move_package :: "life_ctx \<Rightarrow> package_status \<Rightarrow> parcel \<Rightarrow> life_state \<Rightarrow> life_state" where
  "move_package cx s p st =
     append_package_status_event (rid p) (Some (pk_status p)) s (Some (lx_user cx)) (set_package_status (rid p) s st)"

definition move_packages :: "life_ctx \<Rightarrow> package_status \<Rightarrow> parcel list \<Rightarrow> life_state \<Rightarrow> life_state" where
  "move_packages cx s ps st = fold (move_package cx s) ps st"

definition move_stop :: "life_ctx \<Rightarrow> stop_status \<Rightarrow> life_stop \<Rightarrow> life_state \<Rightarrow> life_state" where
  "move_stop cx s stop st =
     append_delivery_stop_status_event False (rid stop) (Some (ls_status stop)) s (Some (lx_user cx))
       (set_stop_status (rid stop) s st)"

definition resettle_stop :: "life_ctx \<Rightarrow> stop_status \<Rightarrow> life_stop \<Rightarrow> life_state \<Rightarrow> life_state" where
  "resettle_stop cx active_status stop st =
     (case resolve_stop_status_from_packages (Some active_status) (package_status_breakdown_for_stop (rid stop) st) of
        None \<Rightarrow> st
      | Some s \<Rightarrow> if s = ls_status stop then st else move_stop cx s stop st)"

definition mark_return_initiated :: "life_ctx \<Rightarrow> life_stop \<Rightarrow> life_state \<Rightarrow> life_state" where
  "mark_return_initiated cx stop st =
     (if ls_return_initiated_at stop = None
      then update_stop (rid stop) (\<lambda>r. r\<lparr>ls_return_initiated_at := Some (lx_now cx),
             ls_return_initiated_by := Some (lx_user cx)\<rparr>) st
      else st)"

record stop_action =
  sa_id :: string
  sa_tracking :: string
  sa_status :: stop_status
  sa_scheduled_for :: "string option"
  sa_affected :: "string list"

definition stop_action_response :: "life_stop \<Rightarrow> string list \<Rightarrow> life_state \<Rightarrow> stop_action" where
  "stop_action_response stop affected st =
     \<lparr>sa_id = rid stop, sa_tracking = ls_tracking stop, sa_status = ls_status (current stop (lf_stops st)),
      sa_scheduled_for = ls_scheduled_for (current stop (lf_stops st)), sa_affected = affected\<rparr>"

record package_action =
  pa_id :: string
  pa_ref :: string
  pa_stop :: "string option"
  pa_status :: package_status
  pa_stop_status :: "stop_status option"
  pa_order_status :: order_status

definition package_action_response ::
    "parcel \<Rightarrow> life_stop option \<Rightarrow> life_order \<Rightarrow> life_state \<Rightarrow> package_action" where
  "package_action_response p stop ord st =
     \<lparr>pa_id = rid p, pa_ref = pk_ref p, pa_stop = pk_stop p, pa_status = pk_status (current p (lf_parcels st)),
      pa_stop_status = map_option (\<lambda>s. ls_status (current s (lf_stops st))) stop,
      pa_order_status = lo_status (current ord (lf_orders st))\<rparr>"

subsection \<open>Actions on a stop and on a package\<close>

definition reschedule_stop ::
    "life_ctx \<Rightarrow> string \<Rightarrow> string \<Rightarrow> string \<Rightarrow> life_state \<Rightarrow> (life_state \<times> stop_action) result" where
  "reschedule_stop cx s_id scheduled_for o_id st =
     bind_result (get_stop_with_order_or_404 s_id o_id st) (\<lambda>(stop, ord).
     let eligible = list_packages_by_stop_and_statuses s_id RESCHEDULABLE_PACKAGE_STATUSES st
     in if eligible = [] then Inl (ValidationError
          ''No packages are eligible for reschedule on this stop. Only packages where the customer was not home can be rescheduled.'')
        else
          let st1 = move_packages cx P_AT_WAREHOUSE eligible st;
              st2 = update_stop s_id (\<lambda>r. r\<lparr>ls_scheduled_for := Some scheduled_for\<rparr>) st1;
              st3 = flush cx (move_stop cx S_DELIVERY_SCHEDULED stop st2);
              st4 = recompute_order_status cx True o_id st3
          in Inr (order_audit cx ''delivery_stop.rescheduled'' ''delivery_stop'' s_id None
               [(''status'', JStr (stop_value (ls_status stop))), (''scheduled_for'', j_str (ls_scheduled_for stop))]
               [(''status'', JStr (stop_value (ls_status (current stop (lf_stops st4))))),
                (''scheduled_for'', JStr scheduled_for), (''package_ids'', JList (map (JStr \<circ> rid) eligible))]
               (lo_org ord) ''BOOKING_MODIFIED'' st4, stop_action_response stop (map rid eligible) st4))"

definition initiate_package_return ::
    "life_ctx \<Rightarrow> string \<Rightarrow> string \<Rightarrow> life_state \<Rightarrow> (life_state \<times> package_action) result" where
  "initiate_package_return cx p_id o_id st =
     bind_result (get_package_or_404 p_id o_id st) (\<lambda>(p, stop, ord).
     if pk_status p \<notin> set RETURNABLE_PACKAGE_STATUSES
     then Inl (ValidationError (''Cannot initiate return on a package with status '' @ CHR 0x27 # package_value (pk_status p) @ [CHR 0x27]))
     else
       let st1 = flush cx (move_package cx P_RETURN_INITIATED p st);
           st2 = (case stop of None \<Rightarrow> st1 | Some s \<Rightarrow>
                    flush cx (mark_return_initiated cx s (resettle_stop cx S_RETURN_INITIATED s st1)));
           st3 = recompute_order_status cx True o_id st2;
           r = package_action_response p stop ord st3
       in Inr (order_audit cx ''package.return_initiated'' ''package'' p_id (Some (pk_ref p))
            [(''status'', JStr (package_value (pk_status p)))] [(''status'', JStr (package_value (pa_status r)))]
            (lo_org ord) ''RETURN_INITIATED'' st3, r))"

definition mark_package_as_found ::
    "life_ctx \<Rightarrow> string \<Rightarrow> string \<Rightarrow> life_state \<Rightarrow> (life_state \<times> package_action) result" where
  "mark_package_as_found cx p_id o_id st =
     bind_result (get_package_or_404 p_id o_id st) (\<lambda>(p, stop, ord).
     if pk_status p \<noteq> P_MISSING
     then Inl (ValidationError (''Only missing packages can be marked as found (current status: '' @ CHR 0x27 # package_value (pk_status p) @ [CHR 0x27, CHR '')'']))
     else
       let st1 = flush cx (move_package cx P_AT_WAREHOUSE p st);
           st2 = (case stop of None \<Rightarrow> st1 | Some s \<Rightarrow> flush cx (resettle_stop cx (ls_status s) s st1));
           st3 = recompute_order_status cx True o_id st2;
           r = package_action_response p stop ord st3
       in Inr (order_audit cx ''package.marked_as_found'' ''package'' p_id (Some (pk_ref p))
            [(''status'', JStr (package_value (pk_status p)))] [(''status'', JStr (package_value (pa_status r)))]
            (lo_org ord) ''PACKAGE_STATUS_CHANGED'' st3, r))"

definition reschedule_package ::
    "life_ctx \<Rightarrow> string \<Rightarrow> string \<Rightarrow> string \<Rightarrow> life_state \<Rightarrow> (life_state \<times> package_action) result" where
  "reschedule_package cx p_id scheduled_for o_id st =
     bind_result (get_package_or_404 p_id o_id st) (\<lambda>(p, stop_opt, ord).
     if pk_status p \<notin> set RESCHEDULABLE_PACKAGE_STATUSES
     then Inl (ValidationError (''Cannot reschedule a package with status '' @ CHR 0x27 # package_value (pk_status p)
       @ CHR 0x27 # ''. Only packages where the customer was not home can be rescheduled.''))
     else case stop_opt of
       None \<Rightarrow> Inl (ValidationError ''Package is not attached to a delivery stop and cannot be rescheduled'')
     | Some stop \<Rightarrow>
         let st1 = move_package cx P_AT_WAREHOUSE p st;
             st2 = update_stop (rid stop) (\<lambda>r. r\<lparr>ls_scheduled_for := Some scheduled_for\<rparr>) st1;
             st3 = flush cx (move_stop cx S_DELIVERY_SCHEDULED stop st2);
             st4 = recompute_order_status cx True o_id st3;
             r = package_action_response p stop_opt ord st4
         in Inr (order_audit cx ''package.rescheduled'' ''package'' p_id (Some (pk_ref p))
              [(''package_status'', JStr (package_value (pk_status p))), (''stop_status'', JStr (stop_value (ls_status stop))),
               (''scheduled_for'', j_str (ls_scheduled_for stop))]
              [(''package_status'', JStr (package_value (pa_status r))),
               (''stop_status'', JStr (stop_value (ls_status (current stop (lf_stops st4))))),
               (''scheduled_for'', JStr scheduled_for)]
              (lo_org ord) ''BOOKING_MODIFIED'' st4, r))"

definition package_states :: "parcel list \<Rightarrow> json" where
  "package_states ps = JObj (map (\<lambda>p. (rid p, JStr (package_value (pk_status p)))) ps)"

definition initiate_stop_return ::
    "life_ctx \<Rightarrow> string \<Rightarrow> string \<Rightarrow> life_state \<Rightarrow> (life_state \<times> stop_action) result" where
  "initiate_stop_return cx s_id o_id st =
     bind_result (get_stop_with_order_or_404 s_id o_id st) (\<lambda>(stop, ord).
     let eligible = list_packages_by_stop_and_statuses s_id RETURNABLE_PACKAGE_STATUSES st
     in if eligible = [] then Inl (ValidationError
          ''No packages on this stop are eligible for return. Only packages in CUSTOMER_NOT_HOME, REFUSED_BY_CUSTOMER, MISSING, or DAMAGED can be returned.'')
        else
          let st1 = flush cx (move_packages cx P_RETURN_INITIATED eligible st);
              st2 = flush cx (mark_return_initiated cx stop (resettle_stop cx S_RETURN_INITIATED stop st1));
              st3 = recompute_order_status cx True o_id st2;
              r = stop_action_response stop (map rid eligible) st3
          in Inr (order_audit cx ''delivery_stop.return_initiated'' ''delivery_stop'' s_id None
               [(''status'', JStr (stop_value (ls_status stop))), (''packages'', package_states eligible)]
               [(''status'', JStr (stop_value (sa_status r))), (''package_ids'', JList (map (JStr \<circ> rid) eligible))]
               (lo_org ord) ''RETURN_INITIATED'' st3, r))"

definition mark_stop_as_found ::
    "life_ctx \<Rightarrow> string \<Rightarrow> string \<Rightarrow> life_state \<Rightarrow> (life_state \<times> stop_action) result" where
  "mark_stop_as_found cx s_id o_id st =
     bind_result (get_stop_with_order_or_404 s_id o_id st) (\<lambda>(stop, ord).
     let eligible = list_packages_by_stop_and_statuses s_id [P_MISSING] st
     in if eligible = [] then Inl (ValidationError ''No missing packages on this stop to mark as found'')
        else
          let st1 = flush cx (move_packages cx P_AT_WAREHOUSE eligible st);
              st2 = flush cx (resettle_stop cx (ls_status stop) stop st1);
              st3 = recompute_order_status cx True o_id st2;
              r = stop_action_response stop (map rid eligible) st3
          in Inr (order_audit cx ''delivery_stop.marked_as_found'' ''delivery_stop'' s_id None
               [(''status'', JStr (stop_value (ls_status stop)))]
               [(''status'', JStr (stop_value (sa_status r))), (''package_ids'', JList (map (JStr \<circ> rid) eligible))]
               (lo_org ord) ''PACKAGE_STATUS_CHANGED'' st3, r))"

subsection \<open>Resolution of a return\<close>

record resolve_request =
  rr_resolution :: return_resolution
  rr_dispatch_date :: "string option"
  rr_cost :: "rat option"
  rr_waive :: bool
  rr_return_notes :: "string option"
  rr_disposal_reason :: "disposal_reason option"
  rr_resolution_notes :: "string option"
  rr_images :: nat

record resolve_response =
  rs_stop_id :: string
  rs_tracking :: string
  rs_stop_status :: stop_status
  rs_resolution :: return_resolution
  rs_resolved_at :: "int option"
  rs_dispatch_date :: "string option"
  rs_cost :: "rat option"
  rs_waived :: bool
  rs_notes :: "string option"
  rs_disposal_reason :: "disposal_reason option"
  rs_affected :: "string list"
  rs_images :: "evidence_image list"

definition check_evidence :: "resolve_request \<Rightarrow> unit result" where
  "check_evidence rr =
     (if rr_resolution rr = DISPOSE then
        if rr_images rr = 0 then Inl (ValidationError ''Disposal evidence image is required when resolution is DISPOSE'')
        else if MAX_RETURN_EVIDENCE_IMAGES < rr_images rr
          then Inl (ValidationError (''Maximum '' @ nat_text MAX_RETURN_EVIDENCE_IMAGES @ '' evidence images allowed''))
        else Inr ()
      else if 0 < rr_images rr then Inl (ValidationError ''Evidence images are only allowed when resolution is DISPOSE'')
      else Inr ())"

definition return_package_status :: "return_resolution \<Rightarrow> package_status" where
  "return_package_status r = (case r of RETURN_TO_SENDER \<Rightarrow> P_RETURN_IN_TRANSIT | DISPOSE \<Rightarrow> P_DISPOSED)"

definition return_stop_status :: "return_resolution \<Rightarrow> stop_status" where
  "return_stop_status r = (case r of RETURN_TO_SENDER \<Rightarrow> S_RETURN_IN_TRANSIT | DISPOSE \<Rightarrow> S_DISPOSED)"

definition set_resolution :: "life_ctx \<Rightarrow> return_resolution \<Rightarrow> life_stop \<Rightarrow> life_stop" where
  "set_resolution cx r s =
     s\<lparr>ls_resolution := Some r, ls_resolved_at := Some (lx_now cx), ls_resolved_by := Some (lx_user cx)\<rparr>"

definition set_return_details :: "resolve_request \<Rightarrow> life_stop \<Rightarrow> life_stop" where
  "set_return_details rr s =
     (if rr_resolution rr = RETURN_TO_SENDER
      then s\<lparr>ls_dispatch_date := rr_dispatch_date rr, ls_cost_waived := rr_waive rr,
             ls_return_cost := (if rr_waive rr then None else rr_cost rr), ls_return_notes := rr_return_notes rr,
             ls_disposal_reason := None\<rparr>
      else s\<lparr>ls_disposal_reason := rr_disposal_reason rr, ls_return_notes := rr_resolution_notes rr,
             ls_dispatch_date := None, ls_return_cost := None, ls_cost_waived := False\<rparr>)"

definition bulk_upload_images :: "(nat \<Rightarrow> string option) \<Rightarrow> nat \<Rightarrow> (nat \<times> string) list result" where
  "bulk_upload_images upload n =
     (let succeeded = concat (map (\<lambda>i. case upload i of None \<Rightarrow> [] | Some k \<Rightarrow> [(i, k)]) [0..<n])
      in if succeeded = [] \<and> 0 < n
         then Inl (StorageProviderError (''All '' @ nat_text n @ '' image(s) failed to upload''))
         else Inr succeeded)"

fun insert_evidence_images ::
    "string \<Rightarrow> nat \<Rightarrow> string list \<Rightarrow> evidence_image list \<Rightarrow> evidence_image list result" where
  "insert_evidence_images s_id next_sort [] images = Inr images"
| "insert_evidence_images s_id next_sort (k # ks) images =
     (if \<exists>e \<in> set images. ei_stop e = s_id \<and> ei_sort e = next_sort
      then Inl (IntegrityError ''uq_dse_evidence_stop_order'')
      else insert_evidence_images s_id (next_sort + 1) ks
             (images @ [\<lparr>ei_stop = s_id, ei_key = k, ei_sort = next_sort\<rparr>]))"

definition store_evidence :: "life_ctx \<Rightarrow> nat \<Rightarrow> string \<Rightarrow> life_state \<Rightarrow> life_state result" where
  "store_evidence cx n s_id st =
     (if n = 0 then Inr st
      else bind_result (bulk_upload_images (lx_upload cx) n) (\<lambda>succeeded.
           bind_result (insert_evidence_images s_id (length (filter (\<lambda>e. ei_stop e = s_id) (lf_images st)) + 1)
             (map snd (sort_key fst succeeded)) (lf_images st)) (\<lambda>images.
           Inr (st\<lparr>lf_images := images\<rparr>))))"

definition resolve_stop_return ::
    "life_ctx \<Rightarrow> string \<Rightarrow> resolve_request \<Rightarrow> string \<Rightarrow> life_state \<Rightarrow> (life_state \<times> resolve_response) result" where
  "resolve_stop_return cx s_id rr o_id st =
     bind_result (get_stop_with_order_or_404 s_id o_id st) (\<lambda>(stop, ord).
     let eligible = list_packages_by_stop_and_statuses s_id RESOLVABLE_RETURN_PACKAGE_STATUSES st
     in if eligible = [] then Inl (ValidationError
          ''No packages on this stop are awaiting return resolution (status RETURN_INITIATED).'')
        else if ls_resolution stop \<noteq> None then Inl (ValidationError ''This return has already been resolved'')
        else bind_result (check_evidence rr) (\<lambda>_.
          let st1 = move_packages cx (return_package_status (rr_resolution rr)) eligible st;
              st2 = move_stop cx (return_stop_status (rr_resolution rr)) stop
                      (update_stop s_id (set_resolution cx (rr_resolution rr)) st1);
              st3 = flush cx (update_stop s_id (set_return_details rr) st2)
          in bind_result (store_evidence cx (rr_images rr) s_id st3) (\<lambda>st4.
            let st5 = recompute_order_status cx True o_id st4;
                s = current stop (lf_stops st5);
                uploaded = drop (length (lf_images st)) (lf_images st4)
            in Inr (order_audit cx
                 (if rr_resolution rr = RETURN_TO_SENDER then ''delivery_stop.return_resolved.return_to_sender''
                  else ''delivery_stop.return_resolved.disposed'') ''delivery_stop'' s_id (Some (ls_tracking stop))
                 [(''status'', JStr (stop_value (ls_status stop))), (''packages'', package_states eligible)]
                 [(''status'', JStr (stop_value (ls_status s))), (''resolution'', JStr (resolution_value (rr_resolution rr))),
                  (''return_dispatch_date'', j_str (ls_dispatch_date s)), (''return_cost'', j_dec (ls_return_cost s)),
                  (''return_cost_waived'', JBool (ls_cost_waived s)),
                  (''disposal_reason'', j_str (map_option disposal_value (ls_disposal_reason s))),
                  (''evidence_count'', JInt (int (length uploaded))), (''package_ids'', JList (map (JStr \<circ> rid) eligible))]
                 (lo_org ord) ''RETURN_COMPLETED'' st5,
               \<lparr>rs_stop_id = s_id, rs_tracking = ls_tracking stop, rs_stop_status = ls_status s,
                rs_resolution = rr_resolution rr, rs_resolved_at = ls_resolved_at s, rs_dispatch_date = ls_dispatch_date s,
                rs_cost = ls_return_cost s, rs_waived = ls_cost_waived s, rs_notes = ls_return_notes s,
                rs_disposal_reason = ls_disposal_reason s, rs_affected = map rid eligible, rs_images = uploaded\<rparr>))))"

definition resolve_stop_of_package :: "life_ctx \<Rightarrow> resolve_request \<Rightarrow> life_stop \<Rightarrow> life_state \<Rightarrow> life_state" where
  \<comment> \<open>the stop after a package of it was resolved: its own return is resolved with the last package\<close>
  "resolve_stop_of_package cx rr stop st1 =
     (let initiated_remaining = count_list (package_status_breakdown_for_stop (rid stop) st1) P_RETURN_INITIATED;
          st2 = flush cx (resettle_stop cx (ls_status stop) stop st1)
      in if initiated_remaining = 0
         then flush cx (update_stop (rid stop) (set_return_details rr \<circ> set_resolution cx (rr_resolution rr)) st2)
         else st2)"

definition resolve_package_return ::
    "life_ctx \<Rightarrow> string \<Rightarrow> resolve_request \<Rightarrow> string \<Rightarrow> life_state \<Rightarrow> (life_state \<times> resolve_response) result" where
  "resolve_package_return cx p_id rr o_id st =
     bind_result (get_package_or_404 p_id o_id st) (\<lambda>(p, stop_opt, ord).
     case stop_opt of
       None \<Rightarrow> Inl (ValidationError ''Package is not attached to a delivery stop'')
     | Some stop \<Rightarrow>
         if ls_resolution stop \<noteq> None then Inl (ValidationError ''This return has already been resolved'')
         else if pk_status p \<notin> set RESOLVABLE_RETURN_PACKAGE_STATUSES
           then Inl (ValidationError ''This package is not awaiting return resolution (status must be RETURN_INITIATED).'')
         else bind_result (check_evidence rr) (\<lambda>_.
           let st1 = flush cx (move_package cx (return_package_status (rr_resolution rr)) p st);
               last_package_on_stop = (count_list (package_status_breakdown_for_stop (rid stop) st1) P_RETURN_INITIATED = 0);
               st3 = resolve_stop_of_package cx rr stop st1
           in bind_result (store_evidence cx (rr_images rr) (rid stop) st3) (\<lambda>st4.
             let st5 = recompute_order_status cx True o_id st4;
                 s = current stop (lf_stops st5);
                 asked = set_return_details rr s;
                 uploaded = drop (length (lf_images st)) (lf_images st4)
             in Inr (order_audit cx
                  (if rr_resolution rr = RETURN_TO_SENDER then ''package.return_resolved.return_to_sender''
                   else ''package.return_resolved.disposed'') ''package'' p_id (Some (pk_ref p))
                  [(''status'', JStr (package_value (pk_status p))), (''stop_status'', JStr (stop_value (ls_status stop)))]
                  [(''status'', JStr (package_value (pk_status (current p (lf_parcels st5))))),
                   (''stop_status'', JStr (stop_value (ls_status s))), (''resolution'', JStr (resolution_value (rr_resolution rr))),
                   (''return_dispatch_date'', j_str (ls_dispatch_date asked)), (''return_cost'', j_dec (ls_return_cost asked)),
                   (''return_cost_waived'', JBool (ls_cost_waived asked)),
                   (''disposal_reason'', j_str (map_option disposal_value (ls_disposal_reason asked))),
                   (''stop_fully_resolved'', JBool last_package_on_stop),
                   (''evidence_count'', JInt (int (length uploaded))), (''delivery_stop_id'', JStr (rid stop))]
                  (lo_org ord) ''RETURN_COMPLETED'' st5,
                \<lparr>rs_stop_id = rid stop, rs_tracking = ls_tracking stop, rs_stop_status = ls_status s,
                 rs_resolution = rr_resolution rr,
                 rs_resolved_at = (if last_package_on_stop then ls_resolved_at s else None),
                 rs_dispatch_date = ls_dispatch_date asked, rs_cost = ls_return_cost asked, rs_waived = ls_cost_waived asked,
                 rs_notes = ls_return_notes asked, rs_disposal_reason = ls_disposal_reason asked,
                 rs_affected = [p_id], rs_images = uploaded\<rparr>))))"

subsection \<open>Reading after a write\<close>

lemma flush_frame [simp]:
  "lf_orders (flush cx st) = lf_orders st" "lf_stops (flush cx st) = lf_stops st"
  "lf_parcels (flush cx st) = lf_parcels st" "lf_jobs (flush cx st) = lf_jobs st"
  "lf_images (flush cx st) = lf_images st" "lf_audit (flush cx st) = lf_audit st"
  by (simp_all add: flush_def)

lemma order_audit_frame [simp]:
  "lf_orders (order_audit cx a t i r old new org ev st) = lf_orders st"
  "lf_stops (order_audit cx a t i r old new org ev st) = lf_stops st"
  "lf_parcels (order_audit cx a t i r old new org ev st) = lf_parcels st"
  "lf_jobs (order_audit cx a t i r old new org ev st) = lf_jobs st"
  "lf_images (order_audit cx a t i r old new org ev st) = lf_images st"
  "lf_package_events (order_audit cx a t i r old new org ev st) = lf_package_events st"
  "lf_stop_events (order_audit cx a t i r old new org ev st) = lf_stop_events st"
  by (simp_all add: order_audit_def)

lemma set_order_status_frame [simp]:
  "lf_stops (set_order_status i s st) = lf_stops st" "lf_parcels (set_order_status i s st) = lf_parcels st"
  "lf_jobs (set_order_status i s st) = lf_jobs st" "lf_images (set_order_status i s st) = lf_images st"
  "lf_package_events (set_order_status i s st) = lf_package_events st"
  "lf_stop_events (set_order_status i s st) = lf_stop_events st"
  by (simp_all add: set_order_status_def)

lemma update_stop_frame [simp]:
  "lf_orders (update_stop i f st) = lf_orders st" "lf_parcels (update_stop i f st) = lf_parcels st"
  "lf_jobs (update_stop i f st) = lf_jobs st" "lf_images (update_stop i f st) = lf_images st"
  "lf_package_events (update_stop i f st) = lf_package_events st"
  "lf_stop_events (update_stop i f st) = lf_stop_events st"
  by (simp_all add: update_stop_def)

lemma set_package_status_frame [simp]:
  "lf_orders (set_package_status i s st) = lf_orders st" "lf_stops (set_package_status i s st) = lf_stops st"
  "lf_jobs (set_package_status i s st) = lf_jobs st" "lf_images (set_package_status i s st) = lf_images st"
  "lf_package_events (set_package_status i s st) = lf_package_events st"
  "lf_stop_events (set_package_status i s st) = lf_stop_events st"
  by (simp_all add: set_package_status_def)

lemma append_order_event_frame [simp]:
  "lf_orders (append_order_status_event b i f t a st) = lf_orders st"
  "lf_stops (append_order_status_event b i f t a st) = lf_stops st"
  "lf_parcels (append_order_status_event b i f t a st) = lf_parcels st"
  "lf_images (append_order_status_event b i f t a st) = lf_images st"
  "lf_package_events (append_order_status_event b i f t a st) = lf_package_events st"
  "lf_stop_events (append_order_status_event b i f t a st) = lf_stop_events st"
  by (simp_all add: append_order_status_event_def record_order_transition_def Let_def split: option.splits)

lemma append_stop_event_frame [simp]:
  "lf_orders (append_delivery_stop_status_event b i f t a st) = lf_orders st"
  "lf_stops (append_delivery_stop_status_event b i f t a st) = lf_stops st"
  "lf_parcels (append_delivery_stop_status_event b i f t a st) = lf_parcels st"
  "lf_images (append_delivery_stop_status_event b i f t a st) = lf_images st"
  "lf_package_events (append_delivery_stop_status_event b i f t a st) = lf_package_events st"
  by (simp_all add: append_delivery_stop_status_event_def record_delivery_stop_transition_def Let_def
      split: option.splits)

lemma append_package_event_frame [simp]:
  "lf_orders (append_package_status_event i f t a st) = lf_orders st"
  "lf_stops (append_package_status_event i f t a st) = lf_stops st"
  "lf_parcels (append_package_status_event i f t a st) = lf_parcels st"
  "lf_jobs (append_package_status_event i f t a st) = lf_jobs st"
  "lf_images (append_package_status_event i f t a st) = lf_images st"
  "lf_stop_events (append_package_status_event i f t a st) = lf_stop_events st"
  by (simp_all add: append_package_status_event_def record_package_transition_def)

subsection \<open>The log of status events\<close>

definition trail :: "'s status_event list \<Rightarrow> (string \<times> 's option \<times> 's) list" where
  "trail evs = map (\<lambda>e. (ev_entity e, ev_from e, ev_to e)) evs"

lemma trail_append [simp]: "trail (xs @ ys) = trail xs @ trail ys"
  by (simp add: trail_def)

lemma trail_new_event [simp]: "trail [new_event i f t a] = [(i, f, t)]"
  by (simp add: trail_def new_event_def)

lemma trail_flush_events [simp]: "trail (flush_events cx table evs) = trail evs"
proof -
  have "map (\<lambda>(n, e). (ev_entity e, ev_from e, ev_to e)) (enumerate 0 evs)
      = map ((\<lambda>e. (ev_entity e, ev_from e, ev_to e)) \<circ> snd) (enumerate 0 evs)"
    by (rule map_cong) auto
  also have "\<dots> = trail evs" unfolding trail_def map_map [symmetric] by (simp add: map_snd_enumerate)
  finally have "map (\<lambda>(n, e). (ev_entity e, ev_from e, ev_to e)) (enumerate 0 evs) = trail evs" .
  moreover have "trail (flush_events cx table evs) = map (\<lambda>(n, e). (ev_entity e, ev_from e, ev_to e)) (enumerate 0 evs)"
    unfolding trail_def flush_events_def by auto
  ultimately show ?thesis by simp
qed

lemma flush_trails [simp]:
  "trail (lf_package_events (flush cx st)) = trail (lf_package_events st)"
  "trail (lf_stop_events (flush cx st)) = trail (lf_stop_events st)"
  by (simp_all add: flush_def)

lemma append_package_event_trail [simp]:
  "trail (lf_package_events (append_package_status_event i f t a st)) = trail (lf_package_events st) @ [(i, f, t)]"
  by (simp add: append_package_status_event_def record_package_transition_def)

lemma append_stop_event_trail [simp]:
  "trail (lf_stop_events (append_delivery_stop_status_event b i f t a st)) = trail (lf_stop_events st) @ [(i, f, t)]"
  by (simp add: append_delivery_stop_status_event_def record_delivery_stop_transition_def Let_def split: option.splits)

subsection \<open>Statuses after a write\<close>

lemma get_by_id_map_same:
  "(\<And>r. rid (f r) = rid r) \<Longrightarrow>
   get_by_id i (\<lambda>_. True) (map (\<lambda>r. if rid r = j then f r else r) rows)
   = (if i = j then map_option f (get_by_id i (\<lambda>_. True) rows) else get_by_id i (\<lambda>_. True) rows)"
  by (induction rows) auto

lemma status_of_frame [simp]:
  "package_status_of i (flush cx st) = package_status_of i st"
  "stop_status_of i (flush cx st) = stop_status_of i st"
  "package_status_of i (order_audit cx a t e r old new org ev st) = package_status_of i st"
  "stop_status_of i (order_audit cx a t e r old new org ev st) = stop_status_of i st"
  "package_status_of i (update_stop j g st) = package_status_of i st"
  "package_status_of i (set_order_status j os st) = package_status_of i st"
  "stop_status_of i (set_order_status j os st) = stop_status_of i st"
  "stop_status_of i (set_package_status j ps st) = stop_status_of i st"
  "package_status_of i (append_package_status_event j f u a' st) = package_status_of i st"
  "stop_status_of i (append_package_status_event j f u a' st) = stop_status_of i st"
  "package_status_of i (append_delivery_stop_status_event b j f' u' a' st) = package_status_of i st"
  "stop_status_of i (append_delivery_stop_status_event b j f' u' a' st) = stop_status_of i st"
  "package_status_of i (append_order_status_event b j f'' u'' a' st) = package_status_of i st"
  "stop_status_of i (append_order_status_event b j f'' u'' a' st) = stop_status_of i st"
  by (simp_all add: package_status_of_def stop_status_of_def)

lemma package_status_of_set:
  "package_status_of j st \<noteq> None \<Longrightarrow>
   (\<lambda>i. package_status_of i (set_package_status j s st)) = (\<lambda>i. package_status_of i st)(j \<mapsto> s)"
  by (rule ext) (auto simp: package_status_of_def set_package_status_def get_by_id_map_same)

lemma stop_status_of_update:
  "(\<And>r. rid (f r) = rid r \<and> ls_status (f r) = ls_status r) \<Longrightarrow> stop_status_of i (update_stop j f st) = stop_status_of i st"
  by (simp add: stop_status_of_def update_stop_def get_by_id_map_same option.map_comp comp_def)

lemma stop_status_of_set:
  "stop_status_of j st \<noteq> None \<Longrightarrow>
   (\<lambda>i. stop_status_of i (set_stop_status j s st)) = (\<lambda>i. stop_status_of i st)(j \<mapsto> s)"
  by (rule ext) (auto simp: stop_status_of_def set_stop_status_def update_stop_def get_by_id_map_same)

lemma status_of_member:
  "distinct_ids (lf_parcels st) \<Longrightarrow> p \<in> set (lf_parcels st) \<Longrightarrow> package_status_of (rid p) st = Some (pk_status p)"
  "distinct_ids (lf_stops st) \<Longrightarrow> s \<in> set (lf_stops st) \<Longrightarrow> stop_status_of (rid s) st = Some (ls_status s)"
  by (simp_all add: package_status_of_def stop_status_of_def get_by_id_distinct)

subsection \<open>Micro steps\<close>

text \<open>
  Every action on an order is a sequence of the writes below: a flush, a package or a stop that moves and
  logs the move, other fields of a stop, the derived status of the order, an order event, evidence images
  and an audit row. \<open>Z\<close> holds the stops whose return the action may resolve.
\<close>

definition stop_key :: "life_stop \<Rightarrow> string \<times> int \<times> string \<times> string" where
  "stop_key s = (rid s, version s, ls_order s, ls_tracking s)"

definition order_key :: "life_order \<Rightarrow> string \<times> int \<times> string \<times> string \<times> string option" where
  "order_key r = (rid r, version r, lo_ref r, lo_org r, lo_customer r)"

definition parcel_key :: "parcel \<Rightarrow> string \<times> int \<times> string \<times> string \<times> string option" where
  "parcel_key p = (rid p, version p, pk_ref p, pk_order p, pk_stop p)"

definition return_record :: "life_stop \<Rightarrow> return_resolution option \<times> int option \<times> string option \<times> string option
    \<times> rat option \<times> bool \<times> string option \<times> disposal_reason option" where
  "return_record s = (ls_resolution s, ls_resolved_at s, ls_resolved_by s, ls_dispatch_date s, ls_return_cost s,
     ls_cost_waived s, ls_return_notes s, ls_disposal_reason s)"

definition may_move :: "string set \<Rightarrow> parcel \<Rightarrow> bool" where
  \<comment> \<open>a package that awaits the resolution of its return moves only with its stop\<close>
  "may_move Z p \<longleftrightarrow> (pk_status p = P_RETURN_INITIATED \<longrightarrow> (\<exists>i \<in> Z. pk_stop p = Some i))"

inductive micro :: "life_ctx \<Rightarrow> string \<Rightarrow> string set \<Rightarrow> life_state \<Rightarrow> life_state \<Rightarrow> bool" for cx o_id Z where
  m_flush: "micro cx o_id Z st (flush cx st)"
| m_package: "p \<in> set (lf_parcels st) \<Longrightarrow> pk_order p = o_id \<Longrightarrow> package_move (pk_status p) s \<Longrightarrow> may_move Z p
    \<Longrightarrow> micro cx o_id Z st (move_package cx s p st)"
| m_stop: "stop_status_of (rid stop) st = Some (ls_status stop) \<Longrightarrow> micro cx o_id Z st (move_stop cx s stop st)"
| m_fields: "(\<And>r. stop_key (f r) = stop_key r \<and> ls_status (f r) = ls_status r)
    \<Longrightarrow> (i \<notin> Z \<Longrightarrow> (\<And>r. return_record (f r) = return_record r)) \<Longrightarrow> micro cx o_id Z st (update_stop i f st)"
| m_order: "micro cx o_id Z st (set_order_status o_id s st)"
| m_order_event: "micro cx o_id Z st (append_order_status_event b o_id f t a st)"
| m_images: "insert_evidence_images i (length (filter (\<lambda>e. ei_stop e = i) (lf_images st)) + 1) ks (lf_images st) = Inr images
    \<Longrightarrow> micro cx o_id Z st (st\<lparr>lf_images := images\<rparr>)"
| m_audit: "micro cx o_id Z st (order_audit cx act ty ent ref old new org ev st)"

definition same_keys :: "life_state \<Rightarrow> life_state \<Rightarrow> bool" where
  "same_keys s t \<longleftrightarrow> map order_key (lf_orders t) = map order_key (lf_orders s)
     \<and> map stop_key (lf_stops t) = map stop_key (lf_stops s)
     \<and> map parcel_key (lf_parcels t) = map parcel_key (lf_parcels s)"

definition others_same :: "string \<Rightarrow> life_state \<Rightarrow> life_state \<Rightarrow> bool" where
  "others_same o_id s t \<longleftrightarrow>
     filter (\<lambda>r. rid r \<noteq> o_id) (lf_orders t) = filter (\<lambda>r. rid r \<noteq> o_id) (lf_orders s)
     \<and> filter (\<lambda>p. pk_order p \<noteq> o_id) (lf_parcels t) = filter (\<lambda>p. pk_order p \<noteq> o_id) (lf_parcels s)"

definition package_log :: "life_state \<Rightarrow> life_state \<Rightarrow> bool" where
  "package_log s t \<longleftrightarrow> (\<exists>new. trail (lf_package_events t) = trail (lf_package_events s) @ new
     \<and> replays (\<lambda>i. package_status_of i s) new (\<lambda>i. package_status_of i t)
     \<and> (\<forall>(i, from_status, to_status) \<in> set new. \<exists>a. from_status = Some a \<and> package_move a to_status))"

definition stop_log :: "life_state \<Rightarrow> life_state \<Rightarrow> bool" where
  "stop_log s t \<longleftrightarrow> (\<exists>new. trail (lf_stop_events t) = trail (lf_stop_events s) @ new
     \<and> replays (\<lambda>i. stop_status_of i s) new (\<lambda>i. stop_status_of i t))"

definition returns_kept :: "string set \<Rightarrow> life_state \<Rightarrow> life_state \<Rightarrow> bool" where
  "returns_kept Z s t \<longleftrightarrow> (\<forall>i r. i \<notin> Z \<and> get_by_id i (\<lambda>_. True) (lf_stops s) = Some r \<and> ls_resolution r \<noteq> None
     \<longrightarrow> (\<exists>r'. get_by_id i (\<lambda>_. True) (lf_stops t) = Some r' \<and> return_record r' = return_record r))"

definition jobs_unnamed :: "life_state \<Rightarrow> life_state \<Rightarrow> bool" where
  "jobs_unnamed s t \<longleftrightarrow> (\<exists>new. lf_jobs t = lf_jobs s @ new
     \<and> (\<forall>j \<in> set new. aj_job_id j = ''status-auto:None'' \<and> aj_event_id j = ''None'' \<and> aj_occurred_at j = None))"

definition pending_kept :: "string set \<Rightarrow> life_state \<Rightarrow> life_state \<Rightarrow> bool" where
  "pending_kept Z s t \<longleftrightarrow> (\<forall>i p. get_by_id i (\<lambda>_. True) (lf_parcels s) = Some p \<and> pk_status p = P_RETURN_INITIATED
     \<and> \<not> (\<exists>j \<in> Z. pk_stop p = Some j) \<longrightarrow> get_by_id i (\<lambda>_. True) (lf_parcels t) = Some p)"

lemma pending_kept_trans: "pending_kept Z s t \<Longrightarrow> pending_kept Z t u \<Longrightarrow> pending_kept Z s u"
  unfolding pending_kept_def by blast

lemmas life_relations = same_keys_def others_same_def package_log_def stop_log_def returns_kept_def jobs_unnamed_def
  pending_kept_def

lemma life_relations_refl [simp, intro]:
  "same_keys s s" "others_same o_id s s" "package_log s s" "stop_log s s" "returns_kept Z s s" "jobs_unnamed s s"
  "pending_kept Z s s"
  unfolding life_relations by auto

lemma same_keys_trans: "same_keys s t \<Longrightarrow> same_keys t u \<Longrightarrow> same_keys s u"
  by (simp add: same_keys_def)

lemma others_same_trans: "others_same o_id s t \<Longrightarrow> others_same o_id t u \<Longrightarrow> others_same o_id s u"
  by (simp add: others_same_def)

lemma package_log_trans: "package_log s t \<Longrightarrow> package_log t u \<Longrightarrow> package_log s u"
proof -
  assume "package_log s t" "package_log t u"
  then obtain xs ys where "trail (lf_package_events t) = trail (lf_package_events s) @ xs"
      "replays (\<lambda>i. package_status_of i s) xs (\<lambda>i. package_status_of i t)"
      "\<forall>(i, from_status, to_status) \<in> set xs. \<exists>a. from_status = Some a \<and> package_move a to_status"
      "trail (lf_package_events u) = trail (lf_package_events t) @ ys"
      "replays (\<lambda>i. package_status_of i t) ys (\<lambda>i. package_status_of i u)"
      "\<forall>(i, from_status, to_status) \<in> set ys. \<exists>a. from_status = Some a \<and> package_move a to_status"
    unfolding package_log_def by blast
  then show ?thesis unfolding package_log_def
    by (intro exI [of _ "xs @ ys"] conjI replays_trans) auto
qed

lemma stop_log_trans: "stop_log s t \<Longrightarrow> stop_log t u \<Longrightarrow> stop_log s u"
proof -
  assume "stop_log s t" "stop_log t u"
  then obtain xs ys where "trail (lf_stop_events t) = trail (lf_stop_events s) @ xs"
      "replays (\<lambda>i. stop_status_of i s) xs (\<lambda>i. stop_status_of i t)"
      "trail (lf_stop_events u) = trail (lf_stop_events t) @ ys"
      "replays (\<lambda>i. stop_status_of i t) ys (\<lambda>i. stop_status_of i u)"
    unfolding stop_log_def by blast
  then show ?thesis unfolding stop_log_def
    by (intro exI [of _ "xs @ ys"] conjI replays_trans) auto
qed

lemma return_record_resolution: "return_record a = return_record b \<Longrightarrow> ls_resolution a = ls_resolution b"
  by (simp add: return_record_def)

lemma returns_keptD:
  "returns_kept Z s t \<Longrightarrow> i \<notin> Z \<Longrightarrow> get_by_id i (\<lambda>_. True) (lf_stops s) = Some r \<Longrightarrow> ls_resolution r \<noteq> None
   \<Longrightarrow> \<exists>r'. get_by_id i (\<lambda>_. True) (lf_stops t) = Some r' \<and> return_record r' = return_record r"
  by (auto simp: returns_kept_def)

lemma returns_kept_trans:
  assumes "returns_kept Z s t" "returns_kept Z t u"
  shows "returns_kept Z s u"
  unfolding returns_kept_def
proof (intro allI impI, elim conjE)
  fix i r
  assume r: "i \<notin> Z" "get_by_id i (\<lambda>_. True) (lf_stops s) = Some r" "ls_resolution r \<noteq> None"
  then obtain r' where r': "get_by_id i (\<lambda>_. True) (lf_stops t) = Some r'" "return_record r' = return_record r"
    using returns_keptD [OF assms(1)] by blast
  have "ls_resolution r' \<noteq> None" using r(3) return_record_resolution [OF r'(2)] by simp
  show "\<exists>r'. get_by_id i (\<lambda>_. True) (lf_stops u) = Some r' \<and> return_record r' = return_record r"
    using returns_keptD [OF assms(2) r(1) r'(1) \<open>ls_resolution r' \<noteq> None\<close>] r'(2) by auto
qed

lemma jobs_unnamed_trans:
  assumes "jobs_unnamed s t" "jobs_unnamed t u"
  shows "jobs_unnamed s u"
proof -
  let ?P = "\<lambda>j. aj_job_id j = ''status-auto:None'' \<and> aj_event_id j = ''None'' \<and> aj_occurred_at j = None"
  obtain xs where xs: "lf_jobs t = lf_jobs s @ xs" "\<forall>j \<in> set xs. ?P j" using assms(1) unfolding jobs_unnamed_def by blast
  obtain ys where ys: "lf_jobs u = lf_jobs t @ ys" "\<forall>j \<in> set ys. ?P j" using assms(2) unfolding jobs_unnamed_def by blast
  have "lf_jobs u = lf_jobs s @ xs @ ys" "\<forall>j \<in> set (xs @ ys). ?P j" using xs ys by auto
  then show ?thesis unfolding jobs_unnamed_def by blast
qed

lemma map_key_update:
  "(\<And>r. rid r = i \<Longrightarrow> k (f r) = k r) \<Longrightarrow> map k (map (\<lambda>r. if rid r = i then f r else r) rows) = map k rows"
  by (induction rows) auto

lemma filter_update:
  "(\<And>r. rid r = i \<Longrightarrow> r \<in> set rows \<Longrightarrow> \<not> P r) \<Longrightarrow> (\<And>r. P (f r) = P r)
   \<Longrightarrow> filter P (map (\<lambda>r. if rid r = i then f r else r) rows) = filter P rows"
  by (induction rows) auto

lemma set_stop_status_frame [simp]:
  "lf_orders (set_stop_status i s st) = lf_orders st" "lf_parcels (set_stop_status i s st) = lf_parcels st"
  "lf_jobs (set_stop_status i s st) = lf_jobs st" "lf_images (set_stop_status i s st) = lf_images st"
  "lf_package_events (set_stop_status i s st) = lf_package_events st"
  "lf_stop_events (set_stop_status i s st) = lf_stop_events st"
  by (simp_all add: set_stop_status_def)

lemma micro_same_keys: "micro cx o_id Z s t \<Longrightarrow> same_keys s t"
proof (induction rule: micro.induct)
  case (m_package p st s)
  have "map parcel_key (lf_parcels (move_package cx s p st)) = map parcel_key (lf_parcels st)"
    unfolding move_package_def append_package_event_frame set_package_status_def
    by (simp add: parcel_key_def)
  then show ?case by (simp add: same_keys_def move_package_def)
next
  case (m_stop stop st s)
  have "map stop_key (lf_stops (move_stop cx s stop st)) = map stop_key (lf_stops st)"
    by (simp add: move_stop_def set_stop_status_def update_stop_def stop_key_def)
  then show ?case by (simp add: same_keys_def move_stop_def set_stop_status_def)
next
  case (m_fields f i st)
  then have "map stop_key (lf_stops (update_stop i f st)) = map stop_key (lf_stops st)"
    by (simp add: update_stop_def)
  then show ?case by (simp add: same_keys_def)
next
  case (m_order st s)
  have "map order_key (lf_orders (set_order_status o_id s st)) = map order_key (lf_orders st)"
    by (simp add: set_order_status_def order_key_def)
  then show ?case by (simp add: same_keys_def)
qed (auto simp: same_keys_def)

lemma same_keys_ids:
  assumes "same_keys s t"
  shows "map rid (lf_orders t) = map rid (lf_orders s)" "map rid (lf_stops t) = map rid (lf_stops s)"
    "map rid (lf_parcels t) = map rid (lf_parcels s)"
proof -
  have "map (fst \<circ> order_key) (lf_orders t) = map (fst \<circ> order_key) (lf_orders s)"
    "map (fst \<circ> stop_key) (lf_stops t) = map (fst \<circ> stop_key) (lf_stops s)"
    "map (fst \<circ> parcel_key) (lf_parcels t) = map (fst \<circ> parcel_key) (lf_parcels s)"
    using assms unfolding same_keys_def map_map [symmetric] by simp_all
  then show "map rid (lf_orders t) = map rid (lf_orders s)" "map rid (lf_stops t) = map rid (lf_stops s)"
    "map rid (lf_parcels t) = map rid (lf_parcels s)"
    by (simp_all add: comp_def order_key_def stop_key_def parcel_key_def)
qed

definition ids_distinct :: "life_state \<Rightarrow> bool" where
  "ids_distinct st \<longleftrightarrow> distinct_ids (lf_orders st) \<and> distinct_ids (lf_stops st) \<and> distinct_ids (lf_parcels st)"

lemma same_keys_distinct: "same_keys s t \<Longrightarrow> ids_distinct t = ids_distinct s"
  by (simp add: ids_distinct_def distinct_ids_def same_keys_ids)

lemma micro_others_same: "micro cx o_id Z s t \<Longrightarrow> ids_distinct s \<Longrightarrow> others_same o_id s t"
proof (induction rule: micro.induct)
  case (m_package p st s)
  have "filter (\<lambda>q. pk_order q \<noteq> o_id) (lf_parcels (move_package cx s p st)) = filter (\<lambda>q. pk_order q \<noteq> o_id) (lf_parcels st)"
    unfolding move_package_def append_package_event_frame set_package_status_def
    using m_package distinct_ids_unique [of "lf_parcels st"]
    by (auto simp: ids_distinct_def intro!: filter_update)
  then show ?case by (simp add: others_same_def move_package_def)
next
  case (m_order st s)
  have "filter (\<lambda>r. rid r \<noteq> o_id) (lf_orders (set_order_status o_id s st)) = filter (\<lambda>r. rid r \<noteq> o_id) (lf_orders st)"
    unfolding set_order_status_def by (auto intro!: filter_update)
  then show ?case by (simp add: others_same_def)
qed (auto simp: others_same_def move_stop_def set_stop_status_def)

lemma micro_package_log: "micro cx o_id Z s t \<Longrightarrow> ids_distinct s \<Longrightarrow> package_log s t"
proof (induction rule: micro.induct)
  case (m_package p st s)
  have p: "package_status_of (rid p) st = Some (pk_status p)"
    using m_package status_of_member by (simp add: ids_distinct_def)
  then show ?case unfolding package_log_def
    by (intro exI [of _ "[(rid p, Some (pk_status p), s)]"])
      (simp add: move_package_def package_status_of_set m_package.hyps)
qed (auto simp: package_log_def move_stop_def set_stop_status_def package_status_of_def)

lemma micro_stop_log: "micro cx o_id Z s t \<Longrightarrow> stop_log s t"
proof (induction rule: micro.induct)
  case (m_stop stop st s)
  then show ?case unfolding stop_log_def
    by (intro exI [of _ "[(rid stop, Some (ls_status stop), s)]"])
      (simp add: move_stop_def stop_status_of_set)
next
  case (m_fields f i st)
  then have "\<And>r. rid (f r) = rid r \<and> ls_status (f r) = ls_status r" by (simp add: stop_key_def)
  then show ?case unfolding stop_log_def by (intro exI [of _ "[]"]) (simp add: stop_status_of_update)
qed (auto simp: stop_log_def move_package_def stop_status_of_def)

lemma micro_returns_kept: "micro cx o_id Z s t \<Longrightarrow> returns_kept Z s t"
proof (induction rule: micro.induct)
  case (m_stop stop st s)
  show ?case
    by (simp add: returns_kept_def move_stop_def set_stop_status_def update_stop_def get_by_id_map_same return_record_def)
next
  case (m_fields f i st)
  then have "\<And>r. rid (f r) = rid r" by (simp add: stop_key_def)
  then show ?case using m_fields by (auto simp: returns_kept_def update_stop_def get_by_id_map_same)
qed (auto simp: returns_kept_def move_package_def)

lemma micro_pending_kept: "micro cx o_id Z s t \<Longrightarrow> ids_distinct s \<Longrightarrow> pending_kept Z s t"
proof (induction rule: micro.induct)
  case (m_package p st s)
  have "get_by_id (rid p) (\<lambda>_. True) (lf_parcels st) = Some p"
    using m_package by (intro get_by_id_distinct) (simp_all add: ids_distinct_def)
  then show ?case using m_package.hyps
    by (auto simp: pending_kept_def move_package_def set_package_status_def get_by_id_map_same may_move_def)
qed (auto simp: pending_kept_def move_stop_def)

lemma micro_jobs_unnamed: "micro cx o_id Z s t \<Longrightarrow> jobs_unnamed s t"
proof (induction rule: micro.induct)
  case (m_stop stop st s)
  show ?case unfolding jobs_unnamed_def move_stop_def set_stop_status_def
    by (simp add: append_delivery_stop_status_event_def record_delivery_stop_transition_def Let_def
        automation_request_def new_event_def py_str_def split: option.splits)
next
  case (m_order_event st b f t a)
  show ?case unfolding jobs_unnamed_def
    by (simp add: append_order_status_event_def record_order_transition_def Let_def
        automation_request_def new_event_def py_str_def split: option.splits)
qed (auto simp: jobs_unnamed_def move_package_def)

subsection \<open>Evidence images are numbered\<close>

definition images_numbered :: "evidence_image list \<Rightarrow> bool" where
  "images_numbered images \<longleftrightarrow> (\<forall>i. map ei_sort (filter (\<lambda>e. ei_stop e = i) images)
     = [1..<Suc (length (filter (\<lambda>e. ei_stop e = i) images))])"

lemma insert_evidence_images_Inr:
  "insert_evidence_images i n ks images = Inr images'
   \<Longrightarrow> images' = images @ map (\<lambda>(m, k). \<lparr>ei_stop = i, ei_key = k, ei_sort = m\<rparr>) (enumerate n ks)"
  by (induction i n ks images rule: insert_evidence_images.induct) (auto split: if_splits)

lemma evidence_of_stop:
  "filter (\<lambda>e. ei_stop e = j) (map (\<lambda>(m, k). \<lparr>ei_stop = i, ei_key = k, ei_sort = m\<rparr>) (enumerate n ks))
   = (if i = j then map (\<lambda>(m, k). \<lparr>ei_stop = i, ei_key = k, ei_sort = m\<rparr>) (enumerate n ks) else [])"
  by (induction ks arbitrary: n) auto

lemma evidence_sorts:
  "map ei_sort (map (\<lambda>(m, k). \<lparr>ei_stop = i, ei_key = k, ei_sort = m\<rparr>) (enumerate n ks)) = [n..<n + length ks]"
  by (induction ks arbitrary: n) (auto simp: upt_rec)

lemma numbers_continue: "[Suc 0..<Suc a] @ [Suc a..<Suc (a + b)] = [Suc 0..<Suc (a + b)]"
  using upt_add_eq_append [of "Suc 0" "Suc a" b] by simp

lemma insert_evidence_images_numbered:
  assumes "insert_evidence_images i (length (filter (\<lambda>e. ei_stop e = i) images) + 1) ks images = Inr images'"
    and "images_numbered images"
  shows "images_numbered images'"
  using assms(2) unfolding images_numbered_def insert_evidence_images_Inr [OF assms(1)]
  by (auto simp: evidence_of_stop evidence_sorts numbers_continue simp del: map_map upt_Suc)

subsection \<open>Good states\<close>

definition refs_ok :: "life_state \<Rightarrow> bool" where
  \<comment> \<open>a package on a stop belongs to the order of the stop\<close>
  "refs_ok st \<longleftrightarrow> (\<forall>p \<in> set (lf_parcels st). case pk_stop p of None \<Rightarrow> True
     | Some i \<Rightarrow> \<exists>s \<in> set (lf_stops st). rid s = i \<and> ls_order s = pk_order p)"

definition order_settled :: "string \<Rightarrow> life_state \<Rightarrow> bool" where
  "order_settled i st \<longleftrightarrow> (case resolve_order_status_from_packages (package_status_breakdown_for_order i st) of
     None \<Rightarrow> True | Some s \<Rightarrow> order_status_of i st = Some s)"

definition life_ok :: "life_state \<Rightarrow> bool" where
  "life_ok st \<longleftrightarrow> ids_distinct st \<and> refs_ok st \<and> images_numbered (lf_images st)
     \<and> (\<forall>r \<in> set (lf_orders st). order_settled (rid r) st)"

definition waiting_kept :: "life_state \<Rightarrow> life_state \<Rightarrow> bool" where
  \<comment> \<open>a package that awaits its return on a stop whose return is resolved\<close>
  "waiting_kept s t \<longleftrightarrow> (\<forall>i p j r. get_by_id i (\<lambda>_. True) (lf_parcels s) = Some p \<and> pk_status p = P_RETURN_INITIATED
     \<and> pk_stop p = Some j \<and> get_by_id j (\<lambda>_. True) (lf_stops s) = Some r \<and> ls_resolution r \<noteq> None
     \<longrightarrow> get_by_id i (\<lambda>_. True) (lf_parcels t) = Some p)"

lemma waiting_kept_trans:
  assumes "waiting_kept s t" "returns_kept {} s t" "waiting_kept t u"
  shows "waiting_kept s u"
  unfolding waiting_kept_def
proof (intro allI impI, elim conjE)
  fix i p j r
  assume p: "get_by_id i (\<lambda>_. True) (lf_parcels s) = Some p" "pk_status p = P_RETURN_INITIATED" "pk_stop p = Some j"
    and r: "get_by_id j (\<lambda>_. True) (lf_stops s) = Some r" "ls_resolution r \<noteq> None"
  have t: "get_by_id i (\<lambda>_. True) (lf_parcels t) = Some p" using assms(1) p r unfolding waiting_kept_def by blast
  obtain r' where r': "get_by_id j (\<lambda>_. True) (lf_stops t) = Some r'" "return_record r' = return_record r"
    using returns_keptD [OF assms(2) _ r] by auto
  have "ls_resolution r' \<noteq> None" using r(2) return_record_resolution [OF r'(2)] by simp
  then show "get_by_id i (\<lambda>_. True) (lf_parcels u) = Some p"
    using assms(3) t p(2,3) r'(1) unfolding waiting_kept_def by blast
qed

definition life_promise :: "life_state \<Rightarrow> life_state \<Rightarrow> bool" where
  "life_promise s t \<longleftrightarrow> same_keys s t \<and> package_log s t \<and> stop_log s t \<and> returns_kept {} s t \<and> jobs_unnamed s t
     \<and> waiting_kept s t"

definition life_action :: "life_ctx \<Rightarrow> string \<Rightarrow> life_state \<Rightarrow> life_state \<Rightarrow> bool" where
  "life_action cx o_id s t \<longleftrightarrow> (\<exists>Z. (micro cx o_id Z)\<^sup>*\<^sup>* s t \<and> order_settled o_id t
     \<and> (\<forall>i r. i \<in> Z \<and> get_by_id i (\<lambda>_. True) (lf_stops s) = Some r \<longrightarrow> ls_resolution r = None))"

lemma refs_ok_keys:
  "refs_ok st \<longleftrightarrow> (\<forall>k \<in> set (map parcel_key (lf_parcels st)). case snd (snd (snd (snd k))) of None \<Rightarrow> True
     | Some i \<Rightarrow> \<exists>l \<in> set (map stop_key (lf_stops st)). fst l = i \<and> fst (snd (snd l)) = fst (snd (snd (snd k))))"
  unfolding refs_ok_def by (simp add: parcel_key_def stop_key_def split: option.splits)

lemma same_keys_refs: "same_keys s t \<Longrightarrow> refs_ok t = refs_ok s"
  unfolding refs_ok_keys same_keys_def by (simp only: cong: option.case_cong)

lemma get_by_id_filter_other: "i \<noteq> j \<Longrightarrow> get_by_id i (\<lambda>_. True) (filter (\<lambda>r. rid r \<noteq> j) rows) = get_by_id i (\<lambda>_. True) rows"
  by (induction rows) auto

lemma filter_other_order: "i \<noteq> j \<Longrightarrow> filter (\<lambda>p. pk_order p = i) (filter (\<lambda>p. pk_order p \<noteq> j) ps) = filter (\<lambda>p. pk_order p = i) ps"
  by (induction ps) auto

lemma others_same_settled:
  assumes "others_same o_id s t" "i \<noteq> o_id"
  shows "order_settled i t = order_settled i s"
proof -
  have "package_status_breakdown_for_order i t = package_status_breakdown_for_order i s"
    using assms filter_other_order [OF assms(2)] unfolding others_same_def package_status_breakdown_for_order_def by metis
  moreover have "order_status_of i t = order_status_of i s"
    using assms get_by_id_filter_other [OF assms(2)] unfolding others_same_def order_status_of_def by metis
  ultimately show ?thesis unfolding order_settled_def by (simp split: option.splits)
qed

lemma micro_images: "micro cx o_id Z s t \<Longrightarrow> images_numbered (lf_images s) \<Longrightarrow> images_numbered (lf_images t)"
proof (induction rule: micro.induct)
  case (m_images i st ks images)
  then show ?case using insert_evidence_images_numbered by simp
qed (simp_all add: move_package_def move_stop_def)

lemma micro_run:
  assumes "(micro cx o_id Z)\<^sup>*\<^sup>* s t" "ids_distinct s"
  shows "same_keys s t \<and> others_same o_id s t \<and> package_log s t \<and> stop_log s t \<and> returns_kept Z s t
    \<and> jobs_unnamed s t \<and> pending_kept Z s t \<and> (images_numbered (lf_images s) \<longrightarrow> images_numbered (lf_images t))"
  using assms(1)
proof (induction rule: rtranclp_induct)
  case (step t u)
  then have "ids_distinct t" using same_keys_distinct assms(2) by blast
  with step show ?case
    using micro_same_keys micro_others_same micro_package_log micro_stop_log micro_returns_kept micro_jobs_unnamed
      micro_pending_kept pending_kept_trans micro_images same_keys_trans others_same_trans package_log_trans stop_log_trans returns_kept_trans
      jobs_unnamed_trans by meson
qed auto

lemma life_action_ok:
  assumes "life_action cx o_id s t" "life_ok s"
  shows "life_ok t \<and> life_promise s t"
proof -
  obtain Z where run: "(micro cx o_id Z)\<^sup>*\<^sup>* s t" and settled: "order_settled o_id t"
    and Z: "\<And>i r. i \<in> Z \<Longrightarrow> get_by_id i (\<lambda>_. True) (lf_stops s) = Some r \<Longrightarrow> ls_resolution r = None"
    using assms(1) unfolding life_action_def by blast
  have ok: "ids_distinct s" "refs_ok s" "images_numbered (lf_images s)"
    "\<And>r. r \<in> set (lf_orders s) \<Longrightarrow> order_settled (rid r) s" using assms(2) by (auto simp: life_ok_def)
  note facts = micro_run [OF run ok(1)]
  have "order_settled (rid r) t" if "r \<in> set (lf_orders t)" for r
  proof -
    have "map rid (lf_orders t) = map rid (lf_orders s)" using facts same_keys_ids(1) by blast
    then have "rid r \<in> set (map rid (lf_orders s))" using that by (metis image_eqI list.set_map)
    then have "order_settled (rid r) s" using ok(4) by auto
    then show ?thesis using settled others_same_settled [of o_id s t "rid r"] facts by (cases "rid r = o_id") auto
  qed
  moreover have "returns_kept {} s t" using facts Z unfolding returns_kept_def by (metis empty_iff)
  moreover have "waiting_kept s t" using facts Z unfolding waiting_kept_def pending_kept_def
    by (metis option.inject)
  ultimately show ?thesis
    unfolding life_ok_def life_promise_def
    using facts ok(3) same_keys_distinct [of s t] same_keys_refs [of s t] ok(1,2) by simp
qed

subsection \<open>The actions are sequences of micro steps\<close>

lemma micro_then: "(micro cx o_id Z)\<^sup>*\<^sup>* s t \<Longrightarrow> micro cx o_id Z t u \<Longrightarrow> (micro cx o_id Z)\<^sup>*\<^sup>* s u"
  by (rule rtranclp.rtrancl_into_rtrancl)

lemma recompute_run: "(micro cx o_id Z)\<^sup>*\<^sup>* st (recompute_order_status cx b o_id st)"
  unfolding recompute_order_status_def
  by (auto simp: Let_def split: option.splits
      intro!: micro_then [OF _ m_flush] micro_then [OF _ m_order_event] micro_then [OF _ m_order])

lemma breakdown_frame [simp]:
  "package_status_breakdown_for_order i (flush cx st) = package_status_breakdown_for_order i st"
  "package_status_breakdown_for_order i (set_order_status j os st) = package_status_breakdown_for_order i st"
  "package_status_breakdown_for_order i (append_order_status_event b j f t a st) = package_status_breakdown_for_order i st"
  "package_status_breakdown_for_order i (order_audit cx ac ty e r old new org ev st) = package_status_breakdown_for_order i st"
  by (simp_all add: package_status_breakdown_for_order_def)

lemma order_status_of_frame [simp]:
  "order_status_of i (flush cx st) = order_status_of i st"
  "order_status_of i (append_order_status_event b j f t a st) = order_status_of i st"
  "order_status_of i (order_audit cx ac ty e r old new org ev st) = order_status_of i st"
  by (simp_all add: order_status_of_def)

lemma order_status_of_set:
  "get_by_id i (\<lambda>_. True) (lf_orders st) = Some r \<Longrightarrow> order_status_of i (set_order_status i s st) = Some s"
  by (simp add: order_status_of_def set_order_status_def get_by_id_map_same)

lemma recompute_settled:
  assumes "get_by_id o_id (\<lambda>_. True) (lf_orders st) = Some r"
  shows "order_settled o_id (recompute_order_status cx b o_id st)"
proof (cases "resolve_order_status_from_packages (package_status_breakdown_for_order o_id st)")
  case None
  then show ?thesis using assms by (simp add: recompute_order_status_def order_settled_def)
next
  case (Some s)
  have "order_status_of o_id st = Some (lo_status r)" using assms by (simp add: order_status_of_def)
  then show ?thesis using Some assms order_status_of_set [OF assms]
    by (auto simp: recompute_order_status_def order_settled_def Let_def)
qed

lemma order_settled_audit [simp]: "order_settled i (order_audit cx ac ty e r old new org ev st) = order_settled i st"
  by (simp add: order_settled_def split: option.splits)

lemma micro_run_get_order:
  assumes "(micro cx o_id Z)\<^sup>*\<^sup>* s t" "ids_distinct s" "get_by_id i (\<lambda>_. True) (lf_orders s) = Some r"
  shows "\<exists>r'. get_by_id i (\<lambda>_. True) (lf_orders t) = Some r'"
proof -
  have "map rid (lf_orders t) = map rid (lf_orders s)" using micro_run [OF assms(1,2)] same_keys_ids(1) by blast
  moreover have "i \<in> set (map rid (lf_orders s))" using get_by_id_Some [OF assms(3)] by auto
  ultimately have "i \<in> rid ` set (lf_orders t)" by (metis list.set_map)
  then show ?thesis using get_by_id_None [of i "\<lambda>_. True" "lf_orders t"]
    by (cases "get_by_id i (\<lambda>_. True) (lf_orders t)") auto
qed

text \<open>The end of every action: the order status is derived anew and an audit row is written.\<close>

definition ended :: "life_ctx \<Rightarrow> string \<Rightarrow> life_state \<Rightarrow> life_state \<Rightarrow> bool" where
  "ended cx o_id t u \<longleftrightarrow> (\<exists>b a ty e rf old new org ev.
     u = order_audit cx a ty e rf old new org ev (recompute_order_status cx b o_id t))"

lemma ended_audit [simp]: "ended cx o_id t (order_audit cx a ty e rf old new org ev (recompute_order_status cx b o_id t))"
  unfolding ended_def by blast

lemma life_action_end:
  assumes run: "(micro cx o_id Z)\<^sup>*\<^sup>* s t" and u: "ended cx o_id t u" and ok: "life_ok s"
    and ord: "get_by_id o_id (\<lambda>_. True) (lf_orders s) = Some r"
    and Z: "\<And>i r. i \<in> Z \<Longrightarrow> get_by_id i (\<lambda>_. True) (lf_stops s) = Some r \<Longrightarrow> ls_resolution r = None"
  shows "life_action cx o_id s u"
proof -
  obtain b a ty e rf old new org ev where
    u: "u = order_audit cx a ty e rf old new org ev (recompute_order_status cx b o_id t)"
    using u unfolding ended_def by blast
  have "ids_distinct s" using ok by (simp add: life_ok_def)
  then obtain r' where "get_by_id o_id (\<lambda>_. True) (lf_orders t) = Some r'" using micro_run_get_order run ord by blast
  then have "order_settled o_id u" unfolding u by (simp add: recompute_settled)
  moreover have "(micro cx o_id Z)\<^sup>*\<^sup>* s u" unfolding u
    using micro_then [OF rtranclp_trans [OF run recompute_run] m_audit] .
  ultimately show ?thesis unfolding life_action_def using Z by (intro exI [of _ Z]) auto
qed

lemma move_package_keeps:
  "q \<in> set (lf_parcels st) \<Longrightarrow> rid q \<noteq> rid p \<Longrightarrow> q \<in> set (lf_parcels (move_package cx s p st))"
  by (auto simp: move_package_def set_package_status_def image_iff intro!: bexI [of _ q])

lemma distinct_head: "distinct (map rid (p # ps)) \<Longrightarrow> q \<in> set ps \<Longrightarrow> rid q \<noteq> rid p"
  by (metis distinct.simps(2) image_eqI list.map(2) list.set_map)

lemma move_packages_run:
  assumes "\<And>p. p \<in> set ps \<Longrightarrow> p \<in> set (lf_parcels st) \<and> pk_order p = o_id \<and> package_move (pk_status p) s
      \<and> may_move Z p"
    and "distinct (map rid ps)"
  shows "(micro cx o_id Z)\<^sup>*\<^sup>* st (move_packages cx s ps st)"
  using assms
proof (induction ps arbitrary: st)
  case (Cons p ps)
  have "(micro cx o_id Z)\<^sup>*\<^sup>* (move_package cx s p st) (move_packages cx s ps (move_package cx s p st))"
  proof (rule Cons.IH)
    show "q \<in> set (lf_parcels (move_package cx s p st)) \<and> pk_order q = o_id \<and> package_move (pk_status q) s \<and> may_move Z q"
      if "q \<in> set ps" for q
      using Cons.prems(1) [of q] that move_package_keeps [of q st p] distinct_head [OF Cons.prems(2) that] by simp
  qed (use Cons.prems in simp)
  moreover have "micro cx o_id Z st (move_package cx s p st)" using Cons.prems(1) by (intro m_package) auto
  ultimately show ?case by (simp add: move_packages_def converse_rtranclp_into_rtranclp)
qed (simp add: move_packages_def)

lemma move_packages_frame [simp]:
  "lf_orders (move_packages cx s ps st) = lf_orders st" "lf_stops (move_packages cx s ps st) = lf_stops st"
  "lf_images (move_packages cx s ps st) = lf_images st"
  by (induction ps arbitrary: st) (simp_all add: move_packages_def move_package_def)

lemma move_package_frame [simp]:
  "lf_orders (move_package cx s p st) = lf_orders st" "lf_stops (move_package cx s p st) = lf_stops st"
  "lf_images (move_package cx s p st) = lf_images st"
  by (simp_all add: move_package_def)

lemma cancellations_run:
  assumes "apply_package_cancellations cx ps st = Inr (st', affected)"
    and "\<And>p. p \<in> set ps \<Longrightarrow> p \<in> set (lf_parcels st) \<and> pk_order p = o_id" and "distinct (map rid ps)"
  shows "(micro cx o_id Z)\<^sup>*\<^sup>* st st' \<and> lf_stops st' = lf_stops st \<and> lf_orders st' = lf_orders st"
  using assms
proof (induction ps arbitrary: st affected)
  case Nil
  then show ?case by (auto intro: m_flush)
next
  case (Cons p ps)
  show ?case
  proof (cases "pk_status p = P_CANCELLED")
    case True
    with Cons show ?thesis by simp
  next
    case False
    with Cons.prems obtain rest where
      rest: "apply_package_cancellations cx ps (move_package cx P_CANCELLED p st) = Inr (st', rest)"
      and free: "pk_status p \<notin> set PACKAGE_STATUSES_BLOCKING_CANCELLATION"
      by (auto simp: move_package_def split: if_splits)
    have "(micro cx o_id Z)\<^sup>*\<^sup>* (move_package cx P_CANCELLED p st) st' \<and> lf_stops st' = lf_stops st \<and> lf_orders st' = lf_orders st"
    proof -
      have "q \<in> set (lf_parcels (move_package cx P_CANCELLED p st)) \<and> pk_order q = o_id" if "q \<in> set ps" for q
        using Cons.prems(2) [of q] that move_package_keeps [of q st p] distinct_head [OF Cons.prems(3) that] by simp
      then show ?thesis using Cons.IH [OF rest] Cons.prems(3) by simp
    qed
    moreover have "micro cx o_id Z st (move_package cx P_CANCELLED p st)"
      using Cons.prems(2) False free by (intro m_package package_move.cancel)
        (auto simp: may_move_def status_sets)
    ultimately show ?thesis by (auto intro: converse_rtranclp_into_rtranclp)
  qed
qed

lemma move_stop_frame [simp]:
  "lf_orders (move_stop cx s stop st) = lf_orders st" "lf_parcels (move_stop cx s stop st) = lf_parcels st"
  "lf_images (move_stop cx s stop st) = lf_images st"
  by (simp_all add: move_stop_def)

lemma mark_cancelled_move:
  "mark_delivery_stop_cancelled cx s st = (if ls_status s = S_CANCELLED then st else flush cx (move_stop cx S_CANCELLED s st))"
  by (simp add: mark_delivery_stop_cancelled_def move_stop_def)

lemma mark_cancelled_run:
  "s \<in> set (lf_stops st) \<Longrightarrow> distinct_ids (lf_stops st)
   \<Longrightarrow> (micro cx o_id Z)\<^sup>*\<^sup>* st (mark_delivery_stop_cancelled cx s st)"
  by (auto simp: mark_cancelled_move status_of_member intro!: micro_then [OF _ m_flush] micro_then [OF _ m_stop])

lemma mark_cancelled_keeps:
  "r \<in> set (lf_stops st) \<Longrightarrow> rid r \<noteq> rid s \<Longrightarrow> r \<in> set (lf_stops (mark_delivery_stop_cancelled cx s st))"
  by (auto simp: mark_cancelled_move move_stop_def set_stop_status_def update_stop_def image_iff intro!: bexI [of _ r])

lemma mark_cancelled_ids: "map rid (lf_stops (mark_delivery_stop_cancelled cx s st)) = map rid (lf_stops st)"
  by (simp add: mark_cancelled_move move_stop_def set_stop_status_def update_stop_def)

lemma mark_all_run:
  assumes "\<And>s. s \<in> set ss \<Longrightarrow> s \<in> set (lf_stops st)" "distinct (map rid ss)" "distinct_ids (lf_stops st)"
  shows "(micro cx o_id Z)\<^sup>*\<^sup>* st (fold (mark_delivery_stop_cancelled cx) ss st)"
  using assms
proof (induction ss arbitrary: st)
  case (Cons s ss)
  have "r \<in> set (lf_stops (mark_delivery_stop_cancelled cx s st))" if "r \<in> set ss" for r
    using Cons.prems(1) [of r] that mark_cancelled_keeps distinct_head [OF Cons.prems(2) that] by simp
  then have "(micro cx o_id Z)\<^sup>*\<^sup>* (mark_delivery_stop_cancelled cx s st)
      (fold (mark_delivery_stop_cancelled cx) ss (mark_delivery_stop_cancelled cx s st))"
    using Cons.prems mark_cancelled_ids by (intro Cons.IH) (auto simp: distinct_ids_def)
  moreover have "(micro cx o_id Z)\<^sup>*\<^sup>* st (mark_delivery_stop_cancelled cx s st)"
    using Cons.prems by (intro mark_cancelled_run) auto
  ultimately show ?case by (simp add: rtranclp_trans)
qed simp

lemma distinct_filter_ids: "distinct_ids rows \<Longrightarrow> distinct (map rid (filter P rows))"
  by (simp add: distinct_ids_def distinct_map_filter)

lemma distinct_order_packages:
  assumes "distinct_ids (lf_parcels st)" "distinct (map rid ss)"
  shows "distinct (map rid (concat (map (\<lambda>s. packages_of_stop o_id (rid s) st) ss)))"
  using assms(2)
proof (induction ss)
  case (Cons s ss)
  have "rid p \<noteq> rid q" if "p \<in> set (packages_of_stop o_id (rid s) st)" "r \<in> set ss"
      "q \<in> set (packages_of_stop o_id (rid r) st)" for p q r
  proof
    assume "rid p = rid q"
    have pq: "p \<in> set (lf_parcels st)" "q \<in> set (lf_parcels st)" "pk_stop p = Some (rid s)" "pk_stop q = Some (rid r)"
      using that by (simp_all add: packages_of_stop_def)
    have "p = q" by (rule distinct_ids_unique [OF assms(1) pq(1,2) \<open>rid p = rid q\<close>])
    then show False using pq(3,4) distinct_head [OF Cons.prems that(2)] by simp
  qed
  then have "rid ` set (packages_of_stop o_id (rid s) st)
      \<inter> rid ` set (concat (map (\<lambda>s. packages_of_stop o_id (rid s) st) ss)) = {}"
    unfolding set_concat set_map by blast
  moreover have "distinct (map rid (packages_of_stop o_id (rid s) st))"
    using assms(1) by (simp add: packages_of_stop_def distinct_filter_ids)
  ultimately show ?case using Cons by simp
qed simp

lemma get_order_tree_Inr [simp]:
  "get_order_tree_or_404 o_id st = Inr ord \<longleftrightarrow> get_by_id o_id (\<lambda>_. True) (lf_orders st) = Some ord"
  by (simp add: get_order_tree_or_404_def)

lemma get_by_id_rid: "get_by_id i scope rows = Some r \<Longrightarrow> rid r = i"
  by (simp add: get_by_id_Some)

lemma get_stop_with_order_Inr:
  "get_stop_with_order_or_404 s_id o_id st = Inr (stop, ord) \<longleftrightarrow>
     get_by_id s_id (\<lambda>_. True) (lf_stops st) = Some stop \<and> get_by_id o_id (\<lambda>_. True) (lf_orders st) = Some ord
     \<and> ls_order stop = o_id"
  by (auto simp: get_stop_with_order_or_404_def get_stop_with_order_def split: option.splits if_splits
      dest: get_by_id_rid) (metis get_by_id_rid)+

lemma get_package_Inr:
  "get_package_or_404 p_id o_id st = Inr (p, stop, ord) \<longleftrightarrow>
     get_by_id p_id (\<lambda>_. True) (lf_parcels st) = Some p \<and> get_by_id o_id (\<lambda>_. True) (lf_orders st) = Some ord
     \<and> pk_order p = o_id
     \<and> stop = (case pk_stop p of None \<Rightarrow> None | Some s_id \<Rightarrow> get_by_id s_id (\<lambda>_. True) (lf_stops st))"
  by (auto simp: get_package_or_404_def get_package_with_stop_and_order_def split: option.splits if_splits
      dest: get_by_id_rid) (metis get_by_id_rid)+

lemma refs_okD:
  "refs_ok st \<Longrightarrow> p \<in> set (lf_parcels st) \<Longrightarrow> pk_stop p = Some i
   \<Longrightarrow> \<exists>s \<in> set (lf_stops st). rid s = i \<and> ls_order s = pk_order p"
  unfolding refs_ok_def by (drule (1) bspec) simp

lemma packages_belong:
  assumes "life_ok st" "get_by_id s_id (\<lambda>_. True) (lf_stops st) = Some stop" "p \<in> set (lf_parcels st)" "pk_stop p = Some s_id"
  shows "pk_order p = ls_order stop"
proof -
  have ok: "refs_ok st" "distinct_ids (lf_stops st)" using assms(1) by (auto simp: life_ok_def ids_distinct_def)
  obtain s where "s \<in> set (lf_stops st)" "rid s = s_id" "ls_order s = pk_order p"
    using refs_okD [OF ok(1) assms(3,4)] by blast
  then show ?thesis using get_by_id_Some [OF assms(2)] distinct_ids_unique [OF ok(2), of s stop] by auto
qed

lemma eligible_run:
  assumes "life_ok st" "get_by_id s_id (\<lambda>_. True) (lf_stops st) = Some stop" "ls_order stop = o_id"
    and "\<And>a. a \<in> set statuses \<Longrightarrow> package_move a s" and "P_RETURN_INITIATED \<in> set statuses \<Longrightarrow> s_id \<in> Z"
  shows "(micro cx o_id Z)\<^sup>*\<^sup>* st (move_packages cx s (list_packages_by_stop_and_statuses s_id statuses st) st)"
proof (rule move_packages_run)
  show "distinct (map rid (list_packages_by_stop_and_statuses s_id statuses st))"
    using assms(1) by (simp add: list_packages_by_stop_and_statuses_def distinct_filter_ids life_ok_def ids_distinct_def)
qed (use assms packages_belong in \<open>auto simp: list_packages_by_stop_and_statuses_def may_move_def\<close>)

lemma resettle_run:
  "stop_status_of (rid stop) st = Some (ls_status stop) \<Longrightarrow> (micro cx o_id Z)\<^sup>*\<^sup>* st (resettle_stop cx a stop st)"
  by (auto simp: resettle_stop_def split: option.splits intro: m_stop)

lemma return_initiated_run: "(micro cx o_id Z)\<^sup>*\<^sup>* st (mark_return_initiated cx stop st)"
  by (auto simp: mark_return_initiated_def stop_key_def return_record_def intro!: r_into_rtranclp m_fields)

lemma scheduled_run: "(micro cx o_id Z)\<^sup>*\<^sup>* st (update_stop i (\<lambda>r. r\<lparr>ls_scheduled_for := d\<rparr>) st)"
  by (auto simp: stop_key_def return_record_def intro!: r_into_rtranclp m_fields)

lemma resolution_run: "i \<in> Z \<Longrightarrow> (micro cx o_id Z)\<^sup>*\<^sup>* st (update_stop i (set_resolution cx r) st)"
  "i \<in> Z \<Longrightarrow> (micro cx o_id Z)\<^sup>*\<^sup>* st (update_stop i (set_return_details rr) st)"
  "i \<in> Z \<Longrightarrow> (micro cx o_id Z)\<^sup>*\<^sup>* st (update_stop i (set_return_details rr \<circ> set_resolution cx r) st)"
  by (auto simp: stop_key_def set_resolution_def set_return_details_def intro!: r_into_rtranclp m_fields)

lemma store_evidence_run: "store_evidence cx n i st = Inr st' \<Longrightarrow> (micro cx o_id Z)\<^sup>*\<^sup>* st st'"
  unfolding store_evidence_def by (auto split: if_splits intro!: r_into_rtranclp m_images)

lemma stop_status_of_get:
  "get_by_id i (\<lambda>_. True) (lf_stops st) = Some s \<Longrightarrow> stop_status_of (rid s) st = Some (ls_status s)"
  using get_by_id_Some [of i "\<lambda>_. True" "lf_stops st" s] by (simp add: stop_status_of_def)

lemma cancel_order_action:
  assumes "cancel_order cx user q notes_text o_id st = Inr (st', r)" "life_ok st"
  shows "life_action cx o_id st st'"
proof -
  let ?ss = "order_stops o_id st"
  let ?ps = "concat (map (\<lambda>s. packages_of_stop o_id (rid s) st) ?ss)"
  obtain ord st1 affected where ord: "get_by_id o_id (\<lambda>_. True) (lf_orders st) = Some ord"
      and c: "apply_package_cancellations cx ?ps st = Inr (st1, affected)"
      and st': "ended cx o_id (fold (mark_delivery_stop_cancelled cx) ?ss st1) st'"
    using assms(1) by (auto simp: cancel_order_def Let_def split: if_splits)
  have ids: "distinct_ids (lf_stops st)" "distinct_ids (lf_parcels st)"
    using assms(2) by (auto simp: life_ok_def ids_distinct_def)
  have ss: "distinct (map rid ?ss)" using ids(1) by (simp add: order_stops_def distinct_filter_ids)
  have run1: "(micro cx o_id {})\<^sup>*\<^sup>* st st1 \<and> lf_stops st1 = lf_stops st \<and> lf_orders st1 = lf_orders st"
    by (rule cancellations_run [OF c _ distinct_order_packages [OF ids(2) ss]]) (auto simp: packages_of_stop_def)
  have "(micro cx o_id {})\<^sup>*\<^sup>* st1 (fold (mark_delivery_stop_cancelled cx) ?ss st1)"
    using run1 ids ss by (intro mark_all_run) (auto simp: order_stops_def)
  then have "(micro cx o_id {})\<^sup>*\<^sup>* st (fold (mark_delivery_stop_cancelled cx) ?ss st1)"
    using run1 by (blast intro: rtranclp_trans)
  then show ?thesis using st' assms(2) ord by (rule life_action_end) simp
qed

lemma cancel_stop_action:
  assumes "cancel_delivery_stop cx user q notes_text o_id s_id st = Inr (st', r)" "life_ok st"
  shows "life_action cx o_id st st'"
proof -
  obtain ord s where ord: "get_by_id o_id (\<lambda>_. True) (lf_orders st) = Some ord"
      and s: "find (\<lambda>s. rid s = s_id) (order_stops o_id st) = Some s"
      and alt: "st' = st \<or> (\<exists>st1 affected. apply_package_cancellations cx (packages_of_stop o_id s_id st) st = Inr (st1, affected)
        \<and> ended cx o_id (mark_delivery_stop_cancelled cx s st1) st')"
    using assms(1) by (fastforce simp: cancel_delivery_stop_def Let_def split: if_splits option.splits)
  have ids: "distinct_ids (lf_stops st)" "distinct_ids (lf_parcels st)"
    using assms(2) by (auto simp: life_ok_def ids_distinct_def)
  from alt show ?thesis
  proof (elim disjE exE conjE)
    assume "st' = st"
    moreover have "order_settled o_id st"
      using assms(2) get_by_id_Some [OF ord] by (auto simp: life_ok_def)
    ultimately show ?thesis unfolding life_action_def by (intro exI [of _ "{}"]) auto
  next
    fix st1 affected
    assume c: "apply_package_cancellations cx (packages_of_stop o_id s_id st) st = Inr (st1, affected)"
      and st': "ended cx o_id (mark_delivery_stop_cancelled cx s st1) st'"
    have run1: "(micro cx o_id {})\<^sup>*\<^sup>* st st1 \<and> lf_stops st1 = lf_stops st \<and> lf_orders st1 = lf_orders st"
      using c by (rule cancellations_run) (auto simp: packages_of_stop_def distinct_filter_ids ids)
    have "s \<in> set (lf_stops st)" using find_Some_set [OF s] by (simp add: order_stops_def)
    then have "(micro cx o_id {})\<^sup>*\<^sup>* st1 (mark_delivery_stop_cancelled cx s st1)"
      using run1 ids by (intro mark_cancelled_run) auto
    then have "(micro cx o_id {})\<^sup>*\<^sup>* st (mark_delivery_stop_cancelled cx s st1)"
      using run1 by (blast intro: rtranclp_trans)
    then show ?thesis using st' assms(2) ord by (rule life_action_end) simp
  qed
qed

text \<open>Runs of micro steps that the actions on a stop and on a package share.\<close>

lemma stop_status_of_shared [simp]:
  "stop_status_of i (move_packages cx s ps st) = stop_status_of i st"
  "stop_status_of i (move_package cx s p st) = stop_status_of i st"
  "stop_status_of i (update_stop j (\<lambda>r. r\<lparr>ls_scheduled_for := d\<rparr>) st) = stop_status_of i st"
  "stop_status_of i (update_stop j (set_resolution cx rs) st) = stop_status_of i st"
  by (simp_all add: stop_status_of_def [of _ "move_packages cx s ps st"] stop_status_of_def [of _ st]
      stop_status_of_def [of _ "move_package cx s p st"] stop_status_of_update set_resolution_def)

lemma flushed: "(micro cx o_id Z)\<^sup>*\<^sup>* s t \<Longrightarrow> (micro cx o_id Z)\<^sup>*\<^sup>* s (flush cx t)"
  by (rule micro_then [OF _ m_flush])

lemma moved_stop:
  "(micro cx o_id Z)\<^sup>*\<^sup>* s t \<Longrightarrow> stop_status_of (rid stop) t = Some (ls_status stop)
   \<Longrightarrow> (micro cx o_id Z)\<^sup>*\<^sup>* s (move_stop cx a stop t)"
  by (rule micro_then [OF _ m_stop])

lemma moved_package_run:
  assumes "get_by_id p_id (\<lambda>_. True) (lf_parcels st) = Some p" "pk_order p = o_id" "package_move (pk_status p) s"
    and "may_move Z p"
  shows "(micro cx o_id Z)\<^sup>*\<^sup>* st (move_package cx s p st)"
  using assms get_by_id_Some [OF assms(1)] by (intro r_into_rtranclp m_package) auto

lemma resettled:
  "(micro cx o_id Z)\<^sup>*\<^sup>* s t \<Longrightarrow> stop_status_of (rid stop) t = Some (ls_status stop)
   \<Longrightarrow> (micro cx o_id Z)\<^sup>*\<^sup>* s (resettle_stop cx a stop t)"
  by (rule rtranclp_trans [OF _ resettle_run])

lemma reschedule_stop_action:
  assumes "reschedule_stop cx s_id d o_id st = Inr (st', r)" "life_ok st"
  shows "life_action cx o_id st st'"
proof -
  let ?ps = "list_packages_by_stop_and_statuses s_id RESCHEDULABLE_PACKAGE_STATUSES st"
  let ?st3 = "\<lambda>stop. flush cx (move_stop cx S_DELIVERY_SCHEDULED stop
        (update_stop s_id (\<lambda>r. r\<lparr>ls_scheduled_for := Some d\<rparr>) (move_packages cx P_AT_WAREHOUSE ?ps st)))"
  obtain stop ord where so: "get_by_id s_id (\<lambda>_. True) (lf_stops st) = Some stop"
      "get_by_id o_id (\<lambda>_. True) (lf_orders st) = Some ord" "ls_order stop = o_id"
      and st': "ended cx o_id (?st3 stop) st'"
    using assms(1) by (auto simp: reschedule_stop_def Let_def get_stop_with_order_Inr split: if_splits)
  have "(micro cx o_id {})\<^sup>*\<^sup>* st (move_packages cx P_AT_WAREHOUSE ?ps st)"
    by (rule eligible_run [OF assms(2) so(1,3)]) (auto simp: status_sets intro: package_move.reschedule [unfolded status_sets])
  then have "(micro cx o_id {})\<^sup>*\<^sup>* st (?st3 stop)"
    by (intro flushed moved_stop rtranclp_trans [OF _ scheduled_run]) (simp_all add: stop_status_of_get [OF so(1)])
  then show ?thesis using st' assms(2) so(2) by (rule life_action_end) simp
qed

lemma stop_return_action:
  assumes "initiate_stop_return cx s_id o_id st = Inr (st', r)" "life_ok st"
  shows "life_action cx o_id st st'"
proof -
  let ?ps = "list_packages_by_stop_and_statuses s_id RETURNABLE_PACKAGE_STATUSES st"
  let ?st2 = "\<lambda>stop. flush cx (mark_return_initiated cx stop (resettle_stop cx S_RETURN_INITIATED stop
        (flush cx (move_packages cx P_RETURN_INITIATED ?ps st))))"
  obtain stop ord where so: "get_by_id s_id (\<lambda>_. True) (lf_stops st) = Some stop"
      "get_by_id o_id (\<lambda>_. True) (lf_orders st) = Some ord" "ls_order stop = o_id"
      and st': "ended cx o_id (?st2 stop) st'"
    using assms(1) by (auto simp: initiate_stop_return_def Let_def get_stop_with_order_Inr split: if_splits)
  have "(micro cx o_id {})\<^sup>*\<^sup>* st (move_packages cx P_RETURN_INITIATED ?ps st)"
    by (rule eligible_run [OF assms(2) so(1,3)]) (auto simp: status_sets intro: package_move.start_return [unfolded status_sets])
  then have "(micro cx o_id {})\<^sup>*\<^sup>* st (?st2 stop)"
    by (intro flushed resettled rtranclp_trans [OF _ return_initiated_run]) (simp_all add: stop_status_of_get [OF so(1)])
  then show ?thesis using st' assms(2) so(2) by (rule life_action_end) simp
qed

lemma stop_found_action:
  assumes "mark_stop_as_found cx s_id o_id st = Inr (st', r)" "life_ok st"
  shows "life_action cx o_id st st'"
proof -
  let ?ps = "list_packages_by_stop_and_statuses s_id [P_MISSING] st"
  let ?st2 = "\<lambda>stop. flush cx (resettle_stop cx (ls_status stop) stop (flush cx (move_packages cx P_AT_WAREHOUSE ?ps st)))"
  obtain stop ord where so: "get_by_id s_id (\<lambda>_. True) (lf_stops st) = Some stop"
      "get_by_id o_id (\<lambda>_. True) (lf_orders st) = Some ord" "ls_order stop = o_id"
      and st': "ended cx o_id (?st2 stop) st'"
    using assms(1) by (auto simp: mark_stop_as_found_def Let_def get_stop_with_order_Inr split: if_splits)
  have "(micro cx o_id {})\<^sup>*\<^sup>* st (move_packages cx P_AT_WAREHOUSE ?ps st)"
    by (rule eligible_run [OF assms(2) so(1,3)]) (auto intro: package_move.found)
  then have "(micro cx o_id {})\<^sup>*\<^sup>* st (?st2 stop)"
    by (intro flushed resettled) (simp_all add: stop_status_of_get [OF so(1)])
  then show ?thesis using st' assms(2) so(2) by (rule life_action_end) simp
qed

lemma package_stop_status:
  "x = Some s \<Longrightarrow> x = (case pk_stop p of None \<Rightarrow> None | Some s_id \<Rightarrow> get_by_id s_id (\<lambda>_. True) (lf_stops st))
   \<Longrightarrow> stop_status_of (rid s) st = Some (ls_status s)"
  using stop_status_of_get [of _ st s] by (auto split: option.splits)

lemma package_stop_id:
  "Some s = (case pk_stop p of None \<Rightarrow> None | Some s_id \<Rightarrow> get_by_id s_id (\<lambda>_. True) (lf_stops st))
   \<Longrightarrow> pk_stop p = Some (rid s)"
  using get_by_id_rid [of _ "\<lambda>_. True" "lf_stops st" s] by (auto split: option.splits)

lemma package_return_action:
  assumes "initiate_package_return cx p_id o_id st = Inr (st', r)" "life_ok st"
  shows "life_action cx o_id st st'"
proof -
  let ?st1 = "\<lambda>p. flush cx (move_package cx P_RETURN_INITIATED p st)"
  let ?st2 = "\<lambda>p stop. case stop of None \<Rightarrow> ?st1 p | Some s \<Rightarrow>
      flush cx (mark_return_initiated cx s (resettle_stop cx S_RETURN_INITIATED s (?st1 p)))"
  obtain p stop ord where po: "get_by_id p_id (\<lambda>_. True) (lf_parcels st) = Some p"
      "get_by_id o_id (\<lambda>_. True) (lf_orders st) = Some ord" "pk_order p = o_id"
      "stop = (case pk_stop p of None \<Rightarrow> None | Some s_id \<Rightarrow> get_by_id s_id (\<lambda>_. True) (lf_stops st))"
      "pk_status p \<in> set RETURNABLE_PACKAGE_STATUSES" and st': "ended cx o_id (?st2 p stop) st'"
    using assms(1) by (auto simp: initiate_package_return_def Let_def get_package_Inr split: if_splits)
  have "(micro cx o_id {})\<^sup>*\<^sup>* st (?st1 p)"
    by (intro flushed moved_package_run [OF po(1,3)] package_move.start_return po(5))
      (use po(5) in \<open>auto simp: may_move_def status_sets\<close>)
  then have "(micro cx o_id {})\<^sup>*\<^sup>* st (?st2 p stop)"
    using package_stop_status [OF _ po(4)]
    by (auto split: option.split intro!: flushed resettled rtranclp_trans [OF _ return_initiated_run])
  then show ?thesis using st' assms(2) po(2) by (rule life_action_end) simp
qed

lemma package_found_action:
  assumes "mark_package_as_found cx p_id o_id st = Inr (st', r)" "life_ok st"
  shows "life_action cx o_id st st'"
proof -
  let ?st1 = "\<lambda>p. flush cx (move_package cx P_AT_WAREHOUSE p st)"
  let ?st2 = "\<lambda>p stop. case stop of None \<Rightarrow> ?st1 p | Some s \<Rightarrow> flush cx (resettle_stop cx (ls_status s) s (?st1 p))"
  obtain p stop ord where po: "get_by_id p_id (\<lambda>_. True) (lf_parcels st) = Some p"
      "get_by_id o_id (\<lambda>_. True) (lf_orders st) = Some ord" "pk_order p = o_id"
      "stop = (case pk_stop p of None \<Rightarrow> None | Some s_id \<Rightarrow> get_by_id s_id (\<lambda>_. True) (lf_stops st))"
      "pk_status p = P_MISSING" and st': "ended cx o_id (?st2 p stop) st'"
    using assms(1) by (auto simp: mark_package_as_found_def Let_def get_package_Inr split: if_splits)
  have "(micro cx o_id {})\<^sup>*\<^sup>* st (?st1 p)"
    using package_move.found po(5) by (intro flushed moved_package_run [OF po(1,3)]) (simp_all add: may_move_def)
  then have "(micro cx o_id {})\<^sup>*\<^sup>* st (?st2 p stop)"
    using package_stop_status [OF _ po(4)] by (auto split: option.split intro!: flushed resettled)
  then show ?thesis using st' assms(2) po(2) by (rule life_action_end) simp
qed

lemma reschedule_package_action:
  assumes "reschedule_package cx p_id d o_id st = Inr (st', r)" "life_ok st"
  shows "life_action cx o_id st st'"
proof -
  let ?st3 = "\<lambda>p stop. flush cx (move_stop cx S_DELIVERY_SCHEDULED stop
        (update_stop (rid stop) (\<lambda>r. r\<lparr>ls_scheduled_for := Some d\<rparr>) (move_package cx P_AT_WAREHOUSE p st)))"
  obtain p stop ord where po: "get_by_id p_id (\<lambda>_. True) (lf_parcels st) = Some p"
      "get_by_id o_id (\<lambda>_. True) (lf_orders st) = Some ord" "pk_order p = o_id"
      "Some stop = (case pk_stop p of None \<Rightarrow> None | Some s_id \<Rightarrow> get_by_id s_id (\<lambda>_. True) (lf_stops st))"
      "pk_status p \<in> set RESCHEDULABLE_PACKAGE_STATUSES" and st': "ended cx o_id (?st3 p stop) st'"
    using assms(1) by (auto simp: reschedule_package_def Let_def get_package_Inr split: if_splits option.splits)
  have "(micro cx o_id {})\<^sup>*\<^sup>* st (?st3 p stop)"
    using package_stop_status [OF refl po(4)]
    by (intro flushed moved_stop rtranclp_trans [OF _ scheduled_run] moved_package_run [OF po(1,3)]
        package_move.reschedule po(5)) (use po(5) in \<open>auto simp: may_move_def status_sets\<close>)
  then show ?thesis using st' assms(2) po(2) by (rule life_action_end) simp
qed

lemma return_status_move:
  "a \<in> set RESOLVABLE_RETURN_PACKAGE_STATUSES \<Longrightarrow> package_move a (return_package_status r)"
  by (cases r) (auto simp: return_package_status_def intro: package_move.send_back package_move.dispose)

lemma resolve_stop_action:
  assumes "resolve_stop_return cx s_id rr o_id st = Inr (st', r)" "life_ok st"
  shows "life_action cx o_id st st'"
proof -
  let ?ps = "list_packages_by_stop_and_statuses s_id RESOLVABLE_RETURN_PACKAGE_STATUSES st"
  let ?st1 = "move_packages cx (return_package_status (rr_resolution rr)) ?ps st"
  let ?st3 = "\<lambda>stop. flush cx (update_stop s_id (set_return_details rr)
      (move_stop cx (return_stop_status (rr_resolution rr)) stop (update_stop s_id (set_resolution cx (rr_resolution rr)) ?st1)))"
  obtain stop ord st4 where so: "get_by_id s_id (\<lambda>_. True) (lf_stops st) = Some stop"
      "get_by_id o_id (\<lambda>_. True) (lf_orders st) = Some ord" "ls_order stop = o_id" "ls_resolution stop = None"
      and st4: "store_evidence cx (rr_images rr) s_id (?st3 stop) = Inr st4" and st': "ended cx o_id st4 st'"
    using assms(1) by (auto simp: resolve_stop_return_def Let_def get_stop_with_order_Inr split: if_splits)
  have "(micro cx o_id {s_id})\<^sup>*\<^sup>* st ?st1"
    by (rule eligible_run [OF assms(2) so(1,3)]) (auto intro: return_status_move)
  then have "(micro cx o_id {s_id})\<^sup>*\<^sup>* st (?st3 stop)"
    by (intro flushed moved_stop rtranclp_trans [OF _ resolution_run(1)] rtranclp_trans [OF _ resolution_run(2)])
      (simp_all add: stop_status_of_get [OF so(1)])
  then have "(micro cx o_id {s_id})\<^sup>*\<^sup>* st st4" using store_evidence_run [OF st4] by (rule rtranclp_trans)
  then show ?thesis using st' assms(2) so(2) by (rule life_action_end) (use so(1,4) in auto)
qed

lemma resolve_stop_of_package_run:
  assumes "stop_status_of (rid stop) st = Some (ls_status stop)"
  shows "(micro cx o_id {rid stop})\<^sup>*\<^sup>* st (resolve_stop_of_package cx rr stop st)"
proof -
  have "(micro cx o_id {rid stop})\<^sup>*\<^sup>* st (flush cx (resettle_stop cx (ls_status stop) stop st))"
    using assms by (intro flushed resettle_run)
  then show ?thesis unfolding resolve_stop_of_package_def Let_def
    by (auto intro!: flushed rtranclp_trans [OF _ resolution_run(3)])
qed

lemma resolve_package_action:
  assumes "resolve_package_return cx p_id rr o_id st = Inr (st', r)" "life_ok st"
  shows "life_action cx o_id st st'"
proof -
  let ?st1 = "\<lambda>p. flush cx (move_package cx (return_package_status (rr_resolution rr)) p st)"
  obtain p stop ord st4 where po: "get_by_id p_id (\<lambda>_. True) (lf_parcels st) = Some p"
      "get_by_id o_id (\<lambda>_. True) (lf_orders st) = Some ord" "pk_order p = o_id"
      "Some stop = (case pk_stop p of None \<Rightarrow> None | Some s_id \<Rightarrow> get_by_id s_id (\<lambda>_. True) (lf_stops st))"
      "pk_status p \<in> set RESOLVABLE_RETURN_PACKAGE_STATUSES" "ls_resolution stop = None"
      and st4: "store_evidence cx (rr_images rr) (rid stop) (resolve_stop_of_package cx rr stop (?st1 p)) = Inr st4"
      and st': "ended cx o_id st4 st'"
    using assms(1) by (auto simp: resolve_package_return_def Let_def get_package_Inr split: if_splits option.splits)
  have "(micro cx o_id {rid stop})\<^sup>*\<^sup>* st (?st1 p)"
    by (intro flushed moved_package_run [OF po(1,3)] return_status_move po(5))
      (use package_stop_id [OF po(4)] in \<open>simp add: may_move_def\<close>)
  moreover have "stop_status_of (rid stop) (?st1 p) = Some (ls_status stop)"
    using package_stop_status [OF refl po(4)] by simp
  ultimately have "(micro cx o_id {rid stop})\<^sup>*\<^sup>* st st4"
    using rtranclp_trans [OF rtranclp_trans [OF _ resolve_stop_of_package_run] store_evidence_run [OF st4]] by blast
  moreover have "get_by_id (rid stop) (\<lambda>_. True) (lf_stops st) = Some stop"
    using po(4) get_by_id_rid by (metis option.case_eq_if option.distinct(1))
  ultimately show ?thesis using st' assms(2) po(2) po(6) by (intro life_action_end) auto
qed

subsection \<open>Runs of actions\<close>

inductive life_step :: "life_state \<Rightarrow> life_state \<Rightarrow> bool" where
  "cancel_order cx user q n o_id st = Inr (st', r1) \<Longrightarrow> life_step st st'"
| "cancel_delivery_stop cx user q n o_id s_id st = Inr (st', r2) \<Longrightarrow> life_step st st'"
| "reschedule_stop cx s_id d o_id st = Inr (st', r3) \<Longrightarrow> life_step st st'"
| "reschedule_package cx p_id d o_id st = Inr (st', r4) \<Longrightarrow> life_step st st'"
| "initiate_package_return cx p_id o_id st = Inr (st', r4) \<Longrightarrow> life_step st st'"
| "initiate_stop_return cx s_id o_id st = Inr (st', r3) \<Longrightarrow> life_step st st'"
| "mark_package_as_found cx p_id o_id st = Inr (st', r4) \<Longrightarrow> life_step st st'"
| "mark_stop_as_found cx s_id o_id st = Inr (st', r3) \<Longrightarrow> life_step st st'"
| "resolve_stop_return cx s_id rr o_id st = Inr (st', r5) \<Longrightarrow> life_step st st'"
| "resolve_package_return cx p_id rr o_id st = Inr (st', r5) \<Longrightarrow> life_step st st'"

lemmas life_actions = cancel_order_action cancel_stop_action reschedule_stop_action reschedule_package_action
  package_return_action stop_return_action package_found_action stop_found_action resolve_stop_action resolve_package_action

lemma life_step_action: "life_step st st' \<Longrightarrow> life_ok st \<Longrightarrow> \<exists>cx o_id. life_action cx o_id st st'"
  by (induction rule: life_step.induct) (blast intro: life_actions)+

interpretation parcels: guarded_machine life_step life_ok life_promise
proof
  fix s t u
  show "life_ok s \<Longrightarrow> life_step s t \<Longrightarrow> life_ok t" using life_step_action life_action_ok by blast
  show "life_ok s \<Longrightarrow> life_step s t \<Longrightarrow> life_promise s t" using life_step_action life_action_ok by blast
  show "life_promise s s" by (simp add: life_promise_def waiting_kept_def)
  show "life_promise s t \<Longrightarrow> life_promise t u \<Longrightarrow> life_promise s u"
    unfolding life_promise_def
    by (meson same_keys_trans package_log_trans stop_log_trans returns_kept_trans jobs_unnamed_trans
        waiting_kept_trans)
qed

subsection \<open>What a cancellation writes\<close>

lemma mark_ids_union:
  assumes "\<And>r. r \<in> set rows \<Longrightarrow> rid r = i \<Longrightarrow> f r = r"
  shows "map (\<lambda>r. if rid r \<in> A then f r else r) rows = map (\<lambda>r. if rid r \<in> insert i A then f r else r) rows"
  by (rule map_cong) (use assms in auto)

lemma mark_ids_twice:
  "(\<And>r. rid (f r) = rid r) \<Longrightarrow> (\<And>r. f (f r) = f r) \<Longrightarrow>
   map (\<lambda>r. if rid r \<in> A then f r else r) (map (\<lambda>r. if rid r = i then f r else r) rows)
   = map (\<lambda>r. if rid r \<in> insert i A then f r else r) rows"
  by (induction rows) auto

abbreviation cancelled_parcel :: "parcel \<Rightarrow> parcel" where
  "cancelled_parcel p \<equiv> p\<lparr>pk_status := P_CANCELLED\<rparr>"

abbreviation cancelled_stop :: "life_stop \<Rightarrow> life_stop" where
  "cancelled_stop s \<equiv> s\<lparr>ls_status := S_CANCELLED\<rparr>"

lemma cancellations_succeed:
  "(\<exists>st' affected. apply_package_cancellations cx ps st = Inr (st', affected)) \<longleftrightarrow>
     (\<forall>p \<in> set ps. pk_status p \<notin> set PACKAGE_STATUSES_BLOCKING_CANCELLATION)"
  by (induction ps arbitrary: st) (auto simp: status_sets split: if_splits)

lemma move_package_parcels:
  "lf_parcels (move_package cx s p st) = map (\<lambda>r. if rid r = rid p then r\<lparr>pk_status := s\<rparr> else r) (lf_parcels st)"
  by (simp add: move_package_def set_package_status_def)

lemma cancellations_write:
  assumes "apply_package_cancellations cx ps st = Inr (st', affected)"
    and "\<And>p. p \<in> set ps \<Longrightarrow> p \<in> set (lf_parcels st)" "distinct (map rid ps)" "distinct_ids (lf_parcels st)"
  shows "lf_parcels st' = map (\<lambda>r. if rid r \<in> rid ` set ps then cancelled_parcel r else r) (lf_parcels st)
    \<and> lf_stops st' = lf_stops st"
  using assms
proof (induction ps arbitrary: st affected)
  case (Cons p ps)
  show ?case
  proof (cases "pk_status p = P_CANCELLED")
    case True
    have "cancelled_parcel r = r" if "r \<in> set (lf_parcels st)" "rid r = rid p" for r
      using distinct_ids_unique [OF Cons.prems(4) that(1) _ that(2)] Cons.prems(2) [of p] True by simp
    then have "map (\<lambda>r. if rid r \<in> rid ` set ps then cancelled_parcel r else r) (lf_parcels st)
        = map (\<lambda>r. if rid r \<in> insert (rid p) (rid ` set ps) then cancelled_parcel r else r) (lf_parcels st)"
      by (rule mark_ids_union)
    then show ?thesis using Cons True by simp
  next
    case False
    with Cons.prems(1) obtain rest where
      rest: "apply_package_cancellations cx ps (move_package cx P_CANCELLED p st) = Inr (st', rest)"
      by (auto simp: move_package_def split: if_splits)
    have "q \<in> set (lf_parcels (move_package cx P_CANCELLED p st))" if "q \<in> set ps" for q
      using Cons.prems(2) [of q] that move_package_keeps [of q st p] distinct_head [OF Cons.prems(3) that] by simp
    moreover have "distinct_ids (lf_parcels (move_package cx P_CANCELLED p st))"
      using Cons.prems(4) by (simp add: distinct_ids_def move_package_parcels comp_def if_distrib cong: if_cong)
    ultimately show ?thesis using Cons.IH [OF rest] Cons.prems(3)
      by (simp add: move_package_parcels mark_ids_twice del: map_map)
  qed
qed auto

lemma mark_all_write:
  assumes "\<And>s. s \<in> set ss \<Longrightarrow> s \<in> set (lf_stops st)" "distinct (map rid ss)" "distinct_ids (lf_stops st)"
  shows "lf_stops (fold (mark_delivery_stop_cancelled cx) ss st)
      = map (\<lambda>r. if rid r \<in> rid ` set ss then cancelled_stop r else r) (lf_stops st)
    \<and> lf_parcels (fold (mark_delivery_stop_cancelled cx) ss st) = lf_parcels st"
  using assms
proof (induction ss arbitrary: st)
  case (Cons s ss)
  let ?t = "mark_delivery_stop_cancelled cx s st"
  have one: "lf_stops ?t = map (\<lambda>r. if rid r = rid s then cancelled_stop r else r) (lf_stops st)"
  proof (cases "ls_status s = S_CANCELLED")
    case True
    have "r = s \<and> cancelled_stop s = s" if "r \<in> set (lf_stops st)" "rid r = rid s" for r
      using distinct_ids_unique [OF Cons.prems(3) that(1) _ that(2)] Cons.prems(1) [of s] True by simp
    then have "map (\<lambda>r. if rid r = rid s then cancelled_stop r else r) (lf_stops st) = lf_stops st"
      by (intro map_idI) auto
    then show ?thesis using True by (simp add: mark_delivery_stop_cancelled_def)
  qed (simp add: mark_cancelled_move move_stop_def set_stop_status_def update_stop_def)
  have "r \<in> set (lf_stops ?t)" if "r \<in> set ss" for r
    using Cons.prems(1) [of r] that mark_cancelled_keeps distinct_head [OF Cons.prems(2) that] by simp
  moreover have "distinct_ids (lf_stops ?t)" using Cons.prems(3) mark_cancelled_ids by (simp add: distinct_ids_def)
  moreover have "lf_parcels ?t = lf_parcels st" by (simp add: mark_cancelled_move)
  ultimately show ?case using Cons.IH [of ?t] Cons.prems(2) by (simp add: one mark_ids_twice del: map_map)
qed simp

lemma recompute_frame [simp]:
  "lf_stops (recompute_order_status cx b o_id st) = lf_stops st"
  "lf_parcels (recompute_order_status cx b o_id st) = lf_parcels st"
  unfolding recompute_order_status_def by (auto simp: Let_def split: option.splits)

definition order_packages :: "string \<Rightarrow> life_state \<Rightarrow> parcel list" where
  \<comment> \<open>the packages of an order that are on a stop\<close>
  "order_packages o_id st = filter (\<lambda>p. pk_order p = o_id \<and> pk_stop p \<noteq> None) (lf_parcels st)"

lemma order_packages_via_stops:
  assumes "life_ok st"
  shows "set (concat (map (\<lambda>s. packages_of_stop o_id (rid s) st) (order_stops o_id st))) = set (order_packages o_id st)"
proof -
  have "\<exists>s \<in> set (lf_stops st). ls_order s = o_id \<and> pk_stop p = Some (rid s)"
    if "p \<in> set (lf_parcels st)" "pk_order p = o_id" "pk_stop p \<noteq> None" for p
    using refs_okD [of st p] assms that by (auto simp: life_ok_def)
  then show ?thesis by (fastforce simp: packages_of_stop_def order_stops_def order_packages_def)
qed

lemma cancel_order_succeeds:
  assumes "life_ok st"
  shows "(\<exists>st' s. cancel_order cx user q n o_id st = Inr (st', s)) \<longleftrightarrow>
    (\<exists>ord. get_by_id o_id (\<lambda>_. True) (lf_orders st) = Some ord
      \<and> assert_order_access_for_mutation ord user q = Inr () \<and> lo_status ord \<noteq> O_CANCELLED)
    \<and> order_packages o_id st \<noteq> []
    \<and> (\<forall>p \<in> set (order_packages o_id st). pk_status p \<notin> set PACKAGE_STATUSES_BLOCKING_CANCELLATION)"
proof -
  let ?ps = "concat (map (\<lambda>s. packages_of_stop o_id (rid s) st) (order_stops o_id st))"
  have ps: "set ?ps = set (order_packages o_id st)" using assms by (rule order_packages_via_stops)
  then have "(?ps = []) = (order_packages o_id st = [])" by (metis set_empty)
  moreover have "(\<exists>st' affected. apply_package_cancellations cx ?ps st = Inr (st', affected)) \<longleftrightarrow>
      (\<forall>p \<in> set (order_packages o_id st). pk_status p \<notin> set PACKAGE_STATUSES_BLOCKING_CANCELLATION)"
    unfolding cancellations_succeed ps ..
  ultimately have run: "(?ps \<noteq> [] \<and> (\<exists>st' affected. apply_package_cancellations cx ?ps st = Inr (st', affected))) \<longleftrightarrow>
      order_packages o_id st \<noteq> [] \<and> (\<forall>p \<in> set (order_packages o_id st).
        pk_status p \<notin> set PACKAGE_STATUSES_BLOCKING_CANCELLATION)" by blast
  show ?thesis
  proof
    assume "\<exists>st' s. cancel_order cx user q n o_id st = Inr (st', s)"
    then obtain ord where "get_by_id o_id (\<lambda>_. True) (lf_orders st) = Some ord"
        "assert_order_access_for_mutation ord user q = Inr ()" "lo_status ord \<noteq> O_CANCELLED"
        "?ps \<noteq> [] \<and> (\<exists>st' affected. apply_package_cancellations cx ?ps st = Inr (st', affected))"
      by (auto simp: cancel_order_def Let_def simp del: concat_eq_Nil_conv split: if_splits)
    then show "(\<exists>ord. get_by_id o_id (\<lambda>_. True) (lf_orders st) = Some ord
        \<and> assert_order_access_for_mutation ord user q = Inr () \<and> lo_status ord \<noteq> O_CANCELLED)
      \<and> order_packages o_id st \<noteq> []
      \<and> (\<forall>p \<in> set (order_packages o_id st). pk_status p \<notin> set PACKAGE_STATUSES_BLOCKING_CANCELLATION)"
      using run by blast
  next
    assume rhs: "(\<exists>ord. get_by_id o_id (\<lambda>_. True) (lf_orders st) = Some ord
        \<and> assert_order_access_for_mutation ord user q = Inr () \<and> lo_status ord \<noteq> O_CANCELLED)
      \<and> order_packages o_id st \<noteq> []
      \<and> (\<forall>p \<in> set (order_packages o_id st). pk_status p \<notin> set PACKAGE_STATUSES_BLOCKING_CANCELLATION)"
    then obtain ord st1 affected where ord: "get_order_tree_or_404 o_id st = Inr ord"
        "assert_order_access_for_mutation ord user q = Inr ()" "lo_status ord \<noteq> O_CANCELLED"
        "?ps \<noteq> []" "apply_package_cancellations cx ?ps st = Inr (st1, affected)"
      using run by auto
    show "\<exists>st' s. cancel_order cx user q n o_id st = Inr (st', s)"
      unfolding cancel_order_def Let_def ord bind_result_simps using ord(3,4) by simp
  qed
qed

lemma rid_in_filter:
  assumes "distinct_ids rows" "r \<in> set rows"
  shows "rid r \<in> rid ` set (filter P rows) \<longleftrightarrow> P r"
proof
  assume "rid r \<in> rid ` set (filter P rows)"
  then obtain s where "s \<in> set rows" "P s" "rid r = rid s" by auto
  then show "P r" using distinct_ids_unique [OF assms(1,2)] by blast
qed (use assms in auto)

lemma cancel_order_writes:
  assumes "cancel_order cx user q n o_id st = Inr (st', s)" "life_ok st"
  shows "lf_parcels st' = map (\<lambda>p. if pk_order p = o_id \<and> pk_stop p \<noteq> None then cancelled_parcel p else p) (lf_parcels st)
    \<and> lf_stops st' = map (\<lambda>r. if ls_order r = o_id then cancelled_stop r else r) (lf_stops st)"
proof -
  let ?ss = "order_stops o_id st"
  let ?ps = "concat (map (\<lambda>s. packages_of_stop o_id (rid s) st) ?ss)"
  obtain st1 affected where c: "apply_package_cancellations cx ?ps st = Inr (st1, affected)"
      and st': "lf_parcels st' = lf_parcels (fold (mark_delivery_stop_cancelled cx) ?ss st1)"
        "lf_stops st' = lf_stops (fold (mark_delivery_stop_cancelled cx) ?ss st1)"
    using assms(1) by (auto simp: cancel_order_def Let_def split: if_splits)
  have ids: "distinct_ids (lf_stops st)" "distinct_ids (lf_parcels st)"
    using assms(2) by (auto simp: life_ok_def ids_distinct_def)
  have ss: "distinct (map rid ?ss)" using ids(1) by (simp add: order_stops_def distinct_filter_ids)
  note ps = order_packages_via_stops [OF assms(2), of o_id]
  have w1: "lf_parcels st1 = map (\<lambda>r. if rid r \<in> rid ` set ?ps then cancelled_parcel r else r) (lf_parcels st)
      \<and> lf_stops st1 = lf_stops st"
    by (rule cancellations_write [OF c _ distinct_order_packages [OF ids(2) ss] ids(2)]) (auto simp: packages_of_stop_def)
  have w2: "lf_stops (fold (mark_delivery_stop_cancelled cx) ?ss st1)
        = map (\<lambda>r. if rid r \<in> rid ` set ?ss then cancelled_stop r else r) (lf_stops st1)
      \<and> lf_parcels (fold (mark_delivery_stop_cancelled cx) ?ss st1) = lf_parcels st1"
    using w1 ss ids by (intro mark_all_write) (auto simp: order_stops_def)
  have mem: "rid p \<in> rid ` set (order_packages o_id st) \<longleftrightarrow> pk_order p = o_id \<and> pk_stop p \<noteq> None"
    if "p \<in> set (lf_parcels st)" for p
    unfolding order_packages_def by (rule rid_in_filter [OF ids(2) that])
  have mem_stop: "rid r \<in> rid ` set ?ss \<longleftrightarrow> ls_order r = o_id" if "r \<in> set (lf_stops st)" for r
    unfolding order_stops_def by (rule rid_in_filter [OF ids(1) that])
  have "lf_parcels st' = map (\<lambda>r. if rid r \<in> rid ` set (order_packages o_id st) then cancelled_parcel r else r) (lf_parcels st)"
    using w1 w2 st'(1) unfolding ps by simp
  also have "\<dots> = map (\<lambda>p. if pk_order p = o_id \<and> pk_stop p \<noteq> None then cancelled_parcel p else p) (lf_parcels st)"
    by (rule map_cong [OF refl]) (simp only: mem)
  finally have parcels: "lf_parcels st' = \<dots>" .
  have "lf_stops st' = map (\<lambda>r. if rid r \<in> rid ` set ?ss then cancelled_stop r else r) (lf_stops st)"
    using w1 w2 st'(2) by simp
  also have "\<dots> = map (\<lambda>r. if ls_order r = o_id then cancelled_stop r else r) (lf_stops st)"
    by (rule map_cong [OF refl]) (simp only: mem_stop)
  finally show ?thesis using parcels by simp
qed

subsection \<open>What a cancellation writes beside the statuses\<close>

definition written :: "'s status_event \<Rightarrow> string \<times> 's option \<times> 's \<times> string option" where
  \<comment> \<open>what the service puts in a log entry; id and time are drawn by \<open>flush\<close>\<close>
  "written e = (ev_entity e, ev_from e, ev_to e, ev_actor e)"

lemma written_new_event [simp]: "written (new_event i f t a) = (i, f, t, a)"
  by (simp add: written_def new_event_def)

lemma written_flush_events [simp]: "map written (flush_events cx table evs) = map written evs"
proof -
  have "map written (flush_events cx table evs) = map (written \<circ> snd) (enumerate 0 evs)"
    unfolding flush_events_def by (auto simp: written_def)
  then show ?thesis unfolding map_map [symmetric] by (simp add: map_snd_enumerate)
qed

lemma flush_written [simp]:
  "map written (lf_order_events (flush cx st)) = map written (lf_order_events st)"
  "map written (lf_stop_events (flush cx st)) = map written (lf_stop_events st)"
  "map written (lf_package_events (flush cx st)) = map written (lf_package_events st)"
  by (simp_all add: flush_def)

definition package_cancellations :: "life_ctx \<Rightarrow> parcel list \<Rightarrow> (string \<times> package_status option \<times> package_status \<times> string option) list" where
  "package_cancellations cx ps =
     map (\<lambda>p. (rid p, Some (pk_status p), P_CANCELLED, Some (lx_user cx))) (filter (\<lambda>p. pk_status p \<noteq> P_CANCELLED) ps)"

definition stop_cancellations :: "life_ctx \<Rightarrow> life_stop list \<Rightarrow> stop_status status_event list" where
  "stop_cancellations cx ss =
     map (\<lambda>s. new_event (rid s) (Some (ls_status s)) S_CANCELLED (Some (lx_user cx))) (filter (\<lambda>s. ls_status s \<noteq> S_CANCELLED) ss)"

definition stop_jobs :: "life_order \<Rightarrow> stop_status status_event list \<Rightarrow> automation_job list" where
  "stop_jobs ord evs = map (\<lambda>ev. automation_request ev stop_value ''DELIVERY_STOP'' (Some (ev_entity ev)) ord) evs"

lemma move_package_writes:
  "map written (lf_package_events (move_package cx s p st))
     = map written (lf_package_events st) @ [(rid p, Some (pk_status p), s, Some (lx_user cx))]"
  "lf_order_events (move_package cx s p st) = lf_order_events st" "lf_audit (move_package cx s p st) = lf_audit st"
  "lf_stop_events (move_package cx s p st) = lf_stop_events st" "lf_jobs (move_package cx s p st) = lf_jobs st"
  by (simp_all add: move_package_def append_package_status_event_def record_package_transition_def set_package_status_def)

lemma cancellations_log:
  "apply_package_cancellations cx ps st = Inr (st', affected)
   \<Longrightarrow> map written (lf_package_events st') = map written (lf_package_events st) @ package_cancellations cx ps
     \<and> map written (lf_order_events st') = map written (lf_order_events st)
     \<and> map written (lf_stop_events st') = map written (lf_stop_events st)
     \<and> lf_orders st' = lf_orders st \<and> lf_jobs st' = lf_jobs st \<and> lf_images st' = lf_images st \<and> lf_audit st' = lf_audit st"
proof (induction ps arbitrary: st affected)
  case Nil
  then show ?case by (auto simp: package_cancellations_def)
next
  case (Cons p ps)
  show ?case
  proof (cases "pk_status p = P_CANCELLED")
    case True
    with Cons show ?thesis by (simp add: package_cancellations_def)
  next
    case False
    with Cons.prems obtain rest where
      rest: "apply_package_cancellations cx ps (move_package cx P_CANCELLED p st) = Inr (st', rest)"
      by (auto simp: move_package_def split: if_splits)
    show ?thesis using Cons.IH [OF rest] False by (simp add: move_package_writes package_cancellations_def)
  qed
qed

lemma mark_one_log:
  assumes r: "get_by_id (rid s) (\<lambda>_. True) (lf_stops st) = Some r" "ls_order r = o_id"
    and ord: "get_by_id o_id (\<lambda>_. True) (lf_orders st) = Some ord"
  shows "map written (lf_stop_events (mark_delivery_stop_cancelled cx s st))
        = map written (lf_stop_events st) @ map written (stop_cancellations cx [s])
    \<and> lf_jobs (mark_delivery_stop_cancelled cx s st) = lf_jobs st @ stop_jobs ord (stop_cancellations cx [s])
    \<and> map written (lf_order_events (mark_delivery_stop_cancelled cx s st)) = map written (lf_order_events st)
    \<and> map written (lf_package_events (mark_delivery_stop_cancelled cx s st)) = map written (lf_package_events st)
    \<and> lf_orders (mark_delivery_stop_cancelled cx s st) = lf_orders st
    \<and> lf_images (mark_delivery_stop_cancelled cx s st) = lf_images st
    \<and> lf_audit (mark_delivery_stop_cancelled cx s st) = lf_audit st"
proof (cases "ls_status s = S_CANCELLED")
  case True
  then show ?thesis by (simp add: mark_delivery_stop_cancelled_def stop_cancellations_def stop_jobs_def)
next
  case False
  let ?st = "record_delivery_stop_transition (rid s) (Some (ls_status s)) S_CANCELLED (Some (lx_user cx))
    (set_stop_status (rid s) S_CANCELLED st)"
  have "rid r = rid s" using get_by_id_Some [OF r(1)] by simp
  then have "get_stop_with_order (rid s) ?st = Some (r\<lparr>ls_status := S_CANCELLED\<rparr>, ord)"
    using r ord by (simp add: get_stop_with_order_def record_delivery_stop_transition_def set_stop_status_def update_stop_def
        get_by_id_map_same)
  then show ?thesis using False \<open>rid r = rid s\<close>
    by (simp add: mark_delivery_stop_cancelled_def append_delivery_stop_status_event_def Let_def)
      (simp add: record_delivery_stop_transition_def set_stop_status_def update_stop_def stop_cancellations_def stop_jobs_def
        new_event_def)
qed

lemma mark_all_log:
  fixes cx :: life_ctx
  assumes "\<And>s. s \<in> set ss \<Longrightarrow> s \<in> set (lf_stops st) \<and> ls_order s = o_id" "distinct_ids (lf_stops st)" "distinct (map rid ss)"
    and "get_by_id o_id (\<lambda>_. True) (lf_orders st) = Some ord"
  defines "t \<equiv> fold (mark_delivery_stop_cancelled cx) ss st"
  shows "map written (lf_stop_events t) = map written (lf_stop_events st) @ map written (stop_cancellations cx ss)
    \<and> lf_jobs t = lf_jobs st @ stop_jobs ord (stop_cancellations cx ss)
    \<and> map written (lf_order_events t) = map written (lf_order_events st)
    \<and> map written (lf_package_events t) = map written (lf_package_events st)
    \<and> lf_orders t = lf_orders st \<and> lf_images t = lf_images st \<and> lf_audit t = lf_audit st"
  using assms(1-4) unfolding t_def
proof (induction ss arbitrary: st)
  case Nil
  then show ?case by (simp add: stop_cancellations_def stop_jobs_def)
next
  case (Cons s ss)
  let ?t = "mark_delivery_stop_cancelled cx s st"
  have s: "get_by_id (rid s) (\<lambda>_. True) (lf_stops st) = Some s" "ls_order s = o_id"
    using Cons.prems(1) [of s] get_by_id_distinct [OF Cons.prems(2), of s "\<lambda>_. True"] by auto
  note one = mark_one_log [OF s Cons.prems(4), of cx]
  have "r \<in> set (lf_stops ?t) \<and> ls_order r = o_id" if "r \<in> set ss" for r
    using Cons.prems(1) [of r] that mark_cancelled_keeps distinct_head [OF Cons.prems(3) that] by simp
  moreover have "distinct_ids (lf_stops ?t)" using Cons.prems(2) mark_cancelled_ids by (simp add: distinct_ids_def)
  moreover have "get_by_id o_id (\<lambda>_. True) (lf_orders ?t) = Some ord" using one Cons.prems(4) by simp
  moreover have "stop_cancellations cx (s # ss) = stop_cancellations cx [s] @ stop_cancellations cx ss"
    by (simp add: stop_cancellations_def)
  ultimately show ?case using Cons.IH [of ?t] Cons.prems(3) one by (simp add: stop_jobs_def)
qed

lemma recompute_silently:
  fixes cx :: life_ctx
  assumes "get_by_id o_id (\<lambda>_. True) (lf_orders st) = Some ord" "distinct_ids (lf_orders st)"
  defines "s \<equiv> case resolve_order_status_from_packages (package_status_breakdown_for_order o_id st) of
      None \<Rightarrow> lo_status ord | Some s \<Rightarrow> s"
    and "t \<equiv> recompute_order_status cx False o_id st"
  shows "lf_orders t = map (\<lambda>r. if rid r = o_id then r\<lparr>lo_status := s\<rparr> else r) (lf_orders st)
    \<and> map written (lf_order_events t) = map written (lf_order_events st)
    \<and> map written (lf_stop_events t) = map written (lf_stop_events st)
    \<and> map written (lf_package_events t) = map written (lf_package_events st)
    \<and> lf_jobs t = lf_jobs st \<and> lf_images t = lf_images st \<and> lf_audit t = lf_audit st"
proof -
  have same: "map (\<lambda>r. if rid r = o_id then r\<lparr>lo_status := lo_status ord\<rparr> else r) (lf_orders st) = lf_orders st"
  proof (rule map_idI)
    fix r assume r: "r \<in> set (lf_orders st)"
    have "r = ord" if "rid r = o_id"
      using that distinct_ids_unique [OF assms(2) r] get_by_id_Some [OF assms(1)] by simp
    then show "(if rid r = o_id then r\<lparr>lo_status := lo_status ord\<rparr> else r) = r" by auto
  qed
  show ?thesis
  proof (cases "s = lo_status ord")
    case True
    then have "t = st" unfolding t_def s_def recompute_order_status_def assms(1) by (simp split: option.splits)
    then show ?thesis unfolding True using same by simp
  next
    case False
    then have "t = flush cx (set_order_status o_id s st)"
      unfolding t_def s_def recompute_order_status_def assms(1) by (auto simp: Let_def split: option.splits)
    then show ?thesis by (simp add: set_order_status_def)
  qed
qed

definition cancellation_written ::
    "life_ctx \<Rightarrow> string option \<Rightarrow> life_order \<Rightarrow> life_state \<Rightarrow> life_state \<Rightarrow> order_status \<Rightarrow> bool" where
  \<comment> \<open>every table after the cancellation of \<open>ord\<close>: exactly these rows, entries, jobs and audit row; \<open>s\<close> is the new status\<close>
  "cancellation_written cx notes_text ord st st' s \<longleftrightarrow>
     lf_parcels st' = map (\<lambda>p. if pk_order p = rid ord \<and> pk_stop p \<noteq> None then cancelled_parcel p else p) (lf_parcels st)
   \<and> lf_stops st' = map (\<lambda>r. if ls_order r = rid ord then cancelled_stop r else r) (lf_stops st)
   \<and> s = (case resolve_order_status_from_packages (package_status_breakdown_for_order (rid ord) st') of
            None \<Rightarrow> lo_status ord | Some s' \<Rightarrow> s')
   \<and> lf_orders st' = map (\<lambda>r. if rid r = rid ord then r\<lparr>lo_status := s\<rparr> else r) (lf_orders st)
   \<and> map written (lf_order_events st') = map written (lf_order_events st)
   \<and> map written (lf_package_events st') = map written (lf_package_events st)
       @ package_cancellations cx (concat (map (\<lambda>r. packages_of_stop (rid ord) (rid r) st) (order_stops (rid ord) st)))
   \<and> map written (lf_stop_events st') = map written (lf_stop_events st)
       @ map written (stop_cancellations cx (order_stops (rid ord) st))
   \<and> lf_jobs st' = lf_jobs st @ stop_jobs ord (stop_cancellations cx (order_stops (rid ord) st))
   \<and> lf_images st' = lf_images st
   \<and> lf_audit st' = lf_audit st @
       [\<lparr>ac_action = ''order.cancelled'', ac_entity_type = ''order'', ac_entity_id = Some (rid ord),
         ac_entity_ref = Some (lo_ref ord), ac_user_id = Some (lx_user cx), ac_user_role = Some (lx_role cx),
         ac_old_value = Some [(''status'', JStr (order_value (lo_status ord)))],
         ac_new_value = Some [(''status'', JStr (order_value s)), (''notes'', j_str notes_text)],
         ac_ip_address = lx_ip cx, ac_user_agent = lx_agent cx, ac_reason = None, ac_organization_id = Some (lo_org ord),
         ac_category = ''Order'', ac_event_type = ''BOOKING_CANCELLED'', ac_severity = ''INFO'',
         ac_session_id = None, ac_correlation_id = None\<rparr>]"

lemma cancel_order_writes_all:
  assumes run: "cancel_order cx user q n o_id st = Inr (st', s)" and ok: "life_ok st"
  shows "\<exists>ord. get_by_id o_id (\<lambda>_. True) (lf_orders st) = Some ord \<and> cancellation_written cx n ord st st' s"
proof -
  let ?ss = "order_stops o_id st"
  let ?ps = "concat (map (\<lambda>s. packages_of_stop o_id (rid s) st) ?ss)"
  obtain ord st1 affected where ord: "get_by_id o_id (\<lambda>_. True) (lf_orders st) = Some ord"
      and c: "apply_package_cancellations cx ?ps st = Inr (st1, affected)"
      and s: "s = lo_status (current ord (lf_orders (recompute_order_status cx False o_id (fold (mark_delivery_stop_cancelled cx) ?ss st1))))"
      and st': "st' = order_audit cx ''order.cancelled'' ''order'' o_id (Some (lo_ref ord))
          [(''status'', JStr (order_value (lo_status ord)))] [(''status'', JStr (order_value s)), (''notes'', j_str n)]
          (lo_org ord) ''BOOKING_CANCELLED'' (recompute_order_status cx False o_id (fold (mark_delivery_stop_cancelled cx) ?ss st1))"
    using run by (auto simp: cancel_order_def Let_def split: if_splits)
  let ?st2 = "fold (mark_delivery_stop_cancelled cx) ?ss st1"
  let ?st3 = "recompute_order_status cx False o_id ?st2"
  have ids: "distinct_ids (lf_stops st)" "distinct_ids (lf_parcels st)" "distinct_ids (lf_orders st)"
    using ok by (auto simp: life_ok_def ids_distinct_def)
  have ss: "distinct (map rid ?ss)" using ids(1) by (simp add: order_stops_def distinct_filter_ids)
  have w1: "lf_stops st1 = lf_stops st"
    using cancellations_write [OF c _ distinct_order_packages [OF ids(2) ss] ids(2)] by (auto simp: packages_of_stop_def)
  note l1 = cancellations_log [OF c]
  have ord1: "get_by_id o_id (\<lambda>_. True) (lf_orders st1) = Some ord" using l1 ord by simp
  have l2: "map written (lf_stop_events ?st2) = map written (lf_stop_events st1) @ map written (stop_cancellations cx ?ss)
    \<and> lf_jobs ?st2 = lf_jobs st1 @ stop_jobs ord (stop_cancellations cx ?ss)
    \<and> map written (lf_order_events ?st2) = map written (lf_order_events st1)
    \<and> map written (lf_package_events ?st2) = map written (lf_package_events st1)
    \<and> lf_orders ?st2 = lf_orders st1 \<and> lf_images ?st2 = lf_images st1 \<and> lf_audit ?st2 = lf_audit st1"
    by (rule mark_all_log [OF _ _ ss ord1]) (use w1 ids in \<open>auto simp: order_stops_def\<close>)
  have ord2: "get_by_id o_id (\<lambda>_. True) (lf_orders ?st2) = Some ord" "distinct_ids (lf_orders ?st2)"
    using l1 l2 ord ids(3) by simp_all
  note l3 = recompute_silently [OF ord2, of cx]
  have id: "rid ord = o_id" using get_by_id_Some [OF ord] by simp
  have same: "package_status_breakdown_for_order o_id ?st2 = package_status_breakdown_for_order o_id st'"
    by (simp add: package_status_breakdown_for_order_def st')
  let ?s = "case resolve_order_status_from_packages (package_status_breakdown_for_order o_id st') of
      None \<Rightarrow> lo_status ord | Some s' \<Rightarrow> s'"
  have orders: "lf_orders ?st3 = map (\<lambda>r. if rid r = o_id then r\<lparr>lo_status := ?s\<rparr> else r) (lf_orders st)"
    using l1 l2 l3 unfolding same by simp
  then have "get_by_id o_id (\<lambda>_. True) (lf_orders ?st3) = Some (ord\<lparr>lo_status := ?s\<rparr>)"
    using ord by (simp add: get_by_id_map_same id)
  then have s_eq: "s = ?s" unfolding s current_def by (simp add: id)
  have logs: "map written (lf_order_events st') = map written (lf_order_events st)"
      "map written (lf_package_events st') = map written (lf_package_events st) @ package_cancellations cx ?ps"
      "map written (lf_stop_events st') = map written (lf_stop_events st) @ map written (stop_cancellations cx ?ss)"
      "lf_jobs st' = lf_jobs st @ stop_jobs ord (stop_cancellations cx ?ss)" "lf_images st' = lf_images st"
    using l1 l2 l3 unfolding st' order_audit_def by simp_all
  have audit: "lf_audit st' = lf_audit st @ drop (length (lf_audit ?st3)) (lf_audit st')"
    using l1 l2 l3 unfolding st' order_audit_def by simp
  have row: "drop (length (lf_audit ?st3)) (lf_audit st') =
      [\<lparr>ac_action = ''order.cancelled'', ac_entity_type = ''order'', ac_entity_id = Some o_id,
         ac_entity_ref = Some (lo_ref ord), ac_user_id = Some (lx_user cx), ac_user_role = Some (lx_role cx),
         ac_old_value = Some [(''status'', JStr (order_value (lo_status ord)))],
         ac_new_value = Some [(''status'', JStr (order_value s)), (''notes'', j_str n)],
         ac_ip_address = lx_ip cx, ac_user_agent = lx_agent cx, ac_reason = None, ac_organization_id = Some (lo_org ord),
         ac_category = ''Order'', ac_event_type = ''BOOKING_CANCELLED'', ac_severity = ''INFO'',
         ac_session_id = None, ac_correlation_id = None\<rparr>]"
    unfolding st' order_audit_def by simp
  have rows: "lf_orders st' = lf_orders ?st3" by (simp add: st')
  have "cancellation_written cx n ord st st' s"
    unfolding cancellation_written_def id
    by (intro conjI, (rule cancel_order_writes [OF run ok, THEN conjunct1] cancel_order_writes [OF run ok, THEN conjunct2]
        s_eq logs audit [unfolded row] rows [unfolded orders, folded s_eq])+)
  then show ?thesis using ord by blast
qed

subsection \<open>A return that can never be resolved\<close>

definition sample_cx :: life_ctx where
  "sample_cx = \<lparr>lx_user = ''u1'', lx_role = ''ADMIN'', lx_ip = None, lx_agent = None, lx_now = 7,
     lx_uuid = (\<lambda>table n. table), lx_upload = (\<lambda>n. Some ''img'')\<rparr>"

definition send_back :: resolve_request where
  "send_back = \<lparr>rr_resolution = RETURN_TO_SENDER, rr_dispatch_date = Some ''2026-01-05'', rr_cost = Some 4,
     rr_waive = False, rr_return_notes = None, rr_disposal_reason = None, rr_resolution_notes = None, rr_images = 0\<rparr>"

definition resolution_of :: "string \<Rightarrow> life_state \<Rightarrow> return_resolution option option" where
  "resolution_of i st = map_option ls_resolution (get_by_id i (\<lambda>_. True) (lf_stops st))"

lemma resolution_of_update:
  "(\<And>r. rid (f r) = rid r) \<Longrightarrow> resolution_of i (update_stop j f st)
     = (if i = j then map_option (ls_resolution \<circ> f) (get_by_id i (\<lambda>_. True) (lf_stops st)) else resolution_of i st)"
  by (simp add: resolution_of_def update_stop_def get_by_id_map_same option.map_comp)

lemma resolution_of_frame [simp]:
  "resolution_of i (flush cx st) = resolution_of i st"
  "resolution_of i (order_audit cx ac ty e r old new org ev st) = resolution_of i st"
  "resolution_of i (recompute_order_status cx b o_id st) = resolution_of i st"
  "resolution_of i (move_package cx s p st) = resolution_of i st"
  by (simp_all add: resolution_of_def)

lemma resolution_of_stop_moves [simp]:
  "resolution_of i (move_stop cx s stop st) = resolution_of i st"
  "resolution_of i (resettle_stop cx a stop st) = resolution_of i st"
  "resolution_of i (mark_return_initiated cx stop st) = resolution_of i st"
proof -
  show move: "resolution_of i (move_stop cx s stop st) = resolution_of i st" for s
    by (simp add: move_stop_def resolution_of_def set_stop_status_def update_stop_def get_by_id_map_same option.map_comp comp_def)
  show "resolution_of i (resettle_stop cx a stop st) = resolution_of i st"
    using move by (auto simp: resettle_stop_def split: option.splits)
  show "resolution_of i (mark_return_initiated cx stop st) = resolution_of i st"
    by (simp add: mark_return_initiated_def resolution_of_def update_stop_def get_by_id_map_same option.map_comp comp_def)
qed

lemma resolution_of_resolved:
  assumes "count_list (package_status_breakdown_for_stop (rid stop) st) P_RETURN_INITIATED = 0"
    "resolution_of (rid stop) st \<noteq> None"
  shows "resolution_of (rid stop) (resolve_stop_of_package cx rr stop st) = Some (Some (rr_resolution rr))"
proof -
  have "resolution_of (rid stop) (flush cx (resettle_stop cx (ls_status stop) stop st)) \<noteq> None" using assms(2) by simp
  then obtain s where s: "get_by_id (rid stop) (\<lambda>_. True) (lf_stops (flush cx (resettle_stop cx (ls_status stop) stop st))) = Some s"
    unfolding resolution_of_def by auto
  have "rid ((set_return_details rr \<circ> set_resolution cx (rr_resolution rr)) r) = rid r
      \<and> ls_resolution ((set_return_details rr \<circ> set_resolution cx (rr_resolution rr)) r) = Some (rr_resolution rr)" for r
    by (simp add: set_return_details_def set_resolution_def)
  then show ?thesis using assms(1) s by (simp add: resolve_stop_of_package_def resolution_of_update)
qed

lemma stop_moves_parcels [simp]:
  "lf_parcels (resettle_stop cx a stop st) = lf_parcels st"
  "lf_parcels (mark_return_initiated cx stop st) = lf_parcels st"
  "lf_parcels (resolve_stop_of_package cx rr stop st) = lf_parcels st"
proof -
  show resettle: "lf_parcels (resettle_stop cx a stop st) = lf_parcels st" for a st
    by (auto simp: resettle_stop_def split: option.splits)
  show "lf_parcels (mark_return_initiated cx stop st) = lf_parcels st" by (simp add: mark_return_initiated_def)
  show "lf_parcels (resolve_stop_of_package cx rr stop st) = lf_parcels st"
    by (simp add: resolve_stop_of_package_def resettle Let_def)
qed

lemma moved_get:
  "get_by_id i (\<lambda>_. True) (lf_parcels (move_package cx s p st)) =
     (if i = rid p then map_option (\<lambda>r. r\<lparr>pk_status := s\<rparr>) (get_by_id i (\<lambda>_. True) (lf_parcels st))
      else get_by_id i (\<lambda>_. True) (lf_parcels st))"
  unfolding move_package_parcels by (rule get_by_id_map_same) simp

lemma start_return_runs:
  assumes "get_package_or_404 p_id o_id st = Inr (p, Some stop, ord)" "pk_status p \<in> set RETURNABLE_PACKAGE_STATUSES"
  shows "\<exists>st'. life_step st st' \<and> (\<forall>i. resolution_of i st' = resolution_of i st)
    \<and> lf_parcels st' = lf_parcels (move_package cx P_RETURN_INITIATED p st)"
proof -
  let ?r = "initiate_package_return cx p_id o_id st"
  obtain st' r where "?r = Inr (st', r)" "\<forall>i. resolution_of i st' = resolution_of i st"
      "lf_parcels st' = lf_parcels (move_package cx P_RETURN_INITIATED p st)"
    using assms by (simp add: initiate_package_return_def Let_def)
  then show ?thesis by (blast intro: life_step.intros)
qed

lemma resolve_return_runs:
  fixes rr :: resolve_request
  assumes "get_package_or_404 p_id o_id st = Inr (p, Some stop, ord)" "pk_status p = P_RETURN_INITIATED"
    and "ls_resolution stop = None" "rr_resolution rr = RETURN_TO_SENDER" "rr_images rr = 0"
    and "resolution_of (rid stop) st \<noteq> None"
    and "count_list (package_status_breakdown_for_stop (rid stop) (move_package cx P_RETURN_IN_TRANSIT p st)) P_RETURN_INITIATED = 0"
  shows "\<exists>st'. life_step st st' \<and> resolution_of (rid stop) st' = Some (Some RETURN_TO_SENDER)
    \<and> lf_parcels st' = lf_parcels (move_package cx P_RETURN_IN_TRANSIT p st)"
proof -
  let ?st1 = "flush cx (move_package cx P_RETURN_IN_TRANSIT p st)"
  have res: "resolution_of (rid stop) (resolve_stop_of_package cx rr stop ?st1) = Some (Some RETURN_TO_SENDER)"
    using resolution_of_resolved [of stop ?st1] assms by (simp add: package_status_breakdown_for_stop_def)
  have "\<exists>st' r. resolve_package_return cx p_id rr o_id st = Inr (st', r)
      \<and> lf_parcels st' = lf_parcels (resolve_stop_of_package cx rr stop ?st1)
      \<and> (\<forall>i. resolution_of i st' = resolution_of i (resolve_stop_of_package cx rr stop ?st1))"
    using assms(1-5) unfolding resolve_package_return_def
    by (simp add: Let_def check_evidence_def return_package_status_def store_evidence_def status_sets)
  then show ?thesis using res by (auto intro: life_step.intros(10))
qed

lemma life_step_ok: "life_step s t \<Longrightarrow> life_ok s \<Longrightarrow> life_ok t"
  by (rule parcels.step_good)

lemma get_package_of_stop:
  assumes "life_ok st" "get_by_id p_id (\<lambda>_. True) (lf_parcels st) = Some p" "pk_stop p = Some j" "pk_order p = o_id"
    "get_by_id o_id (\<lambda>_. True) (lf_orders st) = Some ord" "get_by_id j (\<lambda>_. True) (lf_stops st) = Some stop"
  shows "get_package_or_404 p_id o_id st = Inr (p, Some stop, ord)"
  using assms by (simp add: get_package_Inr)

lemma no_initiated_left:
  assumes "distinct_ids rows" "\<And>r. r \<in> set rows \<Longrightarrow> P r \<Longrightarrow> pk_status r = P_RETURN_INITIATED \<Longrightarrow> rid r = i"
    and "s \<noteq> P_RETURN_INITIATED" "\<And>r. P (r\<lparr>pk_status := s\<rparr>) = P r"
  shows "count_list (map pk_status (filter P (map (\<lambda>r. if rid r = i then r\<lparr>pk_status := s\<rparr> else r) rows))) P_RETURN_INITIATED = 0"
  using assms by (auto simp: count_list_0_iff)

lemma get_by_id_None_ids: "get_by_id i (\<lambda>_. True) rows = None \<longleftrightarrow> i \<notin> set (map rid rows)"
  by (induction rows) auto

lemma life_step_keeps_order:
  assumes "life_step s t" "life_ok s" "get_by_id o_id (\<lambda>_. True) (lf_orders s) \<noteq> None"
  shows "\<exists>ord. get_by_id o_id (\<lambda>_. True) (lf_orders t) = Some ord"
proof -
  have "map rid (lf_orders t) = map rid (lf_orders s)"
    using parcels.step_promise [OF assms(2,1)] same_keys_ids(1) by (simp add: life_promise_def)
  then have "get_by_id o_id (\<lambda>_. True) (lf_orders t) \<noteq> None" using assms(3) by (simp add: get_by_id_None_ids)
  then show ?thesis by simp
qed


text \<open>One package of the stop is sent back, and with it the return of the stop is resolved.\<close>

lemma stop_resolved_by_one:
  assumes ok: "life_ok s"
    and p: "get_by_id i (\<lambda>_. True) (lf_parcels s) = Some p" "pk_status p \<in> set RETURNABLE_PACKAGE_STATUSES" "pk_stop p = Some j"
    and stop: "resolution_of j s = Some None" and ord: "get_by_id (pk_order p) (\<lambda>_. True) (lf_orders s) \<noteq> None"
    and none: "list_packages_by_stop_and_statuses j [P_RETURN_INITIATED] s = []"
  shows "\<exists>t. life_step\<^sup>*\<^sup>* s t \<and> resolution_of j t = Some (Some RETURN_TO_SENDER)
    \<and> package_status_of i t = Some P_RETURN_IN_TRANSIT
    \<and> (\<forall>k. k \<noteq> i \<longrightarrow> get_by_id k (\<lambda>_. True) (lf_parcels t) = get_by_id k (\<lambda>_. True) (lf_parcels s))"
proof -
  obtain st ord0 where st: "get_by_id j (\<lambda>_. True) (lf_stops s) = Some st" "get_by_id (pk_order p) (\<lambda>_. True) (lf_orders s) = Some ord0"
    using stop ord by (auto simp: resolution_of_def)
  have ri: "rid p = i" using get_by_id_rid [OF p(1)] .
  have gp: "get_package_or_404 i (pk_order p) s = Inr (p, Some st, ord0)"
    by (rule get_package_of_stop [OF ok p(1,3) refl st(2,1)])
  obtain t1 where t1: "life_step s t1" "\<forall>x. resolution_of x t1 = resolution_of x s"
      "lf_parcels t1 = lf_parcels (move_package sample_cx P_RETURN_INITIATED p s)"
    using start_return_runs [OF gp p(2), of sample_cx] by blast
  have ok1: "life_ok t1" using life_step_ok t1(1) ok by blast
  obtain st1 where st1: "get_by_id j (\<lambda>_. True) (lf_stops t1) = Some st1" "ls_resolution st1 = None"
  proof -
    have "resolution_of j t1 = Some None" using t1(2) stop by simp
    then show ?thesis using that by (auto simp: resolution_of_def)
  qed
  obtain ord1 where ord1: "get_by_id (pk_order p) (\<lambda>_. True) (lf_orders t1) = Some ord1"
    using life_step_keeps_order [OF t1(1) ok ord] by blast
  let ?p1 = "p\<lparr>pk_status := P_RETURN_INITIATED\<rparr>"
  have p1: "get_by_id i (\<lambda>_. True) (lf_parcels t1) = Some ?p1" unfolding t1(3) moved_get using p(1) ri by simp
  have gp1: "get_package_or_404 i (pk_order p) t1 = Inr (?p1, Some st1, ord1)"
    by (rule get_package_of_stop [OF ok1 p1 _ _ ord1 st1(1)]) (simp_all add: p(3))
  have rj: "rid st1 = j" using get_by_id_rid [OF st1(1)] .
  have count: "count_list (package_status_breakdown_for_stop (rid st1) (move_package sample_cx P_RETURN_IN_TRANSIT ?p1 t1)) P_RETURN_INITIATED = 0"
    unfolding package_status_breakdown_for_stop_def move_package_parcels
  proof (rule no_initiated_left)
    show "distinct_ids (lf_parcels t1)" using ok1 by (simp add: life_ok_def ids_distinct_def)
    fix r assume "r \<in> set (lf_parcels t1)" "pk_stop r = Some (rid st1)" "pk_status r = P_RETURN_INITIATED"
    then show "rid r = rid ?p1"
      using none unfolding rj t1(3) move_package_parcels
      by (auto simp: list_packages_by_stop_and_statuses_def filter_empty_conv split: if_splits)
  qed simp_all
  have sb: "rr_resolution send_back = RETURN_TO_SENDER" "rr_images send_back = 0" by (simp_all add: send_back_def)
  have "resolution_of (rid st1) t1 \<noteq> None" using t1(2) stop rj by simp
  from resolve_return_runs [OF gp1 _ st1(2) sb this count] obtain t2 where
    t2: "life_step t1 t2" "resolution_of (rid st1) t2 = Some (Some RETURN_TO_SENDER)"
      "lf_parcels t2 = lf_parcels (move_package sample_cx P_RETURN_IN_TRANSIT ?p1 t1)"
    by auto
  have "get_by_id k (\<lambda>_. True) (lf_parcels t2) = get_by_id k (\<lambda>_. True) (lf_parcels s)" if "k \<noteq> i" for k
    unfolding t2(3) moved_get t1(3) using that ri by simp
  moreover have "package_status_of i t2 = Some P_RETURN_IN_TRANSIT"
    unfolding package_status_of_def t2(3) moved_get using p1 ri by simp
  moreover have "life_step\<^sup>*\<^sup>* s t2" using t1(1) t2(1) by simp
  ultimately show ?thesis using t2(2) [unfolded rj] by blast
qed


subsection \<open>A sample order\<close>

text \<open>
  A failed order with two stops: two packages on the first could not be delivered, on the second one could
  not be delivered and one is missing.
\<close>

definition sample_stop :: "string \<Rightarrow> life_stop" where
  "sample_stop i = \<lparr>rid = i, version = 1, ls_order = ''o'', ls_tracking = i, ls_status = S_OUT_FOR_DELIVERY,
     ls_scheduled_for = None, ls_return_initiated_at = None, ls_return_initiated_by = None, ls_resolution = None,
     ls_resolved_at = None, ls_resolved_by = None, ls_dispatch_date = None, ls_return_cost = None,
     ls_cost_waived = False, ls_return_notes = None, ls_disposal_reason = None\<rparr>"

definition sample_parcel :: "string \<Rightarrow> string \<Rightarrow> package_status \<Rightarrow> parcel" where
  "sample_parcel i s ps = \<lparr>rid = i, version = 1, pk_ref = i, pk_order = ''o'', pk_stop = Some s, pk_status = ps\<rparr>"

definition sample_life :: life_state where
  "sample_life = \<lparr>lf_orders = [\<lparr>rid = ''o'', version = 1, lo_ref = ''ORD'', lo_org = ''org'', lo_customer = None,
       lo_status = O_FAILED\<rparr>],
     lf_stops = [sample_stop ''s'', sample_stop ''t''],
     lf_parcels = [sample_parcel ''p'' ''s'' P_CUSTOMER_NOT_HOME, sample_parcel ''q'' ''s'' P_REFUSED_BY_CUSTOMER,
       sample_parcel ''r'' ''t'' P_CUSTOMER_NOT_HOME, sample_parcel ''m'' ''t'' P_MISSING],
     lf_order_events = [], lf_stop_events = [], lf_package_events = [], lf_jobs = [], lf_images = [], lf_audit = []\<rparr>"

lemma sample_life_ok: "life_ok sample_life"
proof -
  have "ids_distinct sample_life" "refs_ok sample_life" "\<forall>r \<in> set (lf_orders sample_life). order_settled (rid r) sample_life"
    by code_simp+
  moreover have "images_numbered (lf_images sample_life)" by (simp add: images_numbered_def sample_life_def)
  ultimately show ?thesis by (simp add: life_ok_def)
qed

lemma sample_parcels:
  "get_by_id ''p'' (\<lambda>_. True) (lf_parcels sample_life) = Some (sample_parcel ''p'' ''s'' P_CUSTOMER_NOT_HOME)"
  "get_by_id ''q'' (\<lambda>_. True) (lf_parcels sample_life) = Some (sample_parcel ''q'' ''s'' P_REFUSED_BY_CUSTOMER)"
  by (simp_all add: sample_life_def sample_parcel_def)

lemma sample_stop_open:
  "resolution_of ''s'' sample_life = Some None" "get_by_id ''o'' (\<lambda>_. True) (lf_orders sample_life) \<noteq> None"
  "list_packages_by_stop_and_statuses ''s'' [P_RETURN_INITIATED] sample_life = []"
  by (simp_all add: sample_life_def sample_parcel_def sample_stop_def resolution_of_def list_packages_by_stop_and_statuses_def)

lemma sample_life_run:
  "\<exists>t. life_step\<^sup>*\<^sup>* sample_life t \<and> resolution_of ''s'' t = Some (Some RETURN_TO_SENDER)
     \<and> package_status_of ''p'' t = Some P_RETURN_IN_TRANSIT
     \<and> get_by_id ''q'' (\<lambda>_. True) (lf_parcels t) = Some (sample_parcel ''q'' ''s'' P_REFUSED_BY_CUSTOMER)"
proof -
  have "pk_status (sample_parcel ''p'' ''s'' P_CUSTOMER_NOT_HOME) \<in> set RETURNABLE_PACKAGE_STATUSES"
    by (simp add: sample_parcel_def status_sets)
  moreover have "pk_stop (sample_parcel ''p'' ''s'' P_CUSTOMER_NOT_HOME) = Some ''s''"
    "get_by_id (pk_order (sample_parcel ''p'' ''s'' P_CUSTOMER_NOT_HOME)) (\<lambda>_. True) (lf_orders sample_life) \<noteq> None"
    using sample_stop_open(2) by (simp_all add: sample_parcel_def)
  ultimately obtain t where "life_step\<^sup>*\<^sup>* sample_life t" "resolution_of ''s'' t = Some (Some RETURN_TO_SENDER)"
      "package_status_of ''p'' t = Some P_RETURN_IN_TRANSIT" "\<forall>k. k \<noteq> ''p'' \<longrightarrow> get_by_id k (\<lambda>_. True) (lf_parcels t) = get_by_id k (\<lambda>_. True) (lf_parcels sample_life)"
    using stop_resolved_by_one [OF sample_life_ok sample_parcels(1) _ _ sample_stop_open(1) _ sample_stop_open(3)] by blast
  then show ?thesis using sample_parcels(2) by auto
qed

lemma move_packages_keeps:
  "q \<in> set (lf_parcels st) \<Longrightarrow> rid q \<notin> rid ` set ps \<Longrightarrow> q \<in> set (lf_parcels (move_packages cx s ps st))"
proof (induction ps arbitrary: st)
  case (Cons p ps)
  then show ?case using move_package_keeps [of q st p cx s] by (simp add: move_packages_def)
qed (simp add: move_packages_def)

lemma recompute_jobs: "\<exists>js. lf_jobs (recompute_order_status cx b i st) = lf_jobs st @ js"
  by (auto simp: recompute_order_status_def append_order_status_event_def record_order_transition_def Let_def split: option.splits)

lemma move_packages_jobs: "lf_jobs (move_packages cx s ps st) = lf_jobs st"
  by (induction ps arbitrary: st) (simp_all add: move_packages_def move_package_def)

lemma append_stop_job:
  assumes "get_by_id i (\<lambda>_. True) (lf_stops st) = Some stop" "get_by_id (ls_order stop) (\<lambda>_. True) (lf_orders st) = Some ord"
  shows "\<exists>j. lf_jobs (append_delivery_stop_status_event False i f t a st) = lf_jobs st @ [j] \<and> aj_entity_id j = i"
  using assms by (simp add: append_delivery_stop_status_event_def record_delivery_stop_transition_def
      get_stop_with_order_def automation_request_def new_event_def Let_def)

lemma update_stop_get:
  "(\<And>r. rid (f r) = rid r) \<Longrightarrow> get_by_id i (\<lambda>_. True) (lf_stops (update_stop j f st))
     = (if i = j then map_option f (get_by_id i (\<lambda>_. True) (lf_stops st)) else get_by_id i (\<lambda>_. True) (lf_stops st))"
  by (simp add: update_stop_def get_by_id_map_same)

text \<open>A stop that is rescheduled requests a job of its own.\<close>

lemma reschedule_stop_runs:
  assumes "get_by_id s_id (\<lambda>_. True) (lf_stops st) = Some stop" "get_by_id (ls_order stop) (\<lambda>_. True) (lf_orders st) = Some ord"
    and "p \<in> set (lf_parcels st)" "pk_stop p = Some s_id" "pk_status p = P_CUSTOMER_NOT_HOME"
  shows "\<exists>st'. life_step st st'
    \<and> (\<forall>q \<in> set (lf_parcels st). pk_stop q \<noteq> Some s_id \<longrightarrow> (\<forall>r \<in> set (lf_parcels st). rid r = rid q \<longrightarrow> r = q) \<longrightarrow> q \<in> set (lf_parcels st'))
    \<and> (\<exists>j js. lf_jobs st' = lf_jobs st @ j # js \<and> aj_entity_id j = s_id)"
proof -
  let ?ps = "list_packages_by_stop_and_statuses s_id RESCHEDULABLE_PACKAGE_STATUSES st"
  let ?st2 = "update_stop s_id (\<lambda>r. r\<lparr>ls_scheduled_for := Some ''2026-01-05''\<rparr>) (move_packages sample_cx P_AT_WAREHOUSE ?ps st)"
  let ?st3 = "flush sample_cx (move_stop sample_cx S_DELIVERY_SCHEDULED stop ?st2)"
  have sid: "rid stop = s_id" using get_by_id_rid [OF assms(1)] .
  have "?ps \<noteq> []" using assms(3-5) by (auto simp: list_packages_by_stop_and_statuses_def filter_empty_conv status_sets)
  moreover have "get_stop_with_order_or_404 s_id (ls_order stop) st = Inr (stop, ord)"
    using assms(1,2) by (simp add: get_stop_with_order_Inr)
  ultimately obtain st' r where run: "reschedule_stop sample_cx s_id ''2026-01-05'' (ls_order stop) st = Inr (st', r)"
      and st': "lf_parcels st' = lf_parcels ?st3" "lf_jobs st' = lf_jobs (recompute_order_status sample_cx True (ls_order stop) ?st3)"
    by (simp add: reschedule_stop_def Let_def)
  let ?st2' = "set_stop_status s_id S_DELIVERY_SCHEDULED ?st2"
  have "\<exists>r. get_by_id s_id (\<lambda>_. True) (lf_stops ?st2') = Some r \<and> ls_order r = ls_order stop"
    using assms(1) by (simp add: set_stop_status_def update_stop_get)
  then obtain r where "get_by_id s_id (\<lambda>_. True) (lf_stops ?st2') = Some r" "ls_order r = ls_order stop" by blast
  from append_stop_job [OF this(1)] this(2) have "\<exists>j. lf_jobs ?st3 = lf_jobs st @ [j] \<and> aj_entity_id j = s_id"
    using assms(2) by (simp add: move_stop_def sid move_packages_jobs)
  moreover obtain js where "lf_jobs st' = lf_jobs ?st3 @ js" using recompute_jobs st'(2) by metis
  ultimately have "\<exists>j js. lf_jobs st' = lf_jobs st @ j # js \<and> aj_entity_id j = s_id" by auto
  moreover have "q \<in> set (lf_parcels st')" if q: "q \<in> set (lf_parcels st)" "pk_stop q \<noteq> Some s_id"
      "\<forall>r \<in> set (lf_parcels st). rid r = rid q \<longrightarrow> r = q" for q
  proof -
    have "rid q \<notin> rid ` set ?ps" using q(2,3) by (auto simp: list_packages_by_stop_and_statuses_def)
    then show ?thesis unfolding st'(1) using move_packages_keeps [OF q(1)] by simp
  qed
  ultimately show ?thesis using life_step.intros(3) [OF run] by blast
qed

subsection \<open>Properties\<close>

text \<open>
  C3: over any run of actions on orders, whenever the packages of an order determine a status, the order has
  that status; packages stay on stops of their own order, no row appears twice, and the evidence images of a
  stop keep the numbers 1, 2, and so on.
\<close>

theorem order_statuses_follow_packages:
  assumes "life_step\<^sup>*\<^sup>* s t" "life_ok s"
  shows "life_ok t"
  by (rule parcels.run_good [OF assms])

theorem order_statuses_follow_packages_witness:
  "\<exists>t. resolution_of ''s'' t = Some (Some RETURN_TO_SENDER) \<and> life_ok t"
  using sample_life_run order_statuses_follow_packages [OF _ sample_life_ok] by blast

text \<open>
  C16: over any run of actions the new entries of the package log replay the statuses of the packages: each
  leaves the status the package then has, they end in the current statuses, and each is a move of the package
  machine \<open>package_move\<close>. The log of the stops replays their statuses as well. (The log of the order
  itself does not replay its status: the two cancellations write the new order status without an entry.)
\<close>

theorem package_and_stop_logs_replay:
  assumes "life_step\<^sup>*\<^sup>* s t" "life_ok s"
  shows "package_log s t \<and> stop_log s t"
  using parcels.run_promise [OF assms] by (simp add: life_promise_def)

theorem package_and_stop_logs_replay_witness:
  "\<exists>t. resolution_of ''s'' t = Some (Some RETURN_TO_SENDER) \<and> package_log sample_life t"
  using sample_life_run package_and_stop_logs_replay [OF _ sample_life_ok] by blast

lemma log_keeps_settled:
  assumes "package_log s t" "package_status_of i s = Some a" "settled_package a"
  shows "package_status_of i t = Some a"
proof -
  obtain new where new: "replays (\<lambda>i. package_status_of i s) new (\<lambda>i. package_status_of i t)"
      "\<forall>(i, from_status, to_status) \<in> set new. \<exists>a. from_status = Some a \<and> package_move a to_status"
    using assms(1) unfolding package_log_def by blast
  have "package_move b c" if "(k, Some b, c) \<in> set new" for k b c using new(2) that by fastforce
  then show ?thesis using replays_settled [OF new(1) _ assms(2,3)] by blast
qed

text \<open>
  C18: neither outcome is undone by any run of the ten order actions modelled here. A package that is
  delivered, left at a safe place, cancelled, on its way back, returned or disposed of keeps that status;
  and, independently, what was recorded of a resolved return is never overwritten. (Driver actions, which are
  not modelled, do move a package that is on its way back.)
\<close>

theorem outcomes_are_final:
  assumes "life_step\<^sup>*\<^sup>* s t" "life_ok s"
  shows "(\<forall>i a. package_status_of i s = Some a \<longrightarrow> settled_package a \<longrightarrow> package_status_of i t = Some a)
    \<and> (\<forall>j r. get_by_id j (\<lambda>_. True) (lf_stops s) = Some r \<longrightarrow> ls_resolution r \<noteq> None
        \<longrightarrow> (\<exists>r'. get_by_id j (\<lambda>_. True) (lf_stops t) = Some r' \<and> return_record r' = return_record r))"
proof -
  have "package_log s t" "returns_kept {} s t"
    using parcels.run_promise [OF assms] by (simp_all add: life_promise_def)
  then show ?thesis using log_keeps_settled returns_keptD by blast
qed

theorem outcomes_are_final_witness:
  "\<exists>t r. package_status_of ''p'' t = Some P_RETURN_IN_TRANSIT \<and> get_by_id ''s'' (\<lambda>_. True) (lf_stops t) = Some r
     \<and> ls_resolution r = Some RETURN_TO_SENDER
     \<and> (\<forall>u. life_step\<^sup>*\<^sup>* t u \<longrightarrow> package_status_of ''p'' u = Some P_RETURN_IN_TRANSIT
         \<and> (\<exists>r'. get_by_id ''s'' (\<lambda>_. True) (lf_stops u) = Some r' \<and> return_record r' = return_record r))"
proof -
  obtain t where t: "life_step\<^sup>*\<^sup>* sample_life t" "resolution_of ''s'' t = Some (Some RETURN_TO_SENDER)"
      "package_status_of ''p'' t = Some P_RETURN_IN_TRANSIT" using sample_life_run by blast
  obtain r where r: "get_by_id ''s'' (\<lambda>_. True) (lf_stops t) = Some r" "ls_resolution r = Some RETURN_TO_SENDER"
    using t(2) by (auto simp: resolution_of_def)
  have "settled_package P_RETURN_IN_TRANSIT" by (simp add: settled_package_def)
  then have "package_status_of ''p'' u = Some P_RETURN_IN_TRANSIT
      \<and> (\<exists>r'. get_by_id ''s'' (\<lambda>_. True) (lf_stops u) = Some r' \<and> return_record r' = return_record r)"
    if "life_step\<^sup>*\<^sup>* t u" for u
    using outcomes_are_final [OF that parcels.run_good [OF t(1) sample_life_ok]] t(3) r by simp
  then show ?thesis using t(3) r by blast
qed



text \<open>
  Every automation job that any run of actions requests has the job id \<open>status-auto:None\<close>, the event id
  \<open>None\<close> and no time of occurrence: the event row has no id before it is flushed. The queue keeps one job per
  job id, so of all pending status changes one is evaluated.
\<close>

theorem automation_jobs_share_one_id:
  assumes "life_step\<^sup>*\<^sup>* s t" "life_ok s"
  shows "\<exists>new. lf_jobs t = lf_jobs s @ new
    \<and> (\<forall>j \<in> set new. aj_job_id j = ''status-auto:None'' \<and> aj_event_id j = ''None'' \<and> aj_occurred_at j = None)"
  using parcels.run_promise [OF assms] by (simp add: life_promise_def jobs_unnamed_def)

theorem automation_jobs_share_one_id_witness:
  "\<exists>t j k. life_step\<^sup>*\<^sup>* sample_life t \<and> j \<in> set (lf_jobs t) \<and> k \<in> set (lf_jobs t)
     \<and> aj_entity_id j = ''s'' \<and> aj_entity_id k = ''t'' \<and> aj_job_id j = aj_job_id k"
proof -
  let ?p = "sample_parcel ''p'' ''s'' P_CUSTOMER_NOT_HOME" and ?r = "sample_parcel ''r'' ''t'' P_CUSTOMER_NOT_HOME"
  have s: "get_by_id ''s'' (\<lambda>_. True) (lf_stops sample_life) = Some (sample_stop ''s'')"
      "get_by_id ''o'' (\<lambda>_. True) (lf_orders sample_life) = Some (hd (lf_orders sample_life))"
      "?p \<in> set (lf_parcels sample_life)" "?r \<in> set (lf_parcels sample_life)"
      "\<forall>x \<in> set (lf_parcels sample_life). rid x = rid ?r \<longrightarrow> x = ?r" "lf_jobs sample_life = []"
    by (simp_all add: sample_life_def sample_stop_def sample_parcel_def)
  have p: "pk_stop ?p = Some ''s''" "pk_status ?p = P_CUSTOMER_NOT_HOME" "pk_stop ?r \<noteq> Some ''s''"
      "pk_stop ?r = Some ''t''" "pk_status ?r = P_CUSTOMER_NOT_HOME" "ls_order (sample_stop ''s'') = ''o''"
    by (simp_all add: sample_parcel_def sample_stop_def)
  have "get_by_id (ls_order (sample_stop ''s'')) (\<lambda>_. True) (lf_orders sample_life) = Some (hd (lf_orders sample_life))"
    using s(2) p(6) by simp
  from reschedule_stop_runs [OF s(1) this s(3) p(1,2)] obtain u j js where
    u: "life_step sample_life u" "?r \<in> set (lf_parcels u)" "lf_jobs u = lf_jobs sample_life @ j # js" "aj_entity_id j = ''s''"
    using s(4,5) p(3) by blast
  have ok: "life_ok u" using life_step_ok [OF u(1) sample_life_ok] .
  obtain t_stop where t: "t_stop \<in> set (lf_stops u)" "rid t_stop = ''t''" "ls_order t_stop = ''o''"
    using refs_okD [OF _ u(2) p(4)] ok by (auto simp: life_ok_def sample_parcel_def)
  then have "get_by_id ''t'' (\<lambda>_. True) (lf_stops u) = Some t_stop"
    using get_by_id_distinct [of "lf_stops u" t_stop] ok by (simp add: life_ok_def ids_distinct_def)
  moreover obtain od where "get_by_id (ls_order t_stop) (\<lambda>_. True) (lf_orders u) = Some od"
    using life_step_keeps_order [OF u(1) sample_life_ok, of "''o''"] s(2) t(3) by auto
  ultimately obtain v k ks where v: "life_step u v" "lf_jobs v = lf_jobs u @ k # ks" "aj_entity_id k = ''t''"
    using reschedule_stop_runs [OF _ _ u(2) p(4,5)] by blast
  have run: "life_step\<^sup>*\<^sup>* sample_life v" using u(1) v(1) by simp
  have "\<forall>x \<in> set (lf_jobs v). aj_job_id x = ''status-auto:None''"
    using automation_jobs_share_one_id [OF run sample_life_ok] s(6) by auto
  moreover have "j \<in> set (lf_jobs v)" "k \<in> set (lf_jobs v)" using u(3) v(2) by simp_all
  ultimately show ?thesis using run u(4) v(3) by (intro exI [of _ v] exI [of _ j] exI [of _ k]) simp
qed

text \<open>
  C19: an order is cancelled exactly when the caller may modify it, it is not cancelled yet, it has a package
  on a stop, and none of these packages is delivered, on its way back, returned or disposed of. Then every
  table is known: exactly the packages of the order that are on a stop and the stops of the order become
  cancelled; the order gets the status its packages now determine, and keeps its own if they determine none;
  the package log gets one entry for each package and the stop log one for each stop that was not
  cancelled before, each with the status that was left, and each of the latter requests an automation job;
  the log of the order gets none; and the one audit row names both statuses and the notes.
\<close>

theorem cancel_order_exact:
  assumes "life_ok st"
  shows "((\<exists>st' s. cancel_order cx user q n o_id st = Inr (st', s)) \<longleftrightarrow>
      (\<exists>ord. get_by_id o_id (\<lambda>_. True) (lf_orders st) = Some ord
        \<and> assert_order_access_for_mutation ord user q = Inr () \<and> lo_status ord \<noteq> O_CANCELLED)
      \<and> order_packages o_id st \<noteq> []
      \<and> (\<forall>p \<in> set (order_packages o_id st). pk_status p \<notin> set PACKAGE_STATUSES_BLOCKING_CANCELLATION))
    \<and> (\<forall>st' s. cancel_order cx user q n o_id st = Inr (st', s) \<longrightarrow>
      (\<exists>ord. get_by_id o_id (\<lambda>_. True) (lf_orders st) = Some ord \<and> cancellation_written cx n ord st st' s))"
  using cancel_order_succeeds [OF assms] cancel_order_writes_all [OF _ assms] by blast

theorem cancel_order_exact_witness:
  "\<exists>st' s. cancel_order sample_cx \<lparr>lu_id = ''u1'', lu_role = ''ADMIN'', lu_org = None\<rparr> (Some ''org'') None ''o'' sample_life
       = Inr (st', s)
     \<and> s = O_CANCELLED \<and> lf_parcels st' = map cancelled_parcel (lf_parcels sample_life)"
proof -
  let ?user = "\<lparr>lu_id = ''u1'', lu_role = ''ADMIN'', lu_org = None\<rparr>"
  have "\<exists>ord. get_by_id ''o'' (\<lambda>_. True) (lf_orders sample_life) = Some ord
      \<and> assert_order_access_for_mutation ord ?user (Some ''org'') = Inr () \<and> lo_status ord \<noteq> O_CANCELLED"
    by (simp add: sample_life_def assert_order_access_for_mutation_def)
  moreover have "order_packages ''o'' sample_life \<noteq> []"
    "\<forall>p \<in> set (order_packages ''o'' sample_life). pk_status p \<notin> set PACKAGE_STATUSES_BLOCKING_CANCELLATION"
    by (simp_all add: order_packages_def sample_life_def sample_parcel_def status_sets)
  ultimately obtain st' s where run: "cancel_order sample_cx ?user (Some ''org'') None ''o'' sample_life = Inr (st', s)"
    using cancel_order_exact [OF sample_life_ok, of sample_cx ?user "Some ''org''" None "''o''"] by blast
  then obtain ord where ord: "get_by_id ''o'' (\<lambda>_. True) (lf_orders sample_life) = Some ord"
      "cancellation_written sample_cx None ord sample_life st' s"
    using cancel_order_exact [OF sample_life_ok] by blast
  then have rid: "rid ord = ''o''" using get_by_id_Some by blast
  have w: "lf_parcels st' = map (\<lambda>p. if pk_order p = ''o'' \<and> pk_stop p \<noteq> None then cancelled_parcel p else p) (lf_parcels sample_life)"
      "s = (case resolve_order_status_from_packages (package_status_breakdown_for_order ''o'' st') of
        None \<Rightarrow> lo_status ord | Some s' \<Rightarrow> s')"
    using ord(2) unfolding cancellation_written_def rid by simp_all
  from w(1) have parcels: "lf_parcels st' = map cancelled_parcel (lf_parcels sample_life)"
    by (simp add: sample_life_def sample_parcel_def)
  then have "package_status_breakdown_for_order ''o'' st' = [P_CANCELLED, P_CANCELLED, P_CANCELLED, P_CANCELLED]"
    by (simp add: package_status_breakdown_for_order_def sample_life_def sample_parcel_def)
  then have "s = O_CANCELLED" unfolding w(2) by (simp add: resolve_order_status_from_packages_def count_all_def status_sets)
  then show ?thesis using run parcels by blast
qed

end
