(* ===== verification/AuthData.thy ===== *)
theory AuthData
  imports Repository
begin

text \<open>
  The state of authentication: users, refresh tokens, device sessions, invites and the one-time codes for documents
  (\<^verbatim>\<open>app/modules/auth/models.py\<close>, \<^verbatim>\<open>app/modules/user/models.py\<close>, \<^verbatim>\<open>app/modules/organizations/repository.py\<close>), the Redis keys
  the services keep, and the queries of the repositories. An operation is an action: it returns a result and a new
  state, also when it raises, because a request rolls back only the database then: what went to Redis and to the job
  queue stays (\<open>run_request\<close>, \<^verbatim>\<open>get_async_session\<close> of \<^verbatim>\<open>app/core/database.py\<close>). Instants are microseconds. Password hashing (argon2),
  token hashing (SHA-256) and the signing of refresh tokens (PyJWT) are parameters, in \<open>auth_env\<close>: \<open>env_encode_refresh\<close>
  takes the subject, the audience, the drawn id and the expiry.
\<close>

subsection \<open>Data\<close>

datatype user_role = SUPER_ADMIN | ADMIN | WAREHOUSE_STAFF | DRIVER | CUSTOMER_B2B | CUSTOMER_B2C

datatype user_status = US_ACTIVE | US_INACTIVE | US_SUSPENDED | US_PENDING_VERIFICATION

datatype client_type = CT_ADMIN | CT_CUSTOMER_B2B | CT_CUSTOMER_B2C | CT_WAREHOUSE | CT_DRIVER

datatype organization_status = OS_DRAFT | OS_ACTIVE | OS_ON_HOLD | OS_SUSPENDED | OS_INACTIVE

datatype driver_account_status = DA_DRAFT | DA_PENDING_ACTIVATION | DA_ACTIVE | DA_SUSPENDED | DA_INACTIVE

datatype contact_status = CS_PENDING | CS_ACTIVE | CS_INACTIVE

datatype doc_access_scope = ORG_DOCUMENTS | DRIVER_DOCUMENTS | VEHICLE_DOCUMENTS

fun user_role_value :: "user_role \<Rightarrow> string" where
  "user_role_value SUPER_ADMIN = ''SUPER_ADMIN''"
| "user_role_value ADMIN = ''ADMIN''"
| "user_role_value WAREHOUSE_STAFF = ''WAREHOUSE_STAFF''"
| "user_role_value DRIVER = ''DRIVER''"
| "user_role_value CUSTOMER_B2B = ''CUSTOMER_B2B''"
| "user_role_value CUSTOMER_B2C = ''CUSTOMER_B2C''"

fun client_type_value :: "client_type \<Rightarrow> string" where
  "client_type_value CT_ADMIN = ''ADMIN''"
| "client_type_value CT_CUSTOMER_B2B = ''CUSTOMER_B2B''"
| "client_type_value CT_CUSTOMER_B2C = ''CUSTOMER_B2C''"
| "client_type_value CT_WAREHOUSE = ''WAREHOUSE''"
| "client_type_value CT_DRIVER = ''DRIVER''"

fun role_client_type :: "user_role \<Rightarrow> client_type" where
  \<comment> \<open>\<^verbatim>\<open>ROLE_TO_CLIENT_TYPE\<close>\<close>
  "role_client_type SUPER_ADMIN = CT_ADMIN"
| "role_client_type ADMIN = CT_ADMIN"
| "role_client_type WAREHOUSE_STAFF = CT_WAREHOUSE"
| "role_client_type DRIVER = CT_DRIVER"
| "role_client_type CUSTOMER_B2B = CT_CUSTOMER_B2B"
| "role_client_type CUSTOMER_B2C = CT_CUSTOMER_B2C"

definition all_roles :: "user_role list" where
  "all_roles = [SUPER_ADMIN, ADMIN, WAREHOUSE_STAFF, DRIVER, CUSTOMER_B2B, CUSTOMER_B2C]"

definition parse_role :: "string \<Rightarrow> user_role option" where
  "parse_role s = find (\<lambda>r. user_role_value r = s) all_roles"

record user_acct = row +
  ua_email :: string
  ua_password_hash :: string
  ua_role :: user_role
  ua_status :: user_status
  ua_force_password_change :: bool
  ua_password_changed_at :: "int option"
  ua_last_login :: "int option"
  ua_inactive_reason :: "string option"
  ua_inactivated_at :: "int option"
  ua_failed_login_attempts :: int
  ua_locked_until :: "int option"
  ua_session_sv :: int
  ua_organization_id :: "string option"
  ua_region_id :: "string option"
  ua_email_verified :: bool

record refresh_token =
  rt_id :: string
  rt_user_id :: string
  rt_token_hash :: string
  rt_access_jti :: "string option"
  rt_expires_at :: int
  rt_revoked :: bool
  rt_revoked_at :: "int option"
  rt_session_id :: "string option"
  rt_created_at :: int

record device_session =
  ds_session_id :: string
  ds_user_id :: string
  ds_revoked :: bool
  ds_revoked_at :: "int option"
  ds_last_seen_at :: "int option"
  ds_inactivity_expires_at :: "int option"
  ds_user_agent :: "string option"
  ds_ip_address :: "string option"

record invite =
  iv_id :: string
  iv_user_id :: string
  iv_token_hash :: string
  iv_expires_at :: int
  iv_used_at :: "int option"
  iv_invited_by :: "string option"

record doc_otp =
  do_id :: string
  do_user_id :: string
  do_code :: string
  do_scope :: doc_access_scope
  do_expires_at :: int
  do_is_used :: bool
  do_created_at :: int

record doc_token =
  dt_user_id :: string
  dt_token_hash :: string
  dt_scope :: doc_access_scope
  dt_expires_at :: int
  dt_revoked_at :: "int option"

record driver_acct = row +
  dv_user_id :: string
  dv_account_status :: driver_account_status

record org_contact =
  oc_user_id :: string
  oc_status :: contact_status

record auth_audit =
  aa_action :: string
  aa_entity_id :: "string option"
  aa_user_id :: "string option"

datatype auth_job =
    SendVerificationEmail string
  | SendPasswordResetEmail string string
  | SendSupportIssuedPasswordEmail string string
  | SendDocOtpEmail string string doc_access_scope

subsection \<open>Redis\<close>

text \<open>
  The keys are built from a prefix of their own and an identifier (\<^verbatim>\<open>token_bl:<jti>\<close>, \<^verbatim>\<open>pwd_reset_otp:<user>\<close>); a constructor
  stands for each prefix. \<open>RStamp\<close> is the text \<^verbatim>\<open><hash or id>:<seconds>\<close>, whose first part holds no colon.
\<close>

datatype redis_key =
    TokenBlacklist string
  | SessionRevoked string
  | UserSuspended string
  | RevokedReplay string string
  | PwdReset string
  | PwdResetCooldown string
  | PwdResetOtp string
  | PwdResetSess string
  | PwdResetUserSess string
  | InviteSend string
  | InviteSendCooldown string
  | DocOtpFail string doc_access_scope
  | DocOtpLock string doc_access_scope

datatype redis_value = RFlag | RCount int | RStamp string int | RText string

type_synonym redis = "redis_key \<Rightarrow> (redis_value \<times> int option) option"

definition seconds :: "int \<Rightarrow> int" where
  "seconds n = n * 1000000"

definition redis_get :: "int \<Rightarrow> redis_key \<Rightarrow> redis \<Rightarrow> redis_value option" where
  "redis_get now k r =
     (case r k of
        Some (v, None) \<Rightarrow> Some v
      | Some (v, Some t) \<Rightarrow> if now < t then Some v else None
      | None \<Rightarrow> None)"

definition redis_exists :: "int \<Rightarrow> redis_key \<Rightarrow> redis \<Rightarrow> bool" where
  "redis_exists now k r \<longleftrightarrow> redis_get now k r \<noteq> None"

definition redis_set :: "int \<Rightarrow> redis_key \<Rightarrow> redis_value \<Rightarrow> int \<Rightarrow> redis \<Rightarrow> redis" where
  \<comment> \<open>\<^verbatim>\<open>SET key value EX ttl\<close>\<close>
  "redis_set now k v ttl r = r(k \<mapsto> (v, Some (now + seconds ttl)))"

definition redis_delete :: "redis_key \<Rightarrow> redis \<Rightarrow> redis" where
  "redis_delete k r = r(k := None)"

definition redis_count :: "redis_value option \<Rightarrow> int" where
  \<comment> \<open>\<^verbatim>\<open>int(current) if current else 0\<close>\<close>
  "redis_count v = (case v of Some (RCount n) \<Rightarrow> n | _ \<Rightarrow> 0)"

definition redis_incr :: "int \<Rightarrow> redis_key \<Rightarrow> redis \<Rightarrow> int \<times> redis" where
  "redis_incr now k r =
     (let n = redis_count (redis_get now k r) + 1;
          expiry = (if redis_exists now k r then snd (the (r k)) else None)
      in (n, r(k \<mapsto> (RCount n, expiry))))"

definition redis_expire :: "int \<Rightarrow> redis_key \<Rightarrow> int \<Rightarrow> redis \<Rightarrow> redis" where
  "redis_expire now k ttl r =
     (case redis_get now k r of None \<Rightarrow> r | Some v \<Rightarrow> r(k \<mapsto> (v, Some (now + seconds ttl))))"

definition redis_ttl :: "int \<Rightarrow> redis_key \<Rightarrow> redis \<Rightarrow> int" where
  \<comment> \<open>whole seconds, rounded; -2 without the key and -1 without an expiry\<close>
  "redis_ttl now k r =
     (if \<not> redis_exists now k r then -2
      else case snd (the (r k)) of None \<Rightarrow> -1 | Some t \<Rightarrow> ((t - now) div 1000 + 500) div 1000)"

lemma redis_get_upd [simp]:
  "redis_get now k (r(k' \<mapsto> (v, e))) =
     (if k = k' then (case e of None \<Rightarrow> Some v | Some t \<Rightarrow> if now < t then Some v else None)
      else redis_get now k r)"
  "redis_get now k (r(k' := None)) = (if k = k' then None else redis_get now k r)"
  by (simp_all add: redis_get_def split: option.splits)

lemma redis_get_later: "redis_get now k r = None \<Longrightarrow> now \<le> now' \<Longrightarrow> redis_get now' k r = None"
  by (auto simp: redis_get_def split: option.splits prod.splits if_splits)

lemma redis_get_earlier: "redis_get now' k r = Some v \<Longrightarrow> now \<le> now' \<Longrightarrow> redis_get now k r = Some v"
  by (auto simp: redis_get_def split: option.splits prod.splits if_splits)

subsection \<open>State and actions\<close>

record auth_state =
  as_now :: int
  as_users :: "user_acct list"
  as_tokens :: "refresh_token list"
  as_sessions :: "device_session list"
  as_invites :: "invite list"
  as_doc_otps :: "doc_otp list"
  as_doc_tokens :: "doc_token list"
  as_drivers :: "driver_acct list"
  as_orgs :: "(string \<times> organization_status) list"
  as_contacts :: "org_contact list"
  as_audit :: "auth_audit list"
  as_redis :: redis
  as_jobs :: "auth_job list"

record refresh_claims =
  rc_sub :: string
  rc_aud :: "string option"

record auth_env =
  env_verify :: "string \<Rightarrow> string \<Rightarrow> bool"
  env_hash_password :: "string \<Rightarrow> string"
  env_needs_rehash :: "string \<Rightarrow> bool"
  env_hash_token :: "string \<Rightarrow> string"
  env_decode_refresh :: "int \<Rightarrow> string \<Rightarrow> refresh_claims option"
  env_encode_refresh :: "string \<Rightarrow> string \<Rightarrow> string \<Rightarrow> int \<Rightarrow> string"
  env_decode_verification :: "int \<Rightarrow> string \<Rightarrow> string option"
  env_access_minutes :: int
  env_refresh_days :: int

record client_meta =
  cm_ip_address :: "string option"
  cm_user_agent :: "string option"

type_synonym 'a act = "auth_state \<Rightarrow> 'a result \<times> auth_state"

definition act_return :: "'a \<Rightarrow> 'a act" where
  "act_return x st = (Inr x, st)"

definition act_raise :: "app_error \<Rightarrow> 'a act" where
  "act_raise e st = (Inl e, st)"

definition act_bind :: "'a act \<Rightarrow> ('a \<Rightarrow> 'b act) \<Rightarrow> 'b act" where
  "act_bind m f st = (case m st of (Inl e, st') \<Rightarrow> (Inl e, st') | (Inr x, st') \<Rightarrow> f x st')"

definition act_get :: "(auth_state \<Rightarrow> 'a) \<Rightarrow> 'a act" where
  "act_get f st = (Inr (f st), st)"

definition act_modify :: "(auth_state \<Rightarrow> auth_state) \<Rightarrow> unit act" where
  "act_modify f st = (Inr (), f st)"

definition act_require :: "bool \<Rightarrow> app_error \<Rightarrow> unit act" where
  "act_require b e = (if b then act_return () else act_raise e)"

definition act_when :: "bool \<Rightarrow> unit act \<Rightarrow> unit act" where
  "act_when b m = (if b then m else act_return ())"

fun act_for :: "('a \<Rightarrow> unit act) \<Rightarrow> 'a list \<Rightarrow> unit act" where
  "act_for f [] = act_return ()"
| "act_for f (x # xs) = act_bind (f x) (\<lambda>_. act_for f xs)"

definition run_request :: "'a act \<Rightarrow> auth_state \<Rightarrow> 'a result \<times> auth_state" where
  \<comment> \<open>commit on return, roll the database back on an exception; Redis and the queue are not part of the transaction\<close>
  "run_request m st =
     (case m st of
        (Inr x, st') \<Rightarrow> (Inr x, st')
      | (Inl e, st') \<Rightarrow> (Inl e, st\<lparr>as_redis := as_redis st', as_jobs := as_jobs st'\<rparr>))"

lemma act_simps [simp]:
  "act_return x st = (Inr x, st)" "act_raise e st = (Inl e, st)"
  "act_get f st = (Inr (f st), st)" "act_modify g st = (Inr (), g st)"
  "act_require b e st = (if b then (Inr (), st) else (Inl e, st))"
  "act_when b m st = (if b then m st else (Inr (), st))"
  by (simp_all add: act_return_def act_raise_def act_get_def act_modify_def act_require_def act_when_def)

lemma act_bind_simps [simp]:
  "m st = (Inr x, st') \<Longrightarrow> act_bind m f st = f x st'"
  "m st = (Inl e, st') \<Longrightarrow> act_bind m f st = (Inl e, st')"
  by (simp_all add: act_bind_def)

lemma act_bind_Inr:
  "act_bind m f st = (Inr y, st') \<longleftrightarrow> (\<exists>x st1. m st = (Inr x, st1) \<and> f x st1 = (Inr y, st'))"
  by (auto simp: act_bind_def split: prod.splits sum.splits)

lemma fst_run_request [simp]: "fst (run_request m st) = fst (m st)"
  by (simp add: run_request_def split: prod.splits sum.splits)

lemma run_request_Inr: "run_request m st = (Inr x, st') \<longleftrightarrow> m st = (Inr x, st')"
  by (auto simp: run_request_def split: prod.splits sum.splits)

lemma run_request_Inl:
  "run_request m st = (Inl e, st') \<longleftrightarrow>
     (\<exists>st1. m st = (Inl e, st1) \<and> st' = st\<lparr>as_redis := as_redis st1, as_jobs := as_jobs st1\<rparr>)"
  by (auto simp: run_request_def split: prod.splits sum.splits)

subsection \<open>Users\<close>

definition find_by_email :: "string \<Rightarrow> auth_state \<Rightarrow> user_acct option" where
  "find_by_email email st = find (\<lambda>u. ua_email u = py_lower (strip email)) (as_users st)"

definition get_user :: "string \<Rightarrow> auth_state \<Rightarrow> user_acct option" where
  "get_user i st = get_by_id i (\<lambda>_. True) (as_users st)"

definition sql_update_user :: "string \<Rightarrow> (user_acct \<Rightarrow> user_acct) \<Rightarrow> auth_state \<Rightarrow> auth_state" where
  \<comment> \<open>\<^verbatim>\<open>update(User).where(User.id == i).values(...)\<close>: the version stays\<close>
  "sql_update_user i f st = st\<lparr>as_users := map (\<lambda>u. if rid u = i then f u else u) (as_users st)\<rparr>"

definition update_user :: "string \<Rightarrow> (user_acct \<Rightarrow> user_acct) \<Rightarrow> unit act" where
  \<comment> \<open>\<^verbatim>\<open>BaseRepository.update_by_id\<close>\<close>
  "update_user i f st =
     (case update_by_id ''users'' i f None (\<lambda>_. True) (as_users st) of
        Inl e \<Rightarrow> (Inl e, st)
      | Inr (users, _) \<Rightarrow> (Inr (), st\<lparr>as_users := users\<rparr>))"

definition increment_failed_attempts :: "string \<Rightarrow> int act" where
  "increment_failed_attempts i =
     act_bind (act_modify (sql_update_user i
       (\<lambda>u. u\<lparr>ua_failed_login_attempts := ua_failed_login_attempts u + 1\<rparr>))) (\<lambda>_.
     act_bind (act_get (get_user i)) (\<lambda>u.
     case u of None \<Rightarrow> act_raise NoResultFound | Some u \<Rightarrow> act_return (ua_failed_login_attempts u)))"

definition lock_account :: "string \<Rightarrow> int \<Rightarrow> auth_state \<Rightarrow> auth_state" where
  "lock_account i until = sql_update_user i (\<lambda>u. u\<lparr>ua_locked_until := Some until\<rparr>)"

definition reset_failed_attempts :: "string \<Rightarrow> auth_state \<Rightarrow> auth_state" where
  "reset_failed_attempts i =
     sql_update_user i (\<lambda>u. u\<lparr>ua_failed_login_attempts := 0, ua_locked_until := None\<rparr>)"

definition mark_email_verified :: "string \<Rightarrow> auth_state \<Rightarrow> auth_state" where
  "mark_email_verified i = sql_update_user i (\<lambda>u. u\<lparr>ua_email_verified := True, ua_status := US_ACTIVE\<rparr>)"

definition update_last_login :: "string \<Rightarrow> auth_state \<Rightarrow> auth_state" where
  "update_last_login i st = sql_update_user i (\<lambda>u. u\<lparr>ua_last_login := Some (as_now st)\<rparr>) st"

definition raise_session_sv :: "string \<Rightarrow> auth_state \<Rightarrow> auth_state" where
  "raise_session_sv i = sql_update_user i (\<lambda>u. u\<lparr>ua_session_sv := ua_session_sv u + 1\<rparr>)"

definition increment_session_sv :: "string \<Rightarrow> int act" where
  "increment_session_sv i =
     act_bind (act_modify (raise_session_sv i)) (\<lambda>_.
     act_bind (act_get (get_user i)) (\<lambda>u.
     case u of None \<Rightarrow> act_raise NoResultFound | Some u \<Rightarrow> act_return (ua_session_sv u)))"

definition atomic_password_reset :: "string \<Rightarrow> string \<Rightarrow> int \<Rightarrow> bool act" where
  "atomic_password_reset i new_hash issued_at st =
     (let hit = (\<lambda>u. rid u = i \<and>
            (case ua_password_changed_at u of None \<Rightarrow> True | Some t \<Rightarrow> t \<le> issued_at))
      in (Inr (\<exists>u \<in> set (as_users st). hit u),
          st\<lparr>as_users := map (\<lambda>u. if hit u
            then u\<lparr>ua_password_hash := new_hash, ua_password_changed_at := Some (as_now st)\<rparr> else u)
            (as_users st)\<rparr>))"

subsection \<open>Refresh tokens\<close>

definition token_active :: "int \<Rightarrow> refresh_token \<Rightarrow> bool" where
  "token_active now t \<longleftrightarrow> \<not> rt_revoked t \<and> now < rt_expires_at t"

definition find_by_hash :: "string \<Rightarrow> auth_state \<Rightarrow> refresh_token option" where
  "find_by_hash h st = find (\<lambda>t. rt_token_hash t = h) (as_tokens st)"

definition create_token :: "refresh_token \<Rightarrow> unit act" where
  \<comment> \<open>the primary key and \<^verbatim>\<open>token_hash\<close> are unique\<close>
  "create_token t st =
     (if rt_id t \<in> rt_id ` set (as_tokens st) \<or> rt_token_hash t \<in> rt_token_hash ` set (as_tokens st)
      then (Inl (IntegrityError ''refresh_tokens''), st)
      else (Inr (), st\<lparr>as_tokens := as_tokens st @ [t]\<rparr>))"

definition active_for_user :: "string \<Rightarrow> auth_state \<Rightarrow> refresh_token list" where
  "active_for_user u st = filter (\<lambda>t. rt_user_id t = u \<and> token_active (as_now st) t) (as_tokens st)"

definition count_active_for_user :: "string \<Rightarrow> auth_state \<Rightarrow> nat" where
  "count_active_for_user u st = length (active_for_user u st)"

definition revoke_token :: "int \<Rightarrow> refresh_token \<Rightarrow> refresh_token" where
  "revoke_token now t = t\<lparr>rt_revoked := True, rt_revoked_at := Some now\<rparr>"

definition revoke_where :: "(refresh_token \<Rightarrow> bool) \<Rightarrow> auth_state \<Rightarrow> auth_state" where
  "revoke_where P st =
     st\<lparr>as_tokens := map (\<lambda>t. if P t then revoke_token (as_now st) t else t) (as_tokens st)\<rparr>"

definition revoke_oldest_keeping :: "string \<Rightarrow> nat \<Rightarrow> auth_state \<Rightarrow> auth_state" where
  "revoke_oldest_keeping u keep st =
     (let newest_first = map rt_id (sort_key (\<lambda>t. - rt_created_at t) (active_for_user u st));
          old = drop keep newest_first
      in if old = [] then st else revoke_where (\<lambda>t. rt_id t \<in> set old) st)"

definition get_active_access_jtis :: "string \<Rightarrow> auth_state \<Rightarrow> string list" where
  "get_active_access_jtis u st = List.map_filter rt_access_jti (active_for_user u st)"

definition in_sessions :: "string list \<Rightarrow> refresh_token \<Rightarrow> bool" where
  "in_sessions sids t \<longleftrightarrow> (case rt_session_id t of None \<Rightarrow> False | Some s \<Rightarrow> s \<in> set sids)"

definition get_active_access_jtis_for_sessions :: "string list \<Rightarrow> auth_state \<Rightarrow> string list" where
  "get_active_access_jtis_for_sessions sids st =
     List.map_filter rt_access_jti
       (filter (\<lambda>t. in_sessions sids t \<and> token_active (as_now st) t) (as_tokens st))"

definition find_active_by_access_jti :: "string \<Rightarrow> string \<Rightarrow> refresh_token option act" where
  "find_active_by_access_jti u jti st =
     (case filter (\<lambda>t. rt_access_jti t = Some jti) (active_for_user u st) of
        [] \<Rightarrow> (Inr None, st)
      | [t] \<Rightarrow> (Inr (Some t), st)
      | _ \<Rightarrow> (Inl (MultipleResultsFound ''refresh_tokens''), st))"

definition revoke :: "string \<Rightarrow> auth_state \<Rightarrow> auth_state" where
  "revoke h = revoke_where (\<lambda>t. rt_token_hash t = h)"

definition revoke_if_active :: "string \<Rightarrow> bool act" where
  "revoke_if_active h st =
     (let hit = (\<lambda>t. rt_token_hash t = h \<and> token_active (as_now st) t)
      in (Inr (\<exists>t \<in> set (as_tokens st). hit t), revoke_where hit st))"

definition attach_session_id_if_missing :: "string \<Rightarrow> string \<Rightarrow> auth_state \<Rightarrow> auth_state" where
  "attach_session_id_if_missing h sid st =
     st\<lparr>as_tokens := map (\<lambda>t. if rt_token_hash t = h \<and> rt_session_id t = None
       then t\<lparr>rt_session_id := Some sid\<rparr> else t) (as_tokens st)\<rparr>"

definition revoke_all_for_user :: "string \<Rightarrow> nat act" where
  "revoke_all_for_user u st =
     (let hit = (\<lambda>t. rt_user_id t = u \<and> \<not> rt_revoked t)
      in (Inr (length (filter hit (as_tokens st))), revoke_where hit st))"

definition revoke_refresh_tokens_for_sessions :: "string list \<Rightarrow> auth_state \<Rightarrow> auth_state" where
  "revoke_refresh_tokens_for_sessions sids st =
     (if sids = [] then st
      else revoke_where (\<lambda>t. in_sessions sids t \<and> token_active (as_now st) t) st)"

definition delete_expired :: "auth_state \<Rightarrow> auth_state" where
  "delete_expired st = st\<lparr>as_tokens := filter (\<lambda>t. \<not> rt_expires_at t < as_now st) (as_tokens st)\<rparr>"

subsection \<open>Device sessions\<close>

definition inactivity_expiry :: "auth_env \<Rightarrow> auth_state \<Rightarrow> int" where
  "inactivity_expiry env st = as_now st + seconds (env_refresh_days env * 86400)"

definition create_session :: "auth_env \<Rightarrow> client_meta \<Rightarrow> string \<Rightarrow> string \<Rightarrow> unit act" where
  "create_session env cm sid u st =
     (if sid \<in> ds_session_id ` set (as_sessions st) then (Inl (IntegrityError ''sessions''), st)
      else (Inr (), st\<lparr>as_sessions := as_sessions st @
        [\<lparr>ds_session_id = sid, ds_user_id = u, ds_revoked = False, ds_revoked_at = None,
          ds_last_seen_at = Some (as_now st), ds_inactivity_expires_at = Some (inactivity_expiry env st),
          ds_user_agent = cm_user_agent cm, ds_ip_address = cm_ip_address cm\<rparr>]\<rparr>))"

definition update_sessions :: "(device_session \<Rightarrow> bool) \<Rightarrow> (device_session \<Rightarrow> device_session) \<Rightarrow> auth_state \<Rightarrow> auth_state" where
  "update_sessions P f st = st\<lparr>as_sessions := map (\<lambda>s. if P s then f s else s) (as_sessions st)\<rparr>"

definition touch_session :: "auth_env \<Rightarrow> client_meta \<Rightarrow> string \<Rightarrow> auth_state \<Rightarrow> auth_state" where
  "touch_session env cm sid st =
     update_sessions (\<lambda>s. ds_session_id s = sid)
       (\<lambda>s. s\<lparr>ds_last_seen_at := Some (as_now st), ds_inactivity_expires_at := Some (inactivity_expiry env st),
              ds_user_agent := cm_user_agent cm, ds_ip_address := cm_ip_address cm\<rparr>) st"

definition list_active_sessions :: "string \<Rightarrow> auth_state \<Rightarrow> device_session list" where
  \<comment> \<open>most recently seen first, sessions never seen last\<close>
  "list_active_sessions u st =
     sort_key (\<lambda>s. case ds_last_seen_at s of None \<Rightarrow> (1 :: int) | Some t \<Rightarrow> min 0 (- t))
       (filter (\<lambda>s. ds_user_id s = u \<and> \<not> ds_revoked s \<and>
          (\<exists>t \<in> set (active_for_user u st). rt_session_id t = Some (ds_session_id s))) (as_sessions st))"

definition session_is_active_for_user :: "string \<Rightarrow> string \<Rightarrow> auth_state \<Rightarrow> bool" where
  "session_is_active_for_user u sid st \<longleftrightarrow>
     (\<exists>s \<in> set (as_sessions st). ds_user_id s = u \<and> ds_session_id s = strip sid \<and> \<not> ds_revoked s)"

definition revoke_device :: "int \<Rightarrow> device_session \<Rightarrow> device_session" where
  "revoke_device now s = s\<lparr>ds_revoked := True, ds_revoked_at := Some now\<rparr>"

definition revoke_session :: "string \<Rightarrow> string \<Rightarrow> nat act" where
  "revoke_session u sid st =
     (let hit = (\<lambda>s. ds_user_id s = u \<and> ds_session_id s = strip sid \<and> \<not> ds_revoked s)
      in (Inr (length (filter hit (as_sessions st))), update_sessions hit (revoke_device (as_now st)) st))"

definition revoke_sessions_except :: "string \<Rightarrow> string \<Rightarrow> string list act" where
  "revoke_sessions_except u keep st =
     (let ids = map ds_session_id (filter (\<lambda>s. ds_user_id s = u \<and> \<not> ds_revoked s
            \<and> ds_session_id s \<noteq> strip keep) (as_sessions st))
      in (Inr ids, if ids = [] then st
          else update_sessions (\<lambda>s. ds_user_id s = u \<and> ds_session_id s \<in> set ids) (revoke_device (as_now st)) st))"

lemma sql_update_ids:
  "(\<And>u. rid (f u) = rid u) \<Longrightarrow> map rid (as_users (sql_update_user i f st)) = map rid (as_users st)"
  by (simp add: sql_update_user_def)

lemma sql_update_rids:
  "(\<And>u. rid (f u) = rid u) \<Longrightarrow> rid ` set (as_users (sql_update_user i f st)) = rid ` set (as_users st)"
  using arg_cong [OF sql_update_ids [of f i st], of set] by simp

lemma get_user_sql_update:
  assumes "\<And>v. rid (f v) = rid v"
  shows "get_user i (sql_update_user i f s) = map_option f (get_user i s)"
proof -
  have "get_by_id i (\<lambda>_. True) (map (\<lambda>u. if rid u = i then f u else u) us)
      = map_option f (get_by_id i (\<lambda>_. True) us)" for us
    using assms by (induction us) simp_all
  then show ?thesis by (simp add: get_user_def sql_update_user_def)
qed

lemma user_frame [simp]:
  "get_user i (st\<lparr>as_audit := a\<rparr>) = get_user i st" "get_user i (st\<lparr>as_redis := r\<rparr>) = get_user i st"
  "get_user i (st\<lparr>as_jobs := j\<rparr>) = get_user i st" "get_user i (st\<lparr>as_tokens := t\<rparr>) = get_user i st"
  "as_now (sql_update_user i f st) = as_now st"
  by (simp_all add: get_user_def sql_update_user_def)

subsection \<open>Predicates that an action keeps\<close>

text \<open>
  \<open>keeps P m\<close>: the state after \<open>m\<close> satisfies \<open>P\<close> if the one before did, whether \<open>m\<close> returned or raised.
\<close>

named_theorems keeps_intros \<open>composition of actions that keep a predicate\<close>

definition keeps :: "(auth_state \<Rightarrow> bool) \<Rightarrow> 'a act \<Rightarrow> bool" where
  "keeps P m \<longleftrightarrow> (\<forall>st. P st \<longrightarrow> P (snd (m st)))"

lemma keepsI: "(\<And>st. P st \<Longrightarrow> P (snd (m st))) \<Longrightarrow> keeps P m"
  by (simp add: keeps_def)

lemma keepsD: "keeps P m \<Longrightarrow> P st \<Longrightarrow> P (snd (m st))"
  by (simp add: keeps_def)

lemma keeps_basic [keeps_intros]:
  "keeps P (act_return x)" "keeps P (act_raise e)" "keeps P (act_get f)" "keeps P (act_require b e)"
  by (simp_all add: keeps_def)

lemma keeps_bind [keeps_intros]: "keeps P m \<Longrightarrow> (\<And>x. keeps P (f x)) \<Longrightarrow> keeps P (act_bind m f)"
  unfolding keeps_def act_bind_def by (auto split: prod.splits sum.splits)

lemma keeps_modify: "(\<And>st. P st \<Longrightarrow> P (f st)) \<Longrightarrow> keeps P (act_modify f)"
  by (simp add: keeps_def)

lemma keeps_when [keeps_intros]: "(b \<Longrightarrow> keeps P m) \<Longrightarrow> keeps P (act_when b m)"
  by (simp add: keeps_def)

lemma keeps_for [keeps_intros]: "(\<And>x. keeps P (f x)) \<Longrightarrow> keeps P (act_for f xs)"
  by (induction xs) (auto intro: keeps_intros)

lemma keeps_query: "(\<And>st. snd (m st) = st) \<Longrightarrow> keeps P m"
  by (simp add: keeps_def)


end
