(* ===== verification/AuthSessions.thy ===== *)
theory AuthSessions
  imports AuthData
begin

text \<open>
  Login, token rotation and logout of \<^verbatim>\<open>AuthService\<close> (\<^verbatim>\<open>app/modules/auth/service.py\<close>) and the check of an access token
  (\<^verbatim>\<open>_get_auth_user\<close> of \<^verbatim>\<open>app/common/deps.py\<close>), as actions on the state of \<open>AuthData\<close>. A request reads the clock once.
  An access token is represented by its claims, which the signature protects. Ids that are drawn are arguments
  (\<open>token_draw\<close>). Log lines, the audit payloads and the shortcuts of the code for its own test settings are left out.
\<close>

subsection \<open>Constants and claims\<close>

definition MAX_LOGIN_ATTEMPTS :: int where "MAX_LOGIN_ATTEMPTS = 5"

definition LOCKOUT_DURATION_MINUTES :: int where "LOCKOUT_DURATION_MINUTES = 15"

definition MAX_ACTIVE_SESSIONS_PER_USER :: nat where "MAX_ACTIVE_SESSIONS_PER_USER = 3"

record access_claims =
  at_sub :: string
  at_role :: string
  at_aud :: "string option"
  at_jti :: "string option"
  at_sid :: "string option"
  at_sv :: "int option"
  at_org_id :: "string option"
  at_exp :: int

record token_draw =
  td_session_id :: string
  td_token_id :: string
  td_access_jti :: string
  td_refresh_jti :: string

record auth_user =
  pr_id :: string
  pr_role :: string
  pr_client_type :: client_type
  pr_jti :: string
  pr_sid :: "string option"
  pr_sv :: "int option"
  pr_organization_id :: "string option"

definition invalid_credentials :: app_error where
  "invalid_credentials = AuthenticationError ''Invalid email or password''"

definition log_auth :: "string \<Rightarrow> string option \<Rightarrow> string option \<Rightarrow> unit act" where
  "log_auth action entity user = act_modify (\<lambda>st. st\<lparr>as_audit := as_audit st @
     [\<lparr>aa_action = action, aa_entity_id = entity, aa_user_id = user\<rparr>]\<rparr>)"

definition blacklist_access_jti :: "auth_env \<Rightarrow> string \<Rightarrow> unit act" where
  "blacklist_access_jti env jti = act_modify (\<lambda>st. st\<lparr>as_redis :=
     redis_set (as_now st) (TokenBlacklist jti) RFlag (env_access_minutes env * 60) (as_redis st)\<rparr>)"

definition mark_session_revoked :: "auth_env \<Rightarrow> string \<Rightarrow> unit act" where
  "mark_session_revoked env sid = act_modify (\<lambda>st. st\<lparr>as_redis :=
     redis_set (as_now st) (SessionRevoked sid) RFlag (env_access_minutes env * 60) (as_redis st)\<rparr>)"

definition whole_seconds :: "int \<Rightarrow> int" where
  \<comment> \<open>times in a token are whole seconds\<close>
  "whole_seconds t = seconds (t div seconds 1)"

definition create_access_token :: "auth_env \<Rightarrow> token_draw \<Rightarrow> user_acct \<Rightarrow> client_type \<Rightarrow> string \<Rightarrow> auth_state \<Rightarrow> access_claims" where
  "create_access_token env d u ct sid st =
     \<lparr>at_sub = rid u, at_role = user_role_value (ua_role u), at_aud = Some (client_type_value ct),
      at_jti = Some (td_access_jti d), at_sid = Some sid, at_sv = Some (ua_session_sv u),
      at_org_id = ua_organization_id u,
      at_exp = whole_seconds (as_now st + seconds (env_access_minutes env * 60))\<rparr>"

definition refresh_expiry :: "auth_env \<Rightarrow> auth_state \<Rightarrow> int" where
  "refresh_expiry env st = as_now st + seconds (env_refresh_days env * 86400)"

definition create_refresh_token :: "auth_env \<Rightarrow> token_draw \<Rightarrow> string \<Rightarrow> client_type \<Rightarrow> auth_state \<Rightarrow> string" where
  "create_refresh_token env d u ct st =
     env_encode_refresh env u (client_type_value ct) (td_refresh_jti d) (refresh_expiry env st)"

definition refresh_row :: "auth_env \<Rightarrow> token_draw \<Rightarrow> string \<Rightarrow> client_type \<Rightarrow> string \<Rightarrow> auth_state \<Rightarrow> refresh_token" where
  "refresh_row env d u ct sid st =
     \<lparr>rt_id = td_token_id d, rt_user_id = u,
      rt_token_hash = env_hash_token env (create_refresh_token env d u ct st),
      rt_access_jti = Some (td_access_jti d), rt_expires_at = refresh_expiry env st, rt_revoked = False,
      rt_revoked_at = None, rt_session_id = Some sid, rt_created_at = as_now st\<rparr>"

subsection \<open>Login\<close>

definition assert_b2b_portal_access :: "user_acct \<Rightarrow> client_type \<Rightarrow> unit act" where
  "assert_b2b_portal_access u ct =
     (if ct \<noteq> CT_CUSTOMER_B2B \<or> ua_role u \<noteq> CUSTOMER_B2B \<or> \<not> truthy_str (ua_organization_id u)
      then act_return ()
      else act_bind (act_get (\<lambda>st. map_of (as_orgs st) (the (ua_organization_id u)))) (\<lambda>org.
           act_require (org \<noteq> Some OS_SUSPENDED) invalid_credentials))"

definition verify_client_type_for_role :: "client_type \<Rightarrow> user_role \<Rightarrow> unit act" where
  "verify_client_type_for_role ct role =
     act_require (ct = role_client_type role)
       (AuthenticationError ''Client type not allowed for your role. Use the correct app or portal for your account.'')"

definition handle_failed_login :: "user_acct \<Rightarrow> unit act" where
  "handle_failed_login u =
     act_bind (increment_failed_attempts (rid u)) (\<lambda>new_count.
     act_bind (log_auth ''auth.login_failed'' (Some (rid u)) (Some (rid u))) (\<lambda>_.
     act_when (MAX_LOGIN_ATTEMPTS \<le> new_count)
       (act_bind (act_modify (\<lambda>st. lock_account (rid u) (as_now st + seconds (LOCKOUT_DURATION_MINUTES * 60)) st)) (\<lambda>_.
        log_auth ''auth.account_locked'' (Some (rid u)) (Some (rid u))))))"

definition is_inactivity_reactivatable :: "user_acct \<Rightarrow> bool" where
  "is_inactivity_reactivatable u \<longleftrightarrow> ua_status u = US_INACTIVE \<and> ua_inactive_reason u = Some ''INACTIVITY''"

definition login_status_error :: "user_acct \<Rightarrow> app_error" where
  "login_status_error u =
     (case ua_status u of
        US_SUSPENDED \<Rightarrow> AuthenticationError ''Your account has been suspended. Please contact support.''
      | US_PENDING_VERIFICATION \<Rightarrow>
          AuthenticationError ''Please Activate your account by clicking the link in the email we sent you.''
      | _ \<Rightarrow> invalid_credentials)"

definition reactivate_user_on_login :: "string \<Rightarrow> unit act" where
  "reactivate_user_on_login i =
     act_bind (act_get (\<lambda>st. \<exists>u \<in> set (as_users st). rid u = i \<and> is_inactivity_reactivatable u)) (\<lambda>hit.
     act_bind (act_modify (\<lambda>st. st\<lparr>as_users := map (\<lambda>u. if rid u = i \<and> is_inactivity_reactivatable u
         then u\<lparr>ua_status := US_ACTIVE, ua_inactive_reason := None, ua_inactivated_at := None\<rparr> else u)
         (as_users st)\<rparr>)) (\<lambda>_.
     act_when hit (log_auth ''client_inactivity.user.reactivated_on_login'' (Some i) (Some i))))"

definition find_driver_by_user_id :: "string \<Rightarrow> driver_acct option act" where
  "find_driver_by_user_id i st =
     (case filter (\<lambda>d. dv_user_id d = i) (as_drivers st) of
        [] \<Rightarrow> (Inr None, st)
      | [d] \<Rightarrow> (Inr (Some d), st)
      | _ \<Rightarrow> (Inl (MultipleResultsFound ''drivers''), st))"

definition promote_driver :: "driver_acct \<Rightarrow> string \<Rightarrow> unit act" where
  \<comment> \<open>a lost race (\<^verbatim>\<open>ConflictError\<close>) is taken for an activation\<close>
  "promote_driver d i st =
     (case update_by_id ''drivers'' (rid d) (\<lambda>d. d\<lparr>dv_account_status := DA_ACTIVE\<rparr>) (Some (version d))
            (\<lambda>_. True) (as_drivers st) of
        Inl (ConflictError m) \<Rightarrow> (Inr (), st)
      | Inl e \<Rightarrow> (Inl e, st)
      | Inr (drivers, d') \<Rightarrow>
          log_auth ''driver.activation.on_login'' (Some (rid d')) (Some i) (st\<lparr>as_drivers := drivers\<rparr>))"

definition activate_driver_on_login :: "string \<Rightarrow> unit act" where
  "activate_driver_on_login i =
     act_bind (find_driver_by_user_id i) (\<lambda>driver.
     case driver of
       None \<Rightarrow> act_return ()
     | Some d \<Rightarrow>
         if dv_account_status d \<noteq> DA_PENDING_ACTIVATION then act_return () else promote_driver d i)"

definition check_driver_login :: "string \<Rightarrow> unit act" where
  "check_driver_login i =
     act_bind (find_driver_by_user_id i) (\<lambda>driver.
     case driver of
       None \<Rightarrow> act_raise invalid_credentials
     | Some d \<Rightarrow>
         if dv_account_status d \<noteq> DA_ACTIVE \<and> dv_account_status d \<noteq> DA_PENDING_ACTIVATION
         then act_raise invalid_credentials
         else act_when (dv_account_status d = DA_PENDING_ACTIVATION) (activate_driver_on_login i))"

definition cap_sessions :: "string \<Rightarrow> auth_state \<Rightarrow> auth_state" where
  "cap_sessions u st =
     (if MAX_ACTIVE_SESSIONS_PER_USER \<le> count_active_for_user u st
      then revoke_oldest_keeping u (MAX_ACTIVE_SESSIONS_PER_USER - 1) st else st)"

definition issue_tokens :: "auth_env \<Rightarrow> client_meta \<Rightarrow> token_draw \<Rightarrow> user_acct \<Rightarrow> client_type \<Rightarrow> (access_claims \<times> string) act" where
  "issue_tokens env cm d u ct =
     act_bind (act_modify (cap_sessions (rid u))) (\<lambda>_.
     act_bind (create_session env cm (td_session_id d) (rid u)) (\<lambda>_.
     act_bind (act_get (create_access_token env d u ct (td_session_id d))) (\<lambda>access.
     act_bind (act_get (create_refresh_token env d (rid u) ct)) (\<lambda>raw.
     act_bind (\<lambda>st. create_token (refresh_row env d (rid u) ct (td_session_id d) st) st) (\<lambda>_.
     act_bind (act_modify (touch_session env cm (td_session_id d))) (\<lambda>_.
     act_bind (log_auth ''auth.session_created'' (Some (td_session_id d)) (Some (rid u))) (\<lambda>_.
     act_return (access, raw))))))))"

definition login_after_password ::
    "auth_env \<Rightarrow> client_meta \<Rightarrow> token_draw \<Rightarrow> user_acct \<Rightarrow> string \<Rightarrow> client_type \<Rightarrow> (access_claims \<times> string) act" where
  "login_after_password env cm d u password ct =
     act_bind (act_when (0 < ua_failed_login_attempts u) (act_modify (reset_failed_attempts (rid u)))) (\<lambda>_.
     act_bind (act_when (env_needs_rehash env (ua_password_hash u))
       (update_user (rid u) (\<lambda>v. v\<lparr>ua_password_hash := env_hash_password env password\<rparr>))) (\<lambda>_.
     act_bind (act_when (is_inactivity_reactivatable u) (reactivate_user_on_login (rid u))) (\<lambda>_.
     act_bind (act_when (ct = CT_DRIVER) (check_driver_login (rid u))) (\<lambda>_.
     act_bind (issue_tokens env cm d u ct) (\<lambda>response.
     act_bind (act_modify (update_last_login (rid u))) (\<lambda>_.
     act_bind (log_auth ''auth.login_success'' (Some (rid u)) (Some (rid u))) (\<lambda>_.
     act_return response)))))))"

definition login ::
    "auth_env \<Rightarrow> client_meta \<Rightarrow> token_draw \<Rightarrow> string \<Rightarrow> string \<Rightarrow> client_type \<Rightarrow> (access_claims \<times> string) act" where
  "login env cm d email password ct =
     act_bind (act_get (\<lambda>st. (as_now st, find_by_email email st))) (\<lambda>(now, user).
     case user of
       None \<Rightarrow> act_raise invalid_credentials
     | Some u \<Rightarrow>
         if (case ua_locked_until u of None \<Rightarrow> False | Some t \<Rightarrow> now < t) then act_raise invalid_credentials
         else if ua_status u \<noteq> US_ACTIVE \<and> \<not> is_inactivity_reactivatable u then act_raise (login_status_error u)
         else
           act_bind (assert_b2b_portal_access u ct) (\<lambda>_.
           act_bind (verify_client_type_for_role ct (ua_role u)) (\<lambda>_.
           if \<not> env_verify env password (ua_password_hash u)
           then act_bind (handle_failed_login u) (\<lambda>_. act_raise invalid_credentials)
           else login_after_password env cm d u password ct)))"

subsection \<open>Rotation of refresh tokens\<close>

definition enforce_revoked_refresh_replay_throttle :: "string \<Rightarrow> string \<Rightarrow> unit act" where
  "enforce_revoked_refresh_replay_throttle user_id token_hash =
     act_bind (\<lambda>st.
       let key = RevokedReplay user_id (take 32 token_hash);
           (n, r) = redis_incr (as_now st) key (as_redis st);
           r' = (if n = 1 then redis_expire (as_now st) key 60 r else r)
       in (Inr n, st\<lparr>as_redis := r'\<rparr>)) (\<lambda>n.
     act_require (n \<le> 24)
       (RateLimitError ''Too many invalid refresh attempts. Please try again later.'' 60))"

definition is_user_suspended :: "string \<Rightarrow> auth_state \<Rightarrow> bool" where
  "is_user_suspended i st \<longleftrightarrow> redis_exists (as_now st) (UserSuspended i) (as_redis st)"

definition suspended_error :: app_error where
  "suspended_error = AuthenticationError ''Your account has been suspended. Please contact support.''"

definition refresh_lookup :: "auth_env \<Rightarrow> string \<Rightarrow> (refresh_claims \<times> refresh_token) act" where
  \<comment> \<open>the part of \<^verbatim>\<open>refresh_tokens\<close> before the token is claimed\<close>
  "refresh_lookup env raw =
     act_bind (act_get (\<lambda>st. env_decode_refresh env (as_now st) raw)) (\<lambda>payload.
     case payload of
       None \<Rightarrow> act_raise (AuthenticationError ''Invalid refresh token'')
     | Some claims \<Rightarrow>
         act_bind (act_get (is_user_suspended (rc_sub claims))) (\<lambda>suspended.
         act_bind (act_require (\<not> suspended) suspended_error) (\<lambda>_.
         act_bind (act_get (find_by_hash (env_hash_token env raw))) (\<lambda>record.
         case record of
           None \<Rightarrow> act_raise (AuthenticationError ''Refresh token not found'')
         | Some t \<Rightarrow>
             if rt_revoked t then
               act_bind (enforce_revoked_refresh_replay_throttle (rc_sub claims) (env_hash_token env raw)) (\<lambda>_.
               act_bind (log_auth ''auth.replay_detected'' (Some (rc_sub claims)) (Some (rc_sub claims))) (\<lambda>_.
               act_raise (AuthenticationError ''Refresh token is no longer valid. Please log in again.'')))
             else
               act_bind (act_get as_now) (\<lambda>now.
               if rt_expires_at t < now then
                 act_bind (act_modify (revoke (env_hash_token env raw))) (\<lambda>_.
                 act_raise (AuthenticationError ''Refresh token has expired''))
               else act_return (claims, t))))))"

definition session_meta :: "string \<Rightarrow> auth_state \<Rightarrow> string option \<times> string option" where
  "session_meta sid st =
     (case find (\<lambda>s. ds_session_id s = sid) (as_sessions st) of
        None \<Rightarrow> (None, None) | Some s \<Rightarrow> (ds_user_agent s, ds_ip_address s))"

definition refresh_session_id ::
    "auth_env \<Rightarrow> client_meta \<Rightarrow> token_draw \<Rightarrow> refresh_claims \<Rightarrow> refresh_token \<Rightarrow> string \<Rightarrow> string act" where
  \<comment> \<open>tokens issued before sessions existed get one now\<close>
  "refresh_session_id env cm d claims t old_hash =
     (case rt_session_id t of
        Some sid \<Rightarrow> act_return sid
      | None \<Rightarrow>
          act_bind (create_session env cm (td_session_id d) (rc_sub claims)) (\<lambda>_.
          act_bind (act_modify (attach_session_id_if_missing old_hash (td_session_id d))) (\<lambda>_.
          act_return (td_session_id d))))"

definition issue_rotated ::
    "auth_env \<Rightarrow> client_meta \<Rightarrow> token_draw \<Rightarrow> user_acct \<Rightarrow> client_type \<Rightarrow> string \<Rightarrow> (access_claims \<times> string) act" where
  "issue_rotated env cm d u ct sid =
     act_bind (act_modify (cap_sessions (rid u))) (\<lambda>_.
     act_bind (act_get (create_access_token env d u ct sid)) (\<lambda>access.
     act_bind (act_get (create_refresh_token env d (rid u) ct)) (\<lambda>raw.
     act_bind (\<lambda>st. create_token (refresh_row env d (rid u) ct sid st) st) (\<lambda>_.
     act_bind (act_get (session_meta sid)) (\<lambda>meta.
     act_bind (act_modify (touch_session env cm sid)) (\<lambda>_.
     act_bind (act_when (meta \<noteq> (cm_user_agent cm, cm_ip_address cm))
       (log_auth ''auth.session_device_changed'' (Some sid) (Some (rid u)))) (\<lambda>_.
     act_bind (log_auth ''auth.session_refreshed'' (Some sid) (Some (rid u))) (\<lambda>_.
     act_return (access, raw)))))))))"

definition check_refresh_audience :: "client_type \<Rightarrow> refresh_claims \<Rightarrow> unit act" where
  "check_refresh_audience ct claims =
     (if \<not> truthy_str (rc_aud claims)
      then act_raise (AuthenticationError ''Refresh token format is outdated; please log in again'')
      else act_require (rc_aud claims = Some (client_type_value ct))
        (AuthenticationError ''Refresh token was issued for a different client. Use the correct app or portal.''))"

definition rotate_claimed ::
    "auth_env \<Rightarrow> client_meta \<Rightarrow> token_draw \<Rightarrow> string \<Rightarrow> client_type option \<Rightarrow> refresh_claims \<Rightarrow> refresh_token
     \<Rightarrow> (access_claims \<times> string) act" where
  \<comment> \<open>the part after the token was claimed\<close>
  "rotate_claimed env cm d raw client claims t =
     (case client of
        None \<Rightarrow> act_raise (AuthenticationError ''Missing client type; send X-Client-Type header'')
      | Some ct \<Rightarrow>
          act_bind (check_refresh_audience ct claims) (\<lambda>_.
          act_bind (act_get (get_user (rc_sub claims))) (\<lambda>user.
          case user of
            None \<Rightarrow> act_raise (AuthenticationError ''User account is not active'')
          | Some u \<Rightarrow>
              act_bind (act_require (ua_status u = US_ACTIVE) (AuthenticationError ''User account is not active'')) (\<lambda>_.
              act_bind (assert_b2b_portal_access u ct) (\<lambda>_.
              act_bind (verify_client_type_for_role ct (ua_role u)) (\<lambda>_.
              act_bind (refresh_session_id env cm d claims t (env_hash_token env raw)) (\<lambda>sid.
              issue_rotated env cm d u ct sid)))))))"

definition refresh_rotate ::
    "auth_env \<Rightarrow> client_meta \<Rightarrow> token_draw \<Rightarrow> string \<Rightarrow> client_type option \<Rightarrow> refresh_claims \<times> refresh_token
     \<Rightarrow> (access_claims \<times> string) act" where
  \<comment> \<open>the part that claims the token and issues the next pair, on the row that was looked up\<close>
  "refresh_rotate env cm d raw client found =
     act_bind (revoke_if_active (env_hash_token env raw)) (\<lambda>revoked_ok.
     if \<not> revoked_ok then
       act_bind (log_auth ''auth.replay_detected'' (Some (rc_sub (fst found))) (Some (rc_sub (fst found)))) (\<lambda>_.
       act_raise (AuthenticationError
         ''Refresh token was already used. If you opened multiple tabs, use the latest session or log in again.''))
     else rotate_claimed env cm d raw client (fst found) (snd found))"

definition refresh_tokens ::
    "auth_env \<Rightarrow> client_meta \<Rightarrow> token_draw \<Rightarrow> string \<Rightarrow> client_type option \<Rightarrow> (access_claims \<times> string) act" where
  "refresh_tokens env cm d raw client =
     act_bind (refresh_lookup env raw) (refresh_rotate env cm d raw client)"

subsection \<open>Logout\<close>

definition kept_session :: "auth_user \<Rightarrow> string act" where
  "kept_session user =
     act_bind (find_active_by_access_jti (pr_id user) (pr_jti user)) (\<lambda>token_ref.
     act_bind (act_get (\<lambda>st. case pr_sid user of None \<Rightarrow> False
         | Some sid \<Rightarrow> sid \<noteq> '''' \<and> session_is_active_for_user (pr_id user) sid st)) (\<lambda>own.
     case token_ref of
       Some t \<Rightarrow>
         (case rt_session_id t of
            Some sid \<Rightarrow> act_return (strip sid)
          | None \<Rightarrow> if own then act_return (strip (the (pr_sid user)))
                    else act_raise (AuthenticationError ''Session identifier missing; please log in again''))
     | None \<Rightarrow> if own then act_return (strip (the (pr_sid user)))
               else act_raise (AuthenticationError ''Session identifier missing; please log in again'')))"

definition logout_other_sessions :: "auth_env \<Rightarrow> auth_user \<Rightarrow> nat act" where
  "logout_other_sessions env user =
     act_bind (kept_session user) (\<lambda>keep.
     act_bind (revoke_sessions_except (pr_id user) keep) (\<lambda>revoked.
     if revoked = [] then act_return 0
     else
       act_bind (act_get (get_active_access_jtis_for_sessions revoked)) (\<lambda>jtis.
       act_bind (act_for (blacklist_access_jti env) jtis) (\<lambda>_.
       act_bind (act_modify (revoke_refresh_tokens_for_sessions revoked)) (\<lambda>_.
       act_bind (act_for (mark_session_revoked env) revoked) (\<lambda>_.
       act_bind (log_auth ''auth.sessions_revoked_other'' (Some (pr_id user)) (Some (pr_id user))) (\<lambda>_.
       act_return (length revoked))))))))"

definition logout_session :: "auth_env \<Rightarrow> auth_user \<Rightarrow> string \<Rightarrow> nat act" where
  "logout_session env user sid =
     act_bind (act_get (get_active_access_jtis_for_sessions [sid])) (\<lambda>jtis.
     act_bind (act_for (blacklist_access_jti env) jtis) (\<lambda>_.
     act_bind (act_modify (revoke_refresh_tokens_for_sessions [sid])) (\<lambda>_.
     act_bind (revoke_session (pr_id user) sid) (\<lambda>revoked.
     act_bind (mark_session_revoked env sid) (\<lambda>_.
     act_bind (log_auth ''auth.session_revoked'' (Some sid) (Some (pr_id user))) (\<lambda>_.
     act_return (if revoked = 0 then 0 else 1)))))))"

definition logout :: "auth_env \<Rightarrow> string \<Rightarrow> unit act" where
  "logout env raw =
     act_bind (act_get (find_by_hash (env_hash_token env raw))) (\<lambda>token_ref.
     act_bind (case token_ref of
         None \<Rightarrow> act_return ()
       | Some t \<Rightarrow> act_when (truthy_str (rt_access_jti t)) (blacklist_access_jti env (the (rt_access_jti t)))) (\<lambda>_.
     act_bind (act_modify (revoke (env_hash_token env raw))) (\<lambda>_.
     log_auth ''auth.logout'' (map_option rt_id token_ref) (map_option rt_user_id token_ref))))"

definition end_listed_sessions :: "auth_env \<Rightarrow> string \<Rightarrow> nat act" where
  "end_listed_sessions env u =
     act_bind (act_get (\<lambda>st. map ds_session_id (list_active_sessions u st))) (\<lambda>sids.
     act_bind (act_get (get_active_access_jtis u)) (\<lambda>jtis.
     act_bind (act_for (blacklist_access_jti env) jtis) (\<lambda>_.
     act_bind (revoke_all_for_user u) (\<lambda>count.
     act_bind (act_for (\<lambda>sid. act_bind (revoke_session u sid) (\<lambda>_. act_return ())) sids) (\<lambda>_.
     act_bind (act_for (mark_session_revoked env) sids) (\<lambda>_.
     act_return count))))))"

definition end_all_sessions :: "auth_env \<Rightarrow> string \<Rightarrow> nat act" where
  \<comment> \<open>the part that \<^verbatim>\<open>logout_all\<close> and \<^verbatim>\<open>_invalidate_all_sessions_for_user\<close> share\<close>
  "end_all_sessions env u =
     act_bind (increment_session_sv u) (\<lambda>_. end_listed_sessions env u)"

definition logout_all :: "auth_env \<Rightarrow> string \<Rightarrow> nat act" where
  "logout_all env raw =
     act_bind (act_get (find_by_hash (env_hash_token env raw))) (\<lambda>token_ref.
     case token_ref of
       None \<Rightarrow> act_return 0
     | Some t \<Rightarrow>
         act_bind (end_all_sessions env (rt_user_id t)) (\<lambda>count.
         act_bind (log_auth ''auth.logout_all'' (Some (rt_user_id t)) (Some (rt_user_id t))) (\<lambda>_.
         act_return count)))"

subsection \<open>Checking an access token\<close>

definition session_revoked_error :: app_error where
  "session_revoked_error = AuthenticationError ''Session has been revoked''"

definition check_session_version :: "access_claims \<Rightarrow> auth_state \<Rightarrow> unit result" where
  "check_session_version c st =
     (case at_sv c of
        None \<Rightarrow> Inr ()
      | Some sv \<Rightarrow>
          (case get_user (at_sub c) st of
             None \<Rightarrow> Inl (AuthenticationError ''User not found'')
           | Some u \<Rightarrow> if sv \<noteq> ua_session_sv u then Inl session_revoked_error else Inr ()))"

definition claimed_sid :: "access_claims \<Rightarrow> string option" where
  "claimed_sid c = (if truthy_str (at_sid c) then Some (strip (the (at_sid c))) else None)"

definition get_auth_user :: "client_type \<Rightarrow> access_claims \<Rightarrow> auth_state \<Rightarrow> auth_user result" where
  "get_auth_user ct c st =
     (if at_exp c \<le> as_now st then Inl (AuthenticationError ''Access token has expired'')
      else if \<not> truthy_str (at_jti c) then Inl (AuthenticationError ''Invalid token format'')
      else if redis_exists (as_now st) (TokenBlacklist (the (at_jti c))) (as_redis st)
      then Inl (AuthenticationError ''Token has been revoked'')
      else if truthy_str (claimed_sid c) \<and> redis_exists (as_now st) (SessionRevoked (the (claimed_sid c))) (as_redis st)
      then Inl session_revoked_error
      else if at_sub c \<noteq> '''' \<and> is_user_suspended (at_sub c) st then Inl suspended_error
      else if \<not> truthy_str (at_aud c)
      then Inl (AuthenticationError ''Token format is outdated; please log in again'')
      else if at_aud c \<noteq> Some (client_type_value ct)
      then Inl (AuthenticationError ''Token was issued for a different client. Use the correct app or portal.'')
      else bind_result (check_session_version c st) (\<lambda>_.
        if (case parse_role (at_role c) of None \<Rightarrow> False | Some r \<Rightarrow> role_client_type r \<noteq> ct)
        then Inl (AuthenticationError ''Role/client type mismatch'')
        else Inr \<lparr>pr_id = at_sub c, pr_role = at_role c, pr_client_type = ct, pr_jti = the (at_jti c),
               pr_sid = claimed_sid c,
               pr_sv = (case at_sv c of Some n \<Rightarrow> if 0 \<le> n then Some n else None | None \<Rightarrow> None),
               pr_organization_id = (if truthy_str (at_org_id c) then at_org_id c else None)\<rparr>))"


end
