(* ===== verification/Credentials.thy ===== *)
theory Credentials
  imports AuthSessions
begin

text \<open>
  Accounts and credentials: registration, e-mail verification, password changes, the reset of a forgotten password by a
  one-time code, invites (\<^verbatim>\<open>app/modules/auth/service.py\<close>), and the one-time codes for documents
  (\<^verbatim>\<open>app/modules/organizations/doc_access_service.py\<close>). Drawn codes and tokens are arguments. Texts are ASCII.
  That the mail link of a registration can be built is an argument (it depends on the configuration).
\<close>

subsection \<open>Accounts\<close>

definition validate_password_strength :: "string \<Rightarrow> unit result" where
  \<comment> \<open>\<^verbatim>\<open>^(?=.*[a-z])(?=.*[A-Z])(?=.*\d)(?=.*[^a-zA-Z0-9]).+$\<close>: a dot stops at a line feed, and one may end the text\<close>
  "validate_password_strength s =
     (let code = (\<lambda>c. of_char c :: nat);
          lower = (\<lambda>c. 97 \<le> code c \<and> code c \<le> 122);
          upper = (\<lambda>c. 65 \<le> code c \<and> code c \<le> 90);
          digit = (\<lambda>c. 48 \<le> code c \<and> code c \<le> 57);
          line = takeWhile (\<lambda>c. code c \<noteq> 10) s
      in if list_ex lower line \<and> list_ex upper line \<and> list_ex digit line
            \<and> list_ex (\<lambda>c. \<not> lower c \<and> \<not> upper c \<and> \<not> digit c) s
            \<and> length s \<le> Suc (length line)
         then Inr ()
         else Inl (ValidationError
           ''Password must contain at least one uppercase letter, one lowercase letter, one digit, and one special character''))"

definition email_exists :: "string \<Rightarrow> auth_state \<Rightarrow> bool" where
  "email_exists email st \<longleftrightarrow> find_by_email email st \<noteq> None"

definition new_user :: "auth_env \<Rightarrow> string \<Rightarrow> string \<Rightarrow> string \<Rightarrow> user_role \<Rightarrow> user_status \<Rightarrow> bool \<Rightarrow> user_acct" where
  "new_user env i email password role status force =
     \<lparr>rid = i, version = 1, ua_email = py_lower (strip email), ua_password_hash = env_hash_password env password,
      ua_role = role, ua_status = status, ua_force_password_change = force, ua_password_changed_at = None,
      ua_last_login = None, ua_inactive_reason = None, ua_inactivated_at = None, ua_failed_login_attempts = 0,
      ua_locked_until = None, ua_session_sv = 0, ua_organization_id = None, ua_region_id = None,
      ua_email_verified = False\<rparr>"

definition insert_user :: "user_acct \<Rightarrow> unit act" where
  \<comment> \<open>primary key and e-mail address are unique\<close>
  "insert_user u st =
     (if rid u \<in> rid ` set (as_users st) \<or> ua_email u \<in> ua_email ` set (as_users st)
      then (Inl (IntegrityError ''users''), st)
      else (Inr (), st\<lparr>as_users := as_users st @ [u]\<rparr>))"

definition push_auth_job :: "auth_job \<Rightarrow> unit act" where
  "push_auth_job j = act_modify (\<lambda>st. st\<lparr>as_jobs := as_jobs st @ [j]\<rparr>)"

definition add_registered :: "auth_env \<Rightarrow> string \<Rightarrow> string \<Rightarrow> string \<Rightarrow> user_role \<Rightarrow> bool act" where
  \<comment> \<open>in a savepoint; a violated index is caught\<close>
  "add_registered env i email password role st =
     (case insert_user (new_user env i email password role US_INACTIVE False) st of
        (Inl e, _) \<Rightarrow> (Inr False, st) | (Inr _, st') \<Rightarrow> (Inr True, st'))"

definition register :: "auth_env \<Rightarrow> string \<Rightarrow> bool \<Rightarrow> string \<Rightarrow> string \<Rightarrow> user_role \<Rightarrow> unit act" where
  \<comment> \<open>the response is the same whether or not the address was known\<close>
  "register env i link email password role =
     act_bind (act_get (email_exists email)) (\<lambda>known.
     if known then act_return ()
     else
       act_bind (add_registered env i email password role) (\<lambda>created.
       act_when created
         (act_bind (act_when link (push_auth_job (SendVerificationEmail i))) (\<lambda>_.
          log_auth ''auth.register'' (Some i) (Some i)))))"

definition is_admin_text :: "string option \<Rightarrow> bool" where
  "is_admin_text r \<longleftrightarrow> r = Some ''ADMIN'' \<or> r = Some ''SUPER_ADMIN''"

definition create_user ::
    "auth_env \<Rightarrow> string \<Rightarrow> string \<Rightarrow> string \<Rightarrow> user_role \<Rightarrow> user_status \<Rightarrow> bool \<Rightarrow> string option \<Rightarrow> string option \<Rightarrow> unit act" where
  \<comment> \<open>\<^verbatim>\<open>SUPER_ADMIN\<close> is in neither list of roles, so nothing is asked of the caller for it\<close>
  "create_user env i email password role status force actor actor_role =
     act_bind (act_require (role \<noteq> CUSTOMER_B2C \<and> role \<noteq> CUSTOMER_B2B)
       (ForbiddenError ''Customer roles (CUSTOMER_B2B, CUSTOMER_B2C) must use the register() endpoint for self-registration'')) (\<lambda>_.
     act_bind (act_require (role \<in> {ADMIN, DRIVER, WAREHOUSE_STAFF} \<longrightarrow> is_admin_text actor_role)
       (ForbiddenError ''Only administrators can create users with staff roles (ADMIN, DRIVER, WAREHOUSE_STAFF)'')) (\<lambda>_.
     act_bind (\<lambda>st. (validate_password_strength password, st)) (\<lambda>_.
     act_bind (act_get (email_exists email)) (\<lambda>known.
     act_bind (act_require (\<not> known) (ConflictError ''Email already registered'')) (\<lambda>_.
     act_bind (insert_user (new_user env i email password role status force)) (\<lambda>_.
     log_auth ''auth.user_created'' (Some i) actor))))))"

definition invalid_verification :: app_error where
  "invalid_verification = AuthenticationError ''Invalid or expired verification link''"

definition verify_email :: "auth_env \<Rightarrow> string \<Rightarrow> unit act" where
  "verify_email env token =
     act_bind (act_get (\<lambda>st. env_decode_verification env (as_now st) token)) (\<lambda>sub.
     case sub of
       None \<Rightarrow> act_raise invalid_verification
     | Some i \<Rightarrow>
         act_bind (act_get (get_user i)) (\<lambda>user.
         case user of
           None \<Rightarrow> act_raise invalid_verification
         | Some u \<Rightarrow>
             if ua_email_verified u then act_return ()
             else act_bind (act_modify (mark_email_verified i)) (\<lambda>_.
                  log_auth ''auth.email_verified'' (Some i) (Some i))))"

subsection \<open>Changing a password\<close>

definition revoke_doc_tokens :: "string \<Rightarrow> auth_state \<Rightarrow> auth_state" where
  \<comment> \<open>\<^verbatim>\<open>revoke_all_active_for_user\<close>\<close>
  "revoke_doc_tokens u st =
     st\<lparr>as_doc_tokens := map (\<lambda>t. if dt_user_id t = u \<and> dt_revoked_at t = None \<and> as_now st < dt_expires_at t
        then t\<lparr>dt_revoked_at := Some (as_now st)\<rparr> else t) (as_doc_tokens st)\<rparr>"

definition store_password :: "auth_env \<Rightarrow> string \<Rightarrow> string \<Rightarrow> bool \<Rightarrow> int \<Rightarrow> user_acct \<Rightarrow> user_acct" where
  "store_password env i password force now u =
     u\<lparr>ua_password_hash := env_hash_password env password, ua_password_changed_at := Some now,
       ua_force_password_change := force\<rparr>"

definition revoke_credentials :: "string \<Rightarrow> unit act" where
  "revoke_credentials i =
     act_bind (revoke_all_for_user i) (\<lambda>_. act_modify (revoke_doc_tokens i))"

definition change_password :: "auth_env \<Rightarrow> string \<Rightarrow> string \<Rightarrow> string \<Rightarrow> unit act" where
  "change_password env i current new =
     act_bind (act_get (\<lambda>st. (as_now st, get_user i st))) (\<lambda>(now, user).
     case user of
       None \<Rightarrow> act_raise (AuthenticationError ''User not found'')
     | Some u \<Rightarrow>
         act_bind (act_require (env_verify env current (ua_password_hash u))
           (AuthenticationError ''Current password is incorrect'')) (\<lambda>_.
         act_bind (update_user i (store_password env i new False now)) (\<lambda>_.
         act_bind (revoke_credentials i) (\<lambda>_.
         log_auth ''auth.password_changed'' (Some i) (Some i)))))"

definition set_password_admin ::
    "auth_env \<Rightarrow> string \<Rightarrow> string \<Rightarrow> bool \<Rightarrow> string option \<Rightarrow> string option \<Rightarrow> unit act" where
  "set_password_admin env i new force actor actor_role =
     act_bind (act_require (actor_role = Some ''ADMIN'')
       (ForbiddenError ''Only administrators can change driver passwords directly'')) (\<lambda>_.
     act_bind (act_get (\<lambda>st. (as_now st, get_user i st))) (\<lambda>(now, user).
     case user of
       None \<Rightarrow> act_raise (AuthenticationError ''User not found'')
     | Some u \<Rightarrow>
         act_bind (act_require (ua_role u = DRIVER)
           (ForbiddenError ''This endpoint can only change passwords for DRIVER users'')) (\<lambda>_.
         act_bind (\<lambda>st. (validate_password_strength new, st)) (\<lambda>_.
         act_bind (update_user i (store_password env i new force now)) (\<lambda>_.
         act_bind (revoke_credentials i) (\<lambda>_.
         log_auth ''auth.password_changed_admin'' (Some i) (Some (str_or actor i))))))))"

definition activate_pending_contacts :: "string \<Rightarrow> auth_state \<Rightarrow> auth_state" where
  "activate_pending_contacts u st =
     st\<lparr>as_contacts := map (\<lambda>c. if oc_user_id c = u \<and> oc_status c = CS_PENDING
        then c\<lparr>oc_status := CS_ACTIVE\<rparr> else c) (as_contacts st)\<rparr>"

definition activate_role_specific_profile :: "user_acct \<Rightarrow> unit act" where
  \<comment> \<open>exceptions of the driver service are swallowed\<close>
  "activate_role_specific_profile u st =
     (if ua_role u = DRIVER then (Inr (), snd (activate_driver_on_login (rid u) st))
      else if ua_role u = CUSTOMER_B2B then (Inr (), activate_pending_contacts (rid u) st)
      else (Inr (), st))"

definition invalidate_all_sessions_for_user :: "auth_env \<Rightarrow> string \<Rightarrow> unit act" where
  "invalidate_all_sessions_for_user env i =
     act_bind (end_all_sessions env i) (\<lambda>_. act_modify (revoke_doc_tokens i))"

definition support_issue_temporary_password ::
    "auth_env \<Rightarrow> auth_user \<Rightarrow> string \<Rightarrow> string \<Rightarrow> (string \<times> string) act" where
  "support_issue_temporary_password env actor i new =
     act_bind (act_require (i \<noteq> pr_id actor)
       (ForbiddenError ''You cannot issue a support password for your own account'')) (\<lambda>_.
     act_bind (act_get (\<lambda>st. (as_now st, get_user i st))) (\<lambda>(now, user).
     case user of
       None \<Rightarrow> act_raise (NotFoundError ''user'' i)
     | Some u \<Rightarrow>
         act_bind (act_require (\<not> env_verify env new (ua_password_hash u))
           (ValidationError ''New password must be different from the user's current password'')) (\<lambda>_.
         act_bind (update_user i (\<lambda>v. (store_password env i new True now v)\<lparr>ua_status := US_ACTIVE\<rparr>)) (\<lambda>_.
         act_bind (activate_role_specific_profile u) (\<lambda>_.
         act_bind (invalidate_all_sessions_for_user env i) (\<lambda>_.
         act_bind (log_auth ''auth.support_password_issued'' (Some i) (Some (pr_id actor))) (\<lambda>_.
         act_bind (push_auth_job (SendSupportIssuedPasswordEmail (ua_email u) new)) (\<lambda>_.
         act_return (i, ua_email u)))))))))"

subsection \<open>Resetting a forgotten password\<close>

definition PWD_RESET_MAX_DAILY_REQUESTS :: int where "PWD_RESET_MAX_DAILY_REQUESTS = 5"

definition PASSWORD_RESET_EXPIRE_MINUTES :: int where "PASSWORD_RESET_EXPIRE_MINUTES = 15"

definition PASSWORD_RESET_SESSION_MINUTES :: int where "PASSWORD_RESET_SESSION_MINUTES = 30"

definition with_redis :: "(int \<Rightarrow> redis \<Rightarrow> redis) \<Rightarrow> unit act" where
  "with_redis f = act_modify (\<lambda>st. st\<lparr>as_redis := f (as_now st) (as_redis st)\<rparr>)"

definition send_throttle_consume :: "redis_key \<Rightarrow> redis_key \<Rightarrow> int \<Rightarrow> redis \<Rightarrow> redis" where
  \<comment> \<open>a counter for a day and a cooldown of 30 seconds that doubles with every request\<close>
  "send_throttle_consume counter cooldown now r =
     (let (n, r1) = redis_incr now counter r;
          r2 = (if n = 1 then redis_expire now counter 86400 r1 else r1)
      in redis_set now cooldown RFlag (30 * 2 ^ nat (n - 1)) r2)"

definition enforce_password_reset_throttle :: "string \<Rightarrow> unit act" where
  "enforce_password_reset_throttle h =
     act_bind (act_get (\<lambda>st. redis_ttl (as_now st) (PwdResetCooldown h) (as_redis st))) (\<lambda>ttl.
     act_bind (act_require (ttl \<le> 0)
       (RateLimitError ''Please wait before requesting another password reset.'' ttl)) (\<lambda>_.
     act_bind (act_get (\<lambda>st. (redis_count (redis_get (as_now st) (PwdReset h) (as_redis st)),
         redis_ttl (as_now st) (PwdReset h) (as_redis st)))) (\<lambda>(count, ttl).
     act_bind (act_require (count < PWD_RESET_MAX_DAILY_REQUESTS)
       (RateLimitError ''Maximum password reset requests reached for today. Please try again tomorrow.'' (max ttl 0))) (\<lambda>_.
     with_redis (send_throttle_consume (PwdReset h) (PwdResetCooldown h))))))"

definition revoke_password_reset_session :: "string \<Rightarrow> unit act" where
  "revoke_password_reset_session i = with_redis (\<lambda>now r.
     case redis_get now (PwdResetUserSess i) r of
       Some (RText h) \<Rightarrow> redis_delete (PwdResetUserSess i) (redis_delete (PwdResetSess h) r)
     | _ \<Rightarrow> r)"

definition store_password_reset_otp :: "auth_env \<Rightarrow> string \<Rightarrow> string \<Rightarrow> unit act" where
  "store_password_reset_otp env i otp = with_redis (\<lambda>now r.
     redis_set now (PwdResetOtp i) (RStamp (env_hash_token env otp) (now div 1000000))
       (PASSWORD_RESET_EXPIRE_MINUTES * 60) r)"

definition try_consume_password_reset_otp :: "auth_env \<Rightarrow> string \<Rightarrow> string \<Rightarrow> bool act" where
  "try_consume_password_reset_otp env i otp =
     act_bind (act_get (\<lambda>st. redis_get (as_now st) (PwdResetOtp i) (as_redis st))) (\<lambda>raw.
     case raw of
       Some (RStamp h iat) \<Rightarrow>
         if h \<noteq> env_hash_token env otp then act_return False
         else act_bind (with_redis (\<lambda>_. redis_delete (PwdResetOtp i))) (\<lambda>_. act_return True)
     | _ \<Rightarrow> act_return False)"

definition request_password_reset :: "auth_env \<Rightarrow> string \<Rightarrow> string \<Rightarrow> client_type \<Rightarrow> unit act" where
  "request_password_reset env otp email ct =
     act_bind (act_get (find_by_email email)) (\<lambda>user.
     case user of
       None \<Rightarrow> act_raise (ValidationError ''Invalid email provided, please provide a valid email address.'')
     | Some u \<Rightarrow>
         act_bind (act_require (role_client_type (ua_role u) = ct)
           (ValidationError ''Invalid email provided, please provide a valid email address.'')) (\<lambda>_.
         act_bind (enforce_password_reset_throttle (env_hash_token env (py_lower (strip email)))) (\<lambda>_.
         act_bind (revoke_password_reset_session (rid u)) (\<lambda>_.
         act_bind (log_auth ''auth.password_reset_requested'' (Some (rid u)) (Some (rid u))) (\<lambda>_.
         act_bind (store_password_reset_otp env (rid u) otp) (\<lambda>_.
         push_auth_job (SendPasswordResetEmail (ua_email u) otp)))))))"

definition invalid_code :: app_error where
  "invalid_code = AuthenticationError ''Invalid or expired verification code''"

definition verify_password_reset_otp :: "auth_env \<Rightarrow> string \<Rightarrow> string \<Rightarrow> string \<Rightarrow> client_type \<Rightarrow> string act" where
  \<comment> \<open>\<open>raw\<close> is the drawn reset token\<close>
  "verify_password_reset_otp env raw email otp ct =
     act_bind (act_get (find_by_email email)) (\<lambda>user.
     case user of
       None \<Rightarrow> act_raise invalid_code
     | Some u \<Rightarrow>
         act_bind (act_require (role_client_type (ua_role u) = ct) invalid_code) (\<lambda>_.
         act_bind (try_consume_password_reset_otp env (rid u) otp) (\<lambda>ok.
         act_bind (act_require ok invalid_code) (\<lambda>_.
         act_bind (revoke_password_reset_session (rid u)) (\<lambda>_.
         act_bind (with_redis (\<lambda>now. redis_set now (PwdResetSess (env_hash_token env raw))
             (RStamp (rid u) (now div 1000000)) (PASSWORD_RESET_SESSION_MINUTES * 60))) (\<lambda>_.
         act_bind (with_redis (\<lambda>now. redis_set now (PwdResetUserSess (rid u))
             (RText (env_hash_token env raw)) (PASSWORD_RESET_SESSION_MINUTES * 60))) (\<lambda>_.
         act_return raw)))))))"

definition invalid_reset :: app_error where
  "invalid_reset = AuthenticationError ''Invalid or expired reset session''"

definition confirm_password_reset :: "auth_env \<Rightarrow> string \<Rightarrow> string \<Rightarrow> client_type \<Rightarrow> unit act" where
  "confirm_password_reset env new token ct =
     (let h = env_hash_token env (strip token) in
      act_bind (act_get (\<lambda>st. redis_get (as_now st) (PwdResetSess h) (as_redis st))) (\<lambda>raw.
      case raw of
        Some (RStamp i iat) \<Rightarrow>
          act_bind (act_get (get_user i)) (\<lambda>user.
          case user of
            None \<Rightarrow> act_raise invalid_reset
          | Some u \<Rightarrow>
              act_bind (act_require (role_client_type (ua_role u) = ct) invalid_reset) (\<lambda>_.
              act_bind (atomic_password_reset i (env_hash_password env new) (seconds iat)) (\<lambda>updated.
              act_bind (act_require updated invalid_reset) (\<lambda>_.
              act_bind (with_redis (\<lambda>_ r. redis_delete (PwdResetUserSess i) (redis_delete (PwdResetSess h) r))) (\<lambda>_.
              act_bind (revoke_credentials i) (\<lambda>_.
              log_auth ''auth.password_reset_confirmed'' (Some i) (Some i)))))))
      | _ \<Rightarrow> act_raise invalid_reset))"

subsection \<open>Invites\<close>

definition invite_scope_ok :: "auth_user \<Rightarrow> string option \<Rightarrow> string option \<Rightarrow> bool" where
  "invite_scope_ok inviter target_org org \<longleftrightarrow>
     is_admin_text (Some (pr_role inviter)) \<or>
     (let norm = (\<lambda>v. case v of None \<Rightarrow> '''' | Some s \<Rightarrow> strip s)
      in norm (pr_organization_id inviter) = norm org \<and> norm org = norm target_org)"

definition enforce_invite_scope_for_target_org ::
    "auth_user \<Rightarrow> string option \<Rightarrow> string \<Rightarrow> string option \<Rightarrow> unit act" where
  "enforce_invite_scope_for_target_org inviter target_org i org =
     (if invite_scope_ok inviter target_org org then act_return ()
      else act_bind (log_auth ''auth.invite_scope_denied'' (Some i) (Some (pr_id inviter))) (\<lambda>_.
           act_raise (ForbiddenError ''You cannot send an invite to this user'')))"

definition invite_send_suppressed :: "string \<Rightarrow> auth_state \<Rightarrow> bool" where
  "invite_send_suppressed i st \<longleftrightarrow>
     0 < redis_ttl (as_now st) (InviteSendCooldown i) (as_redis st) \<or>
     5 \<le> redis_count (redis_get (as_now st) (InviteSend i) (as_redis st))"

definition insert_invite :: "invite \<Rightarrow> unit act" where
  \<comment> \<open>the primary key and \<^verbatim>\<open>token_hash\<close> are unique\<close>
  "insert_invite iv st =
     (if iv_id iv \<in> iv_id ` set (as_invites st) \<or> iv_token_hash iv \<in> iv_token_hash ` set (as_invites st)
      then (Inl (IntegrityError ''invites''), st)
      else (Inr (), st\<lparr>as_invites := as_invites st @ [iv]\<rparr>))"

definition new_invite :: "auth_env \<Rightarrow> string \<Rightarrow> string \<Rightarrow> string \<Rightarrow> int \<Rightarrow> string option \<Rightarrow> int \<Rightarrow> invite" where
  "new_invite env iid raw u days inviter now =
     \<lparr>iv_id = iid, iv_user_id = u, iv_token_hash = env_hash_token env raw,
      iv_expires_at = now + seconds (days * 86400), iv_used_at = None, iv_invited_by = inviter\<rparr>"

definition create_invite ::
    "auth_env \<Rightarrow> string \<Rightarrow> string \<Rightarrow> auth_user \<Rightarrow> string \<Rightarrow> int option \<Rightarrow> string option \<Rightarrow> string option act" where
  \<comment> \<open>\<open>None\<close> when the sending is throttled, else the raw token; \<open>iid\<close> and \<open>raw\<close> are drawn\<close>
  "create_invite env iid raw inviter i days org =
     act_bind (act_get (get_user i)) (\<lambda>user.
     case user of
       None \<Rightarrow> act_raise (NotFoundError ''user'' i)
     | Some u \<Rightarrow>
         act_bind (act_require (\<not> ua_email_verified u) (ConflictError ''User has already accepted their invite'')) (\<lambda>_.
         act_bind (enforce_invite_scope_for_target_org inviter (ua_organization_id u) (rid u) org) (\<lambda>_.
         act_bind (act_get (invite_send_suppressed i)) (\<lambda>suppress.
         if suppress then act_return None
         else
           act_bind (with_redis (send_throttle_consume (InviteSend i) (InviteSendCooldown i))) (\<lambda>_.
           act_bind (\<lambda>st. insert_invite (new_invite env iid raw i
               (case days of None \<Rightarrow> 7 | Some d \<Rightarrow> if d = 0 then 7 else d) (Some (pr_id inviter)) (as_now st)) st) (\<lambda>_.
           act_bind (log_auth ''auth.invite_created'' (Some iid) (Some (pr_id inviter))) (\<lambda>_.
           act_return (Some raw))))))))"

definition invite_pending :: "string \<Rightarrow> auth_state \<Rightarrow> invite \<Rightarrow> bool" where
  "invite_pending h st iv \<longleftrightarrow> iv_token_hash iv = h \<and> iv_used_at iv = None \<and> as_now st < iv_expires_at iv \<and>
     (case get_user (iv_user_id iv) st of None \<Rightarrow> False | Some u \<Rightarrow> \<not> ua_email_verified u)"

definition find_pending_by_token_hash :: "string \<Rightarrow> auth_state \<Rightarrow> invite option" where
  "find_pending_by_token_hash h st = find (invite_pending h st) (as_invites st)"

definition use_invite :: "int \<Rightarrow> invite \<Rightarrow> invite" where
  "use_invite now iv = iv\<lparr>iv_used_at := Some now\<rparr>"

definition use_invites_where :: "(invite \<Rightarrow> bool) \<Rightarrow> auth_state \<Rightarrow> auth_state" where
  "use_invites_where P st =
     st\<lparr>as_invites := map (\<lambda>iv. if P iv then use_invite (as_now st) iv else iv) (as_invites st)\<rparr>"

definition invalidate_pending_invites_for_user :: "string \<Rightarrow> auth_state \<Rightarrow> auth_state" where
  "invalidate_pending_invites_for_user u = use_invites_where (\<lambda>iv. iv_user_id iv = u \<and> iv_used_at iv = None)"

definition mark_used_and_invalidate_sibling_invites :: "string \<Rightarrow> string \<Rightarrow> bool act" where
  "mark_used_and_invalidate_sibling_invites iid u st =
     (let claim = (\<lambda>iv. iv_id iv = iid \<and> iv_user_id iv = u \<and> iv_used_at iv = None)
      in if \<not> (\<exists>iv \<in> set (as_invites st). claim iv) then (Inr False, st)
         else (Inr True, invalidate_pending_invites_for_user u (use_invites_where claim st)))"

definition activated_user :: "auth_env \<Rightarrow> string \<Rightarrow> int \<Rightarrow> user_acct \<Rightarrow> user_acct" where
  "activated_user env password now u =
     u\<lparr>ua_password_hash := env_hash_password env password, ua_password_changed_at := Some now,
       ua_status := US_ACTIVE, ua_email_verified := True, ua_force_password_change := False\<rparr>"

definition complete_invite_activation :: "auth_env \<Rightarrow> string \<Rightarrow> string \<Rightarrow> user_role list option \<Rightarrow> string act" where
  "complete_invite_activation env token password allowed =
     act_bind (act_get (\<lambda>st. (as_now st, find_pending_by_token_hash (env_hash_token env token) st))) (\<lambda>(now, found).
     case found of
       None \<Rightarrow> act_raise (AuthenticationError ''Invalid or expired invite link'')
     | Some iv \<Rightarrow>
         act_bind (act_get (get_user (iv_user_id iv))) (\<lambda>user.
         case user of
           None \<Rightarrow> act_raise (AuthenticationError ''Invalid invite'')
         | Some u \<Rightarrow>
             act_bind (act_require (case allowed of None \<Rightarrow> True | Some roles \<Rightarrow> ua_role u \<in> set roles)
               (AuthenticationError ''Invalid or expired invite link'')) (\<lambda>_.
             act_bind (mark_used_and_invalidate_sibling_invites (iv_id iv) (iv_user_id iv)) (\<lambda>claimed.
             act_bind (act_require claimed (ConflictError ''Invite has already been accepted'')) (\<lambda>_.
             act_bind (update_user (iv_user_id iv) (activated_user env password now)) (\<lambda>_.
             act_bind (revoke_all_for_user (iv_user_id iv)) (\<lambda>_.
             act_bind (log_auth (if allowed = Some [DRIVER] then ''auth.driver_activation_completed''
                 else ''auth.invite_activated'') (Some (rid u)) (Some (rid u))) (\<lambda>_.
             act_bind (activate_role_specific_profile u) (\<lambda>_.
             act_return (iv_user_id iv))))))))))"

definition complete_driver_activation :: "auth_env \<Rightarrow> string \<Rightarrow> string \<Rightarrow> string act" where
  "complete_driver_activation env token password = complete_invite_activation env token password (Some [DRIVER])"

definition create_driver_activation_invite_row ::
    "auth_env \<Rightarrow> int \<Rightarrow> string \<Rightarrow> string \<Rightarrow> string \<Rightarrow> auth_user option \<Rightarrow> string act" where
  \<comment> \<open>\<open>days\<close> is the setting \<^verbatim>\<open>DRIVER_ACTIVATION_INVITE_EXPIRE_DAYS\<close>\<close>
  "create_driver_activation_invite_row env days iid raw target inviter =
     act_bind (act_get (get_user target)) (\<lambda>user.
     case user of
       None \<Rightarrow> act_raise (NotFoundError ''user'' target)
     | Some u \<Rightarrow>
         act_bind (act_require (ua_role u = DRIVER) (ValidationError ''Not a driver account'')) (\<lambda>_.
         act_bind (act_require (\<not> ua_email_verified u)
           (ConflictError ''This account has already completed activation'')) (\<lambda>_.
         act_bind (find_driver_by_user_id (rid u)) (\<lambda>driver.
         act_bind (act_require (map_option dv_account_status driver = Some DA_PENDING_ACTIVATION)
           (ValidationError ''Driver is not awaiting activation'')) (\<lambda>_.
         act_bind (case inviter of None \<Rightarrow> act_return ()
           | Some p \<Rightarrow> enforce_invite_scope_for_target_org p (ua_organization_id u) (rid u) None) (\<lambda>_.
         act_bind (act_modify (invalidate_pending_invites_for_user (rid u))) (\<lambda>_.
         act_bind (\<lambda>st. insert_invite (new_invite env iid raw (rid u) days (map_option pr_id inviter) (as_now st)) st) (\<lambda>_.
         act_bind (log_auth (if inviter = None then ''auth.public_driver_activation_resend''
             else ''auth.driver_activation_invite_created'') (Some iid)
             (Some (case inviter of None \<Rightarrow> rid u | Some p \<Rightarrow> pr_id p))) (\<lambda>_.
         act_return raw)))))))))"


end
