(* ===== verification/DocAccess.thy ===== *)
theory DocAccess
  imports AuthData
begin

text \<open>
  Step-up access to documents, \<^verbatim>\<open>app/modules/organizations/doc_access_service.py\<close>: a code of six digits is mailed, and
  verifying it grants a token for an hour. Failures are counted in Redis, which a failed request does not roll back, so the
  lock after five of them holds. The drawn code, ids and token are arguments. The shortcuts
  of the code for its own test settings are left out.
\<close>

definition DOC_OTP_VERIFY_FAIL_MAX :: int where "DOC_OTP_VERIFY_FAIL_MAX = 5"

definition doc_redis :: "(int \<Rightarrow> redis \<Rightarrow> redis) \<Rightarrow> unit act" where
  "doc_redis f = act_modify (\<lambda>st. st\<lparr>as_redis := f (as_now st) (as_redis st)\<rparr>)"

definition enforce_doc_otp_verify_not_locked :: "string \<Rightarrow> doc_access_scope \<Rightarrow> unit act" where
  "enforce_doc_otp_verify_not_locked u scope =
     act_bind (act_get (\<lambda>st. (redis_exists (as_now st) (DocOtpLock u scope) (as_redis st),
         redis_ttl (as_now st) (DocOtpLock u scope) (as_redis st)))) (\<lambda>(locked, ttl).
     act_require (\<not> locked) (RateLimitError
       ''Too many invalid OTP attempts for document access. Please wait before trying again or request a new code.''
       (max ttl 0)))"

definition record_doc_otp_verify_failure :: "string \<Rightarrow> doc_access_scope \<Rightarrow> unit act" where
  "record_doc_otp_verify_failure u scope = doc_redis (\<lambda>now r.
     let (n, r1) = redis_incr now (DocOtpFail u scope) r;
         r2 = (if n = 1 then redis_expire now (DocOtpFail u scope) 600 r1 else r1)
     in if DOC_OTP_VERIFY_FAIL_MAX \<le> n
        then redis_delete (DocOtpFail u scope) (redis_set now (DocOtpLock u scope) RFlag 900 r2)
        else r2)"

definition doc_otp_live :: "string \<Rightarrow> doc_access_scope \<Rightarrow> int \<Rightarrow> doc_otp \<Rightarrow> bool" where
  "doc_otp_live u scope now c \<longleftrightarrow>
     do_user_id c = u \<and> do_scope c = scope \<and> \<not> do_is_used c \<and> now < do_expires_at c"

definition use_doc_otps :: "(doc_otp \<Rightarrow> bool) \<Rightarrow> auth_state \<Rightarrow> auth_state" where
  "use_doc_otps P st = st\<lparr>as_doc_otps := map (\<lambda>c. if P c then c\<lparr>do_is_used := True\<rparr> else c) (as_doc_otps st)\<rparr>"

definition find_valid_otp :: "string \<Rightarrow> string \<Rightarrow> doc_access_scope \<Rightarrow> auth_state \<Rightarrow> doc_otp option" where
  \<comment> \<open>the most recent one\<close>
  "find_valid_otp u code scope st =
     (case sort_key (\<lambda>c. - do_created_at c)
        (filter (\<lambda>c. doc_otp_live u scope (as_now st) c \<and> do_code c = code) (as_doc_otps st)) of
        [] \<Rightarrow> None | c # _ \<Rightarrow> Some c)"

definition count_recent_otps :: "string \<Rightarrow> doc_access_scope \<Rightarrow> int \<Rightarrow> auth_state \<Rightarrow> nat" where
  "count_recent_otps u scope since st =
     length (filter (\<lambda>c. do_user_id c = u \<and> since \<le> do_created_at c \<and> do_scope c = scope) (as_doc_otps st))"

definition send_doc_otp :: "string \<Rightarrow> string \<Rightarrow> string \<Rightarrow> doc_access_scope \<Rightarrow> unit act" where
  "send_doc_otp oid code u scope =
     act_bind (act_get (\<lambda>st. count_recent_otps u scope (as_now st - seconds 600) st)) (\<lambda>recent.
     act_bind (act_require (recent < 3) (ValidationError
       ''Too many OTP requests. Maximum 3 per 10 minutes. Please wait and try again.'')) (\<lambda>_.
     act_bind (act_modify (\<lambda>st. use_doc_otps (doc_otp_live u scope (as_now st)) st)) (\<lambda>_.
     act_bind (\<lambda>st. if oid \<in> do_id ` set (as_doc_otps st) then (Inl (IntegrityError ''doc_otps''), st)
        else (Inr (), st\<lparr>as_doc_otps := as_doc_otps st @
          [\<lparr>do_id = oid, do_user_id = u, do_code = code, do_scope = scope,
            do_expires_at = as_now st + seconds 600, do_is_used = False, do_created_at = as_now st\<rparr>]\<rparr>)) (\<lambda>_.
     act_modify (\<lambda>st. st\<lparr>as_jobs := as_jobs st @ [SendDocOtpEmail u code scope]\<rparr>)))))"

definition create_doc_token :: "doc_token \<Rightarrow> unit act" where
  "create_doc_token t st =
     (if dt_token_hash t \<in> dt_token_hash ` set (as_doc_tokens st)
      then (Inl (IntegrityError ''doc_access_tokens''), st)
      else (Inr (), st\<lparr>as_doc_tokens := as_doc_tokens st @ [t]\<rparr>))"

definition verify_doc_otp :: "auth_env \<Rightarrow> string \<Rightarrow> string \<Rightarrow> string \<Rightarrow> doc_access_scope \<Rightarrow> string act" where
  "verify_doc_otp env raw u code scope =
     act_bind (enforce_doc_otp_verify_not_locked u scope) (\<lambda>_.
     act_bind (act_get (find_valid_otp u code scope)) (\<lambda>found.
     case found of
       None \<Rightarrow> act_bind (record_doc_otp_verify_failure u scope) (\<lambda>_.
               act_raise (AuthenticationError ''Invalid or expired OTP. Please request a new one.''))
     | Some c \<Rightarrow>
         act_bind (doc_redis (\<lambda>_. redis_delete (DocOtpFail u scope))) (\<lambda>_.
         act_bind (act_modify (use_doc_otps (\<lambda>p. do_id p = do_id c))) (\<lambda>_.
         act_bind (\<lambda>st. create_doc_token \<lparr>dt_user_id = u, dt_token_hash = env_hash_token env raw, dt_scope = scope,
             dt_expires_at = as_now st + seconds 3600, dt_revoked_at = None\<rparr> st) (\<lambda>_.
         act_return raw)))))"

definition find_valid_doc_token :: "auth_env \<Rightarrow> string \<Rightarrow> doc_access_scope \<Rightarrow> auth_state \<Rightarrow> doc_token option" where
  "find_valid_doc_token env token scope st =
     find (\<lambda>t. dt_token_hash t = env_hash_token env token \<and> dt_scope t = scope \<and> as_now st < dt_expires_at t
       \<and> dt_revoked_at t = None) (as_doc_tokens st)"

definition validate_doc_token :: "auth_env \<Rightarrow> string \<Rightarrow> string \<Rightarrow> doc_access_scope \<Rightarrow> auth_state \<Rightarrow> unit result" where
  \<comment> \<open>the hint where to get a code, which depends on the scope, is left out of the message\<close>
  "validate_doc_token env token u scope st =
     (case find_valid_doc_token env token scope st of
        None \<Rightarrow> Inl (AuthenticationError ''Document access token is missing, invalid, or expired.'')
      | Some t \<Rightarrow> if dt_user_id t \<noteq> u
          then Inl (AuthenticationError ''Document access token does not belong to this user.'') else Inr ())"

end
