(* ===== verification/AuthFrame.thy ===== *)
theory AuthFrame
  imports Credentials DocAccess
begin

text \<open>
  What every operation of authentication promises, whatever it is called with: versions of the session generation only
  grow, refresh tokens are only added or revoked, and marks in Redis that reject an access token are never taken back.
  The interface \<open>auth_frame\<close> states this for a predicate, and its lemmas say that each operation keeps the predicate;
  \<open>auth_step\<close> is one request, one tick of the clock or one run of the cleanup task.
\<close>

subsection \<open>Elementary changes\<close>

definition user_grows :: "user_acct \<Rightarrow> user_acct \<Rightarrow> bool" where
  "user_grows u v \<longleftrightarrow> ua_session_sv u \<le> ua_session_sv v \<and> (ua_email_verified u \<longrightarrow> ua_email_verified v)"

lemma user_grows_refl [simp]: "user_grows u u"
  by (simp add: user_grows_def)

lemma user_grows_fields [simp]:
  "user_grows u (v\<lparr>rid := a, version := b\<rparr>) = user_grows u v"
  "user_grows u (v\<lparr>ua_failed_login_attempts := n\<rparr>) = user_grows u v"
  "user_grows u (v\<lparr>ua_locked_until := t\<rparr>) = user_grows u v"
  "user_grows u (v\<lparr>ua_last_login := l\<rparr>) = user_grows u v"
  "user_grows u (v\<lparr>ua_status := s\<rparr>) = user_grows u v"
  "user_grows u (v\<lparr>ua_inactive_reason := r\<rparr>) = user_grows u v"
  "user_grows u (v\<lparr>ua_inactivated_at := i\<rparr>) = user_grows u v"
  "user_grows u (v\<lparr>ua_password_hash := p\<rparr>) = user_grows u v"
  "user_grows u (v\<lparr>ua_password_changed_at := c\<rparr>) = user_grows u v"
  "user_grows u (v\<lparr>ua_force_password_change := f\<rparr>) = user_grows u v"
  "user_grows u (u\<lparr>ua_session_sv := ua_session_sv u + 1\<rparr>)"
  "user_grows u (u\<lparr>ua_email_verified := True\<rparr>)"
  by (simp_all add: user_grows_def)

definition users_grow :: "user_acct list \<Rightarrow> user_acct list \<Rightarrow> bool" where
  "users_grow us vs \<longleftrightarrow> rid ` set us \<subseteq> rid ` set vs \<and>
     (\<forall>v \<in> set vs. rid v \<in> rid ` set us \<longrightarrow> (\<exists>u \<in> set us. rid u = rid v \<and> user_grows u v))"

definition tokens_shrink :: "refresh_token list \<Rightarrow> refresh_token list \<Rightarrow> bool" where
  "tokens_shrink ts us \<longleftrightarrow> (\<forall>u \<in> set us. \<exists>t \<in> set ts. rt_token_hash u = rt_token_hash t \<and>
     rt_expires_at u = rt_expires_at t \<and> (rt_revoked t \<longrightarrow> rt_revoked u))"

fun redis_typed :: "redis_key \<Rightarrow> redis_value \<Rightarrow> bool" where
  "redis_typed (TokenBlacklist _) v \<longleftrightarrow> v = RFlag"
| "redis_typed (SessionRevoked _) v \<longleftrightarrow> v = RFlag"
| "redis_typed (UserSuspended _) v \<longleftrightarrow> v = RFlag"
| "redis_typed (RevokedReplay _ _) v \<longleftrightarrow> (\<exists>n. v = RCount n)"
| "redis_typed (PwdReset _) v \<longleftrightarrow> (\<exists>n. v = RCount n)"
| "redis_typed (PwdResetCooldown _) v \<longleftrightarrow> v = RFlag"
| "redis_typed (PwdResetOtp _) v \<longleftrightarrow> (\<exists>h n. v = RStamp h n)"
| "redis_typed (PwdResetSess _) v \<longleftrightarrow> (\<exists>h n. v = RStamp h n)"
| "redis_typed (PwdResetUserSess _) v \<longleftrightarrow> (\<exists>h. v = RText h)"
| "redis_typed (InviteSend _) v \<longleftrightarrow> (\<exists>n. v = RCount n)"
| "redis_typed (InviteSendCooldown _) v \<longleftrightarrow> v = RFlag"
| "redis_typed (DocOtpFail _ _) v \<longleftrightarrow> (\<exists>n. v = RCount n)"
| "redis_typed (DocOtpLock _ _) v \<longleftrightarrow> v = RFlag"

fun rejecting_key :: "redis_key \<Rightarrow> bool" where
  "rejecting_key (TokenBlacklist _) = True"
| "rejecting_key (SessionRevoked _) = True"
| "rejecting_key _ = False"

definition redis_step :: "auth_env \<Rightarrow> int \<Rightarrow> redis \<Rightarrow> redis \<Rightarrow> bool" where
  "redis_step env now r r' \<longleftrightarrow> (\<forall>k. r' k = r k \<or> (r' k = None \<and> \<not> rejecting_key k) \<or>
     (\<exists>v e. r' k = Some (v, e) \<and> redis_typed k v \<and>
        (rejecting_key k \<longrightarrow> e = Some (now + seconds (env_access_minutes env * 60)))))"

lemma redis_step_refl [simp]: "redis_step env now r r"
  by (simp add: redis_step_def)

lemma redis_step_trans:
  assumes "redis_step env now r s" and "redis_step env now s t"
  shows "redis_step env now r t"
  unfolding redis_step_def
proof
  fix k
  from assms show "t k = r k \<or> (t k = None \<and> \<not> rejecting_key k) \<or>
     (\<exists>v e. t k = Some (v, e) \<and> redis_typed k v \<and>
        (rejecting_key k \<longrightarrow> e = Some (now + seconds (env_access_minutes env * 60))))"
    unfolding redis_step_def by (elim allE [of _ k]) metis
qed

lemma redis_step_set:
  "redis_typed k v \<Longrightarrow> (rejecting_key k \<Longrightarrow> ttl = env_access_minutes env * 60)
   \<Longrightarrow> redis_step env now r (redis_set now k v ttl r)"
  by (simp add: redis_step_def redis_set_def)

lemma redis_step_delete: "\<not> rejecting_key k \<Longrightarrow> redis_step env now r (redis_delete k r)"
  by (simp add: redis_step_def redis_delete_def)

lemma redis_step_count: "redis_typed k (RCount n) \<Longrightarrow> \<not> rejecting_key k \<Longrightarrow> redis_step env now r (r(k \<mapsto> (RCount n, e)))"
  by (simp add: redis_step_def)

lemma redis_incr_expire:
  assumes "redis_typed k (RCount 0)" and "redis_incr now k r = (n, r')"
  shows "redis_step env now r r'" and "redis_step env now r (redis_expire now k ttl r')"
proof -
  have k: "redis_typed k (RCount m) \<and> \<not> rejecting_key k" for m using assms(1) by (cases k) auto
  obtain e where r': "r' = r(k \<mapsto> (RCount n, e))" using assms(2) by (auto simp: redis_incr_def Let_def)
  show "redis_step env now r r'" unfolding r' using k by (auto intro: redis_step_count)
  show "redis_step env now r (redis_expire now k ttl r')"
    unfolding r' redis_expire_def using k
    by (auto intro: redis_step_count simp: redis_step_def split: option.splits)
qed

lemma redis_step_throttle:
  assumes "redis_typed c (RCount 0)" and "redis_typed d RFlag" and "\<not> rejecting_key d"
  shows "redis_step env now r (send_throttle_consume c d now r)"
proof -
  obtain n r1 where r1: "redis_incr now c r = (n, r1)" by fastforce
  have "redis_step env now r (if n = 1 then redis_expire now c 86400 r1 else r1)"
    using redis_incr_expire [OF assms(1) r1] by simp
  moreover have "redis_step env now s (redis_set now d RFlag ttl s)" for s ttl
    using assms(2,3) by (auto intro: redis_step_set)
  ultimately show ?thesis unfolding send_throttle_consume_def r1 by (auto intro: redis_step_trans)
qed

lemma users_grow_map:
  "(\<And>u. rid (f u) = rid u \<and> user_grows u (f u)) \<Longrightarrow> users_grow us (map f us)"
  unfolding users_grow_def by (force simp: image_image)

lemma users_grow_append: "rid u \<notin> rid ` set us \<Longrightarrow> users_grow us (us @ [u])"
  unfolding users_grow_def by (auto intro: bexI [of _ v for v])

lemma users_grow_row:
  assumes "users_grow us vs" and "i \<in> rid ` set us" and "\<forall>u \<in> set us. rid u = i \<longrightarrow> Q u"
    and "\<And>u v. user_grows u v \<Longrightarrow> Q u \<Longrightarrow> Q v"
  shows "i \<in> rid ` set vs \<and> (\<forall>v \<in> set vs. rid v = i \<longrightarrow> Q v)"
proof -
  have "Q v" if v: "v \<in> set vs" "rid v = i" for v
  proof -
    obtain u where "u \<in> set us" "rid u = rid v" "user_grows u v"
      using assms(1,2) v unfolding users_grow_def by blast
    then show ?thesis using assms(3,4) v(2) by simp
  qed
  then show ?thesis using assms(1,2) by (auto simp: users_grow_def)
qed

lemma tokens_shrink_map:
  "(\<And>t. rt_token_hash (f t) = rt_token_hash t \<and> rt_expires_at (f t) = rt_expires_at t \<and> (rt_revoked t \<longrightarrow> rt_revoked (f t)))
   \<Longrightarrow> tokens_shrink ts (map f ts)"
  unfolding tokens_shrink_def by auto

lemma tokens_shrink_filter: "tokens_shrink ts (filter P ts)"
  unfolding tokens_shrink_def by auto

definition draw_avoids :: "auth_env \<Rightarrow> string set \<Rightarrow> token_draw \<Rightarrow> bool" where
  "draw_avoids env H d \<longleftrightarrow> (\<forall>u ct e. env_hash_token env (env_encode_refresh env u ct (td_refresh_jti d) e) \<notin> H)"

subsection \<open>The interface\<close>

locale auth_frame =
  fixes env :: auth_env and avoid :: "string set" and P :: "auth_state \<Rightarrow> bool"
  assumes users: "P st \<Longrightarrow> users_grow (as_users st) us \<Longrightarrow> P (st\<lparr>as_users := us\<rparr>)"
    and tokens: "P st \<Longrightarrow> tokens_shrink (as_tokens st) ts \<Longrightarrow> P (st\<lparr>as_tokens := ts\<rparr>)"
    and new_token: "P st \<Longrightarrow> rt_token_hash t \<notin> avoid \<Longrightarrow> P (st\<lparr>as_tokens := as_tokens st @ [t]\<rparr>)"
    and redis: "P st \<Longrightarrow> redis_step env (as_now st) (as_redis st) r \<Longrightarrow> P (st\<lparr>as_redis := r\<rparr>)"
    and rest [simp]: "P (st\<lparr>as_sessions := a\<rparr>) = P st" "P (st\<lparr>as_invites := b\<rparr>) = P st"
      "P (st\<lparr>as_doc_otps := c\<rparr>) = P st" "P (st\<lparr>as_doc_tokens := d\<rparr>) = P st" "P (st\<lparr>as_drivers := f\<rparr>) = P st"
      "P (st\<lparr>as_contacts := g\<rparr>) = P st" "P (st\<lparr>as_audit := h\<rparr>) = P st" "P (st\<lparr>as_jobs := j\<rparr>) = P st"
    and clock: "P st \<Longrightarrow> as_now st \<le> n \<Longrightarrow> P (st\<lparr>as_now := n\<rparr>)"
    and rollback: "P st \<Longrightarrow> P st' \<Longrightarrow> P (st\<lparr>as_redis := as_redis st', as_jobs := as_jobs st'\<rparr>)"
begin

lemma keep_user_map: "(\<And>u. rid (f u) = rid u \<and> user_grows u (f u))
   \<Longrightarrow> P st \<Longrightarrow> P (st\<lparr>as_users := map f (as_users st)\<rparr>)"
  by (rule users) (auto intro: users_grow_map)

lemma keep_sql_user: "(\<And>u. rid (f u) = rid u \<and> user_grows u (f u))
   \<Longrightarrow> P st \<Longrightarrow> P (sql_update_user i f st)"
  unfolding sql_update_user_def by (rule keep_user_map) auto

lemma keep_update_user: "(\<And>u. rid (f u) = rid u \<and> user_grows u (f u)) \<Longrightarrow> keeps P (update_user i f)"
  by (rule keepsI) (auto simp: update_user_def update_by_id_def write_row_def intro!: keep_user_map
      split: sum.splits option.splits)

lemma keep_tokens_map:
  "(\<And>t. rt_token_hash (f t) = rt_token_hash t \<and> rt_expires_at (f t) = rt_expires_at t \<and> (rt_revoked t \<longrightarrow> rt_revoked (f t)))
   \<Longrightarrow> P st \<Longrightarrow> P (st\<lparr>as_tokens := map f (as_tokens st)\<rparr>)"
  by (rule tokens) (auto intro: tokens_shrink_map)

lemma keep_revoke_where: "P st \<Longrightarrow> P (revoke_where Q st)"
  unfolding revoke_where_def by (rule keep_tokens_map) (auto simp: revoke_token_def)

lemma keep_token_updates:
  assumes "P st"
  shows "P (cap_sessions u st)" "P (revoke h st)" "P (attach_session_id_if_missing h sid st)"
    "P (revoke_refresh_tokens_for_sessions sids st)" "P (delete_expired st)"
  using assms
  by (auto simp: cap_sessions_def revoke_oldest_keeping_def Let_def revoke_def revoke_refresh_tokens_for_sessions_def
      attach_session_id_if_missing_def delete_expired_def tokens_shrink_filter
      intro: keep_revoke_where keep_tokens_map tokens)

lemma keep_token_actions:
  "keeps P (revoke_if_active h)" "keeps P (revoke_all_for_user u)"
  "keeps P (find_active_by_access_jti u jti)"
  by (auto simp: revoke_if_active_def revoke_all_for_user_def find_active_by_access_jti_def Let_def
      intro!: keepsI keep_revoke_where split: list.splits)

lemma keep_session_actions:
  "keeps P (create_session e cm sid u)" "keeps P (revoke_session u sid)" "keeps P (revoke_sessions_except u keep)"
  by (auto simp: create_session_def revoke_session_def revoke_sessions_except_def update_sessions_def Let_def intro!: keepsI)

lemma keep_rest_updates:
  assumes "P st"
  shows "P (touch_session e cm sid st)" "P (revoke_doc_tokens u st)" "P (activate_pending_contacts u st)"
    "P (use_invites_where Q st)" "P (use_doc_otps R st)"
  using assms by (simp_all add: touch_session_def update_sessions_def revoke_doc_tokens_def
      activate_pending_contacts_def use_invites_where_def use_doc_otps_def)

lemma keep_user_updates:
  assumes "P st"
  shows "P (lock_account i t st)" "P (reset_failed_attempts i st)" "P (mark_email_verified i st)"
    "P (update_last_login i st)" "P (raise_session_sv i st)"
  using assms unfolding lock_account_def reset_failed_attempts_def mark_email_verified_def update_last_login_def
    raise_session_sv_def by (auto intro!: keep_sql_user)

lemma keep_log [keeps_intros]: "keeps P (log_auth a e u)"
  by (simp add: log_auth_def keeps_modify)

lemma keep_job [keeps_intros]: "keeps P (push_auth_job j)"
  by (simp add: push_auth_job_def keeps_modify)

lemma keep_with_redis: "(\<And>now r. redis_step env now r (f now r)) \<Longrightarrow> keeps P (with_redis f)"
  unfolding with_redis_def by (rule keeps_modify) (auto intro: redis)

lemma keep_doc_redis: "(\<And>now r. redis_step env now r (f now r)) \<Longrightarrow> keeps P (doc_redis f)"
  unfolding doc_redis_def by (rule keeps_modify) (auto intro: redis)

lemma keep_marks [keeps_intros]: "keeps P (blacklist_access_jti env jti)" "keeps P (mark_session_revoked env sid)"
  unfolding blacklist_access_jti_def mark_session_revoked_def
  by (auto intro!: keeps_modify redis redis_step_set)

lemma keep_create_token: "rt_token_hash t \<notin> avoid \<Longrightarrow> P st \<Longrightarrow> P (snd (create_token t st))"
  by (simp add: create_token_def new_token)

lemma keep_new_token:
  "draw_avoids env avoid d \<Longrightarrow> keeps P (\<lambda>st. create_token (refresh_row env d u ct sid st) st)"
  by (rule keepsI) (auto simp: refresh_row_def create_refresh_token_def draw_avoids_def intro: keep_create_token)

lemma keep_find_driver [keeps_intros]: "keeps P (find_driver_by_user_id i)"
  by (rule keeps_query) (simp add: find_driver_by_user_id_def split: list.splits)

lemmas keep_updates = keep_token_updates keep_rest_updates keep_user_updates

lemmas keep_actions = keep_token_actions keep_session_actions

end

subsection \<open>Every operation\<close>

context auth_frame
begin

lemma keep_failed_login [keeps_intros]: "keeps P (handle_failed_login u)"
  unfolding handle_failed_login_def increment_failed_attempts_def
  by (auto intro!: keeps_intros keeps_modify keep_sql_user keep_updates split: option.splits)

lemma keep_assert_b2b [keeps_intros]: "keeps P (assert_b2b_portal_access u ct)"
  "keeps P (verify_client_type_for_role ct role)"
  unfolding assert_b2b_portal_access_def verify_client_type_for_role_def by (auto intro!: keeps_intros)

lemma keep_reactivate [keeps_intros]: "keeps P (reactivate_user_on_login i)"
  unfolding reactivate_user_on_login_def
  by (intro keeps_intros keeps_modify keep_user_map) auto

lemma keep_promote [keeps_intros]: "keeps P (promote_driver d i)"
  by (rule keepsI) (auto simp: promote_driver_def log_auth_def split: sum.splits app_error.splits)

lemma keep_activate_driver [keeps_intros]: "keeps P (activate_driver_on_login i)"
  unfolding activate_driver_on_login_def by (auto intro!: keeps_intros split: option.splits)

lemma keep_check_driver [keeps_intros]: "keeps P (check_driver_login i)"
  unfolding check_driver_login_def by (auto intro!: keeps_intros split: option.splits)

lemma keep_issue:
  "draw_avoids env avoid d \<Longrightarrow> keeps P (issue_tokens env cm d u ct)"
  "draw_avoids env avoid d \<Longrightarrow> keeps P (issue_rotated env cm d u ct sid)"
  unfolding issue_tokens_def issue_rotated_def
  by (intro keeps_intros keeps_modify keep_updates keep_actions keep_new_token; assumption)+

lemma keep_login: "draw_avoids env avoid d \<Longrightarrow> keeps P (login env cm d email password ct)"
  unfolding login_def login_after_password_def
  by (auto intro!: keeps_intros keeps_modify keep_updates keep_update_user keep_issue split: option.splits)

lemma keep_replay [keeps_intros]: "keeps P (enforce_revoked_refresh_replay_throttle u h)"
  unfolding enforce_revoked_refresh_replay_throttle_def
proof (intro keeps_intros keepsI)
  fix st
  assume P: "P st"
  obtain n r where r: "redis_incr (as_now st) (RevokedReplay u (take 32 h)) (as_redis st) = (n, r)" by fastforce
  then show "P (snd (let key = RevokedReplay u (take 32 h); (n, r) = redis_incr (as_now st) key (as_redis st);
        r' = if n = 1 then redis_expire (as_now st) key 60 r else r in (Inr n, st\<lparr>as_redis := r'\<rparr>)))"
    using redis_incr_expire [OF _ r] P by (auto intro!: redis)
qed

lemma keep_rotate_claimed: "draw_avoids env avoid d \<Longrightarrow> keeps P (rotate_claimed env cm d raw client claims t)"
  unfolding rotate_claimed_def check_refresh_audience_def refresh_session_id_def
  by (auto intro!: keeps_intros keeps_modify keep_updates keep_actions keep_issue split: option.splits)

lemma keep_refresh: "draw_avoids env avoid d \<Longrightarrow> keeps P (refresh_tokens env cm d raw client)"
  unfolding refresh_tokens_def refresh_lookup_def refresh_rotate_def
  by (auto intro!: keeps_intros keeps_modify keep_updates keep_actions keep_rotate_claimed split: option.splits)

lemma keep_logout:
  "keeps P (logout env raw)" "keeps P (logout_session env user sid)" "keeps P (logout_other_sessions env user)"
  unfolding logout_def logout_session_def logout_other_sessions_def kept_session_def
  by (auto intro!: keeps_intros keeps_modify keep_updates keep_actions split: option.splits)

lemma keep_end_listed [keeps_intros]: "keeps P (end_listed_sessions env u)"
  unfolding end_listed_sessions_def by (auto intro!: keeps_intros keep_actions)

lemma keep_end_all [keeps_intros]: "keeps P (end_all_sessions env u)"
  unfolding end_all_sessions_def increment_session_sv_def
  by (auto intro!: keeps_intros keeps_modify keep_updates split: option.splits)

lemma keep_logout_all: "keeps P (logout_all env raw)"
  unfolding logout_all_def by (auto intro!: keeps_intros split: option.splits)

lemma keep_revoke_credentials [keeps_intros]: "keeps P (revoke_credentials i)"
  unfolding revoke_credentials_def by (intro keeps_intros keeps_modify keep_updates keep_actions)

lemma keep_pure [keeps_intros]: "keeps P (\<lambda>st. (f st, st))"
  by (rule keeps_query) simp

lemma keep_store_password: "keeps P (update_user i (store_password env i new force now))"
  "keeps P (update_user i (\<lambda>v. (store_password env i new force now v)\<lparr>ua_status := US_ACTIVE\<rparr>))"
  by (auto intro!: keep_update_user simp: store_password_def)

lemma keep_passwords:
  "keeps P (change_password env i current new)" "keeps P (set_password_admin env i new force actor actor_role)"
  unfolding change_password_def set_password_admin_def
  by (auto intro!: keeps_intros keep_store_password split: option.splits)

lemma keep_profile [keeps_intros]: "keeps P (activate_role_specific_profile u)"
  unfolding activate_role_specific_profile_def
  using keepsD [OF keep_activate_driver] by (auto intro!: keepsI keep_updates)

lemma keep_support_password: "keeps P (support_issue_temporary_password env actor i new)"
  unfolding support_issue_temporary_password_def invalidate_all_sessions_for_user_def
  by (auto intro!: keeps_intros keeps_modify keep_updates keep_store_password split: option.splits)

lemma keep_insert_user: "keeps P (insert_user u)"
  by (auto simp: insert_user_def intro!: keepsI users users_grow_append)

lemma keep_register: "keeps P (register env i link email password role)"
proof -
  have "keeps P (add_registered env i email password role)"
  proof (rule keepsI)
    fix st
    assume P: "P st"
    then show "P (snd (add_registered env i email password role st))"
      using keepsD [OF keep_insert_user P, of "new_user env i email password role US_INACTIVE False"]
      by (auto simp: add_registered_def split: prod.splits sum.splits)
  qed
  then show ?thesis unfolding register_def by (auto intro!: keeps_intros)
qed

lemma keep_accounts:
  "keeps P (create_user env i email password role status force actor actor_role)" "keeps P (verify_email env token)"
  unfolding create_user_def verify_email_def
  by (auto intro!: keeps_intros keeps_modify keep_updates keep_insert_user split: option.splits)

lemma keep_reset_session [keeps_intros]: "keeps P (revoke_password_reset_session i)"
  unfolding revoke_password_reset_session_def
  by (rule keep_with_redis)
    (auto intro!: redis_step_trans [OF redis_step_delete redis_step_delete] split: option.splits redis_value.splits)

lemma keep_reset_throttle [keeps_intros]: "keeps P (enforce_password_reset_throttle h)"
  unfolding enforce_password_reset_throttle_def
  by (auto intro!: keeps_intros keep_with_redis redis_step_throttle)

lemma keep_request_reset: "keeps P (request_password_reset env otp email ct)"
  unfolding request_password_reset_def store_password_reset_otp_def
  by (auto intro!: keeps_intros keep_with_redis redis_step_set split: option.splits)

lemma keep_verify_reset: "keeps P (verify_password_reset_otp env raw email otp ct)"
  unfolding verify_password_reset_otp_def try_consume_password_reset_otp_def
  by (auto intro!: keeps_intros keep_with_redis redis_step_set redis_step_delete
      split: option.splits redis_value.splits)

lemma keep_atomic_reset [keeps_intros]: "keeps P (atomic_password_reset i h t)"
  unfolding atomic_password_reset_def Let_def by (rule keepsI) (auto intro!: keep_user_map)

lemma keep_confirm_reset: "keeps P (confirm_password_reset env new token ct)"
  unfolding confirm_password_reset_def Let_def
  by (auto intro!: keeps_intros keep_with_redis redis_step_trans [OF redis_step_delete redis_step_delete]
      split: option.splits redis_value.splits)

lemma keep_insert_invite: "keeps P (\<lambda>st. insert_invite (f st) st)"
  by (auto simp: insert_invite_def intro!: keepsI)

lemma keep_invite_scope [keeps_intros]: "keeps P (enforce_invite_scope_for_target_org p a i b)"
  unfolding enforce_invite_scope_for_target_org_def by (auto intro!: keeps_intros)

lemma keep_invites:
  "keeps P (create_invite env iid raw inviter i days org)"
  "keeps P (create_driver_activation_invite_row env n iid raw target who)"
  unfolding create_invite_def create_driver_activation_invite_row_def invalidate_pending_invites_for_user_def
  by (auto intro!: keeps_intros keeps_modify keep_with_redis redis_step_throttle keep_insert_invite keep_updates
      split: option.splits)

lemma keep_claim [keeps_intros]: "keeps P (mark_used_and_invalidate_sibling_invites iid u)"
  unfolding mark_used_and_invalidate_sibling_invites_def invalidate_pending_invites_for_user_def Let_def
  by (auto intro!: keepsI keep_updates)

lemma keep_activation: "keeps P (complete_invite_activation env token password allowed)"
  unfolding complete_invite_activation_def
  by (auto intro!: keeps_intros keep_actions keep_update_user simp: activated_user_def user_grows_def split: option.splits)

lemma keep_doc_failure [keeps_intros]: "keeps P (record_doc_otp_verify_failure u scope)"
  unfolding record_doc_otp_verify_failure_def
proof (rule keep_doc_redis)
  fix now r
  obtain n r1 where r1: "redis_incr now (DocOtpFail u scope) r = (n, r1)" by fastforce
  define r2 where "r2 = (if n = 1 then redis_expire now (DocOtpFail u scope) 600 r1 else r1)"
  have "redis_step env now r r2" using redis_incr_expire [OF _ r1] by (simp add: r2_def)
  moreover have "redis_step env now r2 (redis_delete (DocOtpFail u scope) (redis_set now (DocOtpLock u scope) RFlag 900 r2))"
    by (rule redis_step_trans [OF redis_step_set redis_step_delete]) auto
  ultimately have "redis_step env now r (if DOC_OTP_VERIFY_FAIL_MAX \<le> n
      then redis_delete (DocOtpFail u scope) (redis_set now (DocOtpLock u scope) RFlag 900 r2) else r2)"
    using redis_step_trans by auto
  then show "redis_step env now r (let (n, r1) = redis_incr now (DocOtpFail u scope) r;
      r2 = if n = 1 then redis_expire now (DocOtpFail u scope) 600 r1 else r1
    in if DOC_OTP_VERIFY_FAIL_MAX \<le> n
       then redis_delete (DocOtpFail u scope) (redis_set now (DocOtpLock u scope) RFlag 900 r2) else r2)"
    by (simp add: r1 r2_def [symmetric])
qed

lemma keep_doc_rows [keeps_intros]:
  "keeps P (\<lambda>st. create_doc_token (f st) st)"
  "keeps P (\<lambda>st. if b st then (Inl e, st) else (Inr (), st\<lparr>as_doc_otps := as_doc_otps st @ g st\<rparr>))"
  by (rule keepsI, simp add: create_doc_token_def)+

lemma keep_docs:
  "keeps P (send_doc_otp oid code u scope)" "keeps P (verify_doc_otp env raw u code scope)"
  unfolding send_doc_otp_def verify_doc_otp_def enforce_doc_otp_verify_not_locked_def
  by (auto intro!: keeps_intros keeps_modify keep_updates keep_doc_redis redis_step_delete split: option.splits)

end

subsection \<open>Steps\<close>

definition mark_user_suspended :: "string \<Rightarrow> int \<Rightarrow> unit act" where
  \<comment> \<open>called by the services that suspend an account\<close>
  "mark_user_suspended i ttl = with_redis (\<lambda>now. redis_set now (UserSuspended i) RFlag ttl)"

definition unmark_user_suspended :: "string \<Rightarrow> unit act" where
  "unmark_user_suspended i = with_redis (\<lambda>_. redis_delete (UserSuspended i))"

definition cleanup_expired_tokens :: "unit act" where
  "cleanup_expired_tokens = act_modify delete_expired"

text \<open>
  The route hands \<^verbatim>\<open>logout_session\<close> the text of a parsed UUID, which has no white space at its ends.
\<close>

inductive auth_step :: "auth_env \<Rightarrow> string set \<Rightarrow> auth_state \<Rightarrow> auth_state \<Rightarrow> bool" for env avoid where
  tick: "as_now st \<le> n \<Longrightarrow> auth_step env avoid st (st\<lparr>as_now := n\<rparr>)"
| suspend: "auth_step env avoid st (snd (run_request (mark_user_suspended i ttl) st))"
| unsuspend: "auth_step env avoid st (snd (run_request (unmark_user_suspended i) st))"
| cleanup: "auth_step env avoid st (snd (run_request cleanup_expired_tokens st))"
| login: "draw_avoids env avoid d \<Longrightarrow> auth_step env avoid st (snd (run_request (login env cm d email pw ct) st))"
| refresh: "draw_avoids env avoid d \<Longrightarrow>
    auth_step env avoid st (snd (run_request (refresh_tokens env cm d raw client) st))"
| logout: "auth_step env avoid st (snd (run_request (logout env raw) st))"
| logout_session: "strip sid = sid \<Longrightarrow> auth_step env avoid st (snd (run_request (logout_session env user sid) st))"
| logout_other: "auth_step env avoid st (snd (run_request (logout_other_sessions env user) st))"
| logout_all: "auth_step env avoid st (snd (run_request (logout_all env raw) st))"
| register: "auth_step env avoid st (snd (run_request (register env i link email pw role) st))"
| create_user: "auth_step env avoid st
    (snd (run_request (create_user env i email pw role status force actor actor_role) st))"
| verify_email: "auth_step env avoid st (snd (run_request (verify_email env token) st))"
| change_password: "auth_step env avoid st (snd (run_request (change_password env i current new) st))"
| set_password: "auth_step env avoid st (snd (run_request (set_password_admin env i new force actor actor_role) st))"
| support_password: "auth_step env avoid st (snd (run_request (support_issue_temporary_password env user i new) st))"
| request_reset: "auth_step env avoid st (snd (run_request (request_password_reset env otp email ct) st))"
| verify_reset: "auth_step env avoid st (snd (run_request (verify_password_reset_otp env raw email otp ct) st))"
| confirm_reset: "auth_step env avoid st (snd (run_request (confirm_password_reset env new token ct) st))"
| create_invite: "auth_step env avoid st (snd (run_request (create_invite env iid raw user i days org) st))"
| driver_invite: "auth_step env avoid st
    (snd (run_request (create_driver_activation_invite_row env n iid raw i who) st))"
| activate: "auth_step env avoid st (snd (run_request (complete_invite_activation env token pw allowed) st))"
| send_doc_otp: "auth_step env avoid st (snd (run_request (send_doc_otp oid code i scope) st))"
| verify_doc_otp: "auth_step env avoid st (snd (run_request (verify_doc_otp env raw i code scope) st))"

context auth_frame
begin

lemma keep_request: "keeps P m \<Longrightarrow> P st \<Longrightarrow> P (snd (run_request m st))"
  using keepsD [of P m st] by (auto simp: run_request_def intro: rollback [simplified] split: prod.splits sum.splits)

lemma keep_maintenance:
  "keeps P (mark_user_suspended i ttl)" "keeps P (unmark_user_suspended i)" "keeps P cleanup_expired_tokens"
  unfolding mark_user_suspended_def unmark_user_suspended_def cleanup_expired_tokens_def
  by (auto intro!: keep_with_redis keeps_modify keep_updates redis_step_set redis_step_delete)

lemmas keep_operations = keep_maintenance keep_login keep_refresh keep_logout keep_logout_all keep_register
  keep_accounts keep_passwords keep_support_password keep_request_reset keep_verify_reset keep_confirm_reset
  keep_invites keep_activation keep_docs

lemma step: "auth_step env avoid st st' \<Longrightarrow> P st \<Longrightarrow> P st'"
  by (induction rule: auth_step.induct) (auto intro!: keep_request keep_operations intro: clock)

lemma run: "(auth_step env avoid)\<^sup>*\<^sup>* st st' \<Longrightarrow> P st \<Longrightarrow> P st'"
  by (induction rule: rtranclp_induct) (auto intro: step)

end

subsection \<open>What no operation takes back\<close>

definition dead_token :: "string \<Rightarrow> auth_state \<Rightarrow> bool" where
  "dead_token h st \<longleftrightarrow> (\<forall>t \<in> set (as_tokens st). rt_token_hash t = h \<longrightarrow> \<not> token_active (as_now st) t)"

definition generation_from :: "string \<Rightarrow> int \<Rightarrow> auth_state \<Rightarrow> bool" where
  "generation_from i n st \<longleftrightarrow> i \<in> rid ` set (as_users st) \<and>
     (\<forall>u \<in> set (as_users st). rid u = i \<longrightarrow> n \<le> ua_session_sv u)"

definition verified_account :: "string \<Rightarrow> auth_state \<Rightarrow> bool" where
  "verified_account i st \<longleftrightarrow> i \<in> rid ` set (as_users st) \<and>
     (\<forall>u \<in> set (as_users st). rid u = i \<longrightarrow> ua_email_verified u)"

definition marked_since :: "auth_env \<Rightarrow> redis_key \<Rightarrow> int \<Rightarrow> auth_state \<Rightarrow> bool" where
  "marked_since env k t st \<longleftrightarrow> rejecting_key k \<and> t \<le> as_now st \<and>
     (\<exists>v e. as_redis st k = Some (v, Some e) \<and> t + seconds (env_access_minutes env * 60) \<le> e)"

interpretation dead: auth_frame env "{h}" "dead_token h" for env h
proof
  fix st ts
  assume "dead_token h st" "tokens_shrink (as_tokens st) ts"
  then show "dead_token h (st\<lparr>as_tokens := ts\<rparr>)"
    unfolding dead_token_def tokens_shrink_def token_active_def by fastforce
qed (auto simp: dead_token_def token_active_def)

interpretation generation: auth_frame env avoid "generation_from i n" for env avoid i n
proof
  fix st us
  assume "generation_from i n st" "users_grow (as_users st) us"
  then show "generation_from i n (st\<lparr>as_users := us\<rparr>)"
    unfolding generation_from_def using users_grow_row [of "as_users st" us i "\<lambda>u. n \<le> ua_session_sv u"]
    by (simp add: user_grows_def)
qed (auto simp: generation_from_def)

interpretation verified: auth_frame env avoid "verified_account i" for env avoid i
proof
  fix st us
  assume "verified_account i st" "users_grow (as_users st) us"
  then show "verified_account i (st\<lparr>as_users := us\<rparr>)"
    unfolding verified_account_def using users_grow_row [of "as_users st" us i ua_email_verified]
    by (simp add: user_grows_def)
qed (auto simp: verified_account_def)

interpretation marked: auth_frame env avoid "marked_since env k t" for env avoid k t
proof
  fix st r
  assume P: "marked_since env k t st" and "redis_step env (as_now st) (as_redis st) r"
  then have "r k = as_redis st k \<or> (\<exists>v. r k = Some (v, Some (as_now st + seconds (env_access_minutes env * 60))))"
    unfolding marked_since_def redis_step_def by blast
  with P show "marked_since env k t (st\<lparr>as_redis := r\<rparr>)" unfolding marked_since_def by auto
qed (auto simp: marked_since_def)

interpretation timed: auth_frame env avoid "\<lambda>st. n \<le> as_now st" for env avoid n
  by unfold_locales auto

end
