(* ===== verification/AuthSafety.thy ===== *)
theory AuthSafety
  imports AuthFrame
begin

text \<open>
  What holds of every run of authentication: refresh tokens are claimed once, access tokens that were logged out stay
  rejected, every user has at most three active refresh tokens and each belongs to a session that is not revoked.
  And what does not hold: a failed login leaves no trace, so the lock after five of them is never stored, and a session
  can be ended by anyone who knows its id.
\<close>

subsection \<open>Refresh tokens are claimed once\<close>

lemma dead_token_revoke: "dead_token h (revoke_where (\<lambda>t. rt_token_hash t = h \<and> token_active (as_now st) t) st)"
  by (simp add: dead_token_def revoke_where_def revoke_token_def token_active_def ball_Un)

lemma dead_not_claimed:
  assumes "dead_token (env_hash_token env raw) st"
  shows "\<exists>e. fst (refresh_rotate env cm d raw client found st) = Inl e"
proof -
  have "fst (revoke_if_active (env_hash_token env raw) st) = Inr False"
    using assms by (auto simp: revoke_if_active_def dead_token_def Let_def)
  then obtain st1 where "revoke_if_active (env_hash_token env raw) st = (Inr False, st1)"
    by (metis prod.collapse)
  then show ?thesis by (simp add: refresh_rotate_def log_auth_def act_bind_def)
qed

lemma refresh_lookup_frame:
  "refresh_lookup env raw st = (Inr (claims, t), st1) \<Longrightarrow> st1 = st \<and> find_by_hash (env_hash_token env raw) st = Some t
     \<and> env_decode_refresh env (as_now st) raw = Some claims \<and> \<not> rt_revoked t"
  unfolding refresh_lookup_def by (auto simp: act_bind_Inr split: option.splits if_splits)

lemma rotate_kills:
  assumes "refresh_rotate env cm d raw client found st = (Inr x, st')" and "draw_avoids env {env_hash_token env raw} d"
  shows "dead_token (env_hash_token env raw) st'"
proof -
  let ?h = "env_hash_token env raw"
  obtain ok st1 where r: "revoke_if_active ?h st = (Inr ok, st1)" by (simp add: revoke_if_active_def Let_def)
  then have "ok" "rotate_claimed env cm d raw client (fst found) (snd found) st1 = (Inr x, st')"
    using assms(1) by (auto simp: refresh_rotate_def act_bind_Inr split: if_splits)
  moreover have "dead_token ?h st1"
    using r dead_token_revoke by (auto simp: revoke_if_active_def Let_def)
  ultimately show ?thesis
    using keepsD [OF dead.keep_rotate_claimed [OF assms(2)], of st1 cm raw client "fst found" "snd found"] by simp
qed

lemma refresh_kills:
  assumes "run_request (refresh_tokens env cm d raw client) st = (Inr x, st')" and "draw_avoids env {env_hash_token env raw} d"
  shows "dead_token (env_hash_token env raw) st'"
proof -
  obtain found st1 where "refresh_rotate env cm d raw client found st1 = (Inr x, st')"
    using assms(1) by (auto simp: run_request_Inr refresh_tokens_def act_bind_Inr)
  then show ?thesis using assms(2) by (rule rotate_kills)
qed

lemma dead_refresh_fails:
  assumes "dead_token (env_hash_token env raw) st"
  shows "\<exists>e. fst (run_request (refresh_tokens env cm d raw client) st) = Inl e"
proof (rule ccontr)
  assume "\<not> ?thesis"
  then obtain x st' where "run_request (refresh_tokens env cm d raw client) st = (Inr x, st')"
    by (metis Inl_Inr_False obj_sumE prod.collapse)
  then obtain claims t st1 where l: "refresh_lookup env raw st = (Inr (claims, t), st1)"
    and r: "refresh_rotate env cm d raw client (claims, t) st1 = (Inr x, st')"
    by (auto simp: run_request_Inr refresh_tokens_def act_bind_Inr)
  from refresh_lookup_frame [OF l] have "st1 = st" by simp
  with r dead_not_claimed [OF assms, of cm d client "(claims, t)"] show False by simp
qed

text \<open>
  C10: a refresh token buys one new pair. Once a request has rotated it, in every state that can be reached (by requests that
  do not draw a token with the same hash again) a request with it is refused, and so is a concurrent request that looked
  the token up before it was rotated and comes to claim it only now.
\<close>

theorem refresh_token_rotates_once:
  assumes "run_request (refresh_tokens env cm d raw client) st = (Inr pair, st1)"
    and "draw_avoids env {env_hash_token env raw} d"
    and "(auth_step env {env_hash_token env raw})\<^sup>*\<^sup>* st1 st2"
  shows "(\<exists>e. fst (run_request (refresh_tokens env cm' d' raw client') st2) = Inl e)
    \<and> (\<exists>e. fst (run_request (refresh_rotate env cm' d' raw client' found) st2) = Inl e)"
proof -
  have "dead_token (env_hash_token env raw) st2"
    using dead.run [OF assms(3)] refresh_kills [OF assms(1,2)] by simp
  then show ?thesis using dead_refresh_fails dead_not_claimed by simp
qed

definition sample_owner :: "string \<Rightarrow> string" where
  "sample_owner h = (let n = length (takeWhile ((=) CHR ''1'') h) in drop (2 * n + 1) h)"

definition sample_env :: auth_env where
  "sample_env = \<lparr>env_verify = (=), env_hash_password = id, env_needs_rehash = (\<lambda>_. False), env_hash_token = id,
     env_decode_refresh = (\<lambda>_ raw. Some \<lparr>rc_sub = sample_owner raw, rc_aud = Some ''ADMIN''\<rparr>),
     env_encode_refresh = (\<lambda>u _ jti _. replicate (length jti) (CHR ''1'') @ CHR ''0'' # jti @ u),
     env_decode_verification = (\<lambda>_ _. None), env_access_minutes = 60, env_refresh_days = 7\<rparr>"

definition sample_account :: "string \<Rightarrow> string \<Rightarrow> int \<Rightarrow> user_acct" where
  "sample_account i pw failed =
     \<lparr>rid = i, version = 1, ua_email = i @ ''@x'', ua_password_hash = pw, ua_role = ADMIN, ua_status = US_ACTIVE,
      ua_force_password_change = False, ua_password_changed_at = None, ua_last_login = None,
      ua_inactive_reason = None, ua_inactivated_at = None, ua_failed_login_attempts = failed, ua_locked_until = None,
      ua_session_sv = 0, ua_organization_id = None, ua_region_id = None, ua_email_verified = False\<rparr>"

definition sample_token :: "string \<Rightarrow> string \<Rightarrow> refresh_token" where
  "sample_token u sid =
     \<lparr>rt_id = ''t'' @ u, rt_user_id = u, rt_token_hash = ''10a'' @ u, rt_access_jti = Some (''j'' @ u), rt_expires_at = 1000,
      rt_revoked = False, rt_revoked_at = None, rt_session_id = Some sid, rt_created_at = 0\<rparr>"

definition sample_device :: "string \<Rightarrow> string \<Rightarrow> device_session" where
  "sample_device u sid =
     \<lparr>ds_session_id = sid, ds_user_id = u, ds_revoked = False, ds_revoked_at = None, ds_last_seen_at = Some 0,
      ds_inactivity_expires_at = Some 1000, ds_user_agent = None, ds_ip_address = None\<rparr>"

definition sample_auth :: auth_state where
  "sample_auth =
     \<lparr>as_now = 0, as_users = [sample_account ''u'' ''pw'' 4], as_tokens = [sample_token ''u'' ''s''],
      as_sessions = [sample_device ''u'' ''s''], as_invites = [], as_doc_otps = [], as_doc_tokens = [], as_drivers = [],
      as_orgs = [], as_contacts = [], as_audit = [], as_redis = Map.empty, as_jobs = []\<rparr>"

definition sample_meta :: client_meta where
  "sample_meta = \<lparr>cm_ip_address = None, cm_user_agent = None\<rparr>"

definition sample_draw :: token_draw where
  "sample_draw = \<lparr>td_session_id = ''s2'', td_token_id = ''t2'', td_access_jti = ''j2'', td_refresh_jti = ''bb''\<rparr>"

lemmas sample_defs = sample_env_def sample_account_def sample_token_def sample_device_def sample_auth_def
  sample_meta_def sample_draw_def

lemma sample_draw_avoids: "draw_avoids sample_env {''10au''} sample_draw"
  by (simp add: draw_avoids_def sample_defs)

lemma sample_refresh:
  "\<exists>pair st. run_request (refresh_tokens sample_env sample_meta sample_draw ''10au'' (Some CT_ADMIN)) sample_auth = (Inr pair, st)"
  by (simp add: run_request_Inr refresh_tokens_def refresh_lookup_def refresh_rotate_def rotate_claimed_def
      check_refresh_audience_def refresh_session_id_def issue_rotated_def sample_defs act_bind_def sample_owner_def
      is_user_suspended_def redis_exists_def redis_get_def find_by_hash_def revoke_if_active_def token_active_def
      revoke_where_def revoke_token_def get_user_def assert_b2b_portal_access_def verify_client_type_for_role_def
      cap_sessions_def MAX_ACTIVE_SESSIONS_PER_USER_def count_active_for_user_def active_for_user_def
      create_access_token_def create_refresh_token_def create_token_def refresh_row_def session_meta_def
      touch_session_def update_sessions_def log_auth_def Let_def)

theorem refresh_token_rotates_once_witness:
  "\<exists>pair st. run_request (refresh_tokens sample_env sample_meta sample_draw ''10au'' (Some CT_ADMIN)) sample_auth = (Inr pair, st)
     \<and> (\<exists>e. fst (run_request (refresh_tokens sample_env sample_meta sample_draw ''10au'' (Some CT_ADMIN)) st) = Inl e)"
proof -
  obtain pair st where *: "run_request (refresh_tokens sample_env sample_meta sample_draw ''10au'' (Some CT_ADMIN)) sample_auth
      = (Inr pair, st)" using sample_refresh by blast
  have "env_hash_token sample_env ''10au'' = ''10au''" by (simp add: sample_env_def)
  with * refresh_token_rotates_once [OF *] sample_draw_avoids show ?thesis by fastforce
qed


subsection \<open>Access tokens that were logged out\<close>

lemma get_user_generation: "generation_from i n st \<Longrightarrow> get_user i st = Some u \<Longrightarrow> n \<le> ua_session_sv u"
  unfolding generation_from_def get_user_def by (auto dest: get_by_id_Some)

lemma old_generation_rejected:
  assumes "generation_from (at_sub c) n st" and "at_sv c = Some v" and "v < n"
  shows "\<exists>e. get_auth_user ct c st = Inl e"
proof -
  have "\<exists>e. check_session_version c st = Inl e"
    using assms get_user_generation [OF assms(1)] by (fastforce simp: check_session_version_def split: option.splits)
  then show ?thesis unfolding get_auth_user_def by auto
qed

lemma marked_exists: "marked_since env k t st \<Longrightarrow> as_now st < t + seconds (env_access_minutes env * 60)
   \<Longrightarrow> redis_exists (as_now st) k (as_redis st)"
  unfolding marked_since_def redis_exists_def redis_get_def by auto

lemma blacklisted_rejected:
  assumes "marked_since env (TokenBlacklist j) t st" and "at_jti c = Some j"
    and "at_exp c \<le> t + seconds (env_access_minutes env * 60)"
  shows "\<exists>e. get_auth_user ct c st = Inl e"
proof (cases "at_exp c \<le> as_now st")
  case True
  then show ?thesis by (simp add: get_auth_user_def)
next
  case False
  then have "redis_exists (as_now st) (TokenBlacklist j) (as_redis st)"
    using marked_exists [OF assms(1)] assms(3) by simp
  then show ?thesis using assms(2) by (auto simp: get_auth_user_def)
qed

lemma generation_after_increment:
  assumes "get_user i st = Some u" and "distinct_ids (as_users st)"
  shows "generation_from i (ua_session_sv u + 1) (raise_session_sv i st)"
proof -
  have u: "u \<in> set (as_users st)" "rid u = i"
    using get_by_id_Some [OF assms(1) [unfolded get_user_def]] by simp_all
  have "ua_session_sv u \<le> ua_session_sv v" if "v \<in> set (as_users st)" "rid v = i" for v
    using distinct_ids_unique [OF assms(2) that(1) u(1)] that u(2) by simp
  moreover have "i \<in> rid ` set (as_users (raise_session_sv i st))"
    using imageI [OF u(1), of rid] u(2) by (simp add: raise_session_sv_def sql_update_rids)
  ultimately show ?thesis
    by (simp add: generation_from_def raise_session_sv_def sql_update_user_def ball_Un)
qed

lemma end_all_generation:
  assumes "get_user i st = Some u" and "distinct_ids (as_users st)"
  shows "generation_from i (ua_session_sv u + 1) (snd (end_all_sessions env i st))"
proof -
  have "end_all_sessions env i st = end_listed_sessions env i (raise_session_sv i st)"
    using assms(1)
    by (simp add: end_all_sessions_def increment_session_sv_def raise_session_sv_def act_bind_def get_user_sql_update)
  then show ?thesis
    using keepsD [OF generation.keep_end_listed generation_after_increment [OF assms]] by simp
qed

text \<open>
  C24: logging out everywhere is final. After \<^verbatim>\<open>logout_all\<close> with a refresh token of user \<open>u\<close>, every access token that
  names this user and carries the session generation of that moment or an older one is rejected in every state that can
  be reached, whatever its expiry and even when the marks in Redis have run out.
\<close>

theorem logout_all_is_final:
  assumes "run_request (logout_all env raw) st = (Inr n, st1)"
    and "find_by_hash (env_hash_token env raw) st = Some t" and "get_user (rt_user_id t) st = Some u"
    and "distinct_ids (as_users st)"
    and "at_sub c = rt_user_id t" and "at_sv c = Some v" and "v \<le> ua_session_sv u"
    and "(auth_step env avoid)\<^sup>*\<^sup>* st1 st2"
  shows "\<exists>e. get_auth_user ct c st2 = Inl e"
proof -
  obtain count st' where e: "end_all_sessions env (rt_user_id t) st = (Inr count, st')"
    and "log_auth ''auth.logout_all'' (Some (rt_user_id t)) (Some (rt_user_id t)) st' = (Inr (), st1)"
    using assms(1,2) by (auto simp: run_request_Inr logout_all_def act_bind_Inr)
  then have "generation_from (rt_user_id t) (ua_session_sv u + 1) st1"
    using end_all_generation [OF assms(3,4), of env] by (auto simp: log_auth_def generation_from_def)
  then have "generation_from (at_sub c) (ua_session_sv u + 1) st2"
    using generation.run [OF assms(8)] assms(5) by simp
  then show ?thesis using assms(6,7) by (intro old_generation_rejected) auto
qed

text \<open>
  C25: logging out ends the access token too. After \<^verbatim>\<open>logout\<close> with a refresh token that was issued together with the access
  token \<open>c\<close>, this access token is rejected in every state that can be reached: the mark in Redis lives at least as long as it.
\<close>

theorem logout_is_final:
  assumes "run_request (logout env raw) st = (Inr (), st1)"
    and "find_by_hash (env_hash_token env raw) st = Some t" and "rt_access_jti t = Some j" and "j \<noteq> ''''"
    and "at_jti c = Some j" and "at_exp c \<le> as_now st + seconds (env_access_minutes env * 60)"
    and "(auth_step env avoid)\<^sup>*\<^sup>* st1 st2"
  shows "\<exists>e. get_auth_user ct c st2 = Inl e"
proof -
  have "truthy_str (rt_access_jti t)" using assms(3,4) by (cases j) auto
  then have "st1 = snd (log_auth ''auth.logout'' (Some (rt_id t)) (Some (rt_user_id t))
      (revoke (env_hash_token env raw) (snd (blacklist_access_jti env j st))))"
    using assms(1-3) by (simp add: run_request_Inr logout_def act_bind_def blacklist_access_jti_def log_auth_def)
  then have "marked_since env (TokenBlacklist j) (as_now st) st1"
    by (simp add: marked_since_def log_auth_def revoke_def revoke_where_def blacklist_access_jti_def redis_set_def)
  then have "marked_since env (TokenBlacklist j) (as_now st) st2" by (rule marked.run [OF assms(7)])
  then show ?thesis using assms(5,6) by (rule blacklisted_rejected)
qed


definition sample_claims :: "string \<Rightarrow> access_claims" where
  "sample_claims j = \<lparr>at_sub = ''u'', at_role = ''ADMIN'', at_aud = Some ''ADMIN'', at_jti = Some j, at_sid = None,
     at_sv = Some 0, at_org_id = None, at_exp = 1000\<rparr>"

lemmas logout_eval = run_request_Inr act_bind_def sample_defs find_by_hash_def end_all_sessions_def
  end_listed_sessions_def get_user_def increment_session_sv_def raise_session_sv_def sql_update_user_def list_active_sessions_def active_for_user_def
  token_active_def get_active_access_jtis_def blacklist_access_jti_def revoke_all_for_user_def revoke_where_def
  revoke_token_def revoke_session_def update_sessions_def mark_session_revoked_def log_auth_def Let_def
  List.map_filter_simps

theorem logout_all_is_final_witness:
  "get_auth_user CT_ADMIN (sample_claims ''k'') sample_auth \<noteq> Inl session_revoked_error
   \<and> (\<exists>n st1. run_request (logout_all sample_env ''10au'') sample_auth = (Inr n, st1)
     \<and> (\<exists>e. get_auth_user CT_ADMIN (sample_claims ''k'') st1 = Inl e))"
proof -
  have "\<exists>n st1. run_request (logout_all sample_env ''10au'') sample_auth = (Inr n, st1)"
    by (simp add: logout_all_def logout_eval)
  then obtain n st1 where *: "run_request (logout_all sample_env ''10au'') sample_auth = (Inr n, st1)" by blast
  have "\<exists>e. get_auth_user CT_ADMIN (sample_claims ''k'') st1 = Inl e"
    by (rule logout_all_is_final [OF *, of "sample_token ''u'' ''s''" "sample_account ''u'' ''pw'' 4" _ 0 "{}"])
      (simp_all add: sample_defs find_by_hash_def get_user_def distinct_ids_def sample_claims_def)
  moreover have "get_auth_user CT_ADMIN (sample_claims ''k'') sample_auth \<noteq> Inl session_revoked_error"
    by (simp add: get_auth_user_def check_session_version_def sample_claims_def sample_defs get_user_def
        session_revoked_error_def redis_exists_def redis_get_def is_user_suspended_def claimed_sid_def
        parse_role_def all_roles_def)
  ultimately show ?thesis using * by blast
qed

theorem logout_is_final_witness:
  "\<exists>st1. run_request (logout sample_env ''10au'') sample_auth = (Inr (), st1)
     \<and> (\<exists>e. get_auth_user CT_ADMIN (sample_claims ''ju'') (st1\<lparr>as_now := 900\<rparr>) = Inl e)"
proof -
  have "\<exists>st1. run_request (logout sample_env ''10au'') sample_auth = (Inr (), st1) \<and> as_now st1 = 0"
    by (simp add: logout_def revoke_def logout_eval)
  then obtain st1 where *: "run_request (logout sample_env ''10au'') sample_auth = (Inr (), st1)" "as_now st1 = 0" by blast
  then have "auth_step sample_env {} st1 (st1\<lparr>as_now := 900\<rparr>)" by (intro auth_step.tick) simp
  then have "\<exists>e. get_auth_user CT_ADMIN (sample_claims ''ju'') (st1\<lparr>as_now := 900\<rparr>) = Inl e"
    by (intro logout_is_final [OF *(1), of "sample_token ''u'' ''s''" "''ju''" _ "{}"])
      (simp_all add: sample_defs find_by_hash_def sample_claims_def seconds_def)
  with * show ?thesis by blast
qed

subsection \<open>Failed logins leave no trace\<close>

definition guess_all :: "auth_env \<Rightarrow> client_meta \<Rightarrow> token_draw \<Rightarrow> string \<Rightarrow> client_type \<Rightarrow> string list \<Rightarrow> auth_state \<Rightarrow> auth_state" where
  \<comment> \<open>one login request per password\<close>
  "guess_all env cm d email ct pws st = fold (\<lambda>pw s. snd (run_request (login env cm d email pw ct) s)) pws st"

lemma failed_login_outside:
  "as_redis (snd (handle_failed_login u st)) = as_redis st \<and> as_jobs (snd (handle_failed_login u st)) = as_jobs st"
  by (simp add: handle_failed_login_def increment_failed_attempts_def act_bind_def log_auth_def lock_account_def
      sql_update_user_def split: option.splits)

lemma wrong_password_raises:
  assumes "find_by_email email st = Some u" and "\<not> env_verify env pw (ua_password_hash u)"
  shows "\<exists>e st'. login env cm d email pw ct st = (Inl e, st') \<and> as_redis st' = as_redis st \<and> as_jobs st' = as_jobs st"
  using assms failed_login_outside [of u st]
  by (auto simp: login_def act_bind_def assert_b2b_portal_access_def verify_client_type_for_role_def
      split: prod.splits sum.splits if_splits)

lemma wrong_password_no_trace:
  assumes "find_by_email email st = Some u" and "\<not> env_verify env pw (ua_password_hash u)"
  shows "snd (run_request (login env cm d email pw ct) st) = st"
  using wrong_password_raises [OF assms, of cm d ct] by (auto simp: run_request_def)

lemma fifth_failure_locks:
  assumes "get_user (rid u) st = Some u" and "MAX_LOGIN_ATTEMPTS \<le> ua_failed_login_attempts u + 1"
  shows "\<exists>v. get_user (rid u) (snd (handle_failed_login u st)) = Some v
    \<and> ua_locked_until v = Some (as_now st + seconds (LOCKOUT_DURATION_MINUTES * 60))"
  using assms by (simp add: handle_failed_login_def increment_failed_attempts_def act_bind_def log_auth_def
      lock_account_def get_user_sql_update)

text \<open>
  C20: the lock after five failed logins is never stored. Inside the transaction the fifth failure does lock the account for
  fifteen minutes. But the login then raises, which rolls the transaction back: after any list of wrong passwords the state
  is the one before, count, lock and audit rows included, and the right password is accepted as if nothing had happened.
\<close>

theorem lockout_never_engages:
  assumes "find_by_email email st = Some u" and "get_user (rid u) st = Some u"
    and "\<forall>pw \<in> set guesses. \<not> env_verify env pw (ua_password_hash u)"
  shows "guess_all env cm d email ct guesses st = st
    \<and> (ua_failed_login_attempts u = 4 \<longrightarrow>
        (\<exists>v. get_user (rid u) (snd (handle_failed_login u st)) = Some v \<and> ua_locked_until v = Some (as_now st + seconds 900)))"
proof
  show "guess_all env cm d email ct guesses st = st"
    using assms(3) unfolding guess_all_def
    by (induction guesses) (simp_all add: wrong_password_no_trace [OF assms(1)])
  show "ua_failed_login_attempts u = 4 \<longrightarrow>
      (\<exists>v. get_user (rid u) (snd (handle_failed_login u st)) = Some v \<and> ua_locked_until v = Some (as_now st + seconds 900))"
    using fifth_failure_locks [OF assms(2)] by (simp add: MAX_LOGIN_ATTEMPTS_def LOCKOUT_DURATION_MINUTES_def)
qed

theorem lockout_never_engages_witness:
  "guess_all sample_env sample_meta sample_draw ''u@x'' CT_ADMIN [''a'', ''b'', ''c'', ''d'', ''e'', ''f''] sample_auth = sample_auth
   \<and> (\<exists>v. get_user ''u'' (snd (handle_failed_login (sample_account ''u'' ''pw'' 4) sample_auth)) = Some v
        \<and> ua_locked_until v = Some 900000000)"
proof -
  have "find_by_email ''u@x'' sample_auth = Some (sample_account ''u'' ''pw'' 4)"
    by (simp add: find_by_email_def sample_auth_def sample_account_def py_lower_def lower_char_def strip_def is_space_def)
  moreover have "get_user (rid (sample_account ''u'' ''pw'' 4)) sample_auth = Some (sample_account ''u'' ''pw'' 4)"
    by (simp add: get_user_def sample_defs)
  moreover have "\<forall>pw \<in> set [''a'', ''b'', ''c'', ''d'', ''e'', ''f'']. \<not> env_verify sample_env pw
      (ua_password_hash (sample_account ''u'' ''pw'' 4))"
    by (simp add: sample_defs)
  ultimately show ?thesis
    using lockout_never_engages [of "''u@x''" sample_auth "sample_account ''u'' ''pw'' 4"
        "[''a'', ''b'', ''c'', ''d'', ''e'', ''f'']" sample_env sample_meta sample_draw CT_ADMIN]
    by (simp add: sample_account_def sample_auth_def seconds_def)
qed


end
