(* ===== verification/AuthInvariant.thy ===== *)
theory AuthInvariant
  imports AuthSafety
begin

text \<open>
  The invariant of refresh tokens and device sessions: at most three active tokens per user, and every active token with
  a session belongs to one of the same user that is not revoked. The subject of a signed refresh token can be read off
  its hash (\<open>codec_ok\<close>, what signing and a collision-free hash give).
\<close>

definition codec_ok :: "auth_env \<Rightarrow> (string \<Rightarrow> string) \<Rightarrow> bool" where
  "codec_ok env owner \<longleftrightarrow>
     (\<forall>u ct jti e. owner (env_hash_token env (env_encode_refresh env u ct jti e)) = u) \<and>
     (\<forall>now raw c. env_decode_refresh env now raw = Some c \<longrightarrow> owner (env_hash_token env raw) = rc_sub c)"

definition live_session :: "auth_state \<Rightarrow> string \<Rightarrow> string \<Rightarrow> bool" where
  "live_session st u sid \<longleftrightarrow> (\<exists>s \<in> set (as_sessions st). ds_session_id s = sid \<and> ds_user_id s = u \<and> \<not> ds_revoked s)"

definition keys_ok :: "(string \<Rightarrow> string) \<Rightarrow> refresh_token list \<Rightarrow> bool" where
  "keys_ok owner ts \<longleftrightarrow> distinct (map rt_id ts) \<and> distinct (map rt_token_hash ts) \<and>
     (\<forall>t \<in> set ts. owner (rt_token_hash t) = rt_user_id t)"

definition cap_ok :: "auth_state \<Rightarrow> bool" where
  "cap_ok st \<longleftrightarrow> (\<forall>u. count_active_for_user u st \<le> MAX_ACTIVE_SESSIONS_PER_USER)"

definition sessions_ok_but :: "string set \<Rightarrow> auth_state \<Rightarrow> bool" where
  "sessions_ok_but X st \<longleftrightarrow> (\<forall>t \<in> set (as_tokens st). token_active (as_now st) t \<longrightarrow>
     (\<forall>sid. rt_session_id t = Some sid \<longrightarrow> sid \<notin> X \<longrightarrow> live_session st (rt_user_id t) sid))"

definition auth_ok_but :: "string set \<Rightarrow> (string \<Rightarrow> string) \<Rightarrow> auth_state \<Rightarrow> bool" where
  "auth_ok_but X owner st \<longleftrightarrow> keys_ok owner (as_tokens st) \<and> cap_ok st \<and> sessions_ok_but X st"

abbreviation auth_ok :: "(string \<Rightarrow> string) \<Rightarrow> auth_state \<Rightarrow> bool" where
  "auth_ok \<equiv> auth_ok_but {}"

lemma auth_ok_rest [simp]:
  "auth_ok_but X owner (st\<lparr>as_users := a\<rparr>) = auth_ok_but X owner st"
  "auth_ok_but X owner (st\<lparr>as_invites := b\<rparr>) = auth_ok_but X owner st"
  "auth_ok_but X owner (st\<lparr>as_doc_otps := c\<rparr>) = auth_ok_but X owner st"
  "auth_ok_but X owner (st\<lparr>as_doc_tokens := d\<rparr>) = auth_ok_but X owner st"
  "auth_ok_but X owner (st\<lparr>as_drivers := e\<rparr>) = auth_ok_but X owner st"
  "auth_ok_but X owner (st\<lparr>as_contacts := f\<rparr>) = auth_ok_but X owner st"
  "auth_ok_but X owner (st\<lparr>as_audit := g\<rparr>) = auth_ok_but X owner st"
  "auth_ok_but X owner (st\<lparr>as_redis := h\<rparr>) = auth_ok_but X owner st"
  "auth_ok_but X owner (st\<lparr>as_jobs := i\<rparr>) = auth_ok_but X owner st"
  by (simp_all add: auth_ok_but_def cap_ok_def sessions_ok_but_def live_session_def count_active_for_user_def active_for_user_def)

subsection \<open>Elementary changes\<close>

lemma cap_ok_le: "cap_ok st \<Longrightarrow> (\<And>u. count_active_for_user u st' \<le> count_active_for_user u st) \<Longrightarrow> cap_ok st'"
  unfolding cap_ok_def by (metis order.trans)

lemma length_filter_map_le:
  "(\<And>x. x \<in> set xs \<Longrightarrow> P (f x) \<Longrightarrow> P x) \<Longrightarrow> length (filter P (map f xs)) \<le> length (filter P xs)"
  by (induction xs) (auto simp: le_SucI)

lemma length_filter_le_filter:
  "(\<And>x. P x \<Longrightarrow> Q x) \<Longrightarrow> length (filter P xs) \<le> length (filter Q xs)"
  by (induction xs) auto

lemma auth_ok_tokens:
  assumes ok: "auth_ok_but X owner st"
    and f: "\<And>t. rt_id (f t) = rt_id t \<and> rt_token_hash (f t) = rt_token_hash t \<and> rt_user_id (f t) = rt_user_id t"
    and a: "\<And>t. t \<in> set (as_tokens st) \<Longrightarrow> token_active (as_now st) (f t) \<Longrightarrow> token_active (as_now st) t \<and> rt_session_id (f t) = rt_session_id t"
  shows "auth_ok_but X owner (st\<lparr>as_tokens := map f (as_tokens st)\<rparr>)"
  unfolding auth_ok_but_def
proof (intro conjI)
  have "rt_id \<circ> f = rt_id" "rt_token_hash \<circ> f = rt_token_hash" using f by (simp_all add: fun_eq_iff)
  with ok f show "keys_ok owner (as_tokens (st\<lparr>as_tokens := map f (as_tokens st)\<rparr>))"
    unfolding auth_ok_but_def keys_ok_def by simp
  have "count_active_for_user u (st\<lparr>as_tokens := map f (as_tokens st)\<rparr>) \<le> count_active_for_user u st" for u
    unfolding count_active_for_user_def active_for_user_def
    using length_filter_map_le [of "as_tokens st" "\<lambda>t. rt_user_id t = u \<and> token_active (as_now st) t" f] f a
    by simp
  then show "cap_ok (st\<lparr>as_tokens := map f (as_tokens st)\<rparr>)"
    using ok cap_ok_le by (auto simp: auth_ok_but_def)
  show "sessions_ok_but X (st\<lparr>as_tokens := map f (as_tokens st)\<rparr>)"
    using ok f a unfolding auth_ok_but_def sessions_ok_but_def live_session_def by simp
qed

lemma auth_ok_revoke: "auth_ok_but X owner st \<Longrightarrow> auth_ok_but X owner (revoke_where Q st)"
  unfolding revoke_where_def
  by (rule auth_ok_tokens) (auto simp: revoke_token_def token_active_def split: if_splits)

lemma auth_ok_cap: "auth_ok_but X owner st \<Longrightarrow> auth_ok_but X owner (cap_sessions u st)"
  by (simp add: cap_sessions_def revoke_oldest_keeping_def Let_def auth_ok_revoke)

lemma auth_ok_cleanup:
  assumes "auth_ok_but X owner st"
  shows "auth_ok_but X owner (delete_expired st)"
proof -
  have "count_active_for_user u (delete_expired st) \<le> count_active_for_user u st" for u
    unfolding count_active_for_user_def active_for_user_def delete_expired_def
    by simp (rule length_filter_le_filter, simp)
  then show ?thesis
    using assms cap_ok_le unfolding auth_ok_but_def
    by (auto simp: keys_ok_def sessions_ok_but_def live_session_def delete_expired_def distinct_map_filter)
qed

lemma auth_ok_tick:
  assumes "auth_ok_but X owner st" and "as_now st \<le> n"
  shows "auth_ok_but X owner (st\<lparr>as_now := n\<rparr>)"
proof -
  have a: "token_active n t \<Longrightarrow> token_active (as_now st) t" for t using assms(2) by (simp add: token_active_def)
  then have "count_active_for_user u (st\<lparr>as_now := n\<rparr>) \<le> count_active_for_user u st" for u
    unfolding count_active_for_user_def active_for_user_def by simp (rule length_filter_le_filter, simp)
  then show ?thesis
    using assms(1) a cap_ok_le unfolding auth_ok_but_def
    by (auto simp: sessions_ok_but_def live_session_def)
qed

lemma auth_ok_sessions:
  assumes "auth_ok_but X owner st"
    and "\<And>u sid. live_session st u sid \<Longrightarrow> sid \<notin> Y \<Longrightarrow> live_session (st\<lparr>as_sessions := ss\<rparr>) u sid"
  shows "auth_ok_but (X \<union> Y) owner (st\<lparr>as_sessions := ss\<rparr>)"
  using assms unfolding auth_ok_but_def cap_ok_def sessions_ok_but_def count_active_for_user_def active_for_user_def
  by simp

lemma auth_ok_create_session:
  assumes "create_session env cm sid u st = (Inr (), st')" and "auth_ok_but X owner st"
  shows "auth_ok_but X owner st' \<and> live_session st' u sid"
proof -
  from assms(1) obtain s where s: "st' = st\<lparr>as_sessions := as_sessions st @ [s]\<rparr>" "ds_session_id s = sid"
      "ds_user_id s = u" "\<not> ds_revoked s"
    by (auto simp: create_session_def split: if_splits)
  then have "auth_ok_but (X \<union> {}) owner st'"
    unfolding s(1) by (intro auth_ok_sessions [OF assms(2)]) (auto simp: live_session_def)
  with s show ?thesis by (auto simp: live_session_def)
qed

lemma auth_ok_touch:
  assumes "auth_ok_but X owner st"
  shows "auth_ok_but X owner (touch_session env cm sid st)"
proof -
  define f where "f s = (if ds_session_id s = sid then s\<lparr>ds_last_seen_at := Some (as_now st),
      ds_inactivity_expires_at := Some (inactivity_expiry env st), ds_user_agent := cm_user_agent cm,
      ds_ip_address := cm_ip_address cm\<rparr> else s)" for s :: device_session
  have f: "ds_session_id (f s) = ds_session_id s \<and> ds_user_id (f s) = ds_user_id s \<and> ds_revoked (f s) = ds_revoked s" for s
    by (simp add: f_def)
  have "auth_ok_but (X \<union> {}) owner (st\<lparr>as_sessions := map f (as_sessions st)\<rparr>)"
    by (rule auth_ok_sessions [OF assms]) (simp add: live_session_def f)
  then have "auth_ok_but (X \<union> {}) owner (touch_session env cm sid st)"
    unfolding touch_session_def update_sessions_def f_def .
  then show ?thesis by simp
qed

subsection \<open>The cap\<close>

lemma length_filter_perm: "mset xs = mset ys \<Longrightarrow> length (filter P xs) = length (filter P ys)"
  by (metis mset_filter size_mset)

lemma active_after_revoke:
  "length (filter (\<lambda>t. rt_user_id t = u \<and> token_active n t) (map (\<lambda>t. if Q t then revoke_token m t else t) ts))
   = length (filter (\<lambda>t. \<not> Q t) (filter (\<lambda>t. rt_user_id t = u \<and> token_active n t) ts))"
  by (induction ts) (auto simp: revoke_token_def token_active_def)

lemma cap_leaves_room: "count_active_for_user u (cap_sessions u st) < MAX_ACTIVE_SESSIONS_PER_USER"
proof (cases "MAX_ACTIVE_SESSIONS_PER_USER \<le> count_active_for_user u st")
  case False
  then show ?thesis by (simp add: cap_sessions_def)
next
  case True
  let ?A = "active_for_user u st"
  let ?ids = "map rt_id (sort_key (\<lambda>t. - rt_created_at t) ?A)"
  have "drop 2 ?ids \<noteq> []" using True by (simp add: count_active_for_user_def MAX_ACTIVE_SESSIONS_PER_USER_def)
  then have "cap_sessions u st = revoke_where (\<lambda>t. rt_id t \<in> set (drop 2 ?ids)) st"
    using True by (simp add: cap_sessions_def revoke_oldest_keeping_def Let_def MAX_ACTIVE_SESSIONS_PER_USER_def)
  then have "count_active_for_user u (cap_sessions u st) = length (filter (\<lambda>t. rt_id t \<notin> set (drop 2 ?ids)) ?A)"
    using active_after_revoke by (simp add: count_active_for_user_def active_for_user_def revoke_where_def)
  also have "\<dots> = length (filter (\<lambda>i. i \<notin> set (drop 2 ?ids)) (map rt_id ?A))"
    by (simp add: filter_map comp_def)
  also have "\<dots> = length (filter (\<lambda>i. i \<notin> set (drop 2 ?ids)) ?ids)"
    by (rule length_filter_perm) simp
  also have "\<dots> = length (filter (\<lambda>i. i \<notin> set (drop 2 ?ids)) (take 2 ?ids @ drop 2 ?ids))"
    by (simp only: append_take_drop_id)
  also have "\<dots> \<le> 2"
    by (simp only: filter_append length_append) (simp add: order.trans [OF length_filter_le])
  finally show ?thesis by (simp add: MAX_ACTIVE_SESSIONS_PER_USER_def)
qed

lemma auth_ok_create_token:
  assumes "create_token t st = (Inr (), st')" and "auth_ok_but X owner st"
    and "owner (rt_token_hash t) = rt_user_id t"
    and "count_active_for_user (rt_user_id t) st < MAX_ACTIVE_SESSIONS_PER_USER"
    and "\<And>sid. rt_session_id t = Some sid \<Longrightarrow> live_session st (rt_user_id t) sid"
  shows "auth_ok_but X owner st'"
proof -
  from assms(1) have st': "st' = st\<lparr>as_tokens := as_tokens st @ [t]\<rparr>" "rt_id t \<notin> rt_id ` set (as_tokens st)"
      "rt_token_hash t \<notin> rt_token_hash ` set (as_tokens st)"
    by (auto simp: create_token_def split: if_splits)
  have "count_active_for_user u st' \<le> MAX_ACTIVE_SESSIONS_PER_USER" for u
    using assms(2,4) unfolding auth_ok_but_def cap_ok_def st'(1) count_active_for_user_def active_for_user_def
    by (cases "rt_user_id t = u") auto
  then show ?thesis
    using assms(2,3,5) st' unfolding auth_ok_but_def keys_ok_def cap_ok_def sessions_ok_but_def live_session_def
    by simp
qed

subsection \<open>Issuing tokens\<close>

lemma live_session_frame [simp]:
  "live_session (st\<lparr>as_tokens := a\<rparr>) u sid = live_session st u sid"
  "live_session (st\<lparr>as_users := b\<rparr>) u sid = live_session st u sid"
  "live_session (st\<lparr>as_audit := c\<rparr>) u sid = live_session st u sid"
  "live_session (cap_sessions v st) u sid = live_session st u sid"
  "live_session (revoke_where Q st) u sid = live_session st u sid"
  "live_session (attach_session_id_if_missing h s st) u sid = live_session st u sid"
  by (simp_all add: live_session_def cap_sessions_def revoke_oldest_keeping_def revoke_where_def
      attach_session_id_if_missing_def Let_def)

lemma count_create_session:
  "create_session env cm sid u st = (Inr (), st') \<Longrightarrow> count_active_for_user v st' = count_active_for_user v st"
  by (auto simp: create_session_def count_active_for_user_def active_for_user_def split: if_splits)

lemma auth_ok_log: "log_auth a e u st = (x, st') \<Longrightarrow> auth_ok_but X owner st \<Longrightarrow> auth_ok_but X owner st'"
  by (auto simp: log_auth_def)

lemma refresh_row_simps [simp]:
  "rt_user_id (refresh_row env d u ct sid st) = u" "rt_session_id (refresh_row env d u ct sid st) = Some sid"
  by (simp_all add: refresh_row_def)

lemma refresh_row_owner: "codec_ok env owner \<Longrightarrow> owner (rt_token_hash (refresh_row env d u ct sid st)) = u"
  by (simp add: codec_ok_def refresh_row_def create_refresh_token_def)

lemma auth_ok_issue:
  assumes "issue_tokens env cm d u ct st = (Inr x, st')" and "codec_ok env owner" and "auth_ok_but X owner st"
  shows "auth_ok_but X owner st'"
proof -
  obtain st1 st2 where c: "create_session env cm (td_session_id d) (rid u) (cap_sessions (rid u) st) = (Inr (), st1)"
    and t: "create_token (refresh_row env d (rid u) ct (td_session_id d) st1) st1 = (Inr (), st2)"
    and l: "\<exists>r. log_auth ''auth.session_created'' (Some (td_session_id d)) (Some (rid u))
        (touch_session env cm (td_session_id d) st2) = (Inr r, st')"
    using assms(1) by (auto simp: issue_tokens_def act_bind_Inr)
  have 1: "auth_ok_but X owner st1 \<and> live_session st1 (rid u) (td_session_id d)"
    by (rule auth_ok_create_session [OF c auth_ok_cap [OF assms(3)]])
  have "auth_ok_but X owner st2"
    using 1 count_create_session [OF c, of "rid u"] cap_leaves_room [of "rid u" st] refresh_row_owner [OF assms(2)]
    by (intro auth_ok_create_token [OF t]) auto
  then show ?thesis using l auth_ok_touch auth_ok_log by blast
qed

lemma auth_ok_issue_rotated:
  assumes "issue_rotated env cm d u ct sid st = (Inr x, st')" and "codec_ok env owner" and "auth_ok_but X owner st"
    and "live_session st (rid u) sid"
  shows "auth_ok_but X owner st'"
proof -
  obtain st2 st3 where
    t: "create_token (refresh_row env d (rid u) ct sid (cap_sessions (rid u) st)) (cap_sessions (rid u) st) = (Inr (), st2)"
    and l: "\<exists>b r. act_when b (log_auth ''auth.session_device_changed'' (Some sid) (Some (rid u)))
        (touch_session env cm sid st2) = (Inr r, st3)"
      "\<exists>r. log_auth ''auth.session_refreshed'' (Some sid) (Some (rid u)) st3 = (Inr r, st')"
    using assms(1) by (auto simp: issue_rotated_def act_bind_Inr)
  have "auth_ok_but X owner st2"
    using auth_ok_cap [OF assms(3)] cap_leaves_room [of "rid u" st] refresh_row_owner [OF assms(2)] assms(4)
    by (intro auth_ok_create_token [OF t]) auto
  then have "auth_ok_but X owner (touch_session env cm sid st2)" by (rule auth_ok_touch)
  then have "auth_ok_but X owner st3" using l(1) auth_ok_log by (auto split: if_splits)
  then show ?thesis using l(2) auth_ok_log by blast
qed


subsection \<open>Every operation\<close>

text \<open>
  \<open>delivers P m\<close>: where \<open>m\<close> returns, the new state satisfies \<open>P\<close> if the old one did. This is enough for a predicate of the
  database, which an exception rolls back.
\<close>

named_theorems delivers_intros \<open>composition of actions that deliver a predicate\<close>

definition delivers :: "(auth_state \<Rightarrow> bool) \<Rightarrow> 'a act \<Rightarrow> bool" where
  "delivers P m \<longleftrightarrow> (\<forall>st x st'. P st \<longrightarrow> m st = (Inr x, st') \<longrightarrow> P st')"

lemma deliversI: "(\<And>st x st'. P st \<Longrightarrow> m st = (Inr x, st') \<Longrightarrow> P st') \<Longrightarrow> delivers P m"
  by (auto simp: delivers_def)

lemma deliversD: "delivers P m \<Longrightarrow> P st \<Longrightarrow> m st = (Inr x, st') \<Longrightarrow> P st'"
  by (auto simp: delivers_def)

lemma delivers_basic [delivers_intros]:
  "delivers P (act_return x)" "delivers P (act_raise e)" "delivers P (act_get f)" "delivers P (act_require b e)"
  "delivers P (\<lambda>st. (g st, st))"
  by (auto simp: delivers_def split: if_splits)

lemma delivers_bind [delivers_intros]:
  assumes m: "delivers P m" and f: "\<And>x. delivers P (f x)"
  shows "delivers P (act_bind m f)"
proof (rule deliversI)
  fix st y st'
  assume "P st" "act_bind m f st = (Inr y, st')"
  then obtain x st1 where "m st = (Inr x, st1)" "f x st1 = (Inr y, st')" by (auto simp: act_bind_Inr)
  then show "P st'" using deliversD [OF f] deliversD [OF m \<open>P st\<close>] by metis
qed

lemma delivers_when [delivers_intros]: "(b \<Longrightarrow> delivers P m) \<Longrightarrow> delivers P (act_when b m)"
  by (simp add: delivers_def)

lemma delivers_for [delivers_intros]: "(\<And>x. delivers P (f x)) \<Longrightarrow> delivers P (act_for f xs)"
  by (induction xs) (auto intro: delivers_intros)

lemma delivers_modify: "(\<And>st. P st \<Longrightarrow> P (f st)) \<Longrightarrow> delivers P (act_modify f)"
  by (simp add: delivers_def)

lemma sql_update_ok [simp]: "auth_ok_but X owner (sql_update_user i f st) = auth_ok_but X owner st"
  by (simp add: sql_update_user_def)

lemma ok_basic [delivers_intros]:
  "delivers (auth_ok_but X owner) (log_auth a e u)" "delivers (auth_ok_but X owner) (push_auth_job j)"
  "delivers (auth_ok_but X owner) (with_redis g)" "delivers (auth_ok_but X owner) (doc_redis g)"
  "delivers (auth_ok_but X owner) (blacklist_access_jti env jti)"
  "delivers (auth_ok_but X owner) (mark_session_revoked env sid)"
  by (simp_all add: log_auth_def push_auth_job_def with_redis_def doc_redis_def blacklist_access_jti_def
      mark_session_revoked_def delivers_modify)

lemma ok_rows [delivers_intros]:
  "delivers (auth_ok_but X owner) (update_user i f)" "delivers (auth_ok_but X owner) (insert_user u)"
  "delivers (auth_ok_but X owner) (find_driver_by_user_id i)" "delivers (auth_ok_but X owner) (promote_driver d i)"
  "delivers (auth_ok_but X owner) (\<lambda>st. insert_invite (iv st) st)"
  "delivers (auth_ok_but X owner) (\<lambda>st. create_doc_token (dt st) st)"
  "delivers (auth_ok_but X owner) (\<lambda>st. if b st then (Inl e, st) else (Inr (), st\<lparr>as_doc_otps := as_doc_otps st @ g st\<rparr>))"
  "delivers (auth_ok_but X owner) (atomic_password_reset i h n)"
  "delivers (auth_ok_but X owner) (mark_used_and_invalidate_sibling_invites i v)"
  by (auto simp: delivers_def update_user_def insert_user_def find_driver_by_user_id_def promote_driver_def log_auth_def
      insert_invite_def create_doc_token_def atomic_password_reset_def mark_used_and_invalidate_sibling_invites_def
      invalidate_pending_invites_for_user_def use_invites_where_def Let_def
      split: sum.splits list.splits if_splits app_error.splits)

lemma ok_tokens [delivers_intros]:
  "delivers (auth_ok_but X owner) (revoke_all_for_user u)" "delivers (auth_ok_but X owner) (revoke_if_active h)"
  "delivers (auth_ok_but X owner) (find_active_by_access_jti u jti)"
  by (auto simp: delivers_def revoke_all_for_user_def revoke_if_active_def find_active_by_access_jti_def Let_def
      auth_ok_revoke split: list.splits)

lemma ok_updates:
  assumes "auth_ok_but X owner st"
  shows "auth_ok_but X owner (reset_failed_attempts i st)" "auth_ok_but X owner (update_last_login i st)"
    "auth_ok_but X owner (raise_session_sv i st)" "auth_ok_but X owner (lock_account i n st)"
    "auth_ok_but X owner (mark_email_verified i st)" "auth_ok_but X owner (revoke_doc_tokens u st)"
    "auth_ok_but X owner (activate_pending_contacts u st)" "auth_ok_but X owner (use_invites_where Q st)"
    "auth_ok_but X owner (use_doc_otps R st)" "auth_ok_but X owner (revoke h st)"
    "auth_ok_but X owner (revoke_refresh_tokens_for_sessions sids st)"
  using assms by (simp_all add: reset_failed_attempts_def update_last_login_def raise_session_sv_def
      lock_account_def mark_email_verified_def revoke_doc_tokens_def activate_pending_contacts_def use_invites_where_def
      use_doc_otps_def revoke_def revoke_refresh_tokens_for_sessions_def auth_ok_revoke)

lemma ok_issue: "codec_ok env owner \<Longrightarrow> delivers (auth_ok_but X owner) (issue_tokens env cm d u ct)"
  by (rule deliversI) (rule auth_ok_issue)

lemma ok_profile [delivers_intros]: "delivers (auth_ok_but X owner) (activate_role_specific_profile u)"
proof -
  have "auth_ok_but X owner st \<Longrightarrow> auth_ok_but X owner (snd (promote_driver d i st))" for d i st
    by (auto simp: promote_driver_def log_auth_def split: sum.splits app_error.splits)
  then have "auth_ok_but X owner st \<Longrightarrow> auth_ok_but X owner (snd (activate_driver_on_login i st))" for i st
    by (auto simp: activate_driver_on_login_def act_bind_def find_driver_by_user_id_def
        split: prod.splits sum.splits option.splits list.splits)
  then show ?thesis
    by (auto intro!: deliversI simp: activate_role_specific_profile_def ok_updates split: if_splits)
qed

lemma ok_login: "codec_ok env owner \<Longrightarrow> delivers (auth_ok_but X owner) (login env cm d email pw ct)"
  unfolding login_def login_after_password_def assert_b2b_portal_access_def verify_client_type_for_role_def
    handle_failed_login_def increment_failed_attempts_def reactivate_user_on_login_def check_driver_login_def
    activate_driver_on_login_def
  by (auto intro!: delivers_intros delivers_modify ok_updates ok_issue split: option.splits)

lemma ok_accounts:
  "delivers (auth_ok_but X owner) (create_user env i email pw role status force actor actor_role)"
  "delivers (auth_ok_but X owner) (verify_email env token)"
  "delivers (auth_ok_but X owner) (change_password env i current new)"
  "delivers (auth_ok_but X owner) (set_password_admin env i new force actor actor_role)"
  unfolding create_user_def verify_email_def change_password_def set_password_admin_def revoke_credentials_def
  by (auto intro!: delivers_intros delivers_modify ok_updates split: option.splits)

lemma ok_register: "delivers (auth_ok_but X owner) (register env i link email pw role)"
proof -
  have "delivers (auth_ok_but X owner) (add_registered env i email pw role)"
    by (rule deliversI) (auto simp: add_registered_def insert_user_def split: if_splits)
  then show ?thesis unfolding register_def by (auto intro!: delivers_intros)
qed

lemma ok_reset:
  "delivers (auth_ok_but X owner) (request_password_reset env otp email ct)"
  "delivers (auth_ok_but X owner) (verify_password_reset_otp env raw email otp ct)"
  "delivers (auth_ok_but X owner) (confirm_password_reset env new token ct)"
  unfolding request_password_reset_def enforce_password_reset_throttle_def revoke_password_reset_session_def
    store_password_reset_otp_def verify_password_reset_otp_def try_consume_password_reset_otp_def
    confirm_password_reset_def revoke_credentials_def Let_def
  by (auto intro!: delivers_intros delivers_modify ok_updates split: option.splits redis_value.splits)

lemma ok_invites:
  "delivers (auth_ok_but X owner) (create_invite env iid raw inviter i days org)"
  "delivers (auth_ok_but X owner) (create_driver_activation_invite_row env n iid raw target who)"
  "delivers (auth_ok_but X owner) (complete_invite_activation env token pw allowed)"
  unfolding create_invite_def create_driver_activation_invite_row_def complete_invite_activation_def
    enforce_invite_scope_for_target_org_def invalidate_pending_invites_for_user_def
  by (auto intro!: delivers_intros delivers_modify ok_updates split: option.splits)

lemma ok_docs:
  "delivers (auth_ok_but X owner) (send_doc_otp oid code u scope)"
  "delivers (auth_ok_but X owner) (verify_doc_otp env raw u code scope)"
  unfolding send_doc_otp_def verify_doc_otp_def enforce_doc_otp_verify_not_locked_def record_doc_otp_verify_failure_def
  by (auto intro!: delivers_intros delivers_modify ok_updates split: option.splits)


lemma auth_ok_attach:
  assumes "auth_ok_but X owner st" and "dead_token h st"
  shows "auth_ok_but X owner (attach_session_id_if_missing h sid st)"
  unfolding attach_session_id_if_missing_def using assms(2)
  by (intro auth_ok_tokens [OF assms(1)]) (auto simp: dead_token_def token_active_def split: if_splits)

lemma auth_ok_session_id:
  assumes "refresh_session_id env cm d claims t h st = (Inr sid, st')" and "auth_ok_but {} owner st"
    and "dead_token h st" and "\<And>s. rt_session_id t = Some s \<Longrightarrow> live_session st (rc_sub claims) s"
  shows "auth_ok_but {} owner st' \<and> live_session st' (rc_sub claims) sid"
proof (cases "rt_session_id t")
  case (Some s)
  then show ?thesis using assms by (simp add: refresh_session_id_def)
next
  case None
  then obtain st1 where c: "create_session env cm (td_session_id d) (rc_sub claims) st = (Inr (), st1)"
    and st': "st' = attach_session_id_if_missing h (td_session_id d) st1" "sid = td_session_id d"
    using assms(1) by (auto simp: refresh_session_id_def act_bind_Inr)
  have "dead_token h st1" using c assms(3) by (auto simp: create_session_def dead_token_def split: if_splits)
  then show ?thesis using auth_ok_create_session [OF c assms(2)] by (simp add: st' auth_ok_attach)
qed

lemma auth_ok_rotate_claimed:
  assumes "rotate_claimed env cm d raw client claims t st = (Inr x, st')" and "codec_ok env owner"
    and "auth_ok_but {} owner st" and "dead_token (env_hash_token env raw) st"
    and "\<And>s. rt_session_id t = Some s \<Longrightarrow> live_session st (rc_sub claims) s"
  shows "auth_ok_but {} owner st'"
proof -
  obtain ct u sid st1 where u: "get_user (rc_sub claims) st = Some u"
    and sid: "refresh_session_id env cm d claims t (env_hash_token env raw) st = (Inr sid, st1)"
    and i: "issue_rotated env cm d u ct sid st1 = (Inr x, st')"
    using assms(1)
    by (auto simp: rotate_claimed_def check_refresh_audience_def assert_b2b_portal_access_def
        verify_client_type_for_role_def act_bind_Inr split: option.splits if_splits)
  have "rid u = rc_sub claims" using u by (auto simp: get_user_def dest: get_by_id_Some)
  then show ?thesis
    using auth_ok_issue_rotated [OF i assms(2)] auth_ok_session_id [OF sid assms(3-5)] by simp
qed

lemma ok_refresh:
  assumes "codec_ok env owner"
  shows "delivers (auth_ok_but {} owner) (refresh_tokens env cm d raw client)"
proof (rule deliversI)
  fix st x st'
  let ?h = "env_hash_token env raw"
  assume ok: "auth_ok_but {} owner st" and "refresh_tokens env cm d raw client st = (Inr x, st')"
  then obtain claims t st0 where l: "refresh_lookup env raw st = (Inr (claims, t), st0)"
    and r: "refresh_rotate env cm d raw client (claims, t) st0 = (Inr x, st')"
    by (auto simp: refresh_tokens_def act_bind_Inr)
  have st0: "st0 = st" and "find_by_hash ?h st = Some t" and dec: "env_decode_refresh env (as_now st) raw = Some claims"
    using refresh_lookup_frame [OF l] by auto
  then have t: "t \<in> set (as_tokens st)" "rt_token_hash t = ?h" by (auto simp: find_by_hash_def dest: find_Some_set)
  define s1 where "s1 = revoke_where (\<lambda>t. rt_token_hash t = ?h \<and> token_active (as_now st) t) st"
  obtain t' where t': "t' \<in> set (as_tokens st)" "rt_token_hash t' = ?h" "token_active (as_now st) t'"
    and c: "rotate_claimed env cm d raw client claims t s1 = (Inr x, st')"
    using r unfolding st0 s1_def
    by (auto simp: refresh_rotate_def revoke_if_active_def act_bind_Inr Let_def split: if_splits)
  have "t' = t" using ok t t' by (auto simp: auth_ok_but_def keys_ok_def distinct_map inj_on_def)
  moreover have "rt_user_id t = rc_sub claims"
    using ok t dec assms by (auto simp: auth_ok_but_def keys_ok_def codec_ok_def)
  ultimately have "rt_session_id t = Some s \<Longrightarrow> live_session s1 (rc_sub claims) s" for s
    using ok t t'(3) by (auto simp: auth_ok_but_def sessions_ok_but_def s1_def)
  then show "auth_ok_but {} owner st'"
    using auth_ok_rotate_claimed [OF c assms] auth_ok_revoke [OF ok] dead_token_revoke by (simp add: s1_def)
qed

lemma ok_revoke_sessions:
  assumes "auth_ok_but X owner st" and "\<And>s. hit s \<Longrightarrow> s \<in> set (as_sessions st) \<Longrightarrow> ds_session_id s \<in> Y"
  shows "auth_ok_but (X \<union> Y) owner (update_sessions hit (revoke_device n) st)"
  unfolding update_sessions_def
proof (rule auth_ok_sessions [OF assms(1)])
  fix u sid
  assume "live_session st u sid" "sid \<notin> Y"
  then obtain s where s: "s \<in> set (as_sessions st)" "ds_session_id s = sid" "ds_user_id s = u" "\<not> ds_revoked s"
    by (auto simp: live_session_def)
  then have "\<not> hit s" using assms(2) \<open>sid \<notin> Y\<close> by auto
  with s show "live_session (st\<lparr>as_sessions := map (\<lambda>s. if hit s then revoke_device n s else s) (as_sessions st)\<rparr>) u sid"
    by (auto simp: live_session_def intro!: bexI [of _ s] image_eqI [of _ _ s])
qed

lemma ok_close_sessions:
  assumes "auth_ok_but (set sids) owner st"
  shows "auth_ok_but {} owner (revoke_refresh_tokens_for_sessions sids st)"
proof (cases "sids = []")
  case True
  then show ?thesis using assms by (simp add: revoke_refresh_tokens_for_sessions_def)
next
  case False
  let ?st = "revoke_where (\<lambda>t. in_sessions sids t \<and> token_active (as_now st) t) st"
  have "auth_ok_but (set sids) owner ?st" by (rule auth_ok_revoke [OF assms])
  moreover have "rt_session_id t = Some s \<Longrightarrow> s \<notin> set sids"
    if "t \<in> set (as_tokens ?st)" "token_active (as_now ?st) t" for t s
    using that by (auto simp: revoke_where_def revoke_token_def token_active_def in_sessions_def split: if_splits)
  ultimately show ?thesis
    using False unfolding revoke_refresh_tokens_for_sessions_def auth_ok_but_def sessions_ok_but_def by auto
qed


lemma ok_no_exception:
  "auth_ok_but Y owner st
   \<Longrightarrow> (\<And>t s. t \<in> set (as_tokens st) \<Longrightarrow> token_active (as_now st) t \<Longrightarrow> rt_session_id t = Some s \<Longrightarrow> s \<notin> Y)
   \<Longrightarrow> auth_ok_but {} owner st"
  unfolding auth_ok_but_def sessions_ok_but_def by auto

lemma ok_logout: "delivers (auth_ok_but {} owner) (logout env raw)"
  unfolding logout_def by (auto intro!: delivers_intros delivers_modify ok_updates split: option.splits)

lemma core_marks:
  "act_for (blacklist_access_jti env) js st = (x, st') \<Longrightarrow> x = Inr () \<and> (\<exists>r. st' = st\<lparr>as_redis := r\<rparr>)"
  "act_for (mark_session_revoked env) js st = (x, st') \<Longrightarrow> x = Inr () \<and> (\<exists>r. st' = st\<lparr>as_redis := r\<rparr>)"
proof -
  have 1: "\<exists>r. act_for (blacklist_access_jti env) js st = (Inr (), st\<lparr>as_redis := r\<rparr>)" for st
  proof (induction js arbitrary: st)
    case Nil
    show ?case by (rule exI [of _ "as_redis st"]) simp
  next
    case (Cons j js)
    show ?case
      using Cons [of "snd (blacklist_access_jti env j st)"] by (simp add: blacklist_access_jti_def act_bind_def)
  qed
  have 2: "\<exists>r. act_for (mark_session_revoked env) js st = (Inr (), st\<lparr>as_redis := r\<rparr>)" for st
  proof (induction js arbitrary: st)
    case Nil
    show ?case by (rule exI [of _ "as_redis st"]) simp
  next
    case (Cons j js)
    show ?case
      using Cons [of "snd (mark_session_revoked env j st)"] by (simp add: mark_session_revoked_def act_bind_def)
  qed
  show "act_for (blacklist_access_jti env) js st = (x, st') \<Longrightarrow> x = Inr () \<and> (\<exists>r. st' = st\<lparr>as_redis := r\<rparr>)"
    using 1 [of st] by auto
  show "act_for (mark_session_revoked env) js st = (x, st') \<Longrightarrow> x = Inr () \<and> (\<exists>r. st' = st\<lparr>as_redis := r\<rparr>)"
    using 2 [of st] by auto
qed

lemma ok_revoke_one:
  assumes "auth_ok_but {} owner st" and "strip sid = sid"
    and "revoke_session u sid (revoke_refresh_tokens_for_sessions [sid] st) = (Inr n, st')"
  shows "auth_ok_but {} owner st'"
proof -
  let ?st = "revoke_refresh_tokens_for_sessions [sid] st"
  have ok: "auth_ok_but {} owner ?st" using assms(1) by (rule ok_updates)
  have dead: "rt_session_id t = Some s \<Longrightarrow> s \<noteq> sid" if "t \<in> set (as_tokens ?st)" "token_active (as_now ?st) t" for t s
    using that by (auto simp: revoke_refresh_tokens_for_sessions_def revoke_where_def revoke_token_def token_active_def
        in_sessions_def split: if_splits)
  have st': "st' = update_sessions (\<lambda>s. ds_user_id s = u \<and> ds_session_id s = sid \<and> \<not> ds_revoked s) (revoke_device (as_now ?st)) ?st"
    using assms(2,3) by (simp add: revoke_session_def Let_def)
  have "auth_ok_but ({} \<union> {sid}) owner st'" unfolding st' by (rule ok_revoke_sessions [OF ok]) simp
  then show ?thesis
    by (rule ok_no_exception) (use dead in \<open>auto simp: st' update_sessions_def\<close>)
qed

lemma ok_logout_session:
  assumes "strip sid = sid"
  shows "delivers (auth_ok_but {} owner) (logout_session env user sid)"
proof (rule deliversI)
  fix st n st'
  assume ok: "auth_ok_but {} owner st" and "logout_session env user sid st = (Inr n, st')"
  then obtain st1 st2 k where b: "act_for (blacklist_access_jti env) (get_active_access_jtis_for_sessions [sid] st) st = (Inr (), st1)"
    and r: "revoke_session (pr_id user) sid (revoke_refresh_tokens_for_sessions [sid] st1) = (Inr k, st2)"
    and m: "\<exists>st3. mark_session_revoked env sid st2 = (Inr (), st3)
      \<and> log_auth ''auth.session_revoked'' (Some sid) (Some (pr_id user)) st3 = (Inr (), st')"
    by (auto simp: logout_session_def act_bind_Inr)
  have "auth_ok_but {} owner st1" using core_marks(1) [OF b] ok by auto
  then have "auth_ok_but {} owner st2" using ok_revoke_one assms r by blast
  then show "auth_ok_but {} owner st'" using m by (auto simp: mark_session_revoked_def log_auth_def)
qed

lemma ok_logout_other: "delivers (auth_ok_but {} owner) (logout_other_sessions env user)"
proof (rule deliversI)
  fix st n st'
  assume ok: "auth_ok_but {} owner st" and l: "logout_other_sessions env user st = (Inr n, st')"
  then obtain keep st0 ids st1 where k: "kept_session user st = (Inr keep, st0)"
    and e: "revoke_sessions_except (pr_id user) keep st0 = (Inr ids, st1)"
    by (auto simp: logout_other_sessions_def act_bind_Inr)
  have "st0 = st" using k
    by (auto simp: kept_session_def act_bind_Inr find_active_by_access_jti_def split: option.splits if_splits list.splits)
  then have st1: "st1 = (if ids = [] then st else
      update_sessions (\<lambda>s. ds_user_id s = pr_id user \<and> ds_session_id s \<in> set ids) (revoke_device (as_now st)) st)"
    using e unfolding \<open>st0 = st\<close> revoke_sessions_except_def Let_def by (auto simp only: prod.inject sum.inject)
  show "auth_ok_but {} owner st'"
  proof (cases "ids = []")
    case True
    then show ?thesis using l k e st1 ok by (simp add: logout_other_sessions_def act_bind_def)
  next
    case False
    then obtain st2 st3 where b: "act_for (blacklist_access_jti env) (get_active_access_jtis_for_sessions ids st1) st1 = (Inr (), st2)"
      and m: "act_for (mark_session_revoked env) ids (revoke_refresh_tokens_for_sessions ids st2) = (Inr (), st3)"
      and g: "\<exists>x. log_auth ''auth.sessions_revoked_other'' (Some (pr_id user)) (Some (pr_id user)) st3 = (Inr x, st')"
      using l k e by (auto simp: logout_other_sessions_def act_bind_Inr)
    have "auth_ok_but ({} \<union> set ids) owner st1"
      using False ok_revoke_sessions [OF ok, of "\<lambda>s. ds_user_id s = pr_id user \<and> ds_session_id s \<in> set ids" "set ids"]
      by (simp add: st1)
    then have "auth_ok_but (set ids) owner st2" using core_marks(1) [OF b] by auto
    then have "auth_ok_but {} owner (revoke_refresh_tokens_for_sessions ids st2)" by (rule ok_close_sessions)
    then show ?thesis using core_marks(2) [OF m] g by (auto simp: log_auth_def)
  qed
qed

subsection \<open>Logging out everywhere\<close>

definition ok_without :: "(string \<Rightarrow> string) \<Rightarrow> string \<Rightarrow> auth_state \<Rightarrow> bool" where
  "ok_without owner u st \<longleftrightarrow> auth_ok_but {} owner st \<and>
     (\<forall>t \<in> set (as_tokens st). rt_user_id t = u \<longrightarrow> \<not> token_active (as_now st) t)"

lemma ok_without_all:
  assumes "auth_ok_but {} owner st" and "revoke_all_for_user u st = (Inr n, st')"
  shows "ok_without owner u st'"
proof -
  have st': "st' = revoke_where (\<lambda>t. rt_user_id t = u \<and> \<not> rt_revoked t) st"
    using assms(2) by (simp add: revoke_all_for_user_def Let_def)
  then show ?thesis using auth_ok_revoke [OF assms(1)]
    by (simp add: ok_without_def revoke_where_def revoke_token_def token_active_def ball_Un)
qed

lemma ok_without_session: "delivers (ok_without owner u) (revoke_session u sid)"
proof (rule deliversI)
  fix st n st'
  let ?hit = "\<lambda>s. ds_user_id s = u \<and> ds_session_id s = strip sid \<and> \<not> ds_revoked s"
  assume ok: "ok_without owner u st" and "revoke_session u sid st = (Inr n, st')"
  then have st': "st' = update_sessions ?hit (revoke_device (as_now st)) st" by (simp add: revoke_session_def Let_def)
  have live: "live_session st v s \<Longrightarrow> v \<noteq> u \<Longrightarrow> live_session st' v s" for v s
    by (force simp: live_session_def st' update_sessions_def)
  have "sessions_ok_but {} st'" unfolding sessions_ok_but_def
  proof (intro ballI impI allI)
    fix t s
    assume t: "t \<in> set (as_tokens st')" "token_active (as_now st') t" "rt_session_id t = Some s"
    then have "t \<in> set (as_tokens st)" "token_active (as_now st) t" by (simp_all add: st' update_sessions_def)
    with ok t(3) show "live_session st' (rt_user_id t) s"
      by (intro live) (auto simp: ok_without_def auth_ok_but_def sessions_ok_but_def)
  qed
  then show "ok_without owner u st'"
    using ok unfolding ok_without_def auth_ok_but_def st' update_sessions_def cap_ok_def
    by (simp add: count_active_for_user_def active_for_user_def)
qed

lemma ok_end_listed: "delivers (auth_ok_but {} owner) (end_listed_sessions env u)"
proof (rule deliversI)
  fix st n st'
  assume ok: "auth_ok_but {} owner st" and "end_listed_sessions env u st = (Inr n, st')"
  then obtain st1 st2 st3 where
    b: "act_for (blacklist_access_jti env) (get_active_access_jtis u st) st = (Inr (), st1)"
    and r: "revoke_all_for_user u st1 = (Inr n, st2)"
    and s: "act_for (\<lambda>sid. act_bind (revoke_session u sid) (\<lambda>_. act_return ())) (map ds_session_id (list_active_sessions u st)) st2 = (Inr (), st3)"
    and m: "act_for (mark_session_revoked env) (map ds_session_id (list_active_sessions u st)) st3 = (Inr (), st')"
    by (auto simp: end_listed_sessions_def act_bind_Inr)
  let ?close = "act_for (\<lambda>sid. act_bind (revoke_session u sid) (\<lambda>_. act_return ())) (map ds_session_id (list_active_sessions u st))"
  have "delivers (ok_without owner u) ?close" by (intro delivers_intros ok_without_session)
  then have d: "ok_without owner u st2 \<Longrightarrow> ok_without owner u st3"
    using s deliversD [of "ok_without owner u" ?close st2 "()" st3] by simp
  have "ok_without owner u st2" using core_marks(1) [OF b] ok ok_without_all [OF _ r] by auto
  then have "ok_without owner u st3" by (rule d)
  then show "auth_ok_but {} owner st'" using core_marks(2) [OF m] by (auto simp: ok_without_def)
qed

lemma ok_logout_all: "delivers (auth_ok_but {} owner) (logout_all env raw)"
  "delivers (auth_ok_but {} owner) (support_issue_temporary_password env actor i new)"
  unfolding logout_all_def support_issue_temporary_password_def invalidate_all_sessions_for_user_def end_all_sessions_def
    increment_session_sv_def
  by (auto intro!: delivers_intros delivers_modify ok_updates ok_end_listed split: option.splits)

lemma ok_maintenance:
  "delivers (auth_ok_but {} owner) (mark_user_suspended i ttl)" "delivers (auth_ok_but {} owner) (unmark_user_suspended i)"
  "delivers (auth_ok_but {} owner) cleanup_expired_tokens"
  unfolding mark_user_suspended_def unmark_user_suspended_def cleanup_expired_tokens_def
  by (auto intro!: delivers_intros delivers_modify auth_ok_cleanup)

lemmas ok_operations = ok_maintenance ok_logout ok_logout_other ok_logout_all ok_register ok_accounts ok_reset ok_invites ok_docs

lemma ok_request: "delivers (auth_ok_but {} owner) m \<Longrightarrow> auth_ok_but {} owner st \<Longrightarrow> auth_ok_but {} owner (snd (run_request m st))"
  by (auto simp: run_request_def delivers_def split: prod.splits sum.splits)

lemma auth_step_ok: "auth_step env avoid st st' \<Longrightarrow> codec_ok env owner \<Longrightarrow> auth_ok_but {} owner st \<Longrightarrow> auth_ok_but {} owner st'"
  by (induction rule: auth_step.induct)
    (auto intro!: ok_request ok_operations ok_login ok_refresh ok_logout_session intro: auth_ok_tick)

interpretation accounts: guarded_machine "auth_step env avoid" "\<lambda>st. codec_ok env owner \<and> auth_ok_but {} owner st"
  "\<lambda>st st'. as_now st \<le> as_now st'" for env avoid owner
  by unfold_locales (auto intro: auth_step_ok order.trans dest: timed.step)

text \<open>
  C4: refresh tokens and sessions stay consistent over every run: a user never has more than three active refresh tokens,
  and an active refresh token with a session belongs to a session of its own user that is not revoked. The clock does not go back.
\<close>

theorem sessions_stay_consistent:
  assumes "codec_ok env owner" and "auth_ok_but {} owner st" and "(auth_step env avoid)\<^sup>*\<^sup>* st st'"
  shows "count_active_for_user u st' \<le> 3 \<and> as_now st \<le> as_now st'
    \<and> (\<forall>t \<in> set (as_tokens st'). token_active (as_now st') t \<longrightarrow> (\<forall>sid. rt_session_id t = Some sid \<longrightarrow>
        (\<exists>s \<in> set (as_sessions st'). ds_session_id s = sid \<and> ds_user_id s = rt_user_id t \<and> \<not> ds_revoked s)))"
proof -
  have "auth_ok_but {} owner st'" "as_now st \<le> as_now st'"
    using accounts.run_invariant [OF assms(3), of owner] assms(1,2) by simp_all
  then show ?thesis
    by (simp add: auth_ok_but_def cap_ok_def sessions_ok_but_def live_session_def MAX_ACTIVE_SESSIONS_PER_USER_def)
qed

lemma sample_codec: "codec_ok sample_env sample_owner"
proof -
  have "takeWhile ((=) CHR ''1'') (replicate n (CHR ''1'') @ CHR ''0'' # xs) = replicate n (CHR ''1'')" for n xs
    by (induction n) auto
  then show ?thesis by (simp add: codec_ok_def sample_env_def sample_owner_def)
qed

theorem sessions_stay_consistent_witness:
  "\<exists>st. (auth_step sample_env {})\<^sup>*\<^sup>* sample_auth st \<and> dead_token ''10au'' st \<and> count_active_for_user ''u'' st \<le> 3"
proof -
  obtain pair st where *: "run_request (refresh_tokens sample_env sample_meta sample_draw ''10au'' (Some CT_ADMIN)) sample_auth
      = (Inr pair, st)" using sample_refresh by blast
  have "auth_step sample_env {} sample_auth (snd (run_request
      (refresh_tokens sample_env sample_meta sample_draw ''10au'' (Some CT_ADMIN)) sample_auth))"
    by (rule auth_step.refresh) (simp add: draw_avoids_def)
  then have run: "(auth_step sample_env {})\<^sup>*\<^sup>* sample_auth st" by (simp add: *)
  have "auth_ok_but {} sample_owner sample_auth"
    by (simp add: auth_ok_but_def keys_ok_def cap_ok_def sessions_ok_but_def live_session_def sample_defs sample_owner_def
        count_active_for_user_def active_for_user_def MAX_ACTIVE_SESSIONS_PER_USER_def)
  have "dead_token ''10au'' st"
    using refresh_kills [OF *] sample_draw_avoids by (simp add: sample_env_def)
  with sessions_stay_consistent [OF sample_codec \<open>auth_ok_but {} sample_owner sample_auth\<close> run, of "''u''"] run
  show ?thesis by blast
qed


end
