(* ===== verification/AuthFlows.thy ===== *)
theory AuthFlows
  imports AuthInvariant
begin

text \<open>
  Properties of single flows: ending the session of somebody else, changing a password, resetting a forgotten one,
  activating an account by invite, and guessing a code for documents.
\<close>

subsection \<open>Sessions of others\<close>

lemma revoked_session_tokens:
  "t \<in> set (as_tokens (revoke_refresh_tokens_for_sessions [sid] st)) \<Longrightarrow> rt_session_id t = Some sid
   \<Longrightarrow> \<not> token_active (as_now st) t"
  by (auto simp: revoke_refresh_tokens_for_sessions_def revoke_where_def revoke_token_def token_active_def in_sessions_def
      split: if_splits)

lemma revoked_session_rejected:
  assumes "marked_since env (SessionRevoked sid) (as_now st) st" and "0 < env_access_minutes env"
    and "at_sid c = Some sid" and "strip sid = sid" and "sid \<noteq> ''''"
  shows "\<exists>e. get_auth_user ct c st = Inl e"
proof -
  have "truthy_str (Some sid)" using assms(5) by (cases sid) auto
  then have "claimed_sid c = Some sid" "truthy_str (claimed_sid c)" using assms(3,4) by (simp_all add: claimed_sid_def)
  moreover have "redis_exists (as_now st) (SessionRevoked sid) (as_redis st)"
    using marked_exists [OF assms(1)] assms(2) by (simp add: seconds_def)
  ultimately show ?thesis unfolding get_auth_user_def by auto
qed

text \<open>
  C38: a session can be ended by anyone who knows its id. A user who calls \<^verbatim>\<open>logout_session\<close> with the id of a session that is
  not his own is told that nothing was revoked, but every refresh token of that session is revoked and every access token
  that carries it is rejected.
\<close>

theorem foreign_session_can_be_ended:
  assumes "\<forall>s \<in> set (as_sessions st). ds_session_id s = sid \<longrightarrow> ds_user_id s \<noteq> pr_id user"
    and "strip sid = sid" and "sid \<noteq> ''''" and "0 < env_access_minutes env"
  shows "\<exists>st'. run_request (logout_session env user sid) st = (Inr 0, st')
    \<and> (\<forall>t \<in> set (as_tokens st'). rt_session_id t = Some sid \<longrightarrow> \<not> token_active (as_now st') t)
    \<and> (\<forall>c ct. at_sid c = Some sid \<longrightarrow> (\<exists>e. get_auth_user ct c st' = Inl e))"
proof -
  obtain r where b: "act_for (blacklist_access_jti env) (get_active_access_jtis_for_sessions [sid] st) st
      = (Inr (), st\<lparr>as_redis := r\<rparr>)"
    using core_marks(1) [of env "get_active_access_jtis_for_sessions [sid] st" st] by (metis prod.collapse)
  define st1 where "st1 = revoke_refresh_tokens_for_sessions [sid] (st\<lparr>as_redis := r\<rparr>)"
  have st1: "as_sessions st1 = as_sessions st" "as_now st1 = as_now st"
    by (simp_all add: st1_def revoke_refresh_tokens_for_sessions_def revoke_where_def)
  define st' where "st' = st1\<lparr>as_redis := redis_set (as_now st) (SessionRevoked sid) RFlag (env_access_minutes env * 60) (as_redis st1),
      as_audit := as_audit st1 @ [\<lparr>aa_action = ''auth.session_revoked'', aa_entity_id = Some sid, aa_user_id = Some (pr_id user)\<rparr>]\<rparr>"
  have none: "filter (\<lambda>s. ds_user_id s = pr_id user \<and> ds_session_id s = strip sid \<and> \<not> ds_revoked s) (as_sessions st1) = []"
    using assms(1,2) st1 by (auto simp: filter_empty_conv)
  have upd: "update_sessions (\<lambda>s. ds_user_id s = pr_id user \<and> ds_session_id s = strip sid \<and> \<not> ds_revoked s) f st1 = st1" for f
  proof -
    have "map (\<lambda>s. if ds_user_id s = pr_id user \<and> ds_session_id s = strip sid \<and> \<not> ds_revoked s then f s else s) (as_sessions st1)
        = as_sessions st1"
      using none by (intro map_idI) (auto simp: filter_empty_conv)
    then show ?thesis by (simp add: update_sessions_def)
  qed
  have run: "run_request (logout_session env user sid) st = (Inr 0, st')"
    using b none upd by (simp add: run_request_Inr logout_session_def act_bind_def st1_def [symmetric] revoke_session_def
        mark_session_revoked_def log_auth_def Let_def st'_def st1)
  moreover have "\<not> token_active (as_now st') t" if "t \<in> set (as_tokens st')" "rt_session_id t = Some sid" for t
    using that revoked_session_tokens [of t sid "st\<lparr>as_redis := r\<rparr>"] by (simp add: st'_def st1_def [symmetric] st1)
  moreover have "marked_since env (SessionRevoked sid) (as_now st') st'"
    by (simp add: marked_since_def st'_def redis_set_def st1)
  ultimately show ?thesis using revoked_session_rejected assms(2-4) by blast
qed

theorem foreign_session_can_be_ended_witness:
  "\<exists>st'. run_request (logout_session sample_env \<lparr>pr_id = ''v'', pr_role = ''ADMIN'', pr_client_type = CT_ADMIN, pr_jti = ''k'',
       pr_sid = None, pr_sv = None, pr_organization_id = None\<rparr> ''s'') sample_auth = (Inr 0, st')
     \<and> (\<forall>t \<in> set (as_tokens st'). rt_session_id t = Some ''s'' \<longrightarrow> \<not> token_active (as_now st') t)"
  using foreign_session_can_be_ended [of sample_auth "''s''" "\<lparr>pr_id = ''v'', pr_role = ''ADMIN'', pr_client_type = CT_ADMIN,
      pr_jti = ''k'', pr_sid = None, pr_sv = None, pr_organization_id = None\<rparr>" sample_env]
  by (auto simp: sample_defs strip_def is_space_def)

subsection \<open>Changing a password\<close>

lemma session_version_cong:
  assumes "map_option ua_session_sv (get_user (at_sub c) st') = map_option ua_session_sv (get_user (at_sub c) st)"
  shows "check_session_version c st' = check_session_version c st"
  using assms by (auto simp: check_session_version_def split: option.splits)

lemma get_auth_user_cong:
  assumes "\<And>i. map_option ua_session_sv (get_user i st') = map_option ua_session_sv (get_user i st)"
    and "as_now st' = as_now st"
    and "\<And>k. rejecting_key k \<or> (\<exists>i. k = UserSuspended i) \<Longrightarrow> as_redis st' k = as_redis st k"
  shows "get_auth_user ct c st' = get_auth_user ct c st"
  using assms session_version_cong [OF assms(1)]
  by (simp add: get_auth_user_def redis_exists_def redis_get_def is_user_suspended_def cong: if_cong)

lemma update_user_keeps_sv:
  assumes "update_user i f st = (Inr (), st')" and "\<And>u. ua_session_sv (f u) = ua_session_sv u"
  shows "map_option ua_session_sv (get_user j st') = map_option ua_session_sv (get_user j st)
    \<and> as_now st' = as_now st \<and> as_redis st' = as_redis st \<and> as_tokens st' = as_tokens st"
proof -
  have "map_option ua_session_sv (get_by_id j (\<lambda>_. True) (map (\<lambda>s. if rid s = i then write_row f s else s) us))
      = map_option ua_session_sv (get_by_id j (\<lambda>_. True) us)" for us
    using assms(2) by (induction us) (auto simp: write_row_def)
  then show ?thesis using assms(1)
    by (auto simp: update_user_def update_by_id_def get_user_def split: sum.splits option.splits)
qed

lemma revoke_credentials_exact:
  "revoke_credentials i st = (Inr (), revoke_doc_tokens i (revoke_where (\<lambda>t. rt_user_id t = i \<and> \<not> rt_revoked t) st))"
  by (simp add: revoke_credentials_def revoke_all_for_user_def act_bind_def Let_def)

lemma revoke_credentials_frame:
  "get_user j (revoke_doc_tokens i (revoke_where Q st)) = get_user j st"
  "as_now (revoke_doc_tokens i (revoke_where Q st)) = as_now st"
  "as_redis (revoke_doc_tokens i (revoke_where Q st)) = as_redis st"
  "as_tokens (revoke_doc_tokens i (revoke_where Q st)) = map (\<lambda>t. if Q t then revoke_token (as_now st) t else t) (as_tokens st)"
  by (simp_all add: get_user_def revoke_doc_tokens_def revoke_where_def)

text \<open>
  C39: a new password does not end what is open. \<^verbatim>\<open>change_password\<close> revokes every refresh token of the user, but every access
  token is accepted or rejected exactly as before: neither the session generation nor a mark in Redis changes.
\<close>

theorem password_change_keeps_access_tokens:
  assumes "run_request (change_password env i current new) st = (Inr (), st')"
  shows "get_auth_user ct c st' = get_auth_user ct c st
    \<and> (\<forall>t \<in> set (as_tokens st'). rt_user_id t = i \<longrightarrow> rt_revoked t)"
proof -
  obtain st1 where u: "update_user i (store_password env i new False (as_now st)) st = (Inr (), st1)"
    and st': "st' = snd (log_auth ''auth.password_changed'' (Some i) (Some i)
        (revoke_doc_tokens i (revoke_where (\<lambda>t. rt_user_id t = i \<and> \<not> rt_revoked t) st1)))"
    using assms by (auto simp: run_request_Inr change_password_def act_bind_Inr revoke_credentials_exact
        split: option.splits if_splits)
  note sv = update_user_keeps_sv [OF u]
  have "get_auth_user ct c st' = get_auth_user ct c st"
    by (rule get_auth_user_cong) (simp_all add: st' log_auth_def revoke_credentials_frame sv store_password_def)
  moreover have "\<forall>t \<in> set (as_tokens st'). rt_user_id t = i \<longrightarrow> rt_revoked t"
    by (simp add: st' log_auth_def revoke_credentials_frame ball_Un revoke_token_def)
  ultimately show ?thesis by blast
qed

theorem password_change_keeps_access_tokens_witness:
  "\<exists>st'. run_request (change_password sample_env ''u'' ''pw'' ''new'') sample_auth = (Inr (), st')
     \<and> get_auth_user CT_ADMIN (sample_claims ''k'') st' = get_auth_user CT_ADMIN (sample_claims ''k'') sample_auth"
proof -
  have "\<exists>st'. run_request (change_password sample_env ''u'' ''pw'' ''new'') sample_auth = (Inr (), st')"
    by (simp add: run_request_Inr change_password_def act_bind_def get_user_def sample_defs update_user_def update_by_id_def
        get_by_id_or_404_def revoke_credentials_exact log_auth_def)
  then show ?thesis using password_change_keeps_access_tokens by blast
qed

subsection \<open>Resetting a forgotten password\<close>

definition try_codes :: "auth_env \<Rightarrow> string \<Rightarrow> string \<Rightarrow> client_type \<Rightarrow> string list \<Rightarrow> auth_state \<Rightarrow> auth_state" where
  \<comment> \<open>one verification request per code\<close>
  "try_codes env raw email ct codes st =
     fold (\<lambda>code s. snd (run_request (verify_password_reset_otp env raw email code ct) s)) codes st"

lemma find_by_email_frame [simp]:
  "find_by_email e (st\<lparr>as_redis := r\<rparr>) = find_by_email e st" "find_by_email e (st\<lparr>as_now := n\<rparr>) = find_by_email e st"
  "find_by_email e (st\<lparr>as_jobs := j\<rparr>) = find_by_email e st" "find_by_email e (st\<lparr>as_audit := a\<rparr>) = find_by_email e st"
  "get_user i (st\<lparr>as_now := n\<rparr>) = get_user i st"
  by (simp_all add: find_by_email_def get_user_def)

lemma with_redis_eval [simp]: "with_redis f st = (Inr (), st\<lparr>as_redis := f (as_now st) (as_redis st)\<rparr>)"
  by (simp add: with_redis_def)

lemma request_reset_exact:
  assumes "find_by_email email st = Some u" and "role_client_type (ua_role u) = ct"
    and "redis_ttl (as_now st) (PwdResetCooldown (env_hash_token env (py_lower (strip email)))) (as_redis st) \<le> 0"
    and "redis_count (redis_get (as_now st) (PwdReset (env_hash_token env (py_lower (strip email)))) (as_redis st)) < 5"
  shows "\<exists>r a. request_password_reset env otp email ct st =
      (Inr (), st\<lparr>as_redis := r, as_audit := a, as_jobs := as_jobs st @ [SendPasswordResetEmail (ua_email u) otp]\<rparr>)
    \<and> r (PwdResetOtp (rid u)) =
        Some (RStamp (env_hash_token env otp) (as_now st div 1000000), Some (as_now st + seconds 900))"
  by (rule exI [of _ "as_redis (snd (request_password_reset env otp email ct st))"],
      rule exI [of _ "as_audit (snd (request_password_reset env otp email ct st))"])
    (simp add: assms request_password_reset_def act_bind_def enforce_password_reset_throttle_def
      PWD_RESET_MAX_DAILY_REQUESTS_def revoke_password_reset_session_def log_auth_def store_password_reset_otp_def
      push_auth_job_def redis_set_def PASSWORD_RESET_EXPIRE_MINUTES_def)

lemma wrong_code_no_trace:
  assumes "find_by_email email st = Some u"
    and "redis_get (as_now st) (PwdResetOtp (rid u)) (as_redis st) = Some (RStamp h iat)" and "h \<noteq> env_hash_token env code"
  shows "run_request (verify_password_reset_otp env raw email code ct) st = (Inl invalid_code, st)"
  using assms by (simp add: run_request_def verify_password_reset_otp_def act_bind_def try_consume_password_reset_otp_def)

lemma try_codes_no_trace:
  assumes "find_by_email email st = Some u"
    and "redis_get (as_now st) (PwdResetOtp (rid u)) (as_redis st) = Some (RStamp h iat)"
    and "\<forall>code \<in> set codes. h \<noteq> env_hash_token env code"
  shows "try_codes env raw email ct codes st = st"
  using assms(3) unfolding try_codes_def by (induction codes) (simp_all add: wrong_code_no_trace [OF assms(1,2)])

lemma verify_reset_exact:
  assumes "find_by_email email st = Some u" and "role_client_type (ua_role u) = ct"
    and "redis_get (as_now st) (PwdResetOtp (rid u)) (as_redis st) = Some (RStamp (env_hash_token env otp) iat)"
  shows "\<exists>r. verify_password_reset_otp env raw email otp ct st = (Inr raw, st\<lparr>as_redis := r\<rparr>)
    \<and> r (PwdResetSess (env_hash_token env raw)) =
        Some (RStamp (rid u) (as_now st div 1000000), Some (as_now st + seconds 1800))"
  using assms
  by (simp add: verify_password_reset_otp_def act_bind_def try_consume_password_reset_otp_def
      revoke_password_reset_session_def redis_set_def PASSWORD_RESET_SESSION_MINUTES_def)
    (rule exI, rule conjI, rule refl, simp)

definition reset_allowed :: "int \<Rightarrow> user_acct \<Rightarrow> bool" where
  \<comment> \<open>no password change after the second in which the code was verified\<close>
  "reset_allowed issued u \<longleftrightarrow> (case ua_password_changed_at u of None \<Rightarrow> True | Some t \<Rightarrow> t \<le> seconds issued)"

lemma atomic_reset_exact:
  assumes "get_user i st = Some u" and "reset_allowed issued u"
  shows "\<exists>us. atomic_password_reset i h (seconds issued) st = (Inr True, st\<lparr>as_users := us\<rparr>)
    \<and> (\<exists>v. get_by_id i (\<lambda>_. True) us = Some v \<and> ua_password_hash v = h)"
proof -
  let ?hit = "\<lambda>u. rid u = i \<and> (case ua_password_changed_at u of None \<Rightarrow> True | Some t \<Rightarrow> t \<le> seconds issued)"
  let ?f = "\<lambda>u. if ?hit u then u\<lparr>ua_password_hash := h, ua_password_changed_at := Some (as_now st)\<rparr> else u"
  have "u \<in> set (as_users st)" "?hit u"
    using assms get_by_id_Some [of i "\<lambda>_. True" "as_users st" u] by (simp_all add: get_user_def reset_allowed_def)
  then have hit: "\<exists>u \<in> set (as_users st). ?hit u" by blast
  have "get_by_id i (\<lambda>_. True) us = Some u \<Longrightarrow> ?hit u \<Longrightarrow> get_by_id i (\<lambda>_. True) (map ?f us) = Some (?f u)" for us
    by (induction us) (auto split: if_splits)
  then have "get_by_id i (\<lambda>_. True) (map ?f (as_users st)) = Some (?f u)"
    using assms(1) \<open>?hit u\<close> by (simp add: get_user_def)
  moreover have "ua_password_hash (?f u) = h" using \<open>?hit u\<close> by simp
  moreover have "atomic_password_reset i h (seconds issued) st = (Inr True, st\<lparr>as_users := map ?f (as_users st)\<rparr>)"
    using hit by (simp only: atomic_password_reset_def Let_def)
  ultimately show ?thesis by blast
qed

lemma confirm_reset_exact:
  assumes "redis_get (as_now st) (PwdResetSess (env_hash_token env (strip token))) (as_redis st) = Some (RStamp i issued)"
    and "get_user i st = Some u" and "role_client_type (ua_role u) = ct" and "reset_allowed issued u"
  shows "\<exists>st'. confirm_password_reset env new token ct st = (Inr (), st')
    \<and> (\<exists>v. get_user i st' = Some v \<and> ua_password_hash v = env_hash_password env new)
    \<and> (\<forall>t \<in> set (as_tokens st'). rt_user_id t = i \<longrightarrow> rt_revoked t)
    \<and> as_redis st' (PwdResetSess (env_hash_token env (strip token))) = None"
proof -
  obtain us where us: "atomic_password_reset i (env_hash_password env new) (seconds issued) st = (Inr True, st\<lparr>as_users := us\<rparr>)"
    "\<exists>v. get_by_id i (\<lambda>_. True) us = Some v \<and> ua_password_hash v = env_hash_password env new"
    using atomic_reset_exact [OF assms(2,4)] by blast
  then show ?thesis using assms(1-3)
    by (simp add: confirm_password_reset_def Let_def act_bind_def revoke_credentials_exact log_auth_def
        redis_delete_def revoke_credentials_frame)
      (simp add: get_user_def revoke_doc_tokens_def revoke_where_def ball_Un revoke_token_def)
qed

lemma confirm_without_session:
  "as_redis st (PwdResetSess (env_hash_token env (strip token))) = None
   \<Longrightarrow> fst (confirm_password_reset env new token ct st) = Inl invalid_reset"
  by (simp add: confirm_password_reset_def Let_def act_bind_def redis_get_def)

text \<open>
  C23: the reset of a forgotten password works and its tokens are used once. A code that was requested at \<open>t0\<close> and is verified
  within fifteen minutes, after any number of wrong codes (which leave no trace: guesses are not counted), gives a reset
  token; used within thirty minutes it stores the new password and revokes all refresh tokens; a second use is refused.
  The password must not have been changed after the second in which the code was verified.
\<close>

theorem password_reset_works:
  assumes "find_by_email email st = Some u" and "get_user (rid u) st = Some u" and "role_client_type (ua_role u) = ct"
    and "redis_ttl (as_now st) (PwdResetCooldown (env_hash_token env (py_lower (strip email)))) (as_redis st) \<le> 0"
    and "redis_count (redis_get (as_now st) (PwdReset (env_hash_token env (py_lower (strip email)))) (as_redis st)) < 5"
    and "t1 < as_now st + seconds 900" and "t2 < t1 + seconds 1800" and "reset_allowed (t1 div 1000000) u"
    and "\<forall>code \<in> set codes. env_hash_token env otp \<noteq> env_hash_token env code" and "strip raw = raw"
  shows "\<exists>st1 st3 st4.
      run_request (request_password_reset env otp email ct) st = (Inr (), st1)
    \<and> try_codes env raw email ct codes (st1\<lparr>as_now := t1\<rparr>) = st1\<lparr>as_now := t1\<rparr>
    \<and> run_request (verify_password_reset_otp env raw email otp ct) (st1\<lparr>as_now := t1\<rparr>) = (Inr raw, st3)
    \<and> run_request (confirm_password_reset env new raw ct) (st3\<lparr>as_now := t2\<rparr>) = (Inr (), st4)
    \<and> (\<exists>v. get_user (rid u) st4 = Some v \<and> ua_password_hash v = env_hash_password env new)
    \<and> (\<forall>t \<in> set (as_tokens st4). rt_user_id t = rid u \<longrightarrow> rt_revoked t)
    \<and> fst (run_request (confirm_password_reset env other raw ct) st4) = Inl invalid_reset"
proof -
  obtain r a where req: "run_request (request_password_reset env otp email ct) st =
      (Inr (), st\<lparr>as_redis := r, as_audit := a, as_jobs := as_jobs st @ [SendPasswordResetEmail (ua_email u) otp]\<rparr>)"
    and r: "r (PwdResetOtp (rid u)) =
      Some (RStamp (env_hash_token env otp) (as_now st div 1000000), Some (as_now st + seconds 900))"
    using request_reset_exact [OF assms(1,3-5), of otp] unfolding run_request_Inr by blast
  define s1 where "s1 = (snd (run_request (request_password_reset env otp email ct) st))\<lparr>as_now := t1\<rparr>"
  have s1: "find_by_email email s1 = Some u" "get_user (rid u) s1 = Some u" "as_now s1 = t1"
      "redis_get (as_now s1) (PwdResetOtp (rid u)) (as_redis s1) = Some (RStamp (env_hash_token env otp) (as_now st div 1000000))"
    using assms(1,2,6) r by (simp_all add: s1_def req redis_get_def)
  obtain r3 where ver: "run_request (verify_password_reset_otp env raw email otp ct) s1 = (Inr raw, s1\<lparr>as_redis := r3\<rparr>)"
    and r3: "r3 (PwdResetSess (env_hash_token env raw)) = Some (RStamp (rid u) (t1 div 1000000), Some (t1 + seconds 1800))"
    using verify_reset_exact [OF s1(1) assms(3) s1(4)] s1(3) by (auto simp: run_request_Inr)
  define s3 where "s3 = s1\<lparr>as_redis := r3, as_now := t2\<rparr>"
  have s3: "redis_get (as_now s3) (PwdResetSess (env_hash_token env (strip raw))) (as_redis s3) = Some (RStamp (rid u) (t1 div 1000000))"
      "get_user (rid u) s3 = Some u"
    using r3 assms(7,10) s1(2) by (simp_all add: s3_def redis_get_def)
  obtain s4 where con: "run_request (confirm_password_reset env new raw ct) s3 = (Inr (), s4)"
    and s4: "\<exists>v. get_user (rid u) s4 = Some v \<and> ua_password_hash v = env_hash_password env new"
      "\<forall>t \<in> set (as_tokens s4). rt_user_id t = rid u \<longrightarrow> rt_revoked t"
      "as_redis s4 (PwdResetSess (env_hash_token env (strip raw))) = None"
    using confirm_reset_exact [OF s3 assms(3,8), of new] by (auto simp: run_request_Inr)
  have "try_codes env raw email ct codes s1 = s1" using try_codes_no_trace [OF s1(1,4) assms(9)] .
  with req ver con s4 confirm_without_session [OF s4(3)] show ?thesis
    unfolding s1_def s3_def by (metis prod.collapse fst_run_request snd_conv)
qed

theorem password_reset_works_witness:
  "\<exists>st1 st3 st4.
      run_request (request_password_reset sample_env ''2'' ''u@x'' CT_ADMIN) sample_auth = (Inr (), st1)
    \<and> run_request (verify_password_reset_otp sample_env ''raw'' ''u@x'' ''2'' CT_ADMIN) (st1\<lparr>as_now := 5\<rparr>) = (Inr ''raw'', st3)
    \<and> run_request (confirm_password_reset sample_env ''new'' ''raw'' CT_ADMIN) (st3\<lparr>as_now := 9\<rparr>) = (Inr (), st4)"
proof -
  have "find_by_email ''u@x'' sample_auth = Some (sample_account ''u'' ''pw'' 4)"
    by (simp add: find_by_email_def sample_defs py_lower_def strip_def is_space_def lower_char_def)
  moreover have "get_user ''u'' sample_auth = Some (sample_account ''u'' ''pw'' 4)" by (simp add: get_user_def sample_defs)
  ultimately show ?thesis
    using password_reset_works [of "''u@x''" sample_auth "sample_account ''u'' ''pw'' 4" CT_ADMIN sample_env 5 9 "[''1'']" "''2''" "''raw''"
        "''new''" "''other''"]
    by (simp add: sample_defs redis_ttl_def redis_exists_def redis_get_def redis_count_def seconds_def reset_allowed_def strip_def is_space_def)
      blast
qed

subsection \<open>Activating an account\<close>

lemma update_user_verifies:
  assumes "update_user i (activated_user env pw now) st = (Inr (), st')"
  shows "verified_account i st'"
proof -
  define g where "g = (\<lambda>s. if rid s = i then write_row (activated_user env pw now) s else s)"
  have hit: "\<exists>u \<in> set (as_users st). rid u = i" and st': "as_users st' = map g (as_users st)"
    using assms by (auto simp: update_user_def update_by_id_def get_by_id_or_404_def g_def
        split: sum.splits option.splits dest: get_by_id_Some)
  have g: "rid (g s) = rid s" for s by (simp add: g_def write_row_def)
  have "rid s = i \<Longrightarrow> ua_email_verified (g s)" for s by (simp add: g_def write_row_def activated_user_def)
  with hit show ?thesis by (auto simp: verified_account_def st' g image_image)
qed

lemma activation_verifies:
  assumes "complete_invite_activation env token pw allowed st = (Inr i, st')"
  shows "verified_account i st'"
proof -
  obtain now st1 st2 n st3 a u where st1: "update_user i (activated_user env pw now) st1 = (Inr (), st2)"
    and st3: "revoke_all_for_user i st2 = (Inr n, st3)"
    and st': "st' = snd (activate_role_specific_profile u (snd (log_auth a (Some (rid u)) (Some (rid u)) st3)))"
  proof -
    obtain now iv st0 where "complete_invite_activation env token pw allowed st0 = (Inr i, st')"
      and iv: "find_pending_by_token_hash (env_hash_token env token) st0 = Some iv" and now: "now = as_now st0"
      using assms by (auto simp: complete_invite_activation_def act_bind_Inr split: option.splits)
    then obtain u st1 st2 st3 st4 n where "iv_user_id iv = i"
        "update_user i (activated_user env pw now) st1 = (Inr (), st2)" "revoke_all_for_user i st2 = (Inr n, st3)"
        "log_auth (if allowed = Some [DRIVER] then ''auth.driver_activation_completed'' else ''auth.invite_activated'')
           (Some (rid u)) (Some (rid u)) st3 = (Inr (), st4)"
        "activate_role_specific_profile u st4 = (Inr (), st')"
      unfolding complete_invite_activation_def act_bind_Inr
      by (auto simp: act_bind_Inr split: option.splits)
    then show thesis using that by (metis snd_conv)
  qed
  have "verified_account i st3"
    using keepsD [OF verified.keep_actions(2) update_user_verifies [OF st1], of i] st3 by simp
  then show ?thesis unfolding st' by (intro keepsD [OF verified.keep_profile] keepsD [OF verified.keep_log])
qed

lemma verified_not_pending:
  assumes "verified_account i st"
  shows "fst (complete_invite_activation env token pw allowed st) \<noteq> Inr i"
proof
  assume "fst (complete_invite_activation env token pw allowed st) = Inr i"
  then obtain st' iv where "find_pending_by_token_hash (env_hash_token env token) st = Some iv" "iv_user_id iv = i"
    by (cases "complete_invite_activation env token pw allowed st")
      (auto simp: complete_invite_activation_def act_bind_Inr split: option.splits)
  then have "invite_pending (env_hash_token env token) st iv"
    by (auto simp: find_pending_by_token_hash_def find_Some_iff)
  then obtain u where "get_user i st = Some u" "\<not> ua_email_verified u"
    using \<open>iv_user_id iv = i\<close> by (auto simp: invite_pending_def split: option.splits)
  with assms show False by (auto simp: verified_account_def get_user_def dest: get_by_id_Some)
qed

text \<open>
  C22: an account is activated by invite at most once. After an activation has succeeded, no activation succeeds for the same
  account in any state that can be reached, with whatever invite, also one that was created before or after it; the account
  keeps its verified e-mail address.
\<close>

theorem account_activates_once:
  assumes "run_request (complete_invite_activation env token pw allowed) st = (Inr i, st1)"
    and "(auth_step env avoid)\<^sup>*\<^sup>* st1 st2"
  shows "fst (run_request (complete_invite_activation env2 token2 pw2 allowed2) st2) \<noteq> Inr i
    \<and> (\<exists>u. get_user i st2 = Some u \<and> ua_email_verified u)"
proof -
  have "verified_account i st1" using assms(1) activation_verifies by (simp add: run_request_Inr)
  then have v: "verified_account i st2" by (rule verified.run [OF assms(2)])
  then have "get_user i st2 \<noteq> None" by (auto simp: verified_account_def get_user_def get_by_id_def find_None_iff)
  then obtain u where u: "get_user i st2 = Some u" by blast
  then have "ua_email_verified u"
    using v by (auto simp: verified_account_def get_user_def dest: get_by_id_Some)
  with verified_not_pending [OF v] u show ?thesis by simp
qed

definition sample_invited :: auth_state where
  "sample_invited = sample_auth\<lparr>as_invites := [new_invite sample_env ''i'' ''link'' ''u'' 7 None 0]\<rparr>"

theorem account_activates_once_witness:
  "\<exists>st1. run_request (complete_invite_activation sample_env ''link'' ''new'' None) sample_invited = (Inr ''u'', st1)
     \<and> fst (run_request (complete_invite_activation sample_env ''link'' ''new'' None) st1) \<noteq> Inr ''u''"
proof -
  have "\<exists>st1. run_request (complete_invite_activation sample_env ''link'' ''new'' None) sample_invited = (Inr ''u'', st1)"
    by (simp add: run_request_Inr complete_invite_activation_def act_bind_def find_pending_by_token_hash_def invite_pending_def
        sample_invited_def new_invite_def sample_defs get_user_def seconds_def mark_used_and_invalidate_sibling_invites_def
        update_user_def update_by_id_def get_by_id_or_404_def revoke_all_for_user_def log_auth_def
        invalidate_pending_invites_for_user_def use_invites_where_def use_invite_def
        activate_role_specific_profile_def Let_def)
  then show ?thesis using account_activates_once by blast
qed

subsection \<open>Guessing a code for documents\<close>

definition try_doc_code :: "auth_env \<Rightarrow> string \<Rightarrow> string \<Rightarrow> doc_access_scope \<Rightarrow> int \<times> string \<Rightarrow> auth_state \<Rightarrow> auth_state" where
  \<comment> \<open>a verification request at a time\<close>
  "try_doc_code env raw u scope p st =
     snd (run_request (verify_doc_otp env raw u (snd p) scope) (st\<lparr>as_now := fst p\<rparr>))"

definition never_issued :: "string \<Rightarrow> doc_access_scope \<Rightarrow> auth_state \<Rightarrow> string \<Rightarrow> bool" where
  "never_issued u scope st code \<longleftrightarrow>
     (\<forall>c \<in> set (as_doc_otps st). do_user_id c = u \<longrightarrow> do_scope c = scope \<longrightarrow> do_code c \<noteq> code)"

definition after_failure :: "string \<Rightarrow> doc_access_scope \<Rightarrow> int \<Rightarrow> redis \<Rightarrow> redis" where
  "after_failure u scope now r =
     (let (n, r1) = redis_incr now (DocOtpFail u scope) r;
          r2 = (if n = 1 then redis_expire now (DocOtpFail u scope) 600 r1 else r1)
      in if DOC_OTP_VERIFY_FAIL_MAX \<le> n
         then redis_delete (DocOtpFail u scope) (redis_set now (DocOtpLock u scope) RFlag 900 r2)
         else r2)"

lemma never_issued_not_found: "never_issued u scope st code \<Longrightarrow> find_valid_otp u code scope (st\<lparr>as_now := t\<rparr>) = None"
proof -
  assume "never_issued u scope st code"
  then have "filter (\<lambda>c. doc_otp_live u scope t c \<and> do_code c = code) (as_doc_otps st) = []"
    by (auto simp: never_issued_def doc_otp_live_def filter_empty_conv)
  then show ?thesis by (simp add: find_valid_otp_def)
qed

lemma wrong_doc_code:
  assumes "never_issued u scope st (snd p)" and "redis_get (fst p) (DocOtpLock u scope) (as_redis st) = None"
  shows "try_doc_code env raw u scope p st = st\<lparr>as_now := fst p, as_redis := after_failure u scope (fst p) (as_redis st)\<rparr>"
  using assms never_issued_not_found [OF assms(1), of "fst p"]
  by (simp add: try_doc_code_def run_request_def verify_doc_otp_def enforce_doc_otp_verify_not_locked_def act_bind_def
      redis_exists_def record_doc_otp_verify_failure_def doc_redis_def after_failure_def Let_def
      cong: prod.case_cong if_cong)

lemma first_failure:
  "redis_get now (DocOtpFail u scope) r = None
   \<Longrightarrow> after_failure u scope now r = r(DocOtpFail u scope \<mapsto> (RCount 1, Some (now + seconds 600)))"
  by (simp add: after_failure_def redis_incr_def redis_count_def redis_exists_def redis_expire_def DOC_OTP_VERIFY_FAIL_MAX_def)

lemma later_failure:
  assumes "r (DocOtpFail u scope) = Some (RCount k, Some e)" and "now < e" and "0 < k"
  shows "after_failure u scope now r =
    (if k < 4 then r(DocOtpFail u scope \<mapsto> (RCount (k + 1), Some e))
     else r(DocOtpLock u scope \<mapsto> (RFlag, Some (now + seconds 900)), DocOtpFail u scope := None))"
  using assms by (simp add: after_failure_def redis_incr_def redis_count_def redis_exists_def redis_get_def
      DOC_OTP_VERIFY_FAIL_MAX_def redis_delete_def redis_set_def fun_upd_twist Let_def)

lemma redis_gone: "redis_get t k r = None \<Longrightarrow> t \<le> t' \<Longrightarrow> redis_get t' k r = None"
  by (auto simp: redis_get_def split: option.splits prod.splits if_splits)

definition counted :: "string \<Rightarrow> doc_access_scope \<Rightarrow> auth_state \<Rightarrow> int \<Rightarrow> int \<Rightarrow> int \<Rightarrow> auth_state \<Rightarrow> bool" where
  \<comment> \<open>\<open>k\<close> failures since \<open>t0\<close>, kept until \<open>e\<close>, and nothing else has changed since \<open>st\<close>\<close>
  "counted u scope st t0 e k s \<longleftrightarrow> as_redis s (DocOtpFail u scope) = Some (RCount k, Some e) \<and>
     redis_get t0 (DocOtpLock u scope) (as_redis s) = None \<and> as_doc_otps s = as_doc_otps st"

lemma counted_try:
  assumes "counted u scope st t0 e k s" and "never_issued u scope st (snd p)" and "t0 \<le> fst p" and "fst p < e" and "0 < k"
  shows "try_doc_code env raw u scope p s = s\<lparr>as_now := fst p, as_redis :=
      (if k < 4 then (as_redis s)(DocOtpFail u scope \<mapsto> (RCount (k + 1), Some e))
       else (as_redis s)(DocOtpLock u scope \<mapsto> (RFlag, Some (fst p + seconds 900)), DocOtpFail u scope := None))\<rparr>"
proof -
  have s: "never_issued u scope s (snd p)" "redis_get (fst p) (DocOtpLock u scope) (as_redis s) = None"
    using assms(1-3) redis_gone by (auto simp: counted_def never_issued_def)
  have "as_redis s (DocOtpFail u scope) = Some (RCount k, Some e)" using assms(1) by (simp add: counted_def)
  from wrong_doc_code [OF s] later_failure [of "as_redis s" u scope k e "fst p", OF this assms(4,5)] show ?thesis by simp
qed

lemma counted_run:
  assumes "counted u scope st t0 e k s" and "0 < k" and "k + int (length ps) \<le> 4"
    and "\<forall>p \<in> set ps. never_issued u scope st (snd p) \<and> t0 \<le> fst p \<and> fst p < e"
  shows "counted u scope st t0 e (k + int (length ps)) (fold (try_doc_code env raw u scope) ps s)"
  using assms
proof (induction ps arbitrary: s k)
  case (Cons p ps)
  have p: "never_issued u scope st (snd p)" "t0 \<le> fst p" "fst p < e" and "k < 4" using Cons.prems(3,4) by auto
  then have "counted u scope st t0 e (k + 1) (try_doc_code env raw u scope p s)"
    using Cons.prems(1) by (simp add: counted_try [OF Cons.prems(1) p Cons.prems(2)] counted_def redis_get_def)
  from Cons.IH [OF this] Cons.prems show ?case by (simp add: algebra_simps)
qed simp

lemma ttl_bounds:
  fixes d :: int assumes "0 \<le> d" and "d \<le> 900000000"
  shows "0 \<le> (d div 1000 + 500) div 1000" and "(d div 1000 + 500) div 1000 \<le> 900"
  using assms zdiv_mono1 [of d 900000000 1000] zdiv_mono1 [of "d div 1000 + 500" 900500 1000] by simp_all

text \<open>
  C21: guessing a code for documents is bounded. Five verification requests with codes that were never issued, the last ones
  within ten minutes of the first, lock the verification for 15 minutes: every further request is refused with the
  seconds left, also one with a code that is valid. The requests fail and roll their transactions back, but the counter
  in Redis stays.
\<close>

theorem doc_code_guesses_bounded:
  assumes "length ps = 3" and "\<forall>p \<in> set (ps @ [(t1, c1)]). never_issued u scope st (snd p) \<and> t0 \<le> fst p \<and> fst p < t0 + seconds 600"
    and "never_issued u scope st c0"
    and "redis_get t0 (DocOtpFail u scope) (as_redis st) = None" and "redis_get t0 (DocOtpLock u scope) (as_redis st) = None"
    and "st' = fold (try_doc_code env raw u scope) ((t0, c0) # ps @ [(t1, c1)]) st"
    and "t1 \<le> t" and "t < t1 + seconds 900"
  shows "\<exists>msg wait. fst (run_request (verify_doc_otp env raw u code scope) (st'\<lparr>as_now := t\<rparr>)) = Inl (RateLimitError msg wait)
    \<and> 0 \<le> wait \<and> wait \<le> 900 \<and> as_doc_otps st' = as_doc_otps st"
proof -
  let ?s1 = "try_doc_code env raw u scope (t0, c0) st"
  have s1: "?s1 = st\<lparr>as_now := t0, as_redis := (as_redis st)(DocOtpFail u scope \<mapsto> (RCount 1, Some (t0 + seconds 600)))\<rparr>"
    using wrong_doc_code [of u scope st "(t0, c0)"] first_failure [OF assms(4)] assms(3,5) by simp
  have "counted u scope st t0 (t0 + seconds 600) 1 ?s1" using assms(5) by (simp add: s1 counted_def redis_get_def)
  from counted_run [OF this, of ps] assms(1,2)
  have c: "counted u scope st t0 (t0 + seconds 600) 4 (fold (try_doc_code env raw u scope) ps ?s1)" by simp
  have "as_redis st' (DocOtpLock u scope) = Some (RFlag, Some (t1 + seconds 900))" "as_doc_otps st' = as_doc_otps st"
    using assms(2) c by (simp_all add: assms(6) counted_try [OF c] counted_def)
  then show ?thesis using assms(7,8)
    by (simp add: verify_doc_otp_def enforce_doc_otp_verify_not_locked_def act_bind_def redis_exists_def redis_ttl_def
        redis_get_def seconds_def ttl_bounds)
qed

definition sample_coded :: auth_state where
  "sample_coded = sample_auth\<lparr>as_doc_otps := [\<lparr>do_id = ''o'', do_user_id = ''u'', do_code = ''right'', do_scope = ORG_DOCUMENTS,
     do_expires_at = seconds 600, do_is_used = False, do_created_at = 0\<rparr>]\<rparr>"

theorem doc_code_guesses_bounded_witness:
  "find_valid_otp ''u'' ''right'' ORG_DOCUMENTS sample_coded \<noteq> None
   \<and> (\<exists>st' msg wait. fst (run_request (verify_doc_otp sample_env ''raw'' ''u'' ''right'' ORG_DOCUMENTS) st') = Inl (RateLimitError msg wait)
       \<and> as_doc_otps st' = as_doc_otps sample_coded)"
proof
  show "find_valid_otp ''u'' ''right'' ORG_DOCUMENTS sample_coded \<noteq> None"
    by (simp add: find_valid_otp_def doc_otp_live_def sample_coded_def sample_auth_def seconds_def)
  let ?ps = "[(1, ''a''), (2, ''b''), (3, ''c'')] :: (int \<times> string) list"
  define st' where "st' = fold (try_doc_code sample_env ''raw'' ''u'' ORG_DOCUMENTS) ((0, ''z'') # ?ps @ [(4, ''d'')]) sample_coded"
  have "\<exists>msg wait. fst (run_request (verify_doc_otp sample_env ''raw'' ''u'' ''right'' ORG_DOCUMENTS) (st'\<lparr>as_now := 5\<rparr>))
      = Inl (RateLimitError msg wait) \<and> 0 \<le> wait \<and> wait \<le> 900 \<and> as_doc_otps st' = as_doc_otps sample_coded"
    by (rule doc_code_guesses_bounded [OF _ _ _ _ _ st'_def])
      (auto simp: never_issued_def sample_coded_def sample_auth_def seconds_def redis_get_def)
  then obtain msg wait where "fst (run_request (verify_doc_otp sample_env ''raw'' ''u'' ''right'' ORG_DOCUMENTS) (st'\<lparr>as_now := 5\<rparr>))
      = Inl (RateLimitError msg wait)" "as_doc_otps (st'\<lparr>as_now := 5\<rparr>) = as_doc_otps sample_coded" by auto
  then show "\<exists>st' msg wait. fst (run_request (verify_doc_otp sample_env ''raw'' ''u'' ''right'' ORG_DOCUMENTS) st')
      = Inl (RateLimitError msg wait) \<and> as_doc_otps st' = as_doc_otps sample_coded" by blast
qed

end
