(* ===== verification/Spec2Isabelle.thy ===== *)
theory Spec2Isabelle
  imports Money Repository AuditTrail Pricing OrgCredit CreditApplications BillingBooks Invoices Payments CreditNotes Refunds Ledger Statements OrderLifecycle AuthFlows
begin

text \<open>
  A verification of the core of the courier back end: what an order costs, what a customer organisation may
  still spend, what it is billed, what it has paid, what its statements say, what happens to its parcels,
  who may sign in and for how long, and what the audit trail records of all this.

  \<^bold>\<open>The program.\<close> A FastAPI application over one SQL database. A module under \<^verbatim>\<open>src/app/modules\<close> has models
  (tables), repositories (queries) and a service (the rules). A request runs one service operation in one
  session; the session commits when the operation returns and rolls back when it raises. Background workers
  run service operations in the same way. Services call each other: pricing feeds the order service, orders and
  refunds create and change invoices, payments are allocated to invoices, credit notes reduce what is
  outstanding, statements read all of it, and nearly every operation ends in \<^verbatim>\<open>AuditService.log\<close>.

  \<^bold>\<open>How it is modelled.\<close> A table is the list of its rows in insertion order, a row a record with the columns
  the modelled code reads or writes (extending \<^verbatim>\<open>row\<close>, the id and the version of \<^verbatim>\<open>BaseModel\<close>). The state
  of a module is a record of tables. An operation is a function from its arguments and the state to a result:
  \<^verbatim>\<open>Inl\<close> an application error, \<^verbatim>\<open>Inr\<close> the value returned and the new state. As an exception rolls the transaction
  back, an error carries no state (authentication, which also writes to Redis, is different: see \<^verbatim>\<open>AuthData\<close>). Operations that lock their rows, or that run in one transaction, are single steps;
  where the code checks before it locks (consuming credit), the two halves are separate steps that
  interleave. Money is an exact rational, and \<^verbatim>\<open>is_money\<close> says that it is a whole number of pence;
  the two roundings of \<^verbatim>\<open>Decimal\<close> are functions. Identifiers of new rows, drawn numbers and the clock are
  arguments, with the freshness of an id a hypothesis where a property needs it.

  \<^bold>\<open>The theories.\<close>

  \<^item> \<^verbatim>\<open>Prelude\<close>: the errors of \<^verbatim>\<open>app/common/exceptions.py\<close> with their status codes, sequencing of fallible
    steps, Python string operations, JSON values, list lemmas, and the interface \<^verbatim>\<open>guarded_machine\<close> (an invariant
    and a promise that every step keeps, hence every run).
  \<^item> \<^verbatim>\<open>Money\<close>: \<^verbatim>\<open>quantize\<close> half up and half even, decimal texts and their parser.
  \<^item> \<^verbatim>\<open>Repository\<close>: \<^verbatim>\<open>app/common/repository.py\<close>, reads by id, creation, versioned updates, deletion. The interface
    \<^verbatim>\<open>versioned_store\<close> states optimistic locking for its clients: of two commits against the same
    version one is refused.
  \<^item> \<^verbatim>\<open>AuditTrail\<close>: \<^verbatim>\<open>app/modules/audit\<close>, the hash chain per organisation (\<^verbatim>\<open>AuditService.log\<close>) and the verification
    endpoint. The digest is a parameter. Every run keeps the chain, and a row that was logged verifies.
  \<^item> \<^verbatim>\<open>Pricing\<close>: \<^verbatim>\<open>app/modules/orders/pricing.py\<close>, the price of a stop (plan, packages, distance, discounts, minimum
    charge, VAT), the totals of an order, and re-pricing from the stored snapshot, which agrees with the first price.
  \<^item> \<^verbatim>\<open>OrgCredit\<close>: \<^verbatim>\<open>app/modules/org_credit/service.py\<close>, the life of a credit account (\<^verbatim>\<open>credit_step\<close>), its ledger
    with idempotency keys, and concurrent consumptions (\<^verbatim>\<open>consume_interleave\<close>), which refine a serial order.
  \<^item> \<^verbatim>\<open>CreditApplications\<close>: \<^verbatim>\<open>app/modules/org_credit_applications/service.py\<close>, drafts, publication, review, credit check, decision
    and cool-down as one machine (\<^verbatim>\<open>application_step\<close>) together with the credit accounts. The specification is the life
    cycle \<^verbatim>\<open>track_move\<close> of a single application, which every run refines; and the gaps: an unsubmitted draft can be approved,
    a cancelled investigation blocks later checks.
  \<^item> \<^verbatim>\<open>BillingData\<close>, \<^verbatim>\<open>BillingBooks\<close>: the tables of \<^verbatim>\<open>app/modules/billing\<close> and \<^verbatim>\<open>app/modules/invoices\<close>, the aggregates
    and the projections stored on invoices and payments; the invariant \<^verbatim>\<open>books_but P I\<close>, true of all rows but those
    that an operation has touched and not yet recomputed, and what each shared step does to these two sets.
  \<^item> \<^verbatim>\<open>Invoices\<close>, \<^verbatim>\<open>Payments\<close>, \<^verbatim>\<open>CreditNotes\<close>, \<^verbatim>\<open>Refunds\<close>: the operations of \<^verbatim>\<open>invoices/service.py\<close>, \<^verbatim>\<open>billing/service.py\<close>
    and \<^verbatim>\<open>integrations/braintree/transactions.py\<close>, on every branch. The limits (an allocation stays within payment and
    invoice, a credit note within what is outstanding, a refund within the payment) are theorems, as are the
    gaps between them (a voided invoice still takes money, bank refunds can exceed the payment).
  \<^item> \<^verbatim>\<open>Ledger\<close>: all of these as one machine (\<^verbatim>\<open>billing_step\<close>), interpreted as a \<^verbatim>\<open>guarded_machine\<close>: the books and the
    refund table agree after every run, and issued invoices stay closed once they are.
  \<^item> \<^verbatim>\<open>Calendar\<close>, \<^verbatim>\<open>StatementSchedule\<close>: dates with their order and ordinals, and \<^verbatim>\<open>account_statements/scheduling.py\<close>: periods and
    the next run of a schedule: the first documented run after now, but for two cases the theorem names. The interface \<^verbatim>\<open>run_zone\<close> says what is
    used of a time zone, and is interpreted on UTC.
  \<^item> \<^verbatim>\<open>Statements\<close>: \<^verbatim>\<open>account_statements/ledger.py\<close>, \<^verbatim>\<open>service.py\<close>, \<^verbatim>\<open>tasks.py\<close>: the ledger of a period, statements and
    their PDF states, schedules and the pass over the due ones.
  \<^item> \<^verbatim>\<open>OrderStatus\<close>, \<^verbatim>\<open>OrderLifecycle\<close>: \<^verbatim>\<open>orders/enums.py\<close> and the second half of \<^verbatim>\<open>orders/service.py\<close>: cancelling, rescheduling,
    returning and finding parcels. The specification is \<^verbatim>\<open>package_move\<close> on single parcels; every operation is a sequence of
    micro steps, and the logs of packages and stops replay to the stored statuses. A cancellation is specified on every table.
  \<^item> \<^verbatim>\<open>AuthData\<close>: users, refresh tokens, device sessions, invites, codes and Redis keys of \<^verbatim>\<open>app/modules/auth\<close> and
    \<^verbatim>\<open>app/modules/user\<close>. An operation here is an action that returns a state also when it raises, and \<^verbatim>\<open>run_request\<close> is the
    session of a request: it rolls the tables back and leaves Redis and the job queue.
  \<^item> \<^verbatim>\<open>AuthSessions\<close>, \<^verbatim>\<open>Credentials\<close>, \<^verbatim>\<open>DocAccess\<close>: \<^verbatim>\<open>auth/service.py\<close>, \<^verbatim>\<open>_get_auth_user\<close> of \<^verbatim>\<open>common/deps.py\<close> and
    \<^verbatim>\<open>organizations/doc_access_service.py\<close>: login, token rotation, logout, registration, passwords, invites, document codes.
  \<^item> \<^verbatim>\<open>AuthFrame\<close>: the requests as one step relation (\<^verbatim>\<open>auth_step\<close>) and the interface \<^verbatim>\<open>auth_frame\<close>: a predicate that survives the
    elementary changes (a user row grows, a token is revoked, a key is set to a value of its kind) survives every
    run. It is interpreted on the facts no operation takes back: a dead token, a session generation, a verified account, a
    mark in Redis.
  \<^item> \<^verbatim>\<open>AuthSafety\<close>, \<^verbatim>\<open>AuthInvariant\<close>, \<^verbatim>\<open>AuthFlows\<close>: what follows. Rotation and logout are final, refresh tokens and sessions stay
    consistent over every run (a \<^verbatim>\<open>guarded_machine\<close>), a reset and an activation work once, guesses at document codes are
    bounded; and the gaps: the login lockout is rolled back, foreign sessions can be ended, a password change keeps access tokens.

  \<^bold>\<open>Loops.\<close> The searches for the next run and the pass over the due schedules are \<^verbatim>\<open>while\<close> loops in the code and
  \<^verbatim>\<open>partial_function (option)\<close> here; that they return is proved (\<^verbatim>\<open>next_run_earliest_but_two_cases\<close>, \<^verbatim>\<open>due_schedules_all_processed\<close>), so no fuel
  is used. All other loops of the code run over a list and are structural recursion.

  \<^bold>\<open>Parameters.\<close> SHA-256, argon2, the encoding of refresh tokens, the payment provider, the zone database, image upload, rendering, the job queue and mail are
  arguments of the definitions that use them; no property asks more of them than is stated in its hypotheses.

  \<^bold>\<open>Not modelled.\<close> Listings, reports, exports and dashboards, which only read; routing, schemas and the rendering of errors;
  the clients of external services (QuickBooks, Creditsafe, Google Maps, OSRM, Braintree beyond a reversal);
  notifications; cookies, listings of sessions, reminders and requests for new links, and the codes of shared links; fleet, drivers, planning, warehouse and crew screens; onboarding of organisations. They are not
  called by the modelled operations, or only through a job that is put into an outbox. The isolation of two transactions that
  touch different rows is taken for granted, as is the 28-digit precision of \<^verbatim>\<open>Decimal\<close>.
\<close>

end
